(* ===== verification/Prelude.thy ===== *)
theory Prelude
  imports Main "HOL-Library.AList" "HOL-Library.List_Lexorder" "HOL-Library.Char_ord"
begin

text \<open>
  The shared vocabulary of the development: results, byte strings with the operations of
  Rust's \<open>str\<close> that the program uses, hash maps as association lists, and bounded
  iteration. A Rust \<open>String\<close> is modelled by the list of its UTF-8 bytes, one
  \<^typ>\<open>char\<close> per byte; \<open>len\<close> is \<^const>\<open>length\<close>. The order on strings is the
  lexicographic order of the bytes, which is Rust's \<open>Ord\<close> for \<open>str\<close>.
\<close>

named_theorems hm_simps \<open>lookups in hash maps after an update\<close>
named_theorems text_simps \<open>evaluation of string operations\<close>

type_synonym str = string
type_synonym 'v hmap = "(str \<times> 'v) list"

section \<open>Results\<close>

text \<open>The \<open>?\<close> operator: an error ends the computation, a value is passed on.\<close>

fun rbind :: "'e + 'a \<Rightarrow> ('a \<Rightarrow> 'e + 'b) \<Rightarrow> 'e + 'b" where
  "rbind (Inl e) f = Inl e"
| "rbind (Inr x) f = f x"

lemma rbind_eq_Inr [simp]: "rbind x f = Inr y \<longleftrightarrow> (\<exists>z. x = Inr z \<and> f z = Inr y)"
  by (cases x) auto

lemma rbind_eq_Inl: "rbind x f = Inl e \<longleftrightarrow> x = Inl e \<or> (\<exists>z. x = Inr z \<and> f z = Inl e)"
  by (cases x) auto

text \<open>\<open>iter().map(f).collect::<Result<Vec<_>,_>>()\<close>: the first error wins.\<close>

fun rmap :: "('a \<Rightarrow> 'e + 'b) \<Rightarrow> 'a list \<Rightarrow> 'e + 'b list" where
  "rmap f [] = Inr []"
| "rmap f (x # xs) = rbind (f x) (\<lambda>y. rbind (rmap f xs) (\<lambda>ys. Inr (y # ys)))"

lemma rmap_length: "rmap f xs = Inr ys \<Longrightarrow> length ys = length xs"
  by (induction xs arbitrary: ys) auto

lemma rmap_Inr_iff: "(\<exists>ys. rmap f xs = Inr ys) \<longleftrightarrow> (\<forall>x \<in> set xs. \<exists>y. f x = Inr y)"
  by (induction xs) auto

text \<open>\<open>Option::or\<close>.\<close>

fun or_else :: "'a option \<Rightarrow> 'a option \<Rightarrow> 'a option" where
  "or_else (Some x) y = Some x"
| "or_else None y = y"

lemma or_else_Some: "or_else x y = Some v \<longleftrightarrow> x = Some v \<or> x = None \<and> y = Some v"
  by (cases x) auto

lemma or_else_None [simp]: "or_else x None = x"
  by (cases x) auto

lemma or_else_assoc: "or_else (or_else x y) z = or_else x (or_else y z)"
  by (cases x) auto

section \<open>Byte strings\<close>

subsection \<open>Prefixes, suffixes and searching\<close>

definition starts_with :: "str \<Rightarrow> str \<Rightarrow> bool" where
  "starts_with p s \<longleftrightarrow> take (length p) s = p"

definition ends_with :: "str \<Rightarrow> str \<Rightarrow> bool" where
  "ends_with p s \<longleftrightarrow> length p \<le> length s \<and> drop (length s - length p) s = p"

definition strip_suffix :: "str \<Rightarrow> str \<Rightarrow> str option" where
  "strip_suffix p s = (if ends_with p s then Some (take (length s - length p) s) else None)"

lemma starts_with_append [simp]: "starts_with p (p @ s)"
  by (simp add: starts_with_def)

lemma starts_with_Nil [simp]: "starts_with [] s"
  by (simp add: starts_with_def)

lemma starts_withE: "starts_with p s \<Longrightarrow> s = p @ drop (length p) s"
  by (metis append_take_drop_id starts_with_def)

lemma ends_with_append [simp]: "ends_with p (s @ p)"
  by (simp add: ends_with_def)

lemma strip_suffix_append [simp]: "strip_suffix p (s @ p) = Some s"
  by (simp add: strip_suffix_def)

lemma strip_suffix_Some: "strip_suffix p s = Some r \<longleftrightarrow> s = r @ p"
  by (auto simp: strip_suffix_def ends_with_def split: if_splits)
     (metis append_take_drop_id)

text \<open>
  \<open>str::split\<close> with a non-empty pattern: the parts between the non-overlapping
  occurrences, found from the left. \<open>acc\<close> is the part being read, reversed.
\<close>

function split_go :: "str \<Rightarrow> str \<Rightarrow> str \<Rightarrow> str list" where
  "split_go p acc [] = [rev acc]"
| "split_go p acc (c # s) =
     (if p \<noteq> [] \<and> starts_with p (c # s)
      then rev acc # split_go p [] (drop (length p) (c # s))
      else split_go p (c # acc) s)"
  by pat_completeness auto
termination
  by (relation "measure (\<lambda>(p, acc, s). length s)") auto

definition split_on :: "str \<Rightarrow> str \<Rightarrow> str list" where
  "split_on p s = split_go p [] s"

fun join :: "str \<Rightarrow> str list \<Rightarrow> str" where
  "join sep [] = []"
| "join sep [x] = x"
| "join sep (x # y # ys) = x @ sep @ join sep (y # ys)"

lemma split_go_nonempty [simp]: "split_go p acc s \<noteq> []"
  by (induction p acc s rule: split_go.induct) auto

lemma join_Cons: "xs \<noteq> [] \<Longrightarrow> join sep (x # xs) = x @ sep @ join sep xs"
  by (cases xs) auto

lemma join_split_go: "join p (split_go p acc s) = rev acc @ s"
proof (induction p acc s rule: split_go.induct)
  case (1 p acc)
  then show ?case by simp
next
  case (2 p acc c s)
  show ?case
  proof (cases "p \<noteq> [] \<and> starts_with p (c # s)")
    case True
    have "c # s = p @ drop (length p) (c # s)" using True by (blast intro: starts_withE)
    then show ?thesis using True "2.IH"(1) by (simp add: join_Cons)
  next
    case False
    then have "split_go p acc (c # s) = split_go p (c # acc) s" by auto
    then show ?thesis using "2.IH"(2) [OF False] by (simp del: split_go.simps)
  qed
qed

text \<open>Splitting and joining with the same separator is the identity.\<close>

lemma join_split_on: "join p (split_on p s) = s"
  by (simp add: split_on_def join_split_go)

text \<open>\<open>str::replace\<close> with a non-empty pattern.\<close>

definition replace_str :: "str \<Rightarrow> str \<Rightarrow> str \<Rightarrow> str" where
  "replace_str p r s = join r (split_on p s)"

lemma replace_self: "replace_str p p s = s"
  by (simp add: replace_str_def join_split_on)

text \<open>\<open>str::contains\<close>.\<close>

fun contains_str :: "str \<Rightarrow> str \<Rightarrow> bool" where
  "contains_str p [] = (p = [])"
| "contains_str p (c # s) = (starts_with p (c # s) \<or> contains_str p s)"

lemma split_go_absent:
  "\<not> contains_str p s \<Longrightarrow> split_go p acc s = [rev acc @ s]"
  by (induction p acc s rule: split_go.induct) auto

lemma replace_absent: "\<not> contains_str p s \<Longrightarrow> replace_str p r s = s"
  by (simp add: replace_str_def split_on_def split_go_absent)

lemma split_go_count: "length (split_go p acc s) \<le> Suc (length s)"
proof (induction p acc s rule: split_go.induct)
  case (1 p acc)
  then show ?case by simp
next
  case (2 p acc c s)
  show ?case
  proof (cases "p \<noteq> [] \<and> starts_with p (c # s)")
    case True
    then have "length (drop (length p) (c # s)) \<le> length s" by (cases p) auto
    with True "2.IH"(1) show ?thesis by (simp split del: if_split)
  next
    case False
    then show ?thesis using "2.IH"(2) by (auto split: if_splits)
  qed
qed

subsection \<open>White space\<close>

text \<open>
  \<open>char::is_whitespace\<close> on the UTF-8 encoding. \<open>ws_head s\<close> is the number of bytes of the
  white-space character \<open>s\<close> begins with, 0 if it begins with none; \<open>ws_head_rev\<close> reads the
  bytes backwards. In valid UTF-8 a lead byte is never a continuation byte, so matching the
  encoding backwards finds a whole character.
\<close>

abbreviation byte :: "char \<Rightarrow> int" where
  "byte c \<equiv> of_char c"

definition ascii_ws :: "char \<Rightarrow> bool" where
  "ascii_ws c \<longleftrightarrow> c \<in> {CHR 0x09, CHR 0x0A, CHR 0x0B, CHR 0x0C, CHR 0x0D, CHR 0x20}"

fun ws_bytes :: "str \<Rightarrow> bool" where
  "ws_bytes [a, b] \<longleftrightarrow> a = CHR 0xC2 \<and> (b = CHR 0x85 \<or> b = CHR 0xA0)"
| "ws_bytes [a, b, c] \<longleftrightarrow>
     a = CHR 0xE1 \<and> b = CHR 0x9A \<and> c = CHR 0x80
     \<or> a = CHR 0xE2 \<and> b = CHR 0x80 \<and>
         (0x80 \<le> byte c \<and> byte c \<le> 0x8A \<or> c = CHR 0xA8 \<or> c = CHR 0xA9 \<or> c = CHR 0xAF)
     \<or> a = CHR 0xE2 \<and> b = CHR 0x81 \<and> c = CHR 0x9F
     \<or> a = CHR 0xE3 \<and> b = CHR 0x80 \<and> c = CHR 0x80"
| "ws_bytes _ \<longleftrightarrow> False"

definition ws_head :: "str \<Rightarrow> nat" where
  "ws_head s =
     (if s = [] then 0
      else if ascii_ws (hd s) then 1
      else if ws_bytes (take 2 s) then 2
      else if ws_bytes (take 3 s) then 3 else 0)"

definition ws_head_rev :: "str \<Rightarrow> nat" where
  "ws_head_rev s =
     (if s = [] then 0
      else if ascii_ws (hd s) then 1
      else if ws_bytes (rev (take 2 s)) then 2
      else if ws_bytes (rev (take 3 s)) then 3 else 0)"

lemma ws_head_Nil [simp]: "ws_head [] = 0" "ws_head_rev [] = 0"
  by (simp_all add: ws_head_def ws_head_rev_def)

function trim_with :: "(str \<Rightarrow> nat) \<Rightarrow> str \<Rightarrow> str" where
  "trim_with h s = (if s = [] \<or> h s = 0 then s else trim_with h (drop (h s) s))"
  by pat_completeness auto
termination
  by (relation "measure (\<lambda>(h, s). length s)") auto

declare trim_with.simps [simp del]

definition trim_start :: "str \<Rightarrow> str" where
  "trim_start s = trim_with ws_head s"

definition trim_end :: "str \<Rightarrow> str" where
  "trim_end s = rev (trim_with ws_head_rev (rev s))"

definition trim :: "str \<Rightarrow> str" where
  "trim s = trim_end (trim_start s)"

lemma trim_with_stop [simp]: "h s = 0 \<Longrightarrow> trim_with h s = s"
  by (simp add: trim_with.simps [of h s])

lemma trim_with_Nil [simp]: "trim_with h [] = []"
  by (simp add: trim_with.simps [of h "[]"])

lemma trim_with_suffix: "\<exists>w. s = w @ trim_with h s"
proof (induction h s rule: trim_with.induct)
  case (1 h s)
  show ?case
  proof (cases "s = [] \<or> h s = 0")
    case True
    then show ?thesis by (auto simp: trim_with.simps [of h s])
  next
    case False
    from "1.IH" [OF this] obtain w where "drop (h s) s = w @ trim_with h (drop (h s) s)" ..
    then have "s = (take (h s) s @ w) @ trim_with h (drop (h s) s)"
      by (metis append.assoc append_take_drop_id)
    with False show ?thesis by (metis trim_with.simps)
  qed
qed

lemma trim_with_done: "trim_with h s = [] \<or> h (trim_with h s) = 0"
  by (induction h s rule: trim_with.induct) (metis trim_with.simps)

lemma trim_length: "length (trim s) \<le> length s"
proof -
  have a: "length (trim_with h t) \<le> length t" for h t
    using trim_with_suffix [of t h] by (metis le_add2 length_append)
  show ?thesis
    using a [of ws_head s] a [of ws_head_rev "rev (trim_with ws_head s)"]
    by (simp add: trim_def trim_start_def trim_end_def)
qed

lemma trim_Nil [simp]: "trim [] = []"
  by (simp add: trim_def trim_start_def trim_end_def)

text \<open>A string that neither begins nor ends with white space is left alone.\<close>

lemma trim_id: "ws_head s = 0 \<Longrightarrow> ws_head_rev (rev s) = 0 \<Longrightarrow> trim s = s"
  by (simp add: trim_def trim_start_def trim_end_def)

lemma trim_end_idem [simp]: "trim_end (trim_end s) = trim_end s"
  using trim_with_done [of ws_head_rev "rev s"]
  by (auto simp: trim_end_def)

text \<open>\<open>str::split_whitespace\<close>: the maximal runs of non-white-space bytes.\<close>

function split_ws_go :: "str \<Rightarrow> str \<Rightarrow> str list" where
  "split_ws_go acc s =
     (if s = [] then (if acc = [] then [] else [rev acc])
      else if ws_head s > 0
      then (if acc = [] then [] else [rev acc]) @ split_ws_go [] (drop (ws_head s) s)
      else split_ws_go (hd s # acc) (tl s))"
  by pat_completeness auto
termination
  by (relation "measure (\<lambda>(acc, s). length s)") auto

declare split_ws_go.simps [simp del]

definition split_whitespace :: "str \<Rightarrow> str list" where
  "split_whitespace s = split_ws_go [] s"

lemma split_ws_go_nonempty: "w \<in> set (split_ws_go acc s) \<Longrightarrow> w \<noteq> []"
proof (induction acc s rule: split_ws_go.induct)
  case (1 acc s)
  show ?case
  proof (cases "s = [] \<or> ws_head s > 0")
    case True
    with "1" show ?thesis by (auto simp: split_ws_go.simps [of acc s] split: if_splits)
  next
    case False
    with "1" show ?thesis by (auto simp: split_ws_go.simps [of acc s])
  qed
qed

lemma split_whitespace_nonempty: "w \<in> set (split_whitespace s) \<Longrightarrow> w \<noteq> []"
  by (auto simp: split_whitespace_def dest: split_ws_go_nonempty)

subsection \<open>Characters\<close>

text \<open>
  The ASCII classes. The Unicode-aware \<open>char::is_alphanumeric\<close> and \<open>str::to_lowercase\<close> are
  modelled by these on ASCII text; outside ASCII the model says nothing about them.
\<close>

definition is_digit :: "char \<Rightarrow> bool" where
  "is_digit c \<longleftrightarrow> 48 \<le> byte c \<and> byte c \<le> 57"

definition is_upper :: "char \<Rightarrow> bool" where
  "is_upper c \<longleftrightarrow> 65 \<le> byte c \<and> byte c \<le> 90"

definition is_alpha :: "char \<Rightarrow> bool" where
  "is_alpha c \<longleftrightarrow> is_upper c \<or> 97 \<le> byte c \<and> byte c \<le> 122"

definition is_alnum :: "char \<Rightarrow> bool" where
  "is_alnum c \<longleftrightarrow> is_alpha c \<or> is_digit c"

definition lower_char :: "char \<Rightarrow> char" where
  "lower_char c = (if is_upper c then char_of (byte c + 32) else c)"

definition lowercase :: "str \<Rightarrow> str" where
  "lowercase s = map lower_char s"

definition eq_ignore_case :: "str \<Rightarrow> str \<Rightarrow> bool" where
  "eq_ignore_case a b \<longleftrightarrow> lowercase a = lowercase b"

text \<open>A byte that begins a UTF-8 character, and Rust's \<open>is_char_boundary\<close>.\<close>

definition lead_byte :: "char \<Rightarrow> bool" where
  "lead_byte c \<longleftrightarrow> byte c < 0x80 \<or> 0xC0 \<le> byte c"

definition char_boundary :: "str \<Rightarrow> nat \<Rightarrow> bool" where
  "char_boundary s i \<longleftrightarrow> i = length s \<or> (i < length s \<and> lead_byte (s ! i))"

definition ascii_text :: "str \<Rightarrow> bool" where
  "ascii_text s \<longleftrightarrow> (\<forall>c \<in> set s. byte c < 0x80)"

lemma ascii_char_boundary: "ascii_text s \<Longrightarrow> i \<le> length s \<Longrightarrow> char_boundary s i"
  by (auto simp: ascii_text_def char_boundary_def lead_byte_def)

text \<open>Text between single and between double quotes.\<close>

definition sq :: "str \<Rightarrow> str" where
  "sq s = CHR 0x27 # s @ [CHR 0x27]"

definition dq :: "str \<Rightarrow> str" where
  "dq s = CHR 0x22 # s @ [CHR 0x22]"

subsection \<open>Decimal numbers\<close>

fun show_nat :: "nat \<Rightarrow> str" where
  "show_nat n =
     (if n < 10 then [char_of (48 + int n)] else show_nat (n div 10) @ [char_of (48 + int (n mod 10))])"

declare show_nat.simps [simp del]

definition show_int :: "int \<Rightarrow> str" where
  "show_int i = (if i < 0 then ''-'' @ show_nat (nat (- i)) else show_nat (nat i))"

definition digit_val :: "char \<Rightarrow> nat" where
  "digit_val c = nat (byte c - 48)"

fun digits_val :: "nat \<Rightarrow> str \<Rightarrow> nat" where
  "digits_val acc [] = acc"
| "digits_val acc (c # s) = digits_val (10 * acc + digit_val c) s"

text \<open>
  \<open>str::parse\<close> for the unsigned and signed integer types with largest value \<open>hi\<close> (and
  smallest \<open>lo\<close>): an optional sign, at least one digit, no overflow.
\<close>

definition parse_unsigned :: "nat \<Rightarrow> str \<Rightarrow> nat option" where
  "parse_unsigned hi s =
     (let d = (if s \<noteq> [] \<and> hd s = CHR ''+'' then tl s else s)
      in if d \<noteq> [] \<and> list_all is_digit d \<and> digits_val 0 d \<le> hi
         then Some (digits_val 0 d) else None)"

definition parse_signed :: "int \<Rightarrow> int \<Rightarrow> str \<Rightarrow> int option" where
  "parse_signed lo hi s =
     (let neg = (s \<noteq> [] \<and> hd s = CHR ''-'');
          d = (if s \<noteq> [] \<and> (hd s = CHR ''+'' \<or> hd s = CHR ''-'') then tl s else s);
          v = (if neg then - int (digits_val 0 d) else int (digits_val 0 d))
      in if d \<noteq> [] \<and> list_all is_digit d \<and> lo \<le> v \<and> v \<le> hi then Some v else None)"

definition u64_max :: nat where "u64_max = 2 ^ 64 - 1"
definition u32_max :: nat where "u32_max = 2 ^ 32 - 1"
definition i64_max :: int where "i64_max = 2 ^ 63 - 1"
definition i64_min :: int where "i64_min = - (2 ^ 63)"

lemma of_char_digit [simp]: "n < 10 \<Longrightarrow> byte (char_of (48 + int n)) = 48 + int n"
  by (simp add: of_char_of)

lemma digits_val_append: "digits_val acc (xs @ ys) = digits_val (digits_val acc xs) ys"
  by (induction xs arbitrary: acc) auto

lemma is_digit_char_of [simp]: "n < 10 \<Longrightarrow> is_digit (char_of (48 + int n))"
  by (simp add: is_digit_def)

lemma show_nat_digits: "list_all is_digit (show_nat n) \<and> show_nat n \<noteq> []"
proof (induction n rule: show_nat.induct)
  case (1 n)
  then show ?case
    by (cases "n < 10") (simp_all add: show_nat.simps [of n])
qed

lemma digits_val_show_nat: "digits_val 0 (show_nat n) = n"
proof (induction n rule: show_nat.induct)
  case (1 n)
  then show ?case
    by (cases "n < 10") (simp_all add: show_nat.simps [of n] digits_val_append digit_val_def)
qed

lemma show_nat_hd: "is_digit (hd (show_nat n))"
  using show_nat_digits [of n] by (metis hd_in_set list_all_iff)

lemma not_digit_sign [simp]: "\<not> is_digit (CHR ''+'')" "\<not> is_digit (CHR ''-'')"
  by (simp_all add: is_digit_def)

text \<open>Printing and parsing decimals round-trip.\<close>

lemma parse_unsigned_show: "n \<le> hi \<Longrightarrow> parse_unsigned hi (show_nat n) = Some n"
  using show_nat_digits [of n] show_nat_hd [of n] not_digit_sign
  by (auto simp: parse_unsigned_def Let_def digits_val_show_nat)

lemma parse_unsigned_bound: "parse_unsigned hi s = Some n \<Longrightarrow> n \<le> hi"
  by (auto simp: parse_unsigned_def Let_def split: if_splits)

lemma show_nat_inject [simp]: "show_nat m = show_nat n \<longleftrightarrow> m = n"
  by (metis digits_val_show_nat)

text \<open>\<open>Iterator::position\<close>.\<close>

fun position :: "('a \<Rightarrow> bool) \<Rightarrow> 'a list \<Rightarrow> nat option" where
  "position P [] = None"
| "position P (x # xs) = (if P x then Some 0 else map_option Suc (position P xs))"

section \<open>Hash maps\<close>

text \<open>
  A Rust \<open>HashMap\<close> is an association list with distinct keys. Its iteration order is not
  specified by Rust: the order of the list stands for whatever order one run sees, and a
  property that must not depend on it is stated for every such list.
\<close>

definition hm_get :: "'v hmap \<Rightarrow> str \<Rightarrow> 'v option" where
  "hm_get m k = map_of m k"

definition hm_insert :: "str \<Rightarrow> 'v \<Rightarrow> 'v hmap \<Rightarrow> 'v hmap" where
  "hm_insert k v m = AList.update k v m"

definition hm_remove :: "str \<Rightarrow> 'v hmap \<Rightarrow> 'v hmap" where
  "hm_remove k m = AList.delete k m"

definition hm_extend :: "'v hmap \<Rightarrow> 'v hmap \<Rightarrow> 'v hmap" where
  "hm_extend m n = fold (\<lambda>(k, v). hm_insert k v) n m"

definition hm_contains :: "'v hmap \<Rightarrow> str \<Rightarrow> bool" where
  "hm_contains m k \<longleftrightarrow> k \<in> set (map fst m)"

definition hm_keys :: "'v hmap \<Rightarrow> str list" where
  "hm_keys m = map fst m"

definition hm_values :: "'v hmap \<Rightarrow> 'v list" where
  "hm_values m = map snd m"

definition hm_wf :: "'v hmap \<Rightarrow> bool" where
  "hm_wf m \<longleftrightarrow> distinct (map fst m)"

text \<open>
  The contract of a map type as the program uses it; every component that keeps state in a
  map reasons from it.
\<close>

locale hash_map =
  fixes get :: "'m \<Rightarrow> 'k \<Rightarrow> 'v option"
    and ins :: "'k \<Rightarrow> 'v \<Rightarrow> 'm \<Rightarrow> 'm"
    and rem :: "'k \<Rightarrow> 'm \<Rightarrow> 'm"
    and wf :: "'m \<Rightarrow> bool"
  assumes get_ins: "get (ins k v m) k' = (if k' = k then Some v else get m k')"
    and get_rem: "wf m \<Longrightarrow> get (rem k m) k' = (if k' = k then None else get m k')"
    and wf_ins: "wf m \<Longrightarrow> wf (ins k v m)"
    and wf_rem: "wf m \<Longrightarrow> wf (rem k m)"
begin

lemma get_ins_same: "get (ins k v m) k = Some v"
  by (simp add: get_ins)

lemma get_ins_other: "k' \<noteq> k \<Longrightarrow> get (ins k v m) k' = get m k'"
  by (simp add: get_ins)

lemma get_fold_ins:
  "get (fold (\<lambda>(k, v). ins k v) kvs m) k =
     (case map_of (rev kvs) k of Some v \<Rightarrow> Some v | None \<Rightarrow> get m k)"
proof (induction kvs arbitrary: m)
  case Nil
  then show ?case by simp
next
  case (Cons kv kvs)
  then show ?case
    by (cases kv) (auto simp: get_ins map_add_def split: option.splits)
qed

lemma wf_fold_ins: "wf m \<Longrightarrow> wf (fold (\<lambda>(k, v). ins k v) kvs m)"
  by (induction kvs arbitrary: m) (auto simp: wf_ins)

lemma get_fold_ins_untouched:
  "k \<notin> fst ` set kvs \<Longrightarrow> get (fold (\<lambda>(k, v). ins k v) kvs m) k = get m k"
  by (auto simp: get_fold_ins map_of_eq_None_iff split: option.splits)
     (metis (no_types, lifting) image_eqI fst_conv map_of_SomeD set_rev)

end

interpretation hm: hash_map hm_get hm_insert hm_remove hm_wf
proof unfold_locales
  show "hm_get (hm_insert k v m) k' = (if k' = k then Some v else hm_get m k')" for k v k'
    and m :: "'a hmap"
    by (simp add: hm_get_def hm_insert_def update_conv)
  show "hm_get (hm_remove k m) k' = (if k' = k then None else hm_get m k')" for k k'
    and m :: "'a hmap"
    by (simp add: hm_get_def hm_remove_def delete_conv)
  show "hm_wf m \<Longrightarrow> hm_wf (hm_insert k v m)" for k v and m :: "'a hmap"
    by (simp add: hm_wf_def hm_insert_def distinct_update)
  show "hm_wf m \<Longrightarrow> hm_wf (hm_remove k m)" for k and m :: "'a hmap"
    by (simp add: hm_wf_def hm_remove_def distinct_delete)
qed

declare hm.get_ins [hm_simps, simp]
declare hm.wf_ins [simp] hm.wf_rem [simp]

lemma hm_get_Nil [simp]: "hm_get [] k = None"
  by (simp add: hm_get_def)

lemma hm_get_Cons [simp]: "hm_get ((k', v) # m) k = (if k = k' then Some v else hm_get m k)"
  by (simp add: hm_get_def)

lemma hm_wf_Nil [simp]: "hm_wf []"
  by (simp add: hm_wf_def)

lemma hm_wf_extend [simp]: "hm_wf m \<Longrightarrow> hm_wf (hm_extend m n)"
  by (simp add: hm_extend_def hm.wf_fold_ins)

lemma hm_wf_fold:
  "(\<And>x m. hm_wf m \<Longrightarrow> hm_wf (f x m)) \<Longrightarrow> hm_wf m \<Longrightarrow> hm_wf (fold f xs m)"
  by (induction xs arbitrary: m) auto

lemma map_of_rev_wf: "hm_wf n \<Longrightarrow> map_of (rev n) k = map_of n k"
proof (induction n)
  case Nil
  then show ?case by simp
next
  case (Cons p n)
  obtain a b where p: "p = (a, b)" by (cases p)
  from Cons.prems p have "a \<notin> fst ` set n" "hm_wf n" by (auto simp: hm_wf_def)
  moreover from this have "map_of n a = None" by (simp add: map_of_eq_None_iff)
  ultimately show ?case using Cons.IH p by (auto simp: map_add_def split: option.splits)
qed

text \<open>\<open>HashMap::extend\<close>: the added map wins, whatever its iteration order.\<close>

lemma hm_get_extend [hm_simps]:
  "hm_wf n \<Longrightarrow> hm_get (hm_extend m n) k =
     (case hm_get n k of Some v \<Rightarrow> Some v | None \<Rightarrow> hm_get m k)"
  by (simp add: hm_extend_def hm.get_fold_ins map_of_rev_wf) (simp add: hm_get_def)

lemma hm_contains_get: "hm_contains m k \<longleftrightarrow> hm_get m k \<noteq> None"
  by (auto simp: hm_contains_def hm_get_def map_of_eq_None_iff)

lemma hm_get_in_set: "hm_get m k = Some v \<Longrightarrow> (k, v) \<in> set m"
  by (simp add: hm_get_def map_of_SomeD)

lemma hm_get_wf: "hm_wf m \<Longrightarrow> (k, v) \<in> set m \<longleftrightarrow> hm_get m k = Some v"
  by (auto simp: hm_wf_def hm_get_def)

lemma hm_keys_insert: "set (hm_keys (hm_insert k v m)) = insert k (set (hm_keys m))"
  by (simp add: hm_keys_def hm_insert_def dom_update)

section \<open>Bounded iteration\<close>

text \<open>
  A \<open>loop\<close> of the source whose body either leaves with a result (\<open>Inl\<close>) or goes round
  again (\<open>Inr\<close>). The fuel bounds the rounds; \<^const>\<open>None\<close> is "not finished yet".
\<close>

fun iterate :: "nat \<Rightarrow> ('s \<Rightarrow> 'r + 's) \<Rightarrow> 's \<Rightarrow> 'r option" where
  "iterate 0 f s = None"
| "iterate (Suc n) f s = (case f s of Inl r \<Rightarrow> Some r | Inr s' \<Rightarrow> iterate n f s')"

inductive rounds :: "('s \<Rightarrow> 'r + 's) \<Rightarrow> 's \<Rightarrow> 's \<Rightarrow> bool" for f where
  here: "rounds f s s"
| again: "f s = Inr s' \<Longrightarrow> rounds f s' t \<Longrightarrow> rounds f s t"

lemma iterate_mono: "iterate n f s = Some r \<Longrightarrow> n \<le> m \<Longrightarrow> iterate m f s = Some r"
proof (induction n arbitrary: s m)
  case 0
  then show ?case by simp
next
  case (Suc n)
  then obtain m' where "m = Suc m'" "n \<le> m'" by (cases m) auto
  with Suc show ?case by (auto split: sum.splits)
qed

lemma iterate_rounds: "iterate n f s = Some r \<Longrightarrow> \<exists>t. rounds f s t \<and> f t = Inl r"
proof (induction n arbitrary: s)
  case 0
  then show ?case by simp
next
  case (Suc n)
  show ?case
  proof (cases "f s")
    case (Inl r')
    with Suc.prems show ?thesis by (auto intro: rounds.here)
  next
    case (Inr s')
    with Suc.prems obtain t where "rounds f s' t" "f t = Inl r"
      using Suc.IH [of s'] by auto
    with Inr show ?thesis using rounds.again [of f s s' t] by blast
  qed
qed

text \<open>
  The contract of a terminating loop: an invariant kept by every round and a measure that
  every round decreases.
\<close>

locale bounded_loop =
  fixes body :: "'s \<Rightarrow> 'r + 's"
    and inv :: "'s \<Rightarrow> bool"
    and size_of :: "'s \<Rightarrow> nat"
  assumes body_inv: "inv s \<Longrightarrow> body s = Inr s' \<Longrightarrow> inv s'"
    and body_dec: "inv s \<Longrightarrow> body s = Inr s' \<Longrightarrow> size_of s' < size_of s"
begin

lemma rounds_inv: "rounds body s t \<Longrightarrow> inv s \<Longrightarrow> inv t"
  by (induction rule: rounds.induct) (auto intro: body_inv)

lemma iterate_enough: "inv s \<Longrightarrow> size_of s < n \<Longrightarrow> \<exists>r. iterate n body s = Some r"
proof (induction n arbitrary: s)
  case 0
  then show ?case by simp
next
  case (Suc n)
  show ?case
  proof (cases "body s")
    case (Inl r)
    then show ?thesis by simp
  next
    case (Inr s')
    with Suc.prems have "inv s'" "size_of s' < n"
      using body_inv body_dec by fastforce+
    with Inr show ?thesis using Suc.IH by simp
  qed
qed

lemma iterate_result:
  "inv s \<Longrightarrow> iterate n body s = Some r \<Longrightarrow> \<exists>t. rounds body s t \<and> inv t \<and> body t = Inl r"
  using iterate_rounds [of n body s r] rounds_inv [of s] by blast

end

end
