(* ===== verification/Float64.thy ===== *)
theory Float64
  imports Prelude
begin

text \<open>
  Rust's \<open>f64\<close> as far as the program computes with it: IEEE 754 binary64 addition and
  comparison for the cost accounting of the engine, conversion from integers for JSON
  numbers, and the correctly rounded value of a decimal literal. \<open>Fin m e\<close> is the number
  \<open>m * 2 ^ e\<close>; the sign of zero is not represented, because no comparison or sum the
  program makes depends on it.
\<close>

datatype f64 = Fin int int | PosInf | NegInf | NaN

fun f64_finite :: "f64 \<Rightarrow> bool" where
  "f64_finite (Fin m e) = True"
| "f64_finite _ = False"

function bit_len :: "int \<Rightarrow> int" where
  "bit_len n = (if n \<le> 0 then 0 else 1 + bit_len (n div 2))"
  by pat_completeness auto
termination
  by (relation "measure nat") auto

declare bit_len.simps [simp del]

text \<open>The quotient rounded to the nearest integer, ties to even.\<close>

definition div_half_even :: "int \<Rightarrow> int \<Rightarrow> int" where
  "div_half_even n d =
     (let q = n div d; r = n mod d
      in if 2 * r < d then q else if d < 2 * r then q + 1 else if even q then q else q + 1)"

text \<open>
  The binary64 value nearest to \<open>m * 2 ^ e\<close>: 53 bits of precision, exponent at least
  \<open>- 1074\<close>, infinite from \<open>2 ^ 1024\<close> on.
\<close>

definition f64_round :: "int \<Rightarrow> int \<Rightarrow> f64" where
  "f64_round m e =
     (if m = 0 then Fin 0 0
      else
        let s = max 0 (max (bit_len \<bar>m\<bar> - 53) (- 1074 - e));
            q = (if s = 0 then \<bar>m\<bar> else div_half_even \<bar>m\<bar> (2 ^ nat s))
        in if q = 0 then Fin 0 0
           else if 1024 < bit_len q + e + s then (if m < 0 then NegInf else PosInf)
           else Fin (sgn m * q) (e + s))"

definition f64_of_int :: "int \<Rightarrow> f64" where
  "f64_of_int i = f64_round i 0"

fun f64_add :: "f64 \<Rightarrow> f64 \<Rightarrow> f64" where
  "f64_add NaN y = NaN"
| "f64_add x NaN = NaN"
| "f64_add PosInf NegInf = NaN"
| "f64_add NegInf PosInf = NaN"
| "f64_add PosInf y = PosInf"
| "f64_add x PosInf = PosInf"
| "f64_add NegInf y = NegInf"
| "f64_add x NegInf = NegInf"
| "f64_add (Fin m e) (Fin n f) =
     (let g = min e f in f64_round (m * 2 ^ nat (e - g) + n * 2 ^ nat (f - g)) g)"

text \<open>\<open>x > y\<close>: false as soon as an operand is NaN.\<close>

fun f64_gt :: "f64 \<Rightarrow> f64 \<Rightarrow> bool" where
  "f64_gt NaN y = False"
| "f64_gt x NaN = False"
| "f64_gt PosInf y = (y \<noteq> PosInf)"
| "f64_gt x PosInf = False"
| "f64_gt NegInf y = False"
| "f64_gt x NegInf = True"
| "f64_gt (Fin m e) (Fin n f) =
     (let g = min e f in m * 2 ^ nat (e - g) > n * 2 ^ nat (f - g))"

text \<open>
  The value of the literal \<open>n / 10 ^ k\<close> as \<open>str::parse::<f64>\<close> rounds it: the quotient is
  taken with 53 or 54 significant bits and a sticky bit, then rounded once.
\<close>

definition f64_of_decimal :: "bool \<Rightarrow> int \<Rightarrow> nat \<Rightarrow> f64" where
  "f64_of_decimal neg n k =
     (if n = 0 then Fin 0 0
      else
        let d = 10 ^ k;
            e = bit_len n - bit_len d - 55;
            num = (if e < 0 then n * 2 ^ nat (- e) else n);
            den = (if e < 0 then d else d * 2 ^ nat e);
            q = num div den;
            m = 2 * q + (if num mod den = 0 then 0 else 1)
        in f64_round (if neg then - m else m) (e - 1))"

text \<open>
  The product with and the quotient by a positive integer that is itself an \<open>f64\<close>, rounded once:
  the quotient is taken with at least 55 significant bits and a sticky bit.
\<close>

fun f64_times :: "f64 \<Rightarrow> int \<Rightarrow> f64" where
  "f64_times (Fin m e) k = f64_round (m * k) e"
| "f64_times x k = x"

fun f64_over :: "f64 \<Rightarrow> int \<Rightarrow> f64" where
  "f64_over (Fin m e) d =
     (let s = 55 + bit_len d;
          num = \<bar>m\<bar> * 2 ^ nat s;
          q = 2 * (num div d) + (if num mod d = 0 then 0 else 1)
      in f64_round (sgn m * q) (e - s - 1))"
| "f64_over x d = x"

definition f64_ge :: "f64 \<Rightarrow> f64 \<Rightarrow> bool" where
  "f64_ge x y \<longleftrightarrow> x \<noteq> NaN \<and> y \<noteq> NaN \<and> \<not> f64_gt y x"

lemma f64_gt_irrefl [simp]: "\<not> f64_gt x x"
  by (cases x) (auto simp: Let_def)

lemma f64_gt_NaN [simp]: "\<not> f64_gt x NaN"
  by (cases x) auto

lemma f64_add_NaN [simp]: "f64_add x NaN = NaN"
  by (cases x) auto

text \<open>Comparison of finite values is comparison of the numbers they denote.\<close>

lemma scaled_less:
  fixes m n :: int
  assumes "g \<le> e" "g \<le> f" "g' \<le> e" "g' \<le> f"
  shows "m * 2 ^ nat (e - g) < n * 2 ^ nat (f - g) \<longleftrightarrow>
         m * 2 ^ nat (e - g') < n * 2 ^ nat (f - g')"
proof -
  have shift: "m * 2 ^ nat (e - h) < n * 2 ^ nat (f - h) \<longleftrightarrow>
      m * 2 ^ nat (e - k) < n * 2 ^ nat (f - k)" if "k \<le> h" "h \<le> e" "h \<le> f" for h k
  proof -
    have "nat (e - k) = nat (e - h) + nat (h - k)" "nat (f - k) = nat (f - h) + nat (h - k)"
      using that by auto
    then have "m * 2 ^ nat (e - k) = 2 ^ nat (h - k) * (m * 2 ^ nat (e - h))"
      "n * 2 ^ nat (f - k) = 2 ^ nat (h - k) * (n * 2 ^ nat (f - h))"
      by (simp_all add: power_add algebra_simps)
    then show ?thesis by (simp only: mult_less_cancel_left_pos zero_less_power zero_less_numeral)
  qed
  show ?thesis
  proof (cases "g' \<le> g")
    case True
    then show ?thesis using shift [of g' g] assms by blast
  next
    case False
    then show ?thesis using shift [of g g'] assms by fastforce
  qed
qed

lemma f64_gt_Fin: "g \<le> e \<Longrightarrow> g \<le> f \<Longrightarrow>
  f64_gt (Fin m e) (Fin n f) \<longleftrightarrow> n * 2 ^ nat (f - g) < m * 2 ^ nat (e - g)"
  using scaled_less [of "min e f" f e g n m] by (simp add: Let_def)

lemma f64_gt_trans: "f64_gt x y \<Longrightarrow> f64_gt y z \<Longrightarrow> f64_gt x z"
proof (cases x; cases y; cases z)
  fix m e n f k h
  assume x: "x = Fin m e" and y: "y = Fin n f" and z: "z = Fin k h"
    and "f64_gt x y" "f64_gt y z"
  moreover define g where "g = min e (min f h)"
  moreover from this have "g \<le> e" "g \<le> f" "g \<le> h" by auto
  ultimately show "f64_gt x z"
    by (simp only: f64_gt_Fin [of g])
qed auto

text \<open>Checks of the rounding: 0.1 + 0.2, a halfway case, and overflow.\<close>

lemma f64_examples:
  "f64_of_decimal False 1 1 = Fin 7205759403792794 (- 56)"
  "f64_of_int 9007199254740993 = Fin 4503599627370496 1"
  "f64_gt (f64_add (f64_of_decimal False 1 1) (f64_of_decimal False 2 1)) (f64_of_decimal False 3 1)"
  "f64_add (Fin 1 1023) (Fin 1 1023) = PosInf"
  "f64_ge (f64_over (f64_times (f64_of_int 50) 80) 100) (f64_of_int 40)"
  "f64_ge (f64_of_int 40) (f64_over (f64_times (f64_of_int 50) 80) 100)"
  "f64_over (f64_times (f64_of_decimal False 1 1) 80) 100 = f64_of_decimal False 8 2"
  by code_simp+

end
