(* ===== verification/Types.thy ===== *)
theory Types
  imports Float64
begin

text \<open>
  The types of \<open>crates/attractor-types\<close>: stage statuses and outcomes (\<open>types.rs\<close>), the
  error type with its classification and its \<open>Display\<close> text (\<open>error.rs\<close>), and the shared
  context (\<open>context.rs\<close>). JSON values are serde's tree; a number is an integer or a float.
\<close>

section \<open>JSON values\<close>

datatype json =
    JNull
  | JBool bool
  | JInt int
  | JFloat f64
  | JStr str
  | JArr "json list"
  | JObj "(str \<times> json) list"

fun json_as_str :: "json \<Rightarrow> str option" where
  "json_as_str (JStr s) = Some s"
| "json_as_str _ = None"

fun json_as_bool :: "json \<Rightarrow> bool option" where
  "json_as_bool (JBool b) = Some b"
| "json_as_bool _ = None"

fun json_as_f64 :: "json \<Rightarrow> f64 option" where
  "json_as_f64 (JInt i) = Some (f64_of_int i)"
| "json_as_f64 (JFloat x) = Some x"
| "json_as_f64 _ = None"

fun json_as_u64 :: "json \<Rightarrow> nat option" where
  "json_as_u64 (JInt i) = (if 0 \<le> i then Some (nat i) else None)"
| "json_as_u64 _ = None"

fun json_as_array :: "json \<Rightarrow> json list option" where
  "json_as_array (JArr xs) = Some xs"
| "json_as_array _ = None"

fun json_get :: "json \<Rightarrow> str \<Rightarrow> json option" where
  "json_get (JObj kvs) k = map_of kvs k"
| "json_get _ k = None"

section \<open>Outcomes\<close>

datatype stage_status = Success | PartialSuccess | Retry | Fail | Skipped

record outcome =
  status :: stage_status
  preferred_label :: "str option"
  suggested_next_ids :: "str list"
  context_updates :: "json hmap"
  out_notes :: str
  failure_reason :: "str option"

definition outcome_success :: "str \<Rightarrow> outcome" where
  "outcome_success n =
     \<lparr>status = Success, preferred_label = None, suggested_next_ids = [], context_updates = [],
      out_notes = n, failure_reason = None\<rparr>"

definition outcome_fail :: "str \<Rightarrow> outcome" where
  "outcome_fail reason =
     \<lparr>status = Fail, preferred_label = None, suggested_next_ids = [], context_updates = [],
      out_notes = [], failure_reason = Some reason\<rparr>"

definition outcome_with_label :: "stage_status \<Rightarrow> str \<Rightarrow> outcome" where
  "outcome_with_label st label =
     \<lparr>status = st, preferred_label = Some label, suggested_next_ids = [], context_updates = [],
      out_notes = [], failure_reason = None\<rparr>"

section \<open>Errors\<close>

datatype error =
    ProviderError str nat str bool
  | RateLimited str nat
  | AuthError str
  | RequestTimeout str nat
  | ContextLengthExceeded str str
  | ParseError nat nat str "str option"
  | ValidationError str
  | HandlerError str str str
  | GoalGateUnsatisfied str
  | CheckpointIncompatible str str
  | NoRetryTarget str
  | RetriesExhausted str nat
  | BudgetExhausted f64 f64
  | MaxStepsExceeded nat
  | ToolError str str
  | CommandTimeout nat
  | CliNotFound str
  | LoopDetected nat
  | TurnLimitReached nat
  | IoError str
  | JsonError str
  | OtherError str

type_synonym 'a result = "error + 'a"

fun is_retryable :: "error \<Rightarrow> bool" where
  "is_retryable (RateLimited _ _) = True"
| "is_retryable (CommandTimeout _) = True"
| "is_retryable (ProviderError _ _ _ retryable) = retryable"
| "is_retryable _ = False"

fun is_terminal :: "error \<Rightarrow> bool" where
  "is_terminal (AuthError _) = True"
| "is_terminal (ValidationError _) = True"
| "is_terminal (ContextLengthExceeded _ _) = True"
| "is_terminal (CliNotFound _) = True"
| "is_terminal _ = False"

fun http_status :: "error \<Rightarrow> nat option" where
  "http_status (RateLimited _ _) = Some 429"
| "http_status (AuthError _) = Some 401"
| "http_status (ProviderError _ st _ _) = Some st"
| "http_status (RequestTimeout _ _) = Some 504"
| "http_status (CommandTimeout _) = Some 504"
| "http_status (ValidationError _) = Some 400"
| "http_status (ContextLengthExceeded _ _) = Some 413"
| "http_status _ = None"

text \<open>
  \<open>Display\<close>. \<open>fmt2\<close> is the standard library's \<open>{:.2}\<close> formatting of an \<open>f64\<close>; the texts of
  I/O and JSON errors come from outside and are carried as they are.
\<close>

fun error_display :: "(f64 \<Rightarrow> str) \<Rightarrow> error \<Rightarrow> str" where
  "error_display fmt2 (ProviderError p st m _) =
     ''Provider '' @ p @ '' returned HTTP '' @ show_nat st @ '': '' @ m"
| "error_display fmt2 (RateLimited p ms) =
     ''Rate limited by '' @ p @ '', retry after '' @ show_nat ms @ ''ms''"
| "error_display fmt2 (AuthError p) = ''Authentication failed for provider '' @ p"
| "error_display fmt2 (RequestTimeout p ms) =
     ''Request to '' @ p @ '' timed out after '' @ show_nat ms @ ''ms''"
| "error_display fmt2 (ContextLengthExceeded p m) =
     ''Context length exceeded for '' @ p @ '': '' @ m"
| "error_display fmt2 (ParseError line col m _) =
     ''DOT parse error at line '' @ show_nat line @ '', col '' @ show_nat col @ '': '' @ m"
| "error_display fmt2 (ValidationError m) = ''Pipeline validation failed: '' @ m"
| "error_display fmt2 (HandlerError h n m) =
     ''Handler '' @ sq h @ '' failed on node '' @ sq n @ '': '' @ m"
| "error_display fmt2 (GoalGateUnsatisfied n) =
     ''Goal gate unsatisfied: node '' @ sq n @ '' did not reach SUCCESS''"
| "error_display fmt2 (CheckpointIncompatible p r) =
     ''Checkpoint at '' @ sq p @ '' cannot be resumed: '' @ r"
| "error_display fmt2 (NoRetryTarget n) =
     ''No retry target for failed goal gate '' @ sq n"
| "error_display fmt2 (RetriesExhausted n k) =
     ''Max retries exhausted for node '' @ sq n @ '' after ''
       @ show_nat k @ '' attempts''"
| "error_display fmt2 (BudgetExhausted spent limit) =
     ''Pipeline exceeded budget ($'' @ fmt2 spent @ '' > $'' @ fmt2 limit
       @ ''). Use --max-budget-usd to increase.''"
| "error_display fmt2 (MaxStepsExceeded k) =
     ''Pipeline exceeded maximum step count ('' @ show_nat k
       @ ''). Use --max-steps to increase.''"
| "error_display fmt2 (ToolError t m) =
     ''Tool '' @ sq t @ '' error: '' @ m"
| "error_display fmt2 (CommandTimeout ms) =
     ''Command timed out after '' @ show_nat ms @ ''ms''"
| "error_display fmt2 (CliNotFound b) =
     ''CLI binary '' @ sq b @ '' not found '' @ map char_of [0xE2, 0x80, 0x94 :: nat]
       @ '' ensure it is installed and on PATH''"
| "error_display fmt2 (LoopDetected w) =
     ''Agent loop detected after '' @ show_nat w @ '' consecutive identical tool calls''"
| "error_display fmt2 (TurnLimitReached t) =
     ''Turn limit reached: '' @ show_nat t @ '' turns''"
| "error_display fmt2 (IoError m) = ''IO error: '' @ m"
| "error_display fmt2 (JsonError m) = ''JSON error: '' @ m"
| "error_display fmt2 (OtherError m) = m"

lemma retryable_not_terminal: "is_retryable e \<Longrightarrow> \<not> is_terminal e"
  by (cases e) auto

section \<open>Context\<close>

text \<open>
  A \<open>Context\<close> is a handle to a shared cell; cloning the handle shares the cell, and
  \<open>clone_isolated\<close> makes a new one. The heap is the list of cells, a handle an index.
  Each operation holds the cell's lock for its whole body, so it is one atomic step.
\<close>

record ctx =
  ctx_values :: "json hmap"
  ctx_logs :: "str list"

type_synonym ctx_heap = "ctx list"
type_synonym ctx_handle = nat

definition ctx_empty :: ctx where
  "ctx_empty = \<lparr>ctx_values = [], ctx_logs = []\<rparr>"

definition ctx_new :: "ctx_heap \<Rightarrow> ctx_handle \<times> ctx_heap" where
  "ctx_new h = (length h, h @ [ctx_empty])"

definition ctx_clone :: "ctx_handle \<Rightarrow> ctx_heap \<Rightarrow> ctx_handle \<times> ctx_heap" where
  "ctx_clone c h = (c, h)"

definition ctx_clone_isolated :: "ctx_handle \<Rightarrow> ctx_heap \<Rightarrow> ctx_handle \<times> ctx_heap" where
  "ctx_clone_isolated c h = (length h, h @ [h ! c])"

definition context_set :: "str \<Rightarrow> json \<Rightarrow> ctx \<Rightarrow> ctx" where
  "context_set k v c = c\<lparr>ctx_values := hm_insert k v (ctx_values c)\<rparr>"

definition context_get :: "ctx \<Rightarrow> str \<Rightarrow> json option" where
  "context_get c k = hm_get (ctx_values c) k"

definition context_remove :: "str \<Rightarrow> ctx \<Rightarrow> json option \<times> ctx" where
  "context_remove k c =
     (hm_get (ctx_values c) k, c\<lparr>ctx_values := hm_remove k (ctx_values c)\<rparr>)"

definition context_get_string :: "ctx \<Rightarrow> str \<Rightarrow> str \<Rightarrow> str" where
  "context_get_string c k dflt =
     (case Option.bind (hm_get (ctx_values c) k) json_as_str of Some s \<Rightarrow> s | None \<Rightarrow> dflt)"

definition context_append_log :: "str \<Rightarrow> ctx \<Rightarrow> ctx" where
  "context_append_log l c = c\<lparr>ctx_logs := ctx_logs c @ [l]\<rparr>"

definition context_snapshot :: "ctx \<Rightarrow> json hmap" where
  "context_snapshot c = ctx_values c"

definition context_apply_updates :: "json hmap \<Rightarrow> ctx \<Rightarrow> ctx" where
  "context_apply_updates u c = c\<lparr>ctx_values := hm_extend (ctx_values c) u\<rparr>"

definition ctx_modify :: "(ctx \<Rightarrow> ctx) \<Rightarrow> ctx_handle \<Rightarrow> ctx_heap \<Rightarrow> ctx_heap" where
  "ctx_modify f c h = h[c := f (h ! c)]"

lemma context_get_set: "context_get (context_set k v c) k' = (if k' = k then Some v else context_get c k')"
  by (simp add: context_get_def context_set_def)

lemma context_get_remove:
  "hm_wf (ctx_values c) \<Longrightarrow>
   context_get (snd (context_remove k c)) k' = (if k' = k then None else context_get c k')"
  by (simp add: context_get_def context_remove_def hm.get_rem)

lemma context_get_apply_updates:
  "hm_wf u \<Longrightarrow> context_get (context_apply_updates u c) k =
     (case hm_get u k of Some v \<Rightarrow> Some v | None \<Rightarrow> context_get c k)"
  by (simp add: context_get_def context_apply_updates_def hm_get_extend split: option.splits)

lemma context_wf_apply_updates [simp]:
  "hm_wf (ctx_values c) \<Longrightarrow> hm_wf (ctx_values (context_apply_updates u c))"
  by (simp add: context_apply_updates_def)

text \<open>
  Isolation of parallel branches: after \<open>clone_isolated\<close> nothing done through either
  handle is seen through the other, while a plain clone shares every write.
\<close>

theorem context_isolation:
  assumes "c < length h" and "(c', h') = ctx_clone_isolated c h"
  shows "ctx_modify f c h' ! c' = h ! c \<and> ctx_modify f c' h' ! c = h ! c
    \<and> (case ctx_clone c h of (c2, h2) \<Rightarrow> ctx_modify f c2 h2 ! c = f (h ! c))"
  using assms by (auto simp: ctx_clone_isolated_def ctx_modify_def ctx_clone_def nth_append)

theorem context_isolation_witness:
  "ctx_modify (context_set ''k'' JNull) 0 [ctx_empty, ctx_empty] ! 1 = [ctx_empty] ! 0
    \<and> ctx_modify (context_set ''k'' JNull) 1 [ctx_empty, ctx_empty] ! 0 = [ctx_empty] ! 0
    \<and> (case ctx_clone 0 [ctx_empty] of (c2, h2) \<Rightarrow>
         ctx_modify (context_set ''k'' JNull) c2 h2 ! 0 = context_set ''k'' JNull ([ctx_empty] ! 0))"
  by (rule context_isolation) (simp_all add: ctx_clone_isolated_def)

end
