(* ===== verification/Dot_Ast.thy ===== *)
theory Dot_Ast
  imports Types
begin

text \<open>
  The DOT syntax tree (\<open>crates/attractor-dot/src/ast.rs\<close>), the text of durations
  (\<open>duration_serde.rs\<close>) and comment stripping (\<open>parser.rs\<close>, \<open>strip_comments\<close>). A
  \<open>Duration\<close> is its number of milliseconds: every duration the program builds is a whole
  number of milliseconds.
\<close>

section \<open>Syntax trees\<close>

datatype attribute_value =
    AString str
  | AInteger int
  | AFloat f64
  | ABoolean bool
  | ADuration nat

type_synonym attrs = "attribute_value hmap"

record node_def =
  nd_id :: str
  nd_attrs :: attrs
  nd_authored :: attrs

record edge_def =
  ed_from :: str
  ed_to :: str
  ed_attrs :: attrs

record subgraph_def =
  sg_name :: "str option"
  sg_attrs :: attrs
  sg_nodes :: "node_def hmap"
  sg_edges :: "edge_def list"
  sg_node_defaults :: attrs
  sg_edge_defaults :: attrs

record dot_graph =
  dg_name :: str
  dg_attrs :: attrs
  dg_nodes :: "node_def hmap"
  dg_edges :: "edge_def list"
  dg_subgraphs :: "subgraph_def list"
  dg_node_defaults :: attrs
  dg_edge_defaults :: attrs

section \<open>Durations\<close>

text \<open>
  The multiplication \<open>n * 60\<close> of \<open>u64\<close>s overflows for large \<open>n\<close>: a panic in a debug build,
  a wrap-around in a release build. The model has both: \<^const>\<open>None\<close> for the panic, and the
  wrapped product.
\<close>

datatype build_profile = Debug | Release

definition mul_u64 :: "build_profile \<Rightarrow> nat \<Rightarrow> nat \<Rightarrow> nat option" where
  "mul_u64 b x y =
     (if x * y \<le> u64_max then Some (x * y)
      else case b of Debug \<Rightarrow> None | Release \<Rightarrow> Some ((x * y) mod 2 ^ 64))"

datatype duration_result = Parsed nat | Invalid | Overflow_Panic

definition secs_to_ms :: "nat option \<Rightarrow> duration_result" where
  "secs_to_ms r = (case r of None \<Rightarrow> Overflow_Panic | Some s \<Rightarrow> Parsed (1000 * s))"

definition parse_duration_str :: "build_profile \<Rightarrow> str \<Rightarrow> duration_result" where
  "parse_duration_str b s =
     (case strip_suffix ''ms'' s of
        Some v \<Rightarrow> (case parse_unsigned u64_max v of None \<Rightarrow> Invalid | Some n \<Rightarrow> Parsed n)
      | None \<Rightarrow>
     (case strip_suffix ''s'' s of
        Some v \<Rightarrow> (case parse_unsigned u64_max v of None \<Rightarrow> Invalid | Some n \<Rightarrow> secs_to_ms (Some n))
      | None \<Rightarrow>
     (case strip_suffix ''m'' s of
        Some v \<Rightarrow> (case parse_unsigned u64_max v of None \<Rightarrow> Invalid
                     | Some n \<Rightarrow> secs_to_ms (mul_u64 b n 60))
      | None \<Rightarrow>
     (case strip_suffix ''h'' s of
        Some v \<Rightarrow> (case parse_unsigned u64_max v of None \<Rightarrow> Invalid
                     | Some n \<Rightarrow> secs_to_ms (mul_u64 b n 3600))
      | None \<Rightarrow>
     (case strip_suffix ''d'' s of
        Some v \<Rightarrow> (case parse_unsigned u64_max v of None \<Rightarrow> Invalid
                     | Some n \<Rightarrow> secs_to_ms (mul_u64 b n 86400))
      | None \<Rightarrow> Invalid)))))"

definition show_duration :: "nat \<Rightarrow> str" where
  "show_duration ms = show_nat ms @ ''ms''"

definition serialize_duration :: "nat \<Rightarrow> str" where
  "serialize_duration = show_duration"

text \<open>
  Serialising a duration and parsing the text gives it back, as long as it has
  at most \<open>u64::MAX\<close> milliseconds (parsing reads a \<open>u64\<close>, \<open>as_millis\<close> prints a \<open>u128\<close>).
\<close>

theorem duration_roundtrip:
  assumes "ms \<le> u64_max"
  shows "parse_duration_str b (serialize_duration ms) = Parsed ms"
proof -
  have "strip_suffix ''ms'' (show_nat ms @ ''ms'') = Some (show_nat ms)" by (rule strip_suffix_append)
  then show ?thesis
    using assms by (simp add: serialize_duration_def show_duration_def parse_duration_str_def parse_unsigned_show)
qed

theorem duration_roundtrip_witness: "parse_duration_str Release (serialize_duration 90000) = Parsed 90000"
  by (rule duration_roundtrip) (simp add: u64_max_def)

section \<open>Comment stripping\<close>

text \<open>
  \<open>out.push(b as char)\<close>: the byte \<open>b\<close> becomes the character \<open>U+00b\<close>, which from \<open>0x80\<close> on
  is encoded in two bytes.
\<close>

definition push_byte_as_char :: "char \<Rightarrow> str" where
  "push_byte_as_char c =
     (let b = byte c
      in if b < 0x80 then [c] else [char_of (0xC0 + b div 64), char_of (0x80 + b mod 64)])"

fun skip_line :: "str \<Rightarrow> str" where
  "skip_line [] = []"
| "skip_line (c # s) = (if c = CHR 0x0A then c # s else skip_line s)"

text \<open>
  The body of a block comment: its newlines are kept. An unclosed comment runs to the last
  byte, which is read again as ordinary text.
\<close>

fun skip_block :: "str \<Rightarrow> str \<times> str" where
  "skip_block (a # b # s) =
     (if a = CHR ''*'' \<and> b = CHR ''/'' then ([], s)
      else let (nl, r) = skip_block (b # s)
           in (if a = CHR 0x0A then CHR 0x0A # nl else nl, r))"
| "skip_block s = ([], s)"

text \<open>The rest of a string literal, up to and including the closing quote.\<close>

fun copy_string :: "str \<Rightarrow> str \<times> str" where
  "copy_string [] = ([], [])"
| "copy_string [c] =
     (if c = CHR 0x22 then ([c], []) else (push_byte_as_char c, []))"
| "copy_string (c # d # s) =
     (if c = CHR 0x5C
      then let (t, r) = copy_string s in (push_byte_as_char c @ push_byte_as_char d @ t, r)
      else if c = CHR 0x22 then ([c], d # s)
      else let (t, r) = copy_string (d # s) in (push_byte_as_char c @ t, r))"

lemma skip_line_length: "length (skip_line s) \<le> length s"
  by (induction s) auto

lemma skip_block_length: "length (snd (skip_block s)) \<le> length s"
  by (induction s rule: skip_block.induct) (auto split: prod.splits)

lemma copy_string_length: "length (snd (copy_string s)) \<le> length s"
  by (induction s rule: copy_string.induct) (auto split: prod.splits)

function strip_comments :: "str \<Rightarrow> str" where
  "strip_comments s =
     (case s of
        [] \<Rightarrow> []
      | [c] \<Rightarrow> push_byte_as_char c
      | c # d # r \<Rightarrow>
          if c = CHR ''/'' \<and> d = CHR ''/'' then strip_comments (skip_line r)
          else if c = CHR ''/'' \<and> d = CHR ''*''
          then fst (skip_block r) @ strip_comments (snd (skip_block r))
          else if c = CHR 0x22
          then c # fst (copy_string (d # r)) @ strip_comments (snd (copy_string (d # r)))
          else push_byte_as_char c @ strip_comments (d # r))"
  by pat_completeness auto
termination
proof (relation "measure length", goal_cases)
  case (2 s c xs d r)
  then show ?case using skip_line_length [of r] by simp
next
  case (3 s c xs d r)
  then show ?case using skip_block_length [of r] by simp
next
  case (4 s c xs d r)
  then show ?case using copy_string_length [of "d # r"] by simp
qed auto

declare strip_comments.simps [simp del]

end
