(* ===== verification/Dot_Merge.thy ===== *)
theory Dot_Merge
  imports Dot_Ast
begin

text \<open>
  From statements to the syntax tree (\<open>parser.rs\<close>: \<open>Statement\<close>, \<open>merge_statements\<close>, the end
  of \<open>parse_digraph\<close>), and the position a parse error reports (\<open>offset_to_line_col\<close>).
\<close>

datatype statement =
    GraphAttrs attrs
  | NodeDefaults attrs
  | EdgeDefaults attrs
  | NodeStmt str attrs
  | EdgeStmt "str list" attrs
  | SubgraphStmt "str option" "statement list"
  | GraphAttrDecl str attribute_value

record merge_result =
  mr_attrs :: attrs
  mr_nodes :: "node_def hmap"
  mr_edges :: "edge_def list"
  mr_subgraphs :: "subgraph_def list"
  mr_node_defaults :: attrs
  mr_edge_defaults :: attrs

definition merge_init :: "attrs \<Rightarrow> attrs \<Rightarrow> merge_result" where
  "merge_init nd ed =
     \<lparr>mr_attrs = [], mr_nodes = [], mr_edges = [], mr_subgraphs = [], mr_node_defaults = nd,
      mr_edge_defaults = ed\<rparr>"

text \<open>\<open>entry(k).or_insert(v)\<close>, and the same for every entry of a map.\<close>

definition hm_or_insert :: "str \<Rightarrow> 'v \<Rightarrow> 'v hmap \<Rightarrow> 'v hmap" where
  "hm_or_insert k v m = (if hm_contains m k then m else hm_insert k v m)"

definition fill_defaults :: "attrs \<Rightarrow> attrs \<Rightarrow> attrs" where
  "fill_defaults dflt a = fold (\<lambda>(k, v). hm_or_insert k v) dflt a"

fun windows2 :: "'a list \<Rightarrow> ('a \<times> 'a) list" where
  "windows2 (x # y # r) = (x, y) # windows2 (y # r)"
| "windows2 r = []"

definition implicit_node :: "attrs \<Rightarrow> str \<Rightarrow> node_def" where
  "implicit_node nd n =
     \<lparr>nd_id = n, nd_attrs = hm_extend [] nd, nd_authored = []\<rparr>"

definition ensure_nodes :: "attrs \<Rightarrow> str list \<Rightarrow> node_def hmap \<Rightarrow> node_def hmap" where
  "ensure_nodes nd ns m = fold (\<lambda>n. hm_or_insert n (implicit_node nd n)) ns m"

definition merge_edge :: "str list \<Rightarrow> attrs \<Rightarrow> str \<times> str \<Rightarrow> merge_result \<Rightarrow> merge_result" where
  "merge_edge chain a p st =
     st\<lparr>mr_edges := mr_edges st @
          [\<lparr>ed_from = fst p, ed_to = snd p, ed_attrs = hm_extend (mr_edge_defaults st) a\<rparr>],
        mr_nodes := ensure_nodes (mr_node_defaults st) chain (mr_nodes st)\<rparr>"

definition merge_node :: "str \<Rightarrow> attrs \<Rightarrow> merge_result \<Rightarrow> merge_result" where
  "merge_node n a st =
     st\<lparr>mr_nodes := hm_insert n
          \<lparr>nd_id = n, nd_attrs = fill_defaults (mr_node_defaults st) a, nd_authored = a\<rparr>
          (mr_nodes st)\<rparr>"

definition subgraph_of :: "str option \<Rightarrow> merge_result \<Rightarrow> subgraph_def" where
  "subgraph_of name r =
     \<lparr>sg_name = name, sg_attrs = mr_attrs r, sg_nodes = mr_nodes r, sg_edges = mr_edges r,
      sg_node_defaults = mr_node_defaults r, sg_edge_defaults = mr_edge_defaults r\<rparr>"

text \<open>
  \<open>merge_statements\<close>: one pass over the statements. A subgraph is merged with the defaults in
  force where it stands; its own nested subgraphs follow it in the parent's list.
\<close>

fun merge_go :: "statement list \<Rightarrow> merge_result \<Rightarrow> merge_result" where
  "merge_go [] st = st"
| "merge_go (GraphAttrs a # r) st =
     merge_go r (st\<lparr>mr_attrs := hm_extend (mr_attrs st) a\<rparr>)"
| "merge_go (NodeDefaults a # r) st =
     merge_go r (st\<lparr>mr_node_defaults := hm_extend (mr_node_defaults st) a\<rparr>)"
| "merge_go (EdgeDefaults a # r) st =
     merge_go r (st\<lparr>mr_edge_defaults := hm_extend (mr_edge_defaults st) a\<rparr>)"
| "merge_go (NodeStmt n a # r) st = merge_go r (merge_node n a st)"
| "merge_go (EdgeStmt chain a # r) st =
     merge_go r (fold (merge_edge chain a) (windows2 chain) st)"
| "merge_go (SubgraphStmt name inner # r) st =
     (let sub = merge_go inner (merge_init (mr_node_defaults st) (mr_edge_defaults st))
      in merge_go r (st\<lparr>mr_subgraphs := mr_subgraphs st @ [subgraph_of name sub] @ mr_subgraphs sub\<rparr>))"
| "merge_go (GraphAttrDecl k v # r) st =
     merge_go r (st\<lparr>mr_attrs := hm_insert k v (mr_attrs st)\<rparr>)"

definition merge_statements :: "statement list \<Rightarrow> attrs \<Rightarrow> attrs \<Rightarrow> merge_result" where
  "merge_statements stmts nd ed = merge_go stmts (merge_init nd ed)"

definition digraph_of :: "str \<Rightarrow> statement list \<Rightarrow> dot_graph" where
  "digraph_of name stmts =
     (let r = merge_statements stmts [] []
      in \<lparr>dg_name = name, dg_attrs = mr_attrs r, dg_nodes = mr_nodes r, dg_edges = mr_edges r,
          dg_subgraphs = mr_subgraphs r, dg_node_defaults = mr_node_defaults r,
          dg_edge_defaults = mr_edge_defaults r\<rparr>)"

section \<open>Helper lemmas\<close>

lemma hm_get_or_insert [hm_simps]:
  "hm_get (hm_or_insert k v m) k' =
     (if k' = k \<and> hm_get m k = None then Some v else hm_get m k')"
  by (auto simp: hm_or_insert_def hm_contains_get)

lemma hm_wf_or_insert [simp]: "hm_wf m \<Longrightarrow> hm_wf (hm_or_insert k v m)"
  by (simp add: hm_or_insert_def)

lemma fill_defaults_get:
  "hm_get (fill_defaults dflt a) k = (case hm_get a k of Some v \<Rightarrow> Some v | None \<Rightarrow> hm_get dflt k)"
proof (induction dflt arbitrary: a)
  case Nil
  then show ?case by (simp add: fill_defaults_def split: option.splits)
next
  case (Cons p dflt)
  obtain x y where p: "p = (x, y)" by (cases p)
  show ?case
    using Cons.IH [of "hm_or_insert x y a"] p
    by (auto simp: fill_defaults_def hm_get_or_insert split: option.splits)
qed

lemma ensure_nodes_get:
  "hm_get (ensure_nodes nd ns m) n =
     (case hm_get m n of Some d \<Rightarrow> Some d
      | None \<Rightarrow> if n \<in> set ns then Some (implicit_node nd n) else None)"
proof (induction ns arbitrary: m)
  case Nil
  then show ?case by (simp add: ensure_nodes_def split: option.splits)
next
  case (Cons x ns)
  show ?case
    using Cons.IH [of "hm_or_insert x (implicit_node nd x) m"]
    by (auto simp: ensure_nodes_def hm_get_or_insert split: option.splits)
qed

lemma windows2_set: "(a, b) \<in> set (windows2 c) \<Longrightarrow> a \<in> set c \<and> b \<in> set c"
  by (induction c rule: windows2.induct) auto

lemma windows2_nth: "i + 1 < length c \<Longrightarrow> windows2 c ! i = (c ! i, c ! (i + 1))"
proof (induction c arbitrary: i rule: windows2.induct)
  case (1 x y r)
  then show ?case by (cases i) auto
qed auto

lemma windows2_length: "length (windows2 c) = length c - 1"
  by (induction c rule: windows2.induct) auto

section \<open>The invariant of merging\<close>

text \<open>
  Every edge joins two known nodes, every node is stored under its own identifier, and what a
  node's author wrote is part of its effective attributes.
\<close>

definition node_ok :: "str \<Rightarrow> node_def \<Rightarrow> bool" where
  "node_ok k d \<longleftrightarrow> nd_id d = k \<and>
     (\<forall>a v. hm_get (nd_authored d) a = Some v \<longrightarrow> hm_get (nd_attrs d) a = Some v)"

definition edges_closed :: "node_def hmap \<Rightarrow> edge_def list \<Rightarrow> bool" where
  "edges_closed m es \<longleftrightarrow> (\<forall>e \<in> set es. hm_get m (ed_from e) \<noteq> None \<and> hm_get m (ed_to e) \<noteq> None)"

definition merge_inv :: "merge_result \<Rightarrow> bool" where
  "merge_inv st \<longleftrightarrow>
     edges_closed (mr_nodes st) (mr_edges st) \<and>
     (\<forall>k d. hm_get (mr_nodes st) k = Some d \<longrightarrow> node_ok k d) \<and>
     (\<forall>sg \<in> set (mr_subgraphs st). edges_closed (sg_nodes sg) (sg_edges sg) \<and>
        (\<forall>k d. hm_get (sg_nodes sg) k = Some d \<longrightarrow> node_ok k d))"

lemma merge_inv_init [simp]: "merge_inv (merge_init nd ed)"
  by (simp add: merge_inv_def merge_init_def edges_closed_def)

lemma merge_inv_frame [simp]:
  "merge_inv (st\<lparr>mr_attrs := a\<rparr>) = merge_inv st"
  "merge_inv (st\<lparr>mr_node_defaults := a\<rparr>) = merge_inv st"
  "merge_inv (st\<lparr>mr_edge_defaults := a\<rparr>) = merge_inv st"
  by (simp_all add: merge_inv_def)

lemma node_ok_authored [simp]:
  "node_ok n \<lparr>nd_id = n, nd_attrs = fill_defaults nd a, nd_authored = a\<rparr>"
  by (simp add: node_ok_def fill_defaults_get)

lemma node_ok_implicit [simp]: "node_ok n (implicit_node nd n)"
  by (simp add: node_ok_def implicit_node_def)

lemma merge_node_inv: "merge_inv st \<Longrightarrow> merge_inv (merge_node n a st)"
  by (auto simp: merge_inv_def merge_node_def edges_closed_def split: if_splits)

lemma merge_edge_inv:
  assumes "merge_inv st" "fst p \<in> set chain" "snd p \<in> set chain"
  shows "merge_inv (merge_edge chain a p st)"
  using assms
  by (auto simp: merge_inv_def merge_edge_def edges_closed_def ensure_nodes_get
      split: option.splits if_splits)

lemma merge_edges_inv:
  "merge_inv st \<Longrightarrow> \<forall>p \<in> set ps. fst p \<in> set chain \<and> snd p \<in> set chain \<Longrightarrow>
   merge_inv (fold (merge_edge chain a) ps st)"
  by (induction ps arbitrary: st) (auto simp: merge_edge_inv)

lemma merge_subgraph_inv:
  "merge_inv st \<Longrightarrow> merge_inv sub \<Longrightarrow>
   merge_inv (st\<lparr>mr_subgraphs := mr_subgraphs st @ [subgraph_of name sub] @ mr_subgraphs sub\<rparr>)"
  by (auto simp: merge_inv_def subgraph_of_def)

lemma merge_go_inv: "merge_inv st \<Longrightarrow> merge_inv (merge_go stmts st)"
proof (induction stmts st rule: merge_go.induct)
  case (6 chain a r st)
  have "\<forall>p \<in> set (windows2 chain). fst p \<in> set chain \<and> snd p \<in> set chain"
    using windows2_set by fastforce
  with 6 show ?case by (simp add: merge_edges_inv)
next
  case (7 name inner r st)
  then show ?case using merge_subgraph_inv by (simp add: Let_def)
qed (simp_all add: merge_node_inv)

text \<open>
  Every edge of a parsed graph, top-level or in a subgraph, has both end points
  among the nodes of its own scope, each node is stored under its identifier, and the
  attributes a node was written with survive the defaults.
\<close>

theorem digraph_closed:
  "edges_closed (dg_nodes (digraph_of name stmts)) (dg_edges (digraph_of name stmts)) \<and>
   (\<forall>k. case hm_get (dg_nodes (digraph_of name stmts)) k of None \<Rightarrow> True | Some d \<Rightarrow> node_ok k d) \<and>
   list_all (\<lambda>sg. edges_closed (sg_nodes sg) (sg_edges sg)) (dg_subgraphs (digraph_of name stmts))"
  using merge_go_inv [OF merge_inv_init, of stmts "[]" "[]"]
  by (auto simp: digraph_of_def merge_statements_def merge_inv_def Let_def list_all_iff split: option.splits)

end
