(* ===== verification/Graph.thy ===== *)
theory Graph
  imports Dot_Merge
begin

text \<open>
  The pipeline graph (\<open>crates/attractor-pipeline/src/graph.rs\<close>): typed nodes and edges built
  from the DOT syntax tree, the edges sorted by source with an index of each node's slice.
\<close>

section \<open>Data\<close>

record pipeline_node =
  pn_id :: str
  pn_label :: str
  pn_shape :: str
  pn_type :: "str option"
  pn_prompt :: "str option"
  pn_goal_gate :: bool
  pn_retry_target :: "str option"
  pn_fallback_retry_target :: "str option"
  pn_classes :: "str list"
  pn_timeout :: "nat option"
  pn_llm_model :: "str option"
  pn_llm_provider :: "str option"
  pn_raw :: attrs

record pipeline_edge =
  pe_from :: str
  pe_to :: str
  pe_label :: "str option"
  pe_condition :: "str option"
  pe_weight :: int
  pe_loop_restart :: bool
  pe_reset_quality :: bool
  pe_raw :: attrs

record pipeline_graph =
  pg_name :: str
  pg_goal :: str
  pg_attrs :: attrs
  pg_nodes :: "pipeline_node hmap"
  pg_authored :: "str list hmap"
  pg_edges :: "pipeline_edge list"
  pg_adjacency :: "(nat \<times> nat) hmap"

section \<open>Attribute extraction\<close>

fun as_string :: "attribute_value \<Rightarrow> str option" where
  "as_string (AString s) = Some s"
| "as_string _ = None"

definition get_string_attr :: "attrs \<Rightarrow> str \<Rightarrow> str option" where
  "get_string_attr a k = Option.bind (hm_get a k) as_string"

definition get_bool_attr :: "attrs \<Rightarrow> str \<Rightarrow> bool option" where
  "get_bool_attr a k =
     (case hm_get a k of
        Some (ABoolean b) \<Rightarrow> Some b
      | Some (AString s) \<Rightarrow> Some (s = ''true'')
      | _ \<Rightarrow> None)"

definition get_int_attr :: "attrs \<Rightarrow> str \<Rightarrow> int option" where
  "get_int_attr a k = (case hm_get a k of Some (AInteger i) \<Rightarrow> Some i | _ \<Rightarrow> None)"

text \<open>The release build: a duration whose product overflows wraps around.\<close>

definition get_duration_attr :: "attrs \<Rightarrow> str \<Rightarrow> nat option" where
  "get_duration_attr a k =
     (case hm_get a k of
        Some (ADuration d) \<Rightarrow> Some d
      | Some (AString s) \<Rightarrow>
          (case parse_duration_str Release s of Parsed d \<Rightarrow> Some d | _ \<Rightarrow> None)
      | _ \<Rightarrow> None)"

text \<open>\<open>v as i32\<close> on an \<open>i64\<close> keeps the low 32 bits.\<close>

definition as_i32 :: "int \<Rightarrow> int" where
  "as_i32 i = (i + 2 ^ 31) mod 2 ^ 32 - 2 ^ 31"

section \<open>Conversion\<close>

definition layered_attrs :: "attrs \<Rightarrow> attrs option \<Rightarrow> attrs \<Rightarrow> attrs" where
  "layered_attrs gd sd a =
     hm_extend (case sd of None \<Rightarrow> gd | Some s \<Rightarrow> hm_extend gd s) a"

definition node_def_to_pipeline_node ::
  "str \<Rightarrow> node_def \<Rightarrow> attrs \<Rightarrow> attrs option \<Rightarrow> pipeline_node" where
  "node_def_to_pipeline_node n nd gd sd =
     (let a = layered_attrs gd sd (nd_attrs nd)
      in \<lparr>pn_id = n,
          pn_label = (case get_string_attr a ''label'' of Some l \<Rightarrow> l | None \<Rightarrow> n),
          pn_shape = (case get_string_attr a ''shape'' of Some s \<Rightarrow> s | None \<Rightarrow> ''box''),
          pn_type = get_string_attr a ''type'',
          pn_prompt = get_string_attr a ''prompt'',
          pn_goal_gate = (get_bool_attr a ''goal_gate'' = Some True),
          pn_retry_target = get_string_attr a ''retry_target'',
          pn_fallback_retry_target = get_string_attr a ''fallback_retry_target'',
          pn_classes = (case get_string_attr a ''class'' of Some c \<Rightarrow> split_whitespace c | None \<Rightarrow> []),
          pn_timeout = get_duration_attr a ''timeout'',
          pn_llm_model = get_string_attr a ''llm_model'',
          pn_llm_provider = get_string_attr a ''llm_provider'',
          pn_raw = a\<rparr>)"

definition edge_def_to_pipeline_edge :: "edge_def \<Rightarrow> attrs \<Rightarrow> pipeline_edge" where
  "edge_def_to_pipeline_edge ed dflt =
     (let a = hm_extend dflt (ed_attrs ed)
      in \<lparr>pe_from = ed_from ed, pe_to = ed_to ed,
          pe_label = get_string_attr a ''label'',
          pe_condition = get_string_attr a ''condition'',
          pe_weight = (case get_int_attr a ''weight'' of Some v \<Rightarrow> as_i32 v | None \<Rightarrow> 0),
          pe_loop_restart = (get_bool_attr a ''loop_restart'' = Some True),
          pe_reset_quality = (get_bool_attr a ''reset_quality_loop_state'' = Some True),
          pe_raw = a\<rparr>)"

text \<open>
  The index of the sorted edge list: each source with the start and the length of its run.
\<close>

function adj_go :: "nat \<Rightarrow> pipeline_edge list \<Rightarrow> (nat \<times> nat) hmap \<Rightarrow> (nat \<times> nat) hmap" where
  "adj_go i [] m = m"
| "adj_go i (e # es) m =
     (let n = Suc (length (takeWhile (\<lambda>x. pe_from x = pe_from e) es))
      in adj_go (i + n) (drop n (e # es)) (hm_insert (pe_from e) (i, n) m))"
  by pat_completeness auto
termination
  by (relation "measure (\<lambda>(i, es, m). length es)") auto

definition build_adjacency :: "pipeline_edge list \<Rightarrow> (nat \<times> nat) hmap" where
  "build_adjacency es = adj_go 0 es []"

definition collect_nodes :: "dot_graph \<Rightarrow> pipeline_node hmap" where
  "collect_nodes g =
     fold (\<lambda>sg m. fold (\<lambda>(n, d). hm_insert n
            (node_def_to_pipeline_node n d (dg_node_defaults g) (Some (sg_node_defaults sg))))
            (sg_nodes sg) m)
       (dg_subgraphs g)
       (fold (\<lambda>(n, d). hm_insert n (node_def_to_pipeline_node n d (dg_node_defaults g) None))
          (dg_nodes g) [])"

definition collect_authored :: "dot_graph \<Rightarrow> str list hmap" where
  "collect_authored g =
     fold (\<lambda>sg m. fold (\<lambda>(n, d). hm_insert n (hm_keys (nd_authored d))) (sg_nodes sg) m)
       (dg_subgraphs g)
       (fold (\<lambda>(n, d). hm_insert n (hm_keys (nd_authored d))) (dg_nodes g) [])"

definition collect_edges :: "dot_graph \<Rightarrow> pipeline_edge list" where
  "collect_edges g =
     map (\<lambda>e. edge_def_to_pipeline_edge e (dg_edge_defaults g)) (dg_edges g) @
     concat (map (\<lambda>sg. map (\<lambda>e. edge_def_to_pipeline_edge e
         (hm_extend (dg_edge_defaults g) (sg_edge_defaults sg))) (sg_edges sg)) (dg_subgraphs g))"

definition from_dot :: "dot_graph \<Rightarrow> pipeline_graph" where
  "from_dot g =
     (let es = sort_key pe_from (collect_edges g)
      in \<lparr>pg_name = dg_name g,
          pg_goal = (case get_string_attr (dg_attrs g) ''goal'' of Some s \<Rightarrow> s | None \<Rightarrow> []),
          pg_attrs = dg_attrs g,
          pg_nodes = collect_nodes g,
          pg_authored = collect_authored g,
          pg_edges = es,
          pg_adjacency = build_adjacency es\<rparr>)"

section \<open>Queries\<close>

definition graph_node :: "pipeline_graph \<Rightarrow> str \<Rightarrow> pipeline_node option" where
  "graph_node g n = hm_get (pg_nodes g) n"

definition start_node :: "pipeline_graph \<Rightarrow> pipeline_node option" where
  "start_node g =
     (case List.find (\<lambda>n. pn_shape n = ''Mdiamond'') (hm_values (pg_nodes g)) of
        Some n \<Rightarrow> Some n
      | None \<Rightarrow> (case graph_node g ''start'' of Some n \<Rightarrow> Some n | None \<Rightarrow> graph_node g ''Start''))"

definition exit_node :: "pipeline_graph \<Rightarrow> pipeline_node option" where
  "exit_node g = List.find (\<lambda>n. pn_shape n = ''Msquare'') (hm_values (pg_nodes g))"

definition outgoing_edges :: "pipeline_graph \<Rightarrow> str \<Rightarrow> pipeline_edge list" where
  "outgoing_edges g n =
     (case hm_get (pg_adjacency g) n of
        Some (start, count) \<Rightarrow> take count (drop start (pg_edges g))
      | None \<Rightarrow> [])"

definition all_nodes :: "pipeline_graph \<Rightarrow> pipeline_node list" where
  "all_nodes g = hm_values (pg_nodes g)"

section \<open>The index is the filter\<close>

lemma sorted_run:
  fixes f :: "'a \<Rightarrow> 'k::linorder"
  assumes "sorted (map f es)" "\<forall>x \<in> set es. k \<le> f x"
  shows "filter (\<lambda>x. f x = k) es = takeWhile (\<lambda>x. f x = k) es \<and>
         k \<notin> f ` set (dropWhile (\<lambda>x. f x = k) es)"
  using assms
proof (induction es)
  case Nil
  then show ?case by simp
next
  case (Cons a es)
  from Cons.prems have "sorted (map f es)" "\<forall>x \<in> set es. k \<le> f x" by simp_all
  note IH = Cons.IH [OF this]
  show ?case
  proof (cases "f a = k")
    case True
    then show ?thesis using IH by simp
  next
    case False
    have "\<forall>x \<in> set es. f a \<le> f x" "k < f a" using Cons.prems False by auto
    then have "k \<notin> f ` set (a # es)" by fastforce
    then show ?thesis using False by (auto simp: filter_empty_conv)
  qed
qed

lemma take_run: "take (length (takeWhile P xs)) xs = takeWhile P xs"
  by (induction xs) auto

lemma adj_go_slice:
  assumes "sorted (map pe_from es)" "es = drop i all"
  shows "(case hm_get (adj_go i es m) k of
            Some (s, c) \<Rightarrow> if k \<in> pe_from ` set es
              then take c (drop s all) = filter (\<lambda>e. pe_from e = k) es
              else hm_get m k = Some (s, c)
          | None \<Rightarrow> k \<notin> pe_from ` set es \<and> hm_get m k = None)"
  using assms
proof (induction i es m rule: adj_go.induct)
  case (1 i m)
  then show ?case by (auto split: option.splits)
next
  case (2 i e es m)
  define P where "P = (\<lambda>x :: pipeline_edge. pe_from x = pe_from e)"
  define n where "n = Suc (length (takeWhile P es))"
  have rest: "drop n (e # es) = dropWhile P es"
    by (simp add: n_def dropWhile_eq_drop)
  have from_e: "filter P es = takeWhile P es \<and> pe_from e \<notin> pe_from ` set (dropWhile P es)"
    unfolding P_def using "2.prems"(1) by (intro sorted_run) auto
  have run: "take n (e # es) = filter P (e # es)"
  proof -
    have "P e" by (simp add: P_def)
    then show ?thesis using from_e by (simp add: n_def take_run)
  qed
  have fresh: "pe_from e \<notin> pe_from ` set (dropWhile P es)" using from_e by simp
  have split_es: "es = takeWhile P es @ dropWhile P es" by simp
  have others: "filter (\<lambda>x. pe_from x = k) (e # es) = filter (\<lambda>x. pe_from x = k) (dropWhile P es)"
    and froms: "k \<in> pe_from ` set (e # es) \<longleftrightarrow> k \<in> pe_from ` set (dropWhile P es)"
    if "k \<noteq> pe_from e" for k
  proof -
    have none: "\<forall>x \<in> set (takeWhile P es). pe_from x = pe_from e"
      by (auto simp: P_def dest: set_takeWhileD)
    then have "filter (\<lambda>x. pe_from x = k) (takeWhile P es) = []"
      using that by (auto simp: filter_empty_conv)
    then show "filter (\<lambda>x. pe_from x = k) (e # es) = filter (\<lambda>x. pe_from x = k) (dropWhile P es)"
      using that by (subst split_es) (simp only: filter.simps filter_append, simp)
    have "set es = set (takeWhile P es) \<union> set (dropWhile P es)"
      by (metis split_es set_append)
    then show "k \<in> pe_from ` set (e # es) \<longleftrightarrow> k \<in> pe_from ` set (dropWhile P es)"
      using that none by auto
  qed
  have step: "adj_go i (e # es) m = adj_go (i + n) (dropWhile P es) (hm_insert (pe_from e) (i, n) m)"
    using rest by (simp add: Let_def n_def P_def)
  have sorted_rest: "sorted (map pe_from (dropWhile P es))"
    using "2.prems"(1) by (metis rest drop_map sorted_wrt_drop)
  have drop_rest: "dropWhile P es = drop (i + n) all"
    using "2.prems"(2) rest by (metis drop_drop add.commute)
  have n_eq: "n = Suc (length (takeWhile (\<lambda>x. pe_from x = pe_from e) es))"
    by (simp only: n_def P_def)
  have IH: "case hm_get (adj_go i (e # es) m) k of
            Some (s, c) \<Rightarrow> if k \<in> pe_from ` set (dropWhile P es)
              then take c (drop s all) = filter (\<lambda>e. pe_from e = k) (dropWhile P es)
              else hm_get (hm_insert (pe_from e) (i, n) m) k = Some (s, c)
          | None \<Rightarrow> k \<notin> pe_from ` set (dropWhile P es) \<and> hm_get (hm_insert (pe_from e) (i, n) m) k = None"
    unfolding step using "2.IH" [OF n_eq, unfolded rest] sorted_rest drop_rest by blast
  show ?case
  proof (cases "k = pe_from e")
    case True
    with IH fresh have "hm_get (adj_go i (e # es) m) k = Some (i, n)"
      by (auto split: option.splits)
    moreover have "take n (drop i all) = filter (\<lambda>x. pe_from x = k) (e # es)"
      using run "2.prems"(2) True by (simp add: P_def)
    ultimately show ?thesis using True by simp
  next
    case False
    with IH others froms show ?thesis by (auto split: option.splits)
  qed
qed

lemma outgoing_edges_index:
  assumes "sorted (map pe_from (pg_edges g))" "pg_adjacency g = build_adjacency (pg_edges g)"
  shows "outgoing_edges g n = filter (\<lambda>e. pe_from e = n) (pg_edges g)"
proof (cases "hm_get (adj_go 0 (pg_edges g) []) n")
  case None
  then have "n \<notin> pe_from ` set (pg_edges g)"
    using adj_go_slice [OF assms(1) drop_0 [symmetric], where m = "[]" and k = n] by simp
  then show ?thesis
    using None assms(2) by (auto simp: outgoing_edges_def build_adjacency_def empty_filter_conv)
next
  case (Some sc)
  obtain s c where sc: "sc = (s, c)" by (cases sc)
  then have "take c (drop s (pg_edges g)) = filter (\<lambda>e. pe_from e = n) (pg_edges g)"
    using adj_go_slice [OF assms(1) drop_0 [symmetric], where m = "[]" and k = n] Some
    by (simp split: if_splits)
  then show ?thesis using Some sc assms(2) by (simp add: outgoing_edges_def build_adjacency_def)
qed

text \<open>
  The adjacency index is correct: the slice of a node is exactly the list of its
  outgoing edges, in the order in which the source declares them.
\<close>

theorem outgoing_edges_filter:
  "outgoing_edges (from_dot g) n = filter (\<lambda>e. pe_from e = n) (collect_edges g)"
proof -
  have "outgoing_edges (from_dot g) n = filter (\<lambda>e. pe_from e = n) (pg_edges (from_dot g))"
    by (rule outgoing_edges_index) (simp_all add: from_dot_def Let_def)
  then show ?thesis by (simp add: from_dot_def Let_def sort_key_stable)
qed

definition graph_indexed :: "pipeline_graph \<Rightarrow> bool" where
  "graph_indexed g \<longleftrightarrow> sorted (map pe_from (pg_edges g)) \<and> pg_adjacency g = build_adjacency (pg_edges g)"

lemma from_dot_indexed: "graph_indexed (from_dot g)"
  by (simp add: graph_indexed_def from_dot_def Let_def)

lemma indexed_outgoing:
  "graph_indexed g \<Longrightarrow> outgoing_edges g n = filter (\<lambda>e. pe_from e = n) (pg_edges g)"
  by (simp add: graph_indexed_def outgoing_edges_index)

lemma wf_collect_nodes: "hm_wf (collect_nodes g)"
  unfolding collect_nodes_def by (intro hm_wf_fold) (auto intro!: hm_wf_fold)

section \<open>Where a node's attributes come from\<close>

lemma layered_attrs_get:
  assumes "hm_wf a" "\<And>s. sd = Some s \<Longrightarrow> hm_wf s"
  shows "hm_get (layered_attrs gd sd a) k =
     (case hm_get a k of Some v \<Rightarrow> Some v
      | None \<Rightarrow> (case Option.bind sd (\<lambda>s. hm_get s k) of Some v \<Rightarrow> Some v | None \<Rightarrow> hm_get gd k))"
  using assms by (cases sd) (auto simp: layered_attrs_def hm_get_extend split: option.splits)

text \<open>
  A node of the top level that no subgraph redefines is converted with the graph's final
  defaults below its own attributes.
\<close>

lemma fold_insert_distinct_get:
  "distinct (map fst xs) \<Longrightarrow>
   hm_get (fold (\<lambda>(n, d). hm_insert n (f n d)) xs m) k =
     (case map_of xs k of Some d \<Rightarrow> Some (f k d) | None \<Rightarrow> hm_get m k)"
proof (induction xs arbitrary: m)
  case Nil
  then show ?case by simp
next
  case (Cons p xs)
  obtain n d where p: "p = (n, d)" by (cases p)
  with Cons.prems have "map_of xs n = None" by (simp add: map_of_eq_None_iff)
  with Cons p show ?case by (auto split: option.splits)
qed

lemma from_dot_node:
  assumes "hm_wf (dg_nodes g)" "dg_subgraphs g = []" "hm_get (dg_nodes g) n = Some d"
  shows "graph_node (from_dot g) n = Some (node_def_to_pipeline_node n d (dg_node_defaults g) None)"
  using assms
  by (simp add: graph_node_def from_dot_def Let_def collect_nodes_def hm_wf_def
      fold_insert_distinct_get hm_get_def [of "dg_nodes g"])

text \<open>
  Defaults leak backwards: a default declared after a node is not among the
  node's attributes in the syntax tree, as in Graphviz, and yet the pipeline node gets it,
  because the conversion layers the graph's final defaults below every node. Here
  \<open>digraph G { a; node [goal_gate=true] }\<close> makes \<open>a\<close> a goal gate.
\<close>

theorem late_default_leaks:
  "map_option (\<lambda>d. hm_get (nd_attrs d) ''goal_gate'')
     (hm_get (dg_nodes (digraph_of ''G'' [NodeStmt ''a'' [], NodeDefaults [(''goal_gate'', ABoolean True)]])) ''a'')
     = Some None
   \<and> map_option pn_goal_gate
     (graph_node (from_dot (digraph_of ''G'' [NodeStmt ''a'' [], NodeDefaults [(''goal_gate'', ABoolean True)]])) ''a'')
     = Some True"
  by code_simp

end
