(* ===== verification/Stylesheet.thy ===== *)
theory Stylesheet
  imports Graph
begin

text \<open>
  Model stylesheets (\<open>crates/attractor-pipeline/src/stylesheet.rs\<close>): the parser, a cursor over
  the bytes of the input, and the application to a graph. The cursor is modelled by the bytes
  that remain. Slicing a \<open>str\<close> off a character boundary panics; the model has that as
  \<open>CssPanic\<close>.
\<close>

section \<open>Data\<close>

datatype selector = Universal | SelId str | SelClass str

record css_declaration =
  dc_property :: str
  dc_value :: str

record css_rule =
  cr_selector :: selector
  cr_declarations :: "css_declaration list"

type_synonym stylesheet = "css_rule list"

datatype css_failure = CssError error | CssPanic

type_synonym 'a css = "css_failure + 'a"

fun specificity :: "selector \<Rightarrow> nat" where
  "specificity Universal = 0"
| "specificity (SelClass _) = 1"
| "specificity (SelId _) = 2"

fun selector_matches :: "selector \<Rightarrow> pipeline_node \<Rightarrow> bool" where
  "selector_matches Universal n = True"
| "selector_matches (SelId i) n = (pn_id n = i)"
| "selector_matches (SelClass c) n = (c \<in> set (pn_classes n))"

section \<open>Parser\<close>

definition css_ws :: "char \<Rightarrow> bool" where
  "css_ws c \<longleftrightarrow> c \<in> {CHR 0x20, CHR 0x09, CHR 0x0A, CHR 0x0C, CHR 0x0D}"

definition at_boundary :: "str \<Rightarrow> bool" where
  "at_boundary s \<longleftrightarrow> s = [] \<or> lead_byte (hd s)"

fun skip_css_block :: "str \<Rightarrow> str css" where
  "skip_css_block (a # b # s) =
     (if \<not> lead_byte a \<or> \<not> at_boundary s then Inl CssPanic
      else if a = CHR ''*'' \<and> b = CHR ''/'' then Inr s
      else skip_css_block (b # s))"
| "skip_css_block s = Inr s"

lemma skip_css_block_length: "skip_css_block s = Inr r \<Longrightarrow> length r \<le> length s"
  by (induction s rule: skip_css_block.induct) (auto split: if_splits)

function skip_css :: "str \<Rightarrow> str css" where
  "skip_css s0 =
     (let s = dropWhile css_ws s0
      in if \<not> at_boundary s then Inl CssPanic
         else if starts_with ''//'' s then skip_css (dropWhile (\<lambda>c. c \<noteq> CHR 0x0A) s)
         else if starts_with ''/*'' s
         then (case skip_css_block (drop 2 s) of Inl f \<Rightarrow> Inl f | Inr r \<Rightarrow> skip_css r)
         else Inr s)"
  by pat_completeness auto
termination
proof (relation "measure length", goal_cases)
  case (2 s0 s)
  then have s: "length s \<le> length s0" by (simp add: length_dropWhile_le)
  obtain t where t: "s = ''//'' @ t" using 2 starts_withE by blast
  have "length (dropWhile (\<lambda>c. c \<noteq> CHR 0x0A) t) \<le> length t" by (rule length_dropWhile_le)
  then show ?case using s t by simp
next
  case (3 s0 s r)
  then have s: "length s \<le> length s0" by (simp add: length_dropWhile_le)
  obtain t where t: "s = ''/*'' @ t" using 3 starts_withE by blast
  from 3 have "length r \<le> length (drop 2 s)" using skip_css_block_length by blast
  then show ?case using s t by simp
qed simp

declare skip_css.simps [simp del]

definition css_error :: "str \<Rightarrow> str \<Rightarrow> str \<Rightarrow> css_failure" where
  "css_error input rest msg =
     (let consumed = take (length input - length rest) input
      in CssError (ParseError (count_list consumed (CHR 0x0A) + 1)
           (Suc (length (takeWhile (\<lambda>c. c \<noteq> CHR 0x0A) (rev consumed)))) msg None))"

definition found_char :: "str \<Rightarrow> str" where
  "found_char rest = sq (case rest of [] \<Rightarrow> [CHR 0x00] | c # _ \<Rightarrow> push_byte_as_char c)"

definition expect :: "str \<Rightarrow> char \<Rightarrow> str \<Rightarrow> str css" where
  "expect input ch s =
     rbind (skip_css s) (\<lambda>r.
       if r \<noteq> [] \<and> hd r = ch then Inr (tl r)
       else Inl (css_error input r (''expected '' @ sq [ch] @ '', found '' @ found_char r)))"

definition ident_char :: "char \<Rightarrow> bool" where
  "ident_char c \<longleftrightarrow> is_alnum c \<or> c = CHR ''_'' \<or> c = CHR ''-''"

definition parse_identifier :: "str \<Rightarrow> str \<Rightarrow> (str \<times> str) css" where
  "parse_identifier input s =
     rbind (skip_css s) (\<lambda>r.
       let i = takeWhile ident_char r; r' = dropWhile ident_char r
       in if i = [] then Inl (css_error input r' ''expected identifier'') else Inr (i, r'))"

definition value_end :: "char \<Rightarrow> bool" where
  "value_end c \<longleftrightarrow> c = CHR '';'' \<or> c = CHR ''}''"

definition parse_value :: "str \<Rightarrow> str \<Rightarrow> (str \<times> str) css" where
  "parse_value input s =
     rbind (skip_css s) (\<lambda>r.
       let v = trim (takeWhile (\<lambda>c. \<not> value_end c) r); r' = dropWhile (\<lambda>c. \<not> value_end c) r
       in if v = [] then Inl (css_error input r' ''expected property value'') else Inr (v, r'))"

definition parse_selector :: "str \<Rightarrow> str \<Rightarrow> (selector \<times> str) css" where
  "parse_selector input s =
     rbind (skip_css s) (\<lambda>r.
       if r \<noteq> [] \<and> hd r = CHR ''*'' then Inr (Universal, tl r)
       else if r \<noteq> [] \<and> hd r = CHR ''#''
       then rbind (parse_identifier input (tl r)) (\<lambda>(i, r'). Inr (SelId i, r'))
       else if r \<noteq> [] \<and> hd r = CHR ''.''
       then rbind (parse_identifier input (tl r)) (\<lambda>(c, r'). Inr (SelClass c, r'))
       else Inl (css_error input r
              (''expected selector ('' @ sq ''*'' @ '', '' @ sq ''#'' @ '', or '' @ sq ''.'' @
               ''), found '' @ found_char r)))"

definition parse_declaration :: "str \<Rightarrow> str \<Rightarrow> (css_declaration \<times> str) css" where
  "parse_declaration input s =
     rbind (parse_identifier input s) (\<lambda>(p, r).
     rbind (expect input (CHR '':'') r) (\<lambda>r.
     rbind (parse_value input r) (\<lambda>(v, r).
       Inr (\<lparr>dc_property = p, dc_value = v\<rparr>, r))))"

lemma skip_css_length: "skip_css s = Inr r \<Longrightarrow> length r \<le> length s"
proof (induction s rule: skip_css.induct)
  case (1 s0)
  define s where "s = dropWhile css_ws s0"
  have len: "length s \<le> length s0" by (simp add: s_def length_dropWhile_le)
  have eq: "skip_css s0 = (if \<not> at_boundary s then Inl CssPanic
         else if starts_with ''//'' s then skip_css (dropWhile (\<lambda>c. c \<noteq> CHR 0x0A) s)
         else if starts_with ''/*'' s
         then (case skip_css_block (drop 2 s) of Inl f \<Rightarrow> Inl f | Inr r \<Rightarrow> skip_css r)
         else Inr s)"
    unfolding s_def by (subst skip_css.simps) (simp add: Let_def)
  consider "starts_with ''//'' s" | "\<not> starts_with ''//'' s" "starts_with ''/*'' s"
    | "\<not> starts_with ''//'' s" "\<not> starts_with ''/*'' s" by blast
  then show ?case
  proof cases
    case 1
    with "1.prems" eq have "at_boundary s" "skip_css (dropWhile (\<lambda>c. c \<noteq> CHR 0x0A) s) = Inr r"
      by (auto split: if_splits)
    from "1.IH"(1) [OF s_def _ _ this(2)] this 1 len length_dropWhile_le [of _ s] show ?thesis
      by (meson le_trans)
  next
    case 2
    with "1.prems" eq obtain t where t: "at_boundary s" "skip_css_block (drop 2 s) = Inr t" "skip_css t = Inr r"
      by (auto split: if_splits sum.splits)
    from "1.IH"(2) [OF s_def _ _ _ t(2) t(3)] t 2 have "length r \<le> length t" by blast
    then show ?thesis using skip_css_block_length [OF t(2)] len by simp
  next
    case 3
    with "1.prems" eq len show ?thesis by (auto split: if_splits)
  qed
qed

lemma expect_length: "expect input c s = Inr r \<Longrightarrow> length r < length s"
  using skip_css_length [of s]
  by (auto simp: expect_def neq_Nil_conv split: if_splits)

lemma takeWhile_dropWhile_length:
  "takeWhile P r \<noteq> [] \<Longrightarrow> length (dropWhile P r) < length r"
  by (cases r) (auto simp: le_imp_less_Suc length_dropWhile_le split: if_splits)

lemma parse_identifier_length: "parse_identifier input s = Inr (i, r) \<Longrightarrow> length r < length s"
  using skip_css_length [of s] takeWhile_dropWhile_length [of ident_char]
  by (auto simp: parse_identifier_def Let_def split: if_splits) (meson order_less_le_trans)

lemma parse_value_length: "parse_value input s = Inr (v, r) \<Longrightarrow> length r \<le> length s"
proof -
  assume "parse_value input s = Inr (v, r)"
  then obtain t where "skip_css s = Inr t" "r = dropWhile (\<lambda>c. \<not> value_end c) t"
    by (auto simp: parse_value_def Let_def split: if_splits)
  then show ?thesis using skip_css_length [of s t] length_dropWhile_le le_trans by blast
qed

lemma parse_selector_length: "parse_selector input s = Inr (x, r) \<Longrightarrow> length r < length s"
proof -
  assume "parse_selector input s = Inr (x, r)"
  then obtain t where t: "skip_css s = Inr t" "t \<noteq> []"
    and "r = tl t \<or> (\<exists>i. parse_identifier input (tl t) = Inr (i, r))"
    by (auto simp: parse_selector_def split: if_splits)
  then have "length r \<le> length (tl t)" using parse_identifier_length by fastforce
  then show ?thesis using t skip_css_length [OF t(1)] by (cases t) auto
qed

lemma parse_declaration_length: "parse_declaration input s = Inr (d, r) \<Longrightarrow> length r < length s"
  using parse_identifier_length [of input s] expect_length parse_value_length
  by (auto simp: parse_declaration_def) (meson le_less_trans less_trans order.strict_trans1)

text \<open>The body of a rule after its opening brace.\<close>

function parse_declarations :: "str \<Rightarrow> css_declaration list \<Rightarrow> str \<Rightarrow> (css_declaration list \<times> str) css" where
  "parse_declarations input acc s =
     (case skip_css s of
        Inl f \<Rightarrow> Inl f
      | Inr [] \<Rightarrow> Inl (css_error input [] ''unexpected end of input in rule body'')
      | Inr (c # r) \<Rightarrow>
          if c = CHR ''}'' then Inr (acc, r)
          else (case parse_declaration input (c # r) of
                  Inl f \<Rightarrow> Inl f
                | Inr (d, r1) \<Rightarrow>
                    (case skip_css r1 of
                       Inl f \<Rightarrow> Inl f
                     | Inr r2 \<Rightarrow>
                         parse_declarations input (acc @ [d])
                           (if r2 \<noteq> [] \<and> hd r2 = CHR '';'' then tl r2 else r2))))"
  by pat_completeness auto
termination
proof (relation "measure (\<lambda>(input, acc, s). length s)", goal_cases)
  case (2 input acc s r' c r p d r1 r2)
  then have "length (c # r) \<le> length s" "length r1 < length (c # r)" "length r2 \<le> length r1"
    using skip_css_length parse_declaration_length by blast+
  then show ?case by auto
qed simp

declare parse_declarations.simps [simp del]

definition parse_rule :: "str \<Rightarrow> str \<Rightarrow> (css_rule \<times> str) css" where
  "parse_rule input s =
     rbind (parse_selector input s) (\<lambda>(sel, r).
     rbind (expect input (CHR ''{'') r) (\<lambda>r.
     rbind (parse_declarations input [] r) (\<lambda>(ds, r).
       Inr (\<lparr>cr_selector = sel, cr_declarations = ds\<rparr>, r))))"

lemma parse_declarations_length:
  "parse_declarations input acc s = Inr (ds, r) \<Longrightarrow> length r < length s"
proof (induction input acc s arbitrary: ds r rule: parse_declarations.induct)
  case (1 input acc s)
  from "1.prems" obtain c t where t: "skip_css s = Inr (c # t)"
    by (subst (asm) parse_declarations.simps) (auto split: sum.splits list.splits)
  note l = skip_css_length [OF t]
  show ?case
  proof (cases "c = CHR ''}''")
    case True
    with "1.prems" t l show ?thesis by (subst (asm) parse_declarations.simps) auto
  next
    case False
    with "1.prems" t obtain d r1 r2 where p: "parse_declaration input (c # t) = Inr (d, r1)"
      "skip_css r1 = Inr r2"
      "parse_declarations input (acc @ [d]) (if r2 \<noteq> [] \<and> hd r2 = CHR '';'' then tl r2 else r2) = Inr (ds, r)"
      by (subst (asm) parse_declarations.simps) (auto split: sum.splits prod.splits)
    have "length r < length (if r2 \<noteq> [] \<and> hd r2 = CHR '';'' then tl r2 else r2)"
      using "1.IH" [OF t refl False p(1) refl p(2) p(3)] .
    moreover have "length (if r2 \<noteq> [] \<and> hd r2 = CHR '';'' then tl r2 else r2) \<le> length r2" by auto
    ultimately show ?thesis
      using l parse_declaration_length [OF p(1)] skip_css_length [OF p(2)] by linarith
  qed
qed

lemma parse_rule_length: "parse_rule input s = Inr (x, r) \<Longrightarrow> length r < length s"
  using parse_selector_length expect_length parse_declarations_length
  by (auto simp: parse_rule_def) (meson less_trans)

function parse_rules :: "str \<Rightarrow> css_rule list \<Rightarrow> str \<Rightarrow> css_rule list css" where
  "parse_rules input acc s =
     (case skip_css s of
        Inl f \<Rightarrow> Inl f
      | Inr r \<Rightarrow>
          if r = []
          then (if acc = [] then Inl (css_error input [] ''stylesheet must contain at least one rule'')
                else Inr acc)
          else (case parse_rule input r of
                  Inl f \<Rightarrow> Inl f
                | Inr (x, r1) \<Rightarrow> parse_rules input (acc @ [x]) r1))"
  by pat_completeness auto
termination
proof (relation "measure (\<lambda>(input, acc, s). length s)", goal_cases)
  case (2 input acc s r p x r1)
  then have "length r \<le> length s" "length r1 < length r"
    using skip_css_length parse_rule_length by blast+
  then show ?case by simp
qed simp

declare parse_rules.simps [simp del]

definition parse_stylesheet :: "str \<Rightarrow> stylesheet css" where
  "parse_stylesheet input = parse_rules input [] input"

section \<open>ASCII stylesheets do not panic\<close>

lemma ascii_text_Cons [simp]: "ascii_text (c # s) \<longleftrightarrow> byte c < 0x80 \<and> ascii_text s"
  by (simp add: ascii_text_def)

lemma ascii_text_subset: "ascii_text s \<Longrightarrow> set r \<subseteq> set s \<Longrightarrow> ascii_text r"
  by (auto simp: ascii_text_def)

lemma ascii_at_boundary: "ascii_text s \<Longrightarrow> at_boundary s"
  by (cases s) (auto simp: at_boundary_def lead_byte_def)

lemma skip_css_block_ascii:
  "ascii_text s \<Longrightarrow> \<exists>r. skip_css_block s = Inr r \<and> ascii_text r"
  by (induction s rule: skip_css_block.induct) (auto simp: lead_byte_def ascii_at_boundary)

lemma skip_css_ascii: "ascii_text s \<Longrightarrow> \<exists>r. skip_css s = Inr r \<and> ascii_text r"
proof (induction s rule: skip_css.induct)
  case (1 s0)
  define s where "s = dropWhile css_ws s0"
  have a: "ascii_text s" using "1.prems" by (auto simp: s_def ascii_text_def dest: set_dropWhileD)
  then have b: "at_boundary s" by (rule ascii_at_boundary)
  have eq: "skip_css s0 = (if starts_with ''//'' s then skip_css (dropWhile (\<lambda>c. c \<noteq> CHR 0x0A) s)
         else if starts_with ''/*'' s
         then (case skip_css_block (drop 2 s) of Inl f \<Rightarrow> Inl f | Inr r \<Rightarrow> skip_css r)
         else Inr s)"
    using b unfolding s_def by (subst skip_css.simps) (simp add: Let_def)
  have d: "ascii_text (dropWhile (\<lambda>c. c \<noteq> CHR 0x0A) s)"
    using a by (auto simp: ascii_text_def dest: set_dropWhileD)
  obtain t where t: "skip_css_block (drop 2 s) = Inr t" "ascii_text t"
    using a skip_css_block_ascii [of "drop 2 s"] by (auto simp: ascii_text_def dest: in_set_dropD)
  show ?case
    using "1.IH"(1) [OF s_def _ _ d] "1.IH"(2) [OF s_def _ _ _ t] a b t eq
    by (auto split: if_splits)
qed

lemma parse_identifier_ascii:
  assumes "ascii_text s"
  shows "parse_identifier input s \<noteq> Inl CssPanic
    \<and> (\<forall>i r. parse_identifier input s = Inr (i, r) \<longrightarrow> ascii_text r)"
proof -
  obtain t where "skip_css s = Inr t" "ascii_text t" using skip_css_ascii [OF assms] by blast
  then show ?thesis
    by (auto simp: parse_identifier_def Let_def css_error_def ascii_text_def dest: set_dropWhileD)
qed

lemma parse_value_ascii:
  assumes "ascii_text s"
  shows "parse_value input s \<noteq> Inl CssPanic
    \<and> (\<forall>i r. parse_value input s = Inr (i, r) \<longrightarrow> ascii_text r)"
proof -
  obtain t where "skip_css s = Inr t" "ascii_text t" using skip_css_ascii [OF assms] by blast
  then show ?thesis
    by (auto simp: parse_value_def Let_def css_error_def ascii_text_def dest: set_dropWhileD)
qed

lemma expect_ascii:
  assumes "ascii_text s"
  shows "expect input c s \<noteq> Inl CssPanic \<and> (\<forall>r. expect input c s = Inr r \<longrightarrow> ascii_text r)"
proof -
  obtain t where "skip_css s = Inr t" "ascii_text t" using skip_css_ascii [OF assms] by blast
  then show ?thesis
    by (cases t) (auto simp: expect_def Let_def css_error_def)
qed

lemma parse_selector_ascii:
  assumes "ascii_text s"
  shows "parse_selector input s \<noteq> Inl CssPanic
    \<and> (\<forall>i r. parse_selector input s = Inr (i, r) \<longrightarrow> ascii_text r)"
proof -
  obtain t where t: "skip_css s = Inr t" "ascii_text t" using skip_css_ascii [OF assms] by blast
  then have a: "ascii_text (tl t)" by (cases t) auto
  from parse_identifier_ascii [OF a] t a show ?thesis
    by (auto simp: parse_selector_def Let_def css_error_def rbind_eq_Inl)
qed

lemma rbind_ascii:
  "x \<noteq> Inl CssPanic \<Longrightarrow>
   (\<And>a. x = Inr a \<Longrightarrow> f a \<noteq> Inl CssPanic \<and> (\<forall>i r. f a = Inr (i, r) \<longrightarrow> ascii_text r)) \<Longrightarrow>
   rbind x f \<noteq> Inl CssPanic \<and> (\<forall>i r. rbind x f = Inr (i, r) \<longrightarrow> ascii_text r)"
  by (cases x) auto

lemma parse_declaration_ascii:
  assumes "ascii_text s"
  shows "parse_declaration input s \<noteq> Inl CssPanic
    \<and> (\<forall>i r. parse_declaration input s = Inr (i, r) \<longrightarrow> ascii_text r)"
  unfolding parse_declaration_def
proof (rule rbind_ascii, goal_cases)
  case 1
  show ?case using parse_identifier_ascii [OF assms] by blast
next
  case (2 a)
  then obtain p r where a: "a = (p, r)" "ascii_text r"
    using parse_identifier_ascii [OF assms] by (cases a) blast
  show ?case unfolding a prod.case
  proof (rule rbind_ascii, goal_cases)
    case 1
    show ?case using expect_ascii [OF a(2)] by blast
  next
    case (2 t)
    then have "ascii_text t" using expect_ascii [OF a(2)] by blast
    then show ?case by (intro rbind_ascii) (use parse_value_ascii in auto)
  qed
qed

lemma parse_declarations_ascii:
  "ascii_text s \<Longrightarrow> parse_declarations input acc s \<noteq> Inl CssPanic
    \<and> (\<forall>ds r. parse_declarations input acc s = Inr (ds, r) \<longrightarrow> ascii_text r)"
proof (induction input acc s rule: parse_declarations.induct)
  case (1 input acc s)
  obtain t where t: "skip_css s = Inr t" "ascii_text t" using skip_css_ascii [OF "1.prems"] by blast
  show ?case
  proof (cases t)
    case Nil
    with t show ?thesis by (simp add: parse_declarations.simps [of _ _ s] css_error_def Let_def)
  next
    case (Cons c r)
    show ?thesis
    proof (cases "c = CHR ''}''")
      case True
      with t Cons show ?thesis by (simp add: parse_declarations.simps [of _ _ s])
    next
      case False
      show ?thesis
      proof (cases "parse_declaration input (c # r)")
        case (Inl f)
        with False t Cons parse_declaration_ascii [of "c # r" input] show ?thesis
          by (auto simp: parse_declarations.simps [of _ _ s])
      next
        case (Inr p)
        obtain d r1 where p: "p = (d, r1)" by (cases p)
        with Inr t Cons parse_declaration_ascii [of "c # r" input] have "ascii_text r1" by simp
        then obtain r2 where r2: "skip_css r1 = Inr r2" "ascii_text r2" using skip_css_ascii by blast
        then have "ascii_text (if r2 \<noteq> [] \<and> hd r2 = CHR '';'' then tl r2 else r2)"
          by (cases r2) auto
        from "1.IH" [OF t(1) Cons False Inr p [symmetric] r2(1) this] False Inr p t Cons r2
        show ?thesis by (simp add: parse_declarations.simps [of _ _ s])
      qed
    qed
  qed
qed

lemma parse_rule_ascii:
  assumes "ascii_text s"
  shows "parse_rule input s \<noteq> Inl CssPanic
    \<and> (\<forall>x r. parse_rule input s = Inr (x, r) \<longrightarrow> ascii_text r)"
  unfolding parse_rule_def
proof (rule rbind_ascii, goal_cases)
  case 1
  show ?case using parse_selector_ascii [OF assms] by blast
next
  case (2 a)
  then obtain p r where a: "a = (p, r)" "ascii_text r"
    using parse_selector_ascii [OF assms] by (cases a) blast
  show ?case unfolding a prod.case
  proof (rule rbind_ascii, goal_cases)
    case 1
    show ?case using expect_ascii [OF a(2)] by blast
  next
    case (2 t)
    then have "ascii_text t" using expect_ascii [OF a(2)] by blast
    then show ?case by (intro rbind_ascii) (use parse_declarations_ascii in auto)
  qed
qed

lemma parse_rules_ascii: "ascii_text s \<Longrightarrow> parse_rules input acc s \<noteq> Inl CssPanic"
proof (induction input acc s rule: parse_rules.induct)
  case (1 input acc s)
  obtain t where t: "skip_css s = Inr t" "ascii_text t" using skip_css_ascii [OF "1.prems"] by blast
  show ?case
  proof (cases "t = []")
    case True
    with t show ?thesis by (simp add: parse_rules.simps [of _ _ s] css_error_def Let_def)
  next
    case False
    show ?thesis
    proof (cases "parse_rule input t")
      case (Inl f)
      with False t parse_rule_ascii [of t input] show ?thesis
        by (auto simp: parse_rules.simps [of _ _ s])
    next
      case (Inr p)
      obtain x r where p: "p = (x, r)" by (cases p)
      with Inr t parse_rule_ascii [of t input] have "ascii_text r" by simp
      from "1.IH" [OF t(1) False Inr p [symmetric] this] False Inr p t show ?thesis
        by (simp add: parse_rules.simps [of _ _ s])
    qed
  qed
qed

text \<open>
  The stylesheet parser never panics on an ASCII stylesheet: it returns rules or a
  parse error, and it always returns (the model is total).
\<close>

theorem ascii_stylesheet_no_panic:
  assumes "ascii_text css"
  shows "(\<exists>ss. parse_stylesheet css = Inr ss) \<or> (\<exists>e. parse_stylesheet css = Inl (CssError e))"
proof (cases "parse_stylesheet css")
  case (Inl f)
  with parse_rules_ascii [OF assms, of css "[]"] show ?thesis
    by (cases f) (auto simp: parse_stylesheet_def)
qed simp

theorem ascii_stylesheet_no_panic_witness:
  "(\<exists>ss. parse_stylesheet ''* { llm_model: m; }'' = Inr ss)
   \<or> (\<exists>e. parse_stylesheet ''* { llm_model: m; }'' = Inl (CssError e))"
  by (rule ascii_stylesheet_no_panic) code_simp

definition css_comment_example :: "str \<Rightarrow> str" where
  "css_comment_example body = ''/* '' @ body @ '' */ * { llm_model: m; }''"

text \<open>
  A block comment that holds a non-ASCII letter makes the parser panic: the search for
  the end of the comment slices the text at every byte. The same stylesheet without the
  letter parses.
\<close>

theorem non_ascii_comment_panics:
  "parse_stylesheet (css_comment_example [CHR 0xC3, CHR 0xA9]) = Inl CssPanic
   \<and> parse_stylesheet (css_comment_example ''e'') =
       Inr [\<lparr>cr_selector = Universal,
             cr_declarations = [\<lparr>dc_property = ''llm_model'', dc_value = ''m''\<rparr>]\<rparr>]"
  by code_simp

section \<open>Application\<close>

definition apply_declaration :: "bool \<Rightarrow> bool \<Rightarrow> css_declaration \<Rightarrow> pipeline_node \<Rightarrow> pipeline_node" where
  "apply_declaration had_model had_provider d n =
     (if dc_property d = ''llm_model'' \<and> \<not> had_model then n\<lparr>pn_llm_model := Some (dc_value d)\<rparr>
      else if dc_property d = ''llm_provider'' \<and> \<not> had_provider
      then n\<lparr>pn_llm_provider := Some (dc_value d)\<rparr>
      else if dc_property d = ''reasoning_effort''
      then n\<lparr>pn_raw := hm_insert ''reasoning_effort'' (AString (dc_value d)) (pn_raw n)\<rparr>
      else n)"

definition matching_rules :: "pipeline_node \<Rightarrow> stylesheet \<Rightarrow> css_rule list" where
  "matching_rules n ss =
     sort_key (\<lambda>r. specificity (cr_selector r)) (filter (\<lambda>r. selector_matches (cr_selector r) n) ss)"

definition authored_has :: "str list option \<Rightarrow> str \<Rightarrow> bool" where
  "authored_has a k \<longleftrightarrow> (case a of None \<Rightarrow> False | Some ks \<Rightarrow> k \<in> set ks)"

definition style_node :: "str list option \<Rightarrow> stylesheet \<Rightarrow> pipeline_node \<Rightarrow> pipeline_node" where
  "style_node authored ss n =
     fold (apply_declaration (authored_has authored ''llm_model'') (authored_has authored ''llm_provider''))
       (concat (map cr_declarations (matching_rules n ss))) n"

definition apply_stylesheet :: "pipeline_graph \<Rightarrow> stylesheet \<Rightarrow> pipeline_graph" where
  "apply_stylesheet g ss =
     g\<lparr>pg_nodes := map (\<lambda>(k, n). (k, style_node (hm_get (pg_authored g) (pn_id n)) ss n)) (pg_nodes g)\<rparr>"

subsection \<open>What the cascade promises\<close>

text \<open>
  The abstract cascade: the last declaration of the property among the matching rules of the
  highest specificity that declares it.
\<close>

definition last_value :: "str \<Rightarrow> css_rule list \<Rightarrow> str option" where
  "last_value p rs =
     (case filter (\<lambda>d. dc_property d = p) (concat (map cr_declarations rs)) of
        [] \<Rightarrow> None | d # ds \<Rightarrow> Some (dc_value (last (d # ds))))"

definition cascade :: "str \<Rightarrow> pipeline_node \<Rightarrow> stylesheet \<Rightarrow> str option" where
  "cascade p n ss =
     (let level = (\<lambda>k. last_value p (filter (\<lambda>r. selector_matches (cr_selector r) n
                                           \<and> specificity (cr_selector r) = k) ss))
      in or_else (level 2) (or_else (level 1) (level 0)))"

lemma last_value_Nil [simp]: "last_value p [] = None"
  by (simp add: last_value_def)

lemma last_value_append: "last_value p (xs @ ys) = or_else (last_value p ys) (last_value p xs)"
  by (auto simp: last_value_def split: list.splits)

lemma insort_levels:
  assumes "f x \<le> (2::nat)" "\<forall>a \<in> set as. f a = 0" "\<forall>b \<in> set bs. f b = 1" "\<forall>c \<in> set cs. f c = 2"
  shows "insort_key f x (as @ bs @ cs) =
     (if f x = 0 then x # as @ bs @ cs else if f x = 1 then as @ x # bs @ cs else as @ bs @ x # cs)"
proof -
  have cs: "insort_key f x cs = x # cs" if "f x \<le> 2"
    using assms(4) that by (cases cs) auto
  have bs: "insort_key f x (bs @ cs) = (if f x \<le> 1 then x # bs @ cs else bs @ insort_key f x cs)"
    using assms(3) cs by (induction bs) (auto split: if_splits)
  have "insort_key f x (as @ bs @ cs) = (if f x = 0 then x # as @ bs @ cs else as @ insort_key f x (bs @ cs))"
    using assms(2) bs cs by (induction as) auto
  with bs cs assms(1) show ?thesis by (auto simp: le_Suc_eq numeral_2_eq_2)
qed

lemma sort_key_levels:
  assumes "\<forall>x \<in> set xs. f x \<le> (2::nat)"
  shows "sort_key f xs =
    filter (\<lambda>x. f x = 0) xs @ filter (\<lambda>x. f x = 1) xs @ filter (\<lambda>x. f x = 2) xs"
  using assms
proof (induction xs)
  case (Cons x xs)
  then have "sort_key f (x # xs) = insort_key f x
    (filter (\<lambda>x. f x = 0) xs @ filter (\<lambda>x. f x = 1) xs @ filter (\<lambda>x. f x = 2) xs)" by simp
  also have "\<dots> = (if f x = 0 then x # filter (\<lambda>x. f x = 0) xs @ filter (\<lambda>x. f x = 1) xs @ filter (\<lambda>x. f x = 2) xs
      else if f x = 1 then filter (\<lambda>x. f x = 0) xs @ x # filter (\<lambda>x. f x = 1) xs @ filter (\<lambda>x. f x = 2) xs
      else filter (\<lambda>x. f x = 0) xs @ filter (\<lambda>x. f x = 1) xs @ x # filter (\<lambda>x. f x = 2) xs)"
    using Cons.prems by (intro insort_levels) auto
  also have "\<dots> = filter (\<lambda>x. f x = 0) (x # xs) @ filter (\<lambda>x. f x = 1) (x # xs) @ filter (\<lambda>x. f x = 2) (x # xs)"
    using Cons.prems by auto
  finally show ?case .
qed simp

lemma specificity_le: "specificity s \<le> 2"
  by (cases s) auto

lemma cascade_matching: "cascade p n ss = last_value p (matching_rules n ss)"
  by (simp add: cascade_def matching_rules_def sort_key_levels specificity_le last_value_append
      or_else_assoc filter_filter conj_commute)

lemma fold_declarations_model:
  "pn_llm_model (fold (apply_declaration hm hp) ds n) =
     (if hm then pn_llm_model n
      else case filter (\<lambda>d. dc_property d = ''llm_model'') ds of
        [] \<Rightarrow> pn_llm_model n | e # es \<Rightarrow> Some (dc_value (last (e # es))))"
  by (induction ds arbitrary: n) (auto simp: apply_declaration_def split: list.splits)

lemma fold_declarations_provider:
  "pn_llm_provider (fold (apply_declaration hm hp) ds n) =
     (if hp then pn_llm_provider n
      else case filter (\<lambda>d. dc_property d = ''llm_provider'') ds of
        [] \<Rightarrow> pn_llm_provider n | e # es \<Rightarrow> Some (dc_value (last (e # es))))"
  by (induction ds arbitrary: n) (auto simp: apply_declaration_def split: list.splits)

lemma fold_declarations_effort:
  "hm_get (pn_raw (fold (apply_declaration hm hp) ds n)) ''reasoning_effort'' =
     (case filter (\<lambda>d. dc_property d = ''reasoning_effort'') ds of
        [] \<Rightarrow> hm_get (pn_raw n) ''reasoning_effort''
      | e # es \<Rightarrow> Some (AString (dc_value (last (e # es)))))"
  by (induction ds arbitrary: n) (auto simp: apply_declaration_def split: list.splits)

lemma fold_declarations_id: "pn_id (fold (apply_declaration hm hp) ds n) = pn_id n"
  by (induction ds arbitrary: n) (auto simp: apply_declaration_def)

lemma style_node_id [simp]: "pn_id (style_node a ss n) = pn_id n"
  by (simp add: style_node_def fold_declarations_id)

lemma apply_stylesheet_node:
  "graph_node (apply_stylesheet g ss) k =
     map_option (\<lambda>n. style_node (hm_get (pg_authored g) (pn_id n)) ss n) (graph_node g k)"
proof -
  have "map_of (map (\<lambda>(k, n). (k, f n)) kvs) k = map_option f (map_of kvs k)"
    for f :: "pipeline_node \<Rightarrow> pipeline_node" and kvs
    by (induction kvs) auto
  then show ?thesis by (simp add: apply_stylesheet_def graph_node_def hm_get_def)
qed

text \<open>
  Property C39. Applying a stylesheet implements the cascade, for every node and every stylesheet:
  the model and the provider become the value of the most specific, then latest matching
  declaration; a node whose author wrote the attribute keeps its own; without a matching
  declaration (lower-precedence DOT defaults included) the old value stays.
\<close>

theorem stylesheet_cascade:
  "pn_llm_model (style_node authored ss n) =
     (if authored_has authored ''llm_model'' then pn_llm_model n
      else or_else (cascade ''llm_model'' n ss) (pn_llm_model n))
   \<and> pn_llm_provider (style_node authored ss n) =
     (if authored_has authored ''llm_provider'' then pn_llm_provider n
      else or_else (cascade ''llm_provider'' n ss) (pn_llm_provider n))
   \<and> graph_node (apply_stylesheet g ss) k =
       map_option (\<lambda>n. style_node (hm_get (pg_authored g) (pn_id n)) ss n) (graph_node g k)"
  by (auto simp: style_node_def fold_declarations_model fold_declarations_provider
      cascade_matching last_value_def apply_stylesheet_node split: list.splits)

definition effort_example :: pipeline_graph where
  "effort_example = from_dot (digraph_of ''g'' [NodeStmt ''a'' [(''reasoning_effort'', AString ''high'')]])"

text \<open>
  Authored attributes are not protected in one case: the author's \<open>reasoning_effort\<close>
  is overwritten by a universal rule, though \<open>apply_stylesheet\<close> is documented never to
  overwrite explicitly authored attributes.
\<close>

theorem authored_effort_overwritten:
  "map_option (\<lambda>n. hm_get (pn_raw n) ''reasoning_effort'') (graph_node effort_example ''a'')
     = Some (Some (AString ''high''))
   \<and> authored_has (hm_get (pg_authored effort_example) ''a'') ''reasoning_effort''
   \<and> map_option (\<lambda>n. hm_get (pn_raw n) ''reasoning_effort'')
       (graph_node (apply_stylesheet effort_example
          [\<lparr>cr_selector = Universal,
            cr_declarations = [\<lparr>dc_property = ''reasoning_effort'', dc_value = ''low''\<rparr>]\<rparr>]) ''a'')
     = Some (Some (AString ''low''))"
  by code_simp

end
