(* ===== verification/Transforms.thy ===== *)
theory Transforms
  imports Stylesheet
begin

text \<open>
  Graph transforms (\<open>crates/attractor-pipeline/src/transforms.rs\<close>): the model stylesheet of the
  graph is applied, then \<open>${variable}\<close> references in the prompts are replaced by the graph's
  attributes. \<open>fmt\<close> is the standard library's \<open>Display\<close> of an \<open>f64\<close>.
\<close>

section \<open>Variables\<close>

definition var_pattern :: "str \<Rightarrow> str" where
  "var_pattern k = ''${'' @ k @ ''}''"

text \<open>The replacements are done one variable after the other, in the map's iteration order.\<close>

definition expand_variables :: "str \<Rightarrow> str hmap \<Rightarrow> str" where
  "expand_variables template vars =
     fold (\<lambda>(k, v) r. replace_str (var_pattern k) v r) vars template"

fun var_value :: "(f64 \<Rightarrow> str) \<Rightarrow> attribute_value \<Rightarrow> str option" where
  "var_value fmt (AString s) = Some s"
| "var_value fmt (AInteger i) = Some (show_int i)"
| "var_value fmt (ABoolean b) = Some (if b then ''true'' else ''false'')"
| "var_value fmt (AFloat x) = Some (fmt x)"
| "var_value fmt (ADuration d) = None"

fun graph_vars :: "(f64 \<Rightarrow> str) \<Rightarrow> attrs \<Rightarrow> str hmap" where
  "graph_vars fmt [] = []"
| "graph_vars fmt ((k, v) # r) =
     (case var_value fmt v of Some s \<Rightarrow> (k, s) # graph_vars fmt r | None \<Rightarrow> graph_vars fmt r)"

definition expand_node :: "str hmap \<Rightarrow> pipeline_node \<Rightarrow> pipeline_node" where
  "expand_node vars n =
     (case pn_prompt n of
        None \<Rightarrow> n
      | Some p \<Rightarrow>
          let e = expand_variables p vars in if e \<noteq> p then n\<lparr>pn_prompt := Some e\<rparr> else n)"

definition expand_prompt_variables :: "(f64 \<Rightarrow> str) \<Rightarrow> pipeline_graph \<Rightarrow> pipeline_graph" where
  "expand_prompt_variables fmt g =
     (let vars = graph_vars fmt (pg_attrs g)
      in g\<lparr>pg_nodes := map (\<lambda>(k, n). (k, expand_node vars n)) (pg_nodes g)\<rparr>)"

section \<open>The whole pass\<close>

definition apply_model_stylesheet :: "pipeline_graph \<Rightarrow> pipeline_graph css" where
  "apply_model_stylesheet g =
     (case hm_get (pg_attrs g) ''model_stylesheet'' of
        Some (AString css) \<Rightarrow> rbind (parse_stylesheet css) (\<lambda>ss. Inr (apply_stylesheet g ss))
      | _ \<Rightarrow> Inr g)"

definition apply_transforms :: "(f64 \<Rightarrow> str) \<Rightarrow> pipeline_graph \<Rightarrow> pipeline_graph css" where
  "apply_transforms fmt g =
     rbind (apply_model_stylesheet g) (\<lambda>g. Inr (expand_prompt_variables fmt g))"

section \<open>Properties\<close>

lemma expand_variables_id:
  "\<forall>(k, v) \<in> set vars. \<not> contains_str (var_pattern k) t \<Longrightarrow> expand_variables t vars = t"
  by (induction vars) (auto simp: expand_variables_def replace_absent)

lemma graph_vars_keys: "set (map fst (graph_vars fmt a)) \<subseteq> set (map fst a)"
  by (induction a rule: graph_vars.induct) (auto split: option.splits)

lemma hm_get_map_values:
  "hm_get (map (\<lambda>(k, v). (k, f v)) m) k = map_option f (hm_get m k)"
  by (induction m) auto

lemma expand_node_eq:
  "expand_node vars n = n\<lparr>pn_prompt := map_option (\<lambda>p. expand_variables p vars) (pn_prompt n)\<rparr>"
  by (cases "pn_prompt n"; cases n) (auto simp: expand_node_def Let_def)

lemma expand_prompt_variables_node:
  "graph_node (expand_prompt_variables fmt g) k =
     map_option (expand_node (graph_vars fmt (pg_attrs g))) (graph_node g k)"
  by (simp add: expand_prompt_variables_def graph_node_def Let_def hm_get_map_values)

lemma fold_declarations_frame:
  "pn_shape (fold (apply_declaration hm hp) ds n) = pn_shape n
   \<and> pn_type (fold (apply_declaration hm hp) ds n) = pn_type n
   \<and> pn_goal_gate (fold (apply_declaration hm hp) ds n) = pn_goal_gate n
   \<and> pn_retry_target (fold (apply_declaration hm hp) ds n) = pn_retry_target n
   \<and> pn_fallback_retry_target (fold (apply_declaration hm hp) ds n) = pn_fallback_retry_target n
   \<and> pn_prompt (fold (apply_declaration hm hp) ds n) = pn_prompt n"
  by (induction ds arbitrary: n) (auto simp: apply_declaration_def)

lemma apply_model_stylesheet_cases:
  "apply_model_stylesheet g = Inr g' \<Longrightarrow> g' = g \<or> (\<exists>ss. g' = apply_stylesheet g ss)"
  by (auto simp: apply_model_stylesheet_def split: option.splits attribute_value.splits)

lemma apply_stylesheet_frame:
  "pg_edges (apply_stylesheet g ss) = pg_edges g \<and> pg_adjacency (apply_stylesheet g ss) = pg_adjacency g
   \<and> pg_attrs (apply_stylesheet g ss) = pg_attrs g"
  by (simp add: apply_stylesheet_def)

text \<open>The fields of a node that steer the execution.\<close>

definition same_control :: "pipeline_node \<Rightarrow> pipeline_node \<Rightarrow> bool" where
  "same_control m n \<longleftrightarrow> pn_id m = pn_id n \<and> pn_shape m = pn_shape n \<and> pn_type m = pn_type n
     \<and> pn_goal_gate m = pn_goal_gate n \<and> pn_retry_target m = pn_retry_target n
     \<and> pn_fallback_retry_target m = pn_fallback_retry_target n"

text \<open>
  The transforms leave the control structure alone: after a successful pass every
  node keeps its identity, shape, type, goal gate and retry targets, its prompt is the
  expansion of the old one, and the edges out of it are the same.
\<close>

theorem transforms_frame:
  assumes "apply_transforms fmt g = Inr g'" and "graph_node g k = Some n"
  shows "\<exists>n'. graph_node g' k = Some n' \<and> same_control n' n
    \<and> pn_prompt n' = map_option (\<lambda>p. expand_variables p (graph_vars fmt (pg_attrs g))) (pn_prompt n)
    \<and> outgoing_edges g' k = outgoing_edges g k"
proof -
  obtain h where h: "apply_model_stylesheet g = Inr h" "g' = expand_prompt_variables fmt h"
    using assms(1) by (auto simp: apply_transforms_def)
  have frame: "pg_edges h = pg_edges g" "pg_adjacency h = pg_adjacency g" "pg_attrs h = pg_attrs g"
    using apply_model_stylesheet_cases [OF h(1)] apply_stylesheet_frame by auto
  obtain m where m: "graph_node h k = Some m" "same_control m n" "pn_prompt m = pn_prompt n"
    using apply_model_stylesheet_cases [OF h(1)] assms(2)
    by (auto simp: apply_stylesheet_node same_control_def style_node_def fold_declarations_frame
        fold_declarations_id)
  have "outgoing_edges g' k = outgoing_edges g k"
    using h(2) frame
    by (simp add: outgoing_edges_def expand_prompt_variables_def Let_def split: option.splits)
  with m frame h(2) show ?thesis
    by (auto simp: expand_prompt_variables_node expand_node_eq same_control_def)
qed

definition transform_example :: pipeline_graph where
  "transform_example = from_dot (digraph_of ''g''
     [GraphAttrs [(''model_stylesheet'', AString ''* { llm_model: m; }''), (''goal'', AString ''ship'')],
      NodeStmt ''a'' [(''prompt'', AString ''do ${goal}'')]])"

theorem transforms_frame_witness:
  "\<exists>n'. graph_node (expand_prompt_variables (\<lambda>_. []) (apply_stylesheet transform_example
           [\<lparr>cr_selector = Universal,
             cr_declarations = [\<lparr>dc_property = ''llm_model'', dc_value = ''m''\<rparr>]\<rparr>])) ''a'' = Some n'
     \<and> same_control n' (the (graph_node transform_example ''a''))
     \<and> pn_prompt n' = map_option (\<lambda>p. expand_variables p (graph_vars (\<lambda>_. []) (pg_attrs transform_example)))
         (pn_prompt (the (graph_node transform_example ''a'')))
     \<and> outgoing_edges (expand_prompt_variables (\<lambda>_. []) (apply_stylesheet transform_example
           [\<lparr>cr_selector = Universal,
             cr_declarations = [\<lparr>dc_property = ''llm_model'', dc_value = ''m''\<rparr>]\<rparr>])) ''a''
       = outgoing_edges transform_example ''a''"
proof (rule transforms_frame)
  show "apply_transforms (\<lambda>_. []) transform_example =
    Inr (expand_prompt_variables (\<lambda>_. []) (apply_stylesheet transform_example
           [\<lparr>cr_selector = Universal,
             cr_declarations = [\<lparr>dc_property = ''llm_model'', dc_value = ''m''\<rparr>]\<rparr>]))"
    by code_simp
  show "graph_node transform_example ''a'' = Some (the (graph_node transform_example ''a''))"
    by code_simp
qed

text \<open>
  The expansion of a prompt is not a function of the graph: when a variable's value
  names another variable, the result depends on the iteration order of the hash map.
\<close>

theorem expansion_order_dependent:
  "hm_get [(''a'', ''${b}''), (''b'', ''1'')] = hm_get [(''b'', ''1''), (''a'', ''${b}'')]
   \<and> expand_variables ''${a}'' [(''a'', ''${b}''), (''b'', ''1'')] = ''1''
   \<and> expand_variables ''${a}'' [(''b'', ''1''), (''a'', ''${b}'')] = ''${b}''"
proof (intro conjI)
  show "hm_get [(''a'', ''${b}''), (''b'', ''1'')] = hm_get [(''b'', ''1''), (''a'', ''${b}'')]"
    by (auto simp: fun_eq_iff)
  show "expand_variables ''${a}'' [(''a'', ''${b}''), (''b'', ''1'')] = ''1''" by code_simp
  show "expand_variables ''${a}'' [(''b'', ''1''), (''a'', ''${b}'')] = ''${b}''" by code_simp
qed

end
