(* ===== verification/Plan_Resolve.thy ===== *)
theory Plan_Resolve
  imports Transforms "HOL-Library.Option_ord" "HOL-Library.Product_Lexorder"
begin

text \<open>
  Resolution of one node (\<open>crates/attractor-pipeline/src/execution_plan.rs\<close>): from its id,
  shape, type and aliases to a role, a handler, a provider and an invocation policy.
  \<open>fmt\<close> is the \<open>Display\<close> of an \<open>f64\<close>, used in messages only; \<open>usize\<close> has 64 bits.
\<close>

section \<open>Providers, handlers and kinds\<close>

datatype llm_provider = Claude | Codex | Gemini | Pi

definition provider_parse :: "str \<Rightarrow> llm_provider option" where
  "provider_parse v =
     (let s = lowercase (trim v)
      in if s = ''claude'' \<or> s = ''anthropic'' then Some Claude
         else if s = ''codex'' \<or> s = ''openai'' then Some Codex
         else if s = ''gemini'' \<or> s = ''google'' then Some Gemini
         else if s = ''pi'' then Some Pi
         else None)"

fun provider_as_str :: "llm_provider \<Rightarrow> str" where
  "provider_as_str Claude = ''claude''"
| "provider_as_str Codex = ''codex''"
| "provider_as_str Gemini = ''gemini''"
| "provider_as_str Pi = ''pi''"

fun provider_display_name :: "llm_provider \<Rightarrow> str" where
  "provider_display_name Claude = ''Claude Code''"
| "provider_display_name Codex = ''Codex CLI''"
| "provider_display_name Gemini = ''Gemini CLI''"
| "provider_display_name Pi = ''pi''"

datatype handler_identity =
    HStart | HExit | HCodergen | HConditional | HWaitHuman | HTool | HParallel | HFanIn
  | HManagerLoop | HQuality | HCustom str

fun handler_as_str :: "handler_identity \<Rightarrow> str" where
  "handler_as_str HStart = ''start''"
| "handler_as_str HExit = ''exit''"
| "handler_as_str HCodergen = ''codergen''"
| "handler_as_str HConditional = ''conditional''"
| "handler_as_str HWaitHuman = ''wait.human''"
| "handler_as_str HTool = ''tool''"
| "handler_as_str HParallel = ''parallel''"
| "handler_as_str HFanIn = ''parallel.fan_in''"
| "handler_as_str HManagerLoop = ''stack.manager_loop''"
| "handler_as_str HQuality = ''quality''"
| "handler_as_str (HCustom n) = n"

datatype node_kind =
    KStart | KExit | KTask | KConditional bool | KHumanGate | KTool | KParallel | KFanIn
  | KManagerLoop | KQuality | KCustom

record invocation_policy =
  max_attempts :: nat
  ip_timeout :: "nat option"

record resolved_node =
  rn_id :: str
  rn_kind :: node_kind
  rn_handler :: handler_identity
  rn_provider :: "llm_provider option"
  rn_invocation :: invocation_policy

datatype missing_provider_policy = Reject | Insert llm_provider

section \<open>Diagnostics\<close>

datatype diagnostic_kind =
    InvalidAttributeType | InvalidAttributeValue | ConflictingRoleSignals
  | ConflictingAttributeAliases | UnknownShape | UnknownHandler | HandlerCapabilityMismatch
  | MissingProvider | MissingAttribute | UnknownProvider | UnsupportedExecutionTopology
  | UnsupportedExecutionCapability | MultipleStarts | MissingStart | MultipleExits | MissingExit
  | TransformError

text \<open>The derived \<open>Ord\<close>: the order of declaration.\<close>

fun kind_index :: "diagnostic_kind \<Rightarrow> nat" where
  "kind_index InvalidAttributeType = 0"
| "kind_index InvalidAttributeValue = 1"
| "kind_index ConflictingRoleSignals = 2"
| "kind_index ConflictingAttributeAliases = 3"
| "kind_index UnknownShape = 4"
| "kind_index UnknownHandler = 5"
| "kind_index HandlerCapabilityMismatch = 6"
| "kind_index MissingProvider = 7"
| "kind_index MissingAttribute = 8"
| "kind_index UnknownProvider = 9"
| "kind_index UnsupportedExecutionTopology = 10"
| "kind_index UnsupportedExecutionCapability = 11"
| "kind_index MultipleStarts = 12"
| "kind_index MissingStart = 13"
| "kind_index MultipleExits = 14"
| "kind_index MissingExit = 15"
| "kind_index TransformError = 16"

lemma kind_index_inject: "kind_index a = kind_index b \<longleftrightarrow> a = b"
  by (cases a; cases b) auto

instantiation diagnostic_kind :: linorder
begin

definition less_eq_diagnostic_kind :: "diagnostic_kind \<Rightarrow> diagnostic_kind \<Rightarrow> bool" where
  "less_eq_diagnostic_kind a b \<longleftrightarrow> kind_index a \<le> kind_index b"

definition less_diagnostic_kind :: "diagnostic_kind \<Rightarrow> diagnostic_kind \<Rightarrow> bool" where
  "less_diagnostic_kind a b \<longleftrightarrow> kind_index a < kind_index b"

instance
  by intro_classes
     (auto simp: less_eq_diagnostic_kind_def less_diagnostic_kind_def kind_index_inject
       intro: kind_index_inject [THEN iffD1])

end

record diagnostic =
  sd_kind :: diagnostic_kind
  sd_node :: "str option"
  sd_message :: str
  sd_fix :: str

text \<open>A failed compilation, or a panic of the code below it.\<close>

datatype plan_failure = Rejected "diagnostic list" | PlanPanic

type_synonym 'a plan_result = "plan_failure + 'a"

definition semantic_error_display :: "diagnostic list \<Rightarrow> str" where
  "semantic_error_display ds =
     ''pipeline semantic compilation failed: '' @ join ''; '' (map sd_message ds)"

text \<open>\<open>Debug\<close> of a \<open>Duration\<close> of whole milliseconds.\<close>

definition trim_zeros :: "str \<Rightarrow> str" where
  "trim_zeros s = rev (dropWhile (\<lambda>c. c = CHR ''0'') (rev s))"

definition pad3 :: "nat \<Rightarrow> str" where
  "pad3 n = replicate (3 - length (show_nat n)) (CHR ''0'') @ show_nat n"

definition duration_debug :: "nat \<Rightarrow> str" where
  "duration_debug ms =
     (if 1000 \<le> ms
      then show_nat (ms div 1000)
           @ (if ms mod 1000 = 0 then [] else ''.'' @ trim_zeros (pad3 (ms mod 1000))) @ ''s''
      else if 0 < ms then show_nat ms @ ''ms''
      else ''0ns'')"

fun attribute_type_and_value :: "(f64 \<Rightarrow> str) \<Rightarrow> attribute_value \<Rightarrow> str \<times> str" where
  "attribute_type_and_value fmt (AString s) = (''string'', s)"
| "attribute_type_and_value fmt (AInteger i) = (''integer'', show_int i)"
| "attribute_type_and_value fmt (AFloat x) = (''float'', fmt x)"
| "attribute_type_and_value fmt (ABoolean b) = (''boolean'', if b then ''true'' else ''false'')"
| "attribute_type_and_value fmt (ADuration d) = (''duration'', duration_debug d)"

definition invalid_attribute_type ::
  "(f64 \<Rightarrow> str) \<Rightarrow> str option \<Rightarrow> str \<Rightarrow> attribute_value \<Rightarrow> diagnostic" where
  "invalid_attribute_type fmt node k v =
     (let (ty, authored) = attribute_type_and_value fmt v;
          subject = (case node of Some i \<Rightarrow> ''Node '' @ sq i | None \<Rightarrow> ''Graph'')
      in \<lparr>sd_kind = InvalidAttributeType, sd_node = node,
          sd_message = subject @ '' semantic attribute '' @ sq k @ '' must be a string, found ''
            @ ty @ '' value '' @ authored,
          sd_fix = ''Quote the '' @ sq k @ '' value, for example '' @ k @ ''='' @ dq authored\<rparr>)"

fun is_string :: "attribute_value \<Rightarrow> bool" where
  "is_string (AString _) = True"
| "is_string _ = False"

section \<open>Aliases\<close>

definition string_attr :: "attrs \<Rightarrow> str \<Rightarrow> str option" where
  "string_attr a k = (case hm_get a k of Some (AString s) \<Rightarrow> Some s | _ \<Rightarrow> None)"

definition alias_values :: "pipeline_node \<Rightarrow> str list \<Rightarrow> (str \<times> str) list" where
  "alias_values n ks =
     List.map_filter (\<lambda>k. map_option (\<lambda>v. (k, v)) (string_attr (pn_raw n) k)) ks"

definition resolve_node_alias :: "pipeline_node \<Rightarrow> str list \<Rightarrow> str option \<times> diagnostic list" where
  "resolve_node_alias n ks =
     (let vs = alias_values n ks
      in if 1 < length (remdups (map snd vs))
         then (None, [\<lparr>sd_kind = ConflictingAttributeAliases, sd_node = Some (pn_id n),
                sd_message = ''Node '' @ sq (pn_id n) @ '' has conflicting aliases: ''
                  @ join '', '' (map (\<lambda>(k, v). k @ ''='' @ v) vs),
                sd_fix = ''Use only '' @ sq (hd ks) @ '', or give all aliases the same value''\<rparr>])
         else (map_option snd (case vs of [] \<Rightarrow> None | v # _ \<Rightarrow> Some v), []))"

definition normalize_node :: "pipeline_node \<Rightarrow> pipeline_node \<times> diagnostic list" where
  "normalize_node n =
     (let (ty, d1) = resolve_node_alias n [''type'', ''node_type'', ''handler''];
          n1 = (case ty of Some v \<Rightarrow> n\<lparr>pn_type := Some v\<rparr> | None \<Rightarrow> n);
          (cl, d2) = resolve_node_alias n1 [''class'', ''classes''];
          n2 = (case cl of Some v \<Rightarrow> n1\<lparr>pn_classes := split_whitespace v\<rparr> | None \<Rightarrow> n1)
      in (n2, d1 @ d2))"

definition normalize_graph_alias :: "pipeline_graph \<Rightarrow> str \<Rightarrow> str \<Rightarrow> pipeline_graph \<times> diagnostic list" where
  "normalize_graph_alias g canonical alias =
     (case (string_attr (pg_attrs g) canonical, string_attr (pg_attrs g) alias) of
        (Some l, Some r) \<Rightarrow>
          (g, if l \<noteq> r
              then [\<lparr>sd_kind = ConflictingAttributeAliases, sd_node = None,
                     sd_message = ''Graph attributes '' @ sq canonical @ '' and '' @ sq alias @ '' disagree'',
                     sd_fix = ''Use only '' @ sq canonical @ '', or give both attributes the same value''\<rparr>]
              else [])
      | (None, Some v) \<Rightarrow> (g\<lparr>pg_attrs := hm_insert canonical (AString v) (pg_attrs g)\<rparr>, [])
      | _ \<Rightarrow> (g, []))"

definition normalize_aliases :: "pipeline_graph \<Rightarrow> pipeline_graph \<times> diagnostic list" where
  "normalize_aliases g =
     (let (g1, d) = normalize_graph_alias g ''model_stylesheet'' ''stylesheet''
      in (g1\<lparr>pg_nodes := map (\<lambda>(k, n). (k, fst (normalize_node n))) (pg_nodes g1)\<rparr>,
          d @ concat (map (\<lambda>(k, n). snd (normalize_node n)) (pg_nodes g1))))"

section \<open>Roles\<close>

datatype role =
    RStart | RExit | RTask | RConditional | RHumanGate | RTool | RParallel | RFanIn
  | RManagerLoop | RQuality | RCustom

fun role_debug :: "role \<Rightarrow> str" where
  "role_debug RStart = ''Start''"
| "role_debug RExit = ''Exit''"
| "role_debug RTask = ''Task''"
| "role_debug RConditional = ''Conditional''"
| "role_debug RHumanGate = ''HumanGate''"
| "role_debug RTool = ''Tool''"
| "role_debug RParallel = ''Parallel''"
| "role_debug RFanIn = ''FanIn''"
| "role_debug RManagerLoop = ''ManagerLoop''"
| "role_debug RQuality = ''Quality''"
| "role_debug RCustom = ''Custom''"

definition magic_role :: "str \<Rightarrow> role option" where
  "magic_role i =
     (if eq_ignore_case i ''start'' then Some RStart
      else if list_ex (eq_ignore_case i) [''exit'', ''end'', ''done''] then Some RExit
      else None)"

definition shape_role :: "str \<Rightarrow> role option" where
  "shape_role s =
     map_of [(''Mdiamond'', RStart), (''Msquare'', RExit), (''box'', RTask),
             (''diamond'', RConditional), (''hexagon'', RHumanGate), (''parallelogram'', RTool),
             (''component'', RParallel), (''tripleoctagon'', RFanIn), (''house'', RManagerLoop)] s"

definition type_role :: "str \<Rightarrow> role option" where
  "type_role s =
     map_of [(''start'', RStart), (''exit'', RExit), (''codergen'', RTask),
             (''conditional'', RConditional), (''wait.human'', RHumanGate), (''tool'', RTool),
             (''parallel'', RParallel), (''fan_in'', RFanIn), (''parallel.fan_in'', RFanIn),
             (''manager'', RManagerLoop), (''stack.manager_loop'', RManagerLoop),
             (''quality'', RQuality)] s"

definition select_handler :: str where "select_handler = ''beads.select''"
definition close_handler :: str where "close_handler = ''beads.close''"

definition custom_handler_shape_role :: "str \<Rightarrow> role option" where
  "custom_handler_shape_role h =
     (if h = select_handler then Some RConditional
      else if h = close_handler then Some RTask
      else None)"

definition roles_compatible :: "role \<Rightarrow> role \<Rightarrow> bool" where
  "roles_compatible l r \<longleftrightarrow> l = r \<or> (l = RTask \<and> r = RQuality) \<or> (l = RQuality \<and> r = RTask)"

definition signals_compatible :: "role \<Rightarrow> role \<Rightarrow> str option \<Rightarrow> bool" where
  "signals_compatible shape ty name \<longleftrightarrow>
     roles_compatible shape ty \<or> (shape = RConditional \<and> ty = RTask \<and> name = Some ''codergen'')"

definition role_conflict :: "pipeline_node \<Rightarrow> role \<Rightarrow> role \<Rightarrow> diagnostic" where
  "role_conflict n l r =
     \<lparr>sd_kind = ConflictingRoleSignals, sd_node = Some (pn_id n),
      sd_message = ''Node '' @ sq (pn_id n) @ '' has conflicting role signals ('' @ role_debug l
        @ '' versus '' @ role_debug r @ '')'',
      sd_fix = ''Make id, shape, and type identify the same node role''\<rparr>"

section \<open>Invocation policy\<close>

definition usize_max :: int where "usize_max = 2 ^ 64 - 1"

definition invalid_retry_budget :: "pipeline_node \<Rightarrow> int \<Rightarrow> str \<Rightarrow> diagnostic" where
  "invalid_retry_budget n v reason =
     \<lparr>sd_kind = InvalidAttributeValue, sd_node = Some (pn_id n),
      sd_message = ''Node '' @ sq (pn_id n) @ '' execution attribute '' @ sq ''max_retries''
        @ '' '' @ reason @ '', found '' @ show_int v,
      sd_fix = ''Use a non-negative integer retry count small enough for this platform''\<rparr>"

definition retries_of :: "(f64 \<Rightarrow> str) \<Rightarrow> pipeline_node \<Rightarrow> nat plan_result" where
  "retries_of fmt n =
     (case hm_get (pn_raw n) ''max_retries'' of
        None \<Rightarrow> Inr 0
      | Some (AInteger v) \<Rightarrow>
          if 0 \<le> v
          then (if v \<le> usize_max then Inr (nat v)
                else Inl (Rejected [invalid_retry_budget n v ''does not fit this platform'']))
          else Inl (Rejected [invalid_retry_budget n v ''must be non-negative''])
      | Some v \<Rightarrow> Inl (Rejected [invalid_attribute_type fmt (Some (pn_id n)) ''max_retries'' v]))"

definition timeout_of :: "(f64 \<Rightarrow> str) \<Rightarrow> build_profile \<Rightarrow> pipeline_node \<Rightarrow> nat option plan_result" where
  "timeout_of fmt b n =
     (case hm_get (pn_raw n) ''timeout'' of
        None \<Rightarrow> Inr None
      | Some (ADuration d) \<Rightarrow> Inr (Some d)
      | Some (AString s) \<Rightarrow>
          (case parse_duration_str b s of
             Parsed d \<Rightarrow> Inr (Some d)
           | Overflow_Panic \<Rightarrow> Inl PlanPanic
           | Invalid \<Rightarrow> Inl (Rejected
               [\<lparr>sd_kind = InvalidAttributeValue, sd_node = Some (pn_id n),
                 sd_message = ''Node '' @ sq (pn_id n) @ '' execution attribute '' @ sq ''timeout''
                   @ '' must be a valid duration, found '' @ sq s,
                 sd_fix = ''Use a duration such as timeout=120s or timeout=5m''\<rparr>]))
      | Some v \<Rightarrow> Inl (Rejected [invalid_attribute_type fmt (Some (pn_id n)) ''timeout'' v]))"

definition resolve_invocation_policy ::
  "(f64 \<Rightarrow> str) \<Rightarrow> build_profile \<Rightarrow> pipeline_node \<Rightarrow> invocation_policy plan_result" where
  "resolve_invocation_policy fmt b n =
     rbind (retries_of fmt n) (\<lambda>r.
     rbind (if int r + 1 \<le> usize_max then Inr (r + 1)
            else Inl (Rejected [invalid_retry_budget n i64_max ''is too large''])) (\<lambda>m.
     rbind (timeout_of fmt b n) (\<lambda>t.
       Inr \<lparr>max_attempts = m, ip_timeout = t\<rparr>)))"

section \<open>Resolution of a node\<close>

type_synonym catalog = "bool hmap"

definition explicit_semantics :: "pipeline_node \<Rightarrow> bool" where
  "explicit_semantics n \<longleftrightarrow>
     list_ex (hm_contains (pn_raw n)) [''shape'', ''type'', ''node_type'', ''handler'']"

definition configured_role :: "pipeline_node \<Rightarrow> role option" where
  "configured_role n = Option.bind (string_attr (pn_raw n) ''shape'') shape_role"

definition named_role :: "pipeline_node \<Rightarrow> role option" where
  "named_role n = Option.bind (pn_type n) type_role"

definition registered_custom :: "catalog \<Rightarrow> pipeline_node \<Rightarrow> bool" where
  "registered_custom cat n \<longleftrightarrow>
     (case pn_type n of None \<Rightarrow> False | Some t \<Rightarrow> named_role n = None \<and> hm_contains cat t)"

definition unknown_handler :: "catalog \<Rightarrow> pipeline_node \<Rightarrow> diagnostic list" where
  "unknown_handler cat n =
     (case pn_type n of
        None \<Rightarrow> []
      | Some t \<Rightarrow>
          if named_role n = None \<and> \<not> hm_contains cat t
          then [\<lparr>sd_kind = UnknownHandler, sd_node = Some (pn_id n),
                 sd_message = ''Node '' @ sq (pn_id n) @ '' names unknown handler '' @ sq t,
                 sd_fix = ''Use a built-in handler or register the custom handler before compiling''\<rparr>]
          else [])"

definition unknown_shape :: "catalog \<Rightarrow> pipeline_node \<Rightarrow> diagnostic list" where
  "unknown_shape cat n =
     (if string_attr (pn_raw n) ''shape'' \<noteq> None \<and> configured_role n = None
         \<and> \<not> (named_role n \<noteq> None \<or> registered_custom cat n)
      then [\<lparr>sd_kind = UnknownShape, sd_node = Some (pn_id n),
             sd_message = ''Node '' @ sq (pn_id n) @ '' has unknown shape '' @ sq (pn_shape n),
             sd_fix = ''Use a supported shape or name a registered handler with type=''\<rparr>]
      else [])"

definition signal_role :: "catalog \<Rightarrow> pipeline_node \<Rightarrow> role \<times> diagnostic list" where
  "signal_role cat n =
     (case named_role n of
        Some ty \<Rightarrow>
          (case configured_role n of
             Some sh \<Rightarrow>
               (if sh = RConditional \<and> pn_type n = Some ''codergen'' then sh else ty,
                if \<not> signals_compatible sh ty (pn_type n) then [role_conflict n sh ty] else [])
           | None \<Rightarrow> (ty, []))
      | None \<Rightarrow>
          if registered_custom cat n
          then (RCustom,
                case configured_role n of
                  Some sh \<Rightarrow>
                    if Option.bind (pn_type n) custom_handler_shape_role \<noteq> Some sh
                    then [role_conflict n sh RCustom] else []
                | None \<Rightarrow> [])
          else (case configured_role n of Some sh \<Rightarrow> sh | None \<Rightarrow> RTask, []))"

definition node_role :: "catalog \<Rightarrow> pipeline_node \<Rightarrow> role \<times> diagnostic list" where
  "node_role cat n =
     (let (signal, ds) = signal_role cat n
      in case magic_role (pn_id n) of
           Some m \<Rightarrow>
             if explicit_semantics n
             then (signal, ds @ (if \<not> roles_compatible m signal then [role_conflict n m signal] else []))
             else (m, ds)
         | None \<Rightarrow> (signal, ds))"

definition unknown_provider :: "pipeline_node \<Rightarrow> diagnostic list" where
  "unknown_provider n =
     (case pn_llm_provider n of
        None \<Rightarrow> []
      | Some p \<Rightarrow>
          if provider_parse p = None
          then [\<lparr>sd_kind = UnknownProvider, sd_node = Some (pn_id n),
                 sd_message = ''Node '' @ sq (pn_id n) @ '' has unknown llm_provider '' @ sq p,
                 sd_fix = ''Use claude/anthropic, codex/openai, gemini/google, or pi''\<rparr>]
          else [])"

fun kind_and_handler :: "role \<Rightarrow> pipeline_node \<Rightarrow> node_kind \<times> handler_identity" where
  "kind_and_handler RStart n = (KStart, HStart)"
| "kind_and_handler RExit n = (KExit, HExit)"
| "kind_and_handler RTask n = (KTask, HCodergen)"
| "kind_and_handler RConditional n =
     (if pn_prompt n \<noteq> None \<or> pn_type n = Some ''codergen''
      then (KConditional True, HCodergen) else (KConditional False, HConditional))"
| "kind_and_handler RHumanGate n = (KHumanGate, HWaitHuman)"
| "kind_and_handler RTool n = (KTool, HTool)"
| "kind_and_handler RParallel n = (KParallel, HParallel)"
| "kind_and_handler RFanIn n = (KFanIn, HFanIn)"
| "kind_and_handler RManagerLoop n = (KManagerLoop, HManagerLoop)"
| "kind_and_handler RQuality n = (KQuality, HQuality)"
| "kind_and_handler RCustom n = (KCustom, HCustom (case pn_type n of Some t \<Rightarrow> t | None \<Rightarrow> []))"

definition resolve_provider ::
  "missing_provider_policy \<Rightarrow> bool \<Rightarrow> handler_identity \<Rightarrow> pipeline_node
   \<Rightarrow> (llm_provider option \<times> bool) plan_result" where
  "resolve_provider policy consumes h n =
     (if consumes
      then (case Option.bind (pn_llm_provider n) provider_parse of
              Some p \<Rightarrow> Inr (Some p, False)
            | None \<Rightarrow>
                (case policy of
                   Reject \<Rightarrow> Inl (Rejected
                     [\<lparr>sd_kind = MissingProvider, sd_node = Some (pn_id n),
                       sd_message = ''Node '' @ sq (pn_id n) @ '' resolves to handler ''
                         @ sq (handler_as_str h) @ '' but has no llm_provider'',
                       sd_fix = ''Add llm_provider='' @ dq ''claude'' @ '', '' @ dq ''codex'' @ '', ''
                         @ dq ''gemini'' @ '', or '' @ dq ''pi''\<rparr>])
                 | Insert p \<Rightarrow> Inr (Some p, True)))
      else Inr (None, False))"

definition resolve_node ::
  "(f64 \<Rightarrow> str) \<Rightarrow> build_profile \<Rightarrow> catalog \<Rightarrow> missing_provider_policy \<Rightarrow> pipeline_node
   \<Rightarrow> (resolved_node \<times> bool) plan_result" where
  "resolve_node fmt b cat policy n =
     (let (role, conflicts) = node_role cat n;
          ds = unknown_handler cat n @ unknown_shape cat n @ conflicts @ unknown_provider n
      in if ds \<noteq> [] then Inl (Rejected ds)
         else rbind (resolve_invocation_policy fmt b n) (\<lambda>inv.
           let (kind, h) = kind_and_handler role n
           in case hm_get cat (handler_as_str h) of
                None \<Rightarrow> Inl (Rejected
                  [\<lparr>sd_kind = UnknownHandler, sd_node = Some (pn_id n),
                    sd_message = ''Node '' @ sq (pn_id n) @ '' resolves to unavailable handler ''
                      @ sq (handler_as_str h),
                    sd_fix = ''Register handler '' @ sq (handler_as_str h) @ '' before compiling''\<rparr>])
              | Some consumes \<Rightarrow>
                  rbind (resolve_provider policy consumes h n) (\<lambda>(p, defaulted).
                    Inr (\<lparr>rn_id = pn_id n, rn_kind = kind, rn_handler = h, rn_provider = p,
                          rn_invocation = inv\<rparr>, defaulted))))"

section \<open>Properties\<close>

lemma retries_of_Inr:
  "retries_of fmt n = Inr r \<Longrightarrow>
     hm_get (pn_raw n) ''max_retries'' = None \<and> r = 0
     \<or> (\<exists>v. hm_get (pn_raw n) ''max_retries'' = Some (AInteger v) \<and> 0 \<le> v \<and> r = nat v)"
  by (auto simp: retries_of_def split: option.splits attribute_value.splits if_splits)

lemma resolve_invocation_policy_Inr:
  "resolve_invocation_policy fmt b n = Inr ivp \<Longrightarrow>
     retries_of fmt n = Inr (max_attempts ivp - 1) \<and> 1 \<le> max_attempts ivp
     \<and> int (max_attempts ivp) \<le> usize_max \<and> timeout_of fmt b n = Inr (ip_timeout ivp)"
  by (auto simp: resolve_invocation_policy_def split: if_splits)

lemma resolve_provider_Inr:
  "resolve_provider policy consumes h n = Inr (p, d) \<Longrightarrow>
     (consumes \<longleftrightarrow> p \<noteq> None) \<and> (d \<longrightarrow> (\<exists>q. policy = Insert q \<and> p = Some q))
     \<and> (\<not> d \<and> p \<noteq> None \<longrightarrow> p = Option.bind (pn_llm_provider n) provider_parse)"
proof -
  assume a: "resolve_provider policy consumes h n = Inr (p, d)"
  define q where "q = Option.bind (pn_llm_provider n) provider_parse"
  show ?thesis using a
    by (cases q; cases policy) (auto simp: resolve_provider_def q_def [symmetric] split: if_splits)
qed

lemma resolve_node_Inr:
  assumes "resolve_node fmt b cat policy n = Inr (r, d)"
  obtains role ivp consumes where "node_role cat n = (role, [])"
    "unknown_handler cat n = []" "unknown_shape cat n = []" "unknown_provider n = []"
    "resolve_invocation_policy fmt b n = Inr ivp"
    "hm_get cat (handler_as_str (rn_handler r)) = Some consumes"
    "resolve_provider policy consumes (rn_handler r) n = Inr (rn_provider r, d)"
    "kind_and_handler role n = (rn_kind r, rn_handler r)" "rn_id r = pn_id n" "rn_invocation r = ivp"
proof -
  obtain role ds kind h where c: "node_role cat n = (role, ds)" "kind_and_handler role n = (kind, h)"
    by (metis surj_pair)
  with assms have none: "unknown_handler cat n = []" "unknown_shape cat n = []" "ds = []"
    "unknown_provider n = []"
    by (auto simp: resolve_node_def Let_def split: if_splits)
  with c assms obtain ivp consumes p where "resolve_invocation_policy fmt b n = Inr ivp"
    "hm_get cat (handler_as_str h) = Some consumes"
    "resolve_provider policy consumes h n = Inr (p, d)"
    "r = \<lparr>rn_id = pn_id n, rn_kind = kind, rn_handler = h, rn_provider = p, rn_invocation = ivp\<rparr>"
    by (auto simp: resolve_node_def Let_def split: option.splits)
  with c none show thesis by (intro that) auto
qed

text \<open>
  A resolved node is ready to run: it keeps its id, its handler is in the catalog,
  it has a provider exactly when the handler consumes one, a provider that was not authored
  is the policy's default, and it may be attempted once more than its \<open>max_retries\<close> (once
  when there is none), a number that fits a \<open>usize\<close>.
\<close>

theorem resolve_node_ready:
  assumes "resolve_node fmt b cat policy n = Inr (r, d)"
  shows "rn_id r = pn_id n
    \<and> hm_get cat (handler_as_str (rn_handler r)) = Some (rn_provider r \<noteq> None)
    \<and> (if d then \<exists>p. policy = Insert p \<and> rn_provider r = Some p
       else rn_provider r = None \<or> rn_provider r = Option.bind (pn_llm_provider n) provider_parse)
    \<and> int (max_attempts (rn_invocation r)) =
        (case hm_get (pn_raw n) ''max_retries'' of Some (AInteger v) \<Rightarrow> v + 1 | _ \<Rightarrow> 1)
    \<and> int (max_attempts (rn_invocation r)) \<in> {1..usize_max}"
proof -
  from assms obtain role ivp consumes where r:
    "resolve_invocation_policy fmt b n = Inr ivp"
    "hm_get cat (handler_as_str (rn_handler r)) = Some consumes"
    "resolve_provider policy consumes (rn_handler r) n = Inr (rn_provider r, d)"
    "rn_id r = pn_id n" "rn_invocation r = ivp"
    by (rule resolve_node_Inr) blast
  note i = resolve_invocation_policy_Inr [OF r(1)]
  have "int (max_attempts ivp) =
        (case hm_get (pn_raw n) ''max_retries'' of Some (AInteger v) \<Rightarrow> v + 1 | _ \<Rightarrow> 1)"
    using i retries_of_Inr [of fmt n "max_attempts ivp - 1"] by auto
  with i r resolve_provider_Inr [OF r(3)] show ?thesis by auto
qed

definition builtin_handler_catalog :: catalog where
  "builtin_handler_catalog =
     [(''start'', False), (''exit'', False), (''codergen'', True), (''conditional'', False),
      (''wait.human'', False), (''tool'', False), (''parallel'', False), (''parallel.fan_in'', False),
      (''stack.manager_loop'', False), (''quality'', False), (select_handler, False),
      (close_handler, False)]"

definition task_example :: pipeline_node where
  "task_example =
     \<lparr>pn_id = ''a'', pn_label = ''a'', pn_shape = ''box'', pn_type = None, pn_prompt = None,
      pn_goal_gate = False, pn_retry_target = None, pn_fallback_retry_target = None, pn_classes = [],
      pn_timeout = None, pn_llm_model = None, pn_llm_provider = Some ''Anthropic '',
      pn_raw = [(''shape'', AString ''box''), (''max_retries'', AInteger 2)]\<rparr>"

definition task_resolved :: resolved_node where
  "task_resolved =
     \<lparr>rn_id = ''a'', rn_kind = KTask, rn_handler = HCodergen, rn_provider = Some Claude,
      rn_invocation = \<lparr>max_attempts = 3, ip_timeout = None\<rparr>\<rparr>"

lemma task_example_resolves:
  "resolve_node (\<lambda>_. []) Release builtin_handler_catalog Reject task_example = Inr (task_resolved, False)"
  by code_simp

theorem resolve_node_ready_witness:
  "rn_id task_resolved = pn_id task_example
    \<and> hm_get builtin_handler_catalog (handler_as_str (rn_handler task_resolved))
        = Some (rn_provider task_resolved \<noteq> None)
    \<and> (if False then \<exists>p. Reject = Insert p \<and> rn_provider task_resolved = Some p
       else rn_provider task_resolved = None
         \<or> rn_provider task_resolved = Option.bind (pn_llm_provider task_example) provider_parse)
    \<and> int (max_attempts (rn_invocation task_resolved)) =
        (case hm_get (pn_raw task_example) ''max_retries'' of Some (AInteger v) \<Rightarrow> v + 1 | _ \<Rightarrow> 1)
    \<and> int (max_attempts (rn_invocation task_resolved)) \<in> {1..usize_max}"
  by (rule resolve_node_ready [OF task_example_resolves])

text \<open>The shapes that name one role only.\<close>

definition decisive :: "role \<Rightarrow> bool" where
  "decisive r \<longleftrightarrow> r \<in> {RStart, RExit, RHumanGate, RTool, RParallel, RFanIn, RManagerLoop}"

lemma signal_role_decisive:
  assumes "signal_role cat n = (role, [])" "configured_role n = Some sh" "decisive sh"
  shows "role = sh"
  using assms
  by (auto simp: signal_role_def decisive_def signals_compatible_def roles_compatible_def
      custom_handler_shape_role_def Option.bind_eq_Some_conv split: option.splits if_splits)

text \<open>
  A shape is binding: when a node with a decisive shape (a start, an exit, a human
  gate, a tool, a parallel, a fan-in or a manager shape) compiles, its kind and its handler
  are those of the shape, whatever its id, type and aliases say; disagreement is rejected.
\<close>

theorem shape_fixes_kind:
  assumes "resolve_node fmt b cat policy n = Inr (r, d)"
    and "string_attr (pn_raw n) ''shape'' = Some s" and "shape_role s = Some sh" and "decisive sh"
  shows "kind_and_handler sh n = (rn_kind r, rn_handler r)"
proof -
  from assms(1) obtain role where r: "node_role cat n = (role, [])"
    "kind_and_handler role n = (rn_kind r, rn_handler r)"
    by (rule resolve_node_Inr) blast
  have c: "configured_role n = Some sh" using assms(2,3) by (simp add: configured_role_def)
  have e: "explicit_semantics n"
    using assms(2) by (auto simp: explicit_semantics_def string_attr_def hm_contains_get split: option.splits)
  have "signal_role cat n = (role, [])"
    using r(1) e by (auto simp: node_role_def split: prod.splits option.splits if_splits)
  from signal_role_decisive [OF this c assms(4)] r(2) show ?thesis by simp
qed

definition start_example :: pipeline_node where
  "start_example = task_example\<lparr>pn_id := ''begin'', pn_shape := ''Mdiamond'', pn_llm_provider := None,
     pn_raw := [(''shape'', AString ''Mdiamond'')]\<rparr>"

theorem shape_fixes_kind_witness: "kind_and_handler RStart start_example = (KStart, HStart)"
proof -
  define r where "r = \<lparr>rn_id = ''begin'', rn_kind = KStart, rn_handler = HStart, rn_provider = None,
      rn_invocation = \<lparr>max_attempts = 1, ip_timeout = None\<rparr>\<rparr>"
  have "resolve_node (\<lambda>_. []) Release builtin_handler_catalog Reject start_example = Inr (r, False)"
    unfolding r_def by code_simp
  moreover have "string_attr (pn_raw start_example) ''shape'' = Some ''Mdiamond''"
    "shape_role ''Mdiamond'' = Some RStart" "decisive RStart" by code_simp+
  ultimately have "kind_and_handler RStart start_example = (rn_kind r, rn_handler r)"
    by (rule shape_fixes_kind)
  then show ?thesis by (simp add: r_def)
qed

end
