(* ===== verification/Plan.thy ===== *)
theory Plan
  imports Plan_Resolve
begin

text \<open>
  Compilation of a graph to an execution plan
  (\<open>crates/attractor-pipeline/src/execution_plan.rs\<close>): alias normalisation, transforms,
  resolution of every node, the topology and capability checks, the cardinality of start and
  exit, and the plan's accessors, fingerprint and registry check.
\<close>

section \<open>Attribute checks\<close>

definition graph_string_attrs :: "str list" where
  "graph_string_attrs = [''model_stylesheet'', ''stylesheet'']"

definition node_string_attrs :: "str list" where
  "node_string_attrs =
     [''shape'', ''type'', ''node_type'', ''handler'', ''prompt'', ''llm_provider'', ''class'', ''classes'']"

definition type_errors :: "(f64 \<Rightarrow> str) \<Rightarrow> str option \<Rightarrow> str list \<Rightarrow> attrs \<Rightarrow> diagnostic list" where
  "type_errors fmt node ks a =
     List.map_filter (\<lambda>k. case hm_get a k of
        Some v \<Rightarrow> if is_string v then None else Some (invalid_attribute_type fmt node k v)
      | None \<Rightarrow> None) ks"

definition validate_semantic_attribute_types :: "(f64 \<Rightarrow> str) \<Rightarrow> pipeline_graph \<Rightarrow> diagnostic list" where
  "validate_semantic_attribute_types fmt g =
     type_errors fmt None graph_string_attrs (pg_attrs g)
     @ concat (map (\<lambda>n. type_errors fmt (Some (pn_id n)) node_string_attrs (pn_raw n)) (all_nodes g))"

definition unsupported_node_capability :: "str \<Rightarrow> str \<Rightarrow> str \<Rightarrow> diagnostic" where
  "unsupported_node_capability i cap fix_text =
     \<lparr>sd_kind = UnsupportedExecutionCapability, sd_node = Some i,
      sd_message = ''Node '' @ sq i @ '' uses unsupported execution capability '' @ sq cap,
      sd_fix = fix_text\<rparr>"

definition validate_unsupported_attributes :: "pipeline_graph \<Rightarrow> diagnostic list" where
  "validate_unsupported_attributes g =
     concat (map (\<lambda>n. map (\<lambda>a. unsupported_node_capability (pn_id n) a
                             (''Remove the '' @ sq a @ '' attribute or stylesheet declaration''))
                       (filter (hm_contains (pn_raw n))
                          [''fidelity'', ''reasoning_effort'', ''auto_status'', ''allow_partial'', ''thread_id'']))
               (sort_key pn_id (all_nodes g)))
     @ concat (map (\<lambda>e. map (\<lambda>a. \<lparr>sd_kind = UnsupportedExecutionCapability, sd_node = None,
                               sd_message = ''Edge '' @ sq (pe_from e @ '' -> '' @ pe_to e)
                                 @ '' uses unsupported execution capability '' @ sq a,
                               sd_fix = ''Remove the '' @ sq a @ '' edge attribute''\<rparr>)
                         (filter (hm_contains (pe_raw e)) [''fidelity'', ''thread_id'']))
                 (pg_edges g))"

section \<open>Resolution of all nodes\<close>

record resolution =
  rz_nodes :: "resolved_node hmap"
  rz_starts :: "str list"
  rz_exits :: "str list"
  rz_defaulted :: "str list"
  rz_diags :: "diagnostic list"

definition resolution_init :: "diagnostic list \<Rightarrow> resolution" where
  "resolution_init ds =
     \<lparr>rz_nodes = [], rz_starts = [], rz_exits = [], rz_defaulted = [], rz_diags = ds\<rparr>"

definition resolve_step ::
  "(f64 \<Rightarrow> str) \<Rightarrow> build_profile \<Rightarrow> catalog \<Rightarrow> missing_provider_policy \<Rightarrow> pipeline_graph
   \<Rightarrow> str \<Rightarrow> resolution \<Rightarrow> resolution plan_result" where
  "resolve_step fmt b cat policy g i z =
     (case graph_node g i of
        None \<Rightarrow> Inl PlanPanic
      | Some n \<Rightarrow>
          (case resolve_node fmt b cat policy n of
             Inl PlanPanic \<Rightarrow> Inl PlanPanic
           | Inl (Rejected ds) \<Rightarrow> Inr (z\<lparr>rz_diags := rz_diags z @ ds\<rparr>)
           | Inr (r, defaulted) \<Rightarrow>
               Inr (z\<lparr>rz_starts := rz_starts z @ (if rn_kind r = KStart then [i] else []),
                      rz_exits := rz_exits z @ (if rn_kind r = KExit then [i] else []),
                      rz_defaulted := rz_defaulted z @ (if defaulted then [i] else []),
                      rz_nodes := hm_insert i r (rz_nodes z)\<rparr>)))"

fun resolve_all ::
  "(f64 \<Rightarrow> str) \<Rightarrow> build_profile \<Rightarrow> catalog \<Rightarrow> missing_provider_policy \<Rightarrow> pipeline_graph
   \<Rightarrow> str list \<Rightarrow> resolution \<Rightarrow> resolution plan_result" where
  "resolve_all fmt b cat policy g [] z = Inr z"
| "resolve_all fmt b cat policy g (i # is) z =
     rbind (resolve_step fmt b cat policy g i z) (resolve_all fmt b cat policy g is)"

section \<open>Topology and capabilities\<close>

definition topology_diags :: "pipeline_graph \<Rightarrow> str \<Rightarrow> resolved_node \<Rightarrow> diagnostic list" where
  "topology_diags g i r =
     (case rn_kind r of
        KParallel \<Rightarrow>
          (let out = outgoing_edges g i
           in if length out \<le> 1 then []
              else [\<lparr>sd_kind = UnsupportedExecutionTopology, sd_node = Some i,
                     sd_message = ''Node '' @ sq i @ '' resolves to parallel but has ''
                       @ show_nat (length out) @ '' outgoing edges (''
                       @ join '', '' (sort (map pe_to out))
                       @ ''); PAS executes only one successor per step'',
                     sd_fix = ''Rewrite this node as a linear sequence until parallel branch execution is supported''\<rparr>])
      | KFanIn \<Rightarrow>
          [\<lparr>sd_kind = UnsupportedExecutionTopology, sd_node = Some i,
            sd_message = ''Node '' @ sq i @ '' resolves to fan-in, but PAS cannot merge branch results'',
            sd_fix = ''Remove the fan-in node and use a linear sequence until branch merging is supported''\<rparr>]
      | _ \<Rightarrow> [])"

definition validate_supported_execution_topology ::
  "pipeline_graph \<Rightarrow> resolved_node hmap \<Rightarrow> diagnostic list" where
  "validate_supported_execution_topology g nodes =
     concat (map (\<lambda>i. case hm_get nodes i of Some r \<Rightarrow> topology_diags g i r | None \<Rightarrow> [])
       (sort (hm_keys nodes)))"

definition pi_thinking_levels :: "str list" where
  "pi_thinking_levels = [''off'', ''minimal'', ''low'', ''medium'', ''high'', ''xhigh'', ''max'']"

definition pi_tool_names :: str where
  "pi_tool_names = ''read, bash, edit, write, grep, find, ls''"

definition split_once :: "char \<Rightarrow> str \<Rightarrow> (str \<times> str) option" where
  "split_once c s =
     (if c \<in> set s then Some (takeWhile (\<lambda>d. d \<noteq> c) s, tl (dropWhile (\<lambda>d. d \<noteq> c) s)) else None)"

definition rsplit_once :: "char \<Rightarrow> str \<Rightarrow> (str \<times> str) option" where
  "rsplit_once c s = map_option (\<lambda>(a, b). (rev b, rev a)) (split_once c (rev s))"

definition pi_model_shape :: str where
  "pi_model_shape = ''Use llm_model='' @ dq ''provider/model-id'' @ '', for example ''
     @ dq ''openai/gpt-5.5'' @ '' or '' @ dq ''openai/gpt-5.5:high''"

definition check_pi_model :: "str \<Rightarrow> str + unit" where
  "check_pi_model v =
     (case split_once (CHR ''/'') v of
        None \<Rightarrow> Inl pi_model_shape
      | Some (provider, rest) \<Rightarrow>
          (let (i, thinking) = (case rsplit_once (CHR '':'') rest of
                                  Some (i, l) \<Rightarrow> (i, Some l) | None \<Rightarrow> (rest, None))
           in if trim provider = [] \<or> trim i = [] then Inl pi_model_shape
              else case thinking of
                     Some l \<Rightarrow>
                       if l \<notin> set pi_thinking_levels
                       then Inl (''The thinking suffix '' @ sq l @ '' is not valid; use one of: ''
                              @ join '', '' pi_thinking_levels)
                       else Inr ()
                   | None \<Rightarrow> Inr ()))"

fun has_whitespace :: "str \<Rightarrow> bool" where
  "has_whitespace [] = False"
| "has_whitespace (c # s) = (0 < ws_head (c # s) \<or> has_whitespace s)"

definition bare_tool :: "str \<Rightarrow> bool" where
  "bare_tool n \<longleftrightarrow> CHR ''('' \<notin> set n \<and> CHR '')'' \<notin> set n \<and> \<not> has_whitespace n"

definition check_pi_tools :: "str \<Rightarrow> str + unit" where
  "check_pi_tools v =
     (case List.find (\<lambda>n. \<not> bare_tool n) (map trim (split_on '','' v)) of
        Some n \<Rightarrow> Inl n | None \<Rightarrow> Inr ())"

definition validate_pi_node :: "str \<Rightarrow> pipeline_node \<Rightarrow> diagnostic list" where
  "validate_pi_node i n =
     (case map_option trim (pn_llm_model n) of
        None \<Rightarrow> [\<lparr>sd_kind = MissingAttribute, sd_node = Some i,
                  sd_message = ''Node '' @ sq i @ '' uses llm_provider '' @ dq ''pi'' @ '' but has no llm_model'',
                  sd_fix = ''Add llm_model='' @ dq ''openai/gpt-5.5'' @ '' (provider/model-id)''\<rparr>]
      | Some m \<Rightarrow>
          if m = []
          then [\<lparr>sd_kind = MissingAttribute, sd_node = Some i,
                 sd_message = ''Node '' @ sq i @ '' uses llm_provider '' @ dq ''pi'' @ '' but has no llm_model'',
                 sd_fix = ''Add llm_model='' @ dq ''openai/gpt-5.5'' @ '' (provider/model-id)''\<rparr>]
          else case check_pi_model m of
                 Inl fx \<Rightarrow> [\<lparr>sd_kind = InvalidAttributeValue, sd_node = Some i,
                     sd_message = ''Node '' @ sq i @ '' has invalid llm_model '' @ sq m @ '' for pi'',
                     sd_fix = fx\<rparr>]
               | Inr _ \<Rightarrow> [])
     @ (case hm_get (pn_raw n) ''allowed_tools'' of
          Some (AString tools) \<Rightarrow>
            (case check_pi_tools tools of
               Inl name \<Rightarrow> [\<lparr>sd_kind = InvalidAttributeValue, sd_node = Some i,
                   sd_message = ''Node '' @ sq i @ '' has allowed_tools entry '' @ sq name
                     @ '' that is not a pi tool name'',
                   sd_fix = ''Use a comma-separated list of tool names such as '' @ pi_tool_names
                     @ ''; Claude patterns like Bash(git:*) are not supported by pi''\<rparr>]
             | Inr _ \<Rightarrow> [])
        | _ \<Rightarrow> [])"

definition capability_diags :: "(f64 \<Rightarrow> str) \<Rightarrow> str \<Rightarrow> resolved_node \<Rightarrow> pipeline_node \<Rightarrow> diagnostic list" where
  "capability_diags fmt i r n =
     (if rn_kind r = KManagerLoop
      then [unsupported_node_capability i ''manager-loop execution''
              ''Replace the manager node with an explicit linear sequence'']
      else [])
     @ (if rn_handler r = HCodergen \<and> (rn_provider r = Some Claude \<or> rn_provider r = Some Pi)
        then type_errors fmt (Some i) [''allowed_tools'', ''max_budget_usd''] (pn_raw n)
        else map (\<lambda>a. unsupported_node_capability i a
                        (''Remove '' @ sq a @ '' or use it on a Claude or pi codergen node''))
               (filter (hm_contains (pn_raw n)) [''allowed_tools'', ''max_budget_usd'']))
     @ (if rn_handler r = HCodergen \<and> rn_provider r = Some Pi then validate_pi_node i n else [])"

definition with_source ::
  "pipeline_graph \<Rightarrow> resolved_node hmap \<Rightarrow> (str \<Rightarrow> resolved_node \<Rightarrow> pipeline_node \<Rightarrow> diagnostic list)
   \<Rightarrow> str list \<Rightarrow> diagnostic list plan_result" where
  "with_source g nodes f is =
     rbind (rmap (\<lambda>i. case (hm_get nodes i, graph_node g i) of
                        (Some r, Some n) \<Rightarrow> Inr (f i r n) | _ \<Rightarrow> Inl PlanPanic) is)
       (\<lambda>dss. Inr (concat dss))"

definition validate_supported_execution_capabilities ::
  "(f64 \<Rightarrow> str) \<Rightarrow> pipeline_graph \<Rightarrow> resolved_node hmap \<Rightarrow> diagnostic list plan_result" where
  "validate_supported_execution_capabilities fmt g nodes =
     with_source g nodes (capability_diags fmt) (sort (hm_keys nodes))"

definition beads_diags :: "(f64 \<Rightarrow> str) \<Rightarrow> str \<Rightarrow> resolved_node \<Rightarrow> pipeline_node \<Rightarrow> diagnostic list" where
  "beads_diags fmt i r n =
     (let missing = [\<lparr>sd_kind = MissingAttribute, sd_node = Some i,
            sd_message = ''Node '' @ sq i @ '' resolves to handler '' @ sq select_handler
              @ '' but has no '' @ sq ''epic'' @ '' attribute'',
            sd_fix = ''Add epic='' @ dq ''<epic-id>'' @ '' naming the Epic whose Tasks this node claims''\<rparr>]
      in case hm_get (pn_raw n) ''epic'' of
           Some (AString e) \<Rightarrow> if trim e \<noteq> [] then [] else missing
         | None \<Rightarrow> missing
         | Some v \<Rightarrow> [invalid_attribute_type fmt (Some i) ''epic'' v])"

definition validate_beads_attributes ::
  "(f64 \<Rightarrow> str) \<Rightarrow> pipeline_graph \<Rightarrow> resolved_node hmap \<Rightarrow> diagnostic list plan_result" where
  "validate_beads_attributes fmt g nodes =
     with_source g nodes (beads_diags fmt)
       (sort (map rn_id (filter (\<lambda>r. handler_as_str (rn_handler r) = select_handler) (hm_values nodes))))"

section \<open>Compilation\<close>

record execution_plan =
  pl_graph :: pipeline_graph
  pl_nodes :: "resolved_node hmap"
  pl_capabilities :: catalog
  pl_start :: str
  pl_exits :: "str list"

definition cardinality_diags :: "str list \<Rightarrow> str list \<Rightarrow> diagnostic list" where
  "cardinality_diags starts exits =
     (if starts = []
      then [\<lparr>sd_kind = MissingStart, sd_node = None,
             sd_message = ''Pipeline has no canonical start node'',
             sd_fix = ''Add exactly one shape='' @ dq ''Mdiamond'' @ '' start node''\<rparr>]
      else if 1 < length starts
      then [\<lparr>sd_kind = MultipleStarts, sd_node = None,
             sd_message = ''Pipeline has multiple start nodes: '' @ join '', '' starts,
             sd_fix = ''Keep exactly one start node''\<rparr>]
      else [])
     @ (if exits = []
        then [\<lparr>sd_kind = MissingExit, sd_node = None,
               sd_message = ''Pipeline has no canonical exit node'',
               sd_fix = ''Add exactly one shape='' @ dq ''Msquare'' @ '' exit node''\<rparr>]
        else if 1 < length exits
        then [\<lparr>sd_kind = MultipleExits, sd_node = None,
               sd_message = ''Pipeline has multiple exit nodes: '' @ join '', '' exits,
               sd_fix = ''Keep exactly one exit node''\<rparr>]
        else [])"

fun set_provider :: "str \<Rightarrow> str \<Rightarrow> pipeline_node hmap \<Rightarrow> pipeline_node hmap" where
  "set_provider i p [] = []"
| "set_provider i p ((k, n) # ns) =
     (if pn_id n = i then (k, n\<lparr>pn_llm_provider := Some p\<rparr>) # ns else (k, n) # set_provider i p ns)"

fun insert_defaults :: "str list \<Rightarrow> resolved_node hmap \<Rightarrow> pipeline_node hmap \<Rightarrow> pipeline_node hmap plan_result" where
  "insert_defaults [] nodes ns = Inr ns"
| "insert_defaults (i # is) nodes ns =
     (case Option.bind (hm_get nodes i) rn_provider of
        None \<Rightarrow> Inl PlanPanic
      | Some p \<Rightarrow> insert_defaults is nodes (set_provider i (provider_as_str p) ns))"

definition collect_capabilities :: "catalog \<Rightarrow> resolved_node hmap \<Rightarrow> catalog plan_result" where
  "collect_capabilities cat nodes =
     rbind (rmap (\<lambda>r. case hm_get cat (handler_as_str (rn_handler r)) of
                        None \<Rightarrow> Inl PlanPanic | Some c \<Rightarrow> Inr (handler_as_str (rn_handler r), c))
              (hm_values nodes))
       (\<lambda>kvs. Inr (fold (\<lambda>(k, v). hm_insert k v) kvs []))"

text \<open>The transforms run only when nothing is wrong so far; their error becomes a diagnostic.\<close>

definition run_transforms ::
  "(f64 \<Rightarrow> str) \<Rightarrow> (f64 \<Rightarrow> str) \<Rightarrow> pipeline_graph \<Rightarrow> diagnostic list
   \<Rightarrow> (pipeline_graph \<times> diagnostic list) plan_result" where
  "run_transforms fmt fmt2 g ds =
     (if ds = []
      then (case apply_transforms fmt g of
              Inl CssPanic \<Rightarrow> Inl PlanPanic
            | Inl (CssError e) \<Rightarrow>
                Inr (g, ds @ [\<lparr>sd_kind = TransformError, sd_node = None,
                        sd_message = error_display fmt2 e,
                        sd_fix = ''Correct the stylesheet or prompt transform input''\<rparr>])
            | Inr g' \<Rightarrow> Inr (g', ds))
      else Inr (g, ds))"

definition sort_diagnostics :: "diagnostic list \<Rightarrow> diagnostic list" where
  "sort_diagnostics = sort_key (\<lambda>d. (sd_node d, sd_kind d, sd_message d))"

definition compile_with_policy ::
  "(f64 \<Rightarrow> str) \<Rightarrow> (f64 \<Rightarrow> str) \<Rightarrow> build_profile \<Rightarrow> pipeline_graph \<Rightarrow> catalog \<Rightarrow> missing_provider_policy
   \<Rightarrow> (execution_plan \<times> str list) plan_result" where
  "compile_with_policy fmt fmt2 b g0 cat policy =
     (let d0 = validate_semantic_attribute_types fmt g0;
          (g1, d1) = normalize_aliases g0
      in rbind (run_transforms fmt fmt2 g1 (d0 @ d1)) (\<lambda>(g, d2).
         let d3 = d2 @ validate_unsupported_attributes g
         in rbind (resolve_all fmt b cat policy g (sort (map pn_id (all_nodes g))) (resolution_init d3)) (\<lambda>z.
            rbind (validate_supported_execution_capabilities fmt g (rz_nodes z)) (\<lambda>caps.
            rbind (validate_beads_attributes fmt g (rz_nodes z)) (\<lambda>beads.
              let starts = sort (rz_starts z); exits = sort (rz_exits z); defaulted = sort (rz_defaulted z);
                  ds = sort_diagnostics
                    (rz_diags z @ validate_supported_execution_topology g (rz_nodes z) @ caps @ beads
                      @ cardinality_diags starts exits)
              in if ds \<noteq> [] then Inl (Rejected ds)
                 else rbind (insert_defaults defaulted (rz_nodes z) (pg_nodes g)) (\<lambda>ns.
                      rbind (collect_capabilities cat (rz_nodes z)) (\<lambda>handlers.
                        Inr (\<lparr>pl_graph = g\<lparr>pg_nodes := ns\<rparr>, pl_nodes = rz_nodes z,
                              pl_capabilities = handlers, pl_start = last starts, pl_exits = exits\<rparr>,
                             defaulted))))))))"

definition compile_plan ::
  "(f64 \<Rightarrow> str) \<Rightarrow> (f64 \<Rightarrow> str) \<Rightarrow> build_profile \<Rightarrow> pipeline_graph \<Rightarrow> execution_plan plan_result" where
  "compile_plan fmt fmt2 b g =
     rbind (compile_with_policy fmt fmt2 b g builtin_handler_catalog Reject) (\<lambda>(p, _). Inr p)"

definition compile_with_registry ::
  "(f64 \<Rightarrow> str) \<Rightarrow> (f64 \<Rightarrow> str) \<Rightarrow> build_profile \<Rightarrow> pipeline_graph \<Rightarrow> catalog \<Rightarrow> execution_plan plan_result" where
  "compile_with_registry fmt fmt2 b g registry =
     rbind (compile_with_policy fmt fmt2 b g registry Reject) (\<lambda>(p, _). Inr p)"

definition compile_for_generation ::
  "(f64 \<Rightarrow> str) \<Rightarrow> (f64 \<Rightarrow> str) \<Rightarrow> build_profile \<Rightarrow> pipeline_graph \<Rightarrow> llm_provider
   \<Rightarrow> (execution_plan \<times> str list) plan_result" where
  "compile_for_generation fmt fmt2 b g p =
     compile_with_policy fmt fmt2 b g builtin_handler_catalog (Insert p)"

section \<open>The compiled plan\<close>

definition plan_node :: "execution_plan \<Rightarrow> str \<Rightarrow> resolved_node option" where
  "plan_node p i = hm_get (pl_nodes p) i"

definition source_node :: "execution_plan \<Rightarrow> str \<Rightarrow> pipeline_node option" where
  "source_node p i = graph_node (pl_graph p) i"

definition plan_outgoing :: "execution_plan \<Rightarrow> str \<Rightarrow> pipeline_edge list" where
  "plan_outgoing p i = outgoing_edges (pl_graph p) i"

text \<open>\<open>binary_search_by\<close> on the sorted exits, on the half-open range \<open>lo..hi\<close>.\<close>

function bsearch :: "str list \<Rightarrow> str \<Rightarrow> nat \<Rightarrow> nat \<Rightarrow> bool" where
  "bsearch xs k lo hi =
     (if hi \<le> lo then False
      else let mid = lo + (hi - lo) div 2
           in if xs ! mid = k then True
              else if xs ! mid < k then bsearch xs k (mid + 1) hi
              else bsearch xs k lo mid)"
  by pat_completeness auto
termination by (relation "measure (\<lambda>(xs, k, lo, hi). hi - lo)") auto

declare bsearch.simps [simp del]

definition is_exit :: "execution_plan \<Rightarrow> str \<Rightarrow> bool" where
  "is_exit p i = bsearch (pl_exits p) i 0 (length (pl_exits p))"

end
