(* ===== verification/Plan_Sound.thy ===== *)
theory Plan_Sound
  imports Plan
begin

text \<open>
  What a successful compilation guarantees: the plan's well-formedness, on which the engine
  relies, for every graph whose node map is keyed by node id.
\<close>

section \<open>Graphs keyed by node id\<close>

definition graph_ok :: "pipeline_graph \<Rightarrow> bool" where
  "graph_ok g \<longleftrightarrow> hm_wf (pg_nodes g) \<and> list_all (\<lambda>(k, n). pn_id n = k) (pg_nodes g)"

lemma graph_ok_ids: "graph_ok g \<Longrightarrow> map pn_id (all_nodes g) = hm_keys (pg_nodes g)"
  by (auto simp: graph_ok_def all_nodes_def hm_values_def hm_keys_def list_all_iff)

lemma graph_ok_get: "graph_ok g \<Longrightarrow> graph_node g i = Some n \<Longrightarrow> pn_id n = i"
  by (auto simp: graph_ok_def graph_node_def list_all_iff dest!: hm_get_in_set)

lemma map_values_ok:
  assumes "\<And>n. pn_id (f n) = pn_id n" "graph_ok g"
  shows "graph_ok (g\<lparr>pg_nodes := map (\<lambda>(k, n). (k, f n)) (pg_nodes g)\<rparr>)"
    and "hm_keys (map (\<lambda>(k, n). (k, f n)) (pg_nodes g)) = hm_keys (pg_nodes g)"
  using assms by (auto simp: graph_ok_def hm_wf_def hm_keys_def list_all_iff case_prod_beta' comp_def)

text \<open>A graph built from a DOT tree is keyed by node id.\<close>

lemma fold_insert_ids:
  "list_all (\<lambda>(k, n). pn_id n = k) m \<Longrightarrow> (\<And>x. pn_id (v x) = k x)
   \<Longrightarrow> list_all (\<lambda>(k, n). pn_id n = k) (fold (\<lambda>x. hm_insert (k x) (v x)) xs m)"
proof (induction xs arbitrary: m)
  case Nil
  then show ?case by simp
next
  case (Cons x xs)
  have "list_all (\<lambda>(k, n). pn_id n = k) (AList.update (k x) (v x) m)" using Cons.prems
    by (induction m) auto
  with Cons show ?case by (simp add: hm_insert_def)
qed

section \<open>Normalisation and transforms keep the node map's shape\<close>

lemma normalize_node_id [simp]: "pn_id (fst (normalize_node n)) = pn_id n"
  by (auto simp: normalize_node_def Let_def split: prod.splits option.splits)

definition same_skeleton :: "pipeline_graph \<Rightarrow> pipeline_graph \<Rightarrow> bool" where
  "same_skeleton g h \<longleftrightarrow> graph_ok h \<and> hm_keys (pg_nodes h) = hm_keys (pg_nodes g)
     \<and> pg_edges h = pg_edges g \<and> pg_adjacency h = pg_adjacency g"

lemma same_skeleton_refl: "graph_ok g \<Longrightarrow> same_skeleton g g"
  by (simp add: same_skeleton_def)

lemma same_skeleton_trans: "same_skeleton g h \<Longrightarrow> same_skeleton h k \<Longrightarrow> same_skeleton g k"
  by (auto simp: same_skeleton_def)

lemma same_skeleton_outgoing: "same_skeleton g h \<Longrightarrow> outgoing_edges h i = outgoing_edges g i"
  by (auto simp: same_skeleton_def outgoing_edges_def split: option.splits)

lemma same_skeleton_map:
  assumes "\<And>n. pn_id (f n) = pn_id n" "graph_ok g"
  shows "same_skeleton g (g\<lparr>pg_nodes := map (\<lambda>(k, n). (k, f n)) (pg_nodes g)\<rparr>)"
  using map_values_ok [of f g] assms by (simp add: same_skeleton_def)

lemma normalize_aliases_skeleton:
  assumes "graph_ok g" "normalize_aliases g = (h, ds)" shows "same_skeleton g h"
proof -
  obtain g1 d where 1: "normalize_graph_alias g ''model_stylesheet'' ''stylesheet'' = (g1, d)"
    by (metis surj_pair)
  have "pg_nodes g1 = pg_nodes g" "pg_edges g1 = pg_edges g" "pg_adjacency g1 = pg_adjacency g"
    using 1 by (auto simp: normalize_graph_alias_def split: option.splits)
  then have "same_skeleton g g1" using assms(1) by (simp add: same_skeleton_def graph_ok_def)
  moreover have "graph_ok g1" using calculation by (simp add: same_skeleton_def)
  then have "same_skeleton g1 (g1\<lparr>pg_nodes := map (\<lambda>(k, n). (k, fst (normalize_node n))) (pg_nodes g1)\<rparr>)"
    by (rule same_skeleton_map [rotated]) simp
  ultimately show ?thesis
    using assms(2) 1 same_skeleton_trans by (auto simp: normalize_aliases_def)
qed

lemma apply_transforms_skeleton:
  assumes "graph_ok g" "apply_transforms fmt g = Inr h" shows "same_skeleton g h"
proof -
  obtain g1 where 1: "apply_model_stylesheet g = Inr g1" "h = expand_prompt_variables fmt g1"
    using assms(2) by (auto simp: apply_transforms_def)
  have "same_skeleton g g1"
    using apply_model_stylesheet_cases [OF 1(1)]
  proof
    assume "\<exists>ss. g1 = apply_stylesheet g ss"
    then show ?thesis
      unfolding apply_stylesheet_def using assms(1) by (auto intro!: same_skeleton_map)
  qed (use assms(1) same_skeleton_refl in blast)
  moreover from this have "same_skeleton g1 h"
    unfolding 1(2) expand_prompt_variables_def Let_def
    by (intro same_skeleton_map) (auto simp: expand_node_eq same_skeleton_def)
  ultimately show ?thesis by (rule same_skeleton_trans)
qed

lemma run_transforms_skeleton:
  assumes "graph_ok g" "run_transforms fmt fmt2 g ds = Inr (h, es)"
  shows "same_skeleton g h"
  using assms apply_transforms_skeleton same_skeleton_refl
  by (auto simp: run_transforms_def split: if_splits sum.splits css_failure.splits)

lemma run_transforms_diags: "run_transforms fmt fmt2 g ds = Inr (h, []) \<Longrightarrow> ds = []"
  by (auto simp: run_transforms_def split: if_splits sum.splits css_failure.splits)

lemma set_provider_shape:
  "hm_keys (set_provider i p ns) = hm_keys ns
   \<and> (list_all (\<lambda>(k, n). pn_id n = k) ns \<longrightarrow> list_all (\<lambda>(k, n). pn_id n = k) (set_provider i p ns))"
  by (induction i p ns rule: set_provider.induct) (auto simp: hm_keys_def)

lemma insert_defaults_shape:
  "insert_defaults is nodes ns = Inr ns' \<Longrightarrow> hm_keys ns' = hm_keys ns
   \<and> (list_all (\<lambda>(k, n). pn_id n = k) ns \<longrightarrow> list_all (\<lambda>(k, n). pn_id n = k) ns')"
  by (induction "is" nodes ns rule: insert_defaults.induct)
     (auto split: option.splits simp: set_provider_shape)

section \<open>Resolution of all nodes\<close>

definition resolved_of ::
  "(f64 \<Rightarrow> str) \<Rightarrow> build_profile \<Rightarrow> catalog \<Rightarrow> missing_provider_policy \<Rightarrow> pipeline_graph \<Rightarrow> str
   \<Rightarrow> (resolved_node \<times> bool) option" where
  "resolved_of fmt b cat policy g i =
     (case graph_node g i of
        None \<Rightarrow> None
      | Some n \<Rightarrow> (case resolve_node fmt b cat policy n of Inl _ \<Rightarrow> None | Inr x \<Rightarrow> Some x))"

definition resolved_at ::
  "(f64 \<Rightarrow> str) \<Rightarrow> build_profile \<Rightarrow> catalog \<Rightarrow> missing_provider_policy \<Rightarrow> pipeline_graph \<Rightarrow> str
   \<Rightarrow> resolved_node" where
  "resolved_at fmt b cat policy g i = fst (the (resolved_of fmt b cat policy g i))"

lemma resolve_step_diags:
  "resolve_step fmt b cat policy g i z = Inr z' \<Longrightarrow> \<exists>ds. rz_diags z' = rz_diags z @ ds"
  by (auto simp: resolve_step_def split: option.splits sum.splits plan_failure.splits)

lemma resolve_all_diags:
  "resolve_all fmt b cat policy g is z = Inr z' \<Longrightarrow> \<exists>ds. rz_diags z' = rz_diags z @ ds"
proof (induction "is" arbitrary: z)
  case (Cons i "is")
  then obtain z1 where "resolve_step fmt b cat policy g i z = Inr z1"
    "resolve_all fmt b cat policy g is z1 = Inr z'" by auto
  with Cons.IH resolve_step_diags show ?case by fastforce
qed simp

lemma resolve_step_ok:
  assumes "resolve_step fmt b cat policy g i z = Inr z'" "rz_diags z' = []"
    "\<And>n. resolve_node fmt b cat policy n \<noteq> Inl (Rejected [])"
  shows "\<exists>r d. resolved_of fmt b cat policy g i = Some (r, d)
    \<and> z' = z\<lparr>rz_starts := rz_starts z @ (if rn_kind r = KStart then [i] else []),
             rz_exits := rz_exits z @ (if rn_kind r = KExit then [i] else []),
             rz_defaulted := rz_defaulted z @ (if d then [i] else []),
             rz_nodes := hm_insert i r (rz_nodes z)\<rparr>"
proof (cases "graph_node g i")
  case None
  with assms(1) show ?thesis by (simp add: resolve_step_def)
next
  case (Some n)
  show ?thesis
  proof (cases "resolve_node fmt b cat policy n")
    case (Inl f)
    with Some assms(1) obtain ds where "f = Rejected ds" "z' = z\<lparr>rz_diags := rz_diags z @ ds\<rparr>"
      by (cases f) (simp_all add: resolve_step_def)
    with Inl assms(2,3) show ?thesis by simp
  next
    case (Inr x)
    obtain r d where "x = (r, d)" by (cases x)
    with Some Inr assms(1) show ?thesis by (simp add: resolve_step_def resolved_of_def)
  qed
qed

text \<open>A rejection always names at least one diagnostic.\<close>

lemma retries_of_rejected: "retries_of fmt n \<noteq> Inl (Rejected [])"
  by (auto simp: retries_of_def split: option.split attribute_value.split)

lemma timeout_of_rejected: "timeout_of fmt b n \<noteq> Inl (Rejected [])"
  by (auto simp: timeout_of_def split: option.split attribute_value.split duration_result.split)

lemma resolve_invocation_policy_rejected: "resolve_invocation_policy fmt b n \<noteq> Inl (Rejected [])"
  using retries_of_rejected timeout_of_rejected
  by (auto simp: resolve_invocation_policy_def rbind_eq_Inl split: if_splits)

lemma resolve_provider_rejected: "resolve_provider policy c h n \<noteq> Inl (Rejected [])"
  by (auto simp: resolve_provider_def split: option.split missing_provider_policy.split)

lemma resolve_node_rejected_nonempty: "resolve_node fmt b cat policy n \<noteq> Inl (Rejected [])"
proof -
  obtain role ds kind h where "node_role cat n = (role, ds)" "kind_and_handler role n = (kind, h)"
    by (metis surj_pair)
  then show ?thesis
    using resolve_invocation_policy_rejected [of fmt b n] resolve_provider_rejected [of policy _ h n]
    by (auto simp: resolve_node_def Let_def rbind_eq_Inl split: option.splits)
qed

lemma resolve_all_ok:
  assumes "resolve_all fmt b cat policy g is z = Inr z'" "rz_diags z' = []"
  shows "(\<forall>i \<in> set is. resolved_of fmt b cat policy g i \<noteq> None)
    \<and> rz_nodes z' = fold (\<lambda>i. hm_insert i (resolved_at fmt b cat policy g i)) is (rz_nodes z)
    \<and> rz_starts z' = rz_starts z @ filter (\<lambda>i. rn_kind (resolved_at fmt b cat policy g i) = KStart) is
    \<and> rz_exits z' = rz_exits z @ filter (\<lambda>i. rn_kind (resolved_at fmt b cat policy g i) = KExit) is
    \<and> rz_diags z = []"
  using assms(1,2)
proof (induction "is" arbitrary: z)
  case Nil
  then show ?case by simp
next
  case (Cons i "is")
  then obtain z1 where 1: "resolve_step fmt b cat policy g i z = Inr z1"
    "resolve_all fmt b cat policy g is z1 = Inr z'" by auto
  note IH = Cons.IH [OF 1(2) Cons.prems(2)]
  then have "rz_diags z1 = []" by blast
  from resolve_step_ok [OF 1(1) this resolve_node_rejected_nonempty] obtain r d where r:
    "resolved_of fmt b cat policy g i = Some (r, d)"
    "z1 = z\<lparr>rz_starts := rz_starts z @ (if rn_kind r = KStart then [i] else []),
             rz_exits := rz_exits z @ (if rn_kind r = KExit then [i] else []),
             rz_defaulted := rz_defaulted z @ (if d then [i] else []),
             rz_nodes := hm_insert i r (rz_nodes z)\<rparr>" by blast
  have "resolved_at fmt b cat policy g i = r" using r(1) by (simp add: resolved_at_def)
  with IH r show ?case by simp
qed

lemma hm_get_fold_keys:
  "hm_get (fold (\<lambda>i. hm_insert i (\<rho> i)) is m) k = (if k \<in> set is then Some (\<rho> k) else hm_get m k)"
  by (induction "is" arbitrary: m) auto

lemma hm_keys_set: "set (hm_keys m) = {k. hm_get m k \<noteq> None}"
  by (auto simp: hm_keys_def hm_get_def map_of_eq_None_iff)

lemma sort_key_Nil_iff [simp]: "sort_key f xs = [] \<longleftrightarrow> xs = []"
  by (metis length_0_conv length_sort)

lemma with_source_Nil:
  assumes "with_source g nodes f is = Inr []" "i \<in> set is"
  shows "\<exists>r n. hm_get nodes i = Some r \<and> graph_node g i = Some n \<and> f i r n = []"
proof -
  obtain dss where "rmap (\<lambda>i. case (hm_get nodes i, graph_node g i) of
                        (Some r, Some n) \<Rightarrow> Inr (f i r n) | _ \<Rightarrow> Inl PlanPanic) is = Inr dss"
    "concat dss = []" using assms(1) by (auto simp: with_source_def)
  then show ?thesis using assms(2)
    by (induction "is" arbitrary: dss) (auto split: option.splits)
qed

lemma collect_capabilities_get:
  assumes "collect_capabilities cat nodes = Inr c" "r \<in> set (hm_values nodes)"
  shows "hm_get c (handler_as_str (rn_handler r)) = hm_get cat (handler_as_str (rn_handler r))"
proof -
  define f :: "resolved_node \<Rightarrow> (str \<times> bool) plan_result"
    where "f = (\<lambda>r. case hm_get cat (handler_as_str (rn_handler r)) of
      None \<Rightarrow> Inl PlanPanic | Some c \<Rightarrow> Inr (handler_as_str (rn_handler r), c))"
  obtain kvs where k: "rmap f (hm_values nodes) = Inr kvs" "c = fold (\<lambda>(k, v). hm_insert k v) kvs []"
    using assms(1) by (auto simp: collect_capabilities_def f_def)
  have in_cat: "(\<forall>(k, v) \<in> set kvs. hm_get cat k = Some v)
      \<and> (\<forall>r \<in> set rs. handler_as_str (rn_handler r) \<in> fst ` set kvs)"
    if "rmap f rs = Inr kvs" for rs kvs
    using that by (induction rs arbitrary: kvs) (auto simp: f_def split: option.splits)
  from in_cat [OF k(1)] assms(2) obtain v where v: "(handler_as_str (rn_handler r), v) \<in> set kvs" by force
  then obtain w where w: "map_of (rev kvs) (handler_as_str (rn_handler r)) = Some w"
    by (metis map_of_eq_None_iff not_None_eq fst_conv image_eqI set_rev)
  then have "(handler_as_str (rn_handler r), w) \<in> set kvs" by (auto dest: map_of_SomeD)
  with in_cat [OF k(1)] have "hm_get cat (handler_as_str (rn_handler r)) = Some w" by auto
  with k(2) w show ?thesis by (simp add: hm.get_fold_ins)
qed

section \<open>The plan's invariant\<close>

definition node_wf :: "execution_plan \<Rightarrow> str \<Rightarrow> resolved_node \<Rightarrow> bool" where
  "node_wf p i r \<longleftrightarrow>
     rn_id r = i \<and> 1 \<le> max_attempts (rn_invocation r)
     \<and> hm_get (pl_capabilities p) (handler_as_str (rn_handler r)) = Some (rn_provider r \<noteq> None)
     \<and> rn_kind r \<noteq> KFanIn \<and> rn_kind r \<noteq> KManagerLoop
     \<and> (if rn_kind r = KParallel then length (plan_outgoing p i) \<le> 1 else True)
     \<and> (rn_kind r = KStart \<longleftrightarrow> i = pl_start p)
     \<and> (rn_kind r = KExit \<longleftrightarrow> pl_exits p = [i])"

definition plan_wf :: "execution_plan \<Rightarrow> bool" where
  "plan_wf p \<longleftrightarrow>
     graph_ok (pl_graph p) \<and> set (hm_keys (pl_nodes p)) = set (hm_keys (pg_nodes (pl_graph p)))
     \<and> (\<forall>i r. plan_node p i = Some r \<longrightarrow> node_wf p i r)
     \<and> plan_node p (pl_start p) \<noteq> None
     \<and> (\<exists>e. pl_exits p = [e] \<and> plan_node p e \<noteq> None)"

lemma topology_diags_Nil:
  "topology_diags g i r = [] \<Longrightarrow>
     rn_kind r \<noteq> KFanIn \<and> (rn_kind r = KParallel \<longrightarrow> length (outgoing_edges g i) \<le> 1)"
  by (auto simp: topology_diags_def Let_def split: node_kind.splits if_splits)

lemma capability_diags_Nil: "capability_diags fmt i r n = [] \<Longrightarrow> rn_kind r \<noteq> KManagerLoop"
  by (auto simp: capability_diags_def split: if_splits)

lemma cardinality_diags_Nil: "cardinality_diags s e = [] \<Longrightarrow> length s = 1 \<and> length e = 1"
  by (auto simp: cardinality_diags_def split: if_splits simp flip: length_greater_0_conv)

lemma sort_singleton: "length xs = 1 \<Longrightarrow> sort xs = xs"
  by (cases xs) auto

lemma filter_singleton: "filter P xs = [x] \<Longrightarrow> y \<in> set xs \<Longrightarrow> P y \<longleftrightarrow> y = x"
  by (metis (mono_tags, lifting) mem_Collect_eq set_filter list.set_intros(1) empty_set list.simps(15) singletonD)

lemma compile_establishes_plan_wf:
  assumes "graph_ok g0" "compile_with_policy fmt fmt2 b g0 cat policy = Inr (p, defaulted)"
  shows "plan_wf p \<and> same_skeleton g0 (pl_graph p)"
proof -
  obtain g1 d1 where 1: "normalize_aliases g0 = (g1, d1)" by (metis surj_pair)
  obtain g d2 z where 2: "run_transforms fmt fmt2 g1 (validate_semantic_attribute_types fmt g0 @ d1) = Inr (g, d2)"
    "resolve_all fmt b cat policy g (sort (map pn_id (all_nodes g)))
       (resolution_init (d2 @ validate_unsupported_attributes g)) = Inr z"
    and rest: "validate_supported_execution_capabilities fmt g (rz_nodes z) = Inr []"
    "validate_supported_execution_topology g (rz_nodes z) = []" "rz_diags z = []"
    "cardinality_diags (sort (rz_starts z)) (sort (rz_exits z)) = []"
    and p: "\<exists>ns hs. insert_defaults defaulted (rz_nodes z) (pg_nodes g) = Inr ns
       \<and> collect_capabilities cat (rz_nodes z) = Inr hs
       \<and> p = \<lparr>pl_graph = g\<lparr>pg_nodes := ns\<rparr>, pl_nodes = rz_nodes z, pl_capabilities = hs,
              pl_start = last (sort (rz_starts z)), pl_exits = sort (rz_exits z)\<rparr>"
    using assms(2) 1
    by (auto simp: compile_with_policy_def Let_def sort_diagnostics_def split: if_splits)
  from p obtain ns hs where ns: "insert_defaults defaulted (rz_nodes z) (pg_nodes g) = Inr ns"
    and hs: "collect_capabilities cat (rz_nodes z) = Inr hs"
    and p: "p = \<lparr>pl_graph = g\<lparr>pg_nodes := ns\<rparr>, pl_nodes = rz_nodes z, pl_capabilities = hs,
              pl_start = last (sort (rz_starts z)), pl_exits = sort (rz_exits z)\<rparr>" by blast
  have skel: "same_skeleton g0 g"
    using normalize_aliases_skeleton [OF assms(1) 1] run_transforms_skeleton [OF _ 2(1)]
      same_skeleton_trans same_skeleton_def by blast
  then have gok: "graph_ok g" by (simp add: same_skeleton_def)
  have skel': "same_skeleton g (pl_graph p)"
    using insert_defaults_shape [OF ns] gok by (simp add: p same_skeleton_def graph_ok_def hm_wf_def hm_keys_def)
  define ids where "ids = sort (hm_keys (pg_nodes g))"
  let ?\<rho> = "resolved_at fmt b cat policy g"
  have all: "resolve_all fmt b cat policy g ids (resolution_init (d2 @ validate_unsupported_attributes g)) = Inr z"
    using 2(2) graph_ok_ids [OF gok] by (simp add: ids_def)
  note ok = resolve_all_ok [OF all rest(3)]
  have get: "hm_get (rz_nodes z) i = (if i \<in> set ids then Some (?\<rho> i) else None)" for i
    using ok by (simp add: hm_get_fold_keys resolution_init_def)
  have len: "length (rz_starts z) = 1" "length (rz_exits z) = 1"
    using cardinality_diags_Nil [OF rest(4)] by simp_all
  then obtain s e where se: "rz_starts z = [s]" "rz_exits z = [e]"
    by (auto simp: length_Suc_conv)
  have starts: "filter (\<lambda>i. rn_kind (?\<rho> i) = KStart) ids = [s]"
    and exits: "filter (\<lambda>i. rn_kind (?\<rho> i) = KExit) ids = [e]"
    using ok se by (simp_all add: resolution_init_def)
  have "s \<in> set ids" "e \<in> set ids" using starts exits by (metis (mono_tags, lifting) mem_Collect_eq set_filter list.set_intros(1))+
  have wf: "node_wf p i r" if "plan_node p i = Some r" for i r
  proof -
    have i: "i \<in> set ids" "r = ?\<rho> i" "hm_get (rz_nodes z) i = Some r"
      using that get by (auto simp: plan_node_def p split: if_splits)
    then obtain n d where n: "graph_node g i = Some n" "resolve_node fmt b cat policy n = Inr (r, d)"
      using ok by (fastforce simp: resolved_of_def resolved_at_def split: option.splits sum.splits)
    have "i \<in> set (sort (hm_keys (rz_nodes z)))" using i(3) by (simp add: hm_keys_set)
    from with_source_Nil [OF rest(1) [unfolded validate_supported_execution_capabilities_def] this] i(3)
    have k1: "rn_kind r \<noteq> KManagerLoop" using capability_diags_Nil by fastforce
    have "topology_diags g i r = []"
      using rest(2) i(3) hm_keys_set [of "rz_nodes z"]
      by (auto simp: validate_supported_execution_topology_def)
    note k2 = topology_diags_Nil [OF this]
    have "r \<in> set (hm_values (rz_nodes z))"
      using i(3) by (force simp: hm_values_def dest: hm_get_in_set)
    note cap = collect_capabilities_get [OF hs this]
    from resolve_node_Inr [OF n(2)] obtain role ivp c where
      r: "resolve_invocation_policy fmt b n = Inr ivp" "rn_invocation r = ivp"
      "hm_get cat (handler_as_str (rn_handler r)) = Some c"
      "resolve_provider policy c (rn_handler r) n = Inr (rn_provider r, d)" "rn_id r = pn_id n"
      by metis
    have "plan_outgoing p i = outgoing_edges g i"
      using same_skeleton_outgoing [OF skel'] by (simp add: plan_outgoing_def)
    moreover have "rn_kind r = KStart \<longleftrightarrow> i = s" "rn_kind r = KExit \<longleftrightarrow> i = e"
      using filter_singleton [OF starts i(1)] filter_singleton [OF exits i(1)] i(2) by auto
    ultimately show ?thesis
      using k1 k2 cap r resolve_provider_Inr [OF r(4)] resolve_invocation_policy_Inr [OF r(1)]
        graph_ok_get [OF gok n(1)] se
      by (auto simp: node_wf_def p)
  qed
  have keys: "set (hm_keys (rz_nodes z)) = set (hm_keys (pg_nodes g))"
    using get by (auto simp: hm_keys_set [of "rz_nodes z"] ids_def split: if_splits)
  have "plan_wf p"
    using wf skel' keys se get \<open>s \<in> set ids\<close> \<open>e \<in> set ids\<close>
    by (auto simp: plan_wf_def p plan_node_def same_skeleton_def)
  then show ?thesis using same_skeleton_trans [OF skel skel'] by blast
qed

section \<open>From the syntax tree to a well-formed plan\<close>

lemma fold_nodes_ids:
  "list_all (\<lambda>(k, n). pn_id n = k) m \<Longrightarrow>
   list_all (\<lambda>(k, n). pn_id n = k)
     (fold (\<lambda>(n, d). hm_insert n (node_def_to_pipeline_node n d gd sd)) ns m)"
proof (induction ns arbitrary: m)
  case (Cons x ns)
  obtain n d where x: "x = (n, d)" by (cases x)
  have "pn_id (node_def_to_pipeline_node n d gd sd) = n"
    by (simp add: node_def_to_pipeline_node_def Let_def)
  then have "list_all (\<lambda>(k, n). pn_id n = k) (hm_insert n (node_def_to_pipeline_node n d gd sd) m)"
    using fold_insert_ids [OF Cons.prems, of "\<lambda>_. node_def_to_pipeline_node n d gd sd" "\<lambda>_. n" "[()]"]
    by simp
  with Cons.IH x show ?case by simp
qed simp

lemma from_dot_ok: "graph_ok (from_dot g)"
proof -
  have "list_all (\<lambda>(k, n). pn_id n = k)
      (fold (\<lambda>sg m. fold (\<lambda>(n, d). hm_insert n
            (node_def_to_pipeline_node n d gd (Some (sg_node_defaults sg)))) (sg_nodes sg) m) sgs m)"
    if "list_all (\<lambda>(k, n). pn_id n = k) m" for gd m and sgs :: "subgraph_def list"
    using that by (induction sgs arbitrary: m) (auto intro: fold_nodes_ids)
  from this [OF fold_nodes_ids] have "list_all (\<lambda>(k, n). pn_id n = k) (collect_nodes g)"
    by (simp add: collect_nodes_def)
  then show ?thesis using wf_collect_nodes [of g] by (simp add: graph_ok_def from_dot_def Let_def)
qed

lemma same_skeleton_indexed: "same_skeleton g h \<Longrightarrow> graph_indexed g \<Longrightarrow> graph_indexed h"
  by (simp add: same_skeleton_def graph_indexed_def)

text \<open>
  Property C34. Compilation establishes the plan's invariant, for every DOT graph, catalog and
  provider policy: every node of the graph is resolved under its own id, with an attempt
  budget of at least one, a provider exactly when the recorded capability of its handler
  demands one, and no fan-in, manager loop or branching parallel node; exactly one node is
  the start and exactly one is the exit; and the nodes and edges are those of the source.
\<close>

theorem compiled_graph_is_wf:
  assumes "compile_with_policy fmt fmt2 b (from_dot g) cat policy = Inr (p, defaulted)"
  shows "plan_wf p \<and> hm_keys (pg_nodes (pl_graph p)) = hm_keys (pg_nodes (from_dot g))
    \<and> plan_outgoing p i = filter (\<lambda>e. pe_from e = i) (collect_edges g)"
proof -
  from compile_establishes_plan_wf [OF from_dot_ok assms]
  have wf: "plan_wf p" and s: "same_skeleton (from_dot g) (pl_graph p)" by simp_all
  have "outgoing_edges (pl_graph p) i = filter (\<lambda>e. pe_from e = i) (pg_edges (from_dot g))"
    using same_skeleton_outgoing [OF s] indexed_outgoing [OF from_dot_indexed] by simp
  then show ?thesis
    using wf s by (simp add: same_skeleton_def plan_outgoing_def from_dot_def Let_def sort_key_stable)
qed

definition compile_example :: "str option \<Rightarrow> dot_graph" where
  "compile_example l = digraph_of ''g''
     [NodeStmt ''s'' [(''shape'', AString ''Mdiamond'')], NodeStmt ''e'' [(''shape'', AString ''Msquare'')],
      EdgeStmt [''s'', ''e''] (case l of Some t \<Rightarrow> [(''label'', AString t)] | None \<Rightarrow> [])]"

definition compiled_example :: "str option \<Rightarrow> execution_plan" where
  "compiled_example l =
     fst (projr (compile_with_policy (\<lambda>_. []) (\<lambda>_. []) Release (from_dot (compile_example l))
       builtin_handler_catalog Reject))"

lemma compile_example_ok:
  "compile_with_policy (\<lambda>_. []) (\<lambda>_. []) Release (from_dot (compile_example None))
     builtin_handler_catalog Reject = Inr (compiled_example None, [])"
  "compile_with_policy (\<lambda>_. []) (\<lambda>_. []) Release (from_dot (compile_example (Some ''-'')))
     builtin_handler_catalog Reject = Inr (compiled_example (Some ''-''), [])"
  by code_simp+

theorem compiled_graph_is_wf_witness:
  "plan_wf (compiled_example None)
    \<and> hm_keys (pg_nodes (pl_graph (compiled_example None))) = hm_keys (pg_nodes (from_dot (compile_example None)))
    \<and> plan_outgoing (compiled_example None) ''s'' =
        filter (\<lambda>e. pe_from e = ''s'') (collect_edges (compile_example None))"
  by (rule compiled_graph_is_wf [OF compile_example_ok(1)])

section \<open>Exits\<close>

lemma bsearch_iff:
  "sorted xs \<Longrightarrow> hi \<le> length xs \<Longrightarrow> bsearch xs k lo hi \<longleftrightarrow> (\<exists>j. lo \<le> j \<and> j < hi \<and> xs ! j = k)"
proof (induction xs k lo hi rule: bsearch.induct)
  case (1 xs k lo hi)
  define mid where "mid = lo + (hi - lo) div 2"
  have eq: "bsearch xs k lo hi = (if hi \<le> lo then False else if xs ! mid = k then True
      else if xs ! mid < k then bsearch xs k (mid + 1) hi else bsearch xs k lo mid)"
    by (subst bsearch.simps) (simp add: mid_def Let_def)
  show ?case
  proof (cases "hi \<le> lo")
    case True
    then show ?thesis using eq by auto
  next
    case False
    then have mid: "lo \<le> mid" "mid < hi" by (auto simp: mid_def)
    have mono: "xs ! j \<le> xs ! l" if "j \<le> l" "l < hi" for j l
      using "1.prems" that by (simp add: sorted_nth_mono)
    consider "xs ! mid = k" | "xs ! mid < k" | "k < xs ! mid" by fastforce
    then show ?thesis
    proof cases
      case 1
      then show ?thesis using eq mid False by auto
    next
      case 2
      then have "bsearch xs k lo hi \<longleftrightarrow> (\<exists>j. mid + 1 \<le> j \<and> j < hi \<and> xs ! j = k)"
        using eq False "1.IH"(1) [OF False mid_def] "1.prems" by auto
      also have "\<dots> \<longleftrightarrow> (\<exists>j. lo \<le> j \<and> j < hi \<and> xs ! j = k)"
        using 2 mid mono by (metis Suc_eq_plus1 le_trans leD not_less_eq_eq le_SucI)
      finally show ?thesis .
    next
      case 3
      then have "bsearch xs k lo hi \<longleftrightarrow> (\<exists>j. lo \<le> j \<and> j < mid \<and> xs ! j = k)"
        using eq False mid "1.IH"(2) [OF False mid_def] "1.prems" by auto
      also have "\<dots> \<longleftrightarrow> (\<exists>j. lo \<le> j \<and> j < hi \<and> xs ! j = k)"
        using 3 mid mono by (metis leD leI less_trans)
      finally show ?thesis .
    qed
  qed
qed

lemma is_exit_iff: "sorted (pl_exits p) \<Longrightarrow> is_exit p i \<longleftrightarrow> i \<in> set (pl_exits p)"
  by (auto simp: is_exit_def bsearch_iff in_set_conv_nth)

lemma plan_wf_is_exit: "plan_wf p \<Longrightarrow> plan_node p i = Some r \<Longrightarrow> is_exit p i \<longleftrightarrow> rn_kind r = KExit"
  unfolding plan_wf_def using is_exit_iff [of p i] by (fastforce simp: node_wf_def)

section \<open>Fingerprint\<close>

fun kind_debug :: "node_kind \<Rightarrow> str" where
  "kind_debug KStart = ''Start''"
| "kind_debug KExit = ''Exit''"
| "kind_debug KTask = ''Task''"
| "kind_debug (KConditional l) = ''Conditional { llm_backed: '' @ (if l then ''true'' else ''false'') @ '' }''"
| "kind_debug KHumanGate = ''HumanGate''"
| "kind_debug KTool = ''Tool''"
| "kind_debug KParallel = ''Parallel''"
| "kind_debug KFanIn = ''FanIn''"
| "kind_debug KManagerLoop = ''ManagerLoop''"
| "kind_debug KQuality = ''Quality''"
| "kind_debug KCustom = ''Custom''"

definition show_bool :: "bool \<Rightarrow> str" where
  "show_bool b = (if b then ''true'' else ''false'')"

definition or_dash :: "str option \<Rightarrow> str" where
  "or_dash x = (case x of Some s \<Rightarrow> s | None \<Rightarrow> ''-'')"

definition node_canonical :: "resolved_node \<Rightarrow> str" where
  "node_canonical r =
     ''node:'' @ rn_id r @ ''|kind:'' @ kind_debug (rn_kind r) @ ''|handler:'' @ handler_as_str (rn_handler r)
     @ ''|provider:'' @ or_dash (map_option provider_as_str (rn_provider r))
     @ ''|attempts:'' @ show_nat (max_attempts (rn_invocation r))
     @ ''|timeout:'' @ or_dash (map_option show_nat (ip_timeout (rn_invocation r))) @ '';''"

definition edge_canonical :: "pipeline_edge \<Rightarrow> str" where
  "edge_canonical e =
     ''edge:'' @ pe_from e @ ''->'' @ pe_to e @ ''|label:'' @ or_dash (pe_label e)
     @ ''|condition:'' @ or_dash (pe_condition e) @ ''|weight:'' @ show_int (pe_weight e)
     @ ''|loop_restart:'' @ show_bool (pe_loop_restart e)
     @ ''|reset_quality:'' @ show_bool (pe_reset_quality e) @ '';''"

definition plan_canonical :: "execution_plan \<Rightarrow> str" where
  "plan_canonical p =
     ''start:'' @ pl_start p @ '';''
     @ concat (map (\<lambda>e. ''exit:'' @ e @ '';'') (pl_exits p))
     @ concat (map (\<lambda>i. case hm_get (pl_nodes p) i of Some r \<Rightarrow> node_canonical r | None \<Rightarrow> [])
         (sort (hm_keys (pl_nodes p))))
     @ concat (map edge_canonical (sort_key (\<lambda>e. (pe_from e, pe_to e)) (pg_edges (pl_graph p))))"

text \<open>\<open>hash\<close> is the hexadecimal BLAKE3 digest of the \<open>blake3\<close> package.\<close>

definition plan_fingerprint :: "(str \<Rightarrow> str) \<Rightarrow> execution_plan \<Rightarrow> str" where
  "plan_fingerprint hash p = hash (plan_canonical p)"

text \<open>
  The fingerprint is deterministic: two plans with the same start, exits, edges and
  resolved nodes have the same fingerprint, whatever order their hash maps iterate in.
\<close>

theorem fingerprint_deterministic:
  assumes "hm_wf (pl_nodes p)" "hm_wf (pl_nodes q)" "\<And>i. plan_node p i = plan_node q i"
    "pl_start p = pl_start q" "pl_exits p = pl_exits q"
    "pg_edges (pl_graph p) = pg_edges (pl_graph q)"
  shows "plan_fingerprint hash p = plan_fingerprint hash q"
proof -
  have "set (hm_keys (pl_nodes p)) = set (hm_keys (pl_nodes q))"
    using assms(3) by (auto simp: hm_keys_set plan_node_def)
  then have "sort (hm_keys (pl_nodes p)) = sort (hm_keys (pl_nodes q))"
    using assms(1,2) by (metis hm_keys_def hm_wf_def sorted_list_of_set_sort_remdups distinct_remdups_id)
  moreover have "hm_get (pl_nodes p) i = hm_get (pl_nodes q) i" for i
    using assms(3) by (simp add: plan_node_def)
  ultimately show ?thesis using assms(4-6) by (simp add: plan_fingerprint_def plan_canonical_def)
qed

theorem fingerprint_deterministic_witness:
  "plan_fingerprint id (compiled_example None)
     = plan_fingerprint id ((compiled_example None)\<lparr>pl_nodes := rev (pl_nodes (compiled_example None))\<rparr>)"
proof (rule fingerprint_deterministic)
  show wf: "hm_wf (pl_nodes (compiled_example None))" by code_simp
  show "hm_wf (pl_nodes ((compiled_example None)\<lparr>pl_nodes := rev (pl_nodes (compiled_example None))\<rparr>))"
    using wf by (simp add: hm_wf_def rev_map [symmetric])
  show "plan_node (compiled_example None) i
      = plan_node ((compiled_example None)\<lparr>pl_nodes := rev (pl_nodes (compiled_example None))\<rparr>) i" for i
    using map_of_rev_wf [OF wf, of i] by (simp add: plan_node_def hm_get_def)
qed simp_all

text \<open>
  Different execution semantics can share a fingerprint, against the documentation
  (\<open>only when ... every edge carries the same ... label\<close>): a graph whose edge has the label
  "-" compiles to a plan with the same fingerprint as the graph whose edge has no label.
\<close>

theorem fingerprint_collision:
  "plan_fingerprint hash (compiled_example None) = plan_fingerprint hash (compiled_example (Some ''-''))
   \<and> map pe_label (plan_outgoing (compiled_example None) ''s'') = [None]
   \<and> map pe_label (plan_outgoing (compiled_example (Some ''-'')) ''s'') = [Some ''-'']"
proof (intro conjI)
  have "plan_canonical (compiled_example None) = plan_canonical (compiled_example (Some ''-''))"
    by code_simp
  then show "plan_fingerprint hash (compiled_example None) = plan_fingerprint hash (compiled_example (Some ''-''))"
    by (simp add: plan_fingerprint_def)
qed code_simp+

section \<open>Registry check\<close>

definition registry_diag :: "catalog \<Rightarrow> execution_plan \<Rightarrow> resolved_node \<Rightarrow> diagnostic list plan_result" where
  "registry_diag actual p r =
     (let h = handler_as_str (rn_handler r)
      in case hm_get (pl_capabilities p) h of
           None \<Rightarrow> Inl PlanPanic
         | Some expected \<Rightarrow>
             Inr (case hm_get actual h of
                    None \<Rightarrow> [\<lparr>sd_kind = UnknownHandler, sd_node = Some (rn_id r),
                       sd_message = ''Node '' @ sq (rn_id r) @ '' requires handler '' @ sq h
                         @ '' but the executor has not registered it'',
                       sd_fix = ''Register handler '' @ sq h @ '' before executing this plan''\<rparr>]
                  | Some a \<Rightarrow>
                      if a \<noteq> expected
                      then [\<lparr>sd_kind = HandlerCapabilityMismatch, sd_node = Some (rn_id r),
                         sd_message = ''Node '' @ sq (rn_id r) @ '' compiled handler '' @ sq h
                           @ '' with provider capability '' @ show_bool expected
                           @ '' but the executor registered capability '' @ show_bool a,
                         sd_fix = ''Recompile the plan with the executor'' @ [CHR 0x27] @ ''s handler registry''\<rparr>]
                      else []))"

definition ensure_registry_compatible :: "execution_plan \<Rightarrow> catalog \<Rightarrow> unit plan_result" where
  "ensure_registry_compatible p actual =
     rbind (rmap (\<lambda>i. case hm_get (pl_nodes p) i of None \<Rightarrow> Inl PlanPanic | Some r \<Rightarrow> registry_diag actual p r)
              (sort (hm_keys (pl_nodes p))))
       (\<lambda>dss. if concat dss = [] then Inr () else Inl (Rejected (concat dss)))"

lemma rmap_concat_Nil:
  "(\<exists>dss. rmap f xs = Inr dss \<and> concat dss = []) \<longleftrightarrow> (\<forall>x \<in> set xs. f x = Inr [])"
proof (induction xs)
  case (Cons x xs)
  have "(\<exists>dss. rmap f (x # xs) = Inr dss \<and> concat dss = []) \<longleftrightarrow>
      (\<exists>d dss. f x = Inr d \<and> rmap f xs = Inr dss \<and> d = [] \<and> concat dss = [])" by auto
  with Cons.IH show ?case by auto
qed simp

lemma registry_check_iff:
  assumes "plan_wf p"
  shows "ensure_registry_compatible p actual = Inr () \<longleftrightarrow>
    list_all (\<lambda>i. case plan_node p i of None \<Rightarrow> True
       | Some r \<Rightarrow> hm_get actual (handler_as_str (rn_handler r)) = Some (rn_provider r \<noteq> None))
     (hm_keys (pl_nodes p))"
proof -
  have "ensure_registry_compatible p actual = Inr () \<longleftrightarrow>
    (\<forall>i \<in> set (hm_keys (pl_nodes p)).
       (case hm_get (pl_nodes p) i of None \<Rightarrow> Inl PlanPanic | Some r \<Rightarrow> registry_diag actual p r) = Inr [])"
    using rmap_concat_Nil [of "\<lambda>i. case hm_get (pl_nodes p) i of None \<Rightarrow> Inl PlanPanic
        | Some r \<Rightarrow> registry_diag actual p r" "sort (hm_keys (pl_nodes p))"]
    by (auto simp: ensure_registry_compatible_def split: if_splits)
  also have "\<dots> \<longleftrightarrow> (\<forall>i \<in> set (hm_keys (pl_nodes p)). case plan_node p i of None \<Rightarrow> True
       | Some r \<Rightarrow> hm_get actual (handler_as_str (rn_handler r)) = Some (rn_provider r \<noteq> None))"
  proof (rule ball_cong [OF refl])
    fix i assume "i \<in> set (hm_keys (pl_nodes p))"
    then obtain r where r: "hm_get (pl_nodes p) i = Some r" by (auto simp: hm_keys_set)
    with assms have "node_wf p i r" by (simp add: plan_wf_def plan_node_def)
    then have "hm_get (pl_capabilities p) (handler_as_str (rn_handler r)) = Some (rn_provider r \<noteq> None)"
      by (simp add: node_wf_def)
    with r show "((case hm_get (pl_nodes p) i of None \<Rightarrow> Inl PlanPanic | Some r \<Rightarrow> registry_diag actual p r) = Inr [])
      \<longleftrightarrow> (case plan_node p i of None \<Rightarrow> True
       | Some r \<Rightarrow> hm_get actual (handler_as_str (rn_handler r)) = Some (rn_provider r \<noteq> None))"
      by (auto simp: registry_diag_def plan_node_def Let_def split: option.splits)
  qed
  finally show ?thesis by (simp add: list_all_iff)
qed

text \<open>
  The registry check is exact: a well-formed plan is accepted by an executor exactly
  when the executor registers every node's handler with the capability that decided, at
  compile time, whether the node has a provider.
\<close>

theorem registry_check_exact:
  assumes "plan_wf p"
  shows "ensure_registry_compatible p actual = Inr () \<longleftrightarrow>
    list_all (\<lambda>i. case plan_node p i of None \<Rightarrow> True
       | Some r \<Rightarrow> hm_get actual (handler_as_str (rn_handler r)) = Some (rn_provider r \<noteq> None))
     (hm_keys (pl_nodes p))"
  using assms by (rule registry_check_iff)

theorem registry_check_exact_witness:
  "ensure_registry_compatible (compiled_example None) builtin_handler_catalog = Inr () \<longleftrightarrow>
    list_all (\<lambda>i. case plan_node (compiled_example None) i of None \<Rightarrow> True
       | Some r \<Rightarrow> hm_get builtin_handler_catalog (handler_as_str (rn_handler r)) = Some (rn_provider r \<noteq> None))
     (hm_keys (pl_nodes (compiled_example None)))"
  by (rule registry_check_exact)
     (use compile_establishes_plan_wf [OF from_dot_ok compile_example_ok(1)] in blast)

end
