(* ===== verification/Goal_Gate.thy ===== *)
theory Goal_Gate
  imports Graph
begin

text \<open>
  Goal gates (\<open>crates/attractor-pipeline/src/goal_gate.rs\<close>) and the retry delay
  (\<open>retry.rs\<close>). The outcomes are a hash map, so the gates are looked at in the order of the
  list that stands for it.
\<close>

record goal_gate_result =
  all_satisfied :: bool
  failed_node_id :: "str option"
  gg_retry_target :: "str option"

definition status_satisfied :: "stage_status \<Rightarrow> bool" where
  "status_satisfied s \<longleftrightarrow> s = Success \<or> s = PartialSuccess"

definition resolve_retry_target :: "pipeline_node \<Rightarrow> pipeline_graph \<Rightarrow> str option" where
  "resolve_retry_target node g =
     or_else (pn_retry_target node)
       (or_else (pn_fallback_retry_target node)
         (or_else (get_string_attr (pg_attrs g) ''retry_target'')
           (get_string_attr (pg_attrs g) ''fallback_retry_target'')))"

fun check_gates :: "pipeline_graph \<Rightarrow> outcome hmap \<Rightarrow> goal_gate_result" where
  "check_gates g [] = \<lparr>all_satisfied = True, failed_node_id = None, gg_retry_target = None\<rparr>"
| "check_gates g ((n, out) # r) =
     (case graph_node g n of
        Some node \<Rightarrow>
          (if pn_goal_gate node \<and> \<not> status_satisfied (status out)
           then \<lparr>all_satisfied = False, failed_node_id = Some n,
                 gg_retry_target = resolve_retry_target node g\<rparr>
           else check_gates g r)
      | None \<Rightarrow> check_gates g r)"

definition check_goal_gates :: "pipeline_graph \<Rightarrow> outcome hmap \<Rightarrow> goal_gate_result" where
  "check_goal_gates = check_gates"

definition enforce_goal_gates :: "pipeline_graph \<Rightarrow> outcome hmap \<Rightarrow> goal_gate_result result" where
  "enforce_goal_gates g outs =
     (let r = check_goal_gates g outs
      in if \<not> all_satisfied r \<and> gg_retry_target r = None
         then Inl (GoalGateUnsatisfied (case failed_node_id r of Some n \<Rightarrow> n | None \<Rightarrow> []))
         else Inr r)"

definition gate_open :: "pipeline_graph \<Rightarrow> outcome hmap \<Rightarrow> str \<Rightarrow> bool" where
  "gate_open g outs n \<longleftrightarrow>
     (\<exists>out node. hm_get outs n = Some out \<and> graph_node g n = Some node \<and> pn_goal_gate node
        \<and> \<not> status_satisfied (status out))"

lemma check_gates_satisfied:
  "all_satisfied (check_gates g outs) \<longleftrightarrow>
     (\<forall>(n, out) \<in> set outs. \<forall>node. graph_node g n = Some node \<longrightarrow> pn_goal_gate node \<longrightarrow>
        status_satisfied (status out))"
  by (induction g outs rule: check_gates.induct) (auto split: option.splits)

lemma check_gates_failed:
  "\<not> all_satisfied (check_gates g outs) \<Longrightarrow>
   \<exists>n out node. (n, out) \<in> set outs \<and> graph_node g n = Some node \<and> pn_goal_gate node
     \<and> \<not> status_satisfied (status out) \<and> failed_node_id (check_gates g outs) = Some n
     \<and> gg_retry_target (check_gates g outs) = resolve_retry_target node g"
proof (induction g outs rule: check_gates.induct)
  case (2 g n out r)
  show ?case
  proof (cases "graph_node g n")
    case None
    with 2 show ?thesis by simp blast
  next
    case (Some node)
    show ?thesis
    proof (cases "pn_goal_gate node \<and> \<not> status_satisfied (status out)")
      case True
      with Some show ?thesis by fastforce
    next
      case False
      then have "check_gates g ((n, out) # r) = check_gates g r" using Some by auto
      with 2(2) [OF Some False] 2(3) show ?thesis by (metis list.set_intros(2))
    qed
  qed
qed simp

text \<open>
  Property C36. The gate check is exact: it passes precisely when no visited goal-gate node is
  unsatisfied, whatever the iteration order of the outcome map; when it fails, the node it
  names is such a node and the retry target is the one resolved for it.
\<close>

theorem goal_gates_exact:
  assumes "hm_wf outs"
  shows "all_satisfied (check_goal_gates g outs) = (\<nexists>n. gate_open g outs n) \<and>
    (all_satisfied (check_goal_gates g outs) \<or>
     (\<exists>n node. failed_node_id (check_goal_gates g outs) = Some n \<and> gate_open g outs n
        \<and> graph_node g n = Some node
        \<and> gg_retry_target (check_goal_gates g outs) = resolve_retry_target node g))"
proof -
  have mem: "(n, out) \<in> set outs \<longleftrightarrow> hm_get outs n = Some out" for n out
    using hm_get_wf [OF assms] .
  have "all_satisfied (check_gates g outs) = (\<nexists>n. gate_open g outs n)"
    unfolding check_gates_satisfied gate_open_def using mem by fastforce
  moreover have "\<not> all_satisfied (check_gates g outs) \<Longrightarrow>
      \<exists>n node. failed_node_id (check_gates g outs) = Some n \<and> gate_open g outs n
        \<and> graph_node g n = Some node
        \<and> gg_retry_target (check_gates g outs) = resolve_retry_target node g"
    using check_gates_failed [of g outs] by (auto simp: gate_open_def mem)
  ultimately show ?thesis unfolding check_goal_gates_def by blast
qed

definition gate_example :: pipeline_graph where
  "gate_example = from_dot (digraph_of ''G''
     [NodeStmt ''review'' [(''goal_gate'', ABoolean True), (''retry_target'', AString ''fix'')],
      EdgeStmt [''fix'', ''review''] []])"

theorem goal_gates_exact_witness:
  "hm_wf [(''review'', outcome_fail ''no'')] \<and>
   \<not> all_satisfied (check_goal_gates gate_example [(''review'', outcome_fail ''no'')]) \<and>
   gate_open gate_example [(''review'', outcome_fail ''no'')] ''review''"
proof -
  let ?o = "[(''review'', outcome_fail ''no'')]"
  have wf: "hm_wf ?o" by (simp add: hm_wf_def)
  have n: "\<not> all_satisfied (check_goal_gates gate_example ?o)"
    "failed_node_id (check_goal_gates gate_example ?o) = Some ''review''" by code_simp+
  then show ?thesis using goal_gates_exact [OF wf, of gate_example] wf by auto
qed

lemma enforce_goal_gates_Inr:
  "enforce_goal_gates g outs = Inr r \<Longrightarrow>
     r = check_goal_gates g outs \<and> (all_satisfied r \<or> gg_retry_target r \<noteq> None)"
  by (auto simp: enforce_goal_gates_def Let_def split: if_splits)

text \<open>A failed gate's retry target is one the node or the graph names.\<close>

lemma resolve_retry_target_from:
  "resolve_retry_target node g = Some t \<Longrightarrow>
     t \<in> set_option (pn_retry_target node) \<union> set_option (pn_fallback_retry_target node)
       \<union> set_option (get_string_attr (pg_attrs g) ''retry_target'')
       \<union> set_option (get_string_attr (pg_attrs g) ''fallback_retry_target'')"
  by (auto simp: resolve_retry_target_def or_else_Some)

section \<open>Retry delay\<close>

text \<open>
  \<open>usize\<close> to \<open>u32\<close> with a cap, a checked shift of a \<open>u64\<close> (none from 64 bits on), a
  saturating product, and the cap of thirty seconds; in milliseconds.
\<close>

definition retry_delay :: "nat \<Rightarrow> nat" where
  "retry_delay attempt =
     (let shift = (if attempt \<le> u32_max then attempt else u32_max);
          multiplier = (if shift < 64 then 2 ^ shift else u64_max);
          millis = min u64_max (500 * multiplier)
      in min millis 30000)"

text \<open>
  The conversions, the shift and the product saturate without a visible effect:
  for every attempt number the delay is half a second doubled per attempt, capped at thirty
  seconds, and it never decreases.
\<close>

theorem retry_delay_exact:
  "retry_delay a = min (500 * 2 ^ a) 30000 \<and> retry_delay a \<le> retry_delay (a + k)"
proof -
  have u32: "u32_max = 4294967295" and u64: "u64_max = 18446744073709551615"
    by (simp_all add: u32_max_def u64_max_def)
  have exact: "retry_delay a = min (500 * 2 ^ a) 30000" for a
  proof (cases "a < 6")
    case True
    then have small: "(2::nat) ^ a \<le> 64" using power_increasing [of a 6 "2::nat"] by simp
    have "retry_delay a = min (min u64_max (500 * 2 ^ a)) 30000"
      using True by (simp add: retry_delay_def u32)
    then show ?thesis using small by (simp add: u64)
  next
    case False
    have big: "(64::nat) \<le> 2 ^ b" if "6 \<le> b" for b
      using power_increasing [of 6 b "2::nat"] that by simp
    define s where "s = (if a \<le> u32_max then a else u32_max)"
    have "6 \<le> s" using False by (auto simp: s_def u32)
    then have "64 \<le> (if s < 64 then 2 ^ s else u64_max)"
      using big [of s] by (simp add: u64)
    then have "30000 \<le> min u64_max (500 * (if s < 64 then 2 ^ s else u64_max))"
      unfolding u64 by linarith
    then have "retry_delay a = 30000"
      by (simp only: retry_delay_def Let_def s_def [symmetric] min_absorb2)
    moreover have "30000 \<le> 500 * (2::nat) ^ a" using big [of a] False by simp
    ultimately show ?thesis by simp
  qed
  have "(2::nat) ^ a \<le> 2 ^ (a + k)" by (rule power_increasing) auto
  then have "min (500 * (2::nat) ^ a) 30000 \<le> min (500 * 2 ^ (a + k)) 30000"
    by (intro min.mono) auto
  then show ?thesis by (simp only: exact)
qed

end
