(* ===== verification/Condition.thy ===== *)
theory Condition
  imports Types
begin

text \<open>
  The condition language of edges (\<open>crates/attractor-pipeline/src/condition.rs\<close>): the parser
  \<open>parse_condition\<close> and the evaluator \<open>evaluate_condition\<close>.
\<close>

datatype operator = Eq | NotEq

record clause =
  cl_key :: str
  cl_operator :: operator
  cl_value :: str

type_synonym condition_expr = "clause list"

definition cond_error :: "str \<Rightarrow> error" where
  "cond_error msg = ValidationError (''condition parse error: '' @ msg)"

text \<open>
  The scan for \<open>!=\<close> or \<open>=\<close> outside quotes: the position of the operator and its length.
\<close>

function find_op_go :: "nat \<Rightarrow> str \<Rightarrow> (nat \<times> operator \<times> nat) option" where
  "find_op_go i [] = None"
| "find_op_go i (c # s) =
     (if c = CHR 0x22 \<or> c = CHR 0x27
      then find_op_go (i + 2 + length (takeWhile (\<lambda>d. d \<noteq> c) s)) (drop 1 (dropWhile (\<lambda>d. d \<noteq> c) s))
      else if c = CHR ''!'' \<and> s \<noteq> [] \<and> hd s = CHR ''='' then Some (i, NotEq, 2)
      else if c = CHR ''='' then Some (i, Eq, 1)
      else find_op_go (i + 1) s)"
  by pat_completeness auto
termination
proof (relation "measure (\<lambda>(i, s). length s)", goal_cases)
  case (2 i c s)
  have "length (dropWhile (\<lambda>d. d \<noteq> c) s) \<le> length s" by (rule length_dropWhile_le)
  then show ?case by simp
qed auto

definition find_operator :: "str \<Rightarrow> (nat \<times> operator \<times> nat) result" where
  "find_operator input =
     (case find_op_go 0 input of
        Some r \<Rightarrow> Inr r
      | None \<Rightarrow> Inl (cond_error (''no operator found in '' @ sq input)))"

definition strip_quotes :: "str \<Rightarrow> str" where
  "strip_quotes s =
     (if length s \<ge> 2 \<and> (hd s = CHR 0x22 \<and> last s = CHR 0x22 \<or> hd s = CHR 0x27 \<and> last s = CHR 0x27)
      then butlast (tl s) else s)"

definition key_char :: "char \<Rightarrow> bool" where
  "key_char c \<longleftrightarrow> is_alnum c \<or> c = CHR ''_''"

definition bad_segment :: "str \<Rightarrow> bool" where
  "bad_segment seg \<longleftrightarrow> seg = [] \<or> \<not> list_all key_char seg"

definition parse_clause :: "str \<Rightarrow> clause result" where
  "parse_clause input0 =
     (let input = trim input0
      in if input = [] then Inl (cond_error ''empty clause'')
         else rbind (find_operator input) (\<lambda>(key_end, operator, op_len).
           let key = trim (take key_end input)
           in if key = [] then Inl (cond_error ''missing key before operator'')
              else case List.find bad_segment (split_on ''.'' key) of
                Some seg \<Rightarrow> Inl (cond_error (''invalid key segment: '' @ sq seg))
              | None \<Rightarrow>
                  (let raw_value = trim (drop (key_end + op_len) input)
                   in if raw_value = []
                      then Inl (cond_error (''missing value after operator in '' @ sq input))
                      else Inr \<lparr>cl_key = key, cl_operator = operator,
                                cl_value = strip_quotes raw_value\<rparr>)))"

definition parse_condition :: "str \<Rightarrow> condition_expr result" where
  "parse_condition input =
     (let trimmed = trim input
      in if trimmed = [] then Inr []
         else rmap (\<lambda>part. parse_clause (trim part)) (split_on ''&&'' trimmed))"

definition eval_clause :: "(str \<Rightarrow> str) \<Rightarrow> clause \<Rightarrow> bool" where
  "eval_clause resolve c =
     (case cl_operator c of
        Eq \<Rightarrow> resolve (cl_key c) = cl_value c
      | NotEq \<Rightarrow> resolve (cl_key c) \<noteq> cl_value c)"

definition evaluate_condition :: "condition_expr \<Rightarrow> (str \<Rightarrow> str) \<Rightarrow> bool" where
  "evaluate_condition e resolve = (if e = [] then True else list_all (eval_clause resolve) e)"

section \<open>Canonical texts\<close>

text \<open>
  The canonical text of a clause, and the clauses the language can express that way: a dotted
  key, and an ASCII value without \<open>&\<close> or quotes that neither begins nor ends with white space
  nor begins with \<open>=\<close>.
\<close>

definition show_operator :: "operator \<Rightarrow> str" where
  "show_operator o1 = (case o1 of Eq \<Rightarrow> ''='' | NotEq \<Rightarrow> ''!='')"

definition show_clause :: "clause \<Rightarrow> str" where
  "show_clause c = cl_key c @ show_operator (cl_operator c) @ cl_value c"

definition plain_value :: "str \<Rightarrow> bool" where
  "plain_value v \<longleftrightarrow> v \<noteq> [] \<and> ascii_text v \<and> \<not> ascii_ws (hd v) \<and> \<not> ascii_ws (last v)
     \<and> list_all (\<lambda>c. c \<notin> {CHR ''&'', CHR 0x22, CHR 0x27}) v"

definition plain_clause :: "clause \<Rightarrow> bool" where
  "plain_clause c \<longleftrightarrow> cl_key c \<noteq> [] \<and> list_all (\<lambda>d. key_char d \<or> d = CHR ''.'') (cl_key c)
     \<and> List.find bad_segment (split_on ''.'' (cl_key c)) = None \<and> plain_value (cl_value c)"

lemma ws_bytes_high: "ws_bytes bs \<Longrightarrow> bs \<noteq> [] \<and> 0x80 \<le> byte (hd bs) \<and> 0x80 \<le> byte (last bs)"
  by (induction bs rule: ws_bytes.induct) auto

lemma ws_head_ascii:
  assumes "s \<noteq> []" "byte (hd s) < 0x80" "\<not> ascii_ws (hd s)"
  shows "ws_head s = 0" and "ws_head_rev s = 0"
proof -
  obtain c r where s: "s = c # r" using assms(1) by (cases s) auto
  have "\<not> ws_bytes (take n s)" "\<not> ws_bytes (rev (take n s))" for n
    using assms(2) ws_bytes_high [of "take n s"] ws_bytes_high [of "rev (take n s)"] s
    by (cases n; force simp: last_rev)+
  then show "ws_head s = 0" and "ws_head_rev s = 0"
    using assms(3) by (simp_all add: ws_head_def ws_head_rev_def)
qed

lemma trim_ascii_id:
  assumes "s \<noteq> []" "byte (hd s) < 0x80" "\<not> ascii_ws (hd s)"
    "byte (last s) < 0x80" "\<not> ascii_ws (last s)"
  shows "trim s = s"
  using assms by (intro trim_id ws_head_ascii) (simp_all add: hd_rev)

lemma key_char_ascii: "key_char c \<or> c = CHR ''.'' \<Longrightarrow> byte c < 0x80 \<and> \<not> ascii_ws c"
  by (auto simp: key_char_def is_alnum_def is_alpha_def is_upper_def is_digit_def ascii_ws_def)

lemma key_char_no_op: "key_char c \<or> c = CHR ''.'' \<Longrightarrow>
  c \<notin> {CHR 0x22, CHR 0x27, CHR ''!'', CHR ''='', CHR ''&''}"
  by (auto simp: key_char_def is_alnum_def is_alpha_def is_upper_def is_digit_def)

lemma find_op_key:
  "list_all (\<lambda>d. key_char d \<or> d = CHR ''.'') k \<Longrightarrow> find_op_go i (k @ s) = find_op_go (i + length k) s"
proof (induction k arbitrary: i)
  case Nil
  then show ?case by simp
next
  case (Cons c k)
  then show ?case using key_char_no_op [of c] by simp
qed

lemma find_op_show:
  "find_op_go i (show_operator o1 @ v) = Some (i, o1, length (show_operator o1))"
  by (cases o1) (simp_all add: show_operator_def)

lemma plain_value_trim: "plain_value v \<Longrightarrow> trim v = v"
  by (rule trim_ascii_id) (auto simp: plain_value_def ascii_text_def)

lemma plain_key_trim:
  assumes "k \<noteq> []" "list_all (\<lambda>d. key_char d \<or> d = CHR ''.'') k"
  shows "trim k = k"
  using assms key_char_ascii
  by (intro trim_ascii_id) (auto simp: list_all_iff)

lemma plain_value_strip: "plain_value v \<Longrightarrow> strip_quotes v = v"
  using hd_in_set [of v] by (auto simp: plain_value_def strip_quotes_def list_all_iff)

lemma show_clause_trim: "plain_clause c \<Longrightarrow> trim (show_clause c) = show_clause c"
proof (rule trim_ascii_id)
  assume c: "plain_clause c"
  then have v: "cl_value c \<noteq> []" "last (cl_value c) \<in> set (cl_value c)"
    and k: "cl_key c \<noteq> []" "hd (cl_key c) \<in> set (cl_key c)"
    by (auto simp: plain_clause_def plain_value_def)
  from c k key_char_ascii have h: "byte (hd (cl_key c)) < 0x80 \<and> \<not> ascii_ws (hd (cl_key c))"
    by (auto simp: plain_clause_def list_all_iff)
  from c v have l: "byte (last (cl_value c)) < 0x80 \<and> \<not> ascii_ws (last (cl_value c))"
    by (auto simp: plain_clause_def plain_value_def ascii_text_def)
  show "show_clause c \<noteq> []" "byte (hd (show_clause c)) < 0x80" "\<not> ascii_ws (hd (show_clause c))"
    "byte (last (show_clause c)) < 0x80" "\<not> ascii_ws (last (show_clause c))"
    using h l v k by (simp_all add: show_clause_def)
qed

lemma parse_show_clause:
  assumes "plain_clause c"
  shows "parse_clause (show_clause c) = Inr c"
proof -
  have ne: "show_clause c \<noteq> []" using assms by (simp add: show_clause_def plain_clause_def)
  have key: "list_all (\<lambda>d. key_char d \<or> d = CHR ''.'') (cl_key c)" "cl_key c \<noteq> []"
    and val: "plain_value (cl_value c)" "cl_value c \<noteq> []"
    using assms by (simp_all add: plain_clause_def plain_value_def)
  have op: "find_op_go 0 (show_clause c) =
      Some (length (cl_key c), cl_operator c, length (show_operator (cl_operator c)))"
    using key by (simp add: show_clause_def find_op_key find_op_show)
  show ?thesis
    using assms key val ne op
    by (simp add: parse_clause_def find_operator_def show_clause_trim Let_def plain_clause_def
        plain_key_trim plain_value_trim plain_value_strip, simp add: show_clause_def
        plain_key_trim plain_value_trim plain_value_strip)
qed

lemma split_go_part:
  "list_all (\<lambda>c. c \<noteq> CHR ''&'') x \<Longrightarrow>
   split_go ''&&'' acc (x @ ''&&'' @ s) = (rev acc @ x) # split_go ''&&'' [] s"
  "list_all (\<lambda>c. c \<noteq> CHR ''&'') x \<Longrightarrow> split_go ''&&'' acc x = [rev acc @ x]"
  by (induction x arbitrary: acc) (auto simp: starts_with_def)

lemma split_join_amp:
  "xs \<noteq> [] \<Longrightarrow> \<forall>x \<in> set xs. list_all (\<lambda>c. c \<noteq> CHR ''&'') x \<Longrightarrow> split_on ''&&'' (join ''&&'' xs) = xs"
proof (induction xs)
  case Nil
  then show ?case by simp
next
  case (Cons x xs)
  then show ?case
    using split_go_part(1) [of x "[]"] split_go_part(2) [of x "[]"]
    by (cases xs) (auto simp: split_on_def)
qed

lemma show_clause_no_amp:
  assumes "plain_clause c"
  shows "list_all (\<lambda>d. d \<noteq> CHR ''&'') (show_clause c)"
proof -
  have "\<forall>d \<in> set (cl_key c). d \<noteq> CHR ''&''"
    using assms key_char_no_op by (auto simp: plain_clause_def list_all_iff)
  then show ?thesis
    using assms
    by (auto simp: show_clause_def plain_clause_def plain_value_def list_all_iff show_operator_def
        split: operator.splits)
qed

lemma join_ends:
  assumes "xs \<noteq> []" "\<forall>x \<in> set xs. x \<noteq> []"
  shows "join sep xs \<noteq> [] \<and> hd (join sep xs) = hd (hd xs) \<and> last (join sep xs) = last (last xs)"
  using assms
proof (induction xs)
  case Nil
  then show ?case by simp
next
  case (Cons x xs)
  then show ?case by (cases xs) (auto simp: join_Cons)
qed

lemma show_clause_ends:
  assumes "plain_clause c"
  shows "show_clause c \<noteq> []"
    "byte (hd (show_clause c)) < 0x80 \<and> \<not> ascii_ws (hd (show_clause c))"
    "byte (last (show_clause c)) < 0x80 \<and> \<not> ascii_ws (last (show_clause c))"
proof -
  have "hd (cl_key c) \<in> set (cl_key c)" "last (cl_value c) \<in> set (cl_value c)"
    "cl_key c \<noteq> []" "cl_value c \<noteq> []"
    using assms by (auto simp: plain_clause_def plain_value_def)
  then show "show_clause c \<noteq> []"
    "byte (hd (show_clause c)) < 0x80 \<and> \<not> ascii_ws (hd (show_clause c))"
    "byte (last (show_clause c)) < 0x80 \<and> \<not> ascii_ws (last (show_clause c))"
    using assms key_char_ascii [of "hd (cl_key c)"]
    by (auto simp: show_clause_def plain_clause_def plain_value_def ascii_text_def list_all_iff)
qed

lemma rmap_show: "list_all plain_clause cs \<Longrightarrow>
  rmap (\<lambda>part. parse_clause (trim part)) (map show_clause cs) = Inr cs"
  by (induction cs) (auto simp: show_clause_trim parse_show_clause)

text \<open>
  Parsing the canonical text of a list of plain clauses gives back exactly those
  clauses, in order: every such condition is expressible, and read as written.
\<close>

theorem parse_condition_roundtrip:
  assumes "list_all plain_clause cs"
  shows "parse_condition (join ''&&'' (map show_clause cs)) = Inr cs"
proof (cases "cs = []")
  case True
  then show ?thesis by (simp add: parse_condition_def)
next
  case False
  let ?xs = "map show_clause cs"
  have ne: "?xs \<noteq> []" "\<forall>x \<in> set ?xs. x \<noteq> []"
    using False assms show_clause_ends(1) by (auto simp: list_all_iff)
  have ends: "hd ?xs = show_clause (hd cs)" "last ?xs = show_clause (last cs)"
    "plain_clause (hd cs)" "plain_clause (last cs)"
    using False assms by (auto simp: hd_map last_map list_all_iff)
  have "trim (join ''&&'' ?xs) = join ''&&'' ?xs"
    using join_ends [OF ne, of "''&&''"] ends show_clause_ends(2) [OF ends(3)]
      show_clause_ends(3) [OF ends(4)]
    by (intro trim_ascii_id) simp_all
  moreover have "split_on ''&&'' (join ''&&'' ?xs) = ?xs"
    using ne assms show_clause_no_amp by (intro split_join_amp) (auto simp only: list_all_iff set_map)
  ultimately show ?thesis
    using join_ends [OF ne] rmap_show [OF assms] by (simp add: parse_condition_def Let_def)
qed

theorem parse_condition_roundtrip_witness:
  "parse_condition ''outcome=fail&&context.env!=prod'' =
     Inr [\<lparr>cl_key = ''outcome'', cl_operator = Eq, cl_value = ''fail''\<rparr>,
          \<lparr>cl_key = ''context.env'', cl_operator = NotEq, cl_value = ''prod''\<rparr>]"
proof -
  let ?cs = "[\<lparr>cl_key = ''outcome'', cl_operator = Eq, cl_value = ''fail''\<rparr>,
          \<lparr>cl_key = ''context.env'', cl_operator = NotEq, cl_value = ''prod''\<rparr>]"
  have "list_all plain_clause ?cs" by code_simp
  from parse_condition_roundtrip [OF this] show ?thesis
    by (simp add: show_clause_def show_operator_def)
qed

text \<open>
  The grammar allows a quoted string as a value, and the operator scan skips
  quoted regions, but clauses are separated before quotes are looked at: a quoted value that
  contains \<open>&&\<close> is not one value but a malformed condition.
\<close>

theorem quoted_ampersands_rejected:
  "parse_condition (''x='' @ dq ''a&&b'') =
     Inl (cond_error (''no operator found in '' @ sq (''b'' @ [CHR 0x22])))"
  by code_simp

end
