(* ===== verification/Edge_Selection.thy ===== *)
theory Edge_Selection
  imports Graph Condition
begin

text \<open>
  Choosing the next edge (\<open>crates/attractor-pipeline/src/edge_selection.rs\<close>). The regular
  expression engine is a third-party crate: \<open>strip\<close> stands for
  \<open>re.replace(s, "")\<close> with the pattern \<open>^(?:\[\w\]\s*|\w\)\s*|\w-\s*)\<close>, and
  \<open>strips_accelerators\<close> states what the crate documents about it on ASCII text.
\<close>

definition normalize_label :: "(str \<Rightarrow> str) \<Rightarrow> str \<Rightarrow> str" where
  "normalize_label strip label = strip (lowercase (trim label))"

text \<open>The order of \<open>max_by\<close>: weight first, then the smaller target; later edges win ties.\<close>

definition edge_le :: "pipeline_edge \<Rightarrow> pipeline_edge \<Rightarrow> bool" where
  "edge_le a b \<longleftrightarrow> pe_weight a < pe_weight b \<or> pe_weight a = pe_weight b \<and> pe_to b \<le> pe_to a"

fun max_edge :: "pipeline_edge \<Rightarrow> pipeline_edge list \<Rightarrow> pipeline_edge" where
  "max_edge a [] = a"
| "max_edge a (b # r) = max_edge (if edge_le a b then b else a) r"

definition best_by_weight_then_lexical :: "pipeline_edge list \<Rightarrow> pipeline_edge option" where
  "best_by_weight_then_lexical es = (case es of [] \<Rightarrow> None | a # r \<Rightarrow> Some (max_edge a r))"

definition condition_matches :: "(str \<Rightarrow> str) \<Rightarrow> pipeline_edge \<Rightarrow> bool" where
  "condition_matches resolve e =
     (case pe_condition e of
        Some c \<Rightarrow> (case parse_condition c of Inr x \<Rightarrow> evaluate_condition x resolve | Inl _ \<Rightarrow> False)
      | None \<Rightarrow> False)"

definition label_matches :: "(str \<Rightarrow> str) \<Rightarrow> str \<Rightarrow> pipeline_edge \<Rightarrow> bool" where
  "label_matches strip label e =
     (case pe_label e of
        Some l \<Rightarrow> normalize_label strip l = normalize_label strip label
      | None \<Rightarrow> False)"

definition preferred_edge ::
  "(str \<Rightarrow> str) \<Rightarrow> outcome \<Rightarrow> pipeline_edge list \<Rightarrow> pipeline_edge option" where
  "preferred_edge strip out es =
     (case preferred_label out of
        Some l \<Rightarrow> List.find (label_matches strip l) es
      | None \<Rightarrow> None)"

fun suggested_edge :: "str list \<Rightarrow> pipeline_edge list \<Rightarrow> pipeline_edge option" where
  "suggested_edge [] es = None"
| "suggested_edge (n # ns) es =
     (case List.find (\<lambda>e. pe_to e = n) es of Some e \<Rightarrow> Some e | None \<Rightarrow> suggested_edge ns es)"

definition select_edge ::
  "(str \<Rightarrow> str) \<Rightarrow> str \<Rightarrow> outcome \<Rightarrow> (str \<Rightarrow> str) \<Rightarrow> pipeline_graph \<Rightarrow> pipeline_edge option" where
  "select_edge strip node_id out resolve g =
     (let edges = outgoing_edges g node_id;
          condition_edges = filter (condition_matches resolve) edges;
          unconditional = filter (\<lambda>e. pe_condition e = None) edges
      in if edges = [] then None
         else if condition_edges \<noteq> [] then best_by_weight_then_lexical condition_edges
         else case preferred_edge strip out edges of Some e \<Rightarrow> Some e
         | None \<Rightarrow> (case suggested_edge (suggested_next_ids out) edges of Some e \<Rightarrow> Some e
         | None \<Rightarrow> (if unconditional = [] then Some (hd edges)
                    else best_by_weight_then_lexical unconditional)))"

section \<open>The maximum\<close>

lemma edge_le_refl [simp]: "edge_le a a"
  by (simp add: edge_le_def)

lemma edge_le_trans: "edge_le a b \<Longrightarrow> edge_le b c \<Longrightarrow> edge_le a c"
  by (auto simp: edge_le_def)

lemma edge_le_total: "edge_le a b \<or> edge_le b a"
  by (auto simp: edge_le_def)

lemma max_edge_in: "max_edge a es \<in> set (a # es)"
proof (induction es arbitrary: a)
  case (Cons b es)
  then show ?case using Cons.IH [of "if edge_le a b then b else a"] by (auto split: if_splits)
qed simp

lemma max_edge_ge: "e \<in> set (a # es) \<Longrightarrow> edge_le e (max_edge a es)"
proof (induction es arbitrary: a e)
  case Nil
  then show ?case by simp
next
  case (Cons b es)
  define c where "c = (if edge_le a b then b else a)"
  have top: "edge_le c (max_edge c es)" by (rule Cons.IH) simp
  have "edge_le a c" "edge_le b c" using edge_le_total [of a b] by (auto simp: c_def)
  then have "edge_le a (max_edge c es)" "edge_le b (max_edge c es)"
    using top edge_le_trans by blast+
  moreover have "edge_le e (max_edge c es)" if "e \<in> set es" using that by (intro Cons.IH) simp
  moreover have "max_edge a (b # es) = max_edge c es" by (simp add: c_def)
  ultimately show ?case using Cons.prems by auto
qed

lemma best_Some:
  assumes "best_by_weight_then_lexical es = Some b"
  shows "b \<in> set es" and "e \<in> set es \<Longrightarrow> edge_le e b"
  using assms max_edge_in max_edge_ge
  by (auto simp: best_by_weight_then_lexical_def split: list.splits)

lemma best_total: "es \<noteq> [] \<Longrightarrow> \<exists>b. best_by_weight_then_lexical es = Some b"
  by (cases es) (auto simp: best_by_weight_then_lexical_def)

lemma suggested_edge_Some:
  "suggested_edge ns es = Some e \<Longrightarrow> e \<in> set es \<and> pe_to e \<in> set ns"
proof (induction ns)
  case (Cons n ns)
  then show ?case by (auto split: option.splits simp: find_Some_iff)
qed simp

lemma preferred_edge_Some: "preferred_edge strip out es = Some e \<Longrightarrow> e \<in> set es"
  by (auto simp: preferred_edge_def find_Some_iff split: option.splits)

lemma hd_outgoing: "es \<noteq> [] \<Longrightarrow> hd es \<in> set es"
  by simp

text \<open>The edges a selection can return are the node's own.\<close>

lemma select_edge_in:
  "select_edge strip n out resolve g = Some e \<Longrightarrow> e \<in> set (outgoing_edges g n)"
  by (auto simp: select_edge_def Let_def split: if_splits option.splits
      dest: best_Some(1) preferred_edge_Some suggested_edge_Some)

lemma select_edge_some_iff:
  "(\<exists>e. select_edge strip n out resolve g = Some e) \<longleftrightarrow> outgoing_edges g n \<noteq> []"
  using best_total by (auto simp: select_edge_def Let_def split: option.splits)

text \<open>
  Routing never gets stuck and never leaves the graph's edges: a next edge is
  found exactly when the node has an outgoing edge, and it is one of them.
\<close>

theorem select_edge_total:
  "(select_edge strip n out resolve (from_dot g) = None) = (filter (\<lambda>e. pe_from e = n) (collect_edges g) = [])
   \<and> set_option (select_edge strip n out resolve (from_dot g)) \<subseteq> set (collect_edges g)"
proof -
  have "(select_edge strip n out resolve (from_dot g) = None) = (outgoing_edges (from_dot g) n = [])"
    using select_edge_some_iff by (metis not_None_eq)
  moreover have "set_option (select_edge strip n out resolve (from_dot g)) \<subseteq> set (outgoing_edges (from_dot g) n)"
    using select_edge_in by fastforce
  moreover have "outgoing_edges (from_dot g) n = filter (\<lambda>e. pe_from e = n) (collect_edges g)"
    by (simp add: indexed_outgoing from_dot_indexed) (simp add: from_dot_def Let_def sort_key_stable)
  ultimately show ?thesis by auto
qed

text \<open>
  Property C37. Conditions come first: if some outgoing edge's condition holds, the chosen edge
  is one whose condition holds, no other such edge has a larger weight, and among those of
  equal weight none has a smaller target.
\<close>

theorem condition_edge_first:
  assumes "e' \<in> set (outgoing_edges g n)" and "condition_matches resolve e'"
  shows "\<exists>e. select_edge strip n out resolve g = Some e \<and> condition_matches resolve e \<and>
    (pe_weight e' < pe_weight e \<or> pe_weight e' = pe_weight e \<and> pe_to e \<le> pe_to e')"
proof -
  let ?cs = "filter (condition_matches resolve) (outgoing_edges g n)"
  have ne: "?cs \<noteq> []" "outgoing_edges g n \<noteq> []" using assms by (auto simp: filter_empty_conv)
  then obtain e where e: "best_by_weight_then_lexical ?cs = Some e" using best_total by blast
  then have "select_edge strip n out resolve g = Some e" using ne by (simp add: select_edge_def Let_def)
  moreover have "e \<in> set ?cs" "edge_le e' e" using best_Some [OF e] assms by auto
  ultimately show ?thesis by (auto simp: edge_le_def)
qed

text \<open>
  The tie-break does not depend on the order of declaration: if no condition,
  label or suggestion decides, the chosen edge is an unconditional edge of maximal weight
  with the smallest target among those; only when every edge is conditional is it the first.
\<close>

theorem unconditional_tiebreak:
  assumes "\<forall>e \<in> set (outgoing_edges g n). \<not> condition_matches resolve e"
    and "preferred_edge strip out (outgoing_edges g n) = None"
    and "suggested_edge (suggested_next_ids out) (outgoing_edges g n) = None"
    and "e' \<in> set (outgoing_edges g n)" and "pe_condition e' = None"
  shows "\<exists>e. select_edge strip n out resolve g = Some e \<and> pe_condition e = None \<and>
    (pe_weight e' < pe_weight e \<or> pe_weight e' = pe_weight e \<and> pe_to e \<le> pe_to e')"
proof -
  let ?us = "filter (\<lambda>e. pe_condition e = None) (outgoing_edges g n)"
  have ne: "?us \<noteq> []" "outgoing_edges g n \<noteq> []" using assms(4,5) by (auto simp: filter_empty_conv)
  then obtain e where e: "best_by_weight_then_lexical ?us = Some e" using best_total by blast
  have "filter (condition_matches resolve) (outgoing_edges g n) = []"
    using assms(1) by (simp add: filter_empty_conv)
  then have "select_edge strip n out resolve g = Some e"
    using ne e assms(2,3) by (simp add: select_edge_def Let_def)
  moreover have "e \<in> set ?us" "edge_le e' e" using best_Some [OF e] assms(4,5) by auto
  ultimately show ?thesis by (auto simp: edge_le_def)
qed

definition choice_graph :: pipeline_graph where
  "choice_graph = from_dot (digraph_of ''g''
     [EdgeStmt [''n'', ''c''] [(''condition'', AString ''outcome=success'')],
      EdgeStmt [''n'', ''b''] [], EdgeStmt [''n'', ''a''] []])"

theorem condition_edge_first_witness:
  "\<exists>e. select_edge id ''n'' (outcome_success []) (\<lambda>k. ''success'') choice_graph = Some e
    \<and> condition_matches (\<lambda>k. ''success'') e
    \<and> (pe_weight (hd (outgoing_edges choice_graph ''n'')) < pe_weight e
       \<or> pe_weight (hd (outgoing_edges choice_graph ''n'')) = pe_weight e
         \<and> pe_to e \<le> pe_to (hd (outgoing_edges choice_graph ''n'')))"
proof (rule condition_edge_first)
  have "outgoing_edges choice_graph ''n'' \<noteq> []" by code_simp
  then show "hd (outgoing_edges choice_graph ''n'') \<in> set (outgoing_edges choice_graph ''n'')" by simp
  show "condition_matches (\<lambda>k. ''success'') (hd (outgoing_edges choice_graph ''n''))" by code_simp
qed

theorem unconditional_tiebreak_witness:
  "\<exists>e. select_edge id ''n'' (outcome_success []) (\<lambda>k. ''fail'') choice_graph = Some e
    \<and> pe_condition e = None
    \<and> (pe_weight (outgoing_edges choice_graph ''n'' ! 1) < pe_weight e
       \<or> pe_weight (outgoing_edges choice_graph ''n'' ! 1) = pe_weight e
         \<and> pe_to e \<le> pe_to (outgoing_edges choice_graph ''n'' ! 1))"
proof (rule unconditional_tiebreak)
  have "list_all (\<lambda>e. \<not> condition_matches (\<lambda>k. ''fail'') e) (outgoing_edges choice_graph ''n'')"
    by code_simp
  then show "\<forall>e \<in> set (outgoing_edges choice_graph ''n''). \<not> condition_matches (\<lambda>k. ''fail'') e"
    by (simp add: list_all_iff)
  show "preferred_edge id (outcome_success []) (outgoing_edges choice_graph ''n'') = None" by code_simp
  show "suggested_edge (suggested_next_ids (outcome_success [])) (outgoing_edges choice_graph ''n'') = None"
    by code_simp
  have "1 < length (outgoing_edges choice_graph ''n'')" by code_simp
  then show "outgoing_edges choice_graph ''n'' ! 1 \<in> set (outgoing_edges choice_graph ''n'')"
    by (rule nth_mem)
  show "pe_condition (outgoing_edges choice_graph ''n'' ! 1) = None" by code_simp
qed

section \<open>Labels\<close>

text \<open>
  What the \<open>regex\<close> crate documents of the pattern: an accelerator \<open>[c]\<close>, \<open>c)\<close> or \<open>c-\<close> at the
  start goes away with the white space after it; a text that starts with none is unchanged.
\<close>

definition word_char :: "char \<Rightarrow> bool" where
  "word_char c \<longleftrightarrow> is_alnum c \<or> c = CHR ''_''"

fun accelerator :: "str \<Rightarrow> nat" where
  "accelerator (a # b # c # s) =
     (if a = CHR ''['' \<and> word_char b \<and> c = CHR '']'' then 3
      else if word_char a \<and> (b = CHR '')'' \<or> b = CHR ''-'') then 2 else 0)"
| "accelerator [a, b] = (if word_char a \<and> (b = CHR '')'' \<or> b = CHR ''-'') then 2 else 0)"
| "accelerator s = 0"

definition strips_accelerators :: "(str \<Rightarrow> str) \<Rightarrow> bool" where
  "strips_accelerators strip \<longleftrightarrow>
     (\<forall>s. ascii_text s \<longrightarrow> strip s =
        (if accelerator s = 0 then s else dropWhile ascii_ws (drop (accelerator s) s)))"

definition regex_strip :: "str \<Rightarrow> str" where
  "regex_strip s = (if accelerator s = 0 then s else dropWhile ascii_ws (drop (accelerator s) s))"

lemma regex_strip_ok: "strips_accelerators regex_strip"
  by (simp add: strips_accelerators_def regex_strip_def)

text \<open>
  The guide says labels are matched with \<open>&\<close> accelerators stripped; the code
  strips \<open>[Y]\<close>, \<open>Y)\<close> and \<open>Y-\<close> only. A label \<open>&Yes\<close> does not match the preferred label
  \<open>Yes\<close>, while \<open>[Y] Yes\<close> and \<open>y) yes\<close> do.
\<close>

theorem ampersand_accelerator_not_stripped:
  assumes "strips_accelerators strip"
  shows "normalize_label strip ''[Y] Yes'' = normalize_label strip ''Yes''
    \<and> normalize_label strip ''y) yes'' = normalize_label strip ''Yes''
    \<and> normalize_label strip ''&Yes'' \<noteq> normalize_label strip ''Yes''"
proof -
  have norm: "lowercase (trim ''[Y] Yes'') = ''[y] yes''" "lowercase (trim ''Yes'') = ''yes''"
    "lowercase (trim ''y) yes'') = ''y) yes''" "lowercase (trim ''&Yes'') = ''&yes''"
    by code_simp+
  have ascii: "ascii_text ''[y] yes''" "ascii_text ''yes''" "ascii_text ''y) yes''" "ascii_text ''&yes''"
    by code_simp+
  have acc: "accelerator ''[y] yes'' = 3" "accelerator ''yes'' = 0" "accelerator ''y) yes'' = 2"
    "accelerator ''&yes'' = 0" by code_simp+
  have ws: "ascii_ws (CHR '' '')" "\<not> ascii_ws (CHR ''y'')" by code_simp+
  have "strip ''[y] yes'' = ''yes''" "strip ''yes'' = ''yes''" "strip ''y) yes'' = ''yes''"
    "strip ''&yes'' = ''&yes''"
    using assms ascii acc ws by (simp_all add: strips_accelerators_def eval_nat_numeral)
  then show ?thesis by (simp add: normalize_label_def norm)
qed

theorem ampersand_accelerator_not_stripped_witness:
  "strips_accelerators regex_strip
   \<and> normalize_label regex_strip ''&Yes'' \<noteq> normalize_label regex_strip ''Yes''"
  using ampersand_accelerator_not_stripped [OF regex_strip_ok] regex_strip_ok by blast

end
