(* ===== verification/Validation.thy ===== *)
theory Validation
  imports Plan_Sound Goal_Gate Edge_Selection
begin

text \<open>
  Validation (\<open>crates/attractor-pipeline/src/validation.rs\<close>): the lint rules on a graph, the
  structural rules on a compiled plan with the breadth-first search for unreachable nodes,
  and the entry points. Whether \<open>bd\<close> is on the \<open>PATH\<close> is an argument.
\<close>

section \<open>Lints\<close>

datatype severity = SevError | SevWarning | SevInfo

record lint =
  ln_rule :: str
  ln_severity :: severity
  ln_message :: str
  ln_node :: "str option"
  ln_edge :: "(str \<times> str) option"
  ln_fix :: "str option"

definition edge_target_exists :: "pipeline_graph \<Rightarrow> lint list" where
  "edge_target_exists g =
     map (\<lambda>e. \<lparr>ln_rule = ''edge_target_exists'', ln_severity = SevError,
               ln_message = ''Edge '' @ pe_from e @ '' -> '' @ pe_to e
                 @ '' references non-existent target '' @ sq (pe_to e),
               ln_node = None, ln_edge = Some (pe_from e, pe_to e),
               ln_fix = Some (''Add node '' @ sq (pe_to e) @ '' or fix the edge target'')\<rparr>)
       (filter (\<lambda>e. graph_node g (pe_to e) = None) (pg_edges g))"

definition condition_syntax :: "(f64 \<Rightarrow> str) \<Rightarrow> pipeline_graph \<Rightarrow> lint list" where
  "condition_syntax fmt2 g =
     List.map_filter (\<lambda>e. case pe_condition e of
         None \<Rightarrow> None
       | Some c \<Rightarrow>
           (case parse_condition c of
              Inr _ \<Rightarrow> None
            | Inl err \<Rightarrow> Some
                \<lparr>ln_rule = ''condition_syntax'', ln_severity = SevError,
                 ln_message = ''Edge '' @ pe_from e @ '' -> '' @ pe_to e
                   @ '' has invalid condition '' @ sq c @ '': '' @ error_display fmt2 err,
                 ln_node = None, ln_edge = Some (pe_from e, pe_to e),
                 ln_fix = Some ''Fix the condition expression syntax''\<rparr>)) (pg_edges g)"

definition missing_target :: "pipeline_graph \<Rightarrow> str \<Rightarrow> str \<Rightarrow> str option \<Rightarrow> lint list" where
  "missing_target g i attribute target =
     (case target of
        None \<Rightarrow> []
      | Some t \<Rightarrow>
          if graph_node g t = None
          then [\<lparr>ln_rule = ''retry_target_exists'', ln_severity = SevWarning,
                 ln_message = ''Node '' @ sq i @ '' has '' @ attribute @ '' '' @ sq t @ '' which does not exist'',
                 ln_node = Some i, ln_edge = None,
                 ln_fix = Some (''Add node '' @ sq t @ '' or fix '' @ attribute)\<rparr>]
          else [])"

definition retry_target_exists :: "pipeline_graph \<Rightarrow> lint list" where
  "retry_target_exists g =
     concat (map (\<lambda>n. missing_target g (pn_id n) ''retry_target'' (pn_retry_target n)
                    @ missing_target g (pn_id n) ''fallback_retry_target'' (pn_fallback_retry_target n))
               (all_nodes g))"

definition goal_gate_has_retry :: "pipeline_graph \<Rightarrow> lint list" where
  "goal_gate_has_retry g =
     map (\<lambda>n. \<lparr>ln_rule = ''goal_gate_has_retry'', ln_severity = SevWarning,
               ln_message = ''Node '' @ sq (pn_id n) @ '' has goal_gate=true but no retry_target'',
               ln_node = Some (pn_id n), ln_edge = None,
               ln_fix = Some ''Add a retry_target attribute so the goal gate can retry''\<rparr>)
       (filter (\<lambda>n. pn_goal_gate n \<and> pn_retry_target n = None) (all_nodes g))"

definition validate_nonsemantic_structure :: "(f64 \<Rightarrow> str) \<Rightarrow> pipeline_graph \<Rightarrow> lint list" where
  "validate_nonsemantic_structure fmt2 g =
     edge_target_exists g @ condition_syntax fmt2 g @ retry_target_exists g @ goal_gate_has_retry g"

section \<open>Structure of a plan\<close>

definition retry_targets :: "pipeline_graph \<Rightarrow> (str \<times> str option \<times> str \<times> str) list" where
  "retry_targets g =
     concat (map (\<lambda>n. List.map_filter (\<lambda>(a, t). map_option (\<lambda>t. (pn_id n, Some (pn_id n), a, t)) t)
                [(''retry_target'', pn_retry_target n),
                 (''fallback_retry_target'', pn_fallback_retry_target n)]) (all_nodes g))
     @ List.map_filter (\<lambda>a. case hm_get (pg_attrs g) a of
           Some (AString t) \<Rightarrow> Some (''graph'', None, a, t) | _ \<Rightarrow> None)
         [''retry_target'', ''fallback_retry_target'']"

definition retry_target_not_terminal :: "execution_plan \<Rightarrow> lint list" where
  "retry_target_not_terminal p =
     map (\<lambda>(owner, node, a, t).
            \<lparr>ln_rule = ''retry_target_not_terminal'', ln_severity = SevError,
             ln_message = owner @ '' '' @ a @ '' '' @ sq t
               @ '' resolves to a terminal node and cannot change an unsatisfied goal gate'',
             ln_node = node, ln_edge = None,
             ln_fix = Some (''Point '' @ a @ '' at a non-terminal node that can change the goal-gate outcome'')\<rparr>)
       (filter (\<lambda>(_, _, _, t). is_exit p t)
         (sort_key (\<lambda>(owner, _, a, t). (owner, a, t)) (retry_targets (pl_graph p))))"

definition start_no_incoming :: "execution_plan \<Rightarrow> lint list" where
  "start_no_incoming p =
     (if list_ex (\<lambda>e. pe_to e = pl_start p) (pg_edges (pl_graph p))
      then [\<lparr>ln_rule = ''start_no_incoming'', ln_severity = SevError,
             ln_message = ''Start node '' @ sq (pl_start p) @ '' has incoming edges'',
             ln_node = Some (pl_start p), ln_edge = None,
             ln_fix = Some ''Remove edges pointing to the start node''\<rparr>]
      else [])"

definition exit_no_outgoing :: "execution_plan \<Rightarrow> lint list" where
  "exit_no_outgoing p =
     map (\<lambda>x. \<lparr>ln_rule = ''exit_no_outgoing'', ln_severity = SevError,
               ln_message = ''Terminal node '' @ sq x @ '' has outgoing edges'',
               ln_node = Some x, ln_edge = None,
               ln_fix = Some (''Remove outgoing edges from '' @ sq x)\<rparr>)
       (filter (\<lambda>x. plan_outgoing p x \<noteq> []) (pl_exits p))"

subsection \<open>Breadth-first search\<close>

text \<open>One round of \<open>while let Some(current) = queue.pop_front()\<close>: visited nodes and queue.\<close>

fun bfs_step :: "execution_plan \<Rightarrow> str list \<times> str list \<Rightarrow> str list + (str list \<times> str list)" where
  "bfs_step p (visited, []) = Inl visited"
| "bfs_step p (visited, i # queue) =
     (if i \<in> set visited then Inr (visited, queue)
      else Inr (i # visited, queue @ map pe_to (plan_outgoing p i)))"

definition indexed_nodes :: "execution_plan \<Rightarrow> str list" where
  "indexed_nodes p = remdups (hm_keys (pg_adjacency (pl_graph p)))"

definition bfs_size :: "execution_plan \<Rightarrow> str list \<times> str list \<Rightarrow> nat" where
  "bfs_size p s = length (snd s)
     + (\<Sum>i \<leftarrow> filter (\<lambda>i. i \<notin> set (fst s)) (indexed_nodes p). length (plan_outgoing p i))"

definition bfs_visited :: "execution_plan \<Rightarrow> str list option" where
  "bfs_visited p = iterate (Suc (bfs_size p ([], [pl_start p]))) (bfs_step p) ([], [pl_start p])"

definition unreachable_nodes :: "execution_plan \<Rightarrow> str list" where
  "unreachable_nodes p =
     (let visited = (case bfs_visited p of Some v \<Rightarrow> v | None \<Rightarrow> [])
      in sort (filter (\<lambda>i. i \<notin> set visited) (map rn_id (hm_values (pl_nodes p)))))"

definition reachability :: "execution_plan \<Rightarrow> lint list" where
  "reachability p =
     map (\<lambda>i. \<lparr>ln_rule = ''reachability'', ln_severity = SevError,
               ln_message = ''Node '' @ sq i @ '' is not reachable from the start node'',
               ln_node = Some i, ln_edge = None,
               ln_fix = Some (''Add an edge leading to '' @ sq i @ '' or remove it'')\<rparr>)
       (unreachable_nodes p)"

definition prompt_on_llm_nodes :: "execution_plan \<Rightarrow> lint list" where
  "prompt_on_llm_nodes p =
     map (\<lambda>n. \<lparr>ln_rule = ''prompt_on_llm_nodes'', ln_severity = SevWarning,
               ln_message = ''Node '' @ sq (pn_id n)
                 @ '' (handler=codergen) has no prompt and label matches id'',
               ln_node = Some (pn_id n), ln_edge = None,
               ln_fix = Some ''Add a prompt or a descriptive label attribute''\<rparr>)
       (sort_key pn_id (filter (\<lambda>n. pn_prompt n = None \<and> pn_label n = pn_id n)
         (List.map_filter (\<lambda>r. source_node p (rn_id r))
           (filter (\<lambda>r. rn_handler r = HCodergen) (hm_values (pl_nodes p))))))"

definition validate_plan_structure :: "execution_plan \<Rightarrow> lint list" where
  "validate_plan_structure p =
     retry_target_not_terminal p @ start_no_incoming p @ exit_no_outgoing p @ reachability p
     @ prompt_on_llm_nodes p"

section \<open>Entry points\<close>

definition validate_plan :: "(f64 \<Rightarrow> str) \<Rightarrow> execution_plan \<Rightarrow> lint list" where
  "validate_plan fmt2 p =
     validate_nonsemantic_structure fmt2 (pl_graph p) @ validate_plan_structure p"

definition beads_nodes :: "execution_plan \<Rightarrow> (str \<times> str) list" where
  "beads_nodes p =
     sort (filter (\<lambda>(_, h). h \<in> set [select_handler, close_handler])
       (map (\<lambda>r. (rn_id r, handler_as_str (rn_handler r))) (hm_values (pl_nodes p))))"

definition beads_unavailable :: "execution_plan \<Rightarrow> bool \<Rightarrow> lint list" where
  "beads_unavailable p bd_found =
     (if bd_found then []
      else map (\<lambda>(i, h). \<lparr>ln_rule = ''beads_available'', ln_severity = SevError,
             ln_message = ''Node '' @ sq i @ '' uses handler '' @ sq h @ '' but bd is not on PATH'',
             ln_node = Some i, ln_edge = None,
             ln_fix = Some ''Install beads (bd) and make sure it is on PATH''\<rparr>) (beads_nodes p))"

definition validate_beads_available :: "execution_plan \<Rightarrow> bool \<Rightarrow> lint list" where
  "validate_beads_available p bd_found =
     (if beads_nodes p = [] then [] else beads_unavailable p bd_found)"

fun kind_rule :: "diagnostic_kind \<Rightarrow> str" where
  "kind_rule InvalidAttributeType = ''attribute_type''"
| "kind_rule InvalidAttributeValue = ''attribute_value''"
| "kind_rule MissingProvider = ''provider_required''"
| "kind_rule MissingAttribute = ''attribute_required''"
| "kind_rule UnknownProvider = ''provider_valid''"
| "kind_rule MissingStart = ''start_node''"
| "kind_rule MultipleStarts = ''start_node''"
| "kind_rule MissingExit = ''terminal_node''"
| "kind_rule MultipleExits = ''terminal_node''"
| "kind_rule ConflictingRoleSignals = ''semantic_conflict''"
| "kind_rule ConflictingAttributeAliases = ''attribute_alias_conflict''"
| "kind_rule UnknownShape = ''semantic_unknown''"
| "kind_rule UnknownHandler = ''semantic_unknown''"
| "kind_rule HandlerCapabilityMismatch = ''handler_registry''"
| "kind_rule UnsupportedExecutionTopology = ''unsupported_execution_topology''"
| "kind_rule UnsupportedExecutionCapability = ''unsupported_execution_capability''"
| "kind_rule TransformError = ''transform''"

definition semantic_diagnostic :: "diagnostic \<Rightarrow> lint" where
  "semantic_diagnostic d =
     \<lparr>ln_rule = kind_rule (sd_kind d), ln_severity = SevError, ln_message = sd_message d,
      ln_node = sd_node d, ln_edge = None, ln_fix = Some (sd_fix d)\<rparr>"

definition validate ::
  "(f64 \<Rightarrow> str) \<Rightarrow> (f64 \<Rightarrow> str) \<Rightarrow> build_profile \<Rightarrow> bool \<Rightarrow> pipeline_graph \<Rightarrow> lint list plan_result" where
  "validate fmt fmt2 b bd_found g =
     (case compile_plan fmt fmt2 b g of
        Inr p \<Rightarrow> Inr (validate_plan fmt2 p @ validate_beads_available p bd_found)
      | Inl PlanPanic \<Rightarrow> Inl PlanPanic
      | Inl (Rejected ds) \<Rightarrow>
          (case compile_for_generation fmt fmt2 b g Claude of
             Inl PlanPanic \<Rightarrow> Inl PlanPanic
           | Inl (Rejected _) \<Rightarrow>
               Inr (validate_nonsemantic_structure fmt2 g @ map semantic_diagnostic ds)
           | Inr (p, _) \<Rightarrow>
               Inr (validate_nonsemantic_structure fmt2 g @ validate_plan_structure p
                    @ validate_beads_available p bd_found @ map semantic_diagnostic ds)))"

definition errors_of :: "lint list \<Rightarrow> lint list" where
  "errors_of ls = filter (\<lambda>l. ln_severity l = SevError) ls"

definition validate_or_raise ::
  "(f64 \<Rightarrow> str) \<Rightarrow> (f64 \<Rightarrow> str) \<Rightarrow> build_profile \<Rightarrow> bool \<Rightarrow> pipeline_graph
   \<Rightarrow> (lint list result) plan_result" where
  "validate_or_raise fmt fmt2 b bd_found g =
     rbind (validate fmt fmt2 b bd_found g) (\<lambda>ls.
       Inr (if errors_of ls \<noteq> []
            then Inl (ValidationError (join ''; '' (map ln_message (errors_of ls)))) else Inr ls))"

section \<open>The search computes reachability\<close>

inductive reachable :: "execution_plan \<Rightarrow> str \<Rightarrow> bool" for p where
  at_start: "reachable p (pl_start p)"
| along_edge: "reachable p i \<Longrightarrow> e \<in> set (plan_outgoing p i) \<Longrightarrow> reachable p (pe_to e)"

definition bfs_inv :: "execution_plan \<Rightarrow> str list \<times> str list \<Rightarrow> bool" where
  "bfs_inv p s \<longleftrightarrow>
     (\<forall>i \<in> set (fst s) \<union> set (snd s). reachable p i)
     \<and> pl_start p \<in> set (fst s) \<union> set (snd s)
     \<and> (\<forall>i \<in> set (fst s). pe_to ` set (plan_outgoing p i) \<subseteq> set (fst s) \<union> set (snd s))"

lemma plan_outgoing_unindexed: "i \<notin> set (indexed_nodes p) \<Longrightarrow> plan_outgoing p i = []"
  by (auto simp: indexed_nodes_def hm_keys_set plan_outgoing_def outgoing_edges_def split: option.splits)

lemma sum_list_remove:
  "distinct is \<Longrightarrow> i \<in> set is \<Longrightarrow> i \<notin> set v \<Longrightarrow>
   (\<Sum>j \<leftarrow> filter (\<lambda>j. j \<notin> set v) is. f j) = f i + (\<Sum>j \<leftarrow> filter (\<lambda>j. j \<notin> set (i # v)) is. (f j :: nat))"
proof (induction "is")
  case (Cons a "is")
  show ?case
  proof (cases "a = i")
    case True
    with Cons.prems have "filter (\<lambda>j. j \<notin> set (i # v)) is = filter (\<lambda>j. j \<notin> set v) is"
      by (intro filter_cong) auto
    with True Cons.prems show ?thesis by simp
  next
    case False
    with Cons show ?thesis by auto
  qed
qed simp

lemma bfs_step_decreases:
  assumes "bfs_step p s = Inr s'" shows "bfs_size p s' < bfs_size p s"
proof -
  obtain v i q where s: "s = (v, i # q)"
    using assms by (cases "(p, s)" rule: bfs_step.cases) auto
  show ?thesis
  proof (cases "i \<in> set v")
    case True
    with assms s show ?thesis by (auto simp: bfs_size_def)
  next
    case False
    with assms s have s': "s' = (i # v, q @ map pe_to (plan_outgoing p i))" by auto
    show ?thesis
    proof (cases "i \<in> set (indexed_nodes p)")
      case True
      then show ?thesis using s s' False
        sum_list_remove [of "indexed_nodes p" i v "\<lambda>j. length (plan_outgoing p j)"]
        by (simp add: bfs_size_def indexed_nodes_def)
    next
      case unindexed: False
      then have "filter (\<lambda>j. j \<notin> set (i # v)) (indexed_nodes p) = filter (\<lambda>j. j \<notin> set v) (indexed_nodes p)"
        by (intro filter_cong) auto
      with unindexed s s' show ?thesis by (simp add: bfs_size_def plan_outgoing_unindexed)
    qed
  qed
qed

lemma bfs_step_inv:
  assumes "bfs_inv p s" "bfs_step p s = Inr s'" shows "bfs_inv p s'"
proof -
  obtain v i q where s: "s = (v, i # q)"
    using assms(2) by (cases "(p, s)" rule: bfs_step.cases) auto
  show ?thesis
  proof (cases "i \<in> set v")
    case True
    then have "set v \<union> set (i # q) = set v \<union> set q" by auto
    moreover have "s' = (v, q)" using True assms(2) s by auto
    ultimately show ?thesis using True assms(1) s by (auto simp: bfs_inv_def)
  next
    case False
    with assms(2) s have s': "s' = (i # v, q @ map pe_to (plan_outgoing p i))" by auto
    have "reachable p i" using assms(1) s by (simp add: bfs_inv_def)
    then have "\<forall>e \<in> set (plan_outgoing p i). reachable p (pe_to e)" by (auto intro: along_edge)
    with assms(1) s show ?thesis by (auto simp: bfs_inv_def s' image_subset_iff)
  qed
qed

interpretation bfs: bounded_loop "bfs_step p" "bfs_inv p" "bfs_size p" for p
  by unfold_locales (blast intro: bfs_step_inv bfs_step_decreases)+

lemma bfs_step_done: "bfs_step p s = Inl v \<Longrightarrow> s = (v, [])"
  by (cases "(p, s)" rule: bfs_step.cases) (auto split: if_splits)

lemma bfs_visited_correct:
  "\<exists>v. bfs_visited p = Some v \<and> (\<forall>i. i \<in> set v \<longleftrightarrow> reachable p i)"
proof -
  have init: "bfs_inv p ([], [pl_start p])" by (simp add: bfs_inv_def at_start)
  then obtain v where v: "bfs_visited p = Some v"
    using bfs.iterate_enough [OF init lessI] by (auto simp: bfs_visited_def)
  then obtain t where "bfs_inv p t" "bfs_step p t = Inl v"
    using bfs.iterate_result [OF init] unfolding bfs_visited_def by blast
  then have closed: "bfs_inv p (v, [])" using bfs_step_done by blast
  have "i \<in> set v" if "reachable p i" for i
    using that by (induction rule: reachable.induct) (use closed in \<open>auto simp: bfs_inv_def\<close>)
  with closed v show ?thesis by (auto simp: bfs_inv_def)
qed

text \<open>
  The reachability rule is exact: the search always ends, and the nodes it reports
  are precisely the nodes of the plan that no path of edges from the start reaches.
\<close>

theorem reachability_exact:
  "set (map ln_node (reachability p)) =
     {Some i | i. i \<in> rn_id ` set (hm_values (pl_nodes p)) \<and> \<not> reachable p i}"
proof -
  obtain v where "bfs_visited p = Some v" "\<forall>i. i \<in> set v \<longleftrightarrow> reachable p i"
    using bfs_visited_correct by blast
  then show ?thesis by (auto simp: reachability_def unreachable_nodes_def)
qed

section \<open>What a validated plan satisfies\<close>

definition edge_sound :: "execution_plan \<Rightarrow> pipeline_edge \<Rightarrow> bool" where
  "edge_sound p e \<longleftrightarrow> graph_node (pl_graph p) (pe_to e) \<noteq> None \<and> pe_to e \<noteq> pl_start p
     \<and> (case pe_condition e of None \<Rightarrow> True | Some c \<Rightarrow> \<not> isl (parse_condition c))"

definition plan_clean :: "execution_plan \<Rightarrow> bool" where
  "plan_clean p \<longleftrightarrow>
     list_all (edge_sound p) (pg_edges (pl_graph p))
     \<and> list_all (\<lambda>(_, _, _, t). \<not> is_exit p t) (retry_targets (pl_graph p))
     \<and> list_all (\<lambda>x. plan_outgoing p x = []) (pl_exits p)
     \<and> list_all (\<lambda>r. reachable p (rn_id r)) (hm_values (pl_nodes p))"

lemma errors_of_append [simp]: "errors_of (xs @ ys) = errors_of xs @ errors_of ys"
  by (simp add: errors_of_def)

lemma errors_of_map:
  "(\<And>x. ln_severity (f x) = SevError) \<Longrightarrow> errors_of (map f xs) = map f xs"
  "(\<And>x. ln_severity (f x) = SevWarning) \<Longrightarrow> errors_of (map f xs) = []"
  by (induction xs) (auto simp: errors_of_def)

lemma map_filter_Nil: "List.map_filter f xs = [] \<longleftrightarrow> list_all (\<lambda>x. f x = None) xs"
  by (induction xs) (auto simp: List.map_filter_simps split: option.splits)

lemma errors_retry_target_exists: "errors_of (retry_target_exists g) = []"
  by (auto simp: errors_of_def retry_target_exists_def missing_target_def filter_empty_conv
      split: option.splits)

lemma errors_condition_syntax:
  "errors_of (condition_syntax fmt2 g) = [] \<longleftrightarrow>
     list_all (\<lambda>e. case pe_condition e of None \<Rightarrow> True | Some c \<Rightarrow> \<not> isl (parse_condition c)) (pg_edges g)"
proof -
  have "l \<in> set (condition_syntax fmt2 g) \<Longrightarrow> ln_severity l = SevError" for l
    by (auto simp: condition_syntax_def List.map_filter_def split: option.splits sum.splits)
  then have "errors_of (condition_syntax fmt2 g) = condition_syntax fmt2 g"
    by (simp add: errors_of_def)
  moreover have "condition_syntax fmt2 g = [] \<longleftrightarrow>
     list_all (\<lambda>e. case pe_condition e of None \<Rightarrow> True | Some c \<Rightarrow> \<not> isl (parse_condition c)) (pg_edges g)"
    unfolding condition_syntax_def map_filter_Nil
    by (intro list.pred_cong refl) (auto split: option.splits sum.splits)
  ultimately show ?thesis by simp
qed

lemma errors_structure:
  "errors_of (edge_target_exists g) = [] \<longleftrightarrow> list_all (\<lambda>e. graph_node g (pe_to e) \<noteq> None) (pg_edges g)"
  "errors_of (goal_gate_has_retry g) = []"
  "errors_of (retry_target_not_terminal p) = [] \<longleftrightarrow>
     list_all (\<lambda>(_, _, _, t). \<not> is_exit p t) (retry_targets (pl_graph p))"
  "errors_of (start_no_incoming p) = [] \<longleftrightarrow> list_all (\<lambda>e. pe_to e \<noteq> pl_start p) (pg_edges (pl_graph p))"
  "errors_of (exit_no_outgoing p) = [] \<longleftrightarrow> list_all (\<lambda>x. plan_outgoing p x = []) (pl_exits p)"
  "errors_of (prompt_on_llm_nodes p) = []"
  by (auto simp: edge_target_exists_def goal_gate_has_retry_def retry_target_not_terminal_def
      start_no_incoming_def exit_no_outgoing_def prompt_on_llm_nodes_def errors_of_map errors_of_def
      filter_empty_conv list_all_iff list_ex_iff)

lemma errors_reachability:
  "errors_of (reachability p) = [] \<longleftrightarrow> list_all (\<lambda>r. reachable p (rn_id r)) (hm_values (pl_nodes p))"
proof -
  obtain v where "bfs_visited p = Some v" "\<forall>i. i \<in> set v \<longleftrightarrow> reachable p i"
    using bfs_visited_correct by blast
  then show ?thesis
    by (auto simp: reachability_def unreachable_nodes_def errors_of_map filter_empty_conv list_all_iff)
qed

lemma validate_plan_clean: "errors_of (validate_plan fmt2 p) = [] \<longleftrightarrow> plan_clean p"
  by (auto simp: validate_plan_def validate_nonsemantic_structure_def validate_plan_structure_def
      errors_structure errors_condition_syntax errors_retry_target_exists errors_reachability
      plan_clean_def edge_sound_def list_all_iff)

lemma resolve_all_rejected: "resolve_all fmt b cat policy g is z \<noteq> Inl (Rejected ds)"
proof (induction "is" arbitrary: z)
  case (Cons i "is")
  have "resolve_step fmt b cat policy g i z \<noteq> Inl (Rejected ds)"
    by (simp add: resolve_step_def split: option.split sum.split plan_failure.split)
  with Cons show ?case by (auto simp: rbind_eq_Inl)
qed simp

lemma rmap_Inl: "rmap f xs = Inl e \<Longrightarrow> \<exists>x \<in> set xs. f x = Inl e"
  by (induction xs) (auto simp: rbind_eq_Inl)

lemma with_source_rejected: "with_source g nodes f is \<noteq> Inl (Rejected ds)"
  by (auto simp: with_source_def rbind_eq_Inl dest!: rmap_Inl split: option.splits)

lemma collect_capabilities_rejected: "collect_capabilities cat nodes \<noteq> Inl (Rejected ds)"
  by (auto simp: collect_capabilities_def rbind_eq_Inl dest!: rmap_Inl split: option.splits)

lemma insert_defaults_rejected: "insert_defaults is nodes ns \<noteq> Inl (Rejected ds)"
  by (induction "is" nodes ns rule: insert_defaults.induct) (auto split: option.splits)

lemma run_transforms_rejected: "run_transforms fmt fmt2 g es \<noteq> Inl (Rejected ds)"
  by (simp add: run_transforms_def split: sum.split css_failure.split)

lemma compile_rejected_nonempty: "compile_with_policy fmt fmt2 b g cat policy \<noteq> Inl (Rejected [])"
proof -
  obtain g1 d1 where "normalize_aliases g = (g1, d1)" by (metis surj_pair)
  then show ?thesis
    by (auto simp: compile_with_policy_def Let_def rbind_eq_Inl run_transforms_rejected
        resolve_all_rejected with_source_rejected collect_capabilities_rejected
        insert_defaults_rejected validate_supported_execution_capabilities_def
        validate_beads_attributes_def split: if_splits)
qed

lemma errors_semantic: "errors_of (map semantic_diagnostic ds) = map semantic_diagnostic ds"
  by (simp add: errors_of_map semantic_diagnostic_def)

lemma errors_beads:
  "errors_of (validate_beads_available p found) = [] \<longleftrightarrow> found \<or> beads_nodes p = []"
proof -
  have "errors_of (beads_unavailable p found) = beads_unavailable p found"
    by (auto simp: beads_unavailable_def errors_of_def case_prod_beta')
  then show ?thesis by (auto simp: validate_beads_available_def beads_unavailable_def errors_of_def)
qed

text \<open>
  Property C35. Validation is exact: a graph passes \<open>validate_or_raise\<close> precisely when it compiles
  and the plan is clean - every edge leads to an existing node other than the start and has
  a condition that parses, no retry target of a node or of the graph is an exit, the exit
  has no outgoing edge, every node is reachable - and Beads is there if a node needs it.
\<close>

theorem validate_or_raise_exact:
  "(\<exists>ls. validate_or_raise fmt fmt2 b found g = Inr (Inr ls)) =
   (\<exists>p. compile_plan fmt fmt2 b g = Inr p \<and> plan_clean p \<and> (found \<or> beads_nodes p = []))"
proof (cases "compile_plan fmt fmt2 b g")
  case (Inr p)
  then show ?thesis
    by (auto simp: validate_or_raise_def validate_def validate_plan_clean errors_beads)
next
  case (Inl f)
  show ?thesis
  proof (cases f)
    case PlanPanic
    with Inl show ?thesis by (simp add: validate_or_raise_def validate_def)
  next
    case (Rejected ds)
    have "ds \<noteq> []"
      using Inl Rejected compile_rejected_nonempty by (auto simp: compile_plan_def rbind_eq_Inl)
    moreover have "validate fmt fmt2 b found g = Inl PlanPanic
      \<or> (\<exists>ls. validate fmt fmt2 b found g = Inr (ls @ map semantic_diagnostic ds))"
    proof (cases "compile_for_generation fmt fmt2 b g Claude")
      case (Inl h)
      then show ?thesis
        using \<open>compile_plan fmt fmt2 b g = Inl f\<close> Rejected by (cases h) (auto simp: validate_def)
    next
      case (Inr q)
      then show ?thesis
        using \<open>compile_plan fmt fmt2 b g = Inl f\<close> Rejected by (cases q) (auto simp: validate_def)
    qed
    ultimately show ?thesis
      using Inl by (auto simp: validate_or_raise_def errors_semantic)
  qed
qed

end
