(* ===== verification/Run_Configuration.thy ===== *)
theory Run_Configuration
  imports Validation
begin

text \<open>
  Typed run controls (\<open>crates/attractor-pipeline/src/run_configuration.rs\<close>): reserved context keys,
  the limits of a run with their sources, and the checks of \<open>RunConfiguration::prepare\<close>. The
  parts of \<open>prepare\<close> that only look at the file system (the working directory, the manifest
  lookup, the skill and extension paths, the Claude options) are one argument each: the
  outcome of that part, which \<open>prepare_run\<close> of the theory of agent controls computes.
\<close>

section \<open>Reserved keys\<close>

definition is_reserved_key :: "str \<Rightarrow> bool" where
  "is_reserved_key k \<longleftrightarrow>
     k \<in> set [''dry_run'', ''workdir'', ''max_steps'', ''max_budget_usd'', ''quality_disabled'',
              ''quality_max_fix_iterations'', ''outcome'', ''preferred_label'']
     \<or> starts_with ''codergen.claude.'' k \<or> starts_with ''codergen.pi.'' k \<or> k = ''codergen.skills''
     \<or> starts_with ''__pas.'' k \<or> starts_with ''__pas::'' k"

text \<open>
  \<open>json!\<close> of an attribute; a duration of more than \<open>u64::MAX\<close> milliseconds does not fit a JSON
  number and makes the macro panic (\<^const>\<open>None\<close>). A number that is not finite is null.
\<close>

fun attr_to_json :: "attribute_value \<Rightarrow> json option" where
  "attr_to_json (AString s) = Some (JStr s)"
| "attr_to_json (AInteger i) = Some (JInt i)"
| "attr_to_json (AFloat x) = Some (case x of Fin m e \<Rightarrow> JFloat x | _ \<Rightarrow> JNull)"
| "attr_to_json (ABoolean b) = Some (JBool b)"
| "attr_to_json (ADuration ms) = (if ms \<le> u64_max then Some (JInt (int ms)) else None)"

section \<open>Controls\<close>

datatype configuration_source = Caller | Manifest | GraphSource | BuiltIn

record 'a resolved_value =
  rv_value :: 'a
  rv_source :: configuration_source

datatype configuration_error =
    ReservedGraphAttribute str
  | InvalidConfiguration str
  | WorkdirError str str
  | ManifestError str

fun configuration_error_display :: "configuration_error \<Rightarrow> str" where
  "configuration_error_display (ReservedGraphAttribute k) =
     ''graph attribute '' @ sq k @ '' is reserved for typed run configuration''"
| "configuration_error_display (InvalidConfiguration m) = ''invalid run configuration: '' @ m"
| "configuration_error_display (WorkdirError p e) = ''failed to resolve workdir '' @ p @ '': '' @ e"
| "configuration_error_display (ManifestError m) = ''failed to resolve pas.toml: '' @ m"

record execution_options =
  eo_dry_run :: "bool option"
  eo_max_steps :: "nat option"
  eo_max_budget :: "f64 option"
  eo_workdir :: "str option"
  eo_quality_disabled :: "bool option"
  eo_quality_max :: "nat option"

definition default_options :: execution_options where
  "default_options =
     \<lparr>eo_dry_run = None, eo_max_steps = None, eo_max_budget = None, eo_workdir = None,
      eo_quality_disabled = None, eo_quality_max = None\<rparr>"

definition resolve_option :: "'a option \<Rightarrow> 'a \<Rightarrow> 'a resolved_value" where
  "resolve_option v d =
     (case v of Some x \<Rightarrow> \<lparr>rv_value = x, rv_source = Caller\<rparr> | None \<Rightarrow> \<lparr>rv_value = d, rv_source = BuiltIn\<rparr>)"

definition u32_max_int :: int where "u32_max_int = 2 ^ 32 - 1"

text \<open>The limit of one quality node: caller, then manifest, then graph attribute, then three.\<close>

definition graph_limit :: "str \<Rightarrow> pipeline_node \<Rightarrow> nat option + configuration_error" where
  "graph_limit i n =
     (case hm_get (pn_raw n) ''max_fix_iterations'' of
        None \<Rightarrow> Inl None
      | Some (AInteger v) \<Rightarrow>
          if 0 < v \<and> v \<le> u32_max_int then Inl (Some (nat v))
          else Inr (InvalidConfiguration (''quality node '' @ sq i
            @ '' max_fix_iterations must be a positive integer no greater than '' @ show_int u32_max_int))
      | Some _ \<Rightarrow>
          Inr (InvalidConfiguration (''quality node '' @ sq i
            @ '' max_fix_iterations must be a positive integer'')))"

definition choose_limit :: "nat option \<Rightarrow> nat option \<Rightarrow> nat option \<Rightarrow> nat resolved_value" where
  "choose_limit caller manifest graph =
     (case caller of
        Some v \<Rightarrow> \<lparr>rv_value = v, rv_source = Caller\<rparr>
      | None \<Rightarrow> (case manifest of
          Some v \<Rightarrow> \<lparr>rv_value = v, rv_source = Manifest\<rparr>
        | None \<Rightarrow> (case graph of
            Some v \<Rightarrow> \<lparr>rv_value = v, rv_source = GraphSource\<rparr>
          | None \<Rightarrow> \<lparr>rv_value = 3, rv_source = BuiltIn\<rparr>)))"

datatype 'a config_result = ConfigOk 'a | ConfigError configuration_error | ConfigPanic

fun quality_limits ::
  "execution_plan \<Rightarrow> nat option \<Rightarrow> nat option \<Rightarrow> resolved_node list \<Rightarrow> nat resolved_value hmap
   \<Rightarrow> nat resolved_value hmap config_result" where
  "quality_limits p caller manifest [] m = ConfigOk m"
| "quality_limits p caller manifest (r # rs) m =
     (if rn_handler r \<noteq> HQuality then quality_limits p caller manifest rs m
      else case source_node p (rn_id r) of
             None \<Rightarrow> ConfigPanic
           | Some n \<Rightarrow>
               (case graph_limit (rn_id r) n of
                  Inr e \<Rightarrow> ConfigError e
                | Inl g \<Rightarrow>
                    quality_limits p caller manifest rs (hm_insert (rn_id r) (choose_limit caller manifest g) m)))"

definition resolve_quality_limits ::
  "execution_plan \<Rightarrow> execution_options \<Rightarrow> nat option \<Rightarrow> nat resolved_value hmap config_result" where
  "resolve_quality_limits p opts manifest =
     (if eo_quality_max opts = Some 0
      then ConfigError (InvalidConfiguration ''quality_max_fix_iterations must be greater than zero'')
      else if manifest = Some 0
      then ConfigError (InvalidConfiguration ''[quality].max_fix_iterations must be greater than zero'')
      else quality_limits p (eo_quality_max opts) manifest (hm_values (pl_nodes p)) [])"

record controls =
  ct_dry_run :: "bool resolved_value"
  ct_max_steps :: "nat resolved_value"
  ct_max_budget :: "f64 resolved_value"
  ct_workdir :: "str resolved_value"
  ct_quality_disabled :: "bool resolved_value"
  ct_quality_max :: "nat resolved_value hmap"

record run_configuration =
  rc_plan :: execution_plan
  rc_controls :: controls
  rc_defaults :: "json hmap"

definition default_max_budget :: f64 where "default_max_budget = f64_of_int 200"

fun graph_defaults :: "attrs \<Rightarrow> json hmap option" where
  "graph_defaults [] = Some []"
| "graph_defaults ((k, v) # r) =
     (case (attr_to_json v, graph_defaults r) of
        (Some j, Some m) \<Rightarrow> Some ((k, j) # m) | _ \<Rightarrow> None)"

text \<open>
  \<open>workdir\<close> is the canonical working directory or its error, \<open>manifest\<close> the quality limit of
  \<open>pas.toml\<close> or the manifest's error, \<open>claude\<close> and \<open>paths\<close> the errors of the Claude options and of
  the path checks.
\<close>

definition prepare ::
  "configuration_error + str \<Rightarrow> configuration_error + nat option \<Rightarrow> configuration_error option
   \<Rightarrow> configuration_error option \<Rightarrow> execution_plan \<Rightarrow> execution_options
   \<Rightarrow> run_configuration config_result" where
  "prepare workdir manifest claude paths p opts =
     (case sort (filter is_reserved_key (hm_keys (pg_attrs (pl_graph p)))) of
        k # _ \<Rightarrow> ConfigError (ReservedGraphAttribute k)
      | [] \<Rightarrow>
     (case graph_defaults (pg_attrs (pl_graph p)) of
        None \<Rightarrow> ConfigPanic
      | Some defaults \<Rightarrow>
     (case workdir of
        Inl e \<Rightarrow> ConfigError e
      | Inr wd \<Rightarrow>
     (case manifest of
        Inl e \<Rightarrow> ConfigError e
      | Inr limit \<Rightarrow>
     (case resolve_quality_limits p opts limit of
        ConfigError e \<Rightarrow> ConfigError e
      | ConfigPanic \<Rightarrow> ConfigPanic
      | ConfigOk limits \<Rightarrow>
     (case claude of
        Some e \<Rightarrow> ConfigError e
      | None \<Rightarrow>
     (case paths of
        Some e \<Rightarrow> ConfigError e
      | None \<Rightarrow>
        (let c = \<lparr>ct_dry_run = resolve_option (eo_dry_run opts) False,
                  ct_max_steps = resolve_option (eo_max_steps opts) 200,
                  ct_max_budget = resolve_option (eo_max_budget opts) default_max_budget,
                  ct_workdir = \<lparr>rv_value = wd,
                    rv_source = if eo_workdir opts = None then BuiltIn else Caller\<rparr>,
                  ct_quality_disabled = resolve_option (eo_quality_disabled opts) False,
                  ct_quality_max = limits\<rparr>
         in if rv_value (ct_max_steps c) = 0
            then ConfigError (InvalidConfiguration ''max_steps must be greater than zero'')
            else if \<not> f64_finite (rv_value (ct_max_budget c))
                    \<or> f64_gt (f64_of_int 0) (rv_value (ct_max_budget c))
            then ConfigError (InvalidConfiguration ''max_budget_usd must be finite and non-negative'')
            else ConfigOk \<lparr>rc_plan = p, rc_controls = c, rc_defaults = defaults\<rparr>))))))))"

section \<open>Properties\<close>

lemma quality_limits_keep:
  "quality_limits p caller manifest rs m = ConfigOk m' \<Longrightarrow> hm_get m k \<noteq> None \<Longrightarrow> hm_get m' k \<noteq> None"
  by (induction p caller manifest rs m rule: quality_limits.induct)
     (auto split: if_splits option.splits sum.splits)

lemma quality_limits_get:
  "quality_limits p caller manifest rs m = ConfigOk m' \<Longrightarrow> r \<in> set rs \<Longrightarrow> rn_handler r = HQuality
   \<Longrightarrow> hm_get m' (rn_id r) \<noteq> None"
proof (induction p caller manifest rs m rule: quality_limits.induct)
  case (2 p caller manifest r' rs m)
  show ?case
  proof (cases "rn_handler r' = HQuality")
    case False
    with 2 show ?thesis by auto
  next
    case True
    with 2 obtain n g where n: "source_node p (rn_id r') = Some n" "graph_limit (rn_id r') n = Inl g"
      "quality_limits p caller manifest rs (hm_insert (rn_id r') (choose_limit caller manifest g) m) = ConfigOk m'"
      by (auto split: option.splits sum.splits)
    show ?thesis
    proof (cases "r = r'")
      case eq: True
      with quality_limits_keep [OF n(3), of "rn_id r'"] show ?thesis by simp
    next
      case False
      with 2 True n show ?thesis by auto
    qed
  qed
qed simp

lemma graph_limit_pos: "graph_limit i n = Inl (Some v) \<Longrightarrow> 1 \<le> v"
  by (auto simp: graph_limit_def split: option.splits attribute_value.splits if_splits)

lemma choose_limit_pos:
  "caller \<noteq> Some 0 \<Longrightarrow> manifest \<noteq> Some 0 \<Longrightarrow> g \<noteq> Some 0 \<Longrightarrow> 1 \<le> rv_value (choose_limit caller manifest g)"
  by (auto simp: choose_limit_def split: option.splits)

lemma quality_limits_pos:
  "quality_limits p caller manifest rs m = ConfigOk m' \<Longrightarrow> caller \<noteq> Some 0 \<Longrightarrow> manifest \<noteq> Some 0
   \<Longrightarrow> (\<And>k v. hm_get m k = Some v \<Longrightarrow> 1 \<le> rv_value v) \<Longrightarrow> hm_get m' k = Some v \<Longrightarrow> 1 \<le> rv_value v"
proof (induction p caller manifest rs m rule: quality_limits.induct)
  case (2 p caller manifest r rs m)
  show ?case
  proof (cases "rn_handler r = HQuality")
    case False
    with 2 show ?thesis by simp
  next
    case True
    with 2 obtain n g where n: "source_node p (rn_id r) = Some n" "graph_limit (rn_id r) n = Inl g"
      "quality_limits p caller manifest rs (hm_insert (rn_id r) (choose_limit caller manifest g) m) = ConfigOk m'"
      by (auto split: option.splits sum.splits)
    have "g \<noteq> Some 0" using graph_limit_pos [of "rn_id r" n 0] n(2) by auto
    then have "1 \<le> rv_value v" if "hm_get (hm_insert (rn_id r) (choose_limit caller manifest g) m) k = Some v" for k v
      using that 2 choose_limit_pos [of caller manifest g] by (auto split: if_splits)
    with 2 True n show ?thesis by auto
  qed
qed simp

definition config_ok :: "run_configuration \<Rightarrow> bool" where
  "config_ok rc \<longleftrightarrow>
     0 < rv_value (ct_max_steps (rc_controls rc))
     \<and> f64_finite (rv_value (ct_max_budget (rc_controls rc)))
     \<and> \<not> f64_gt (f64_of_int 0) (rv_value (ct_max_budget (rc_controls rc)))
     \<and> list_all (\<lambda>k. \<not> is_reserved_key k) (hm_keys (rc_defaults rc))
     \<and> list_all (\<lambda>r. rn_handler r = HQuality \<longrightarrow>
          (case hm_get (ct_quality_max (rc_controls rc)) (rn_id r) of None \<Rightarrow> False | Some v \<Rightarrow> 1 \<le> rv_value v))
        (hm_values (pl_nodes (rc_plan rc)))"

lemma graph_defaults_keys: "graph_defaults a = Some m \<Longrightarrow> hm_keys m = hm_keys a"
  by (induction a arbitrary: m rule: graph_defaults.induct) (auto simp: hm_keys_def split: option.splits)

lemma sort_filter_Nil: "sort (filter P xs) = [] \<Longrightarrow> list_all (\<lambda>x. \<not> P x) xs"
  by (simp add: filter_empty_conv list_all_iff)

lemma prepare_ok:
  assumes "prepare workdir manifest claude paths p opts = ConfigOk rc"
  shows "config_ok rc \<and> rc_plan rc = p
    \<and> ct_max_steps (rc_controls rc) = resolve_option (eo_max_steps opts) 200
    \<and> ct_max_budget (rc_controls rc) = resolve_option (eo_max_budget opts) default_max_budget"
proof -
  from assms obtain limit limits where
    nores: "sort (filter is_reserved_key (hm_keys (pg_attrs (pl_graph p)))) = []"
    and defs: "graph_defaults (pg_attrs (pl_graph p)) = Some (rc_defaults rc)"
    and lim: "resolve_quality_limits p opts limit = ConfigOk limits" "ct_quality_max (rc_controls rc) = limits"
    and rest: "rc_plan rc = p" "ct_max_steps (rc_controls rc) = resolve_option (eo_max_steps opts) 200"
      "ct_max_budget (rc_controls rc) = resolve_option (eo_max_budget opts) default_max_budget"
      "rv_value (ct_max_steps (rc_controls rc)) \<noteq> 0"
      "f64_finite (rv_value (ct_max_budget (rc_controls rc)))"
      "\<not> f64_gt (f64_of_int 0) (rv_value (ct_max_budget (rc_controls rc)))"
    by (auto simp: prepare_def Let_def split: list.splits option.splits sum.splits config_result.splits if_splits)
  from lim(1) have q: "quality_limits p (eo_quality_max opts) limit (hm_values (pl_nodes p)) [] = ConfigOk limits"
    "eo_quality_max opts \<noteq> Some 0" "limit \<noteq> Some 0"
    by (auto simp: resolve_quality_limits_def split: if_splits)
  have "\<exists>v. hm_get limits (rn_id r) = Some v \<and> 1 \<le> rv_value v"
    if "r \<in> set (hm_values (pl_nodes p))" "rn_handler r = HQuality" for r
    using quality_limits_get [OF q(1) that] quality_limits_pos [OF q(1,2,3)] by auto
  then show ?thesis
    using rest lim(2) sort_filter_Nil [OF nores] graph_defaults_keys [OF defs]
    by (fastforce simp: config_ok_def list_all_iff)
qed

text \<open>
  A prepared configuration can be run: the step limit is positive, the budget is a
  finite non-negative number, no graph attribute that enters the context has a reserved key,
  and every quality node of the plan has a limit of at least one, so that the engine's lookup
  of the limit cannot panic; the caller's limit wins over the manifest's and the graph's.
\<close>

theorem prepare_sound:
  assumes "prepare workdir manifest claude paths p opts = ConfigOk rc"
  shows "config_ok rc \<and> rc_plan rc = p
    \<and> ct_max_steps (rc_controls rc) = resolve_option (eo_max_steps opts) 200
    \<and> ct_max_budget (rc_controls rc) = resolve_option (eo_max_budget opts) default_max_budget"
  using assms by (rule prepare_ok)

definition prepared_example :: "run_configuration config_result" where
  "prepared_example = prepare (Inr ''/w'') (Inr None) None None (compiled_example None) default_options"

theorem prepare_sound_witness:
  "\<exists>rc. config_ok rc \<and> rc_plan rc = compiled_example None
    \<and> ct_max_steps (rc_controls rc) = resolve_option (eo_max_steps default_options) 200
    \<and> ct_max_budget (rc_controls rc) = resolve_option (eo_max_budget default_options) default_max_budget"
proof -
  have "case prepared_example of ConfigOk rc \<Rightarrow> True | _ \<Rightarrow> False" by code_simp
  then obtain rc where "prepare (Inr ''/w'') (Inr None) None None (compiled_example None) default_options = ConfigOk rc"
    by (auto simp: prepared_example_def split: config_result.splits)
  from prepare_sound [OF this] show ?thesis by blast
qed

end
