(* ===== verification/Checkpoint.thy ===== *)
theory Checkpoint
  imports Types
begin

text \<open>
  Checkpoints (\<open>crates/attractor-pipeline/src/checkpoint.rs\<close>): the snapshot, saving it through a
  temporary file, loading, validating and clearing it. Files are a map from paths to
  contents. Every primitive step on them may fail with an I/O error; \<open>fail\<close> says whether it
  does, and how many bytes a failing write has written. \<open>ser\<close> and \<open>de\<close> are the JSON encoder and
  decoder that \<open>serde_json\<close> derives for the record.
\<close>

section \<open>Data\<close>

record checkpoint =
  cp_current :: str
  cp_completed :: "str list"
  cp_outcomes :: "outcome hmap"
  cp_context :: "json hmap"
  cp_timestamp :: str
  cp_run_id :: "str option"
  cp_session_id :: "str option"
  cp_step_count :: nat
  cp_total_cost :: f64
  cp_schema_version :: nat
  cp_counters :: "nat hmap"
  cp_footprints :: "str hmap"
  cp_previous :: "str option"
  cp_total_attempts :: nat
  cp_active_node :: "str option"
  cp_active_attempts :: nat
  cp_fingerprint :: "str option"

definition checkpoint_schema_version :: nat where "checkpoint_schema_version = 3"

definition checkpoint_new ::
  "str \<Rightarrow> str \<Rightarrow> str list \<Rightarrow> outcome hmap \<Rightarrow> json hmap \<Rightarrow> checkpoint" where
  "checkpoint_new now current completed outcomes snapshot =
     \<lparr>cp_current = current, cp_completed = completed, cp_outcomes = outcomes, cp_context = snapshot,
      cp_timestamp = now, cp_run_id = None, cp_session_id = None, cp_step_count = 0,
      cp_total_cost = f64_of_int 0, cp_schema_version = checkpoint_schema_version, cp_counters = [],
      cp_footprints = [], cp_previous = None, cp_total_attempts = 0, cp_active_node = None,
      cp_active_attempts = 0, cp_fingerprint = None\<rparr>"

definition with_quality_counters ::
  "str \<Rightarrow> str \<Rightarrow> str list \<Rightarrow> outcome hmap \<Rightarrow> json hmap \<Rightarrow> nat \<Rightarrow> f64 \<Rightarrow> nat hmap \<Rightarrow> str hmap \<Rightarrow> str option
   \<Rightarrow> str option \<Rightarrow> checkpoint" where
  "with_quality_counters now current completed outcomes snapshot steps cost counters footprints prev fp =
     \<lparr>cp_current = current, cp_completed = completed, cp_outcomes = outcomes, cp_context = snapshot,
      cp_timestamp = now, cp_run_id = None, cp_session_id = None, cp_step_count = steps,
      cp_total_cost = cost, cp_schema_version = checkpoint_schema_version, cp_counters = counters,
      cp_footprints = footprints, cp_previous = prev, cp_total_attempts = 0, cp_active_node = None,
      cp_active_attempts = 0, cp_fingerprint = fp\<rparr>"

section \<open>Files\<close>

type_synonym files = "str hmap"

datatype io_op =
    CreateDir str
  | CreateFile str
  | WriteAll str str
  | SyncAll str
  | RenameFile str str
  | TryExists str
  | ReadToString str
  | RemoveFile str

type_synonym io_fail = "io_op \<Rightarrow> (str \<times> nat) option"

fun apply_io :: "io_op \<Rightarrow> files \<Rightarrow> files" where
  "apply_io (CreateFile p) fs = hm_insert p [] fs"
| "apply_io (WriteAll p text) fs =
     hm_insert p ((case hm_get fs p of Some old \<Rightarrow> old | None \<Rightarrow> []) @ text) fs"
| "apply_io (RenameFile a b) fs =
     (case hm_get fs a of Some text \<Rightarrow> hm_insert b text (hm_remove a fs) | None \<Rightarrow> fs)"
| "apply_io (RemoveFile p) fs = hm_remove p fs"
| "apply_io _ fs = fs"

text \<open>What a failing step leaves behind: a failing write has written a prefix.\<close>

fun apply_failed :: "io_op \<Rightarrow> nat \<Rightarrow> files \<Rightarrow> files" where
  "apply_failed (WriteAll p text) k fs = apply_io (WriteAll p (take k text)) fs"
| "apply_failed _ k fs = fs"

fun run_io :: "io_fail \<Rightarrow> io_op list \<Rightarrow> files \<Rightarrow> unit result \<times> files" where
  "run_io fail [] fs = (Inr (), fs)"
| "run_io fail (op # ops) fs =
     (case fail op of
        Some (e, k) \<Rightarrow> (Inl (IoError e), apply_failed op k fs)
      | None \<Rightarrow> run_io fail ops (apply_io op fs))"

definition join_path :: "str \<Rightarrow> str \<Rightarrow> str" where
  "join_path dir name = dir @ ''/'' @ name"

definition checkpoint_path :: "str \<Rightarrow> str" where
  "checkpoint_path logs_root = join_path logs_root ''checkpoint.json''"

definition checkpoint_tmp :: "str \<Rightarrow> str" where
  "checkpoint_tmp logs_root = join_path logs_root ''checkpoint.json.tmp''"

section \<open>Operations\<close>

definition save_ops :: "str \<Rightarrow> str \<Rightarrow> io_op list" where
  "save_ops logs_root text =
     [CreateFile (checkpoint_tmp logs_root), WriteAll (checkpoint_tmp logs_root) text,
      SyncAll (checkpoint_tmp logs_root),
      RenameFile (checkpoint_tmp logs_root) (checkpoint_path logs_root)]"

definition save_checkpoint ::
  "(checkpoint \<Rightarrow> str result) \<Rightarrow> io_fail \<Rightarrow> checkpoint \<Rightarrow> str \<Rightarrow> files \<Rightarrow> str result \<times> files" where
  "save_checkpoint ser fail cp logs_root fs =
     (case run_io fail [CreateDir logs_root] fs of
        (Inl e, fs) \<Rightarrow> (Inl e, fs)
      | (Inr _, fs) \<Rightarrow>
          (case ser cp of
             Inl e \<Rightarrow> (Inl e, fs)
           | Inr text \<Rightarrow>
               (case run_io fail (save_ops logs_root text) fs of
                  (Inl e, fs) \<Rightarrow> (Inl e, fs)
                | (Inr _, fs) \<Rightarrow> (Inr (checkpoint_path logs_root), fs))))"

definition load_checkpoint ::
  "(str \<Rightarrow> checkpoint result) \<Rightarrow> io_fail \<Rightarrow> str \<Rightarrow> files \<Rightarrow> checkpoint option result" where
  "load_checkpoint de fail logs_root fs =
     (let p = checkpoint_path logs_root
      in case fail (TryExists p) of
           Some (e, _) \<Rightarrow> Inl (IoError e)
         | None \<Rightarrow>
             (case hm_get fs p of
                None \<Rightarrow> Inr None
              | Some text \<Rightarrow>
                  (case fail (ReadToString p) of
                     Some (e, _) \<Rightarrow> Inl (IoError e)
                   | None \<Rightarrow> rbind (de text) (\<lambda>cp. Inr (Some cp)))))"

definition validate_checkpoint :: "checkpoint \<Rightarrow> str \<Rightarrow> str \<Rightarrow> unit result" where
  "validate_checkpoint cp current path =
     (if checkpoint_schema_version < cp_schema_version cp
      then Inl (CheckpointIncompatible path
        (''schema version '' @ show_nat (cp_schema_version cp)
         @ '' was written by a newer PAS than this build (understands up to ''
         @ show_nat checkpoint_schema_version
         @ ''); run with that PAS or pass --fresh to discard it''))
      else case cp_fingerprint cp of
             Some recorded \<Rightarrow>
               if recorded \<noteq> current
               then Inl (CheckpointIncompatible path
                 (''execution fingerprint '' @ recorded @ '' does not match the current pipeline (''
                  @ current @ ''); the DOT changed in a way that alters execution semantics. ''
                  @ ''Re-run with --fresh or restore the original DOT''))
               else Inr ()
           | None \<Rightarrow> Inr ())"

definition clear_checkpoint :: "io_fail \<Rightarrow> str \<Rightarrow> files \<Rightarrow> unit result \<times> files" where
  "clear_checkpoint fail logs_root fs =
     (let p = checkpoint_path logs_root
      in case fail (TryExists p) of
           Some (e, _) \<Rightarrow> (Inl (IoError e), fs)
         | None \<Rightarrow> if hm_get fs p = None then (Inr (), fs) else run_io fail [RemoveFile p] fs)"

section \<open>Properties\<close>

lemma tmp_not_path [simp]: "checkpoint_tmp d \<noteq> checkpoint_path d" "checkpoint_path d \<noteq> checkpoint_tmp d"
  by (simp_all add: checkpoint_tmp_def checkpoint_path_def join_path_def)

text \<open>
  Property C38. Saving is atomic, whatever step fails or whenever the process dies: afterwards
  \<open>checkpoint.json\<close> holds either its old content or the complete new text, and it holds the new
  text when the save succeeds.
\<close>

theorem save_atomic:
  "case save_checkpoint ser fail cp d fs of
     (Inr p, fs') \<Rightarrow> p = checkpoint_path d \<and> (\<exists>text. ser cp = Inr text \<and> hm_get fs' p = Some text)
   | (Inl e, fs') \<Rightarrow> hm_get fs' (checkpoint_path d) = hm_get fs (checkpoint_path d)"
proof (cases "fail (CreateDir d)")
  case None
  show ?thesis
  proof (cases "ser cp")
    case (Inr body)
    with None show ?thesis
      by (auto simp: save_checkpoint_def save_ops_def split: option.splits)
  qed (simp add: save_checkpoint_def None)
qed (auto simp: save_checkpoint_def)

text \<open>
  What the program relies on of the JSON codec: decoding an encoded checkpoint gives it back,
  without the field that is never written, as long as its numbers are finite (JSON has no
  infinities).
\<close>

definition codec_ok :: "(checkpoint \<Rightarrow> str result) \<Rightarrow> (str \<Rightarrow> checkpoint result) \<Rightarrow> bool" where
  "codec_ok ser de \<longleftrightarrow>
     (\<forall>cp text. ser cp = Inr text \<longrightarrow> f64_finite (cp_total_cost cp)
        \<longrightarrow> de text = Inr (cp\<lparr>cp_session_id := None\<rparr>))"

lemma save_content:
  "save_checkpoint ser fail cp d fs = (Inr p, fs') \<Longrightarrow>
     \<exists>text. ser cp = Inr text \<and> hm_get fs' (checkpoint_path d) = Some text"
  by (auto simp: save_checkpoint_def save_ops_def split: option.splits sum.splits prod.splits)

lemma save_then_load:
  assumes "codec_ok ser de" "f64_finite (cp_total_cost cp)"
    "save_checkpoint ser fail cp d fs = (Inr p, fs')"
    "fail' (TryExists (checkpoint_path d)) = None" "fail' (ReadToString (checkpoint_path d)) = None"
  shows "load_checkpoint de fail' d fs' = Inr (Some (cp\<lparr>cp_session_id := None\<rparr>))"
  using save_content [OF assms(3)] assms by (auto simp: load_checkpoint_def codec_ok_def)

text \<open>
  A saved checkpoint can be resumed: loading it gives the saved state back, and the
  validation accepts it exactly when the current plan has the fingerprint it was saved with;
  once it is cleared, nothing is loaded.
\<close>

theorem checkpoint_roundtrip:
  assumes "codec_ok ser de" "f64_finite cost"
    and "save_checkpoint ser fail
           (with_quality_counters now cur completed outs ctx steps cost counters fps prev (Some fp)) d fs = (Inr p, fs')"
    and "\<And>op. fail' op = None" and "hm_wf fs'"
  shows "load_checkpoint de fail' d fs' =
           Inr (Some (with_quality_counters now cur completed outs ctx steps cost counters fps prev (Some fp)))
    \<and> (validate_checkpoint (with_quality_counters now cur completed outs ctx steps cost counters fps prev (Some fp))
          current path = Inr ()) = (fp = current)
    \<and> load_checkpoint de fail' d (snd (clear_checkpoint fail' d fs')) = Inr None"
proof (intro conjI)
  show "load_checkpoint de fail' d fs' =
      Inr (Some (with_quality_counters now cur completed outs ctx steps cost counters fps prev (Some fp)))"
    using save_then_load [OF assms(1) _ assms(3), of fail'] assms(2,4)
    by (simp add: with_quality_counters_def)
  show "(validate_checkpoint (with_quality_counters now cur completed outs ctx steps cost counters fps prev (Some fp))
          current path = Inr ()) = (fp = current)"
    by (simp add: validate_checkpoint_def with_quality_counters_def)
  show "load_checkpoint de fail' d (snd (clear_checkpoint fail' d fs')) = Inr None"
    using assms(4,5) by (auto simp: load_checkpoint_def clear_checkpoint_def Let_def hm.get_rem)
qed

definition codec_example :: checkpoint where
  "codec_example = with_quality_counters ''t'' ''a'' [] [] [] 1 (f64_of_int 0) [] [] None (Some ''f'')"

theorem checkpoint_roundtrip_witness:
  "load_checkpoint (\<lambda>_. Inr codec_example) (\<lambda>_. None) ''d'' [(checkpoint_path ''d'', ''text'')] =
     Inr (Some (with_quality_counters ''t'' ''a'' [] [] [] 1 (f64_of_int 0) [] [] None (Some ''f'')))
   \<and> (validate_checkpoint (with_quality_counters ''t'' ''a'' [] [] [] 1 (f64_of_int 0) [] [] None (Some ''f''))
        ''g'' ''p'' = Inr ()) = (''f'' = ''g'')
   \<and> load_checkpoint (\<lambda>_. Inr codec_example) (\<lambda>_. None) ''d''
       (snd (clear_checkpoint (\<lambda>_. None) ''d'' [(checkpoint_path ''d'', ''text'')])) = Inr None"
proof (rule checkpoint_roundtrip)
  show "codec_ok (\<lambda>c. if c = codec_example then Inr ''text'' else Inl (JsonError [])) (\<lambda>_. Inr codec_example)"
    by (auto simp: codec_ok_def codec_example_def with_quality_counters_def)
  show "f64_finite (f64_of_int 0)" by code_simp
  show "save_checkpoint (\<lambda>c. if c = codec_example then Inr ''text'' else Inl (JsonError [])) (\<lambda>_. None)
      (with_quality_counters ''t'' ''a'' [] [] [] 1 (f64_of_int 0) [] [] None (Some ''f'')) ''d'' []
      = (Inr (checkpoint_path ''d''), [(checkpoint_path ''d'', ''text'')])"
    by code_simp
  show "hm_wf [(checkpoint_path ''d'', ''text'')]" by (simp add: hm_wf_def)
qed simp

end
