(* ===== verification/Journal_Event.thy ===== *)
theory Journal_Event
  imports Types "HOL-Library.Monad_Syntax"
begin

text \<open>
  The Run Journal's envelope and event types (\<open>crates/attractor-journal/src/event.rs\<close>): the
  data of every event type, the JSON tree its derived \<open>Serialize\<close> writes, and the reader that
  rebuilds the event from the tree of a line, with events of unknown type kept as they are.

  A JSON tree is what serde_json reads from or writes to text: the fields of the outermost
  object as written, and below it serde_json's \<open>Value\<close>, whose objects have each key once. The text of
  a tree and the RFC 3339 text of a time are parameters where they are used. Errors of the
  readers carry serde's messages, which are not modelled: a reader returns an option.
\<close>

section \<open>Data of the events\<close>

datatype attempt_end_reason =
    EndCompleted | EndFailed | EndStopped | EndBudgetExhausted | EndMaxSteps | EndError

datatype answer_source = AnswerTerminal | AnswerMonitor | AnswerCli

record task_summary =
  ts_id :: str
  ts_title :: str
  ts_status :: str

record commit_ref =
  cr_sha :: str
  cr_subject :: str
  cr_author :: str
  cr_ts :: str

text \<open>A \<open>BTreeMap\<close> is the list of its entries, sorted by key.\<close>

type_synonym 'v btree = "(str \<times> 'v) list"

datatype event_data =
    JRunStarted str str str "str option" "f64 option" "nat option" bool
  | JAttemptStarted nat nat str "str list" "str option" "str option"
  | JAttemptEnded nat attempt_end_reason "str option"
  | JHeartbeat nat
  | JPipelineStarted str nat
  | JPipelineCompleted str "str list" nat
  | JPipelineFailed str str
  | JStageStarted str str
  | JStageCompleted str str nat
  | JStageFailed str str
  | JStageRetrying str nat
  | JEdgeSelected str str "str option"
  | JGoalGateChecked str bool
  | JCheckpointSaved str
  | JContextUpdated str "str list"
  | JEpicSnapshot str str "task_summary list"
  | JTaskClaimed str str str str
  | JTaskSelectionBlocked str "str list" "str list btree"
  | JTaskClosed str str bool "str list"
  | JLlmInvoked str str str "str option" "str option" "nat option" "nat option" "f64 option" nat str str
  | JCommitsCreated str "str option" "commit_ref list"
  | JHumanInputRequested str str str "str list" "str option"
  | JHumanInputAnswered str str answer_source
  | JStopRequested str
  | JUnknown str json

definition KNOWN_TYPES :: "str list" where
  "KNOWN_TYPES =
     [''RunStarted'', ''AttemptStarted'', ''AttemptEnded'', ''Heartbeat'', ''PipelineStarted'',
      ''PipelineCompleted'', ''PipelineFailed'', ''StageStarted'', ''StageCompleted'', ''StageFailed'',
      ''StageRetrying'', ''EdgeSelected'', ''GoalGateChecked'', ''CheckpointSaved'', ''ContextUpdated'',
      ''EpicSnapshot'', ''TaskClaimed'', ''TaskSelectionBlocked'', ''TaskClosed'', ''LlmInvoked'',
      ''CommitsCreated'', ''HumanInputRequested'', ''HumanInputAnswered'', ''StopRequested'']"

fun type_name :: "event_data \<Rightarrow> str" where
  "type_name (JRunStarted _ _ _ _ _ _ _) = ''RunStarted''"
| "type_name (JAttemptStarted _ _ _ _ _ _) = ''AttemptStarted''"
| "type_name (JAttemptEnded _ _ _) = ''AttemptEnded''"
| "type_name (JHeartbeat _) = ''Heartbeat''"
| "type_name (JPipelineStarted _ _) = ''PipelineStarted''"
| "type_name (JPipelineCompleted _ _ _) = ''PipelineCompleted''"
| "type_name (JPipelineFailed _ _) = ''PipelineFailed''"
| "type_name (JStageStarted _ _) = ''StageStarted''"
| "type_name (JStageCompleted _ _ _) = ''StageCompleted''"
| "type_name (JStageFailed _ _) = ''StageFailed''"
| "type_name (JStageRetrying _ _) = ''StageRetrying''"
| "type_name (JEdgeSelected _ _ _) = ''EdgeSelected''"
| "type_name (JGoalGateChecked _ _) = ''GoalGateChecked''"
| "type_name (JCheckpointSaved _) = ''CheckpointSaved''"
| "type_name (JContextUpdated _ _) = ''ContextUpdated''"
| "type_name (JEpicSnapshot _ _ _) = ''EpicSnapshot''"
| "type_name (JTaskClaimed _ _ _ _) = ''TaskClaimed''"
| "type_name (JTaskSelectionBlocked _ _ _) = ''TaskSelectionBlocked''"
| "type_name (JTaskClosed _ _ _ _) = ''TaskClosed''"
| "type_name (JLlmInvoked _ _ _ _ _ _ _ _ _ _ _) = ''LlmInvoked''"
| "type_name (JCommitsCreated _ _ _) = ''CommitsCreated''"
| "type_name (JHumanInputRequested _ _ _ _ _) = ''HumanInputRequested''"
| "type_name (JHumanInputAnswered _ _ _) = ''HumanInputAnswered''"
| "type_name (JStopRequested _) = ''StopRequested''"
| "type_name (JUnknown n _) = n"

fun is_unknown :: "event_data \<Rightarrow> bool" where
  "is_unknown (JUnknown _ _) = True"
| "is_unknown _ = False"

fun needs_fsync :: "event_data \<Rightarrow> bool" where
  "needs_fsync (JAttemptEnded _ _ _) = True"
| "needs_fsync (JHumanInputRequested _ _ _ _ _) = True"
| "needs_fsync _ = False"

section \<open>Writing: the derived serializers\<close>

definition jnat :: "nat \<Rightarrow> json" where "jnat n = JInt (int n)"

text \<open>serde_json writes a float that is not finite as \<open>null\<close>.\<close>

definition jf64 :: "f64 \<Rightarrow> json" where "jf64 x = (if f64_finite x then JFloat x else JNull)"

definition jstrs :: "str list \<Rightarrow> json" where "jstrs xs = JArr (map JStr xs)"

fun jnull :: "('a \<Rightarrow> json) \<Rightarrow> 'a option \<Rightarrow> json" where
  "jnull enc None = JNull"
| "jnull enc (Some v) = enc v"

text \<open>A field with \<open>skip_serializing_if = "Option::is_none"\<close>.\<close>

fun jskip :: "str \<Rightarrow> ('a \<Rightarrow> json) \<Rightarrow> 'a option \<Rightarrow> (str \<times> json) list" where
  "jskip name enc None = []"
| "jskip name enc (Some v) = [(name, enc v)]"

fun reason_name :: "attempt_end_reason \<Rightarrow> str" where
  "reason_name EndCompleted = ''completed''"
| "reason_name EndFailed = ''failed''"
| "reason_name EndStopped = ''stopped''"
| "reason_name EndBudgetExhausted = ''budget_exhausted''"
| "reason_name EndMaxSteps = ''max_steps''"
| "reason_name EndError = ''error''"

fun source_name :: "answer_source \<Rightarrow> str" where
  "source_name AnswerTerminal = ''terminal''"
| "source_name AnswerMonitor = ''monitor''"
| "source_name AnswerCli = ''cli''"

definition task_summary_json :: "task_summary \<Rightarrow> json" where
  "task_summary_json t =
     JObj [(''id'', JStr (ts_id t)), (''title'', JStr (ts_title t)), (''status'', JStr (ts_status t))]"

definition commit_ref_json :: "commit_ref \<Rightarrow> json" where
  "commit_ref_json c =
     JObj [(''sha'', JStr (cr_sha c)), (''subject'', JStr (cr_subject c)),
           (''author'', JStr (cr_author c)), (''ts'', JStr (cr_ts c))]"

text \<open>The fields of a known event, in the order of the declaration.\<close>

fun data_fields :: "event_data \<Rightarrow> (str \<times> json) list" where
  "data_fields (JRunStarted name path wd epic budget steps shared) =
     [(''pipeline_name'', JStr name), (''pipeline_path'', JStr path), (''workdir'', JStr wd)] @
     jskip ''epic_id'' JStr epic @
     [(''max_budget_usd'', jnull jf64 budget), (''max_steps'', jnull jnat steps),
      (''shared_workdir'', JBool shared)]"
| "data_fields (JAttemptStarted att pid ver argv head_opt resumed) =
     [(''attempt'', jnat att), (''pid'', jnat pid), (''pas_version'', JStr ver), (''argv'', jstrs argv)] @
     jskip ''git_head'' JStr head_opt @ jskip ''resumed_from_node'' JStr resumed"
| "data_fields (JAttemptEnded att reason msg) =
     [(''attempt'', jnat att), (''reason'', JStr (reason_name reason))] @ jskip ''message'' JStr msg"
| "data_fields (JHeartbeat pid) = [(''pid'', jnat pid)]"
| "data_fields (JPipelineStarted name n) = [(''pipeline_name'', JStr name), (''node_count'', jnat n)]"
| "data_fields (JPipelineCompleted name nodes ms) =
     [(''pipeline_name'', JStr name), (''completed_nodes'', jstrs nodes), (''duration_ms'', jnat ms)]"
| "data_fields (JPipelineFailed name e) = [(''pipeline_name'', JStr name), (''error'', JStr e)]"
| "data_fields (JStageStarted n h) = [(''node_id'', JStr n), (''handler_type'', JStr h)]"
| "data_fields (JStageCompleted n st ms) =
     [(''node_id'', JStr n), (''status'', JStr st), (''duration_ms'', jnat ms)]"
| "data_fields (JStageFailed n e) = [(''node_id'', JStr n), (''error'', JStr e)]"
| "data_fields (JStageRetrying n k) = [(''node_id'', JStr n), (''attempt'', jnat k)]"
| "data_fields (JEdgeSelected a b l) =
     [(''from_node'', JStr a), (''to_node'', JStr b), (''edge_label'', jnull JStr l)]"
| "data_fields (JGoalGateChecked n ok) = [(''node_id'', JStr n), (''satisfied'', JBool ok)]"
| "data_fields (JCheckpointSaved n) = [(''node_id'', JStr n)]"
| "data_fields (JContextUpdated n keys) = [(''node_id'', JStr n), (''keys'', jstrs keys)]"
| "data_fields (JEpicSnapshot e title tasks) =
     [(''epic_id'', JStr e), (''title'', JStr title), (''tasks'', JArr (map task_summary_json tasks))]"
| "data_fields (JTaskClaimed t title e n) =
     [(''task_id'', JStr t), (''title'', JStr title), (''epic_id'', JStr e), (''node_id'', JStr n)]"
| "data_fields (JTaskSelectionBlocked e opn blocked) =
     [(''epic_id'', JStr e), (''open'', jstrs opn),
      (''blocked_by'', JObj (map (\<lambda>(k, v). (k, jstrs v)) blocked))]"
| "data_fields (JTaskClosed t reason ver commits) =
     [(''task_id'', JStr t), (''reason'', JStr reason), (''upstream_verified'', JBool ver),
      (''commits'', jstrs commits)]"
| "data_fields (JLlmInvoked i n p mr ma it ot cost ms tr st) =
     [(''invocation_id'', JStr i), (''node_id'', JStr n), (''provider'', JStr p)] @
     jskip ''model_requested'' JStr mr @ jskip ''model_actual'' JStr ma @
     jskip ''input_tokens'' jnat it @ jskip ''output_tokens'' jnat ot @ jskip ''cost_usd'' jf64 cost @
     [(''duration_ms'', jnat ms), (''transcript'', JStr tr), (''status'', JStr st)]"
| "data_fields (JCommitsCreated n t commits) =
     [(''node_id'', JStr n)] @ jskip ''task_id'' JStr t @
     [(''commits'', JArr (map commit_ref_json commits))]"
| "data_fields (JHumanInputRequested q n txt choices d) =
     [(''question_id'', JStr q), (''node_id'', JStr n), (''text'', JStr txt), (''choices'', jstrs choices)] @
     jskip ''default'' JStr d"
| "data_fields (JHumanInputAnswered q c src) =
     [(''question_id'', JStr q), (''choice'', JStr c), (''source'', JStr (source_name src))]"
| "data_fields (JStopRequested src) = [(''source'', JStr src)]"
| "data_fields (JUnknown _ _) = []"

fun data_json :: "event_data \<Rightarrow> json" where
  "data_json (JUnknown _ d) = d"
| "data_json e = JObj (data_fields e)"

section \<open>Reading: the derived deserializers\<close>

text \<open>The fields of an object by name, as a struct's reader sees them.\<close>

type_synonym fields = "str \<Rightarrow> json option"

definition dec_uint :: "nat \<Rightarrow> json \<Rightarrow> nat option" where
  "dec_uint hi j = (case json_as_u64 j of Some n \<Rightarrow> (if n \<le> hi then Some n else None) | None \<Rightarrow> None)"

fun dec_list :: "(json \<Rightarrow> 'a option) \<Rightarrow> json \<Rightarrow> 'a list option" where
  "dec_list dec (JArr xs) = those (map dec xs)"
| "dec_list dec _ = None"

definition dec_strs :: "json \<Rightarrow> str list option" where
  "dec_strs = dec_list json_as_str"

fun dec_option :: "(json \<Rightarrow> 'a option) \<Rightarrow> json \<Rightarrow> 'a option option" where
  "dec_option dec JNull = Some None"
| "dec_option dec j = map_option Some (dec j)"

definition btree_of :: "(str \<times> 'v) list \<Rightarrow> 'v btree" where
  "btree_of kvs = sort_key fst (hm_extend [] kvs)"

fun dec_btree :: "(json \<Rightarrow> 'a option) \<Rightarrow> json \<Rightarrow> 'a btree option" where
  "dec_btree dec (JObj kvs) =
     map_option btree_of (those (map (\<lambda>(k, v). map_option (Pair k) (dec v)) kvs))"
| "dec_btree dec _ = None"

definition required :: "fields \<Rightarrow> str \<Rightarrow> (json \<Rightarrow> 'a option) \<Rightarrow> 'a option" where
  "required f name dec = (case f name of None \<Rightarrow> None | Some j \<Rightarrow> dec j)"

text \<open>An \<open>Option\<close> field: absent and \<open>null\<close> are both \<open>None\<close>.\<close>

definition optional :: "fields \<Rightarrow> str \<Rightarrow> (json \<Rightarrow> 'a option) \<Rightarrow> 'a option option" where
  "optional f name dec = (case f name of None \<Rightarrow> Some None | Some j \<Rightarrow> dec_option dec j)"

definition defaulted :: "fields \<Rightarrow> str \<Rightarrow> 'a \<Rightarrow> (json \<Rightarrow> 'a option) \<Rightarrow> 'a option" where
  "defaulted f name d dec = (case f name of None \<Rightarrow> Some d | Some j \<Rightarrow> dec j)"

text \<open>
  A struct is read from an object, where a field may not occur twice, or from the array of its
  fields in order.
\<close>

fun struct_fields :: "str list \<Rightarrow> json \<Rightarrow> fields option" where
  "struct_fields names (JObj kvs) =
     (if distinct (filter (\<lambda>k. k \<in> set names) (map fst kvs)) then Some (map_of kvs) else None)"
| "struct_fields names (JArr xs) =
     (if length xs \<le> length names then Some (map_of (zip names xs)) else None)"
| "struct_fields names _ = None"

text \<open>A unit variant is its name, or an object with the name and an empty payload.\<close>

fun unit_variant :: "json \<Rightarrow> str option" where
  "unit_variant (JStr s) = Some s"
| "unit_variant (JObj [(s, p)]) = (if p = JNull \<or> p = JObj [] then Some s else None)"
| "unit_variant _ = None"

definition dec_reason :: "json \<Rightarrow> attempt_end_reason option" where
  "dec_reason j = Option.bind (unit_variant j)
     (map_of (map (\<lambda>r. (reason_name r, r))
       [EndCompleted, EndFailed, EndStopped, EndBudgetExhausted, EndMaxSteps, EndError]))"

definition dec_source :: "json \<Rightarrow> answer_source option" where
  "dec_source j = Option.bind (unit_variant j)
     (map_of (map (\<lambda>s. (source_name s, s)) [AnswerTerminal, AnswerMonitor, AnswerCli]))"

definition dec_task_summary :: "json \<Rightarrow> task_summary option" where
  "dec_task_summary j = do {
     f \<leftarrow> struct_fields [''id'', ''title'', ''status''] j;
     i \<leftarrow> required f ''id'' json_as_str;
     t \<leftarrow> required f ''title'' json_as_str;
     s \<leftarrow> required f ''status'' json_as_str;
     Some \<lparr>ts_id = i, ts_title = t, ts_status = s\<rparr>
   }"

definition dec_commit_ref :: "json \<Rightarrow> commit_ref option" where
  "dec_commit_ref j = do {
     f \<leftarrow> struct_fields [''sha'', ''subject'', ''author'', ''ts''] j;
     h \<leftarrow> required f ''sha'' json_as_str;
     s \<leftarrow> required f ''subject'' json_as_str;
     a \<leftarrow> required f ''author'' json_as_str;
     t \<leftarrow> required f ''ts'' json_as_str;
     Some \<lparr>cr_sha = h, cr_subject = s, cr_author = a, cr_ts = t\<rparr>
   }"

text \<open>One reader per variant; fields it does not name are ignored.\<close>

definition dec_RunStarted :: "fields \<Rightarrow> event_data option" where
  "dec_RunStarted f = do {
     x0 \<leftarrow> required f ''pipeline_name'' json_as_str;
     x1 \<leftarrow> required f ''pipeline_path'' json_as_str;
     x2 \<leftarrow> required f ''workdir'' json_as_str;
     x3 \<leftarrow> optional f ''epic_id'' json_as_str;
     x4 \<leftarrow> optional f ''max_budget_usd'' json_as_f64;
     x5 \<leftarrow> optional f ''max_steps'' (dec_uint u64_max);
     x6 \<leftarrow> defaulted f ''shared_workdir'' False json_as_bool;
     Some (JRunStarted x0 x1 x2 x3 x4 x5 x6)
   }"

definition dec_AttemptStarted :: "fields \<Rightarrow> event_data option" where
  "dec_AttemptStarted f = do {
     x0 \<leftarrow> required f ''attempt'' (dec_uint u32_max);
     x1 \<leftarrow> required f ''pid'' (dec_uint u32_max);
     x2 \<leftarrow> required f ''pas_version'' json_as_str;
     x3 \<leftarrow> required f ''argv'' dec_strs;
     x4 \<leftarrow> optional f ''git_head'' json_as_str;
     x5 \<leftarrow> optional f ''resumed_from_node'' json_as_str;
     Some (JAttemptStarted x0 x1 x2 x3 x4 x5)
   }"

definition dec_AttemptEnded :: "fields \<Rightarrow> event_data option" where
  "dec_AttemptEnded f = do {
     x0 \<leftarrow> required f ''attempt'' (dec_uint u32_max);
     x1 \<leftarrow> required f ''reason'' dec_reason;
     x2 \<leftarrow> optional f ''message'' json_as_str;
     Some (JAttemptEnded x0 x1 x2)
   }"

definition dec_Heartbeat :: "fields \<Rightarrow> event_data option" where
  "dec_Heartbeat f = do {
     x0 \<leftarrow> required f ''pid'' (dec_uint u32_max);
     Some (JHeartbeat x0)
   }"

definition dec_PipelineStarted :: "fields \<Rightarrow> event_data option" where
  "dec_PipelineStarted f = do {
     x0 \<leftarrow> required f ''pipeline_name'' json_as_str;
     x1 \<leftarrow> required f ''node_count'' (dec_uint u64_max);
     Some (JPipelineStarted x0 x1)
   }"

definition dec_PipelineCompleted :: "fields \<Rightarrow> event_data option" where
  "dec_PipelineCompleted f = do {
     x0 \<leftarrow> required f ''pipeline_name'' json_as_str;
     x1 \<leftarrow> required f ''completed_nodes'' dec_strs;
     x2 \<leftarrow> required f ''duration_ms'' (dec_uint u64_max);
     Some (JPipelineCompleted x0 x1 x2)
   }"

definition dec_PipelineFailed :: "fields \<Rightarrow> event_data option" where
  "dec_PipelineFailed f = do {
     x0 \<leftarrow> required f ''pipeline_name'' json_as_str;
     x1 \<leftarrow> required f ''error'' json_as_str;
     Some (JPipelineFailed x0 x1)
   }"

definition dec_StageStarted :: "fields \<Rightarrow> event_data option" where
  "dec_StageStarted f = do {
     x0 \<leftarrow> required f ''node_id'' json_as_str;
     x1 \<leftarrow> required f ''handler_type'' json_as_str;
     Some (JStageStarted x0 x1)
   }"

definition dec_StageCompleted :: "fields \<Rightarrow> event_data option" where
  "dec_StageCompleted f = do {
     x0 \<leftarrow> required f ''node_id'' json_as_str;
     x1 \<leftarrow> required f ''status'' json_as_str;
     x2 \<leftarrow> required f ''duration_ms'' (dec_uint u64_max);
     Some (JStageCompleted x0 x1 x2)
   }"

definition dec_StageFailed :: "fields \<Rightarrow> event_data option" where
  "dec_StageFailed f = do {
     x0 \<leftarrow> required f ''node_id'' json_as_str;
     x1 \<leftarrow> required f ''error'' json_as_str;
     Some (JStageFailed x0 x1)
   }"

definition dec_StageRetrying :: "fields \<Rightarrow> event_data option" where
  "dec_StageRetrying f = do {
     x0 \<leftarrow> required f ''node_id'' json_as_str;
     x1 \<leftarrow> required f ''attempt'' (dec_uint u64_max);
     Some (JStageRetrying x0 x1)
   }"

definition dec_EdgeSelected :: "fields \<Rightarrow> event_data option" where
  "dec_EdgeSelected f = do {
     x0 \<leftarrow> required f ''from_node'' json_as_str;
     x1 \<leftarrow> required f ''to_node'' json_as_str;
     x2 \<leftarrow> optional f ''edge_label'' json_as_str;
     Some (JEdgeSelected x0 x1 x2)
   }"

definition dec_GoalGateChecked :: "fields \<Rightarrow> event_data option" where
  "dec_GoalGateChecked f = do {
     x0 \<leftarrow> required f ''node_id'' json_as_str;
     x1 \<leftarrow> required f ''satisfied'' json_as_bool;
     Some (JGoalGateChecked x0 x1)
   }"

definition dec_CheckpointSaved :: "fields \<Rightarrow> event_data option" where
  "dec_CheckpointSaved f = do {
     x0 \<leftarrow> required f ''node_id'' json_as_str;
     Some (JCheckpointSaved x0)
   }"

definition dec_ContextUpdated :: "fields \<Rightarrow> event_data option" where
  "dec_ContextUpdated f = do {
     x0 \<leftarrow> required f ''node_id'' json_as_str;
     x1 \<leftarrow> required f ''keys'' dec_strs;
     Some (JContextUpdated x0 x1)
   }"

definition dec_EpicSnapshot :: "fields \<Rightarrow> event_data option" where
  "dec_EpicSnapshot f = do {
     x0 \<leftarrow> required f ''epic_id'' json_as_str;
     x1 \<leftarrow> required f ''title'' json_as_str;
     x2 \<leftarrow> required f ''tasks'' (dec_list dec_task_summary);
     Some (JEpicSnapshot x0 x1 x2)
   }"

definition dec_TaskClaimed :: "fields \<Rightarrow> event_data option" where
  "dec_TaskClaimed f = do {
     x0 \<leftarrow> required f ''task_id'' json_as_str;
     x1 \<leftarrow> required f ''title'' json_as_str;
     x2 \<leftarrow> required f ''epic_id'' json_as_str;
     x3 \<leftarrow> required f ''node_id'' json_as_str;
     Some (JTaskClaimed x0 x1 x2 x3)
   }"

definition dec_TaskSelectionBlocked :: "fields \<Rightarrow> event_data option" where
  "dec_TaskSelectionBlocked f = do {
     x0 \<leftarrow> required f ''epic_id'' json_as_str;
     x1 \<leftarrow> required f ''open'' dec_strs;
     x2 \<leftarrow> required f ''blocked_by'' (dec_btree dec_strs);
     Some (JTaskSelectionBlocked x0 x1 x2)
   }"

definition dec_TaskClosed :: "fields \<Rightarrow> event_data option" where
  "dec_TaskClosed f = do {
     x0 \<leftarrow> required f ''task_id'' json_as_str;
     x1 \<leftarrow> required f ''reason'' json_as_str;
     x2 \<leftarrow> required f ''upstream_verified'' json_as_bool;
     x3 \<leftarrow> required f ''commits'' dec_strs;
     Some (JTaskClosed x0 x1 x2 x3)
   }"

definition dec_LlmInvoked :: "fields \<Rightarrow> event_data option" where
  "dec_LlmInvoked f = do {
     x0 \<leftarrow> required f ''invocation_id'' json_as_str;
     x1 \<leftarrow> required f ''node_id'' json_as_str;
     x2 \<leftarrow> required f ''provider'' json_as_str;
     x3 \<leftarrow> optional f ''model_requested'' json_as_str;
     x4 \<leftarrow> optional f ''model_actual'' json_as_str;
     x5 \<leftarrow> optional f ''input_tokens'' (dec_uint u64_max);
     x6 \<leftarrow> optional f ''output_tokens'' (dec_uint u64_max);
     x7 \<leftarrow> optional f ''cost_usd'' json_as_f64;
     x8 \<leftarrow> required f ''duration_ms'' (dec_uint u64_max);
     x9 \<leftarrow> required f ''transcript'' json_as_str;
     x10 \<leftarrow> required f ''status'' json_as_str;
     Some (JLlmInvoked x0 x1 x2 x3 x4 x5 x6 x7 x8 x9 x10)
   }"

definition dec_CommitsCreated :: "fields \<Rightarrow> event_data option" where
  "dec_CommitsCreated f = do {
     x0 \<leftarrow> required f ''node_id'' json_as_str;
     x1 \<leftarrow> optional f ''task_id'' json_as_str;
     x2 \<leftarrow> required f ''commits'' (dec_list dec_commit_ref);
     Some (JCommitsCreated x0 x1 x2)
   }"

definition dec_HumanInputRequested :: "fields \<Rightarrow> event_data option" where
  "dec_HumanInputRequested f = do {
     x0 \<leftarrow> required f ''question_id'' json_as_str;
     x1 \<leftarrow> required f ''node_id'' json_as_str;
     x2 \<leftarrow> required f ''text'' json_as_str;
     x3 \<leftarrow> required f ''choices'' dec_strs;
     x4 \<leftarrow> optional f ''default'' json_as_str;
     Some (JHumanInputRequested x0 x1 x2 x3 x4)
   }"

definition dec_HumanInputAnswered :: "fields \<Rightarrow> event_data option" where
  "dec_HumanInputAnswered f = do {
     x0 \<leftarrow> required f ''question_id'' json_as_str;
     x1 \<leftarrow> required f ''choice'' json_as_str;
     x2 \<leftarrow> required f ''source'' dec_source;
     Some (JHumanInputAnswered x0 x1 x2)
   }"

definition dec_StopRequested :: "fields \<Rightarrow> event_data option" where
  "dec_StopRequested f = do {
     x0 \<leftarrow> required f ''source'' json_as_str;
     Some (JStopRequested x0)
   }"

definition decoders :: "(str \<times> (fields \<Rightarrow> event_data option)) list" where
  "decoders =
    [(''RunStarted'', dec_RunStarted),
     (''AttemptStarted'', dec_AttemptStarted),
     (''AttemptEnded'', dec_AttemptEnded),
     (''Heartbeat'', dec_Heartbeat),
     (''PipelineStarted'', dec_PipelineStarted),
     (''PipelineCompleted'', dec_PipelineCompleted),
     (''PipelineFailed'', dec_PipelineFailed),
     (''StageStarted'', dec_StageStarted),
     (''StageCompleted'', dec_StageCompleted),
     (''StageFailed'', dec_StageFailed),
     (''StageRetrying'', dec_StageRetrying),
     (''EdgeSelected'', dec_EdgeSelected),
     (''GoalGateChecked'', dec_GoalGateChecked),
     (''CheckpointSaved'', dec_CheckpointSaved),
     (''ContextUpdated'', dec_ContextUpdated),
     (''EpicSnapshot'', dec_EpicSnapshot),
     (''TaskClaimed'', dec_TaskClaimed),
     (''TaskSelectionBlocked'', dec_TaskSelectionBlocked),
     (''TaskClosed'', dec_TaskClosed),
     (''LlmInvoked'', dec_LlmInvoked),
     (''CommitsCreated'', dec_CommitsCreated),
     (''HumanInputRequested'', dec_HumanInputRequested),
     (''HumanInputAnswered'', dec_HumanInputAnswered),
     (''StopRequested'', dec_StopRequested)]"

definition from_wire_parts :: "str \<Rightarrow> json \<Rightarrow> event_data option" where
  "from_wire_parts kind d =
     (if kind \<notin> set KNOWN_TYPES then Some (JUnknown kind d)
      else case d of
             JObj kvs \<Rightarrow> Option.bind (map_of decoders kind) (\<lambda>dec. dec (map_of kvs))
           | _ \<Rightarrow> None)"

section \<open>The envelope\<close>

definition JOURNAL_VERSION :: nat where "JOURNAL_VERSION = 1"

text \<open>A time is the number of nanoseconds since the epoch.\<close>

type_synonym time = int

record journal_event =
  je_v :: nat
  je_seq :: nat
  je_ts :: time
  je_run_id :: str
  je_attempt :: nat
  je_data :: event_data

definition trunc_ms :: "time \<Rightarrow> time" where
  "trunc_ms t = t - t mod 1000000"

definition journal_event_new :: "nat \<Rightarrow> time \<Rightarrow> str \<Rightarrow> nat \<Rightarrow> event_data \<Rightarrow> journal_event" where
  "journal_event_new seq ts run_id att d =
     \<lparr>je_v = JOURNAL_VERSION, je_seq = seq, je_ts = trunc_ms ts, je_run_id = run_id,
      je_attempt = att, je_data = d\<rparr>"

definition event_tree :: "(time \<Rightarrow> str) \<Rightarrow> journal_event \<Rightarrow> json" where
  "event_tree fmt_ts e =
     JObj [(''v'', jnat (je_v e)), (''seq'', jnat (je_seq e)), (''ts'', JStr (fmt_ts (je_ts e))),
           (''run_id'', JStr (je_run_id e)), (''attempt'', jnat (je_attempt e)),
           (''type'', JStr (type_name (je_data e))), (''data'', data_json (je_data e))]"

definition wire_names :: "str list" where
  "wire_names = [''v'', ''seq'', ''ts'', ''run_id'', ''attempt'', ''type'', ''data'']"

definition event_of_tree :: "(str \<Rightarrow> time option) \<Rightarrow> json \<Rightarrow> journal_event option" where
  "event_of_tree parse_ts j = do {
     f \<leftarrow> struct_fields wire_names j;
     v \<leftarrow> required f ''v'' (dec_uint u32_max);
     seq \<leftarrow> required f ''seq'' (dec_uint u64_max);
     ts_text \<leftarrow> required f ''ts'' json_as_str;
     run_id \<leftarrow> required f ''run_id'' json_as_str;
     att \<leftarrow> required f ''attempt'' (dec_uint u32_max);
     kind \<leftarrow> required f ''type'' json_as_str;
     d \<leftarrow> defaulted f ''data'' JNull Some;
     if v \<noteq> JOURNAL_VERSION then None
     else do {
       ts \<leftarrow> parse_ts ts_text;
       e \<leftarrow> from_wire_parts kind d;
       Some \<lparr>je_v = v, je_seq = seq, je_ts = ts, je_run_id = run_id, je_attempt = att, je_data = e\<rparr>
     }
   }"

text \<open>The writer's \<open>SeqOnly\<close>: the sequence number of a line, whatever else it holds.\<close>

definition seq_of_tree :: "json \<Rightarrow> nat option" where
  "seq_of_tree j = Option.bind (struct_fields [''seq''] j) (\<lambda>f. required f ''seq'' (dec_uint u64_max))"

section \<open>Well-formed events\<close>

text \<open>The integers of an event fit their Rust types (\<open>usize\<close> has 64 bits), and maps are sorted.\<close>

fun data_in_range :: "event_data \<Rightarrow> bool" where
  "data_in_range (JRunStarted _ _ _ _ _ steps _) = pred_option (\<lambda>n. n \<le> u64_max) steps"
| "data_in_range (JAttemptStarted att pid _ _ _ _) = (att \<le> u32_max \<and> pid \<le> u32_max)"
| "data_in_range (JAttemptEnded att _ _) = (att \<le> u32_max)"
| "data_in_range (JHeartbeat pid) = (pid \<le> u32_max)"
| "data_in_range (JPipelineStarted _ n) = (n \<le> u64_max)"
| "data_in_range (JPipelineCompleted _ _ ms) = (ms \<le> u64_max)"
| "data_in_range (JStageCompleted _ _ ms) = (ms \<le> u64_max)"
| "data_in_range (JStageRetrying _ k) = (k \<le> u64_max)"
| "data_in_range (JTaskSelectionBlocked _ _ m) = (sorted (map fst m) \<and> distinct (map fst m))"
| "data_in_range (JLlmInvoked _ _ _ _ _ it ot _ ms _ _) =
     (pred_option (\<lambda>n. n \<le> u64_max) it \<and> pred_option (\<lambda>n. n \<le> u64_max) ot \<and> ms \<le> u64_max)"
| "data_in_range (JUnknown n _) = (n \<notin> set KNOWN_TYPES)"
| "data_in_range _ = True"

fun data_finite :: "event_data \<Rightarrow> bool" where
  "data_finite (JRunStarted _ _ _ _ budget _ _) = pred_option f64_finite budget"
| "data_finite (JLlmInvoked _ _ _ _ _ _ _ cost _ _ _) = pred_option f64_finite cost"
| "data_finite _ = True"

definition event_in_range :: "journal_event \<Rightarrow> bool" where
  "event_in_range e \<longleftrightarrow> je_v e = JOURNAL_VERSION \<and> je_seq e \<le> u64_max \<and> je_attempt e \<le> u32_max \<and>
     data_in_range (je_data e)"

section \<open>Reading back what was written\<close>

lemma map_of_jskip:
  "map_of (jskip n enc x @ r) k = (if k = n then (case x of None \<Rightarrow> map_of r k | Some v \<Rightarrow> Some (enc v)) else map_of r k)"
  "map_of (jskip n enc x) k = (if k = n then map_option enc x else None)"
  by (cases x; simp)+

lemma dec_uint_jnat [simp]: "n \<le> hi \<Longrightarrow> dec_uint hi (jnat n) = Some n"
  by (simp add: dec_uint_def jnat_def)

lemma those_map_Some [simp]: "(\<And>x. x \<in> set xs \<Longrightarrow> f x = Some (g x)) \<Longrightarrow> those (map f xs) = Some (map g xs)"
  by (induction xs) auto

lemma dec_strs_jstrs [simp]: "dec_strs (jstrs xs) = Some xs"
  by (simp add: dec_strs_def jstrs_def comp_def)

lemma dec_jnull [simp]:
  "dec_option json_as_str (jnull JStr s) = Some s"
  "pred_option (\<lambda>n. n \<le> u64_max) k \<Longrightarrow> dec_option (dec_uint u64_max) (jnull jnat k) = Some k"
  "pred_option f64_finite x \<Longrightarrow> dec_option json_as_f64 (jnull jf64 x) = Some x"
  by (cases s; cases k; cases x; simp add: jnat_def jf64_def dec_uint_def)+

lemma option_eta [simp]: "(case x of None \<Rightarrow> Some None | Some v \<Rightarrow> Some (Some v)) = Some x"
  by (cases x) simp_all

lemma dec_jskip [simp]:
  "(case (case s of None \<Rightarrow> None | Some v \<Rightarrow> Some (JStr v)) of None \<Rightarrow> Some None
    | Some j \<Rightarrow> dec_option json_as_str j) = Some s"
  "pred_option (\<lambda>n. n \<le> u64_max) k \<Longrightarrow>
   (case (case k of None \<Rightarrow> None | Some v \<Rightarrow> Some (jnat v)) of None \<Rightarrow> Some None
    | Some j \<Rightarrow> dec_option (dec_uint u64_max) j) = Some k"
  "pred_option f64_finite x \<Longrightarrow>
   (case (case x of None \<Rightarrow> None | Some v \<Rightarrow> Some (jf64 v)) of None \<Rightarrow> Some None
    | Some j \<Rightarrow> dec_option json_as_f64 j) = Some x"
  "(case map_option JStr s of None \<Rightarrow> Some None | Some j \<Rightarrow> dec_option json_as_str j) = Some s"
  by (cases s; cases k; cases x; simp add: jnat_def jf64_def dec_uint_def)+

lemma dec_reason_name [simp]: "dec_reason (JStr (reason_name r)) = Some r"
  by (cases r) (simp_all add: dec_reason_def)

lemma dec_source_name [simp]: "dec_source (JStr (source_name r)) = Some r"
  by (cases r) (simp_all add: dec_source_def)

lemma dec_task_summary_json [simp]: "dec_task_summary (task_summary_json t) = Some t"
  by (cases t) (simp add: dec_task_summary_def task_summary_json_def required_def)

lemma dec_commit_ref_json [simp]: "dec_commit_ref (commit_ref_json c) = Some c"
  by (cases c) (simp add: dec_commit_ref_def commit_ref_json_def required_def)

lemma hm_extend_fresh: "distinct (map fst (m @ kvs)) \<Longrightarrow> hm_extend m kvs = m @ kvs"
proof (induction kvs arbitrary: m)
  case Nil
  then show ?case by (simp add: hm_extend_def)
next
  case (Cons kv kvs)
  obtain k v where kv: "kv = (k, v)" by (cases kv)
  have "hm_insert k v m = m @ [(k, v)]"
    using Cons.prems unfolding kv hm_insert_def by (induction m) auto
  then show ?case
    using Cons.IH [of "m @ [(k, v)]"] Cons.prems unfolding kv by (simp add: hm_extend_def)
qed

lemma btree_of_id [simp]: "sorted (map fst m) \<Longrightarrow> distinct (map fst m) \<Longrightarrow> btree_of m = m"
  using hm_extend_fresh [of "[]" m] by (simp add: btree_of_def sort_key_id_if_sorted)

lemma dec_btree_written:
  "sorted (map fst m) \<Longrightarrow> distinct (map fst m) \<Longrightarrow>
   dec_btree dec_strs (JObj (map (\<lambda>(k, v). (k, jstrs v)) m)) = Some m"
  by (simp add: comp_def case_prod_beta those_map_Some [where g = "\<lambda>x. x"])

lemmas variant_defs =
  dec_RunStarted_def dec_AttemptStarted_def dec_AttemptEnded_def dec_Heartbeat_def
  dec_PipelineStarted_def dec_PipelineCompleted_def dec_PipelineFailed_def dec_StageStarted_def
  dec_StageCompleted_def dec_StageFailed_def dec_StageRetrying_def dec_EdgeSelected_def
  dec_GoalGateChecked_def dec_CheckpointSaved_def dec_ContextUpdated_def dec_EpicSnapshot_def
  dec_TaskClaimed_def dec_TaskSelectionBlocked_def dec_TaskClosed_def dec_LlmInvoked_def
  dec_CommitsCreated_def dec_HumanInputRequested_def dec_HumanInputAnswered_def dec_StopRequested_def

lemmas data_read = required_def optional_def defaulted_def map_of_jskip dec_btree_written

lemma decoder_of [simp]: "\<not> is_unknown d \<Longrightarrow> type_name d \<in> set KNOWN_TYPES"
  by (cases d) (simp_all add: KNOWN_TYPES_def)

lemma variant_read:
  "data_in_range (JRunStarted a0 a1 a2 a3 a4 a5 a6) \<Longrightarrow> data_finite (JRunStarted a0 a1 a2 a3 a4 a5 a6) \<Longrightarrow>
     dec_RunStarted (map_of (data_fields (JRunStarted a0 a1 a2 a3 a4 a5 a6))) = Some (JRunStarted a0 a1 a2 a3 a4 a5 a6)"
  "data_in_range (JAttemptStarted b0 b1 b2 b3 b4 b5) \<Longrightarrow> data_finite (JAttemptStarted b0 b1 b2 b3 b4 b5) \<Longrightarrow>
     dec_AttemptStarted (map_of (data_fields (JAttemptStarted b0 b1 b2 b3 b4 b5))) = Some (JAttemptStarted b0 b1 b2 b3 b4 b5)"
  "data_in_range (JAttemptEnded c0 c1 c2) \<Longrightarrow> data_finite (JAttemptEnded c0 c1 c2) \<Longrightarrow>
     dec_AttemptEnded (map_of (data_fields (JAttemptEnded c0 c1 c2))) = Some (JAttemptEnded c0 c1 c2)"
  "data_in_range (JHeartbeat d0) \<Longrightarrow> data_finite (JHeartbeat d0) \<Longrightarrow>
     dec_Heartbeat (map_of (data_fields (JHeartbeat d0))) = Some (JHeartbeat d0)"
  "data_in_range (JPipelineStarted e0 e1) \<Longrightarrow> data_finite (JPipelineStarted e0 e1) \<Longrightarrow>
     dec_PipelineStarted (map_of (data_fields (JPipelineStarted e0 e1))) = Some (JPipelineStarted e0 e1)"
  "data_in_range (JPipelineCompleted f0 f1 f2) \<Longrightarrow> data_finite (JPipelineCompleted f0 f1 f2) \<Longrightarrow>
     dec_PipelineCompleted (map_of (data_fields (JPipelineCompleted f0 f1 f2))) = Some (JPipelineCompleted f0 f1 f2)"
  "data_in_range (JPipelineFailed g0 g1) \<Longrightarrow> data_finite (JPipelineFailed g0 g1) \<Longrightarrow>
     dec_PipelineFailed (map_of (data_fields (JPipelineFailed g0 g1))) = Some (JPipelineFailed g0 g1)"
  "data_in_range (JStageStarted h0 h1) \<Longrightarrow> data_finite (JStageStarted h0 h1) \<Longrightarrow>
     dec_StageStarted (map_of (data_fields (JStageStarted h0 h1))) = Some (JStageStarted h0 h1)"
  "data_in_range (JStageCompleted i0 i1 i2) \<Longrightarrow> data_finite (JStageCompleted i0 i1 i2) \<Longrightarrow>
     dec_StageCompleted (map_of (data_fields (JStageCompleted i0 i1 i2))) = Some (JStageCompleted i0 i1 i2)"
  "data_in_range (JStageFailed j0 j1) \<Longrightarrow> data_finite (JStageFailed j0 j1) \<Longrightarrow>
     dec_StageFailed (map_of (data_fields (JStageFailed j0 j1))) = Some (JStageFailed j0 j1)"
  "data_in_range (JStageRetrying k0 k1) \<Longrightarrow> data_finite (JStageRetrying k0 k1) \<Longrightarrow>
     dec_StageRetrying (map_of (data_fields (JStageRetrying k0 k1))) = Some (JStageRetrying k0 k1)"
  "data_in_range (JEdgeSelected l0 l1 l2) \<Longrightarrow> data_finite (JEdgeSelected l0 l1 l2) \<Longrightarrow>
     dec_EdgeSelected (map_of (data_fields (JEdgeSelected l0 l1 l2))) = Some (JEdgeSelected l0 l1 l2)"
  "data_in_range (JGoalGateChecked m0 m1) \<Longrightarrow> data_finite (JGoalGateChecked m0 m1) \<Longrightarrow>
     dec_GoalGateChecked (map_of (data_fields (JGoalGateChecked m0 m1))) = Some (JGoalGateChecked m0 m1)"
  "data_in_range (JCheckpointSaved n0) \<Longrightarrow> data_finite (JCheckpointSaved n0) \<Longrightarrow>
     dec_CheckpointSaved (map_of (data_fields (JCheckpointSaved n0))) = Some (JCheckpointSaved n0)"
  "data_in_range (JContextUpdated o0 o1) \<Longrightarrow> data_finite (JContextUpdated o0 o1) \<Longrightarrow>
     dec_ContextUpdated (map_of (data_fields (JContextUpdated o0 o1))) = Some (JContextUpdated o0 o1)"
  "data_in_range (JEpicSnapshot p0 p1 p2) \<Longrightarrow> data_finite (JEpicSnapshot p0 p1 p2) \<Longrightarrow>
     dec_EpicSnapshot (map_of (data_fields (JEpicSnapshot p0 p1 p2))) = Some (JEpicSnapshot p0 p1 p2)"
  "data_in_range (JTaskClaimed q0 q1 q2 q3) \<Longrightarrow> data_finite (JTaskClaimed q0 q1 q2 q3) \<Longrightarrow>
     dec_TaskClaimed (map_of (data_fields (JTaskClaimed q0 q1 q2 q3))) = Some (JTaskClaimed q0 q1 q2 q3)"
  "data_in_range (JTaskSelectionBlocked r0 r1 r2) \<Longrightarrow> data_finite (JTaskSelectionBlocked r0 r1 r2) \<Longrightarrow>
     dec_TaskSelectionBlocked (map_of (data_fields (JTaskSelectionBlocked r0 r1 r2))) = Some (JTaskSelectionBlocked r0 r1 r2)"
  "data_in_range (JTaskClosed s0 s1 s2 s3) \<Longrightarrow> data_finite (JTaskClosed s0 s1 s2 s3) \<Longrightarrow>
     dec_TaskClosed (map_of (data_fields (JTaskClosed s0 s1 s2 s3))) = Some (JTaskClosed s0 s1 s2 s3)"
  "data_in_range (JLlmInvoked t0 t1 t2 t3 t4 t5 t6 t7 t8 t9 t10) \<Longrightarrow> data_finite (JLlmInvoked t0 t1 t2 t3 t4 t5 t6 t7 t8 t9 t10) \<Longrightarrow>
     dec_LlmInvoked (map_of (data_fields (JLlmInvoked t0 t1 t2 t3 t4 t5 t6 t7 t8 t9 t10))) = Some (JLlmInvoked t0 t1 t2 t3 t4 t5 t6 t7 t8 t9 t10)"
  "data_in_range (JCommitsCreated u0 u1 u2) \<Longrightarrow> data_finite (JCommitsCreated u0 u1 u2) \<Longrightarrow>
     dec_CommitsCreated (map_of (data_fields (JCommitsCreated u0 u1 u2))) = Some (JCommitsCreated u0 u1 u2)"
  "data_in_range (JHumanInputRequested v0 v1 v2 v3 v4) \<Longrightarrow> data_finite (JHumanInputRequested v0 v1 v2 v3 v4) \<Longrightarrow>
     dec_HumanInputRequested (map_of (data_fields (JHumanInputRequested v0 v1 v2 v3 v4))) = Some (JHumanInputRequested v0 v1 v2 v3 v4)"
  "data_in_range (JHumanInputAnswered w0 w1 w2) \<Longrightarrow> data_finite (JHumanInputAnswered w0 w1 w2) \<Longrightarrow>
     dec_HumanInputAnswered (map_of (data_fields (JHumanInputAnswered w0 w1 w2))) = Some (JHumanInputAnswered w0 w1 w2)"
  "data_in_range (JStopRequested x0) \<Longrightarrow> data_finite (JStopRequested x0) \<Longrightarrow>
     dec_StopRequested (map_of (data_fields (JStopRequested x0))) = Some (JStopRequested x0)"
  by (simp add: variant_defs data_read del: map_of_append dec_btree.simps cong: option.case_cong)+

lemma decoder_for:
  "map_of decoders ''RunStarted'' = Some dec_RunStarted"
  "map_of decoders ''AttemptStarted'' = Some dec_AttemptStarted"
  "map_of decoders ''AttemptEnded'' = Some dec_AttemptEnded"
  "map_of decoders ''Heartbeat'' = Some dec_Heartbeat"
  "map_of decoders ''PipelineStarted'' = Some dec_PipelineStarted"
  "map_of decoders ''PipelineCompleted'' = Some dec_PipelineCompleted"
  "map_of decoders ''PipelineFailed'' = Some dec_PipelineFailed"
  "map_of decoders ''StageStarted'' = Some dec_StageStarted"
  "map_of decoders ''StageCompleted'' = Some dec_StageCompleted"
  "map_of decoders ''StageFailed'' = Some dec_StageFailed"
  "map_of decoders ''StageRetrying'' = Some dec_StageRetrying"
  "map_of decoders ''EdgeSelected'' = Some dec_EdgeSelected"
  "map_of decoders ''GoalGateChecked'' = Some dec_GoalGateChecked"
  "map_of decoders ''CheckpointSaved'' = Some dec_CheckpointSaved"
  "map_of decoders ''ContextUpdated'' = Some dec_ContextUpdated"
  "map_of decoders ''EpicSnapshot'' = Some dec_EpicSnapshot"
  "map_of decoders ''TaskClaimed'' = Some dec_TaskClaimed"
  "map_of decoders ''TaskSelectionBlocked'' = Some dec_TaskSelectionBlocked"
  "map_of decoders ''TaskClosed'' = Some dec_TaskClosed"
  "map_of decoders ''LlmInvoked'' = Some dec_LlmInvoked"
  "map_of decoders ''CommitsCreated'' = Some dec_CommitsCreated"
  "map_of decoders ''HumanInputRequested'' = Some dec_HumanInputRequested"
  "map_of decoders ''HumanInputAnswered'' = Some dec_HumanInputAnswered"
  "map_of decoders ''StopRequested'' = Some dec_StopRequested"
  by (simp add: decoders_def)+

lemma variant_roundtrip:
  assumes "data_in_range d" "data_finite d" "\<not> is_unknown d"
  shows "Option.bind (map_of decoders (type_name d)) (\<lambda>dec. dec (map_of (data_fields d))) = Some d"
  using assms by (cases d) (simp_all only: type_name.simps decoder_for Option.bind.simps variant_read is_unknown.simps simp_thms)

lemma data_roundtrip:
  assumes "data_in_range d" "data_finite d"
  shows "from_wire_parts (type_name d) (data_json d) = Some d"
proof (cases "is_unknown d")
  case True
  with assms show ?thesis by (cases d) (simp_all add: from_wire_parts_def)
next
  case False
  then have "data_json d = JObj (data_fields d)" by (cases d) simp_all
  with False show ?thesis using variant_roundtrip [OF assms False] by (simp add: from_wire_parts_def)
qed

lemma envelope_roundtrip:
  assumes "event_in_range e" "data_finite (je_data e)" "parse_ts (fmt_ts (je_ts e)) = Some (je_ts e)"
  shows "event_of_tree parse_ts (event_tree fmt_ts e) = Some e"
  using assms data_roundtrip [of "je_data e"]
  by (cases e) (simp add: event_of_tree_def event_tree_def wire_names_def event_in_range_def required_def
      defaulted_def JOURNAL_VERSION_def u32_max_def)

lemma seq_of_event_tree:
  assumes "je_seq e \<le> u64_max"
  shows "seq_of_tree (event_tree fmt_ts e) = Some (je_seq e)"
  using assms by (simp add: seq_of_tree_def event_tree_def required_def)

section \<open>What the readers guarantee\<close>

lemma dec_uint_le: "dec_uint hi j = Some n \<Longrightarrow> n \<le> hi"
  by (auto simp: dec_uint_def split: option.splits if_splits)

lemma distinct_hm_extend: "distinct (map fst m) \<Longrightarrow> distinct (map fst (hm_extend m kvs))"
  using hm_wf_extend [of m kvs] by (simp add: hm_wf_def)

lemma btree_of_sorted: "sorted (map fst (btree_of kvs)) \<and> distinct (map fst (btree_of kvs))"
  using distinct_hm_extend [of "[]" kvs] by (simp add: btree_of_def distinct_map)

lemma dec_btree_sorted: "dec_btree dec j = Some m \<Longrightarrow> sorted (map fst m) \<and> distinct (map fst m)"
  by (cases j) (auto simp: btree_of_sorted)

lemma optional_uint_le: "optional f n (dec_uint hi) = Some k \<Longrightarrow> pred_option (\<lambda>n. n \<le> hi) k"
  unfolding optional_def
  by (cases "f n"; cases "the (f n)") (auto dest: dec_uint_le)

lemma required_uint_le: "required f n (dec_uint hi) = Some k \<Longrightarrow> k \<le> hi"
  by (auto simp: required_def dest: dec_uint_le split: option.splits)

lemma required_btree_sorted:
  "required f n (dec_btree dec) = Some m \<Longrightarrow> sorted (map fst m) \<and> distinct (map fst m)"
  by (auto simp: required_def dest: dec_btree_sorted split: option.splits)

lemmas read_in_range = optional_uint_le required_uint_le required_btree_sorted

lemma decoded_in_range:
  "dec_RunStarted f = Some d \<Longrightarrow> data_in_range d \<and> type_name d = ''RunStarted''"
  "dec_AttemptStarted f = Some d \<Longrightarrow> data_in_range d \<and> type_name d = ''AttemptStarted''"
  "dec_AttemptEnded f = Some d \<Longrightarrow> data_in_range d \<and> type_name d = ''AttemptEnded''"
  "dec_Heartbeat f = Some d \<Longrightarrow> data_in_range d \<and> type_name d = ''Heartbeat''"
  "dec_PipelineStarted f = Some d \<Longrightarrow> data_in_range d \<and> type_name d = ''PipelineStarted''"
  "dec_PipelineCompleted f = Some d \<Longrightarrow> data_in_range d \<and> type_name d = ''PipelineCompleted''"
  "dec_PipelineFailed f = Some d \<Longrightarrow> data_in_range d \<and> type_name d = ''PipelineFailed''"
  "dec_StageStarted f = Some d \<Longrightarrow> data_in_range d \<and> type_name d = ''StageStarted''"
  "dec_StageCompleted f = Some d \<Longrightarrow> data_in_range d \<and> type_name d = ''StageCompleted''"
  "dec_StageFailed f = Some d \<Longrightarrow> data_in_range d \<and> type_name d = ''StageFailed''"
  "dec_StageRetrying f = Some d \<Longrightarrow> data_in_range d \<and> type_name d = ''StageRetrying''"
  "dec_EdgeSelected f = Some d \<Longrightarrow> data_in_range d \<and> type_name d = ''EdgeSelected''"
  "dec_GoalGateChecked f = Some d \<Longrightarrow> data_in_range d \<and> type_name d = ''GoalGateChecked''"
  "dec_CheckpointSaved f = Some d \<Longrightarrow> data_in_range d \<and> type_name d = ''CheckpointSaved''"
  "dec_ContextUpdated f = Some d \<Longrightarrow> data_in_range d \<and> type_name d = ''ContextUpdated''"
  "dec_EpicSnapshot f = Some d \<Longrightarrow> data_in_range d \<and> type_name d = ''EpicSnapshot''"
  "dec_TaskClaimed f = Some d \<Longrightarrow> data_in_range d \<and> type_name d = ''TaskClaimed''"
  "dec_TaskSelectionBlocked f = Some d \<Longrightarrow> data_in_range d \<and> type_name d = ''TaskSelectionBlocked''"
  "dec_TaskClosed f = Some d \<Longrightarrow> data_in_range d \<and> type_name d = ''TaskClosed''"
  "dec_LlmInvoked f = Some d \<Longrightarrow> data_in_range d \<and> type_name d = ''LlmInvoked''"
  "dec_CommitsCreated f = Some d \<Longrightarrow> data_in_range d \<and> type_name d = ''CommitsCreated''"
  "dec_HumanInputRequested f = Some d \<Longrightarrow> data_in_range d \<and> type_name d = ''HumanInputRequested''"
  "dec_HumanInputAnswered f = Some d \<Longrightarrow> data_in_range d \<and> type_name d = ''HumanInputAnswered''"
  "dec_StopRequested f = Some d \<Longrightarrow> data_in_range d \<and> type_name d = ''StopRequested''"
  by (auto simp: variant_defs bind_eq_Some_conv dest!: read_in_range)

lemma decoder_in_range:
  assumes "(kind, dec) \<in> set decoders" "dec f = Some d"
  shows "data_in_range d \<and> type_name d = kind"
  using assms unfolding decoders_def
  by (simp only: set_simps insert_iff empty_iff prod.inject) (elim disjE conjE FalseE; simp only: decoded_in_range)

lemma from_wire_parts_in_range:
  assumes "from_wire_parts kind j = Some d"
  shows "data_in_range d \<and> type_name d = kind"
proof (cases "kind \<in> set KNOWN_TYPES")
  case False
  with assms show ?thesis by (auto simp: from_wire_parts_def)
next
  case True
  with assms obtain kvs dec where "map_of decoders kind = Some dec" "dec (map_of kvs) = Some d"
    by (auto simp: from_wire_parts_def bind_eq_Some_conv split: json.splits)
  then show ?thesis using decoder_in_range map_of_SomeD by metis
qed

lemma event_of_tree_in_range: "event_of_tree parse_ts j = Some e \<Longrightarrow> event_in_range e"
  by (auto simp: event_of_tree_def event_in_range_def bind_eq_Some_conv
      dest: required_uint_le from_wire_parts_in_range split: if_splits)

text \<open>A type the reader does not know never fails to be read, whatever its data.\<close>

lemma unknown_kept:
  assumes "kind \<notin> set KNOWN_TYPES"
  shows "from_wire_parts kind j = Some (JUnknown kind j)"
  using assms by (simp add: from_wire_parts_def)

section \<open>Properties\<close>

text \<open>
  Property C32. An event whose integers fit and whose floats are finite is read back exactly from the
  tree that is written for it, for every one of the 24 known types and for a kept unknown event, as
  soon as the reader of times reads back the time that was written.
\<close>

theorem journal_event_roundtrip:
  assumes "event_in_range e" "data_finite (je_data e)" "parse_ts (fmt_ts (je_ts e)) = Some (je_ts e)"
  shows "event_of_tree parse_ts (event_tree fmt_ts e) = Some e"
  using assms by (rule envelope_roundtrip)

definition sample_event :: journal_event where
  "sample_event = journal_event_new 3 1790000000123456789 ''r'' 2
     (JLlmInvoked ''i'' ''n'' ''p'' None (Some ''m'') (Some 7) None (Some (Fin 1 (- 1))) 20 ''t'' ''ok'')"

lemma sample_in_range: "event_in_range sample_event" "data_finite (je_data sample_event)"
  by (simp_all add: sample_event_def event_in_range_def journal_event_new_def u64_max_def u32_max_def)

lemma sample_ts: "je_ts sample_event = 1790000000123000000"
  by (simp add: sample_event_def journal_event_new_def trunc_ms_def)

theorem journal_event_roundtrip_witness:
  "event_of_tree (\<lambda>s. if s = ''12:00'' then Some 1790000000123000000 else None)
     (event_tree (\<lambda>_. ''12:00'') sample_event) = Some sample_event"
  by (rule journal_event_roundtrip) (simp_all add: sample_in_range sample_ts)

text \<open>
  Whatever a line holds, an event read from it is well typed: the version is the
  current one, every integer fits its type, maps are sorted, and an event is unknown only when its
  type is none of the known ones.
\<close>

theorem read_event_well_typed:
  assumes "event_of_tree parse_ts j = Some e"
  shows "event_in_range e \<and> (is_unknown (je_data e) \<longleftrightarrow> type_name (je_data e) \<notin> set KNOWN_TYPES)"
proof -
  have r: "event_in_range e" using assms by (rule event_of_tree_in_range)
  then have "is_unknown (je_data e) \<Longrightarrow> type_name (je_data e) \<notin> set KNOWN_TYPES"
    by (cases "je_data e") (simp_all add: event_in_range_def)
  with r show ?thesis using decoder_of by blast
qed

theorem read_event_well_typed_witness:
  "event_in_range sample_event \<and>
   (is_unknown (je_data sample_event) \<longleftrightarrow> type_name (je_data sample_event) \<notin> set KNOWN_TYPES)"
proof (rule read_event_well_typed)
  show "event_of_tree (\<lambda>_. Some 1790000000123000000) (event_tree (\<lambda>_. []) sample_event) = Some sample_event"
    by (rule envelope_roundtrip) (simp_all add: sample_in_range sample_ts)
qed

end
