(* ===== verification/Engine.thy ===== *)
theory Engine
  imports Run_Configuration Checkpoint Journal_Event
begin

text \<open>
  The traversal engine (\<open>crates/attractor-pipeline/src/engine.rs\<close>) with its events
  (\<open>events.rs\<close>): observers, checkpoints, the attempt loop of one node, and the core loop.

  What lies outside the engine is a record of functions on an abstract world \<open>'w\<close>: the node
  handlers, git, the stop file, the clock, the failures of the journal and of the disk. Every
  other effect is in the state: the shared context, the files, and the trace of what the
  observers did, in order.
\<close>

section \<open>Events and observers\<close>

datatype pipeline_event =
    PipelineStarted str nat
  | PipelineCompleted str "str list" nat
  | PipelineFailed str str
  | StageStarted str str
  | StageCompleted str str nat
  | StageFailed str str
  | StageRetrying str nat
  | EdgeSelected str str "str option"
  | GoalGateChecked str bool
  | CheckpointSaved str
  | StopRequested str
  | ContextUpdated str "str list"
  | CommitsCreated str "str option" "commit_ref list"
  | LlmInvoked str str str "str option" "str option" "nat option" "nat option" "f64 option" nat str str
  | EpicSnapshot str str "task_summary list"
  | TaskClaimed str str str str
  | TaskSelectionBlocked str "str list" "(str \<times> str list) list"
  | TaskClosed str str bool "str list"
  | HumanInputRequested str str str "str list" "str option"
  | HumanInputAnswered str str answer_source

text \<open>
  The trace: an event appended to the Run Journal, an append that failed, an event sent to
  the subscribers. The journal form of an event (\<open>to_journal_data\<close>) renames it only.
\<close>

datatype observation =
    Journaled pipeline_event
  | JournalFailed pipeline_event
  | Broadcast pipeline_event

section \<open>Environment and state\<close>

record 'w run_state =
  rs_world :: 'w
  rs_ctx :: ctx
  rs_files :: files
  rs_trace :: "observation list"

text \<open>
  A handler run: its result, the context it leaves (handlers write through the shared handle)
  and the events it emits. \<open>nh_execute_within\<close> is the run that is dropped when it has not ended
  after the given number of milliseconds.
\<close>

record 'w handler_run =
  hr_ctx :: ctx
  hr_events :: "pipeline_event list"
  hr_world :: 'w

record 'w node_handler =
  nh_resumes_interrupted :: bool
  nh_execute :: "pipeline_node \<Rightarrow> resolved_node \<Rightarrow> ctx \<Rightarrow> 'w \<Rightarrow> outcome result \<times> 'w handler_run"
  nh_execute_within :: "nat \<Rightarrow> pipeline_node \<Rightarrow> resolved_node \<Rightarrow> ctx \<Rightarrow> 'w \<Rightarrow> outcome result option \<times> 'w handler_run"

datatype stop_file = NoStopFile | UnreadableStopFile | StopFile str

record 'w engine_env =
  en_config :: run_configuration
  en_handlers :: "str \<Rightarrow> 'w node_handler option"
  en_capabilities :: catalog
  en_journal :: "str option"
  en_events :: bool
  en_run_id :: "str option"
  en_logs_root :: "str option"
  en_append :: "pipeline_event \<Rightarrow> 'w \<Rightarrow> str option"
  en_io :: "'w \<Rightarrow> io_fail"
  en_ser :: "checkpoint \<Rightarrow> str result"
  en_de :: "str \<Rightarrow> checkpoint result"
  en_now :: "'w \<Rightarrow> str"
  en_clock :: "'w \<Rightarrow> nat"
  en_tick :: "'w \<Rightarrow> 'w"
  en_sleep :: "nat \<Rightarrow> 'w \<Rightarrow> 'w"
  en_head :: "'w \<Rightarrow> str option"
  en_commits :: "'w \<Rightarrow> str \<Rightarrow> str \<Rightarrow> str + commit_ref list"
  en_stop_file :: "'w \<Rightarrow> stop_file"
  en_json :: "str \<Rightarrow> json option"
  en_json_text :: "json \<Rightarrow> str"
  en_fmt2 :: "f64 \<Rightarrow> str"
  en_hash :: "str \<Rightarrow> str"
  en_strip :: "str \<Rightarrow> str"
  en_profile :: build_profile

definition en_plan :: "'w engine_env \<Rightarrow> execution_plan" where
  "en_plan env = rc_plan (en_config env)"

definition en_graph :: "'w engine_env \<Rightarrow> pipeline_graph" where
  "en_graph env = pl_graph (en_plan env)"

definition en_max_steps :: "'w engine_env \<Rightarrow> nat" where
  "en_max_steps env = rv_value (ct_max_steps (rc_controls (en_config env)))"

definition en_max_budget :: "'w engine_env \<Rightarrow> f64" where
  "en_max_budget env = rv_value (ct_max_budget (rc_controls (en_config env)))"

text \<open>A step of the engine changes the state and may fail, or panic.\<close>

datatype engine_failure = Failed error | EnginePanic

type_synonym ('w, 'a) act = "'w run_state \<Rightarrow> (engine_failure + 'a) \<times> 'w run_state"

definition ret :: "'a \<Rightarrow> ('w, 'a) act" where
  "ret x s = (Inr x, s)"

definition fail :: "error \<Rightarrow> ('w, 'a) act" where
  "fail e s = (Inl (Failed e), s)"

definition panic :: "('w, 'a) act" where
  "panic s = (Inl EnginePanic, s)"

definition act_bind :: "('w, 'a) act \<Rightarrow> ('a \<Rightarrow> ('w, 'b) act) \<Rightarrow> ('w, 'b) act" where
  "act_bind m f s = (case m s of (Inl e, s') \<Rightarrow> (Inl e, s') | (Inr x, s') \<Rightarrow> f x s')"

definition lift_result :: "'a result \<Rightarrow> ('w, 'a) act" where
  "lift_result r s = (case r of Inl e \<Rightarrow> (Inl (Failed e), s) | Inr x \<Rightarrow> (Inr x, s))"

definition observe :: "('w run_state \<Rightarrow> 'a) \<Rightarrow> ('w, 'a) act" where
  "observe f s = (Inr (f s), s)"

definition set_ctx :: "(ctx \<Rightarrow> ctx) \<Rightarrow> ('w, unit) act" where
  "set_ctx f s = (Inr (), s\<lparr>rs_ctx := f (rs_ctx s)\<rparr>)"

definition set_world :: "('w \<Rightarrow> 'w) \<Rightarrow> ('w, unit) act" where
  "set_world f s = (Inr (), s\<lparr>rs_world := f (rs_world s)\<rparr>)"

fun act_iter :: "('a \<Rightarrow> ('w, unit) act) \<Rightarrow> 'a list \<Rightarrow> ('w, unit) act" where
  "act_iter f [] = ret ()"
| "act_iter f (x # xs) = act_bind (f x) (\<lambda>_. act_iter f xs)"

section \<open>Observers\<close>

definition broadcast :: "'w engine_env \<Rightarrow> pipeline_event \<Rightarrow> ('w, unit) act" where
  "broadcast env ev s =
     (Inr (), if en_events env then s\<lparr>rs_trace := rs_trace s @ [Broadcast ev]\<rparr> else s)"

definition journal :: "'w engine_env \<Rightarrow> pipeline_event \<Rightarrow> ('w, str option) act" where
  "journal env ev s =
     (case en_journal env of
        None \<Rightarrow> (Inr None, s)
      | Some path \<Rightarrow>
          (case en_append env ev (rs_world s) of
             Some e \<Rightarrow> (Inr (Some (''cannot write Run Journal '' @ path @ '': '' @ e)),
                       s\<lparr>rs_world := en_tick env (rs_world s),
                         rs_trace := rs_trace s @ [JournalFailed ev]\<rparr>)
           | None \<Rightarrow> (Inr None,
                      s\<lparr>rs_world := en_tick env (rs_world s),
                        rs_trace := rs_trace s @ [Journaled ev]\<rparr>)))"

definition emit :: "'w engine_env \<Rightarrow> pipeline_event \<Rightarrow> ('w, unit) act" where
  "emit env ev = act_bind (journal env ev) (\<lambda>_. broadcast env ev)"

definition emit_required :: "'w engine_env \<Rightarrow> pipeline_event \<Rightarrow> ('w, unit) act" where
  "emit_required env ev =
     act_bind (journal env ev) (\<lambda>r.
       case r of Some e \<Rightarrow> fail (OtherError e) | None \<Rightarrow> broadcast env ev)"

section \<open>Helpers\<close>

definition task_id_key :: str where "task_id_key = ''task.id''"

definition task_id_value :: "json option \<Rightarrow> str option" where
  "task_id_value v =
     (case Option.bind v json_as_str of
        None \<Rightarrow> None
      | Some s \<Rightarrow> if trim s \<noteq> [] then Some (trim s) else None)"

definition claimed_task :: "ctx \<Rightarrow> str option" where
  "claimed_task c = task_id_value (context_get c task_id_key)"

fun status_to_string :: "stage_status \<Rightarrow> str" where
  "status_to_string Success = ''success''"
| "status_to_string PartialSuccess = ''partial_success''"
| "status_to_string Retry = ''retry''"
| "status_to_string Fail = ''fail''"
| "status_to_string Skipped = ''skipped''"

definition apply_handler_updates :: "str \<Rightarrow> outcome \<Rightarrow> ('w, unit) act" where
  "apply_handler_updates i out =
     (case sort (filter is_reserved_key (hm_keys (context_updates out))) of
        [] \<Rightarrow> set_ctx (context_apply_updates (context_updates out))
      | ks \<Rightarrow> fail (ValidationError (''handler '' @ sq i
          @ '' attempted to write reserved context key(s): '' @ join '', '' ks)))"

text \<open>Integer addition that panics in a debug build and wraps in a release build.\<close>

text \<open>\<open>+= 1\<close> on an unsigned integer of width \<open>w\<close>.\<close>

definition add_one :: "build_profile \<Rightarrow> nat \<Rightarrow> nat \<Rightarrow> ('w, nat) act" where
  "add_one b w n =
     (if int n + 1 < 2 ^ w then ret (n + 1) else case b of Debug \<Rightarrow> panic | Release \<Rightarrow> ret 0)"

text \<open>The conversion of a \<open>u128\<close> of milliseconds to \<open>u64\<close>, saturating.\<close>

definition saturate_u64 :: "nat \<Rightarrow> nat" where
  "saturate_u64 n = (if int n < 2 ^ 64 then n else u64_max)"

section \<open>Progress and checkpoints\<close>

record progress =
  pr_step_count :: nat
  pr_total_cost :: f64
  pr_total_attempts :: nat
  pr_active_node :: "str option"
  pr_active_attempts :: nat

definition progress_default :: progress where
  "progress_default =
     \<lparr>pr_step_count = 0, pr_total_cost = f64_of_int 0, pr_total_attempts = 0, pr_active_node = None,
      pr_active_attempts = 0\<rparr>"

record checkpoint_data =
  cd_completed :: "str list"
  cd_outcomes :: "outcome hmap"
  cd_counters :: "nat hmap"
  cd_footprints :: "str hmap"
  cd_previous :: "str option"
  cd_run_id :: "str option"

definition plan_fp :: "'w engine_env \<Rightarrow> str" where
  "plan_fp env = plan_fingerprint (en_hash env) (en_plan env)"

definition make_checkpoint ::
  "'w engine_env \<Rightarrow> checkpoint_data \<Rightarrow> str \<Rightarrow> progress \<Rightarrow> 'w run_state \<Rightarrow> checkpoint" where
  "make_checkpoint env cd current pr s =
     (with_quality_counters (en_now env (rs_world s)) current (cd_completed cd) (cd_outcomes cd)
        (context_snapshot (rs_ctx s)) (pr_step_count pr) (pr_total_cost pr) (cd_counters cd)
        (cd_footprints cd) (cd_previous cd) (Some (plan_fp env)))
     \<lparr>cp_run_id := cd_run_id cd, cp_total_attempts := pr_total_attempts pr,
      cp_active_node := pr_active_node pr, cp_active_attempts := pr_active_attempts pr\<rparr>"

definition save_data ::
  "'w engine_env \<Rightarrow> checkpoint_data \<Rightarrow> str \<Rightarrow> progress \<Rightarrow> ('w, unit) act" where
  "save_data env cd current pr s =
     (case en_logs_root env of
        None \<Rightarrow> (Inr (), s)
      | Some d \<Rightarrow>
          (let (r, fs) = save_checkpoint (en_ser env) (en_io env (rs_world s))
                           (make_checkpoint env cd current pr s) d (rs_files s);
               s' = s\<lparr>rs_files := fs, rs_world := en_tick env (rs_world s)\<rparr>
           in case r of
                Inl e \<Rightarrow> (Inl (Failed e), s')
              | Inr _ \<Rightarrow> emit env (CheckpointSaved current) s'))"

section \<open>One node\<close>

definition emit_run_commits ::
  "'w engine_env \<Rightarrow> str \<Rightarrow> str option \<Rightarrow> str option \<Rightarrow> ('w, unit) act" where
  "emit_run_commits env i head_before task =
     (case head_before of
        None \<Rightarrow> ret ()
      | Some b \<Rightarrow>
          act_bind (observe (\<lambda>s. en_head env (rs_world s))) (\<lambda>after.
            case after of
              None \<Rightarrow> ret ()
            | Some a \<Rightarrow>
                if a = b then ret ()
                else act_bind (observe (\<lambda>s. en_commits env (rs_world s) b a)) (\<lambda>r.
                  case r of
                    Inl _ \<Rightarrow> ret ()
                  | Inr commits \<Rightarrow>
                      if commits = [] then ret () else emit env (CommitsCreated i task commits))))"

text \<open>Runs the handler, within the node's timeout if it has one.\<close>

definition run_handler ::
  "'w engine_env \<Rightarrow> 'w node_handler \<Rightarrow> pipeline_node \<Rightarrow> resolved_node \<Rightarrow> ('w, outcome result) act" where
  "run_handler env h n r s =
     (let (res, run) =
        (case ip_timeout (rn_invocation r) of
           None \<Rightarrow> nh_execute h n r (rs_ctx s) (rs_world s)
         | Some t \<Rightarrow>
             (let (x, run) = nh_execute_within h t n r (rs_ctx s) (rs_world s)
              in (case x of Some res \<Rightarrow> res | None \<Rightarrow> Inl (CommandTimeout (saturate_u64 t)), run)))
      in act_bind (act_iter (emit env) (hr_events run)) (\<lambda>_. ret res)
           (s\<lparr>rs_ctx := hr_ctx run, rs_world := hr_world run\<rparr>))"

definition cost_of :: "str \<Rightarrow> outcome \<Rightarrow> f64 option" where
  "cost_of i out = Option.bind (hm_get (context_updates out) (i @ ''.cost_usd'')) json_as_f64"

definition add_cost :: "f64 \<Rightarrow> progress \<Rightarrow> progress" where
  "add_cost c pr = pr\<lparr>pr_total_cost := f64_add (pr_total_cost pr) c\<rparr>"

text \<open>
  What follows the run of one attempt: the outcome is returned (\<open>Inl\<close>) or the next attempt is
  announced (\<open>Inr\<close>). \<open>started\<close> is the clock before the run.
\<close>

definition settle_attempt ::
  "'w engine_env \<Rightarrow> checkpoint_data \<Rightarrow> pipeline_node \<Rightarrow> nat \<Rightarrow> nat \<Rightarrow> nat \<Rightarrow> progress \<Rightarrow> outcome result
   \<Rightarrow> ('w, (outcome \<times> progress) + progress) act" where
  "settle_attempt env cd n attempt limit started pr res =
     (let i = pn_id n; more = attempt + 1 < limit
      in case res of
           Inr out \<Rightarrow>
             if status out = Retry \<and> more
             then act_bind
               (case cost_of i out of
                  Some c \<Rightarrow> act_bind (save_data env cd i (add_cost c pr)) (\<lambda>_. ret (add_cost c pr))
                | None \<Rightarrow> ret pr) (\<lambda>pr.
               act_bind (emit env (StageRetrying i (attempt + 2))) (\<lambda>_.
               act_bind (set_world (en_sleep env (retry_delay attempt))) (\<lambda>_. ret (Inr pr))))
             else act_bind (observe (\<lambda>s. en_clock env (rs_world s))) (\<lambda>now.
               act_bind (emit env (StageCompleted i (status_to_string (status out))
                                     (saturate_u64 (now - started)))) (\<lambda>_. ret (Inl (out, pr))))
         | Inl e \<Rightarrow>
             act_bind (emit env (StageFailed i (error_display (en_fmt2 env) e))) (\<lambda>_.
             if is_retryable e \<and> more
             then act_bind (emit env (StageRetrying i (attempt + 2))) (\<lambda>_.
               act_bind (set_world (en_sleep env (retry_delay attempt))) (\<lambda>_. ret (Inr pr)))
             else fail e))"

definition begin_attempt ::
  "'w engine_env \<Rightarrow> 'w node_handler \<Rightarrow> checkpoint_data \<Rightarrow> pipeline_node \<Rightarrow> nat \<Rightarrow> progress
   \<Rightarrow> ('w, progress) act" where
  "begin_attempt env h cd n attempt pr =
     (if en_max_steps env \<le> pr_step_count pr then fail (MaxStepsExceeded (en_max_steps env))
      else if f64_gt (pr_total_cost pr) (en_max_budget env)
      then fail (BudgetExhausted (pr_total_cost pr) (en_max_budget env))
      else act_bind (add_one (en_profile env) 64 (pr_total_attempts pr)) (\<lambda>total.
        let pr' = pr\<lparr>pr_step_count := pr_step_count pr + 1, pr_total_attempts := total\<rparr>
        in act_bind (save_data env cd (pn_id n)
             (pr'\<lparr>pr_active_attempts := if nh_resumes_interrupted h then attempt else attempt + 1\<rparr>)) (\<lambda>_.
           ret (pr'\<lparr>pr_active_attempts := attempt + 1\<rparr>))))"

definition attempt_step ::
  "'w engine_env \<Rightarrow> 'w node_handler \<Rightarrow> checkpoint_data \<Rightarrow> pipeline_node \<Rightarrow> resolved_node \<Rightarrow> nat \<Rightarrow> nat
   \<Rightarrow> progress \<Rightarrow> ('w, (outcome \<times> progress) + progress) act" where
  "attempt_step env h cd n r limit attempt pr =
     act_bind (begin_attempt env h cd n attempt pr) (\<lambda>pr.
     act_bind (observe (\<lambda>s. (en_head env (rs_world s), claimed_task (rs_ctx s)))) (\<lambda>(head, task_before).
     act_bind (emit env (StageStarted (pn_id n) (handler_as_str (rn_handler r)))) (\<lambda>_.
     act_bind (observe (\<lambda>s. en_clock env (rs_world s))) (\<lambda>started.
     act_bind (run_handler env h n r) (\<lambda>res.
     act_bind (observe (\<lambda>s. or_else
         (case res of
            Inr out \<Rightarrow>
              if hm_contains (context_updates out) task_id_key
              then task_id_value (hm_get (context_updates out) task_id_key)
              else claimed_task (rs_ctx s)
          | Inl _ \<Rightarrow> claimed_task (rs_ctx s)) task_before)) (\<lambda>task.
     act_bind (emit_run_commits env (pn_id n) head task) (\<lambda>_.
       settle_attempt env cd n attempt limit started pr res)))))))"

fun attempts ::
  "'w engine_env \<Rightarrow> 'w node_handler \<Rightarrow> checkpoint_data \<Rightarrow> pipeline_node \<Rightarrow> resolved_node \<Rightarrow> nat
   \<Rightarrow> nat list \<Rightarrow> progress \<Rightarrow> ('w, outcome \<times> progress) act" where
  "attempts env h cd n r limit [] pr = fail (RetriesExhausted (pn_id n) limit)"
| "attempts env h cd n r limit (a # as) pr =
     act_bind (attempt_step env h cd n r limit a pr) (\<lambda>x.
       case x of Inl done_with \<Rightarrow> ret done_with | Inr pr \<Rightarrow> attempts env h cd n r limit as pr)"

definition invoke_node ::
  "'w engine_env \<Rightarrow> checkpoint_data \<Rightarrow> pipeline_node \<Rightarrow> resolved_node \<Rightarrow> progress
   \<Rightarrow> ('w, outcome \<times> progress) act" where
  "invoke_node env cd n r pr =
     (let ty = handler_as_str (rn_handler r); i = pn_id n; limit = max_attempts (rn_invocation r)
      in case en_handlers env ty of
           None \<Rightarrow> fail (HandlerError ty i (''No handler registered for type '' @ sq ty))
         | Some h \<Rightarrow>
             (let pr = (if pr_active_node pr \<noteq> Some i
                        then pr\<lparr>pr_active_node := Some i, pr_active_attempts := 0\<rparr> else pr)
              in if limit \<le> pr_active_attempts pr then fail (RetriesExhausted i limit)
                 else attempts env h cd n r limit [pr_active_attempts pr ..< limit] pr))"

section \<open>The core loop\<close>

record pipeline_result =
  res_completed :: "str list"
  res_outcomes :: "outcome hmap"
  res_context :: "json hmap"
  res_cost :: f64
  res_stopped_before :: "str option"

record loop_state =
  ls_current :: pipeline_node
  ls_completed :: "str list"
  ls_outcomes :: "outcome hmap"
  ls_counters :: "nat hmap"
  ls_footprints :: "str hmap"
  ls_prev :: "str option"
  ls_run_id :: "str option"
  ls_progress :: progress

definition checkpoint_data_of :: "loop_state \<Rightarrow> checkpoint_data" where
  "checkpoint_data_of ls =
     \<lparr>cd_completed = ls_completed ls, cd_outcomes = ls_outcomes ls, cd_counters = ls_counters ls,
      cd_footprints = ls_footprints ls, cd_previous = ls_prev ls, cd_run_id = ls_run_id ls\<rparr>"

definition stop_request_source :: "'w engine_env \<Rightarrow> 'w \<Rightarrow> str option" where
  "stop_request_source env w =
     (case en_stop_file env w of
        NoStopFile \<Rightarrow> None
      | UnreadableStopFile \<Rightarrow> Some ''cli''
      | StopFile text \<Rightarrow>
          Some (case Option.bind (Option.bind (en_json env text) (\<lambda>v. json_get v ''source'')) json_as_str of
                  Some src \<Rightarrow> if src = ''cli'' \<or> src = ''monitor'' then src else ''cli''
                | None \<Rightarrow> ''cli''))"

definition make_result :: "loop_state \<Rightarrow> str option \<Rightarrow> 'w run_state \<Rightarrow> pipeline_result" where
  "make_result ls stopped s =
     \<lparr>res_completed = ls_completed ls, res_outcomes = ls_outcomes ls,
      res_context = context_snapshot (rs_ctx s), res_cost = pr_total_cost (ls_progress ls),
      res_stopped_before = stopped\<rparr>"

text \<open>Phase 5, after the loop was left with \<open>break\<close>.\<close>

definition finalize :: "'w engine_env \<Rightarrow> loop_state \<Rightarrow> ('w, pipeline_result) act" where
  "finalize env ls s =
     (case en_logs_root env of
        None \<Rightarrow> (Inr (make_result ls None s), s)
      | Some d \<Rightarrow>
          (let (r, fs) = clear_checkpoint (en_io env (rs_world s)) d (rs_files s);
               s' = s\<lparr>rs_files := fs, rs_world := en_tick env (rs_world s)\<rparr>
           in case r of
                Inl e \<Rightarrow> (Inl (Failed e), s')
              | Inr _ \<Rightarrow> (Inr (make_result ls None s'), s')))"

definition emit_context_updated :: "'w engine_env \<Rightarrow> str \<Rightarrow> outcome \<Rightarrow> ('w, unit) act" where
  "emit_context_updated env i out =
     (if context_updates out = [] then ret ()
      else emit env (ContextUpdated i (sort (hm_keys (context_updates out)))))"

definition idle :: "progress \<Rightarrow> progress" where
  "idle pr = pr\<lparr>pr_active_node := None, pr_active_attempts := 0\<rparr>"

definition record_outcome :: "str \<Rightarrow> outcome \<Rightarrow> loop_state \<Rightarrow> loop_state" where
  "record_outcome i out ls =
     ls\<lparr>ls_completed := ls_completed ls @ [i], ls_outcomes := hm_insert i out (ls_outcomes ls)\<rparr>"

text \<open>The exit: gates, then a retry target or the exit handler.\<close>

definition gate_events :: "pipeline_graph \<Rightarrow> outcome hmap \<Rightarrow> pipeline_event list" where
  "gate_events g outs =
     map (\<lambda>(i, out). GoalGateChecked i (status_satisfied (status out)))
       (sort_key fst (filter (\<lambda>(i, _). case graph_node g i of Some n \<Rightarrow> pn_goal_gate n | None \<Rightarrow> False) outs))"

definition exit_stage ::
  "'w engine_env \<Rightarrow> loop_state \<Rightarrow> ('w, pipeline_result + loop_state) act" where
  "exit_stage env ls =
     (let n = ls_current ls; i = pn_id n
      in case plan_node (en_plan env) i of
           None \<Rightarrow> panic
         | Some r \<Rightarrow>
             act_bind (invoke_node env (checkpoint_data_of ls) n r (ls_progress ls)) (\<lambda>(out, pr).
             act_bind (apply_handler_updates i out) (\<lambda>_.
             act_bind (emit_context_updated env i out) (\<lambda>_.
             act_bind (finalize env (record_outcome i out (ls\<lparr>ls_progress := idle pr\<rparr>))) (\<lambda>res.
               ret (Inl res))))))"

definition exit_round ::
  "'w engine_env \<Rightarrow> loop_state \<Rightarrow> ('w, pipeline_result + loop_state) act" where
  "exit_round env ls =
     act_bind (act_iter (emit env) (gate_events (en_graph env) (ls_outcomes ls))) (\<lambda>_.
     act_bind (lift_result (enforce_goal_gates (en_graph env) (ls_outcomes ls))) (\<lambda>gates.
     case (if all_satisfied gates then None else gg_retry_target gates) of
       Some target \<Rightarrow>
         (case graph_node (en_graph env) target of
            None \<Rightarrow> fail (OtherError (''Retry target '' @ sq target @ '' not found''))
          | Some t \<Rightarrow> ret (Inr (ls\<lparr>ls_current := t\<rparr>)))
     | None \<Rightarrow> exit_stage env ls))"

text \<open>The quality loop: a counter per quality node and upstream node.\<close>

definition upstream_key :: "loop_state \<Rightarrow> str" where
  "upstream_key ls =
     pn_id (ls_current ls) @ ''::''
     @ (case ls_prev ls of Some u \<Rightarrow> u | None \<Rightarrow> ''__start__'')"

definition count_quality :: "'w engine_env \<Rightarrow> loop_state \<Rightarrow> ('w, loop_state) act" where
  "count_quality env ls =
     (let i = pn_id (ls_current ls); key = upstream_key ls;
          old = (case hm_get (ls_counters ls) key of Some c \<Rightarrow> c | None \<Rightarrow> 0)
      in act_bind (add_one (en_profile env) 32 old) (\<lambda>iteration.
         case hm_get (ct_quality_max (rc_controls (en_config env))) i of
           None \<Rightarrow> panic
         | Some limit \<Rightarrow>
             if rv_value limit < iteration
             then fail (OtherError (''Quality node '' @ sq i @ '' exceeded max_fix_iterations (''
                    @ show_nat (rv_value limit) @ '') '' @ map char_of [0xE2, 0x80, 0x94 :: nat]
                    @ '' aborting pipeline''))
             else act_bind (if 2 \<le> iteration then set_world (en_sleep env 1000) else ret ()) (\<lambda>_.
                    ret (ls\<lparr>ls_counters := hm_insert key iteration (ls_counters ls)\<rparr>))))"

fun first_footprint :: "json list \<Rightarrow> str option" where
  "first_footprint [] = None"
| "first_footprint (r # rs) =
     (case Option.bind (json_get r ''failure_footprint'') json_as_str of
        Some fp \<Rightarrow> Some fp | None \<Rightarrow> first_footprint rs)"

definition note_footprint :: "str \<Rightarrow> outcome \<Rightarrow> loop_state \<Rightarrow> loop_state" where
  "note_footprint i out ls =
     (case Option.bind (hm_get (context_updates out) (i @ ''.results'')) json_as_array of
        None \<Rightarrow> ls
      | Some rs \<Rightarrow>
          (case first_footprint rs of
             Some fp \<Rightarrow> ls\<lparr>ls_footprints := hm_insert i fp (ls_footprints ls)\<rparr>
           | None \<Rightarrow> ls))"

text \<open>The value of a condition key: the outcome, its label, or the context.\<close>

definition resolve_key :: "'w engine_env \<Rightarrow> outcome \<Rightarrow> json hmap \<Rightarrow> str \<Rightarrow> str" where
  "resolve_key env out snapshot k =
     (if k = ''outcome'' then status_to_string (status out)
      else if k = ''preferred_label''
      then (case preferred_label out of Some l \<Rightarrow> l | None \<Rightarrow> [])
      else case hm_get snapshot k of
             None \<Rightarrow> []
           | Some (JStr s) \<Rightarrow> s
           | Some (JBool b) \<Rightarrow> show_bool b
           | Some (JInt i) \<Rightarrow> show_int i
           | Some v \<Rightarrow> en_json_text env v)"

definition follow_edge ::
  "'w engine_env \<Rightarrow> pipeline_edge \<Rightarrow> loop_state \<Rightarrow> ('w, pipeline_result + loop_state) act" where
  "follow_edge env e ls =
     act_bind (emit env (EdgeSelected (pe_from e) (pe_to e) (pe_label e))) (\<lambda>_.
       let finished = pn_id (ls_current ls);
           ls1 = (if pe_loop_restart e then ls\<lparr>ls_completed := [], ls_outcomes := []\<rparr> else ls);
           ls2 = (if pe_reset_quality e then ls1\<lparr>ls_counters := [], ls_footprints := []\<rparr> else ls1)
       in case graph_node (en_graph env) (pe_to e) of
            None \<Rightarrow> fail (OtherError (''Edge target '' @ sq (pe_to e) @ '' not found''))
          | Some n \<Rightarrow>
              (let ls3 = ls2\<lparr>ls_current := n, ls_progress := idle (ls_progress ls2),
                             ls_prev := Some finished\<rparr>
               in act_bind (save_data env (checkpoint_data_of ls3) (pn_id n) (ls_progress ls3)) (\<lambda>_.
                    ret (Inr ls3))))"

text \<open>What follows the outcome of a stage: record it, then move on or end the run.\<close>

definition stage_outcome ::
  "'w engine_env \<Rightarrow> resolved_node \<Rightarrow> loop_state \<Rightarrow> outcome \<Rightarrow> progress
   \<Rightarrow> ('w, pipeline_result + loop_state) act" where
  "stage_outcome env r ls1 out pr =
     (let i = pn_id (ls_current ls1);
          ls2 = (if rn_handler r = HQuality \<and> status out = Fail then note_footprint i out ls1 else ls1);
          ls3 = record_outcome i out (ls2\<lparr>ls_progress :=
            (case cost_of i out of Some c \<Rightarrow> add_cost c pr | None \<Rightarrow> pr)\<rparr>)
      in act_bind (apply_handler_updates i out) (\<lambda>_.
         act_bind (emit_context_updated env i out) (\<lambda>_.
         act_bind (observe (\<lambda>s. select_edge (en_strip env) i out
             (resolve_key env out (context_snapshot (rs_ctx s))) (en_graph env))) (\<lambda>next_edge.
         case next_edge of
           Some e \<Rightarrow> follow_edge env e ls3
         | None \<Rightarrow>
             if status out = Fail
             then fail (HandlerError (handler_as_str (rn_handler r)) i
                    ''Handler failed with no outgoing edge'')
             else act_bind (finalize env (ls3\<lparr>ls_progress := idle (ls_progress ls3)\<rparr>)) (\<lambda>res.
               ret (Inl res))))))"

definition stage_round ::
  "'w engine_env \<Rightarrow> loop_state \<Rightarrow> ('w, pipeline_result + loop_state) act" where
  "stage_round env ls =
     (case plan_node (en_plan env) (pn_id (ls_current ls)) of
        None \<Rightarrow> panic
      | Some r \<Rightarrow>
          act_bind (if rn_handler r = HQuality then count_quality env ls else ret ls) (\<lambda>ls1.
          act_bind (invoke_node env (checkpoint_data_of ls1) (ls_current ls1) r (ls_progress ls1)) (\<lambda>(out, pr).
            stage_outcome env r ls1 out pr)))"

definition loop_round ::
  "'w engine_env \<Rightarrow> loop_state \<Rightarrow> ('w, pipeline_result + loop_state) act" where
  "loop_round env ls =
     (let pr = ls_progress ls; i = pn_id (ls_current ls)
      in if f64_gt (pr_total_cost pr) (en_max_budget env)
         then fail (BudgetExhausted (pr_total_cost pr) (en_max_budget env))
         else if is_exit (en_plan env) i then exit_round env ls
         else act_bind (observe (\<lambda>s. stop_request_source env (rs_world s))) (\<lambda>stop.
           case stop of
             None \<Rightarrow> stage_round env ls
           | Some source \<Rightarrow>
               act_bind (emit env (StopRequested source)) (\<lambda>_.
               act_bind (save_data env (checkpoint_data_of ls) i pr) (\<lambda>_.
               act_bind (observe (make_result ls (Some i))) (\<lambda>res. ret (Inl res))))))"

text \<open>
  The loop on pairs of loop variables and state, for \<^const>\<open>iterate\<close>. The fuel is enough for
  every validated plan (see \<open>engine_finishes\<close>).
\<close>

definition engine_round ::
  "'w engine_env \<Rightarrow> loop_state \<times> 'w run_state
   \<Rightarrow> ((engine_failure + pipeline_result) \<times> 'w run_state) + (loop_state \<times> 'w run_state)" where
  "engine_round env p =
     (case loop_round env (fst p) (snd p) of
        (Inl e, s') \<Rightarrow> Inl (Inl e, s')
      | (Inr (Inl res), s') \<Rightarrow> Inl (Inr res, s')
      | (Inr (Inr ls'), s') \<Rightarrow> Inr (ls', s'))"

definition engine_fuel :: "'w engine_env \<Rightarrow> nat" where
  "engine_fuel env = 2 * en_max_steps env + 2"

section \<open>A run\<close>

definition resume_state :: "'w engine_env \<Rightarrow> checkpoint \<Rightarrow> pipeline_node \<Rightarrow> loop_state" where
  "resume_state env cp n =
     \<lparr>ls_current = n, ls_completed = cp_completed cp, ls_outcomes = cp_outcomes cp,
      ls_counters = cp_counters cp, ls_footprints = cp_footprints cp, ls_prev = cp_previous cp,
      ls_run_id = or_else (en_run_id env) (cp_run_id cp),
      ls_progress = \<lparr>pr_step_count = cp_step_count cp, pr_total_cost = cp_total_cost cp,
        pr_total_attempts = cp_total_attempts cp, pr_active_node = cp_active_node cp,
        pr_active_attempts = cp_active_attempts cp\<rparr>\<rparr>"

definition fresh_state :: "'w engine_env \<Rightarrow> pipeline_node \<Rightarrow> loop_state" where
  "fresh_state env n =
     \<lparr>ls_current = n, ls_completed = [], ls_outcomes = [], ls_counters = [], ls_footprints = [],
      ls_prev = None, ls_run_id = en_run_id env, ls_progress = progress_default\<rparr>"

definition load_data :: "'w engine_env \<Rightarrow> ('w, checkpoint option) act" where
  "load_data env s =
     (case en_logs_root env of
        None \<Rightarrow> (Inr None, s)
      | Some d \<Rightarrow> lift_result (load_checkpoint (en_de env) (en_io env (rs_world s)) d (rs_files s)) s)"

definition initialize :: "'w engine_env \<Rightarrow> ('w, loop_state) act" where
  "initialize env =
     act_bind (set_ctx (fold (\<lambda>(k, v). context_set k v) (rc_defaults (en_config env)))) (\<lambda>_.
     case graph_node (en_graph env) (pl_start (en_plan env)) of
       None \<Rightarrow> panic
     | Some start \<Rightarrow>
         act_bind (load_data env) (\<lambda>loaded.
         case loaded of
           None \<Rightarrow> ret (fresh_state env start)
         | Some cp \<Rightarrow>
             act_bind (lift_result (validate_checkpoint cp (plan_fp env)
                (case en_logs_root env of Some d \<Rightarrow> checkpoint_path d | None \<Rightarrow> []))) (\<lambda>_.
             act_bind (set_ctx (context_apply_updates
                (filter (\<lambda>(k, _). \<not> is_reserved_key k) (cp_context cp)))) (\<lambda>_.
             case graph_node (en_graph env) (cp_current cp) of
               None \<Rightarrow> fail (OtherError (''Checkpoint node '' @ sq (cp_current cp)
                 @ '' not found in graph '' @ map char_of [0xE2, 0x80, 0x94 :: nat]
                 @ '' was the .dot file changed?''))
             | Some n \<Rightarrow> ret (resume_state env cp n)))))"

definition run_loop :: "'w engine_env \<Rightarrow> loop_state \<Rightarrow> 'w run_state
   \<Rightarrow> ((engine_failure + pipeline_result) \<times> 'w run_state) option" where
  "run_loop env ls s = iterate (engine_fuel env) (engine_round env) (ls, s)"

definition diag_messages :: "diagnostic list \<Rightarrow> str" where
  "diag_messages ds = join ''; '' (map sd_message ds)"

text \<open>The checks before the first event.\<close>

definition admit :: "'w engine_env \<Rightarrow> ('w, unit) act" where
  "admit env =
     (case ensure_registry_compatible (en_plan env) (en_capabilities env) of
        Inl PlanPanic \<Rightarrow> panic
      | Inl (Rejected ds) \<Rightarrow> fail (ValidationError (diag_messages ds))
      | Inr _ \<Rightarrow>
          (case errors_of (validate_plan (en_fmt2 env) (en_plan env)) of
             [] \<Rightarrow>
               act_bind (observe (\<lambda>s. sort (filter is_reserved_key (hm_keys (ctx_values (rs_ctx s)))))) (\<lambda>ks.
               if ks = [] then ret ()
               else fail (ValidationError (''canonical workflow input contains reserved context key(s): ''
                      @ join '', '' ks)))
           | es \<Rightarrow> fail (ValidationError (join ''; '' (map ln_message es)))))"

text \<open>The end of a run: completed, failed, or stopped without a further event.\<close>

definition conclude ::
  "'w engine_env \<Rightarrow> nat \<Rightarrow> engine_failure + pipeline_result \<Rightarrow> ('w, pipeline_result) act" where
  "conclude env started r =
     (case r of
        Inr res \<Rightarrow>
          if res_stopped_before res \<noteq> None then ret res
          else act_bind (observe (\<lambda>s. en_clock env (rs_world s))) (\<lambda>now.
            act_bind (emit env (PipelineCompleted (pg_name (en_graph env)) (res_completed res)
                                  (saturate_u64 (now - started)))) (\<lambda>_. ret res))
      | Inl (Failed e) \<Rightarrow>
          act_bind (emit env (PipelineFailed (pg_name (en_graph env)) (error_display (en_fmt2 env) e)))
            (\<lambda>_. fail e)
      | Inl EnginePanic \<Rightarrow> panic)"

definition start_run :: "'w engine_env \<Rightarrow> ('w, unit) act" where
  "start_run env s =
     (case emit_required env (PipelineStarted (pg_name (en_graph env)) (length (all_nodes (en_graph env)))) s of
        (Inl (Failed e), s') \<Rightarrow>
          act_bind (broadcast env (PipelineFailed (pg_name (en_graph env)) (error_display (en_fmt2 env) e)))
            (\<lambda>_. fail e) s'
      | r \<Rightarrow> r)"

text \<open>The core loop and the end of the run, once the start has been announced.\<close>

fun run_from ::
  "'w engine_env \<Rightarrow> nat \<Rightarrow> (engine_failure + loop_state) \<times> 'w run_state
   \<Rightarrow> ((engine_failure + pipeline_result) \<times> 'w run_state) option" where
  "run_from env started (Inl e, s) = Some (conclude env started (Inl e) s)"
| "run_from env started (Inr ls, s) =
     map_option (\<lambda>(r, s). conclude env started r s) (run_loop env ls s)"

fun run_admitted ::
  "'w engine_env \<Rightarrow> (engine_failure + nat) \<times> 'w run_state
   \<Rightarrow> ((engine_failure + pipeline_result) \<times> 'w run_state) option" where
  "run_admitted env (Inl e, s) = Some (Inl e, s)"
| "run_admitted env (Inr started, s) = run_from env started (initialize env s)"

definition prologue :: "'w engine_env \<Rightarrow> ('w, nat) act" where
  "prologue env =
     act_bind (admit env) (\<lambda>_.
     act_bind (observe (\<lambda>s. en_clock env (rs_world s))) (\<lambda>started.
     act_bind (start_run env) (\<lambda>_. ret started)))"

definition run_inner :: "'w engine_env \<Rightarrow> 'w run_state
   \<Rightarrow> ((engine_failure + pipeline_result) \<times> 'w run_state) option" where
  "run_inner env s0 = run_admitted env (prologue env s0)"

end
