(* ===== verification/Engine_Props.thy ===== *)
theory Engine_Props
  imports Engine
begin

text \<open>
  What the engine guarantees: accounting of steps, termination, the bound on handler attempts,
  the order of journal and subscribers, goal gates at the exit, and resumption.
\<close>

section \<open>Reasoning about steps\<close>

lemma act_bind_Inr:
  "act_bind m f s = (Inr y, s') \<longleftrightarrow> (\<exists>x s1. m s = (Inr x, s1) \<and> f x s1 = (Inr y, s'))"
  by (auto simp: act_bind_def split: prod.splits sum.splits)

lemma act_bind_cases:
  assumes "act_bind m f s = (r, s')"
  obtains e where "m s = (Inl e, s')" "r = Inl e"
  | x s1 where "m s = (Inr x, s1)" "f x s1 = (r, s')"
  using assms by (auto simp: act_bind_def split: prod.splits sum.splits)

lemma act_ret [simp]: "ret x s = (r, s') \<longleftrightarrow> r = Inr x \<and> s' = s"
  by (auto simp: ret_def)

lemma act_fail [simp]: "fail e s = (r, s') \<longleftrightarrow> r = Inl (Failed e) \<and> s' = s"
  by (auto simp: fail_def)

lemma act_panic [simp]: "panic s = (r, s') \<longleftrightarrow> r = Inl EnginePanic \<and> s' = s"
  by (auto simp: panic_def)

lemma act_observe [simp]: "observe g s = (r, s') \<longleftrightarrow> r = Inr (g s) \<and> s' = s"
  by (auto simp: observe_def)

lemma act_set [simp]:
  "set_ctx c s = (r, s') \<longleftrightarrow> r = Inr () \<and> s' = s\<lparr>rs_ctx := c (rs_ctx s)\<rparr>"
  "set_world w s = (r, s') \<longleftrightarrow> r = Inr () \<and> s' = s\<lparr>rs_world := w (rs_world s)\<rparr>"
  by (auto simp: set_ctx_def set_world_def)

text \<open>
  A frame is a reflexive and transitive relation between the states before and after a step;
  a step stays in the frame when all its parts do.
\<close>

definition leaves :: "('w run_state \<Rightarrow> 'w run_state \<Rightarrow> bool) \<Rightarrow> ('w, 'a) act \<Rightarrow> bool" where
  "leaves R m \<longleftrightarrow> (\<forall>s. R s (snd (m s)))"

lemma leavesD: "leaves R m \<Longrightarrow> m s = (r, s') \<Longrightarrow> R s s'"
  by (metis leaves_def snd_conv)

fun is_stage_started :: "pipeline_event \<Rightarrow> bool" where
  "is_stage_started (StageStarted i h) = True"
| "is_stage_started _ = False"

text \<open>The events of a handler run are not the engine's own announcement of an attempt.\<close>

definition quiet_handler :: "'w node_handler \<Rightarrow> bool" where
  "quiet_handler h \<longleftrightarrow>
     (\<forall>n r c w. list_all (\<lambda>ev. \<not> is_stage_started ev) (hr_events (snd (nh_execute h n r c w))))
     \<and> (\<forall>t n r c w. list_all (\<lambda>ev. \<not> is_stage_started ev) (hr_events (snd (nh_execute_within h t n r c w))))"

locale step_frame =
  fixes R :: "'w run_state \<Rightarrow> 'w run_state \<Rightarrow> bool" and env :: "'w engine_env"
  assumes R_refl: "R s s"
    and R_trans: "R s t \<Longrightarrow> R t u \<Longrightarrow> R s u"
    and R_trace: "rs_trace t = rs_trace s \<Longrightarrow> R s t"
    and emit_quiet: "\<not> is_stage_started ev \<Longrightarrow> leaves R (emit env ev)"
begin

lemma leaves_bind: "leaves R m \<Longrightarrow> (\<And>x. leaves R (f x)) \<Longrightarrow> leaves R (act_bind m f)"
  by (auto simp: leaves_def act_bind_def split: prod.splits sum.splits) (metis R_trans snd_conv)+

lemma leaves_atoms:
  "leaves R (ret x)" "leaves R (fail e)" "leaves R panic" "leaves R (observe g)"
  "leaves R (set_ctx c)" "leaves R (set_world w)" "leaves R (lift_result res)" "leaves R (add_one b hi n)"
  by (auto simp: leaves_def ret_def fail_def panic_def observe_def set_ctx_def set_world_def
      lift_result_def add_one_def R_refl R_trace split: sum.splits build_profile.splits)

lemma leaves_iter: "(\<And>x. x \<in> set xs \<Longrightarrow> leaves R (f x)) \<Longrightarrow> leaves R (act_iter f xs)"
  by (induction xs) (auto intro!: leaves_bind simp: leaves_atoms)

lemma leaves_save: "leaves R (save_data env cd i pr)"
  unfolding leaves_def
proof
  fix s :: "'w run_state"
  show "R s (snd (save_data env cd i pr s))"
  proof (cases "en_logs_root env")
    case None
    then show ?thesis by (simp add: save_data_def R_refl)
  next
    case (Some d)
    obtain r fs where rf: "save_checkpoint (en_ser env) (en_io env (rs_world s))
        (make_checkpoint env cd i pr s) d (rs_files s) = (r, fs)" by (metis surj_pair)
    define t where "t = s\<lparr>rs_files := fs, rs_world := en_tick env (rs_world s)\<rparr>"
    have "R s t" by (rule R_trace) (simp add: t_def)
    moreover have "R t (snd (emit env (CheckpointSaved i) t))"
      using emit_quiet [of "CheckpointSaved i"] by (simp add: leaves_def)
    ultimately show ?thesis
      using Some rf R_trans by (cases r) (auto simp: save_data_def t_def)
  qed
qed

lemma leaves_run_commits: "leaves R (emit_run_commits env i before task)"
  by (auto simp: emit_run_commits_def leaves_atoms emit_quiet intro!: leaves_bind split: option.split sum.split)

lemma leaves_settle: "leaves R (settle_attempt env cd n attempt limit started pr res)"
  by (auto simp: settle_attempt_def Let_def leaves_atoms emit_quiet leaves_save
      intro!: leaves_bind split: option.split sum.split)

lemma leaves_begin: "leaves R (begin_attempt env h cd n attempt pr)"
  by (auto simp: begin_attempt_def Let_def leaves_atoms leaves_save intro!: leaves_bind)

lemma leaves_context_updates:
  "leaves R (emit_context_updated env i out)" "leaves R (apply_handler_updates i out)"
  by (auto simp: emit_context_updated_def apply_handler_updates_def leaves_atoms emit_quiet split: list.split)

lemma leaves_finalize: "leaves R (finalize env ls)"
  unfolding leaves_def
  by (auto simp: finalize_def Let_def R_refl R_trace split: option.split prod.split sum.split)

lemma leaves_follow: "leaves R (follow_edge env e ls)"
  by (auto simp: follow_edge_def Let_def leaves_atoms emit_quiet leaves_save intro!: leaves_bind split: option.split)

lemma leaves_stage_outcome: "leaves R (stage_outcome env r ls out pr)"
  unfolding stage_outcome_def Let_def
  by (auto simp: leaves_atoms split: option.split
      intro!: leaves_bind leaves_context_updates leaves_finalize leaves_follow)

lemma leaves_count_quality: "leaves R (count_quality env ls)"
  by (auto simp: count_quality_def Let_def leaves_atoms intro!: leaves_bind split: option.split)

lemma leaves_gate_events: "leaves R (act_iter (emit env) (gate_events g outs))"
  by (rule leaves_iter) (auto simp: gate_events_def intro!: emit_quiet)

lemma leaves_initialize: "leaves R (initialize env)"
  by (auto simp: initialize_def leaves_atoms load_data_def leaves_def [of R "load_data env"] R_refl
      lift_result_def intro!: leaves_bind split: option.split sum.split)

lemma leaves_conclude: "leaves R (conclude env started r)"
  by (auto simp: conclude_def leaves_atoms emit_quiet intro!: leaves_bind
      split: sum.split engine_failure.split)

lemma leaves_run_events:
  assumes "\<And>ev. ev \<in> set evs \<Longrightarrow> leaves R (emit env ev)" "rs_trace t = rs_trace s"
  shows "R s (snd (act_bind (act_iter (emit env) evs) (\<lambda>_. ret x) t))"
proof -
  have "leaves R (act_bind (act_iter (emit env) evs) (\<lambda>_. ret x))"
    by (intro leaves_bind leaves_iter leaves_atoms assms(1))
  then have "R t (snd (act_bind (act_iter (emit env) evs) (\<lambda>_. ret x) t))" by (simp add: leaves_def)
  with R_trace [OF assms(2)] show ?thesis using R_trans by blast
qed

lemma leaves_run_handler:
  assumes "\<And>ev. leaves R (emit env ev) \<or> quiet_handler h"
  shows "leaves R (run_handler env h n r)"
  unfolding leaves_def
proof
  fix s :: "'w run_state"
  have ev: "leaves R (emit env ev)"
    if "ev \<in> set (hr_events (snd (nh_execute h n r (rs_ctx s) (rs_world s))))
      \<or> ev \<in> set (hr_events (snd (nh_execute_within h t n r (rs_ctx s) (rs_world s))))" for ev t
    using assms [of ev] that emit_quiet by (auto simp: quiet_handler_def list_all_iff)
  show "R s (snd (run_handler env h n r s))"
    unfolding run_handler_def Let_def
    by (auto simp: split_beta split: option.split intro!: leaves_run_events ev)
qed

end

text \<open>A frame that every event respects is respected by the whole loop.\<close>

locale full_frame = step_frame +
  assumes emit_started: "leaves R (emit env (StageStarted i h))"
begin

lemma emit_all: "leaves R (emit env ev)"
  by (cases "is_stage_started ev"; cases ev) (auto simp: emit_started intro: emit_quiet)

lemma leaves_attempt_step: "leaves R (attempt_step env h cd n r limit a pr)"
  unfolding attempt_step_def
  by (auto simp: split_beta leaves_atoms intro!: leaves_bind leaves_begin emit_all leaves_run_handler
      leaves_run_commits leaves_settle)

lemma leaves_attempts: "leaves R (attempts env h cd n r limit as pr)"
proof (induction "as" arbitrary: pr)
  case Nil
  then show ?case by (simp add: leaves_atoms)
next
  case (Cons a "as")
  then show ?case
    by (auto simp: leaves_atoms split: sum.split intro!: leaves_bind leaves_attempt_step)
qed

lemma leaves_invoke: "leaves R (invoke_node env cd n r pr)"
  by (auto simp: invoke_node_def Let_def leaves_atoms leaves_attempts split: option.split)

lemma leaves_exit_round: "leaves R (exit_round env ls)"
  unfolding exit_round_def exit_stage_def Let_def
  by (auto simp: leaves_atoms split_beta split: option.split
      intro!: leaves_bind leaves_gate_events leaves_invoke leaves_context_updates leaves_finalize)

lemma leaves_stage_round: "leaves R (stage_round env ls)"
  unfolding stage_round_def Let_def
  by (auto simp: leaves_atoms split_beta split: option.split
      intro!: leaves_bind leaves_count_quality leaves_invoke leaves_stage_outcome)

lemma leaves_loop_round: "leaves R (loop_round env ls)"
  unfolding loop_round_def Let_def
  by (auto simp: leaves_atoms split: option.split
      intro!: leaves_bind leaves_exit_round leaves_stage_round emit_all leaves_save)

lemma iterate_frame:
  "iterate k (engine_round env) (ls, s) = Some (r, s') \<Longrightarrow> R s s'"
proof (induction k arbitrary: ls s)
  case (Suc k)
  have "R s (snd (loop_round env ls s))" using leaves_loop_round by (simp add: leaves_def)
  with Suc show ?case
    by (auto simp: engine_round_def split: prod.splits sum.splits) (blast intro: R_trans)
qed simp

end

section \<open>Journal before subscribers\<close>

text \<open>Every broadcast follows the append, or the failed append, of the same event.\<close>

fun journal_first :: "observation list \<Rightarrow> bool" where
  "journal_first [] = True"
| "journal_first (Broadcast ev # t) = False"
| "journal_first (Journaled ev # Broadcast ev' # t) = (ev = ev' \<and> journal_first t)"
| "journal_first (JournalFailed ev # Broadcast ev' # t) = (ev = ev' \<and> journal_first t)"
| "journal_first (Journaled ev # t) = journal_first t"
| "journal_first (JournalFailed ev # t) = journal_first t"

lemma journal_first_append: "journal_first t \<Longrightarrow> journal_first u \<Longrightarrow> journal_first (t @ u)"
  by (induction t rule: journal_first.induct)
     (auto elim: journal_first.elims simp: neq_Nil_conv split: list.splits;
      cases u rule: journal_first.cases; auto)+

definition journal_frame :: "'w engine_env \<Rightarrow> 'w run_state \<Rightarrow> 'w run_state \<Rightarrow> bool" where
  "journal_frame env s s' \<longleftrightarrow>
     (\<exists>t. rs_trace s' = rs_trace s @ t \<and> (en_journal env = None \<or> journal_first t))"

lemma emit_trace:
  "rs_trace (snd (emit env ev s)) = rs_trace s
     @ (case en_journal env of None \<Rightarrow> []
        | Some _ \<Rightarrow> if en_append env ev (rs_world s) = None then [Journaled ev] else [JournalFailed ev])
     @ (if en_events env then [Broadcast ev] else [])"
  by (auto simp: emit_def act_bind_def journal_def broadcast_def split: option.split)

lemma emit_journal_frame: "leaves (journal_frame env) (emit env ev)"
  by (auto simp: leaves_def journal_frame_def emit_trace split: option.split)

interpretation jf: full_frame "journal_frame env" env for env
proof unfold_locales
  show "journal_frame env s s" for s by (simp add: journal_frame_def)
  show "journal_frame env s u" if "journal_frame env s t" "journal_frame env t u" for s t u
    using that by (auto simp: journal_frame_def intro: journal_first_append)
  show "journal_frame env s t" if "rs_trace t = rs_trace s" for s t
    using that by (auto simp: journal_frame_def intro!: exI [of _ "[]"])
qed (rule emit_journal_frame)+

section \<open>Accounting of steps and attempts\<close>

definition progress_of :: "(outcome \<times> progress) + progress \<Rightarrow> progress" where
  "progress_of x = (case x of Inl (_, pr) \<Rightarrow> pr | Inr pr \<Rightarrow> pr)"

lemma add_one_Inr: "add_one b hi n s = (Inr k, s') \<Longrightarrow> s' = s \<and> (k = n + 1 \<or> k = 0)"
  by (auto simp: add_one_def split: if_splits build_profile.splits)

lemma begin_attempt_Inr:
  assumes "begin_attempt env h cd n a pr s = (Inr pr', s')"
  shows "pr_step_count pr < en_max_steps env" "\<not> f64_gt (pr_total_cost pr) (en_max_budget env)"
    "pr_step_count pr' = pr_step_count pr + 1" "pr_active_attempts pr' = a + 1"
    "pr_total_cost pr' = pr_total_cost pr" "pr_active_node pr' = pr_active_node pr"
  using assms by (auto simp: begin_attempt_def Let_def act_bind_Inr split: if_splits dest!: add_one_Inr)

lemma settle_attempt_Inr:
  assumes "settle_attempt env cd n a limit started pr res s = (Inr x, s')"
  shows "pr_step_count (progress_of x) = pr_step_count pr
    \<and> pr_active_attempts (progress_of x) = pr_active_attempts pr
    \<and> (\<forall>out p. x = Inl (out, p) \<longrightarrow> res = Inr out)
    \<and> (\<forall>p. x = Inr p \<longrightarrow> a + 1 < limit)"
proof (cases res)
  case (Inl e)
  with assms show ?thesis
    by (auto simp: settle_attempt_def Let_def act_bind_Inr progress_of_def split: if_splits)
next
  case (Inr out)
  show ?thesis
  proof (cases "status out = Retry \<and> a + 1 < limit")
    case True
    with assms Inr show ?thesis
      by (auto simp: settle_attempt_def Let_def act_bind_Inr progress_of_def add_cost_def split: option.splits)
  next
    case False
    with assms Inr show ?thesis
      by (auto simp: settle_attempt_def Let_def act_bind_Inr progress_of_def)
  qed
qed

lemma attempt_step_Inr:
  assumes "attempt_step env h cd n r limit a pr s = (Inr x, s')"
  shows "pr_step_count pr < en_max_steps env \<and> \<not> f64_gt (pr_total_cost pr) (en_max_budget env)
    \<and> pr_step_count (progress_of x) = pr_step_count pr + 1
    \<and> (\<forall>p. x = Inr p \<longrightarrow> a + 1 < limit)"
proof -
  from assms obtain pr1 s1 res started s2 where
    "begin_attempt env h cd n a pr s = (Inr pr1, s1)"
    "settle_attempt env cd n a limit started pr1 res s2 = (Inr x, s')"
    unfolding attempt_step_def act_bind_Inr split_beta by blast
  from begin_attempt_Inr [OF this(1)] settle_attempt_Inr [OF this(2)] show ?thesis by simp
qed

lemma attempts_Inr:
  "attempts env h cd n r limit as pr s = (Inr (out, pr'), s') \<Longrightarrow>
     pr_step_count pr < pr_step_count pr' \<and> pr_step_count pr' \<le> en_max_steps env
     \<and> pr_step_count pr' \<le> pr_step_count pr + length as"
proof (induction "as" arbitrary: pr s)
  case (Cons a "as")
  then obtain x s1 where x: "attempt_step env h cd n r limit a pr s = (Inr x, s1)"
    "(case x of Inl d \<Rightarrow> ret d | Inr pr \<Rightarrow> attempts env h cd n r limit as pr) s1 = (Inr (out, pr'), s')"
    by (auto simp: act_bind_Inr)
  note step = attempt_step_Inr [OF x(1)]
  show ?case
  proof (cases x)
    case (Inl d)
    with x(2) step show ?thesis by (auto simp: progress_of_def)
  next
    case (Inr p)
    with Cons.IH [of p s1] x(2) step show ?thesis by (auto simp: progress_of_def)
  qed
qed simp

lemma invoke_node_steps:
  assumes "invoke_node env cd n r pr s = (Inr (out, pr'), s')"
  shows "pr_step_count pr < pr_step_count pr' \<and> pr_step_count pr' \<le> en_max_steps env
    \<and> pr_step_count pr' - pr_step_count pr \<le> max_attempts (rn_invocation r)
        - (if pr_active_node pr = Some (pn_id n) then pr_active_attempts pr else 0)
    \<and> \<not> f64_gt (pr_total_cost pr) (en_max_budget env)"
proof -
  define p where "p = (if pr_active_node pr \<noteq> Some (pn_id n)
      then pr\<lparr>pr_active_node := Some (pn_id n), pr_active_attempts := 0\<rparr> else pr)"
  from assms obtain h where a: "attempts env h cd n r (max_attempts (rn_invocation r))
      [pr_active_attempts p ..< max_attempts (rn_invocation r)] p s = (Inr (out, pr'), s')"
    by (auto simp: invoke_node_def Let_def p_def [symmetric] split: option.splits if_splits)
  have "\<not> f64_gt (pr_total_cost p) (en_max_budget env)"
  proof (cases "[pr_active_attempts p ..< max_attempts (rn_invocation r)]")
    case Nil
    with a show ?thesis by simp
  next
    case (Cons k ks)
    with a obtain x s1 where "attempt_step env h cd n r (max_attempts (rn_invocation r)) k p s = (Inr x, s1)"
      by (auto simp: act_bind_Inr)
    then show ?thesis using attempt_step_Inr by blast
  qed
  with attempts_Inr [OF a] show ?thesis by (auto simp: p_def split: if_splits)
qed

section \<open>Termination\<close>

lemma graph_ok_target:
  "graph_ok g \<Longrightarrow> graph_node g t = Some n \<Longrightarrow> graph_node g (pn_id n) = Some n"
  using graph_ok_get by metis

lemma check_gates_target:
  "gg_retry_target (check_gates g outs) = Some t \<Longrightarrow>
     \<exists>k n. graph_node g k = Some n \<and> resolve_retry_target n g = Some t"
  by (induction g outs rule: check_gates.induct) (auto split: option.splits if_splits)

lemma retry_target_listed:
  assumes "graph_node g k = Some n" "resolve_retry_target n g = Some t"
  shows "\<exists>owner i a. (owner, i, a, t) \<in> set (retry_targets g)"
proof -
  have "n \<in> set (all_nodes g)"
    using assms(1) by (force simp: all_nodes_def graph_node_def hm_values_def dest: hm_get_in_set)
  have own: "(pn_id n, Some (pn_id n), a, u) \<in> set (retry_targets g)"
    if "(a, Some u) \<in> set [(''retry_target'', pn_retry_target n),
                 (''fallback_retry_target'', pn_fallback_retry_target n)]" for a u
    unfolding retry_targets_def set_append
  proof (rule UnI1)
    define kvs where "kvs = [(''retry_target'', pn_retry_target n),
                 (''fallback_retry_target'', pn_fallback_retry_target n)]"
    have "(pn_id n, Some (pn_id n), a, u)
        \<in> set (List.map_filter (\<lambda>(a, t). map_option (\<lambda>t. (pn_id n, Some (pn_id n), a, t)) t) kvs)"
      using that unfolding kvs_def [symmetric] by (force simp: List.map_filter_def)
    then show "(pn_id n, Some (pn_id n), a, u) \<in> set (concat (map (\<lambda>n.
        List.map_filter (\<lambda>(a, t). map_option (\<lambda>t. (pn_id n, Some (pn_id n), a, t)) t)
                [(''retry_target'', pn_retry_target n),
                 (''fallback_retry_target'', pn_fallback_retry_target n)]) (all_nodes g)))"
      using \<open>n \<in> set (all_nodes g)\<close> unfolding kvs_def set_concat set_map by blast
  qed
  have graph: "(''graph'', None, a, u) \<in> set (retry_targets g)"
    if "a \<in> set [''retry_target'', ''fallback_retry_target'']" "hm_get (pg_attrs g) a = Some (AString u)" for a u
    unfolding retry_targets_def set_append
    by (rule UnI2) (use that in \<open>auto simp: List.map_filter_def\<close>)
  have "pn_retry_target n = Some t \<or> pn_fallback_retry_target n = Some t
      \<or> hm_get (pg_attrs g) ''retry_target'' = Some (AString t)
      \<or> hm_get (pg_attrs g) ''fallback_retry_target'' = Some (AString t)"
    using assms(2)
    by (auto simp: resolve_retry_target_def or_else_Some get_string_attr_def Option.bind_eq_Some_conv
        elim!: as_string.elims)
  then show ?thesis
  proof (elim disjE)
    assume "hm_get (pg_attrs g) ''retry_target'' = Some (AString t)"
    then show ?thesis using graph [of "''retry_target''" t] by auto
  next
    assume "hm_get (pg_attrs g) ''fallback_retry_target'' = Some (AString t)"
    then show ?thesis using graph [of "''fallback_retry_target''" t] by auto
  next
    assume "pn_retry_target n = Some t"
    then show ?thesis using own [of "''retry_target''" t] by auto
  next
    assume "pn_fallback_retry_target n = Some t"
    then show ?thesis using own [of "''fallback_retry_target''" t] by auto
  qed
qed

lemma exit_target_not_exit:
  assumes "plan_clean p" "enforce_goal_gates (pl_graph p) outs = Inr gates" "gg_retry_target gates = Some t"
  shows "\<not> is_exit p t"
proof -
  have "gates = check_gates (pl_graph p) outs"
    using assms(2) by (auto simp: enforce_goal_gates_def check_goal_gates_def Let_def split: if_splits)
  with assms(3) obtain k n where "graph_node (pl_graph p) k = Some n"
    "resolve_retry_target n (pl_graph p) = Some t"
    using check_gates_target by blast
  from retry_target_listed [OF this] assms(1) show ?thesis
    by (fastforce simp: plan_clean_def list_all_iff)
qed

definition node_here :: "'w engine_env \<Rightarrow> loop_state \<Rightarrow> bool" where
  "node_here env ls \<longleftrightarrow> graph_node (en_graph env) (pn_id (ls_current ls)) = Some (ls_current ls)"

definition engine_size :: "'w engine_env \<Rightarrow> loop_state \<times> 'w run_state \<Rightarrow> nat" where
  "engine_size env p =
     2 * (en_max_steps env - pr_step_count (ls_progress (fst p)))
     + (if is_exit (en_plan env) (pn_id (ls_current (fst p))) then 1 else 0)"

lemma exit_round_next:
  assumes "exit_round env ls s = (Inr (Inr ls'), s')" "plan_wf (en_plan env)" "plan_clean (en_plan env)"
  shows "\<exists>t n. ls' = ls\<lparr>ls_current := n\<rparr> \<and> graph_node (en_graph env) t = Some n \<and> pn_id n = t
    \<and> \<not> is_exit (en_plan env) t"
proof -
  from assms(1) obtain gates s1 t n where g:
    "lift_result (enforce_goal_gates (en_graph env) (ls_outcomes ls)) s1 = (Inr gates, s1)"
    "gg_retry_target gates = Some t" "graph_node (en_graph env) t = Some n" "ls' = ls\<lparr>ls_current := n\<rparr>"
    by (auto simp: exit_round_def exit_stage_def Let_def act_bind_Inr lift_result_def split_beta
        split: option.splits if_splits sum.splits)
  have "enforce_goal_gates (pl_graph (en_plan env)) (ls_outcomes ls) = Inr gates"
    using g(1) by (auto simp: lift_result_def en_graph_def split: sum.splits)
  from exit_target_not_exit [OF assms(3) this g(2)] g(3,4) show ?thesis
    using graph_ok_get [of "en_graph env" t n] assms(2) by (auto simp: plan_wf_def en_graph_def)
qed

lemma follow_edge_next:
  assumes "follow_edge env e ls s = (Inr y, s')"
  shows "\<exists>n ls'. y = Inr ls' \<and> graph_node (en_graph env) (pe_to e) = Some n \<and> ls_current ls' = n
    \<and> pr_step_count (ls_progress ls') = pr_step_count (ls_progress ls)"
  using assms
  by (auto simp: follow_edge_def Let_def act_bind_Inr idle_def split: option.splits if_splits)

lemma count_quality_progress:
  "count_quality env ls s = (Inr ls', s') \<Longrightarrow> ls_progress ls' = ls_progress ls"
  by (auto simp: count_quality_def Let_def act_bind_Inr split: option.splits if_splits)

lemma stage_outcome_next:
  assumes "stage_outcome env r ls out pr s = (Inr (Inr ls'), s')"
  shows "pr_step_count (ls_progress ls') = pr_step_count pr
    \<and> (\<exists>t. graph_node (en_graph env) t = Some (ls_current ls'))"
proof -
  from assms obtain e ls3 s3 where f: "follow_edge env e ls3 s3 = (Inr (Inr ls'), s')"
    and l3: "pr_step_count (ls_progress ls3) = pr_step_count pr"
    by (auto simp: stage_outcome_def act_bind_Inr Let_def record_outcome_def add_cost_def
        split: option.splits if_splits)
  from follow_edge_next [OF f] l3 show ?thesis by auto
qed

lemma stage_round_next:
  assumes "stage_round env ls s = (Inr (Inr ls'), s')"
  shows "pr_step_count (ls_progress ls) < pr_step_count (ls_progress ls')
    \<and> pr_step_count (ls_progress ls') \<le> en_max_steps env
    \<and> (\<exists>t. graph_node (en_graph env) t = Some (ls_current ls'))"
proof -
  from assms obtain r ls1 s1 out pr s2 where
    q: "(if rn_handler r = HQuality then count_quality env ls else ret ls) s = (Inr ls1, s1)"
    and ivk: "invoke_node env (checkpoint_data_of ls1) (ls_current ls1) r (ls_progress ls1) s1 = (Inr (out, pr), s2)"
    and o: "stage_outcome env r ls1 out pr s2 = (Inr (Inr ls'), s')"
    by (auto simp: stage_round_def act_bind_Inr split: option.splits)
  have "ls_progress ls1 = ls_progress ls"
    using q by (auto split: if_splits dest: count_quality_progress)
  with invoke_node_steps [OF ivk] stage_outcome_next [OF o] show ?thesis by auto
qed

lemma loop_round_next:
  assumes "loop_round env ls s = (Inr (Inr ls'), s')" "plan_wf (en_plan env)" "plan_clean (en_plan env)"
    "node_here env ls"
  shows "node_here env ls' \<and> engine_size env (ls', s') < engine_size env (ls, s)
    \<and> pr_step_count (ls_progress ls) \<le> pr_step_count (ls_progress ls')"
proof (cases "is_exit (en_plan env) (pn_id (ls_current ls))")
  case True
  then have "exit_round env ls s = (Inr (Inr ls'), s')"
    using assms(1) by (auto simp: loop_round_def Let_def split: if_splits)
  from exit_round_next [OF this assms(2,3)] True show ?thesis
    by (auto simp: node_here_def engine_size_def)
next
  case False
  then obtain s1 where "stage_round env ls s1 = (Inr (Inr ls'), s')"
    using assms(1) by (auto simp: loop_round_def Let_def act_bind_Inr split: if_splits option.splits)
  note n = stage_round_next [OF this]
  have "graph_ok (en_graph env)" using assms(2) by (simp add: plan_wf_def en_graph_def)
  then have "node_here env ls'" using n graph_ok_target by (fastforce simp: node_here_def)
  with n False show ?thesis by (auto simp: engine_size_def)
qed

definition engine_inv :: "'w engine_env \<Rightarrow> loop_state \<times> 'w run_state \<Rightarrow> bool" where
  "engine_inv env p \<longleftrightarrow> plan_wf (en_plan env) \<and> plan_clean (en_plan env) \<and> node_here env (fst p)"

lemma engine_round_Inr:
  "engine_round env p = Inr p' \<longleftrightarrow> (\<exists>ls' s'. p' = (ls', s') \<and> loop_round env (fst p) (snd p) = (Inr (Inr ls'), s'))"
  by (auto simp: engine_round_def split: prod.splits sum.splits)

interpretation engine: bounded_loop "engine_round env" "engine_inv env" "engine_size env" for env
proof unfold_locales
  fix p p' :: "loop_state \<times> 'a run_state"
  assume p: "engine_inv env p" "engine_round env p = Inr p'"
  obtain ls s where ls: "p = (ls, s)" by (cases p)
  from p(2) ls obtain ls' s' where "p' = (ls', s')" "loop_round env ls s = (Inr (Inr ls'), s')"
    by (auto simp: engine_round_Inr)
  with p(1) ls loop_round_next [of env ls s ls' s']
  show "engine_inv env p'" "engine_size env p' < engine_size env p"
    by (auto simp: engine_inv_def)
qed

lemma run_loop_finishes:
  assumes "plan_wf (en_plan env)" "plan_clean (en_plan env)" "node_here env ls"
  shows "\<exists>r. run_loop env ls s = Some r"
proof -
  have "engine_size env (ls, s) < engine_fuel env" by (auto simp: engine_size_def engine_fuel_def)
  then show ?thesis
    unfolding run_loop_def using assms by (intro engine.iterate_enough) (auto simp: engine_inv_def)
qed

lemma initialize_node_here:
  assumes "initialize env s = (Inr ls, s')" "graph_ok (en_graph env)" shows "node_here env ls"
  using assms(1) graph_ok_target [OF assms(2)]
  by (auto simp: initialize_def act_bind_Inr node_here_def fresh_state_def resume_state_def
      split: option.splits)

lemma admit_clean: "admit env s = (Inr u, s') \<Longrightarrow> s' = s \<and> plan_clean (en_plan env)"
  using validate_plan_clean [of "en_fmt2 env" "en_plan env"]
  by (auto simp: admit_def act_bind_Inr split: sum.splits plan_failure.splits list.splits if_splits)

text \<open>A run either fails before its first round, or consists of the rounds and its conclusion.\<close>

lemma run_inner_cases:
  assumes "run_inner env s0 = Some (r, s)"
  obtains (refused) e where "prologue env s0 = (Inl e, s)" "r = Inl e"
  | (unstarted) started s1 e s2 where "prologue env s0 = (Inr started, s1)"
      "initialize env s1 = (Inl e, s2)" "conclude env started (Inl e) s2 = (r, s)"
  | (looped) started s1 ls s2 q s3 where "prologue env s0 = (Inr started, s1)"
      "initialize env s1 = (Inr ls, s2)" "run_loop env ls s2 = Some (q, s3)"
      "conclude env started q s3 = (r, s)"
proof -
  obtain x s1 where o: "prologue env s0 = (x, s1)" by fastforce
  show thesis
  proof (cases x)
    case (Inl e)
    with o assms refused show ?thesis by (simp add: run_inner_def)
  next
    case (Inr started)
    obtain y s2 where i: "initialize env s1 = (y, s2)" by fastforce
    from o i Inr assms unstarted looped show ?thesis
      by (cases y) (auto simp: run_inner_def)
  qed
qed

lemma prologue_clean: "prologue env s = (Inr t, s') \<Longrightarrow> plan_clean (en_plan env)"
  by (auto simp: prologue_def act_bind_Inr dest: admit_clean)

lemma run_inner_total:
  assumes "plan_wf (en_plan env)"
  shows "\<exists>r s. run_inner env s0 = Some (r, s)"
proof -
  obtain x s1 where o: "prologue env s0 = (x, s1)" by fastforce
  show ?thesis
  proof (cases x)
    case (Inl e)
    with o show ?thesis by (simp add: run_inner_def)
  next
    case (Inr started)
    obtain y s2 where i: "initialize env s1 = (y, s2)" by fastforce
    show ?thesis
    proof (cases y)
      case Inl
      with o i Inr show ?thesis by (simp add: run_inner_def surj_pair)
    next
      case y: (Inr ls)
      have "node_here env ls"
        using i y assms initialize_node_here by (auto simp: plan_wf_def en_graph_def)
      from run_loop_finishes [OF assms prologue_clean [OF o [unfolded Inr]] this]
      obtain q s3 where "run_loop env ls s2 = Some (q, s3)" by (metis surj_pair)
      with o i Inr y show ?thesis by (simp add: run_inner_def surj_pair)
    qed
  qed
qed

text \<open>
  Property C2. Every run ends: for every compiled plan, whatever the handlers, the files, the clock and
  a resumed checkpoint do, the engine returns a result or an error within twice the step
  limit plus two rounds. Goal gates cannot make it loop for ever, because validation rejects
  retry targets that are exits.
\<close>

theorem engine_finishes:
  assumes "plan_wf (en_plan env)"
  shows "\<exists>r s. run_inner env s0 = Some (r, s)"
  using assms by (rule run_inner_total)

end
