(* ===== verification/Engine_Safety.thy ===== *)
theory Engine_Safety
  imports Engine_Props
begin

text \<open>
  Safety of the engine: how many attempts a visit and a run may start, the order of journal
  and subscribers, what a completed run means for the goal gates, and resumption.
\<close>

section \<open>How many attempts are started\<close>

fun obs_event :: "observation \<Rightarrow> pipeline_event" where
  "obs_event (Journaled ev) = ev"
| "obs_event (JournalFailed ev) = ev"
| "obs_event (Broadcast ev) = ev"

fun is_broadcast :: "observation \<Rightarrow> bool" where
  "is_broadcast (Broadcast ev) = True"
| "is_broadcast _ = False"

text \<open>The announced attempts, as the subscribers (\<open>True\<close>) or the journal (\<open>False\<close>) saw them.\<close>

definition starts :: "bool \<Rightarrow> 'w run_state \<Rightarrow> nat" where
  "starts b s = length (filter (\<lambda>ob. is_broadcast ob = b \<and> is_stage_started (obs_event ob)) (rs_trace s))"

definition same_starts :: "bool \<Rightarrow> 'w run_state \<Rightarrow> 'w run_state \<Rightarrow> bool" where
  "same_starts b s s' \<longleftrightarrow> starts b s' = starts b s"

lemma emit_starts: "starts b (snd (emit env ev s)) \<le> starts b s + (if is_stage_started ev then 1 else 0)"
  by (auto simp: starts_def emit_trace split: option.split)

lemma emit_starts_quiet: "\<not> is_stage_started ev \<Longrightarrow> starts b (snd (emit env ev s)) = starts b s"
  by (auto simp: starts_def emit_trace split: option.split)

interpretation st: step_frame "same_starts b" env for b env
proof unfold_locales
  show "same_starts b s t" if "rs_trace t = rs_trace s" for s t :: "'a run_state"
    using that by (simp add: same_starts_def starts_def)
  show "same_starts b s s" for s :: "'a run_state" by (simp add: same_starts_def)
  show "same_starts b s u" if "same_starts b s t" "same_starts b t u" for s t u :: "'a run_state"
    using that by (simp add: same_starts_def)
  show "leaves (same_starts b) (emit env ev)" if "\<not> is_stage_started ev" for ev
    unfolding leaves_def same_starts_def by (intro allI emit_starts_quiet that)
qed

definition adds :: "bool \<Rightarrow> nat \<Rightarrow> ('w, 'a) act \<Rightarrow> bool" where
  "adds b k m \<longleftrightarrow> (\<forall>s. starts b (snd (m s)) \<le> starts b s + k)"

lemma adds_same: "leaves (same_starts b) m \<Longrightarrow> adds b k m"
  by (auto simp: adds_def leaves_def same_starts_def)

lemma adds_after:
  assumes "leaves (same_starts b) m" "\<And>x. adds b k (f x)"
  shows "adds b k (act_bind m f)"
  unfolding adds_def
proof
  fix s
  obtain r s1 where m: "m s = (r, s1)" by fastforce
  have "starts b s1 = starts b s" using assms(1) m by (metis leaves_def same_starts_def snd_conv)
  moreover have "starts b (snd (f x s1)) \<le> starts b s1 + k" for x
    using assms(2) by (simp add: adds_def)
  ultimately show "starts b (snd (act_bind m f s)) \<le> starts b s + k"
    by (simp add: act_bind_def m split: sum.split)
qed

lemma adds_before:
  assumes "adds b k m" "\<And>x. leaves (same_starts b) (f x)"
  shows "adds b k (act_bind m f)"
  unfolding adds_def
proof
  fix s
  obtain r s1 where m: "m s = (r, s1)" by fastforce
  have "starts b s1 \<le> starts b s + k" using assms(1) m by (metis adds_def snd_conv)
  moreover have "starts b (snd (f x s1)) = starts b s1" for x
    using assms(2) by (simp add: leaves_def same_starts_def)
  ultimately show "starts b (snd (act_bind m f s)) \<le> starts b s + k"
    by (simp add: act_bind_def m split: sum.split)
qed

lemma addsD: "adds b k m \<Longrightarrow> m s = (r, s') \<Longrightarrow> starts b s' \<le> starts b s + k"
  by (metis adds_def snd_conv)

lemma sameD: "leaves (same_starts b) m \<Longrightarrow> m s = (r, s') \<Longrightarrow> starts b s' = starts b s"
  using leavesD same_starts_def by blast

lemma after_begin_adds:
  assumes "quiet_handler h"
  shows "adds b 1 (act_bind (observe f) (\<lambda>(head, task_before).
     act_bind (emit env (StageStarted i ty)) (\<lambda>_.
     act_bind (observe g) (\<lambda>started.
     act_bind (run_handler env h n r) (\<lambda>res.
     act_bind (observe (k res task_before)) (\<lambda>task.
     act_bind (emit_run_commits env j head task) (\<lambda>_.
       settle_attempt env cd n a limit started pr res)))))))"
proof -
  have "adds b 1 (emit env (StageStarted i ty))"
    using emit_starts [of b env "StageStarted i ty"] by (simp add: adds_def)
  moreover have "leaves (same_starts b) (act_bind (observe g) (\<lambda>started.
     act_bind (run_handler env h n r) (\<lambda>res.
     act_bind (observe (k res task_before)) (\<lambda>task.
     act_bind (emit_run_commits env j head task) (\<lambda>_.
       settle_attempt env cd n a limit started pr res)))))" for head task_before
    using assms
    by (intro st.leaves_bind st.leaves_atoms st.leaves_run_handler st.leaves_run_commits st.leaves_settle) blast
  ultimately have "adds b 1 (act_bind (emit env (StageStarted i ty)) (\<lambda>_.
     act_bind (observe g) (\<lambda>started.
     act_bind (run_handler env h n r) (\<lambda>res.
     act_bind (observe (k res task_before)) (\<lambda>task.
     act_bind (emit_run_commits env j head task) (\<lambda>_.
       settle_attempt env cd n a limit started pr res))))))" for head task_before
    by (rule adds_before)
  then show ?thesis by (intro adds_after st.leaves_atoms) (auto split: prod.split)
qed

lemma attempt_step_starts:
  assumes "quiet_handler h" "attempt_step env h cd n r limit a pr s = (x, s')"
  shows "starts b s' \<le> starts b s + (if pr_step_count pr < en_max_steps env then 1 else 0)"
proof -
  have same: "starts b s1 = starts b s" if "begin_attempt env h cd n a pr s = (y, s1)" for y s1
    using sameD [OF st.leaves_begin that] .
  from assms(2) show ?thesis
    unfolding attempt_step_def
  proof (rule act_bind_cases)
    fix e assume "begin_attempt env h cd n a pr s = (Inl e, s')"
    then show ?thesis using same by simp
  next
    fix pr1 s1
    assume b: "begin_attempt env h cd n a pr s = (Inr pr1, s1)"
      and rest: "act_bind (observe (\<lambda>s. (en_head env (rs_world s), claimed_task (rs_ctx s)))) (\<lambda>(head, task_before).
     act_bind (emit env (StageStarted (pn_id n) (handler_as_str (rn_handler r)))) (\<lambda>_.
     act_bind (observe (\<lambda>s. en_clock env (rs_world s))) (\<lambda>started.
     act_bind (run_handler env h n r) (\<lambda>res.
     act_bind (observe (\<lambda>s. or_else
         (case res of
            Inr out \<Rightarrow>
              if hm_contains (context_updates out) task_id_key
              then task_id_value (hm_get (context_updates out) task_id_key)
              else claimed_task (rs_ctx s)
          | Inl _ \<Rightarrow> claimed_task (rs_ctx s)) task_before)) (\<lambda>task.
     act_bind (emit_run_commits env (pn_id n) head task) (\<lambda>_.
       settle_attempt env cd n a limit started pr1 res)))))) s1 = (x, s')"
    have "starts b s' \<le> starts b s1 + 1"
      by (rule addsD [OF after_begin_adds [OF assms(1)] rest])
    with same [OF b] begin_attempt_Inr(1) [OF b] show ?thesis by simp
  qed
qed

lemma attempts_starts:
  assumes "quiet_handler h"
  shows "attempts env h cd n r limit as pr s = (x, s') \<Longrightarrow>
    starts b s' \<le> starts b s + min (length as) (en_max_steps env - pr_step_count pr)
    \<and> (\<forall>out p. x = Inr (out, p) \<longrightarrow> starts b s' \<le> starts b s + (pr_step_count p - pr_step_count pr))"
proof (induction "as" arbitrary: pr s)
  case (Cons a "as")
  from Cons.prems show ?case
    unfolding attempts.simps
  proof (rule act_bind_cases)
    fix e assume "attempt_step env h cd n r limit a pr s = (Inl e, s')" "x = Inl e"
    then show ?thesis
      using attempt_step_starts [OF assms, of env cd n r limit a pr s "Inl e" s' b] by (auto split: if_splits)
  next
    fix y s1
    assume y: "attempt_step env h cd n r limit a pr s = (Inr y, s1)"
      "(case y of Inl d \<Rightarrow> ret d | Inr pr \<Rightarrow> attempts env h cd n r limit as pr) s1 = (x, s')"
    note step = attempt_step_Inr [OF y(1)] attempt_step_starts [OF assms y(1), of b]
    show ?thesis
    proof (cases y)
      case (Inl d)
      with y(2) step show ?thesis by (auto simp: progress_of_def)
    next
      case (Inr p)
      with y(2) have "attempts env h cd n r limit as p s1 = (x, s')" by simp
      note IH = Cons.IH [OF this]
      have less: "pr_step_count pr < en_max_steps env" and p: "pr_step_count p = pr_step_count pr + 1"
        using step(1) Inr by (auto simp: progress_of_def)
      have s1: "starts b s1 \<le> starts b s + 1" using step(2) less by simp
      have "starts b s' \<le> starts b s1 + min (length as) (en_max_steps env - pr_step_count p)"
        using IH by blast
      moreover have "1 + min (length as) (en_max_steps env - pr_step_count p)
          \<le> min (length (a # as)) (en_max_steps env - pr_step_count pr)"
        using less p by auto
      moreover have "starts b s' \<le> starts b s + (pr_step_count q - pr_step_count pr)"
        if "x = Inr (out, q)" for out q
      proof -
        have "starts b s' \<le> starts b s1 + (pr_step_count q - pr_step_count p)" using IH that by blast
        moreover have "pr_step_count p < pr_step_count q"
          using attempts_Inr \<open>attempts env h cd n r limit as p s1 = (x, s')\<close> that by blast
        ultimately show ?thesis using s1 p by linarith
      qed
      ultimately show ?thesis using s1 by (auto intro: order_trans)
    qed
  qed
qed auto

definition quiet_env :: "'w engine_env \<Rightarrow> bool" where
  "quiet_env env \<longleftrightarrow> (\<forall>ty h. en_handlers env ty = Some h \<longrightarrow> quiet_handler h)"

definition attempts_used :: "progress \<Rightarrow> pipeline_node \<Rightarrow> nat" where
  "attempts_used pr n = (if pr_active_node pr = Some (pn_id n) then pr_active_attempts pr else 0)"

lemma invoke_node_starts:
  assumes "quiet_env env" "invoke_node env cd n r pr s = (x, s')"
  shows "starts b s' \<le> starts b s
      + min (max_attempts (rn_invocation r) - attempts_used pr n) (en_max_steps env - pr_step_count pr)
    \<and> (\<forall>out p. x = Inr (out, p) \<longrightarrow> starts b s' \<le> starts b s + (pr_step_count p - pr_step_count pr))"
proof (cases "en_handlers env (handler_as_str (rn_handler r))")
  case None
  with assms(2) show ?thesis by (auto simp: invoke_node_def Let_def)
next
  case (Some h)
  with assms(1) have q: "quiet_handler h" by (simp add: quiet_env_def)
  define p where "p = (if pr_active_node pr \<noteq> Some (pn_id n)
      then pr\<lparr>pr_active_node := Some (pn_id n), pr_active_attempts := 0\<rparr> else pr)"
  have p: "pr_active_attempts p = attempts_used pr n" "pr_step_count p = pr_step_count pr"
    by (auto simp: p_def attempts_used_def)
  show ?thesis
  proof (cases "max_attempts (rn_invocation r) \<le> pr_active_attempts p")
    case True
    with assms(2) Some show ?thesis by (auto simp: invoke_node_def Let_def p_def [symmetric])
  next
    case False
    with assms(2) Some have "attempts env h cd n r (max_attempts (rn_invocation r))
        [pr_active_attempts p ..< max_attempts (rn_invocation r)] p s = (x, s')"
      by (auto simp: invoke_node_def Let_def p_def [symmetric])
    from attempts_starts [OF q this, of b] p show ?thesis by simp
  qed
qed

text \<open>
  Property C3. One visit of a node starts at most as many attempts as its policy allows, less those
  an interrupted visit has used, and at most the steps the run has left - whether the visit
  succeeds, fails or panics. A success consumes exactly one step or more and never exceeds
  the limit, and no attempt is begun over budget.
\<close>

theorem visit_bounded:
  assumes "quiet_env env" "invoke_node env cd n r pr s = (x, s')"
  shows "starts b s' - starts b s \<le>
      min (max_attempts (rn_invocation r) - attempts_used pr n) (en_max_steps env - pr_step_count pr)
    \<and> (case x of
         Inl _ \<Rightarrow> True
       | Inr (out, pr') \<Rightarrow> pr_step_count pr' \<in> {pr_step_count pr <.. en_max_steps env}
           \<and> \<not> f64_gt (pr_total_cost pr) (en_max_budget env))"
  using invoke_node_starts [OF assms, of b] invoke_node_steps [of env cd n r pr s _ _ s'] assms(2)
  by (cases x) auto

end
