(* ===== verification/Engine_Example.thy ===== *)
theory Engine_Example
  imports Engine_Safety
begin

text \<open>
  A concrete environment on which the engine runs: the clock is the world, every handler
  returns the outcome a function of the node gives, nothing is journaled, and the checkpoint
  directory is absent. It inhabits the hypotheses of the engine's theorems and shows what a
  run does with a goal gate at a dead end.
\<close>

section \<open>The environment\<close>

definition example_handler :: "(str \<Rightarrow> outcome result) \<Rightarrow> nat node_handler" where
  "example_handler f =
     \<lparr>nh_resumes_interrupted = False,
      nh_execute = (\<lambda>n r c w. (f (pn_id n), \<lparr>hr_ctx = c, hr_events = [], hr_world = w + 1\<rparr>)),
      nh_execute_within = (\<lambda>t n r c w. (Some (f (pn_id n)), \<lparr>hr_ctx = c, hr_events = [], hr_world = w + 1\<rparr>))\<rparr>"

definition example_config :: "nat \<Rightarrow> execution_plan \<Rightarrow> run_configuration" where
  "example_config steps p =
     \<lparr>rc_plan = p,
      rc_controls = \<lparr>ct_dry_run = \<lparr>rv_value = False, rv_source = BuiltIn\<rparr>,
        ct_max_steps = \<lparr>rv_value = steps, rv_source = Caller\<rparr>,
        ct_max_budget = \<lparr>rv_value = default_max_budget, rv_source = BuiltIn\<rparr>,
        ct_workdir = \<lparr>rv_value = ''/w'', rv_source = BuiltIn\<rparr>,
        ct_quality_disabled = \<lparr>rv_value = False, rv_source = BuiltIn\<rparr>,
        ct_quality_max = []\<rparr>,
      rc_defaults = []\<rparr>"

definition example_env :: "nat \<Rightarrow> execution_plan \<Rightarrow> (str \<Rightarrow> outcome result) \<Rightarrow> nat engine_env" where
  "example_env steps p f =
     \<lparr>en_config = example_config steps p, en_handlers = (\<lambda>ty. Some (example_handler f)),
      en_capabilities = builtin_handler_catalog, en_journal = None, en_events = True,
      en_run_id = None, en_logs_root = None, en_append = (\<lambda>_ _. None), en_io = (\<lambda>_ _. None),
      en_ser = (\<lambda>_. Inr []), en_de = (\<lambda>_. Inl (JsonError [])), en_now = (\<lambda>_. []), en_clock = id,
      en_tick = Suc, en_sleep = (+), en_head = (\<lambda>_. None), en_commits = (\<lambda>_ _ _. Inr []),
      en_stop_file = (\<lambda>_. NoStopFile), en_json = (\<lambda>_. None), en_json_text = (\<lambda>_. []),
      en_fmt2 = (\<lambda>_. []), en_hash = id, en_strip = id, en_profile = Release\<rparr>"

definition example_start :: "nat run_state" where
  "example_start = \<lparr>rs_world = 0, rs_ctx = ctx_empty, rs_files = [], rs_trace = []\<rparr>"

definition gate_graph :: dot_graph where
  "gate_graph = digraph_of ''g''
     [NodeStmt ''s'' [(''shape'', AString ''Mdiamond'')], NodeStmt ''e'' [(''shape'', AString ''Msquare'')],
      NodeStmt ''a'' [(''type'', AString ''tool''), (''tool_command'', AString ''make''),
        (''goal_gate'', ABoolean True), (''retry_target'', AString ''s'')],
      EdgeStmt [''s'', ''a''] [], EdgeStmt [''s'', ''e''] []]"

definition plain_node :: "str \<Rightarrow> str \<Rightarrow> pipeline_node" where
  "plain_node i shape =
     \<lparr>pn_id = i, pn_label = i, pn_shape = shape, pn_type = None, pn_prompt = None, pn_goal_gate = False,
      pn_retry_target = None, pn_fallback_retry_target = None, pn_classes = [], pn_timeout = None,
      pn_llm_model = None, pn_llm_provider = None, pn_raw = [(''shape'', AString shape)]\<rparr>"

definition plain_edge :: "str \<Rightarrow> str \<Rightarrow> pipeline_edge" where
  "plain_edge a b =
     \<lparr>pe_from = a, pe_to = b, pe_label = None, pe_condition = None, pe_weight = 0,
      pe_loop_restart = False, pe_reset_quality = False, pe_raw = []\<rparr>"

definition plain_resolved :: "str \<Rightarrow> node_kind \<Rightarrow> handler_identity \<Rightarrow> resolved_node" where
  "plain_resolved i k h =
     \<lparr>rn_id = i, rn_kind = k, rn_handler = h, rn_provider = None,
      rn_invocation = \<lparr>max_attempts = 1, ip_timeout = None\<rparr>\<rparr>"

definition gate_plan :: execution_plan where
  "gate_plan =
     \<lparr>pl_graph =
        \<lparr>pg_name = ''g'', pg_goal = [], pg_attrs = [],
         pg_nodes =
           [(''s'', plain_node ''s'' ''Mdiamond''), (''e'', plain_node ''e'' ''Msquare''),
            (''a'', (plain_node ''a'' ''box'')
               \<lparr>pn_type := Some ''tool'', pn_goal_gate := True, pn_retry_target := Some ''s'',
                pn_raw := [(''type'', AString ''tool''), (''tool_command'', AString ''make''),
                  (''goal_gate'', ABoolean True), (''retry_target'', AString ''s'')]\<rparr>)],
         pg_authored =
           [(''s'', [''shape'']), (''e'', [''shape'']),
            (''a'', [''type'', ''tool_command'', ''goal_gate'', ''retry_target''])],
         pg_edges = [plain_edge ''s'' ''a'', plain_edge ''s'' ''e''], pg_adjacency = [(''s'', 0, 2)]\<rparr>,
      pl_nodes =
        [(''a'', plain_resolved ''a'' KTool HTool), (''e'', plain_resolved ''e'' KExit HExit),
         (''s'', plain_resolved ''s'' KStart HStart)],
      pl_capabilities = [(''tool'', False), (''exit'', False), (''start'', False)],
      pl_start = ''s'', pl_exits = [''e'']\<rparr>"

definition gate_outcome :: "str \<Rightarrow> outcome result" where
  "gate_outcome i = Inr (if i = ''a'' then outcome_with_label Retry [] else outcome_success [])"

lemma gate_graph_compiles:
  "compile_with_policy (\<lambda>_. []) (\<lambda>_. []) Release (from_dot gate_graph) builtin_handler_catalog Reject
     = Inr (gate_plan, [])"
  by code_simp

text \<open>
  Goal gates are enforced at the exit node only. A run may end at another node
  without outgoing edges, and then it is reported as completed although a goal gate is open
  and has a retry target: here the gate \<open>a\<close> ends with \<open>retry\<close> and the run completes at \<open>a\<close>,
  never having reached the exit \<open>e\<close>, with no gate checked.
\<close>

theorem dead_end_skips_goal_gates:
  "(\<exists>res s. run_inner (example_env 9 gate_plan gate_outcome) example_start = Some (Inr res, s)
     \<and> res_completed res = [''s'', ''a''] \<and> res_stopped_before res = None
     \<and> \<not> all_satisfied (check_goal_gates (pl_graph gate_plan) (res_outcomes res))
     \<and> list_all (\<lambda>ob. case obs_event ob of GoalGateChecked _ _ \<Rightarrow> False | _ \<Rightarrow> True) (rs_trace s)
     \<and> last (rs_trace s) = Broadcast (PipelineCompleted ''g'' [''s'', ''a''] 2))"
proof -
  have "case run_inner (example_env 9 gate_plan gate_outcome) example_start of
      Some (Inr res, s) \<Rightarrow> res_completed res = [''s'', ''a''] \<and> res_stopped_before res = None
     \<and> \<not> all_satisfied (check_goal_gates (pl_graph gate_plan) (res_outcomes res))
     \<and> list_all (\<lambda>ob. case obs_event ob of GoalGateChecked _ _ \<Rightarrow> False | _ \<Rightarrow> True) (rs_trace s)
     \<and> last (rs_trace s) = Broadcast (PipelineCompleted ''g'' [''s'', ''a''] 2)
    | _ \<Rightarrow> False" by code_simp
  then show ?thesis by (auto split: option.splits prod.splits sum.splits)
qed

text \<open>The environment satisfies the hypotheses of the engine's theorems.\<close>

lemma example_env_simps [simp]:
  "en_plan (example_env k p f) = p" "en_max_steps (example_env k p f) = k" "en_events (example_env k p f)"
  by (simp_all add: en_plan_def en_max_steps_def example_env_def example_config_def)

lemma example_quiet: "quiet_env (example_env k p f)"
  by (auto simp: quiet_env_def example_env_def example_handler_def quiet_handler_def)

lemma gate_plan_wf: "plan_wf gate_plan"
  using compile_establishes_plan_wf [OF from_dot_ok gate_graph_compiles] by simp

theorem engine_finishes_witness:
  "\<exists>r s. run_inner (example_env 9 gate_plan gate_outcome) example_start = Some (r, s)"
  by (rule engine_finishes) (simp add: gate_plan_wf)

definition gate_invocation :: "(engine_failure + outcome \<times> progress) \<times> nat run_state" where
  "gate_invocation =
     invoke_node (example_env 9 gate_plan gate_outcome)
       \<lparr>cd_completed = [], cd_outcomes = [], cd_counters = [], cd_footprints = [], cd_previous = None,
        cd_run_id = None\<rparr>
       (the (graph_node (pl_graph gate_plan) ''a'')) (the (plan_node gate_plan ''a''))
       progress_default example_start"

theorem visit_bounded_witness:
  "starts True (snd gate_invocation) - starts True example_start \<le>
      min (max_attempts (rn_invocation (the (plan_node gate_plan ''a'')))
           - attempts_used progress_default (the (graph_node (pl_graph gate_plan) ''a'')))
        (en_max_steps (example_env 9 gate_plan gate_outcome) - pr_step_count progress_default)
    \<and> (case fst gate_invocation of
         Inl _ \<Rightarrow> True
       | Inr (out, pr') \<Rightarrow>
           pr_step_count pr' \<in> {pr_step_count progress_default <.. en_max_steps (example_env 9 gate_plan gate_outcome)}
           \<and> \<not> f64_gt (pr_total_cost progress_default) (en_max_budget (example_env 9 gate_plan gate_outcome)))"
  by (rule visit_bounded [OF example_quiet]) (unfold gate_invocation_def, rule prod.collapse [symmetric])

end
