(* ===== verification/Engine_Run.thy ===== *)
theory Engine_Run
  imports Engine_Example
begin

text \<open>
  Properties of whole runs: how many attempts a run starts, the order in which the journal and
  the subscribers see it, that it does not panic, and what a completed run says about its gates.
\<close>

section \<open>Attempts of a run\<close>

definition steps_left :: "'w engine_env \<Rightarrow> loop_state \<Rightarrow> nat" where
  "steps_left env ls = en_max_steps env - pr_step_count (ls_progress ls)"

lemma invoke_adds:
  "quiet_env env \<Longrightarrow> adds b (en_max_steps env - pr_step_count pr) (invoke_node env cd n r pr)"
  unfolding adds_def using invoke_node_starts [OF _ surjective_pairing] by (meson min.cobounded2 add_left_mono order_trans)

lemma exit_stage_adds: "quiet_env env \<Longrightarrow> adds b (steps_left env ls) (exit_stage env ls)"
  unfolding exit_stage_def Let_def steps_left_def
  by (auto simp: split_beta adds_same st.leaves_atoms split: option.split
      intro!: adds_before invoke_adds st.leaves_bind st.leaves_context_updates st.leaves_finalize st.leaves_atoms)

lemma exit_stage_ends: "exit_stage env ls s \<noteq> (Inr (Inr ls'), s')"
  by (auto simp: exit_stage_def Let_def act_bind_Inr split_beta split: option.splits)

lemma exit_round_adds: "quiet_env env \<Longrightarrow> adds b (steps_left env ls) (exit_round env ls)"
  unfolding exit_round_def
  by (auto simp: adds_same st.leaves_atoms exit_stage_adds split: option.split
      intro!: adds_after st.leaves_gate_events st.leaves_atoms)

lemma exit_round_retries:
  assumes "exit_round env ls s = (Inr (Inr ls'), s')"
  shows "starts b s' = starts b s \<and> ls_progress ls' = ls_progress ls"
proof -
  from assms obtain u s1 where g:
    "act_iter (emit env) (gate_events (en_graph env) (ls_outcomes ls)) s = (Inr u, s1)"
    and "s' = s1" "ls_progress ls' = ls_progress ls"
    by (auto simp: exit_round_def act_bind_Inr lift_result_def exit_stage_ends
        split: option.splits sum.splits if_splits)
  with sameD [OF st.leaves_gate_events g] show ?thesis by simp
qed

lemma stage_round_starts:
  assumes "quiet_env env" "stage_round env ls s = (x, s')"
  shows "starts b s' \<le> starts b s + steps_left env ls
    \<and> (\<forall>ls'. x = Inr (Inr ls') \<longrightarrow>
         starts b s' \<le> starts b s + (pr_step_count (ls_progress ls') - pr_step_count (ls_progress ls)))"
proof (cases "plan_node (en_plan env) (pn_id (ls_current ls))")
  case None
  with assms(2) show ?thesis by (simp add: stage_round_def)
next
  case (Some r)
  define q where "q = (if rn_handler r = HQuality then count_quality env ls else ret ls)"
  have q: "leaves (same_starts b) q" by (simp add: q_def st.leaves_count_quality st.leaves_atoms)
  from assms(2) Some have "act_bind q (\<lambda>ls1.
      act_bind (invoke_node env (checkpoint_data_of ls1) (ls_current ls1) r (ls_progress ls1)) (\<lambda>(out, pr).
        stage_outcome env r ls1 out pr)) s = (x, s')"
    by (simp add: stage_round_def q_def)
  then show ?thesis
  proof (rule act_bind_cases)
    fix e assume "q s = (Inl e, s')" "x = Inl e"
    then show ?thesis using sameD [OF q] by fastforce
  next
    fix ls1 s1
    assume q1: "q s = (Inr ls1, s1)" and
      k: "act_bind (invoke_node env (checkpoint_data_of ls1) (ls_current ls1) r (ls_progress ls1)) (\<lambda>(out, pr).
        stage_outcome env r ls1 out pr) s1 = (x, s')"
    have s1: "starts b s1 = starts b s" using sameD [OF q q1] .
    have pr: "ls_progress ls1 = ls_progress ls"
      using q1 by (auto simp: q_def split: if_splits dest: count_quality_progress)
    from k show ?thesis
    proof (rule act_bind_cases)
      fix e assume i: "invoke_node env (checkpoint_data_of ls1) (ls_current ls1) r (ls_progress ls1) s1 = (Inl e, s')"
        "x = Inl e"
      from addsD [OF invoke_adds [OF assms(1)] i(1), of b] i(2) s1 pr show ?thesis
        by (simp add: steps_left_def)
    next
      fix y s2
      assume i: "invoke_node env (checkpoint_data_of ls1) (ls_current ls1) r (ls_progress ls1) s1 = (Inr y, s2)"
        and o: "(case y of (out, pr) \<Rightarrow> stage_outcome env r ls1 out pr) s2 = (x, s')"
      obtain out p where y: "y = (out, p)" by fastforce
      have o: "stage_outcome env r ls1 out p s2 = (x, s')" using o y by simp
      have s2: "starts b s' = starts b s2" using sameD [OF st.leaves_stage_outcome o] .
      have "starts b s2 \<le> starts b s1 + (en_max_steps env - pr_step_count (ls_progress ls1))"
        using addsD [OF invoke_adds [OF assms(1)] i, of b] .
      moreover have "starts b s2 \<le> starts b s1 + (pr_step_count p - pr_step_count (ls_progress ls1))"
        using invoke_node_starts [OF assms(1) i, of b] y by simp
      moreover have "pr_step_count (ls_progress ls') = pr_step_count p" if "x = Inr (Inr ls')" for ls'
        using stage_outcome_next [of env r ls1 out p s2 ls' s'] o that by simp
      ultimately show ?thesis using s1 s2 pr by (auto simp: steps_left_def)
    qed
  qed
qed

lemma loop_round_starts:
  assumes "quiet_env env" "loop_round env ls s = (x, s')"
  shows "starts b s' \<le> starts b s + steps_left env ls
    \<and> (\<forall>ls'. x = Inr (Inr ls') \<longrightarrow>
         starts b s' \<le> starts b s + (pr_step_count (ls_progress ls') - pr_step_count (ls_progress ls))
         \<and> pr_step_count (ls_progress ls) \<le> pr_step_count (ls_progress ls')
         \<and> (pr_step_count (ls_progress ls') \<le> en_max_steps env \<or> ls_progress ls' = ls_progress ls))"
proof (cases "f64_gt (pr_total_cost (ls_progress ls)) (en_max_budget env)")
  case True
  with assms(2) show ?thesis by (simp add: loop_round_def Let_def)
next
  case in_budget: False
  show ?thesis
  proof (cases "is_exit (en_plan env) (pn_id (ls_current ls))")
    case True
    with assms(2) in_budget have e: "exit_round env ls s = (x, s')" by (simp add: loop_round_def Let_def)
    from addsD [OF exit_round_adds [OF assms(1)] e, of b] exit_round_retries [of env ls s _ s' b] e
    show ?thesis by auto
  next
    case False
    show ?thesis
    proof (cases "stop_request_source env (rs_world s)")
      case None
      with assms(2) in_budget False have "stage_round env ls s = (x, s')"
        by (simp add: loop_round_def Let_def act_bind_def observe_def)
      with stage_round_starts [OF assms(1) this, of b] stage_round_next [of env ls s _ s'] show ?thesis
        by fastforce
    next
      case (Some source)
      define m where "m = act_bind (emit env (StopRequested source)) (\<lambda>_.
          act_bind (save_data env (checkpoint_data_of ls) (pn_id (ls_current ls)) (ls_progress ls)) (\<lambda>_.
          act_bind (observe (make_result ls (Some (pn_id (ls_current ls))))) (\<lambda>res.
            ret (Inl res :: pipeline_result + loop_state))))"
      have m: "m s = (x, s')"
        using assms(2) in_budget False Some by (simp add: loop_round_def Let_def act_bind_def observe_def m_def)
      have "leaves (same_starts b) m"
        unfolding m_def by (intro st.leaves_bind st.leaves_atoms st.leaves_save st.emit_quiet) simp
      from sameD [OF this m] m show ?thesis
        by (auto simp: m_def act_bind_Inr)
    qed
  qed
qed

text \<open>Steps are accounted for all the way: a run announces at most the steps it has left.\<close>

lemma iterate_starts:
  assumes "quiet_env env"
  shows "iterate k (engine_round env) (ls, s) = Some (r, s') \<Longrightarrow> starts b s' \<le> starts b s + steps_left env ls"
proof (induction k arbitrary: ls s)
  case (Suc k)
  obtain x s1 where x: "loop_round env ls s = (x, s1)" by fastforce
  note step = loop_round_starts [OF assms x, of b]
  show ?case
  proof (cases "\<exists>ls'. x = Inr (Inr ls')")
    case True
    then obtain ls' where ls': "x = Inr (Inr ls')" ..
    with Suc x have "starts b s' \<le> starts b s1 + steps_left env ls'" by (simp add: engine_round_def)
    with step ls' show ?thesis by (auto simp: steps_left_def)
  next
    case False
    with Suc.prems x have "s' = s1" by (cases x) (auto simp: engine_round_def split: sum.splits)
    with step show ?thesis by simp
  qed
qed simp

section \<open>The start of a run\<close>

lemma admit_state: "admit env s = (r, s') \<Longrightarrow> s' = s"
  by (auto simp: admit_def act_bind_def observe_def
      split: sum.splits plan_failure.splits list.splits if_splits)

definition started_event :: "'w engine_env \<Rightarrow> pipeline_event" where
  "started_event env = PipelineStarted (pg_name (en_graph env)) (length (all_nodes (en_graph env)))"

lemma start_run_trace:
  assumes "start_run env s = (r, s')"
  shows "\<exists>t. rs_trace s' = rs_trace s @ t
    \<and> (case r of
         Inr _ \<Rightarrow> t = (if en_journal env = None then [] else [Journaled (started_event env)])
                    @ (if en_events env then [Broadcast (started_event env)] else [])
       | Inl _ \<Rightarrow> en_journal env \<noteq> None \<and> (\<exists>e. t = JournalFailed (started_event env)
                    # (if en_events env then [Broadcast (PipelineFailed (pg_name (en_graph env)) e)] else [])))"
  using assms
  by (auto simp: start_run_def emit_required_def act_bind_def journal_def broadcast_def started_event_def fail_def
      split: option.splits if_splits)

lemma prologue_cases:
  assumes "prologue env s = (r, s')"
  obtains (rejected) e where "r = Inl e" "s' = s" "admit env s = (Inl e, s)"
  | (opened) r1 where "admit env s = (Inr (), s)" "start_run env s = (r1, s')"
      "r = (case r1 of Inl e \<Rightarrow> Inl e | Inr _ \<Rightarrow> Inr (en_clock env (rs_world s)))"
proof -
  obtain a sa where a: "admit env s = (a, sa)" by fastforce
  then have sa: "sa = s" by (rule admit_state)
  show thesis
  proof (cases a)
    case (Inl e)
    with a sa assms rejected show ?thesis by (auto simp: prologue_def act_bind_def)
  next
    case (Inr u)
    obtain r1 s1 where "start_run env s = (r1, s1)" by fastforce
    with a sa assms Inr opened show ?thesis
      by (cases r1) (auto simp: prologue_def act_bind_def observe_def ret_def)
  qed
qed

lemma prologue_starts:
  assumes "prologue env s = (r, s')" shows "starts b s' = starts b s"
  using assms
proof (cases rule: prologue_cases)
  case rejected
  then show ?thesis by simp
next
  case (opened r1)
  from start_run_trace [OF opened(2)] show ?thesis
    by (cases r1) (auto simp: starts_def started_event_def)
qed

lemma run_starts_bound:
  assumes "quiet_env env" "run_inner env s0 = Some (r, s)"
  shows "starts b s - starts b s0 \<le> en_max_steps env
    \<and> (case prologue env s0 of
         (Inl _, _) \<Rightarrow> starts b s = starts b s0
       | (Inr _, s1) \<Rightarrow>
           (case initialize env s1 of
              (Inl _, _) \<Rightarrow> starts b s = starts b s0
            | (Inr ls, _) \<Rightarrow> starts b s - starts b s0 \<le> steps_left env ls))"
  using assms(2)
proof (cases rule: run_inner_cases)
  case (refused e)
  with prologue_starts [OF refused(1), of b] show ?thesis by simp
next
  case (unstarted started s1 e s2)
  with prologue_starts [OF unstarted(1), of b] sameD [OF st.leaves_initialize unstarted(2), of b]
    sameD [OF st.leaves_conclude unstarted(3), of b] show ?thesis by simp
next
  case (looped started s1 ls s2 q s3)
  have "starts b s3 \<le> starts b s2 + steps_left env ls"
    using iterate_starts [OF assms(1)] looped(3) by (simp add: run_loop_def)
  moreover have "starts b s2 = starts b s0"
    using prologue_starts [OF looped(1), of b] sameD [OF st.leaves_initialize looped(2), of b] by simp
  moreover have "starts b s = starts b s3" using sameD [OF st.leaves_conclude looped(4)] .
  ultimately show ?thesis using looped(1,2) by (auto simp: steps_left_def)
qed

text \<open>
  Property C4. A run announces at most \<open>max_steps\<close> handler attempts, to the journal and to the
  subscribers alike, whatever the graph's cycles, retries, goal gates and quality loops do and
  however the run ends; a resumed run announces at most the steps its checkpoint has left.
\<close>

theorem run_attempts_bounded:
  assumes "quiet_env env" "run_inner env s0 = Some (r, s)"
  shows "starts b s - starts b s0 \<le> en_max_steps env
    \<and> (case prologue env s0 of
         (Inl _, _) \<Rightarrow> starts b s = starts b s0
       | (Inr _, s1) \<Rightarrow>
           (case initialize env s1 of
              (Inl _, _) \<Rightarrow> starts b s = starts b s0
            | (Inr ls, _) \<Rightarrow> starts b s - starts b s0 \<le> steps_left env ls))"
  using assms by (rule run_starts_bound)

definition gate_run :: "(engine_failure + pipeline_result) \<times> nat run_state" where
  "gate_run = the (run_inner (example_env 9 gate_plan gate_outcome) example_start)"

lemma gate_run_result:
  "\<exists>res s. run_inner (example_env 9 gate_plan gate_outcome) example_start = Some (Inr res, s)
     \<and> res_stopped_before res = None"
proof -
  have "case run_inner (example_env 9 gate_plan gate_outcome) example_start of
      Some (Inr res, s) \<Rightarrow> res_stopped_before res = None | _ \<Rightarrow> False" by code_simp
  then show ?thesis by (auto split: option.splits prod.splits sum.splits)
qed

lemma gate_run_eq: "run_inner (example_env 9 gate_plan gate_outcome) example_start = Some (fst gate_run, snd gate_run)"
  using gate_run_result by (auto simp: gate_run_def)

theorem run_attempts_bounded_witness:
  "starts True (snd gate_run) - starts True example_start \<le> en_max_steps (example_env 9 gate_plan gate_outcome)
    \<and> (case prologue (example_env 9 gate_plan gate_outcome) example_start of
         (Inl _, _) \<Rightarrow> starts True (snd gate_run) = starts True example_start
       | (Inr _, s1) \<Rightarrow>
           (case initialize (example_env 9 gate_plan gate_outcome) s1 of
              (Inl _, _) \<Rightarrow> starts True (snd gate_run) = starts True example_start
            | (Inr ls, _) \<Rightarrow> starts True (snd gate_run) - starts True example_start
                \<le> steps_left (example_env 9 gate_plan gate_outcome) ls))"
  by (rule run_attempts_bounded [OF example_quiet gate_run_eq])

section \<open>Journal before subscribers\<close>

text \<open>
  Property C5. While a journal is attached, no subscriber hears of an event before the journal has
  been asked to record it: the observations of a run are an alternation of appends (or failed
  appends) and the broadcasts of the same event. The one exception is documented: when the very
  first event cannot be appended, the run is refused and its failure is broadcast only.
\<close>

theorem journal_before_broadcast:
  assumes "run_inner env s0 = Some (r, s)" "en_journal env = Some path"
  shows "\<exists>t. rs_trace s = rs_trace s0 @ t \<and> (journal_first t
    \<or> (\<exists>e err. r = Inl err \<and> t = JournalFailed (started_event env)
         # (if en_events env then [Broadcast (PipelineFailed (pg_name (en_graph env)) e)] else [])))"
  using assms(1)
proof (cases rule: run_inner_cases)
  case (refused e)
  from refused(1) show ?thesis
  proof (cases rule: prologue_cases)
    case rejected
    then show ?thesis by auto
  next
    case (opened r1)
    with refused(2) start_run_trace [OF opened(2)] show ?thesis by (cases r1) auto
  qed
next
  case (unstarted started s1 e s2)
  from unstarted(1) have "journal_frame env s0 s1"
  proof (cases rule: prologue_cases)
    case (opened r1)
    with start_run_trace [OF opened(2)] assms(2) show ?thesis by (cases r1) (auto simp: journal_frame_def)
  qed simp
  moreover have "journal_frame env s1 s2" using leavesD [OF jf.leaves_initialize unstarted(2)] .
  moreover have "journal_frame env s2 s" using leavesD [OF jf.leaves_conclude unstarted(3)] .
  ultimately have "journal_frame env s0 s" using jf.R_trans by blast
  with assms(2) show ?thesis by (auto simp: journal_frame_def)
next
  case (looped started s1 ls s2 q s3)
  from looped(1) have "journal_frame env s0 s1"
  proof (cases rule: prologue_cases)
    case (opened r1)
    with start_run_trace [OF opened(2)] assms(2) show ?thesis by (cases r1) (auto simp: journal_frame_def)
  qed simp
  moreover have "journal_frame env s1 s2" using leavesD [OF jf.leaves_initialize looped(2)] .
  moreover have "journal_frame env s2 s3" using jf.iterate_frame looped(3) by (simp add: run_loop_def)
  moreover have "journal_frame env s3 s" using leavesD [OF jf.leaves_conclude looped(4)] .
  ultimately have "journal_frame env s0 s" using jf.R_trans by blast
  with assms(2) show ?thesis by (auto simp: journal_frame_def)
qed

definition journaled_env :: "nat engine_env" where
  "journaled_env = (example_env 9 gate_plan gate_outcome)\<lparr>en_journal := Some ''events.jsonl''\<rparr>"

definition journaled_run :: "(engine_failure + pipeline_result) \<times> nat run_state" where
  "journaled_run = the (run_inner journaled_env example_start)"

lemma journaled_run_eq: "run_inner journaled_env example_start = Some (fst journaled_run, snd journaled_run)"
proof -
  have "case run_inner journaled_env example_start of Some (Inr res, s) \<Rightarrow> True | _ \<Rightarrow> False" by code_simp
  then show ?thesis by (auto simp: journaled_run_def split: option.splits)
qed

theorem journal_before_broadcast_witness:
  "\<exists>t. rs_trace (snd journaled_run) = rs_trace example_start @ t \<and> (journal_first t
    \<or> (\<exists>e err. fst journaled_run = Inl err \<and> t = JournalFailed (started_event journaled_env)
         # (if en_events journaled_env then [Broadcast (PipelineFailed (pg_name (en_graph journaled_env)) e)] else [])))"
  by (rule journal_before_broadcast [OF journaled_run_eq, of "''events.jsonl''"]) (simp add: journaled_env_def)

section \<open>No panic\<close>

text \<open>
  The panics of the engine are lookups of compiled nodes, of a quality limit, and the overflow of
  a counter in a debug build. The plan's invariant, the configuration's and a release build
  exclude them.
\<close>

definition no_panic :: "('w, 'a) act \<Rightarrow> bool" where
  "no_panic m \<longleftrightarrow> (\<forall>s. fst (m s) \<noteq> Inl EnginePanic)"

lemma no_panicD: "no_panic m \<Longrightarrow> m s \<noteq> (Inl EnginePanic, s')"
  by (metis no_panic_def fst_conv)

lemma no_panic_bind [intro!]: "no_panic m \<Longrightarrow> (\<And>x. no_panic (f x)) \<Longrightarrow> no_panic (act_bind m f)"
  by (auto simp: no_panic_def act_bind_def split: prod.splits sum.splits) (metis fst_conv)+

lemma no_panic_atoms [simp]:
  "no_panic (ret x)" "no_panic (fail e)" "no_panic (observe g)" "no_panic (set_ctx c)" "no_panic (set_world w)"
  "no_panic (lift_result res)" "no_panic (add_one Release hi n)"
  by (auto simp: no_panic_def ret_def fail_def observe_def set_ctx_def set_world_def lift_result_def
      add_one_def split: sum.splits)

lemma no_panic_emit [simp]: "no_panic (emit env ev)"
  by (auto simp: no_panic_def emit_def act_bind_def journal_def broadcast_def split: option.split)

lemma no_panic_iter [simp]: "(\<And>x. no_panic (f x)) \<Longrightarrow> no_panic (act_iter f xs)"
  by (induction xs) auto

lemma no_panic_save [simp]: "no_panic (save_data env cd i pr)"
  using no_panic_emit by (auto simp: no_panic_def save_data_def Let_def split: option.split prod.split sum.split)

lemma no_panic_run_commits [simp]: "no_panic (emit_run_commits env i h t)"
  by (auto simp: emit_run_commits_def split: option.split sum.split)

lemma no_panic_run_handler [simp]: "no_panic (run_handler env h n r)"
proof -
  have "no_panic (act_bind (act_iter (emit env) evs) (\<lambda>_. ret res))" for evs and res :: "outcome result"
    by auto
  then show ?thesis by (simp add: no_panic_def run_handler_def Let_def split: prod.split)
qed

lemma no_panic_settle [simp]: "no_panic (settle_attempt env cd n a limit started pr res)"
  by (auto simp: settle_attempt_def Let_def split: option.split sum.split)

lemma no_panic_updates [simp]: "no_panic (apply_handler_updates i out)" "no_panic (emit_context_updated env i out)"
  by (auto simp: apply_handler_updates_def emit_context_updated_def split: list.split)

lemma no_panic_finalize [simp]: "no_panic (finalize env ls)"
  by (auto simp: no_panic_def finalize_def Let_def split: option.split prod.split sum.split)

lemma no_panic_follow [simp]: "no_panic (follow_edge env e ls)"
  by (auto simp: follow_edge_def Let_def split: option.split)

lemma no_panic_stage_outcome [simp]: "no_panic (stage_outcome env r ls out pr)"
  unfolding stage_outcome_def Let_def by (auto split: option.split)

lemma no_panic_initialize: "graph_node (en_graph env) (pl_start (en_plan env)) \<noteq> None \<Longrightarrow> no_panic (initialize env)"
proof -
  have "no_panic (load_data env)"
    by (auto simp: no_panic_def load_data_def lift_result_def split: option.split sum.split)
  then show "no_panic (initialize env)" if "graph_node (en_graph env) (pl_start (en_plan env)) \<noteq> None"
    using that by (auto simp: initialize_def split: option.split)
qed

lemma no_panic_begin: "en_profile env = Release \<Longrightarrow> no_panic (begin_attempt env h cd n a pr)"
  by (auto simp: begin_attempt_def Let_def)

lemma no_panic_attempt_step: "en_profile env = Release \<Longrightarrow> no_panic (attempt_step env h cd n r limit a pr)"
  unfolding attempt_step_def by (auto simp: no_panic_begin split_beta)

lemma no_panic_attempts: "en_profile env = Release \<Longrightarrow> no_panic (attempts env h cd n r limit as pr)"
  by (induction "as" arbitrary: pr) (auto simp: no_panic_attempt_step split: sum.split)

lemma no_panic_invoke: "en_profile env = Release \<Longrightarrow> no_panic (invoke_node env cd n r pr)"
  by (auto simp: invoke_node_def Let_def no_panic_attempts split: option.split)

lemma node_here_resolved:
  assumes "plan_wf (en_plan env)" "node_here env ls"
  obtains r where "plan_node (en_plan env) (pn_id (ls_current ls)) = Some r"
    "rn_id r = pn_id (ls_current ls)" "r \<in> set (hm_values (pl_nodes (en_plan env)))"
proof -
  have "pn_id (ls_current ls) \<in> set (hm_keys (pg_nodes (en_graph env)))"
    using assms(2) by (simp add: node_here_def graph_node_def hm_keys_set)
  then have "pn_id (ls_current ls) \<in> set (hm_keys (pl_nodes (en_plan env)))"
    using assms(1) by (simp add: plan_wf_def en_graph_def)
  then obtain r where r: "plan_node (en_plan env) (pn_id (ls_current ls)) = Some r"
    by (auto simp: hm_keys_set plan_node_def)
  then have "r \<in> set (hm_values (pl_nodes (en_plan env)))"
    by (force simp: plan_node_def hm_values_def dest: hm_get_in_set)
  with r assms(1) that show thesis by (auto simp: plan_wf_def node_wf_def)
qed

lemma no_panic_exit_stage:
  assumes "en_profile env = Release" "plan_wf (en_plan env)" "node_here env ls"
  shows "no_panic (exit_stage env ls)"
proof -
  obtain r where "plan_node (en_plan env) (pn_id (ls_current ls)) = Some r"
    using node_here_resolved [OF assms(2,3)] .
  then show ?thesis by (auto simp: exit_stage_def Let_def split_beta no_panic_invoke assms(1))
qed

lemma no_panic_count_quality:
  assumes "en_profile env = Release" "hm_get (ct_quality_max (rc_controls (en_config env))) (pn_id (ls_current ls)) \<noteq> None"
  shows "no_panic (count_quality env ls)"
  using assms by (auto simp: count_quality_def Let_def split: option.split)

lemma no_panic_loop_round:
  assumes "en_profile env = Release" "plan_wf (en_plan env)" "config_ok (en_config env)" "node_here env ls"
  shows "no_panic (loop_round env ls)"
proof -
  obtain r where r: "plan_node (en_plan env) (pn_id (ls_current ls)) = Some r"
    "rn_id r = pn_id (ls_current ls)" "r \<in> set (hm_values (pl_nodes (en_plan env)))"
    using node_here_resolved [OF assms(2,4)] .
  have "hm_get (ct_quality_max (rc_controls (en_config env))) (rn_id r) \<noteq> None" if "rn_handler r = HQuality"
    using assms(3) r(3) that by (fastforce simp: config_ok_def list_all_iff en_plan_def split: option.splits)
  then have "no_panic (if rn_handler r = HQuality then count_quality env ls else ret ls)"
    using assms(1) r(2) by (auto intro!: no_panic_count_quality)
  then have "no_panic (stage_round env ls)"
    by (auto simp: stage_round_def r split_beta no_panic_invoke assms(1))
  moreover have "no_panic (exit_round env ls)"
    by (auto simp: exit_round_def no_panic_exit_stage [OF assms(1,2,4)] split: option.split)
  ultimately show ?thesis by (auto simp: loop_round_def Let_def split: option.split)
qed

lemma registry_no_panic:
  assumes "plan_wf p" shows "ensure_registry_compatible p c \<noteq> Inl PlanPanic"
proof
  assume "ensure_registry_compatible p c = Inl PlanPanic"
  then have "rmap (\<lambda>i. case hm_get (pl_nodes p) i of None \<Rightarrow> Inl PlanPanic | Some r \<Rightarrow> registry_diag c p r)
      (sort (hm_keys (pl_nodes p))) = Inl PlanPanic"
    by (auto simp: ensure_registry_compatible_def rbind_eq_Inl split: if_splits)
  from rmap_Inl [OF this] obtain i where i: "i \<in> set (hm_keys (pl_nodes p))"
    "(case hm_get (pl_nodes p) i of None \<Rightarrow> Inl PlanPanic | Some r \<Rightarrow> registry_diag c p r) = Inl PlanPanic"
    by auto
  then obtain r where "hm_get (pl_nodes p) i = Some r" by (auto simp: hm_keys_set)
  with i(2) assms show False
    by (auto simp: plan_wf_def node_wf_def plan_node_def registry_diag_def Let_def split: option.splits if_splits)
qed

lemma start_in_graph:
  assumes "plan_wf (en_plan env)" shows "graph_node (en_graph env) (pl_start (en_plan env)) \<noteq> None"
proof -
  have same: "set (hm_keys (pl_nodes (en_plan env))) = set (hm_keys (pg_nodes (en_graph env)))"
    and start: "plan_node (en_plan env) (pl_start (en_plan env)) \<noteq> None"
    using assms by (simp_all add: plan_wf_def en_graph_def)
  from start have "pl_start (en_plan env) \<in> set (hm_keys (pl_nodes (en_plan env)))"
    by (simp add: plan_node_def hm_keys_set)
  then have "pl_start (en_plan env) \<in> set (hm_keys (pg_nodes (en_graph env)))"
    unfolding same .
  then show ?thesis by (simp add: graph_node_def hm_keys_set)
qed

lemma admit_no_panic: "plan_wf (en_plan env) \<Longrightarrow> no_panic (admit env)"
proof -
  assume wf: "plan_wf (en_plan env)"
  have "ensure_registry_compatible (en_plan env) c \<noteq> Inl PlanPanic" for c
    using registry_no_panic [OF wf] .
  then show ?thesis
    by (auto simp: admit_def split: sum.split plan_failure.split list.split)
qed

lemma run_loop_no_panic:
  assumes "en_profile env = Release" "plan_wf (en_plan env)" "config_ok (en_config env)"
    "plan_clean (en_plan env)" "node_here env ls" "run_loop env ls s = Some (r, s')"
  shows "r \<noteq> Inl EnginePanic"
proof -
  have "engine_inv env (ls, s)" using assms by (simp add: engine_inv_def)
  from engine.iterate_result [OF this] assms(6) obtain t where
    t: "engine_inv env t" "engine_round env t = Inl (r, s')"
    unfolding run_loop_def by blast
  then have "no_panic (loop_round env (fst t))"
    using no_panic_loop_round assms by (auto simp: engine_inv_def)
  with t(2) show ?thesis
    by (auto simp: engine_round_def no_panic_def split: prod.splits sum.splits) (metis fst_conv)
qed

lemma prologue_no_panic: "plan_wf (en_plan env) \<Longrightarrow> prologue env s \<noteq> (Inl EnginePanic, s')"
proof
  assume wf: "plan_wf (en_plan env)" and p: "prologue env s = (Inl EnginePanic, s')"
  from p show False
  proof (cases rule: prologue_cases)
    case (rejected e)
    with no_panicD [OF admit_no_panic [OF wf], of s s] show False by simp
  next
    case (opened r1)
    then have "start_run env s = (Inl EnginePanic, s')" by (auto split: sum.splits)
    then show False
      by (auto simp: start_run_def emit_required_def act_bind_def journal_def broadcast_def fail_def
          split: option.splits if_splits)
  qed
qed

lemma run_no_panic:
  assumes "plan_wf (en_plan env)" "config_ok (en_config env)" "en_profile env = Release"
    and "run_inner env s0 = Some (r, s)"
  shows "r \<noteq> Inl EnginePanic"
  using assms(4)
proof (cases rule: run_inner_cases)
  case (refused e)
  with prologue_no_panic [OF assms(1), of s0 s] show ?thesis by auto
next
  case (unstarted started s1 e s2)
  have "no_panic (initialize env)"
    using start_in_graph [OF assms(1)] by (rule no_panic_initialize)
  with unstarted(2) have "e \<noteq> EnginePanic" using no_panicD by metis
  then have "no_panic (conclude env started (Inl e))"
    by (auto simp: conclude_def split: engine_failure.split)
  with unstarted(3) show ?thesis using no_panicD by metis
next
  case (looped started s1 ls s2 q s3)
  have "node_here env ls"
    using initialize_node_here [OF looped(2)] assms(1) by (simp add: plan_wf_def en_graph_def)
  with run_loop_no_panic [OF assms(3,1,2) prologue_clean [OF looped(1)]] looped(3)
  have "q \<noteq> Inl EnginePanic" by blast
  then have "no_panic (conclude env started q)"
    by (auto simp: conclude_def split: sum.split engine_failure.split)
  with looped(4) show ?thesis using no_panicD by metis
qed

text \<open>
  Property C6. A release build never panics while it runs a compiled plan under a prepared
  configuration, whatever the handlers return and whatever checkpoint it resumes: every node it
  reaches is compiled, every quality node has its limit, every handler of the plan has its
  recorded capability. It ends with a result or an error value.
\<close>

theorem run_never_panics:
  assumes "plan_wf (en_plan env)" "config_ok (en_config env)" "en_profile env = Release"
    and "run_inner env s0 = Some (r, s)"
  shows "r \<noteq> Inl EnginePanic"
  using assms by (rule run_no_panic)

lemma example_config_ok: "config_ok (example_config 9 gate_plan)"
  by code_simp

theorem run_never_panics_witness: "fst gate_run \<noteq> Inl EnginePanic"
proof (rule run_never_panics [OF _ _ _ gate_run_eq])
  show "plan_wf (en_plan (example_env 9 gate_plan gate_outcome))" by (simp add: gate_plan_wf)
qed (simp_all add: example_env_def example_config_ok)

end
