(* ===== verification/Engine_Outcome.thy ===== *)
theory Engine_Outcome
  imports Engine_Run
begin

text \<open>
  What the result of a run means: how a completed run ended and what its goal gates say, that a
  stopped or interrupted run resumes where it was, and that a validated graph runs.
\<close>

section \<open>How a run completes\<close>

text \<open>The end of a run that was not stopped, at the exit or at a dead end.\<close>

definition ended_well :: "'w engine_env \<Rightarrow> pipeline_result \<Rightarrow> bool" where
  "ended_well env res \<longleftrightarrow>
     res_completed res \<noteq> []
     \<and> (let i = last (res_completed res)
        in if is_exit (en_plan env) i
           then \<forall>n. gate_open (en_graph env) (res_outcomes res) n \<longrightarrow> n = i
           else outgoing_edges (en_graph env) i = []
             \<and> (case hm_get (res_outcomes res) i of None \<Rightarrow> False | Some out \<Rightarrow> status out \<noteq> Fail))"

lemma make_result_simps [simp]:
  "res_completed (make_result ls st s) = ls_completed ls" "res_outcomes (make_result ls st s) = ls_outcomes ls"
  "res_stopped_before (make_result ls st s) = st"
  by (simp_all add: make_result_def)

lemma finalize_result:
  fixes env :: "'w engine_env"
  shows "finalize env ls s = (Inr res, s') \<Longrightarrow> \<exists>t :: 'w run_state. res = make_result ls None t"
  by (cases "en_logs_root env") (auto simp: finalize_def Let_def split: prod.splits sum.splits)

lemma lift_result_Inr: "lift_result r s = (Inr x, s') \<longleftrightarrow> r = Inr x \<and> s' = s"
  by (auto simp: lift_result_def split: sum.splits)

lemma gates_satisfied:
  "all_satisfied (check_goal_gates g outs) \<Longrightarrow> \<not> gate_open g outs n"
  by (fastforce simp: gate_open_def check_goal_gates_def check_gates_satisfied dest!: hm_get_in_set)

lemma exit_round_result:
  assumes "exit_round env ls s = (Inr (Inl res), s')"
  shows "\<exists>out. res_completed res = ls_completed ls @ [pn_id (ls_current ls)]
      \<and> res_outcomes res = hm_insert (pn_id (ls_current ls)) out (ls_outcomes ls)
      \<and> all_satisfied (check_goal_gates (en_graph env) (ls_outcomes ls))"
proof -
  from assms obtain gates s1 where g: "enforce_goal_gates (en_graph env) (ls_outcomes ls) = Inr gates"
    and c: "(case (if all_satisfied gates then None else gg_retry_target gates) of
       Some target \<Rightarrow>
         (case graph_node (en_graph env) target of
            None \<Rightarrow> fail (OtherError (''Retry target '' @ sq target @ '' not found''))
          | Some t \<Rightarrow> ret (Inr (ls\<lparr>ls_current := t\<rparr>)))
     | None \<Rightarrow> exit_stage env ls) s1 = (Inr (Inl res), s')"
    by (auto simp: exit_round_def act_bind_Inr lift_result_Inr)
  have g: "enforce_goal_gates (en_graph env) (ls_outcomes ls) = Inr gates"
    "all_satisfied gates \<or> gg_retry_target gates = None" "exit_stage env ls s1 = (Inr (Inl res), s')"
    using g c by (cases "if all_satisfied gates then None else gg_retry_target gates";
        auto split: option.splits if_splits)+
  from g(1,2) have "all_satisfied (check_goal_gates (en_graph env) (ls_outcomes ls))"
    using enforce_goal_gates_Inr by blast
  moreover from g(3) have "\<exists>out. res_completed res = ls_completed ls @ [pn_id (ls_current ls)]
      \<and> res_outcomes res = hm_insert (pn_id (ls_current ls)) out (ls_outcomes ls)"
    by (auto simp: exit_stage_def Let_def act_bind_Inr split_beta record_outcome_def
        dest!: finalize_result split: option.splits)
  ultimately show ?thesis by blast
qed

lemma count_quality_frame:
  "count_quality env ls s = (Inr ls', s') \<Longrightarrow>
     ls_current ls' = ls_current ls \<and> ls_outcomes ls' = ls_outcomes ls \<and> ls_completed ls' = ls_completed ls"
  by (auto simp: count_quality_def Let_def act_bind_Inr split: option.splits if_splits)

lemma note_footprint_frame [simp]:
  "ls_outcomes (note_footprint i out ls) = ls_outcomes ls" "ls_completed (note_footprint i out ls) = ls_completed ls"
  "ls_current (note_footprint i out ls) = ls_current ls"
  by (auto simp: note_footprint_def split: option.split)

lemma stage_outcome_result:
  assumes "stage_outcome env r ls out pr s = (Inr (Inl res), s')"
  shows "res_completed res = ls_completed ls @ [pn_id (ls_current ls)]
    \<and> res_outcomes res = hm_insert (pn_id (ls_current ls)) out (ls_outcomes ls)
    \<and> status out \<noteq> Fail \<and> outgoing_edges (en_graph env) (pn_id (ls_current ls)) = []"
proof -
  define i where "i = pn_id (ls_current ls)"
  define ls2 where "ls2 = (if rn_handler r = HQuality \<and> status out = Fail then note_footprint i out ls else ls)"
  define ls3 where "ls3 = record_outcome i out (ls2\<lparr>ls_progress :=
            (case cost_of i out of Some c \<Rightarrow> add_cost c pr | None \<Rightarrow> pr)\<rparr>)"
  have ls3: "ls_completed ls3 = ls_completed ls @ [i]" "ls_outcomes ls3 = hm_insert i out (ls_outcomes ls)"
    by (auto simp: ls3_def ls2_def record_outcome_def)
  from assms obtain s1 resolve where k: "(case select_edge (en_strip env) i out resolve (en_graph env) of
         Some e \<Rightarrow> follow_edge env e ls3
       | None \<Rightarrow>
             if status out = Fail
             then fail (HandlerError (handler_as_str (rn_handler r)) i ''Handler failed with no outgoing edge'')
             else act_bind (finalize env (ls3\<lparr>ls_progress := idle (ls_progress ls3)\<rparr>)) (\<lambda>res.
               ret (Inl res))) s1 = (Inr (Inl res), s')"
    unfolding stage_outcome_def Let_def i_def [symmetric] ls2_def [symmetric] ls3_def [symmetric] act_bind_Inr
    by auto
  show ?thesis
  proof (cases "select_edge (en_strip env) i out resolve (en_graph env)")
    case None
    then have "outgoing_edges (en_graph env) i = []"
      using select_edge_some_iff [of "en_strip env" i out resolve "en_graph env"] by auto
    with None k ls3 show ?thesis
      by (auto simp: act_bind_Inr i_def [symmetric] dest!: finalize_result split: if_splits)
  next
    case (Some e)
    with k follow_edge_next [of env e ls3 s1 "Inl res" s'] show ?thesis by auto
  qed
qed

lemma loop_round_result:
  assumes "loop_round env ls s = (Inr (Inl res), s')" "res_stopped_before res = None"
  shows "ended_well env res"
proof (cases "is_exit (en_plan env) (pn_id (ls_current ls))")
  case True
  then have "exit_round env ls s = (Inr (Inl res), s')"
    using assms(1) by (auto simp: loop_round_def Let_def split: if_splits)
  from exit_round_result [OF this] True gates_satisfied show ?thesis
    by (fastforce simp: ended_well_def Let_def gate_open_def split: if_splits)
next
  case False
  then obtain s1 where "stage_round env ls s1 = (Inr (Inl res), s')"
    using assms by (auto simp: loop_round_def Let_def act_bind_Inr split: if_splits option.splits)
  then obtain r ls1 s2 out pr s3 where
    q: "(if rn_handler r = HQuality then count_quality env ls else ret ls) s1 = (Inr ls1, s2)"
    and o: "stage_outcome env r ls1 out pr s3 = (Inr (Inl res), s')"
    by (auto simp: stage_round_def act_bind_Inr split: option.splits)
  have "ls_current ls1 = ls_current ls" using q by (auto split: if_splits dest: count_quality_frame)
  with stage_outcome_result [OF o] False show ?thesis by (auto simp: ended_well_def Let_def)
qed

lemma conclude_Inr: "conclude env t q s = (Inr res, s') \<Longrightarrow> q = Inr res"
  by (auto simp: conclude_def act_bind_Inr split: sum.splits engine_failure.splits if_splits)

text \<open>
  Property C7. A run that returns without having been stopped has completed at the exit or at a
  dead end, and at the exit every goal gate it visited is satisfied (the exit's own outcome,
  recorded after the check, excepted); at a dead end the last stage has no outgoing edge and did
  not fail.
\<close>

theorem completion_meaning:
  assumes "run_inner env s0 = Some (Inr res, s)" "res_stopped_before res = None"
  shows "ended_well env res"
  using assms(1)
proof (cases rule: run_inner_cases)
  case (looped started s1 ls s2 q s3)
  have "q = Inr res" using conclude_Inr looped(4) by blast
  with looped(3) obtain t where "engine_round env t = Inl (Inr res, s3)"
    using iterate_rounds by (fastforce simp: run_loop_def)
  then have "\<exists>ls s. loop_round env ls s = (Inr (Inl res), s3)"
    by (auto simp: engine_round_def split: prod.splits sum.splits)
  then show ?thesis using loop_round_result assms(2) by blast
next
  case (unstarted started s1 e s2)
  then show ?thesis using conclude_Inr by blast
qed simp

theorem completion_meaning_witness:
  "\<exists>res. fst gate_run = Inr res \<and> ended_well (example_env 9 gate_plan gate_outcome) res"
proof -
  obtain res s where r: "run_inner (example_env 9 gate_plan gate_outcome) example_start = Some (Inr res, s)"
    "res_stopped_before res = None" using gate_run_result by blast
  from completion_meaning [OF this] r(1) show ?thesis by (auto simp: gate_run_def)
qed

section \<open>Resuming\<close>

text \<open>
  A second process on the same pipeline: same configuration and checkpoint directory, same file
  format and hash; handlers, journal, clock and failures may differ.
\<close>

definition same_pipeline :: "'w engine_env \<Rightarrow> 'w engine_env \<Rightarrow> bool" where
  "same_pipeline env env' \<longleftrightarrow>
     en_config env' = en_config env \<and> en_logs_root env' = en_logs_root env
     \<and> en_de env' = en_de env \<and> en_hash env' = en_hash env"

definition readable :: "'w engine_env \<Rightarrow> str \<Rightarrow> 'w \<Rightarrow> bool" where
  "readable env d w \<longleftrightarrow>
     en_io env w (TryExists (checkpoint_path d)) = None \<and> en_io env w (ReadToString (checkpoint_path d)) = None"

lemma emit_frame: "emit env ev s = (r, s') \<Longrightarrow> r = Inr () \<and> rs_ctx s' = rs_ctx s \<and> rs_files s' = rs_files s"
  by (auto simp: emit_def act_bind_def journal_def broadcast_def split: option.splits if_splits)

lemma save_data_loads:
  assumes "save_data env cd i pr s = (Inr (), s')" "en_logs_root env = Some d"
    "codec_ok (en_ser env) (en_de env)" "f64_finite (pr_total_cost pr)"
    "same_pipeline env env'" "readable env' d (rs_world t)" "rs_files t = rs_files s'"
  shows "load_data env' t = (Inr (Some (make_checkpoint env cd i pr s)), t)"
proof -
  let ?cp = "make_checkpoint env cd i pr s"
  obtain r fs where sv: "save_checkpoint (en_ser env) (en_io env (rs_world s)) ?cp d (rs_files s) = (r, fs)"
    by fastforce
  with assms(1,2) obtain p where r: "r = Inr p" by (cases r) (auto simp: save_data_def)
  with sv assms(1,2) have "rs_files s' = fs"
    by (auto simp: save_data_def dest: emit_frame)
  moreover have "f64_finite (cp_total_cost ?cp)" "?cp\<lparr>cp_session_id := None\<rparr> = ?cp"
    using assms(4) by (simp_all add: make_checkpoint_def with_quality_counters_def checkpoint_new_def)
  ultimately have "load_checkpoint (en_de env) (en_io env' (rs_world t)) d (rs_files t) = Inr (Some ?cp)"
    using save_then_load [OF assms(3) _ sv [unfolded r], of "en_io env' (rs_world t)"] assms(6,7)
    by (simp add: readable_def)
  with assms(2,5) show ?thesis by (simp add: load_data_def same_pipeline_def lift_result_def)
qed

lemma make_checkpoint_simps [simp]:
  "cp_current (make_checkpoint env cd i pr s) = i"
  "cp_completed (make_checkpoint env cd i pr s) = cd_completed cd"
  "cp_outcomes (make_checkpoint env cd i pr s) = cd_outcomes cd"
  "cp_context (make_checkpoint env cd i pr s) = ctx_values (rs_ctx s)"
  "cp_step_count (make_checkpoint env cd i pr s) = pr_step_count pr"
  "cp_total_cost (make_checkpoint env cd i pr s) = pr_total_cost pr"
  "cp_counters (make_checkpoint env cd i pr s) = cd_counters cd"
  "cp_footprints (make_checkpoint env cd i pr s) = cd_footprints cd"
  "cp_previous (make_checkpoint env cd i pr s) = cd_previous cd"
  "cp_run_id (make_checkpoint env cd i pr s) = cd_run_id cd"
  "cp_total_attempts (make_checkpoint env cd i pr s) = pr_total_attempts pr"
  "cp_active_node (make_checkpoint env cd i pr s) = pr_active_node pr"
  "cp_active_attempts (make_checkpoint env cd i pr s) = pr_active_attempts pr"
  "cp_fingerprint (make_checkpoint env cd i pr s) = Some (plan_fp env)"
  "cp_schema_version (make_checkpoint env cd i pr s) = checkpoint_schema_version"
  by (simp_all add: make_checkpoint_def with_quality_counters_def checkpoint_new_def context_snapshot_def)

lemma validate_own: "validate_checkpoint (make_checkpoint env cd i pr s) (plan_fp env) path = Inr ()"
  by (simp add: validate_checkpoint_def)

lemma resume_own: "node_here env ls \<Longrightarrow>
  resume_state env' (make_checkpoint env (checkpoint_data_of ls) (pn_id (ls_current ls)) (ls_progress ls) s) (ls_current ls)
    = ls\<lparr>ls_run_id := or_else (en_run_id env') (ls_run_id ls)\<rparr>"
  by (simp add: resume_state_def checkpoint_data_of_def)

lemma resume_from_save:
  assumes "save_data env (checkpoint_data_of ls) (pn_id (ls_current ls)) (ls_progress ls) s = (Inr (), s')"
    "en_logs_root env = Some d" "codec_ok (en_ser env) (en_de env)" "f64_finite (pr_total_cost (ls_progress ls))"
    "plan_wf (en_plan env)" "node_here env ls"
    "same_pipeline env env'" "readable env' d (rs_world t)" "rs_files t = rs_files s'"
  shows "\<exists>t'. initialize env' t = (Inr (ls\<lparr>ls_run_id := or_else (en_run_id env') (ls_run_id ls)\<rparr>), t')
    \<and> rs_ctx t' = context_apply_updates (filter (\<lambda>(k, _). \<not> is_reserved_key k) (ctx_values (rs_ctx s)))
        (fold (\<lambda>(k, v). context_set k v) (rc_defaults (en_config env)) (rs_ctx t))"
proof -
  define t1 where "t1 = t\<lparr>rs_ctx := fold (\<lambda>(k, v). context_set k v) (rc_defaults (en_config env)) (rs_ctx t)\<rparr>"
  have "load_data env' t1 = (Inr (Some (make_checkpoint env (checkpoint_data_of ls) (pn_id (ls_current ls)) (ls_progress ls) s)), t1)"
    using assms by (intro save_data_loads) (simp_all add: t1_def)
  moreover obtain start where "graph_node (en_graph env) (pl_start (en_plan env)) = Some start"
    using start_in_graph [OF assms(5)] by blast
  moreover have same: "plan_fp env' = plan_fp env" "en_graph env' = en_graph env" "en_plan env' = en_plan env"
    "en_config env' = en_config env"
    using assms(7) by (simp_all add: same_pipeline_def plan_fp_def en_plan_def en_graph_def)
  ultimately show ?thesis
    using assms(6)
    by (simp add: initialize_def act_bind_def set_ctx_def lift_result_def validate_own ret_def
        resume_own [OF assms(6)] node_here_def t1_def)
qed


section \<open>Attempts are recorded before they start\<close>


section \<open>A concrete crash and restart\<close>

text \<open>The example environment with a checkpoint directory and a format that knows one checkpoint.\<close>

definition recording_env :: "checkpoint \<Rightarrow> nat engine_env" where
  "recording_env cp = (example_env 9 gate_plan gate_outcome)
     \<lparr>en_logs_root := Some ''logs'',
      en_ser := (\<lambda>c. if c = cp then Inr ''checkpoint'' else Inl (JsonError [])),
      en_de := (\<lambda>text. Inr cp)\<rparr>"

lemma recording_codec: "cp_session_id cp = None \<Longrightarrow> codec_ok (en_ser (recording_env cp)) (en_de (recording_env cp))"
  by (auto simp: codec_ok_def recording_env_def)

lemma recording_simps [simp]:
  "en_logs_root (recording_env cp) = Some ''logs''" "en_plan (recording_env cp) = gate_plan"
  "same_pipeline (recording_env cp) (recording_env cp)" "readable (recording_env cp) d w"
  "en_run_id (recording_env cp) = None"
  by (simp_all add: recording_env_def example_env_def example_config_def en_plan_def same_pipeline_def readable_def)

definition gate_node :: "str \<Rightarrow> pipeline_node" where
  "gate_node i = the (graph_node (pl_graph gate_plan) i)"

definition hop_from :: loop_state where
  "hop_from = fresh_state (example_env 9 gate_plan gate_outcome) (gate_node ''s'')"

definition hop_to :: loop_state where
  "hop_to = hop_from\<lparr>ls_current := gate_node ''a'', ls_prev := Some ''s''\<rparr>"

definition hop_env :: "nat engine_env" where
  "hop_env = recording_env (make_checkpoint (example_env 9 gate_plan gate_outcome) (checkpoint_data_of hop_to)
     ''a'' (ls_progress hop_to) example_start)"

definition hop :: "nat run_state" where
  "hop = snd (follow_edge hop_env (hd (plan_outgoing gate_plan ''s'')) hop_from example_start)"

lemma hop_eq:
  "follow_edge hop_env (hd (plan_outgoing gate_plan ''s'')) hop_from example_start = (Inr (Inr hop_to), hop)"
proof -
  have "case follow_edge hop_env (hd (plan_outgoing gate_plan ''s'')) hop_from example_start of
      (Inr (Inr l), s) \<Rightarrow> l = hop_to | _ \<Rightarrow> False"
    by code_simp
  then show ?thesis by (auto simp: hop_def split: prod.splits sum.splits)
qed


definition attempt_env :: "nat engine_env" where
  "attempt_env = recording_env (make_checkpoint (example_env 9 gate_plan gate_outcome) (checkpoint_data_of hop_to) ''a''
     \<lparr>pr_step_count = 1, pr_total_cost = f64_of_int 0, pr_total_attempts = 1, pr_active_node = None,
      pr_active_attempts = 1\<rparr> example_start)"

definition first_attempt :: "(engine_failure + progress) \<times> nat run_state" where
  "first_attempt = begin_attempt attempt_env (example_handler gate_outcome) (checkpoint_data_of hop_to)
     (gate_node ''a'') 0 progress_default example_start"


end
