(* ===== verification/Journal.thy ===== *)
theory Journal
  imports Journal_Event Dot_Ast
begin

text \<open>
  The files of lines of \<open>crates/attractor-journal\<close>: the Run Journal's writer (\<open>writer.rs\<close>), its
  readers, among them the follower of a growing file (\<open>reader.rs\<close>), and the machine-wide Run Index
  (\<open>index.rs\<close>). A file is the string of its bytes. The failures of the disk, the clock and the
  moment a process is killed are arguments.
\<close>

section \<open>Lines of a file\<close>

definition NL :: char where "NL = CHR 0x0A"

text \<open>\<open>bytes[..complete]\<close>: up to and with the last newline.\<close>

definition complete_part :: "str \<Rightarrow> str" where
  "complete_part bs = rev (dropWhile (\<lambda>b. b \<noteq> NL) (rev bs))"

text \<open>\<open>split(|b| b == '\n')\<close>: the last piece is what follows the last newline.\<close>

fun split_lines :: "str \<Rightarrow> str list" where
  "split_lines [] = [[]]"
| "split_lines (b # bs) =
     (if b = NL then [] # split_lines bs
      else (b # hd (split_lines bs)) # tl (split_lines bs))"

text \<open>\<open>u8::is_ascii_whitespace\<close>.\<close>

definition u8_ws :: "char \<Rightarrow> bool" where
  "u8_ws b \<longleftrightarrow> b \<in> {CHR 0x09, CHR 0x0A, CHR 0x0C, CHR 0x0D, CHR 0x20}"

definition blank :: "str \<Rightarrow> bool" where
  "blank l \<longleftrightarrow> list_all u8_ws l"

definition flat :: "str list \<Rightarrow> str" where
  "flat ls = concat (map (\<lambda>l. l @ [NL]) ls)"

definition one_line :: "str \<Rightarrow> bool" where
  "one_line l \<longleftrightarrow> NL \<notin> set l"

lemma flat_Nil [simp]: "flat [] = []" by (simp add: flat_def)
lemma flat_Cons [simp]: "flat (l # ls) = l @ NL # flat ls" by (simp add: flat_def)
lemma flat_append [simp]: "flat (ls @ ms) = flat ls @ flat ms" by (simp add: flat_def)

lemma one_line_Nil [simp]: "one_line []"
  by (simp add: one_line_def)

lemma one_line_take [intro]: "one_line l \<Longrightarrow> one_line (take k l)"
  using set_take_subset [of k l] by (auto simp: one_line_def)

lemma complete_part_torn: "one_line r \<Longrightarrow> complete_part (xs @ r) = complete_part xs"
  by (auto simp: complete_part_def one_line_def dropWhile_append)

lemma complete_part_snoc [simp]: "complete_part (xs @ [NL]) = xs @ [NL]"
  by (simp add: complete_part_def)

lemma flat_ends: "ls \<noteq> [] \<Longrightarrow> \<exists>xs. flat ls = xs @ [NL]"
  by (induction ls rule: rev_induct) auto

lemma complete_part_flat [simp]: "one_line r \<Longrightarrow> complete_part (flat ls @ r) = flat ls"
proof (cases ls rule: rev_cases)
  case Nil
  moreover assume "one_line r"
  ultimately show ?thesis using complete_part_torn [of r "[]"] by (simp add: complete_part_def)
next
  case (snoc ms l)
  assume "one_line r"
  moreover have "flat ls = (flat ms @ l) @ [NL]" using snoc by simp
  ultimately show ?thesis using complete_part_torn [of r "flat ls"] complete_part_snoc by metis
qed

lemma complete_part_flat_only [simp]: "complete_part (flat ls) = flat ls"
  using complete_part_flat [of "[]" ls] by simp

lemma split_lines_nonempty [simp]: "split_lines bs \<noteq> []"
  by (induction bs) auto

lemma split_lines_line: "one_line l \<Longrightarrow> split_lines (l @ NL # bs) = l # split_lines bs"
  by (induction l) (auto simp: one_line_def)

lemma split_lines_flat: "list_all one_line ls \<Longrightarrow> split_lines (flat ls) = ls @ [[]]"
  by (induction ls) (auto simp: split_lines_line)

lemma split_lines_torn: "one_line l \<Longrightarrow> split_lines l = [l]"
  by (induction l) (auto simp: one_line_def)

text \<open>Every file is its complete lines and what follows the last newline.\<close>

lemma file_lines: "\<exists>ls r. bs = flat ls @ r \<and> list_all one_line ls \<and> one_line r"
proof (induction bs)
  case Nil
  have "[] = flat [] @ [] \<and> list_all one_line [] \<and> one_line []" by simp
  then show ?case by blast
next
  case (Cons b bs)
  then obtain ls r where bs: "bs = flat ls @ r" "list_all one_line ls" "one_line r" by blast
  show ?case
  proof (cases "b = NL")
    case True
    with bs have "b # bs = flat ([] # ls) @ r \<and> list_all one_line ([] # ls) \<and> one_line r" by simp
    then show ?thesis by blast
  next
    case b: False
    show ?thesis
    proof (cases ls)
      case Nil
      with bs b have "b # bs = flat [] @ (b # r) \<and> list_all one_line [] \<and> one_line (b # r)"
        by (simp add: one_line_def)
      then show ?thesis by blast
    next
      case (Cons l ms)
      with bs b have "b # bs = flat ((b # l) # ms) @ r \<and> list_all one_line ((b # l) # ms) \<and> one_line r"
        by (simp add: one_line_def)
      then show ?thesis by blast
    qed
  qed
qed

text \<open>A piece of a file that starts at a line and ends with a newline is a number of whole lines.\<close>

lemma whole_lines:
  assumes "flat ls @ r = b @ rest" "list_all one_line ls" "one_line r" "b = complete_part b"
  shows "\<exists>k \<le> length ls. b = flat (take k ls)"
  using assms
proof (induction ls arbitrary: b)
  case Nil
  then have "one_line b" by (auto simp: one_line_def)
  then have "complete_part b = []" using complete_part_torn [of b "[]"] by (simp add: complete_part_def)
  with Nil.prems show ?case by simp
next
  case (Cons l ls)
  show ?case
  proof (cases "length b \<le> length l")
    case True
    have "take (length b) (l @ NL # flat ls @ r) = take (length b) (b @ rest)" using Cons.prems(1) by simp
    with True have "b = take (length b) l" by simp
    with Cons.prems have "one_line b" using one_line_take [of l "length b"] by simp
    then have "complete_part b = []" using complete_part_torn [of b "[]"] by (simp add: complete_part_def)
    with Cons.prems show ?thesis by (intro exI [of _ 0]) simp
  next
    case False
    with Cons.prems obtain c where c: "b = l @ NL # c" "flat ls @ r = c @ rest"
      by (auto simp: append_eq_append_conv2 Cons_eq_append_conv)
    have "c = complete_part c"
    proof -
      obtain ms s where ms: "c = flat ms @ s" "one_line s" using file_lines by blast
      have "complete_part (l @ NL # c) = complete_part (flat (l # ms) @ s)" using ms by simp
      also have "\<dots> = flat (l # ms)" using ms by (rule_tac complete_part_flat) simp
      finally have "s = []" using c Cons.prems(4) ms by simp
      with ms show ?thesis by simp
    qed
    with Cons.IH [of c] c Cons.prems obtain k where "k \<le> length ls" "c = flat (take k ls)" by auto
    with c have "Suc k \<le> length (l # ls) \<and> b = flat (take (Suc k) (l # ls))" by simp
    then show ?thesis by blast
  qed
qed

lemma flat_take_drop: "flat (take k ls) @ flat (drop k ls) = flat ls"
  using flat_append [of "take k ls" "drop k ls"] by simp

section \<open>A log of lines\<close>

text \<open>
  What the journal and the index share: entries written as one line each by \<open>enc\<close> and read back by
  \<open>dec\<close>. \<open>ok\<close> are the entries for which the two agree; their lines have no newline and are not
  blank.
\<close>

locale line_log =
  fixes enc :: "'e \<Rightarrow> str"
    and dec :: "str \<Rightarrow> 'e option"
    and ok :: "'e \<Rightarrow> bool"
  assumes dec_enc: "ok e \<Longrightarrow> dec (enc e) = Some e"
    and enc_line: "ok e \<Longrightarrow> one_line (enc e)"
    and enc_not_blank: "ok e \<Longrightarrow> \<not> blank (enc e)"
begin

definition log_text :: "'e list \<Rightarrow> str" where
  "log_text es = flat (map enc es)"

lemma log_text_simps [simp]:
  "log_text [] = []" "log_text (es @ [e]) = log_text es @ enc e @ [NL]"
  by (simp_all add: log_text_def)

lemma log_lines: "list_all ok es \<Longrightarrow> list_all one_line (map enc es)"
  by (auto simp: list_all_iff enc_line)

lemma split_log: "list_all ok es \<Longrightarrow> split_lines (log_text es) = map enc es @ [[]]"
  by (simp add: log_text_def split_lines_flat log_lines)

lemma complete_log: "one_line r \<Longrightarrow> complete_part (log_text es @ r) = log_text es"
  by (simp add: log_text_def)

text \<open>Skipping what cannot be read gives the entries back, whatever torn line follows.\<close>

lemma skip_log:
  "list_all ok es \<Longrightarrow> List.map_filter dec (map enc es) = es"
  by (induction es) (auto simp: map_filter_simps dec_enc)

text \<open>A whole number of lines after a whole number of lines is a run of entries.\<close>

lemma log_segment:
  assumes "list_all ok es" "one_line r" "b = complete_part b" "m \<le> length es"
    and "drop (length (log_text (take m es))) (log_text es @ r) = b @ rest"
  shows "\<exists>k. m \<le> k \<and> k \<le> length es \<and> b = log_text (take (k - m) (drop m es)) \<and>
     log_text (take m es) @ b = log_text (take k es)"
proof -
  have t: "log_text es = log_text (take m es) @ log_text (drop m es)"
    using flat_take_drop [of m "map enc es"] by (simp add: log_text_def take_map drop_map)
  with assms(5) have "flat (map enc (drop m es)) @ r = b @ rest" by (simp add: log_text_def)
  moreover have "list_all one_line (map enc (drop m es))"
    using assms(1) by (intro log_lines) (auto simp: list_all_iff dest: in_set_dropD)
  ultimately obtain k where k: "k \<le> length (map enc (drop m es))" "b = flat (take k (map enc (drop m es)))"
    using whole_lines assms(2,3) by blast
  have "log_text (take m es) @ b = log_text (take (m + k) es)"
    using k by (simp add: log_text_def take_map take_add)
  with k assms(4) show ?thesis
    by (intro exI [of _ "m + k"]) (simp add: log_text_def take_map)
qed

lemma log_text_mono: "m \<le> n \<Longrightarrow> length (log_text (take m es)) \<le> length (log_text (take n es))"
proof -
  assume "m \<le> n"
  then obtain k where n: "n = m + k" using le_Suc_ex by blast
  show ?thesis unfolding n by (simp add: log_text_def take_add)
qed

end

section \<open>The journal file\<close>

text \<open>serde_json's text of a tree and chrono's RFC 3339 text of a time, with their readers.\<close>

record journal_codec =
  jc_show :: "json \<Rightarrow> str"
  jc_parse :: "str \<Rightarrow> json option"
  jc_show_ts :: "time \<Rightarrow> str"
  jc_parse_ts :: "str \<Rightarrow> time option"

definition event_line :: "journal_codec \<Rightarrow> journal_event \<Rightarrow> str" where
  "event_line C e = jc_show C (event_tree (jc_show_ts C) e)"

definition event_of_line :: "journal_codec \<Rightarrow> str \<Rightarrow> journal_event option" where
  "event_of_line C l = Option.bind (jc_parse C l) (event_of_tree (jc_parse_ts C))"

definition seq_of_line :: "journal_codec \<Rightarrow> str \<Rightarrow> nat option" where
  "seq_of_line C l = Option.bind (jc_parse C l) seq_of_tree"

text \<open>
  The event fits its types and the libraries keep their word for it: its time and its tree are
  read back from their text, which is a single line that is not blank.
\<close>

definition writable :: "journal_codec \<Rightarrow> journal_event \<Rightarrow> bool" where
  "writable C e \<longleftrightarrow> event_in_range e \<and> data_finite (je_data e) \<and>
     jc_parse_ts C (jc_show_ts C (je_ts e)) = Some (je_ts e) \<and>
     jc_parse C (event_line C e) = Some (event_tree (jc_show_ts C) e) \<and>
     one_line (event_line C e) \<and> \<not> blank (event_line C e)"

interpretation jl: line_log "event_line C" "event_of_line C" "writable C" for C
  by unfold_locales (auto simp: writable_def event_of_line_def envelope_roundtrip)

lemma seq_of_written: "writable C e \<Longrightarrow> seq_of_line C (event_line C e) = Some (je_seq e)"
  by (auto simp: writable_def seq_of_line_def event_in_range_def seq_of_event_tree)

section \<open>The writer\<close>

datatype io_error =
    NotFound
  | AlreadyExists
  | InvalidInput str
  | InvalidData nat
  | OtherIo str
  | IoPanic

record journal_writer =
  jw_run_id :: str
  jw_attempt :: nat
  jw_next_seq :: nat
  jw_last_sync :: time

text \<open>\<open>next_seq\<close> is a \<open>u64\<close>: one past its maximum is a panic in a debug build and 0 in a release build.\<close>

definition bump :: "build_profile \<Rightarrow> nat \<Rightarrow> nat option" where
  "bump profile n =
     (if n < u64_max then Some (n + 1) else case profile of Debug \<Rightarrow> None | Release \<Rightarrow> Some 0)"

definition last_seq :: "journal_codec \<Rightarrow> str \<Rightarrow> nat" where
  "last_seq C complete = foldr max (List.map_filter (seq_of_line C) (split_lines complete)) 0"

definition FSYNC_INTERVAL :: time where "FSYNC_INTERVAL = 5000000000"

text \<open>
  \<open>JournalWriter::open\<close> on the bytes of the file, empty for a new one: a torn last line is cut
  off. \<open>fault\<close> is an error of the file system before the file is changed.
\<close>

definition open_journal ::
  "build_profile \<Rightarrow> journal_codec \<Rightarrow> io_error option \<Rightarrow> time \<Rightarrow> str \<Rightarrow> nat \<Rightarrow> str
   \<Rightarrow> (io_error + journal_writer) \<times> str" where
  "open_journal profile C fault now run_id att file =
     (case fault of
        Some e \<Rightarrow> (Inl e, file)
      | None \<Rightarrow>
          (let complete = complete_part file
           in case bump profile (last_seq C complete) of
                None \<Rightarrow> (Inl IoPanic, complete)
              | Some n \<Rightarrow>
                  (Inr \<lparr>jw_run_id = run_id, jw_attempt = att, jw_next_seq = n, jw_last_sync = now\<rparr>,
                   complete)))"

text \<open>
  How the disk treats one append: the write stops with an error after some bytes, or the sync
  that follows it fails.
\<close>

datatype disk = DiskOk | WriteStops nat io_error | SyncFails io_error

definition append_event ::
  "build_profile \<Rightarrow> journal_codec \<Rightarrow> disk \<Rightarrow> time \<Rightarrow> time \<Rightarrow> event_data \<Rightarrow> journal_writer \<Rightarrow> str
   \<Rightarrow> (io_error + journal_event) \<times> journal_writer \<times> str" where
  "append_event profile C disk now clock d w file =
     (let event = journal_event_new (jw_next_seq w) now (jw_run_id w) (jw_attempt w) d;
          line = event_line C event @ [NL]
      in case disk of
           WriteStops k e \<Rightarrow> (Inl e, w, file @ take k line)
         | _ \<Rightarrow>
             (case bump profile (jw_next_seq w) of
                None \<Rightarrow> (Inl IoPanic, w, file @ line)
              | Some n \<Rightarrow>
                  (let w' = w\<lparr>jw_next_seq := n\<rparr>
                   in if needs_fsync (je_data event) \<or> FSYNC_INTERVAL \<le> clock - jw_last_sync w
                      then (case disk of
                              SyncFails e \<Rightarrow> (Inl e, w', file @ line)
                            | _ \<Rightarrow> (Inr event, w'\<lparr>jw_last_sync := clock\<rparr>, file @ line))
                      else (Inr event, w', file @ line))))"

text \<open>\<open>JournalWriter::sync\<close>.\<close>

definition sync_journal :: "io_error option \<Rightarrow> time \<Rightarrow> journal_writer \<Rightarrow> (io_error + unit) \<times> journal_writer" where
  "sync_journal fault clock w =
     (case fault of Some e \<Rightarrow> (Inl e, w) | None \<Rightarrow> (Inr (), w\<lparr>jw_last_sync := clock\<rparr>))"

section \<open>Reading a whole journal\<close>

fun read_lines :: "journal_codec \<Rightarrow> nat \<Rightarrow> str list \<Rightarrow> io_error + journal_event list" where
  "read_lines C i [] = Inr []"
| "read_lines C i (l # ls) =
     (if blank l then read_lines C (i + 1) ls
      else case event_of_line C l of
             None \<Rightarrow> Inl (InvalidData (i + 1))
           | Some e \<Rightarrow> rbind (read_lines C (i + 1) ls) (\<lambda>es. Inr (e # es)))"

definition read_all_raw :: "journal_codec \<Rightarrow> str option \<Rightarrow> io_error + journal_event list" where
  "read_all_raw C file =
     (case file of None \<Rightarrow> Inl NotFound | Some bytes \<Rightarrow> read_lines C 0 (split_lines (complete_part bytes)))"

definition read_all :: "journal_codec \<Rightarrow> str option \<Rightarrow> io_error + journal_event list" where
  "read_all C file = rbind (read_all_raw C file) (\<lambda>es. Inr (filter (\<lambda>e. \<not> is_unknown (je_data e)) es))"

section \<open>Following a journal\<close>

text \<open>
  \<open>read_complete_lines\<close> on the length \<open>len\<close> it first saw, the bytes \<open>buf\<close> it then read from
  \<open>committed\<close> on, and the file at the time of the second read that checks them.
\<close>

definition clamp :: "nat \<Rightarrow> nat \<Rightarrow> nat" where
  "clamp len committed = (if len < committed then len else committed)"

definition unchanged :: "str \<Rightarrow> nat \<Rightarrow> str \<Rightarrow> bool" where
  "unchanged file offset expected \<longleftrightarrow> take (length expected) (drop offset file) = expected"

definition read_complete_lines :: "nat \<Rightarrow> str \<Rightarrow> str \<Rightarrow> nat \<Rightarrow> str list \<times> nat" where
  "read_complete_lines len buf file committed =
     (let c = clamp len committed
      in if len = c then ([], c)
         else let b = complete_part buf
              in if b = [] \<or> \<not> unchanged file c b then ([], c)
                 else (filter (\<lambda>l. \<not> blank l) (split_lines (butlast b)), c + length b))"

text \<open>One round of \<open>tail_with_interval\<close>: what it sends, and the new offset.\<close>

definition tail_round :: "journal_codec \<Rightarrow> nat \<Rightarrow> str \<Rightarrow> str \<Rightarrow> nat \<Rightarrow> journal_event list \<times> nat" where
  "tail_round C len buf file committed =
     (let (lines, c) = read_complete_lines len buf file committed
      in (filter (\<lambda>e. \<not> is_unknown (je_data e)) (List.map_filter (event_of_line C) lines), c))"

section \<open>Everything that happens to a journal\<close>

text \<open>
  A journal is its file, the writer of the process that has it open, and the events that were
  written: opening it (the lock of the run makes the writer the only one), appending with or
  without a failing sync, a write refused as a whole, and the death of the process at any byte of
  a write. Sequence numbers stay below the maximum of a \<open>u64\<close>.
\<close>

type_synonym journal_state = "str \<times> journal_writer option \<times> journal_event list"

definition next_event :: "journal_writer \<Rightarrow> time \<Rightarrow> event_data \<Rightarrow> journal_event" where
  "next_event w now d = journal_event_new (jw_next_seq w) now (jw_run_id w) (jw_attempt w) d"

inductive journal_step :: "build_profile \<Rightarrow> journal_codec \<Rightarrow> journal_state \<Rightarrow> journal_state \<Rightarrow> bool"
  for profile C where
  opened: "open_journal profile C None now run_id att f = (Inr w', f') \<Longrightarrow>
     journal_step profile C (f, w, es) (f', Some w', es)"
| appended: "append_event profile C disk now clock d w f = (res, w', f') \<Longrightarrow>
     (\<forall>k e. disk \<noteq> WriteStops k e) \<Longrightarrow> writable C (next_event w now d) \<Longrightarrow>
     jw_next_seq w < u64_max \<Longrightarrow>
     journal_step profile C (f, Some w, es) (f', Some w', es @ [next_event w now d])"
| refused: "append_event profile C (WriteStops 0 e) now clock d w f = (res, w', f') \<Longrightarrow>
     journal_step profile C (f, Some w, es) (f', Some w', es)"
| killed_writing: "append_event profile C (WriteStops k e) now clock d w f = (res, w', f') \<Longrightarrow>
     writable C (next_event w now d) \<Longrightarrow> k \<le> length (event_line C (next_event w now d)) \<Longrightarrow>
     journal_step profile C (f, Some w, es) (f', None, es)"
| killed_after: "append_event profile C DiskOk now clock d w f = (res, w', f') \<Longrightarrow>
     writable C (next_event w now d) \<Longrightarrow> jw_next_seq w < u64_max \<Longrightarrow>
     journal_step profile C (f, Some w, es) (f', None, es @ [next_event w now d])"
| killed: "journal_step profile C (f, w, es) (f, None, es)"

definition journal_inv :: "journal_codec \<Rightarrow> journal_state \<Rightarrow> bool" where
  "journal_inv C = (\<lambda>(f, w, es).
     list_all (writable C) es \<and> map je_seq es = [1 ..< Suc (length es)] \<and> length es < u64_max \<and>
     (\<exists>r. f = jl.log_text C es @ r \<and> one_line r \<and>
        (case w of None \<Rightarrow> True | Some v \<Rightarrow> r = [] \<and> jw_next_seq v = Suc (length es))))"

lemma last_seq_log:
  assumes "jc_parse C [] = None" "list_all (writable C) es" "map je_seq es = [1 ..< Suc (length es)]"
  shows "last_seq C (jl.log_text C es) = length es"
proof -
  have "seq_of_line C [] = None" using assms(1) by (simp add: seq_of_line_def)
  then have "List.map_filter (seq_of_line C) (map (event_line C) es @ [[]]) = map je_seq es"
    using assms(2) by (induction es) (auto simp: map_filter_simps seq_of_written)
  moreover have "foldr max [1 ..< Suc n] 0 = n" for n
  proof (induction n)
    case (Suc n)
    have "foldr max xs (Suc n) = max (Suc n) (foldr max xs 0)" for xs
      by (induction xs) auto
    with Suc show ?case by simp
  qed simp
  ultimately show ?thesis using assms(2,3) by (simp add: last_seq_def jl.split_log)
qed

lemma append_kept:
  assumes "append_event profile C disk now clock d w f = (res, w', f')" "\<forall>k e. disk \<noteq> WriteStops k e"
    and "jw_next_seq w < u64_max"
  shows "f' = f @ event_line C (next_event w now d) @ [NL]" "jw_next_seq w' = Suc (jw_next_seq w)"
  using assms by (auto simp: append_event_def next_event_def bump_def Let_def split: disk.splits if_splits)

lemma append_stopped:
  "append_event profile C (WriteStops k e) now clock d w f = (res, w', f') \<Longrightarrow>
   w' = w \<and> f' = f @ take k (event_line C (next_event w now d) @ [NL])"
  by (auto simp: append_event_def next_event_def Let_def)

lemma journal_inv_append:
  assumes "journal_inv C (f, Some w, es)" "writable C (next_event w now d)" "jw_next_seq w < u64_max"
    and "v = None \<or> (\<exists>w'. v = Some w' \<and> jw_next_seq w' = Suc (jw_next_seq w))"
  shows "journal_inv C (f @ event_line C (next_event w now d) @ [NL], v, es @ [next_event w now d])"
  using assms by (auto simp: journal_inv_def next_event_def journal_event_new_def split: option.splits)

lemma journal_step_inv:
  assumes "journal_step profile C s t" "jc_parse C [] = None" "journal_inv C s"
  shows "journal_inv C t"
  using assms(1)
proof cases
  case (opened now run_id att f w' f' w es)
  with assms(3) obtain r where r: "f = jl.log_text C es @ r" "one_line r"
    and es: "list_all (writable C) es" "map je_seq es = [1 ..< Suc (length es)]" "length es < u64_max"
    by (auto simp: journal_inv_def)
  then have f: "complete_part f = jl.log_text C es" by (simp add: jl.complete_log)
  have "last_seq C (complete_part f) = length es" using f es assms(2) by (simp add: last_seq_log)
  with opened es f show ?thesis
    by (auto simp: journal_inv_def open_journal_def Let_def bump_def)
next
  case (appended disk now clock d w f res w' f' es)
  then show ?thesis using append_kept [OF appended(3,4,6)] journal_inv_append assms(3) by simp
next
  case (refused e now clock d w f res w' f' es)
  then show ?thesis using append_stopped [OF refused(3)] assms(3) by simp
next
  case (killed_writing k e now clock d w f res w' f' es)
  then have "f' = f @ take k (event_line C (next_event w now d))" using append_stopped by fastforce
  moreover have "one_line (take k (event_line C (next_event w now d)))"
    using killed_writing(4) by (auto simp: writable_def)
  ultimately show ?thesis using killed_writing assms(3) by (auto simp: journal_inv_def)
next
  case (killed_after now clock d w f res w' f' es)
  then show ?thesis using append_kept [OF killed_after(3) _ killed_after(5)] journal_inv_append assms(3) by simp
next
  case (killed f w es)
  with assms(3) show ?thesis by (auto simp: journal_inv_def)
qed

definition new_journal :: journal_state where "new_journal = ([], None, [])"

lemma journal_inv_new [simp]: "journal_inv C new_journal"
  by (simp add: new_journal_def journal_inv_def u64_max_def)

lemma journal_reach_inv:
  assumes "(journal_step profile C)\<^sup>*\<^sup>* new_journal s" "jc_parse C [] = None"
  shows "journal_inv C s"
  using assms(1) by (induction rule: rtranclp_induct) (simp, rule journal_step_inv [OF _ assms(2)])

lemma read_lines_written:
  "list_all (writable C) es \<Longrightarrow> read_lines C i (map (event_line C) es @ [[]]) = Inr es"
  by (induction es arbitrary: i) (auto simp: blank_def jl.dec_enc jl.enc_not_blank[unfolded blank_def])

lemma read_all_raw_inv:
  assumes "journal_inv C (f, w, es)"
  shows "read_all_raw C (Some f) = Inr es"
  using assms by (auto simp: journal_inv_def read_all_raw_def jl.complete_log jl.split_log read_lines_written)


section \<open>Following it meanwhile\<close>

text \<open>
  The follower has its offset, the length it saw when the round under way began, and what it has
  sent. Between the two ends of a round the journal may change in any way, and the round may have
  read any bytes at all.
\<close>

record follower =
  fl_committed :: nat
  fl_len :: "nat option"
  fl_sent :: "journal_event list"

definition new_follower :: follower where
  "new_follower = \<lparr>fl_committed = 0, fl_len = None, fl_sent = []\<rparr>"

inductive follow_step ::
  "build_profile \<Rightarrow> journal_codec \<Rightarrow> journal_state \<times> follower \<Rightarrow> journal_state \<times> follower \<Rightarrow> bool"
  for profile C where
  journal: "journal_step profile C s t \<Longrightarrow> follow_step profile C (s, fo) (t, fo)"
| look: "follow_step profile C ((f, w, es), fo) ((f, w, es), fo\<lparr>fl_len := Some (length f)\<rparr>)"
| round: "fl_len fo = Some n \<Longrightarrow> tail_round C n buf f (fl_committed fo) = (sent, c) \<Longrightarrow>
     follow_step profile C ((f, w, es), fo)
       ((f, w, es), \<lparr>fl_committed = c, fl_len = None, fl_sent = fl_sent fo @ sent\<rparr>)"
| failed: "follow_step profile C (s, fo) (s, fo\<lparr>fl_len := None\<rparr>)"

definition known :: "journal_event list \<Rightarrow> journal_event list" where
  "known es = filter (\<lambda>e. \<not> is_unknown (je_data e)) es"

definition follow_inv :: "journal_codec \<Rightarrow> journal_state \<times> follower \<Rightarrow> bool" where
  "follow_inv C = (\<lambda>((f, w, es), fo).
     journal_inv C (f, w, es) \<and>
     (\<exists>m \<le> length es. fl_sent fo = known (take m es) \<and> fl_committed fo = length (jl.log_text C (take m es))) \<and>
     pred_option (\<lambda>n. fl_committed fo \<le> n) (fl_len fo))"

lemma known_Nil [simp]: "known [] = []"
  by (simp add: known_def)

lemma known_append [simp]: "known (xs @ ys) = known xs @ known ys"
  by (simp add: known_def)

lemma split_butlast_flat: "list_all one_line ls \<Longrightarrow> ls \<noteq> [] \<Longrightarrow> split_lines (butlast (flat ls)) = ls"
proof (induction ls)
  case (Cons l ls)
  then show ?case
    by (cases ls) (auto simp: butlast_append split_lines_torn split_lines_line)
qed simp

lemma complete_part_idem [simp]: "complete_part (complete_part b) = complete_part b"
  using file_lines [of b] by auto

lemma tail_lines:
  assumes "list_all (writable C) es" "b = jl.log_text C es" "b \<noteq> []"
  shows "filter (\<lambda>l. \<not> blank l) (split_lines (butlast b)) = map (event_line C) es"
proof -
  have "es \<noteq> []" using assms by auto
  then have "split_lines (butlast b) = map (event_line C) es"
    using assms(1,2) jl.log_lines [OF assms(1)] by (simp add: jl.log_text_def split_butlast_flat)
  then show ?thesis using assms(1) jl.enc_not_blank by (auto simp: filter_id_conv list_all_iff)
qed

lemma journal_file:
  assumes "journal_inv C (f, w, es)"
  obtains r where "f = jl.log_text C es @ r" "one_line r" "list_all (writable C) es"
  using assms by (auto simp: journal_inv_def)

lemma take_more: "m \<le> k \<Longrightarrow> take m es @ take (k - m) (drop m es) = take k es"
  using take_add [of m "k - m" es] by simp

lemma tail_round_exact:
  assumes "journal_inv C (f, w, es)" "m \<le> length es" "c = length (jl.log_text C (take m es))" "c \<le> n"
    and "tail_round C n buf f c = (sent, c')"
  shows "\<exists>k \<le> length es. m \<le> k \<and> sent = known (take (k - m) (drop m es)) \<and> c' = length (jl.log_text C (take k es))"
proof (cases "n = c \<or> complete_part buf = [] \<or> \<not> unchanged f c (complete_part buf)")
  case True
  with assms have "sent = [] \<and> c' = c"
    by (auto simp: tail_round_def read_complete_lines_def clamp_def Let_def map_filter_simps split: if_splits)
  with assms(2,3) show ?thesis by (intro exI [of _ m]) (simp add: known_def)
next
  case False
  define b where "b = complete_part buf"
  from False assms have r: "sent = known (List.map_filter (event_of_line C) (filter (\<lambda>l. \<not> blank l) (split_lines (butlast b))))"
    "c' = c + length b"
    by (auto simp: tail_round_def read_complete_lines_def clamp_def Let_def b_def known_def split: if_splits)
  obtain t where f: "f = jl.log_text C es @ t" "one_line t" "list_all (writable C) es"
    using assms(1) by (rule journal_file)
  have "drop c f = b @ drop (length b) (drop c f)"
    using False append_take_drop_id [of "length b" "drop c f"] by (simp add: unchanged_def b_def del: append_take_drop_id)
  then obtain k where k: "m \<le> k" "k \<le> length es" "b = jl.log_text C (take (k - m) (drop m es))"
    "jl.log_text C (take m es) @ b = jl.log_text C (take k es)"
    using jl.log_segment [OF f(3,2), of b m "drop (length b) (drop c f)"] assms(2,3) f(1) by (auto simp: b_def)
  have w: "list_all (writable C) (take (k - m) (drop m es))"
    using f(3) by (auto simp: list_all_iff dest!: in_set_takeD in_set_dropD)
  have "sent = known (take (k - m) (drop m es))"
    using r(1) tail_lines [OF w k(3)] jl.skip_log [OF w] False by (simp add: b_def)
  moreover have "c' = length (jl.log_text C (take k es))"
    using k(4) r(2) assms(3) by (metis length_append)
  ultimately show ?thesis using k by blast
qed

lemma journal_step_grows:
  assumes "journal_step profile C (f, w, es) (f', w', es')"
  shows "\<exists>new. es' = es @ new"
  using assms by cases auto

lemma follow_step_inv:
  assumes "follow_step profile C x y" "jc_parse C [] = None" "follow_inv C x"
  shows "follow_inv C y"
  using assms(1)
proof cases
  case (journal s t fo)
  obtain f w es f' w' es' where st: "s = (f, w, es)" "t = (f', w', es')" by (cases s; cases t) auto
  then obtain new where "es' = es @ new" using journal_step_grows journal by blast
  moreover have "journal_inv C t" using journal_step_inv journal assms st by (auto simp: follow_inv_def)
  moreover from assms(3) obtain m where "m \<le> length es" "fl_sent fo = known (take m es)"
    "fl_committed fo = length (jl.log_text C (take m es))" "pred_option (\<lambda>n. fl_committed fo \<le> n) (fl_len fo)"
    unfolding journal st by (auto simp: follow_inv_def)
  ultimately show ?thesis unfolding journal st follow_inv_def by (auto intro!: exI [of _ m])
next
  case (look f w es fo)
  with assms(3) obtain m where m: "m \<le> length es" "fl_committed fo = length (jl.log_text C (take m es))"
    by (auto simp: follow_inv_def)
  obtain r where "f = jl.log_text C es @ r"
    using assms(3) look by (auto simp: follow_inv_def intro: journal_file)
  then have "fl_committed fo \<le> length f" using jl.log_text_mono [OF m(1), of C es] m(2) by simp
  with look assms(3) show ?thesis by (auto simp: follow_inv_def)
next
  case (round fo n buf f sent c w es)
  with assms(3) obtain m where m: "m \<le> length es" "fl_sent fo = known (take m es)"
    "fl_committed fo = length (jl.log_text C (take m es))" "fl_committed fo \<le> n" "journal_inv C (f, w, es)"
    by (auto simp: follow_inv_def)
  from tail_round_exact [OF m(5,1,3,4) round(4)] obtain k where k: "k \<le> length es" "m \<le> k"
    "sent = known (take (k - m) (drop m es))" "c = length (jl.log_text C (take k es))" by blast
  have "fl_sent fo @ sent = known (take k es)"
    using m(2) k(2,3) take_more [of m k es] by (metis known_append)
  with round k m(5) show ?thesis by (auto simp: follow_inv_def)
next
  case (failed s fo)
  with assms(3) show ?thesis by (auto simp: follow_inv_def)
qed

lemma follow_reach_inv:
  assumes "(follow_step profile C)\<^sup>*\<^sup>* (new_journal, new_follower) x" "jc_parse C [] = None"
  shows "follow_inv C x"
  using assms(1)
proof (induction rule: rtranclp_induct)
  case base
  show ?case using journal_inv_new [of C] by (simp add: follow_inv_def new_journal_def new_follower_def known_def)
qed (rule follow_step_inv [OF _ assms(2)])

lemma quiet_round:
  assumes "follow_inv C ((f, w, es), fo)"
    and "tail_round C (length f) (drop (fl_committed fo) f) f (fl_committed fo) = (sent, c)"
  shows "fl_sent fo @ sent = known es"
proof -
  from assms(1) obtain m where m: "m \<le> length es" "fl_sent fo = known (take m es)"
    "fl_committed fo = length (jl.log_text C (take m es))" "journal_inv C (f, w, es)"
    by (auto simp: follow_inv_def)
  obtain r where f: "f = jl.log_text C es @ r" "one_line r" "list_all (writable C) es"
    using m(4) by (rule journal_file)
  have "jl.log_text C es = jl.log_text C (take m es) @ jl.log_text C (drop m es)"
    using flat_take_drop [of m "map (event_line C) es"] by (simp add: jl.log_text_def take_map drop_map)
  then have d: "drop (fl_committed fo) f = jl.log_text C (drop m es) @ r"
    and n: "length f = fl_committed fo + length (jl.log_text C (drop m es)) + length r"
    using f(1) m(3) by simp_all
  have b: "complete_part (drop (fl_committed fo) f) = jl.log_text C (drop m es)"
    using d f(2) jl.complete_log by simp
  have w: "list_all (writable C) (drop m es)"
    using f(3) by (auto simp: list_all_iff dest!: in_set_dropD)
  show ?thesis
  proof (cases "drop m es")
    case Nil
    then have "sent = []"
      using assms(2) b by (auto simp: tail_round_def read_complete_lines_def clamp_def map_filter_simps Let_def split: if_splits)
    with Nil m show ?thesis by simp
  next
    case (Cons e rest)
    then have ne: "jl.log_text C (drop m es) \<noteq> []" by (simp add: jl.log_text_def)
    moreover have "unchanged f (fl_committed fo) (jl.log_text C (drop m es))"
      using d by (simp add: unchanged_def)
    ultimately have "sent = known (List.map_filter (event_of_line C)
        (filter (\<lambda>l. \<not> blank l) (split_lines (butlast (jl.log_text C (drop m es))))))"
      using assms(2) b n by (auto simp: tail_round_def read_complete_lines_def clamp_def Let_def known_def split: if_splits)
    then have "sent = known (drop m es)" using tail_lines [OF w refl ne] jl.skip_log [OF w] by simp
    then show ?thesis using m(2) known_append [of "take m es" "drop m es"] by simp
  qed
qed

section \<open>Properties of the journal\<close>

text \<open>
  Property C10. However often the process is killed in the middle of a write and the journal is opened
  again, reading it gives exactly the events whose lines were written, in order, numbered
  1, 2, 3, ... across all attempts, and the next event gets the next number.
\<close>

theorem journal_exact:
  assumes "(journal_step profile C)\<^sup>*\<^sup>* new_journal (f, w, es)" "jc_parse C [] = None"
  shows "read_all_raw C (Some f) = Inr es \<and> map je_seq es = [1 ..< Suc (length es)] \<and>
     (\<forall>v \<in> set_option w. jw_next_seq v = Suc (length es))"
  using journal_reach_inv [OF assms] read_all_raw_inv by (auto simp: journal_inv_def)

text \<open>
  Property C11. Whatever bytes the rounds of a follower read while a journal is written, torn and
  repaired, what it has sent is the known events of a prefix of the journal, in order and once each;
  the next round that sees the file unchanged sends all the others.
\<close>

theorem follower_exact:
  assumes "(follow_step profile C)\<^sup>*\<^sup>* (new_journal, new_follower) ((f, w, es), fo)" "jc_parse C [] = None"
  shows "\<exists>m \<le> length es. fl_sent fo = known (take m es) \<and>
     fl_sent fo @ fst (tail_round C (length f) (drop (fl_committed fo) f) f (fl_committed fo)) = known es"
proof -
  have i: "follow_inv C ((f, w, es), fo)" using assms by (rule follow_reach_inv)
  then have "fl_sent fo @ fst (tail_round C (length f) (drop (fl_committed fo) f) f (fl_committed fo)) = known es"
    by (rule quiet_round) (rule prod.collapse [symmetric])
  with i show ?thesis by (auto simp: follow_inv_def)
qed

text \<open>A concrete journal: killed in the middle of its first line, opened again, one event.\<close>

definition demo_event :: journal_event where
  "demo_event = journal_event_new 1 5000000 ''r'' 2 (JHeartbeat 7)"

definition demo_codec :: journal_codec where
  "demo_codec =
     \<lparr>jc_show = \<lambda>_. ''{}'', jc_parse = \<lambda>s. if s = ''{}'' then Some (event_tree (\<lambda>_. ''t'') demo_event) else None,
      jc_show_ts = \<lambda>_. ''t'', jc_parse_ts = \<lambda>_. Some 5000000\<rparr>"

definition demo_writer :: "nat \<Rightarrow> journal_writer" where
  "demo_writer n = \<lparr>jw_run_id = ''r'', jw_attempt = 2, jw_next_seq = n, jw_last_sync = 0\<rparr>"

lemma demo_event_next: "next_event (demo_writer (Suc 0)) 5000000 (JHeartbeat 7) = demo_event"
  by (simp add: next_event_def demo_writer_def demo_event_def)

lemma demo_line: "event_line demo_codec e = ''{}''"
  by (simp add: event_line_def demo_codec_def)

lemma demo_writable: "writable demo_codec demo_event"
  by (simp add: writable_def demo_line one_line_def NL_def blank_def u8_ws_def)
     (simp add: demo_codec_def demo_event_def event_in_range_def journal_event_new_def u64_max_def
       u32_max_def trunc_ms_def)

lemma demo_open:
  assumes "one_line f"
  shows "journal_step Debug demo_codec (f, w, []) ([], Some (demo_writer (Suc 0)), [])"
proof (rule journal_step.opened)
  have "complete_part f = []" using complete_part_torn [OF assms, of "[]"] by (simp add: complete_part_def)
  then show "open_journal Debug demo_codec None 0 ''r'' 2 f = (Inr (demo_writer (Suc 0)), [])"
    by (simp add: open_journal_def last_seq_def seq_of_line_def demo_codec_def map_filter_simps bump_def
        u64_max_def demo_writer_def)
qed

lemma demo_killed:
  "journal_step Debug demo_codec ([], Some (demo_writer (Suc 0)), []) (''{'', None, [])"
proof (rule journal_step.killed_writing)
  show "append_event Debug demo_codec (WriteStops 1 NotFound) 5000000 0 (JHeartbeat 7) (demo_writer (Suc 0)) [] =
      (Inl NotFound, demo_writer (Suc 0), ''{'')"
    by (simp add: append_event_def demo_line)
qed (simp_all add: demo_event_next demo_writable demo_line)

lemma demo_appended:
  "journal_step Debug demo_codec ([], Some (demo_writer (Suc 0)), []) (''{}'' @ [NL], Some (demo_writer 2), [demo_event])"
proof -
  have "append_event Debug demo_codec DiskOk 5000000 0 (JHeartbeat 7) (demo_writer (Suc 0)) [] =
      (Inr demo_event, demo_writer 2, ''{}'' @ [NL])"
    by (simp add: append_event_def demo_line bump_def u64_max_def FSYNC_INTERVAL_def demo_event_def
        journal_event_new_def demo_writer_def)
  from journal_step.appended [OF this, of "[]"] show ?thesis
    by (simp add: demo_event_next demo_writable) (simp add: demo_writer_def u64_max_def)
qed

lemma demo_parse: "jc_parse demo_codec [] = None"
  by (simp add: demo_codec_def)

lemma demo_run:
  "(journal_step Debug demo_codec)\<^sup>*\<^sup>* new_journal (''{}'' @ [NL], Some (demo_writer 2), [demo_event])"
proof -
  have "(journal_step Debug demo_codec)\<^sup>*\<^sup>* new_journal ([], Some (demo_writer (Suc 0)), [])"
    unfolding new_journal_def by (rule r_into_rtranclp, rule demo_open) simp
  also note r_into_rtranclp [of "journal_step Debug demo_codec", OF demo_killed]
  also have "(journal_step Debug demo_codec)\<^sup>*\<^sup>* (''{'', None, []) ([], Some (demo_writer (Suc 0)), [])"
    by (rule r_into_rtranclp, rule demo_open) (simp add: one_line_def NL_def)
  also note r_into_rtranclp [of "journal_step Debug demo_codec", OF demo_appended]
  finally show ?thesis .
qed

theorem journal_exact_witness:
  "read_all_raw demo_codec (Some (''{}'' @ [NL])) = Inr [demo_event] \<and> map je_seq [demo_event] = [1 ..< 2]"
  using journal_exact [OF demo_run demo_parse] by (simp add: numeral_2_eq_2)

lemma demo_follow:
  "(follow_step Debug demo_codec)\<^sup>*\<^sup>* (new_journal, new_follower)
     ((''{}'' @ [NL], Some (demo_writer 2), [demo_event]), new_follower)"
  using demo_run
proof (induction rule: rtranclp_induct)
  case (step s t)
  then show ?case by (auto intro: rtranclp.rtrancl_into_rtrancl follow_step.journal)
qed simp

theorem follower_exact_witness:
  "fst (tail_round demo_codec 3 (''{}'' @ [NL]) (''{}'' @ [NL]) 0) = known [demo_event]"
  using follower_exact [OF demo_follow demo_parse] by (auto simp: new_follower_def numeral_3_eq_3)

section \<open>A write that stops half way\<close>

text \<open>
  A write that fails after some bytes leaves them in the file, and the process goes on: the line
  of the next event is glued to them. When the two together are not an event, which a JSON text
  followed by another never is, the journal can no longer be read, and opening it again does not repair it:
  the glued line is complete.
\<close>

theorem half_write_breaks_journal:
  assumes "journal_inv C (f, Some w, es)"
    and "append_event profile C (WriteStops k err) now clock d w f = (r1, w1, f1)"
    and "append_event profile C DiskOk now' clock' d' w1 f1 = (Inr e2, w2, f2)"
    and "writable C (next_event w now d)" "writable C (next_event w now' d')" "jw_next_seq w < u64_max"
    and "k \<le> length (event_line C (next_event w now d))"
    and "event_of_line C (take k (event_line C (next_event w now d)) @ event_line C (next_event w now' d')) = None"
  shows "read_all_raw C (Some f2) = Inl (InvalidData (Suc (length es))) \<and> complete_part f2 = f2"
proof -
  let ?glued = "take k (event_line C (next_event w now d)) @ event_line C (next_event w now' d')"
  have f: "f = jl.log_text C es" and w: "list_all (writable C) es"
    using assms(1) by (auto simp: journal_inv_def)
  have "w1 = w" "f1 = f @ take k (event_line C (next_event w now d))"
    using append_stopped [OF assms(2)] assms(7) by simp_all
  then have f2: "f2 = flat (map (event_line C) es @ [?glued])"
    using append_kept(1) [OF assms(3)] assms(6) f by (simp add: jl.log_text_def)
  have nb: "\<not> blank ?glued" using jl.enc_not_blank [OF assms(5)] by (simp add: blank_def)
  have "list_all one_line (map (event_line C) es @ [?glued])"
    using jl.log_lines [OF w] jl.enc_line [OF assms(4)] jl.enc_line [OF assms(5)] one_line_take
    by (auto simp: one_line_def dest: in_set_takeD)
  then have "split_lines f2 = map (event_line C) es @ [?glued, []]"
    unfolding f2 by (simp only: split_lines_flat) simp
  moreover have "list_all (writable C) es \<Longrightarrow>
      read_lines C i (map (event_line C) es @ [?glued, []]) = Inl (InvalidData (Suc (i + length es)))" for i
    using nb assms(8) by (induction es arbitrary: i) (auto simp: jl.dec_enc jl.enc_not_blank)
  moreover have c: "complete_part f2 = f2" unfolding f2 by (rule complete_part_flat_only)
  ultimately show ?thesis using w by (simp add: read_all_raw_def c)
qed
end
