(* ===== verification/Journal_Files.thy ===== *)
theory Journal_Files
  imports Journal
begin

text \<open>
  The other files of a run: the layout of its folder (\<open>layout.rs\<close>), the status derived from its
  journal (\<open>status.rs\<close>), the machine-wide Run Index (\<open>index.rs\<close>) and the answer files of human
  gates (\<open>answer.rs\<close>), all of \<open>crates/attractor-journal\<close>.
\<close>

section \<open>Paths\<close>

text \<open>
  A path is the list of its components; an absolute one begins with the component \<open>/\<close>. Joining
  follows \<open>Path::join\<close>: empty and \<open>.\<close> components vanish, an absolute name replaces the path.
\<close>

type_synonym path = "str list"

abbreviation slash :: str where "slash \<equiv> ''/''"

definition components :: "str \<Rightarrow> path" where
  "components s = filter (\<lambda>c. c \<noteq> [] \<and> c \<noteq> ''.'') (split_on slash s)"

definition path_of :: "str \<Rightarrow> path" where
  "path_of s = (if starts_with slash s then slash # components s else components s)"

definition join_name :: "path \<Rightarrow> str \<Rightarrow> path" where
  "join_name p s = (if starts_with slash s then path_of s else p @ components s)"

definition path_parent :: "path \<Rightarrow> path option" where
  "path_parent p = (if p = [] \<or> p = [slash] then None else Some (butlast p))"

definition path_file_name :: "path \<Rightarrow> str option" where
  "path_file_name p = (if p = [] \<or> p = [slash] \<or> last p = ''..'' then None else Some (last p))"

text \<open>A name without a slash that is not empty or a dot is one component.\<close>

definition plain_name :: "str \<Rightarrow> bool" where
  "plain_name s \<longleftrightarrow> s \<noteq> [] \<and> s \<noteq> ''.'' \<and> CHR ''/'' \<notin> set s"

lemma split_plain: "CHR ''/'' \<notin> set s \<Longrightarrow> split_on slash s = [s]"
proof -
  assume s: "CHR ''/'' \<notin> set s"
  have "contains_str slash s = False" using s by (induction s) (auto simp: starts_with_def)
  then show ?thesis using split_go_absent [of slash s "[]"] by (simp add: split_on_def)
qed

lemma join_plain: "plain_name s \<Longrightarrow> join_name p s = p @ [s]"
  by (cases s) (auto simp: plain_name_def join_name_def components_def split_plain starts_with_def)

section \<open>Run folder\<close>

definition RUNS_DIR :: str where "RUNS_DIR = ''runs''"
definition RUN_JSON :: str where "RUN_JSON = ''run.json''"
definition EVENTS_FILE :: str where "EVENTS_FILE = ''events.jsonl''"
definition CONSOLE_LOG :: str where "CONSOLE_LOG = ''console.log''"
definition TRANSCRIPTS_DIR :: str where "TRANSCRIPTS_DIR = ''transcripts''"
definition ANSWERS_DIR :: str where "ANSWERS_DIR = ''answers''"
definition CONTROL_DIR :: str where "CONTROL_DIR = ''control''"
definition STOP_FILE :: str where "STOP_FILE = ''stop''"
definition RUN_LOCK :: str where "RUN_LOCK = ''run.lock''"
definition CHECKPOINT_FILE :: str where "CHECKPOINT_FILE = ''checkpoint.json''"

definition transcript_rel_path :: "str \<Rightarrow> str" where
  "transcript_rel_path i = TRANSCRIPTS_DIR @ slash @ i @ ''.jsonl''"

text \<open>\<open>PipelineDir\<close> and \<open>RunDir\<close> wrap a path.\<close>

definition runs_dir :: "path \<Rightarrow> path" where "runs_dir p = join_name p RUNS_DIR"
definition run_lock :: "path \<Rightarrow> path" where "run_lock p = join_name p RUN_LOCK"
definition checkpoint_file :: "path \<Rightarrow> path" where "checkpoint_file p = join_name p CHECKPOINT_FILE"

text \<open>
  \<open>uuid\<close> is \<open>Uuid::try_parse\<close> with \<open>hyphenated\<close>: the canonical lower-case form of a UUID, and
  nothing for any other text.
\<close>

definition parse_run_id :: "(str \<Rightarrow> str option) \<Rightarrow> str \<Rightarrow> str option" where
  "parse_run_id uuid s = uuid s"

definition run_dir_of :: "(str \<Rightarrow> str option) \<Rightarrow> path \<Rightarrow> str \<Rightarrow> io_error + path" where
  "run_dir_of uuid p s =
     (case parse_run_id uuid s of
        None \<Rightarrow> Inl (InvalidInput s)
      | Some i \<Rightarrow> Inr (join_name (runs_dir p) i))"

definition pipeline_dir :: "path \<Rightarrow> path option" where
  "pipeline_dir r =
     (case path_parent r of
        None \<Rightarrow> None
      | Some runs \<Rightarrow>
          (case path_file_name runs of
             None \<Rightarrow> None
           | Some n \<Rightarrow> if n \<noteq> RUNS_DIR then None else path_parent runs))"

definition run_json :: "path \<Rightarrow> path" where "run_json r = join_name r RUN_JSON"
definition events_path :: "path \<Rightarrow> path" where "events_path r = join_name r EVENTS_FILE"
definition console_log :: "path \<Rightarrow> path" where "console_log r = join_name r CONSOLE_LOG"
definition transcripts_dir :: "path \<Rightarrow> path" where "transcripts_dir r = join_name r TRANSCRIPTS_DIR"
definition transcript_path :: "path \<Rightarrow> str \<Rightarrow> path" where
  "transcript_path r i = join_name r (transcript_rel_path i)"
definition answers_dir :: "path \<Rightarrow> path" where "answers_dir r = join_name r ANSWERS_DIR"
definition answer_path :: "path \<Rightarrow> str \<Rightarrow> path" where
  "answer_path r q = join_name (answers_dir r) (q @ ''.json'')"
definition control_stop :: "path \<Rightarrow> path" where
  "control_stop r = join_name (join_name r CONTROL_DIR) STOP_FILE"

lemma runs_dir_eq [simp]: "runs_dir p = p @ [''runs'']"
  unfolding runs_dir_def RUNS_DIR_def by (rule join_plain) (simp add: plain_name_def)

lemma answers_dir_eq [simp]: "answers_dir p = p @ [''answers'']"
  unfolding answers_dir_def ANSWERS_DIR_def by (rule join_plain) (simp add: plain_name_def)

section \<open>Question ids\<close>

definition MAX_QUESTION_ID_LEN :: nat where "MAX_QUESTION_ID_LEN = 128"

definition id_byte :: "char \<Rightarrow> bool" where
  "id_byte b \<longleftrightarrow> is_alnum b \<or> b = CHR ''_'' \<or> b = CHR ''-''"

definition is_valid_question_id :: "str \<Rightarrow> bool" where
  "is_valid_question_id i \<longleftrightarrow> i \<noteq> [] \<and> length i \<le> MAX_QUESTION_ID_LEN \<and> list_all id_byte i"

text \<open>
  The characters of a UTF-8 text are counted by their leading bytes; one that is not an ASCII
  letter, digit, \<open>_\<close> or \<open>-\<close> becomes one \<open>_\<close>.
\<close>

definition slug_chars :: "str \<Rightarrow> str" where
  "slug_chars node = map (\<lambda>c. if id_byte c then c else CHR ''_'') (filter lead_byte node)"

definition question_id_for :: "str \<Rightarrow> nat \<Rightarrow> str" where
  "question_id_for node n =
     (let suffix = ''-'' @ show_nat n;
          room = MAX_QUESTION_ID_LEN - length ''q-'' - length suffix
      in ''q-'' @ take room (slug_chars node) @ suffix)"

lemma show_nat_length: "n < 10 ^ k \<Longrightarrow> 0 < k \<Longrightarrow> length (show_nat n) \<le> k"
proof (induction n arbitrary: k rule: show_nat.induct)
  case (1 n)
  show ?case
  proof (cases "n < 10")
    case True
    with 1 show ?thesis by (subst show_nat.simps) simp
  next
    case False
    then obtain j where k: "k = Suc j" "0 < j" using 1(2,3)
      by (cases k; cases "k - 1") auto
    with 1(2) have "n div 10 < 10 ^ j" by (simp add: less_mult_imp_div_less mult.commute)
    with 1(1) [OF False this] k False show ?thesis by (subst show_nat.simps) simp
  qed
qed

lemma digit_id_byte: "is_digit c \<Longrightarrow> id_byte c"
  by (simp add: id_byte_def is_alnum_def)

lemma question_id_for_valid:
  assumes "n \<le> u32_max"
  shows "is_valid_question_id (question_id_for node n)"
proof -
  have "length (show_nat n) \<le> 10" using assms by (intro show_nat_length) (simp_all add: u32_max_def)
  moreover have "list_all id_byte (show_nat n)"
    using show_nat_digits [of n] by (auto simp: list_all_iff digit_id_byte)
  moreover have "list_all id_byte (slug_chars node)"
    by (auto simp: slug_chars_def list_all_iff id_byte_def)
  moreover have "id_byte (CHR ''q'')" "id_byte (CHR ''-'')"
    by (simp_all add: id_byte_def is_alnum_def is_alpha_def is_upper_def is_digit_def)
  ultimately show ?thesis
    by (auto simp: is_valid_question_id_def question_id_for_def MAX_QUESTION_ID_LEN_def Let_def
        list_all_iff dest: in_set_takeD)
qed

lemma id_byte_not_slash: "id_byte c \<Longrightarrow> c \<noteq> CHR ''/'' \<and> c \<noteq> CHR ''.''"
  by (auto simp: id_byte_def is_alnum_def is_alpha_def is_upper_def is_digit_def)

lemma valid_id_plain: "is_valid_question_id i \<Longrightarrow> plain_name (i @ ''.json'')"
  using id_byte_not_slash by (auto simp: is_valid_question_id_def plain_name_def list_all_iff)

lemma answer_path_valid: "is_valid_question_id i \<Longrightarrow> answer_path r i = answers_dir r @ [i @ ''.json'']"
  by (simp add: answer_path_def join_plain valid_id_plain)

lemma pipeline_dir_of_run:
  assumes "run_dir_of uuid p s = Inr r" "\<And>t i. uuid t = Some i \<Longrightarrow> plain_name i"
  shows "pipeline_dir r = Some p"
proof -
  obtain i where "uuid s = Some i" "r = p @ [''runs'', i]"
    using assms by (auto simp: run_dir_of_def parse_run_id_def join_plain split: option.splits)
  then show ?thesis by (simp add: pipeline_dir_def path_parent_def path_file_name_def RUNS_DIR_def butlast_append)
qed

section \<open>Derived status\<close>

datatype run_status = StRunning | StCompleted | StFailed | StStopped | StCrashed | StMissing

definition CRASH_AFTER :: time where "CRASH_AFTER = 120000000000"

fun status_of_reason :: "attempt_end_reason \<Rightarrow> run_status" where
  "status_of_reason EndCompleted = StCompleted"
| "status_of_reason EndStopped = StStopped"
| "status_of_reason _ = StFailed"

text \<open>
  The loop of \<open>derive_status\<close> over the events of the last attempt: it returns at the first
  \<open>AttemptEnded\<close>, else it keeps the last heartbeat and the last start, each with its process id.
\<close>

type_synonym sign = "(time \<times> nat) option"

fun scan_attempt :: "journal_event list \<Rightarrow> sign \<Rightarrow> sign \<Rightarrow> run_status + sign \<times> sign" where
  "scan_attempt [] life started = Inr (life, started)"
| "scan_attempt (e # es) life started =
     (case je_data e of
        JAttemptEnded _ reason _ \<Rightarrow> Inl (status_of_reason reason)
      | JHeartbeat pid \<Rightarrow> scan_attempt es (Some (je_ts e, pid)) started
      | JAttemptStarted _ pid _ _ _ _ \<Rightarrow> scan_attempt es life (Some (je_ts e, pid))
      | _ \<Rightarrow> scan_attempt es life started)"

definition last_attempt :: "journal_event list \<Rightarrow> nat option" where
  "last_attempt es = (if es = [] then None else Some (Max (set (map je_attempt es))))"

definition attempt_events :: "journal_event list \<Rightarrow> journal_event list" where
  "attempt_events es = filter (\<lambda>e. Some (je_attempt e) = last_attempt es) es"

definition derive_status :: "journal_event list \<Rightarrow> time \<Rightarrow> time \<Rightarrow> (nat \<Rightarrow> bool) \<Rightarrow> run_status" where
  "derive_status es started_at now alive =
     (case scan_attempt (attempt_events es) None None of
        Inl s \<Rightarrow> s
      | Inr (life, started) \<Rightarrow>
          (let (seen_at, pid) = (case or_else life started of
                 Some (ts, p) \<Rightarrow> (ts, Some p)
               | None \<Rightarrow> (started_at, None))
           in if CRASH_AFTER < now - seen_at \<and> \<not> (case pid of Some p \<Rightarrow> alive p | None \<Rightarrow> False)
              then StCrashed else StRunning))"

text \<open>What the status says, without the loop.\<close>

fun is_end :: "event_data \<Rightarrow> bool" where
  "is_end (JAttemptEnded _ _ _) = True"
| "is_end _ = False"

fun end_reason :: "event_data \<Rightarrow> attempt_end_reason option" where
  "end_reason (JAttemptEnded _ r _) = Some r"
| "end_reason _ = None"

fun beat_pid :: "event_data \<Rightarrow> nat option" where
  "beat_pid (JHeartbeat p) = Some p"
| "beat_pid _ = None"

fun start_pid :: "event_data \<Rightarrow> nat option" where
  "start_pid (JAttemptStarted _ p _ _ _ _) = Some p"
| "start_pid _ = None"

definition last_sign :: "(event_data \<Rightarrow> nat option) \<Rightarrow> journal_event list \<Rightarrow> sign" where
  "last_sign pid_of es =
     map_option (\<lambda>e. (je_ts e, the (pid_of (je_data e)))) (find (\<lambda>e. pid_of (je_data e) \<noteq> None) (rev es))"

definition first_end :: "journal_event list \<Rightarrow> attempt_end_reason option" where
  "first_end es = Option.bind (find (\<lambda>e. is_end (je_data e)) es) (\<lambda>e. end_reason (je_data e))"

lemma last_sign_simps:
  "last_sign pid_of [] = None"
  "last_sign pid_of (e # es) =
     or_else (last_sign pid_of es) (map_option (\<lambda>p. (je_ts e, p)) (pid_of (je_data e)))"
proof -
  show "last_sign pid_of [] = None" by (simp add: last_sign_def)
  have f: "find P (xs @ [x]) = or_else (find P xs) (if P x then Some x else None)" for P :: "journal_event \<Rightarrow> bool" and xs x
    by (induction xs) auto
  have o: "map_option g (or_else a b) = or_else (map_option g a) (map_option g b)"
    for g :: "journal_event \<Rightarrow> time \<times> nat" and a b
    by (cases a) auto
  show "last_sign pid_of (e # es) =
     or_else (last_sign pid_of es) (map_option (\<lambda>p. (je_ts e, p)) (pid_of (je_data e)))"
    by (cases "pid_of (je_data e)") (simp_all add: last_sign_def f o)
qed

lemma scan_attempt_eq:
  "scan_attempt es life started =
     (case first_end es of
        Some r \<Rightarrow> Inl (status_of_reason r)
      | None \<Rightarrow> Inr (or_else (last_sign beat_pid es) life, or_else (last_sign start_pid es) started))"
proof (induction es arbitrary: life started)
  case Nil
  then show ?case by (simp add: first_end_def last_sign_simps)
next
  case (Cons e es)
  have "first_end (e # es) = (if is_end (je_data e) then end_reason (je_data e) else first_end es)"
    by (simp add: first_end_def)
  with Cons show ?case
    by (cases "je_data e") (simp_all add: last_sign_simps or_else_assoc split: option.splits)
qed

lemma derive_status_eq:
  "derive_status es started_at now alive =
     (case first_end (attempt_events es) of
        Some r \<Rightarrow> status_of_reason r
      | None \<Rightarrow>
          (case or_else (last_sign beat_pid (attempt_events es)) (last_sign start_pid (attempt_events es)) of
             Some (seen, pid) \<Rightarrow> if CRASH_AFTER < now - seen \<and> \<not> alive pid then StCrashed else StRunning
           | None \<Rightarrow> if CRASH_AFTER < now - started_at then StCrashed else StRunning))"
  by (auto simp: derive_status_def scan_attempt_eq Let_def split: option.splits)

text \<open>
  \<open>run_status\<close>: \<open>exists\<close> and \<open>read\<close> are the file system; a journal that cannot be read has no events and
  the error is reported beside the status.
\<close>

definition read_all_at :: "journal_codec \<Rightarrow> (path \<Rightarrow> io_error + str) \<Rightarrow> path \<Rightarrow> io_error + journal_event list" where
  "read_all_at C read p = rbind (read p) (\<lambda>bytes. read_all C (Some bytes))"

definition run_status ::
  "journal_codec \<Rightarrow> (path \<Rightarrow> bool) \<Rightarrow> (path \<Rightarrow> io_error + str) \<Rightarrow> path \<Rightarrow> time \<Rightarrow> time \<Rightarrow> (nat \<Rightarrow> bool)
   \<Rightarrow> run_status \<times> io_error option" where
  "run_status C exists read run_dir started_at now alive =
     (if \<not> exists run_dir then (StMissing, None)
      else let (events, err) = (case read_all_at C read (events_path run_dir) of
                 Inr es \<Rightarrow> (es, None)
               | Inl e \<Rightarrow> ([], if e = NotFound then None else Some e))
           in (derive_status events started_at now alive, err))"

section \<open>Run Index\<close>

text \<open>\<open>OsString\<close>s that are empty count as unset.\<close>

definition env_set :: "str option \<Rightarrow> path option" where
  "env_set v = (case v of None \<Rightarrow> None | Some s \<Rightarrow> if s = [] then None else Some (path_of s))"

definition resolve_state_dir :: "str option \<Rightarrow> str option \<Rightarrow> str option \<Rightarrow> path option" where
  "resolve_state_dir pas xdg home =
     or_else (env_set pas)
       (or_else (map_option (\<lambda>p. join_name p ''pas'') (env_set xdg))
          (map_option (\<lambda>p. join_name (join_name (join_name p ''.local'') ''state'') ''pas'') (env_set home)))"

record index_entry =
  ie_v :: nat
  ie_run_id :: str
  ie_started_at :: time
  ie_workdir :: str
  ie_pipeline_path :: str
  ie_run_dir :: str

definition INDEX_VERSION :: nat where "INDEX_VERSION = 1"

definition index_entry_new :: "str \<Rightarrow> time \<Rightarrow> str \<Rightarrow> str \<Rightarrow> str \<Rightarrow> index_entry" where
  "index_entry_new run_id started wd pipeline dir =
     \<lparr>ie_v = INDEX_VERSION, ie_run_id = run_id, ie_started_at = started, ie_workdir = wd,
      ie_pipeline_path = pipeline, ie_run_dir = dir\<rparr>"

definition entry_tree :: "(time \<Rightarrow> str) \<Rightarrow> index_entry \<Rightarrow> json" where
  "entry_tree fmt_ts e =
     JObj [(''v'', jnat (ie_v e)), (''run_id'', JStr (ie_run_id e)),
           (''started_at'', JStr (fmt_ts (ie_started_at e))), (''workdir'', JStr (ie_workdir e)),
           (''pipeline_path'', JStr (ie_pipeline_path e)), (''run_dir'', JStr (ie_run_dir e))]"

definition entry_of_tree :: "(str \<Rightarrow> time option) \<Rightarrow> json \<Rightarrow> index_entry option" where
  "entry_of_tree parse_ts j = do {
     f \<leftarrow> struct_fields [''v'', ''run_id'', ''started_at'', ''workdir'', ''pipeline_path'', ''run_dir''] j;
     v \<leftarrow> required f ''v'' (dec_uint u32_max);
     run_id \<leftarrow> required f ''run_id'' json_as_str;
     ts_text \<leftarrow> required f ''started_at'' json_as_str;
     ts \<leftarrow> parse_ts ts_text;
     wd \<leftarrow> required f ''workdir'' json_as_str;
     pipeline \<leftarrow> required f ''pipeline_path'' json_as_str;
     dir \<leftarrow> required f ''run_dir'' json_as_str;
     Some \<lparr>ie_v = v, ie_run_id = run_id, ie_started_at = ts, ie_workdir = wd,
           ie_pipeline_path = pipeline, ie_run_dir = dir\<rparr>
   }"

lemma entry_roundtrip:
  assumes "ie_v e \<le> u32_max" "parse_ts (fmt_ts (ie_started_at e)) = Some (ie_started_at e)"
  shows "entry_of_tree parse_ts (entry_tree fmt_ts e) = Some e"
  using assms by (cases e) (simp add: entry_of_tree_def entry_tree_def required_def)

text \<open>
  A line is the text of the entry; the reader gives serde_json each piece with its newline and
  skips the pieces that are not an entry.
\<close>

definition entry_line :: "journal_codec \<Rightarrow> index_entry \<Rightarrow> str" where
  "entry_line C e = jc_show C (entry_tree (jc_show_ts C) e)"

definition entry_of_line :: "journal_codec \<Rightarrow> str \<Rightarrow> index_entry option" where
  "entry_of_line C l = Option.bind (jc_parse C (l @ [NL])) (entry_of_tree (jc_parse_ts C))"

definition append_entry_at ::
  "journal_codec \<Rightarrow> io_error option \<Rightarrow> disk \<Rightarrow> index_entry \<Rightarrow> str option \<Rightarrow> (io_error + unit) \<times> str option" where
  "append_entry_at C fault disk e file =
     (case fault of
        Some err \<Rightarrow> (Inl err, file)
      | None \<Rightarrow>
          (let line = entry_line C e @ [NL]; old = (case file of Some bytes \<Rightarrow> bytes | None \<Rightarrow> [])
           in case disk of
                DiskOk \<Rightarrow> (Inr (), Some (old @ line))
              | WriteStops k err \<Rightarrow> (Inl err, Some (old @ take k line))
              | SyncFails err \<Rightarrow> (Inl err, Some (old @ line))))"

definition read_index_at :: "journal_codec \<Rightarrow> str option \<Rightarrow> index_entry list" where
  "read_index_at C file =
     (case file of
        None \<Rightarrow> []
      | Some bytes \<Rightarrow> List.map_filter (entry_of_line C) (butlast (split_lines bytes)))"

definition entry_writable :: "journal_codec \<Rightarrow> index_entry \<Rightarrow> bool" where
  "entry_writable C e \<longleftrightarrow> ie_v e \<le> u32_max \<and>
     jc_parse_ts C (jc_show_ts C (ie_started_at e)) = Some (ie_started_at e) \<and>
     jc_parse C (entry_line C e @ [NL]) = Some (entry_tree (jc_show_ts C) e) \<and>
     one_line (entry_line C e) \<and> \<not> blank (entry_line C e)"

interpretation ji: line_log "entry_line C" "entry_of_line C" "entry_writable C" for C
  by unfold_locales (auto simp: entry_writable_def entry_of_line_def entry_roundtrip)

lemma read_index_log:
  assumes "list_all (entry_writable C) es" "one_line r"
  shows "read_index_at C (Some (ji.log_text C es @ r)) = es"
proof -
  have s: "split_lines (flat ls @ r) = ls @ [r]" if "list_all one_line ls" for ls
    using that by (induction ls) (auto simp: split_lines_line split_lines_torn assms(2))
  show ?thesis
    using s [OF ji.log_lines [OF assms(1)]] ji.skip_log [OF assms(1)]
    by (simp add: read_index_at_def ji.log_text_def butlast_append)
qed

text \<open>Appends by any number of processes, one after the other under the lock of the file.\<close>

fun append_entries ::
  "journal_codec \<Rightarrow> (io_error option \<times> disk \<times> index_entry) list \<Rightarrow> str option \<Rightarrow> str option" where
  "append_entries C [] file = file"
| "append_entries C ((fault, disk, e) # ops) file =
     append_entries C ops (snd (append_entry_at C fault disk e file))"

definition lands :: "io_error option \<times> disk \<times> index_entry \<Rightarrow> bool" where
  "lands = (\<lambda>(fault, disk, e). fault = None \<and> (\<forall>k err. disk \<noteq> WriteStops k err))"

definition harmless :: "io_error option \<times> disk \<times> index_entry \<Rightarrow> bool" where
  "harmless = (\<lambda>(fault, disk, e). fault \<noteq> None \<or> (\<forall>k err. disk = WriteStops k err \<longrightarrow> k = 0))"

lemma append_entries_log:
  assumes "list_all harmless ops" "list_all (\<lambda>(_, _, e). entry_writable C e) ops"
    and "list_all (entry_writable C) es"
  shows "\<exists>f. append_entries C ops (Some (ji.log_text C es)) = Some f \<and>
     f = ji.log_text C (es @ map (snd \<circ> snd) (filter lands ops))"
  using assms
proof (induction ops arbitrary: es)
  case (Cons op ops)
  obtain fault disk e where op: "op = (fault, disk, e)" by (cases op)
  show ?case
  proof (cases "lands op")
    case True
    then have "snd (append_entry_at C fault disk e (Some (ji.log_text C es))) = Some (ji.log_text C (es @ [e]))"
      by (auto simp: op lands_def append_entry_at_def Let_def split: disk.splits)
    with Cons.IH [of "es @ [e]"] Cons.prems True show ?thesis by (simp add: op)
  next
    case False
    then have "snd (append_entry_at C fault disk e (Some (ji.log_text C es))) = Some (ji.log_text C es)"
      using Cons.prems(1) by (auto simp: op lands_def harmless_def append_entry_at_def split: disk.splits option.splits)
    with Cons.IH [of es] Cons.prems False show ?thesis by (simp add: op)
  qed
qed simp

lemma append_entries_new:
  assumes "list_all harmless ops" "list_all (\<lambda>(_, _, e). entry_writable C e) ops"
  shows "read_index_at C (append_entries C ops None) = map (snd \<circ> snd) (filter lands ops)"
  using assms
proof (induction ops)
  case Nil
  then show ?case by (simp add: read_index_at_def)
next
  case (Cons op ops)
  obtain fault disk e where op: "op = (fault, disk, e)" by (cases op)
  show ?case
  proof (cases fault)
    case (Some err)
    with Cons op show ?thesis by (simp add: append_entry_at_def lands_def)
  next
    case None
    then have "append_entries C (op # ops) None = append_entries C (op # ops) (Some (ji.log_text C []))"
      by (simp add: op append_entry_at_def)
    moreover obtain f where "append_entries C (op # ops) (Some (ji.log_text C [])) = Some f"
      "f = ji.log_text C ([] @ map (snd \<circ> snd) (filter lands (op # ops)))"
      using append_entries_log [of "op # ops" C "[]"] Cons.prems by auto
    moreover have "list_all (entry_writable C) (map (snd \<circ> snd) (filter lands (op # ops)))"
      using Cons.prems(2) by (auto simp: list_all_iff)
    ultimately show ?thesis using read_index_log [of C _ "[]"] by simp
  qed
qed

section \<open>Answers of human gates\<close>

type_synonym fs = "path \<Rightarrow> str option"

definition ANSWER_VERSION :: nat where "ANSWER_VERSION = 1"

record answer_file =
  af_v :: nat
  af_question_id :: str
  af_choice :: str
  af_source :: answer_source
  af_answered_at :: time

definition answer_file_new :: "time \<Rightarrow> str \<Rightarrow> str \<Rightarrow> answer_source \<Rightarrow> answer_file" where
  "answer_file_new now q choice src =
     \<lparr>af_v = ANSWER_VERSION, af_question_id = q, af_choice = choice, af_source = src, af_answered_at = now\<rparr>"

definition answer_tree :: "(time \<Rightarrow> str) \<Rightarrow> answer_file \<Rightarrow> json" where
  "answer_tree fmt_ts a =
     JObj [(''v'', jnat (af_v a)), (''question_id'', JStr (af_question_id a)), (''choice'', JStr (af_choice a)),
           (''source'', JStr (source_name (af_source a))), (''answered_at'', JStr (fmt_ts (af_answered_at a)))]"

definition answer_of_tree :: "(str \<Rightarrow> time option) \<Rightarrow> json \<Rightarrow> answer_file option" where
  "answer_of_tree parse_ts j = do {
     f \<leftarrow> struct_fields [''v'', ''question_id'', ''choice'', ''source'', ''answered_at''] j;
     v \<leftarrow> required f ''v'' (dec_uint u32_max);
     q \<leftarrow> required f ''question_id'' json_as_str;
     c \<leftarrow> required f ''choice'' json_as_str;
     src \<leftarrow> required f ''source'' dec_source;
     ts_text \<leftarrow> required f ''answered_at'' json_as_str;
     ts \<leftarrow> parse_ts ts_text;
     Some \<lparr>af_v = v, af_question_id = q, af_choice = c, af_source = src, af_answered_at = ts\<rparr>
   }"

lemma answer_roundtrip:
  assumes "af_v a \<le> u32_max" "parse_ts (fmt_ts (af_answered_at a)) = Some (af_answered_at a)"
  shows "answer_of_tree parse_ts (answer_tree fmt_ts a) = Some a"
  using assms by (cases a) (simp add: answer_of_tree_def answer_tree_def required_def)

definition checked_path :: "path \<Rightarrow> str \<Rightarrow> io_error + path" where
  "checked_path run q = (if is_valid_question_id q then Inr (answer_path run q) else Inl (InvalidInput q))"

text \<open>The temporary file of one call: unique by process and by call within the process.\<close>

definition answer_tmp :: "path \<Rightarrow> str \<Rightarrow> nat \<Rightarrow> nat \<Rightarrow> path" where
  "answer_tmp run q pid n =
     join_name (answers_dir run) (''.'' @ q @ ''.'' @ show_nat pid @ ''.'' @ show_nat n @ ''.tmp'')"

text \<open>The errors of the file system at each step of a write.\<close>

record write_faults =
  wf_dir :: "io_error option"
  wf_create :: "io_error option"
  wf_write :: "(nat \<times> io_error) option"
  wf_sync :: "io_error option"
  wf_link :: "io_error option"
  wf_remove :: bool

definition answer_bytes :: "journal_codec \<Rightarrow> answer_file \<Rightarrow> str" where
  "answer_bytes C a = jc_show C (answer_tree (jc_show_ts C) a) @ [NL]"

text \<open>The closure of \<open>write_answer\<close>: create the temporary file, fill it, link it into place.\<close>

definition link_answer :: "write_faults \<Rightarrow> str \<Rightarrow> path \<Rightarrow> path \<Rightarrow> fs \<Rightarrow> (io_error + bool) \<times> fs" where
  "link_answer flt bytes tmp p fs =
     (case wf_create flt of
        Some e \<Rightarrow> (Inl e, fs)
      | None \<Rightarrow>
          if fs tmp \<noteq> None then (Inl AlreadyExists, fs)
          else (case wf_write flt of
                  Some (k, e) \<Rightarrow> (Inl e, fs(tmp \<mapsto> take k bytes))
                | None \<Rightarrow>
                    (let fs' = fs(tmp \<mapsto> bytes)
                     in case wf_sync flt of
                          Some e \<Rightarrow> (Inl e, fs')
                        | None \<Rightarrow>
                            (case wf_link flt of
                               Some e \<Rightarrow> (if e = AlreadyExists then Inr False else Inl e, fs')
                             | None \<Rightarrow>
                                 if fs' p \<noteq> None then (Inr False, fs') else (Inr True, fs'(p \<mapsto> bytes))))))"

definition write_answer ::
  "journal_codec \<Rightarrow> write_faults \<Rightarrow> nat \<Rightarrow> nat \<Rightarrow> path \<Rightarrow> answer_file \<Rightarrow> fs \<Rightarrow> (io_error + bool) \<times> fs" where
  "write_answer C flt pid n run a fs =
     (case checked_path run (af_question_id a) of
        Inl e \<Rightarrow> (Inl e, fs)
      | Inr p \<Rightarrow>
          (case wf_dir flt of
             Some e \<Rightarrow> (Inl e, fs)
           | None \<Rightarrow>
               (let tmp = answer_tmp run (af_question_id a) pid n;
                    (res, fs') = link_answer flt (answer_bytes C a) tmp p fs
                in (res, if wf_remove flt then fs' else fs'(tmp := None)))))"

text \<open>serde_json tells a text that ends too early from a malformed one.\<close>

datatype text_read = TreeRead json | TextEnds | TextBad

definition read_answer ::
  "(str \<Rightarrow> text_read) \<Rightarrow> (str \<Rightarrow> time option) \<Rightarrow> (path \<Rightarrow> io_error option) \<Rightarrow> path \<Rightarrow> str \<Rightarrow> fs
   \<Rightarrow> io_error + answer_file option" where
  "read_answer rd parse_ts fault run q fs =
     rbind (checked_path run q) (\<lambda>p.
       case fault p of
         Some e \<Rightarrow> if e = NotFound then Inr None else Inl e
       | None \<Rightarrow>
           (case fs p of
              None \<Rightarrow> Inr None
            | Some bytes \<Rightarrow>
                (case rd bytes of
                   TextEnds \<Rightarrow> Inr None
                 | TextBad \<Rightarrow> Inl (InvalidData 0)
                 | TreeRead j \<Rightarrow>
                     (case answer_of_tree parse_ts j of
                        Some a \<Rightarrow> Inr (Some a)
                      | None \<Rightarrow> Inl (InvalidData 0)))))"

text \<open>\<open>with_extension("json.rejected")\<close> on \<open>q.json\<close>.\<close>

definition rejected_path :: "path \<Rightarrow> str \<Rightarrow> path" where
  "rejected_path run q = join_name (answers_dir run) (q @ ''.json.rejected'')"

definition reject_answer :: "io_error option \<Rightarrow> path \<Rightarrow> str \<Rightarrow> fs \<Rightarrow> (io_error + path) \<times> fs" where
  "reject_answer fault run q fs =
     (case checked_path run q of
        Inl e \<Rightarrow> (Inl e, fs)
      | Inr p \<Rightarrow>
          (case fault of
             Some e \<Rightarrow> (Inl e, fs)
           | None \<Rightarrow>
               (case fs p of
                  None \<Rightarrow> (Inl NotFound, fs)
                | Some bytes \<Rightarrow>
                    (Inr (rejected_path run q), (fs(p := None))(rejected_path run q \<mapsto> bytes)))))"

lemma answer_tmp_eq:
  assumes "is_valid_question_id q"
  shows "answer_tmp run q pid n = answers_dir run @ [''.'' @ q @ ''.'' @ show_nat pid @ ''.'' @ show_nat n @ ''.tmp'']"
proof -
  have "CHR ''/'' \<notin> set (show_nat m)" for m
    using show_nat_digits [of m] digit_id_byte id_byte_not_slash by (auto simp: list_all_iff)
  moreover have "CHR ''/'' \<notin> set q" using assms id_byte_not_slash by (auto simp: is_valid_question_id_def list_all_iff)
  ultimately show ?thesis unfolding answer_tmp_def by (intro join_plain) (simp add: plain_name_def)
qed

lemma tmp_not_answer:
  assumes "is_valid_question_id q" "is_valid_question_id q'"
  shows "answer_tmp run q pid n \<noteq> answer_path run q'"
proof -
  have "hd (q' @ ''.json'') \<noteq> CHR ''.''"
    using assms(2) id_byte_not_slash by (cases q') (auto simp: is_valid_question_id_def)
  then show ?thesis using assms by (auto simp: answer_tmp_eq answer_path_valid)
qed

lemma link_answer_effect:
  assumes "link_answer flt bytes tmp p fs = (res, fs')" "tmp \<noteq> p" "x \<noteq> tmp"
  shows "fs' x = (if res = Inr True \<and> x = p then Some bytes else fs x)"
    and "res = Inr True \<Longrightarrow> fs p = None"
  using assms by (auto simp: link_answer_def Let_def split: option.splits if_splits prod.splits)

lemma write_answer_effect:
  assumes "write_answer C flt pid n run a fs = (res, fs')" "is_valid_question_id q"
  shows "fs' (answer_path run q) =
     (if res = Inr True \<and> q = af_question_id a then Some (answer_bytes C a) else fs (answer_path run q))"
    and "res = Inr True \<Longrightarrow> is_valid_question_id (af_question_id a) \<and> fs (answer_path run (af_question_id a)) = None"
proof -
  let ?q = "af_question_id a"
  have "(fs' (answer_path run q) =
      (if res = Inr True \<and> q = ?q then Some (answer_bytes C a) else fs (answer_path run q))) \<and>
    (res = Inr True \<longrightarrow> is_valid_question_id ?q \<and> fs (answer_path run ?q) = None)"
  proof (cases "is_valid_question_id ?q \<and> wf_dir flt = None")
    case False
    with assms(1) show ?thesis by (auto simp: write_answer_def checked_path_def split: if_splits option.splits)
  next
    case True
    define tmp where "tmp = answer_tmp run ?q pid n"
    obtain fs1 where l: "link_answer flt (answer_bytes C a) tmp (answer_path run ?q) fs = (res, fs1)"
      and fs': "fs' = (if wf_remove flt then fs1 else fs1(tmp := None))"
      using assms(1) True
      by (auto simp: write_answer_def checked_path_def tmp_def Let_def split: prod.splits)
    have ne: "tmp \<noteq> answer_path run ?q" "answer_path run q \<noteq> tmp"
      using tmp_not_answer [of ?q _ run pid n] True assms(2) unfolding tmp_def by metis+
    have "answer_path run q = answer_path run ?q \<longleftrightarrow> q = ?q"
      using True assms(2) by (simp add: answer_path_valid)
    then show ?thesis
      using link_answer_effect [OF l ne] ne fs' True by auto
  qed
  then show "fs' (answer_path run q) =
     (if res = Inr True \<and> q = ?q then Some (answer_bytes C a) else fs (answer_path run q))"
    and "res = Inr True \<Longrightarrow> is_valid_question_id ?q \<and> fs (answer_path run ?q) = None"
    by blast+
qed

text \<open>Any number of writers, in the order in which they reach the answer.\<close>

type_synonym answer_call = "write_faults \<times> nat \<times> nat \<times> answer_file"

fun write_answers :: "journal_codec \<Rightarrow> path \<Rightarrow> answer_call list \<Rightarrow> fs \<Rightarrow> (io_error + bool) list \<times> fs" where
  "write_answers C run [] fs = ([], fs)"
| "write_answers C run ((flt, pid, n, a) # calls) fs =
     (let (res, fs1) = write_answer C flt pid n run a fs;
          (rest, fs2) = write_answers C run calls fs1
      in (res # rest, fs2))"

lemma write_answers_kept:
  assumes "write_answers C run calls fs = (rs, fs')" "is_valid_question_id q" "fs (answer_path run q) = Some old"
  shows "fs' (answer_path run q) = Some old \<and>
     (\<forall>i < length calls. af_question_id (snd (snd (snd (calls ! i)))) = q \<longrightarrow> rs ! i \<noteq> Inr True)"
  using assms
proof (induction calls arbitrary: fs rs)
  case (Cons c calls)
  obtain flt pid n a where c: "c = (flt, pid, n, a)" by (cases c)
  obtain res fs1 rest where w: "write_answer C flt pid n run a fs = (res, fs1)"
    "write_answers C run calls fs1 = (rest, fs')" "rs = res # rest"
    using Cons.prems(1) by (auto simp: c Let_def split: prod.splits)
  have "fs1 (answer_path run q) = Some old" and r: "af_question_id a = q \<Longrightarrow> res \<noteq> Inr True"
    using write_answer_effect [OF w(1) Cons.prems(2)] Cons.prems(3) by auto
  with Cons.IH [OF w(2) Cons.prems(2)] show ?case
    by (auto simp: w(3) c nth_Cons split: nat.splits)
qed simp

section \<open>Properties of the files of a run\<close>

text \<open>
  The status of a run is decided by the last attempt alone: by the reason of its first
  end when it has one; otherwise the run is crashed exactly when its last sign of life (the last
  heartbeat, else the last start, else the start in the index) is more than two minutes old and the
  process of that same event is unknown or gone.
\<close>

theorem derive_status_exact:
  "derive_status es started_at now alive =
     (case first_end (attempt_events es) of
        Some r \<Rightarrow> status_of_reason r
      | None \<Rightarrow>
          (case or_else (last_sign beat_pid (attempt_events es)) (last_sign start_pid (attempt_events es)) of
             Some (seen, pid) \<Rightarrow> if CRASH_AFTER < now - seen \<and> \<not> alive pid then StCrashed else StRunning
           | None \<Rightarrow> if CRASH_AFTER < now - started_at then StCrashed else StRunning))"
  by (rule derive_status_eq)

text \<open>
  The question id made for any node and any number is a valid one, and the answer file of
  a valid id is a file directly inside the answers folder, whatever characters the node's id has.
\<close>

theorem question_id_stays_inside:
  assumes "n \<le> u32_max"
  shows "is_valid_question_id (question_id_for node n) \<and>
     answer_path run (question_id_for node n) = answers_dir run @ [question_id_for node n @ ''.json'']"
  using question_id_for_valid [OF assms] answer_path_valid by blast

theorem question_id_stays_inside_witness:
  "is_valid_question_id (question_id_for ''../../etc'' 7) \<and>
   answer_path [slash, ''r''] (question_id_for ''../../etc'' 7) =
     answers_dir [slash, ''r''] @ [question_id_for ''../../etc'' 7 @ ''.json'']"
  by (rule question_id_stays_inside) (simp add: u32_max_def)

text \<open>
  Property C33. The first writer wins. Among any calls for a question, however each of them fails, at
  most one returns \<open>Ok(true)\<close>; it found no answer, and from then on the answer file holds exactly its bytes.
\<close>

theorem first_answer_wins:
  assumes "write_answer C flt pid n run a fs = (Inr True, fs1)"
    and "write_answers C run calls fs1 = (rs, fs2)"
  shows "fs (answer_path run (af_question_id a)) = None \<and>
     fs2 (answer_path run (af_question_id a)) = Some (answer_bytes C a) \<and>
     (\<forall>i < length calls. af_question_id (snd (snd (snd (calls ! i)))) = af_question_id a \<longrightarrow> rs ! i \<noteq> Inr True)"
proof -
  have v: "is_valid_question_id (af_question_id a)"
    using assms(1) by (cases "is_valid_question_id (af_question_id a)") (simp_all add: write_answer_def checked_path_def)
  then have n: "fs (answer_path run (af_question_id a)) = None"
    using write_answer_effect(2) [OF assms(1)] by blast
  have "fs1 (answer_path run (af_question_id a)) = Some (answer_bytes C a)"
    using write_answer_effect(1) [OF assms(1) v] by simp
  with write_answers_kept [OF assms(2) v] n show ?thesis by blast
qed

definition no_faults :: write_faults where
  "no_faults = \<lparr>wf_dir = None, wf_create = None, wf_write = None, wf_sync = None, wf_link = None, wf_remove = False\<rparr>"

definition demo_answer :: "str \<Rightarrow> answer_file" where
  "demo_answer c = answer_file_new 0 ''q-a-1'' c AnswerCli"

lemma demo_id: "is_valid_question_id ''q-a-1''"
  by (simp add: is_valid_question_id_def MAX_QUESTION_ID_LEN_def id_byte_def is_alnum_def is_alpha_def
      is_upper_def is_digit_def)

lemma demo_first:
  "fst (write_answer demo_codec no_faults 1 0 [''r''] (demo_answer ''yes'') (\<lambda>_. None)) = Inr True"
  by (simp add: write_answer_def checked_path_def demo_answer_def answer_file_new_def demo_id no_faults_def
      link_answer_def Let_def tmp_not_answer [symmetric])

theorem first_answer_wins_witness:
  "let (r, fs1) = write_answer demo_codec no_faults 1 0 [''r''] (demo_answer ''yes'') (\<lambda>_. None);
       (rs, fs2) = write_answers demo_codec [''r''] [(no_faults, 2, 0, demo_answer ''no'')] fs1
   in r = Inr True \<and> rs ! 0 \<noteq> Inr True \<and>
      fs2 (answer_path [''r''] ''q-a-1'') = Some (answer_bytes demo_codec (demo_answer ''yes''))"
proof -
  obtain fs1 where w: "write_answer demo_codec no_faults 1 0 [''r''] (demo_answer ''yes'') (\<lambda>_. None) = (Inr True, fs1)"
    using demo_first by (metis prod.collapse)
  obtain rs fs2 where c: "write_answers demo_codec [''r''] [(no_faults, 2, 0, demo_answer ''no'')] fs1 = (rs, fs2)"
    by (metis prod.collapse)
  have "af_question_id (demo_answer c) = ''q-a-1''" for c by (simp add: demo_answer_def answer_file_new_def)
  with first_answer_wins [OF w c] w c show ?thesis by simp
qed

text \<open>
  The index gives back every entry whose line was written, in order, whatever other
  appends failed before writing a byte.
\<close>

theorem index_exact:
  assumes "list_all harmless ops" "list_all (\<lambda>(_, _, e). entry_writable C e) ops"
  shows "read_index_at C (append_entries C ops None) = map (snd \<circ> snd) (filter lands ops)"
  using assms by (rule append_entries_new)

text \<open>
  An append that fails after some bytes is not repaired by the next one, which is glued to it:
  that entry was acknowledged and is not in the index.
\<close>

theorem torn_entry_swallows_next:
  assumes "list_all (entry_writable C) es" "entry_writable C e" "one_line torn"
    and "entry_of_line C (torn @ entry_line C e) = None"
    and "append_entry_at C None DiskOk e (Some (ji.log_text C es @ torn)) = (res, file)"
  shows "res = Inr () \<and> read_index_at C file = es"
proof -
  let ?l = "torn @ entry_line C e"
  have f: "res = Inr ()" "file = Some (flat (map (entry_line C) es @ [?l]))"
    using assms(5) by (auto simp: append_entry_at_def ji.log_text_def)
  have "list_all one_line (map (entry_line C) es @ [?l])"
    using ji.log_lines [OF assms(1)] ji.enc_line [OF assms(2)] assms(3) by (auto simp: one_line_def)
  then have "butlast (split_lines (flat (map (entry_line C) es @ [?l]))) = map (entry_line C) es @ [?l]"
    by (simp only: split_lines_flat butlast_snoc)
  moreover have "List.map_filter (entry_of_line C) (map (entry_line C) es @ [?l]) = es"
    using assms(1,4) by (induction es) (auto simp: map_filter_simps ji.dec_enc)
  ultimately show ?thesis using f by (simp add: read_index_at_def)
qed

text \<open>
  The folder made for a run in a pipeline's folder leads back to that pipeline, and a
  text that is not a UUID makes none.
\<close>

theorem run_folder_roundtrip:
  assumes "\<And>t i. uuid t = Some i \<Longrightarrow> plain_name i"
  shows "case run_dir_of uuid p s of Inl e \<Rightarrow> uuid s = None | Inr r \<Rightarrow> pipeline_dir r = Some p"
  using pipeline_dir_of_run [of uuid p s] assms
  by (cases "run_dir_of uuid p s") (auto simp: run_dir_of_def parse_run_id_def split: option.splits)

end
