(* ===== verification/Monitor_View.thy ===== *)
theory Monitor_View
  imports Journal_Files
begin

text \<open>
  The Monitor's projection (\<open>crates/attractor-monitor/src/projection.rs\<close>): a fold over the events
  of a journal that builds everything a page about the run shows. Counters are natural numbers: a
  journal has fewer than \<open>2 ^ 32\<close> events.
\<close>

section \<open>The view\<close>

datatype view_status = VsUnknown | VsRunning | VsCompleted | VsFailed | VsStopped

fun view_status_str :: "view_status \<Rightarrow> str" where
  "view_status_str VsUnknown = ''unknown''"
| "view_status_str VsRunning = ''running''"
| "view_status_str VsCompleted = ''completed''"
| "view_status_str VsFailed = ''failed''"
| "view_status_str VsStopped = ''stopped''"

record attempt_end =
  ae_reason :: attempt_end_reason
  ae_message :: "str option"
  ae_at :: time

record attempt_view =
  av_attempt :: nat
  av_pid :: "nat option"
  av_pas_version :: "str option"
  av_argv :: "str list"
  av_git_head :: "str option"
  av_resumed_from :: "str option"
  av_started_at :: "time option"
  av_ended :: "attempt_end option"
  av_last_heartbeat :: "time option"
  av_last_event_at :: time
  av_last_activity_at :: time

record node_visit =
  nv_node :: str
  nv_visits :: nat
  nv_last_status :: "str option"

record task_blocked =
  tb_open :: "str list"
  tb_blocked_by :: "str list btree"
  tb_seq :: nat

record task_view =
  tv_id :: str
  tv_title :: str
  tv_status :: str
  tv_node :: "str option"
  tv_reason :: "str option"
  tv_upstream_verified :: "bool option"
  tv_commits :: "str list"
  tv_node_visits :: "nat btree"

record epic_progress =
  ep_epic_id :: str
  ep_title :: str
  ep_closed :: nat
  ep_total :: nat

record invocation_view =
  iv_id :: str
  iv_node :: str
  iv_task :: "str option"
  iv_provider :: str
  iv_model_requested :: "str option"
  iv_model_actual :: "str option"
  iv_input_tokens :: "nat option"
  iv_output_tokens :: "nat option"
  iv_cost_usd :: "f64 option"
  iv_duration_ms :: nat
  iv_transcript :: str
  iv_status :: str

record commit_view =
  cv_sha :: str
  cv_subject :: str
  cv_author :: str
  cv_ts :: str
  cv_node :: str
  cv_task :: "str option"

record gate_view =
  gv_question :: str
  gv_node :: str
  gv_text :: str
  gv_choices :: "str list"
  gv_default :: "str option"
  gv_requested_at :: time

record answered_gate =
  ag_question :: str
  ag_choice :: str
  ag_source :: answer_source

record stage_fact =
  sf_node :: str
  sf_detail :: str
  sf_attempt :: "nat option"
  sf_seq :: nat

record run_view =
  vw_run_id :: "str option"
  vw_last_seq :: nat
  vw_last_ts :: "time option"
  vw_status :: view_status
  vw_pipeline_name :: "str option"
  vw_pipeline_path :: "str option"
  vw_workdir :: "str option"
  vw_epic_id :: "str option"
  vw_max_budget :: "f64 option"
  vw_max_steps :: "nat option"
  vw_shared_workdir :: bool
  vw_attempts :: "attempt_view list"
  vw_current_node :: "str option"
  vw_visited :: "node_visit list"
  vw_steps :: nat
  vw_cost :: f64
  vw_invocations :: "invocation_view list"
  vw_retries :: "stage_fact list"
  vw_failures :: "stage_fact list"
  vw_pipeline_error :: "str option"
  vw_tasks :: "task_view list"
  vw_current_task :: "str option"
  vw_task_blocked :: "task_blocked option"
  vw_epic_title :: "str option"
  vw_epic_children :: "str list"
  vw_commits :: "commit_view list"
  vw_gate :: "gate_view option"
  vw_answered :: "answered_gate list"
  vw_stop_requested :: "str option"

definition view_default :: run_view where
  "view_default =
     \<lparr>vw_run_id = None, vw_last_seq = 0, vw_last_ts = None, vw_status = VsUnknown,
      vw_pipeline_name = None, vw_pipeline_path = None, vw_workdir = None, vw_epic_id = None,
      vw_max_budget = None, vw_max_steps = None, vw_shared_workdir = False, vw_attempts = [],
      vw_current_node = None, vw_visited = [], vw_steps = 0, vw_cost = Fin 0 0, vw_invocations = [],
      vw_retries = [], vw_failures = [], vw_pipeline_error = None, vw_tasks = [],
      vw_current_task = None, vw_task_blocked = None, vw_epic_title = None, vw_epic_children = [],
      vw_commits = [], vw_gate = None, vw_answered = [], vw_stop_requested = None\<rparr>"

definition task_default :: "str \<Rightarrow> task_view" where
  "task_default i =
     \<lparr>tv_id = i, tv_title = [], tv_status = [], tv_node = None, tv_reason = None,
      tv_upstream_verified = None, tv_commits = [], tv_node_visits = []\<rparr>"

definition is_closed :: "task_view \<Rightarrow> bool" where
  "is_closed t \<longleftrightarrow> tv_status t = ''closed''"

section \<open>Lists updated in place\<close>

text \<open>The update of the first element found.\<close>

fun update_first :: "('a \<Rightarrow> bool) \<Rightarrow> ('a \<Rightarrow> 'a) \<Rightarrow> 'a list \<Rightarrow> 'a list" where
  "update_first P f [] = []"
| "update_first P f (x # xs) = (if P x then f x # xs else x # update_first P f xs)"

text \<open>\<open>task_mut\<close>: the task of that id, appended when there is none.\<close>

definition task_mut :: "str \<Rightarrow> (task_view \<Rightarrow> task_view) \<Rightarrow> task_view list \<Rightarrow> task_view list" where
  "task_mut i f ts =
     (if list_ex (\<lambda>t. tv_id t = i) ts then update_first (\<lambda>t. tv_id t = i) f ts
      else ts @ [f (task_default i)])"

definition attempt_default :: "nat \<Rightarrow> time \<Rightarrow> attempt_view" where
  "attempt_default n ts =
     \<lparr>av_attempt = n, av_pid = None, av_pas_version = None, av_argv = [], av_git_head = None,
      av_resumed_from = None, av_started_at = None, av_ended = None, av_last_heartbeat = None,
      av_last_event_at = ts, av_last_activity_at = ts\<rparr>"

text \<open>\<open>attempt_mut\<close>: the attempt of that number, inserted before the first one with a greater number.\<close>

definition attempt_mut :: "nat \<Rightarrow> time \<Rightarrow> (attempt_view \<Rightarrow> attempt_view) \<Rightarrow> attempt_view list \<Rightarrow> attempt_view list" where
  "attempt_mut n ts f as =
     (if list_ex (\<lambda>a. av_attempt a = n) as then update_first (\<lambda>a. av_attempt a = n) f as
      else takeWhile (\<lambda>a. \<not> n < av_attempt a) as @ f (attempt_default n ts) #
           dropWhile (\<lambda>a. \<not> n < av_attempt a) as)"

definition visit :: "str \<Rightarrow> str option \<Rightarrow> node_visit list \<Rightarrow> node_visit list" where
  "visit n st vs =
     (let f = (case st of Some s \<Rightarrow> nv_last_status_update (\<lambda>_. Some s) | None \<Rightarrow> nv_visits_update Suc)
      in if list_ex (\<lambda>v. nv_node v = n) vs then update_first (\<lambda>v. nv_node v = n) f vs
         else vs @ [f \<lparr>nv_node = n, nv_visits = 0, nv_last_status = None\<rparr>])"

text \<open>\<open>*map.entry(k).or_insert(0) += 1\<close> on a \<open>BTreeMap\<close>.\<close>

fun count_entry :: "str \<Rightarrow> nat btree \<Rightarrow> nat btree" where
  "count_entry k [] = [(k, 1)]"
| "count_entry k ((k', n) # m) =
     (if k = k' then (k, Suc n) # m else if k < k' then (k, 1) # (k', n) # m else (k', n) # count_entry k m)"

text \<open>\<open>Vec::swap_remove\<close>.\<close>

definition swap_remove :: "nat \<Rightarrow> 'a list \<Rightarrow> 'a list" where
  "swap_remove i xs = (if Suc i = length xs then butlast xs else (butlast xs)[i := last xs])"

text \<open>The tasks of a snapshot keep what was known of them.\<close>

fun adopt_tasks :: "task_summary list \<Rightarrow> task_view list \<Rightarrow> task_view list" where
  "adopt_tasks [] old = []"
| "adopt_tasks (s # ss) old =
     (let (t, old') = (case position (\<lambda>t. tv_id t = ts_id s) old of
            Some i \<Rightarrow> (old ! i, swap_remove i old)
          | None \<Rightarrow> (task_default [], old))
      in t\<lparr>tv_id := ts_id s, tv_title := ts_title s, tv_status := ts_status s\<rparr> # adopt_tasks ss old')"

text \<open>The new commits of an event, each once by its hash.\<close>

fun add_commits :: "str \<Rightarrow> str option \<Rightarrow> commit_ref list \<Rightarrow> commit_view list \<Rightarrow> commit_view list" where
  "add_commits n t [] cs = cs"
| "add_commits n t (c # rest) cs =
     add_commits n t rest
       (if list_ex (\<lambda>x. cv_sha x = cr_sha c) cs then cs
        else cs @ [\<lparr>cv_sha = cr_sha c, cv_subject = cr_subject c, cv_author = cr_author c,
                    cv_ts = cr_ts c, cv_node = n, cv_task = t\<rparr>])"

section \<open>Applying an event\<close>

fun status_of_end :: "attempt_end_reason \<Rightarrow> view_status" where
  "status_of_end EndCompleted = VsCompleted"
| "status_of_end EndStopped = VsStopped"
| "status_of_end _ = VsFailed"

definition attempts_status :: "attempt_view list \<Rightarrow> view_status" where
  "attempts_status as =
     (if as = [] then VsRunning
      else case av_ended (last as) of None \<Rightarrow> VsRunning | Some e \<Rightarrow> status_of_end (ae_reason e))"

definition recompute_status :: "run_view \<Rightarrow> run_view" where
  "recompute_status v = v\<lparr>vw_status := attempts_status (vw_attempts v)\<rparr>"

fun is_heartbeat :: "event_data \<Rightarrow> bool" where
  "is_heartbeat (JHeartbeat _) = True"
| "is_heartbeat _ = False"

text \<open>The bookkeeping every known event does first.\<close>

definition bookkeep :: "journal_event \<Rightarrow> run_view \<Rightarrow> run_view" where
  "bookkeep e v =
     v\<lparr>vw_run_id := (case vw_run_id v of None \<Rightarrow> Some (je_run_id e) | Some i \<Rightarrow> Some i),
       vw_last_seq := max (vw_last_seq v) (je_seq e),
       vw_last_ts := Some (case vw_last_ts v of None \<Rightarrow> je_ts e | Some t \<Rightarrow> max t (je_ts e)),
       vw_attempts := attempt_mut (je_attempt e) (je_ts e)
         (\<lambda>a. a\<lparr>av_last_event_at := max (av_last_event_at a) (je_ts e),
               av_last_activity_at :=
                 (if is_heartbeat (je_data e) then av_last_activity_at a
                  else max (av_last_activity_at a) (je_ts e))\<rparr>) (vw_attempts v)\<rparr>"

definition with_attempt :: "journal_event \<Rightarrow> (attempt_view \<Rightarrow> attempt_view) \<Rightarrow> run_view \<Rightarrow> run_view" where
  "with_attempt e f v = v\<lparr>vw_attempts := attempt_mut (je_attempt e) (je_ts e) f (vw_attempts v)\<rparr>"

definition with_task :: "str \<Rightarrow> (task_view \<Rightarrow> task_view) \<Rightarrow> run_view \<Rightarrow> run_view" where
  "with_task i f v = v\<lparr>vw_tasks := task_mut i f (vw_tasks v)\<rparr>"

definition stage_started :: "str \<Rightarrow> run_view \<Rightarrow> run_view" where
  "stage_started n v =
     (let v' = v\<lparr>vw_steps := vw_steps v + 1, vw_current_node := Some n, vw_visited := visit n None (vw_visited v)\<rparr>
      in case vw_current_task v of
           None \<Rightarrow> v'
         | Some t \<Rightarrow> with_task t (tv_node_visits_update (count_entry n)) v')"

fun apply_data :: "journal_event \<Rightarrow> event_data \<Rightarrow> run_view \<Rightarrow> run_view" where
  "apply_data e (JRunStarted name path wd epic budget steps shared) v =
     v\<lparr>vw_pipeline_name := Some name, vw_pipeline_path := Some path, vw_workdir := Some wd,
       vw_epic_id := or_else (vw_epic_id v) epic, vw_max_budget := budget, vw_max_steps := steps,
       vw_shared_workdir := shared\<rparr>"
| "apply_data e (JAttemptStarted _ pid ver argv head_opt resumed) v =
     with_attempt e (\<lambda>a. a\<lparr>av_pid := Some pid, av_pas_version := Some ver, av_argv := argv,
       av_git_head := head_opt, av_resumed_from := resumed, av_started_at := Some (je_ts e)\<rparr>) v"
| "apply_data e (JAttemptEnded _ reason msg) v =
     (with_attempt e (\<lambda>a. a\<lparr>av_ended := Some \<lparr>ae_reason = reason, ae_message = msg, ae_at = je_ts e\<rparr>\<rparr>) v)
       \<lparr>vw_current_node := None, vw_gate := None\<rparr>"
| "apply_data e (JHeartbeat _) v = with_attempt e (\<lambda>a. a\<lparr>av_last_heartbeat := Some (je_ts e)\<rparr>) v"
| "apply_data e (JPipelineCompleted _ _ _) v = v\<lparr>vw_current_node := None\<rparr>"
| "apply_data e (JPipelineFailed _ err) v = v\<lparr>vw_current_node := None, vw_pipeline_error := Some err\<rparr>"
| "apply_data e (JStageStarted n _) v = stage_started n v"
| "apply_data e (JStageCompleted n st _) v = v\<lparr>vw_visited := visit n (Some st) (vw_visited v)\<rparr>"
| "apply_data e (JStageFailed n err) v =
     v\<lparr>vw_visited := visit n (Some ''failed'') (vw_visited v),
       vw_failures := vw_failures v @ [\<lparr>sf_node = n, sf_detail = err, sf_attempt = None, sf_seq = je_seq e\<rparr>]\<rparr>"
| "apply_data e (JStageRetrying n k) v =
     v\<lparr>vw_retries := vw_retries v @ [\<lparr>sf_node = n, sf_detail = show_nat k, sf_attempt = Some k, sf_seq = je_seq e\<rparr>]\<rparr>"
| "apply_data e (JEpicSnapshot epic title tasks) v =
     v\<lparr>vw_tasks := adopt_tasks tasks (vw_tasks v), vw_epic_children := map ts_id tasks,
       vw_epic_id := Some epic, vw_epic_title := Some title\<rparr>"
| "apply_data e (JTaskClaimed t title _ n) v =
     (with_task t (\<lambda>x. x\<lparr>tv_title := title, tv_status := ''in_progress'', tv_node := Some n\<rparr>) v)
       \<lparr>vw_current_task := Some t, vw_task_blocked := None\<rparr>"
| "apply_data e (JTaskSelectionBlocked _ opn blocked) v =
     v\<lparr>vw_task_blocked := Some \<lparr>tb_open = opn, tb_blocked_by = blocked, tb_seq = je_seq e\<rparr>\<rparr>"
| "apply_data e (JTaskClosed t reason verified commits) v =
     (let v' = with_task t (\<lambda>x. x\<lparr>tv_status := ''closed'', tv_reason := Some reason,
            tv_upstream_verified := Some verified, tv_commits := commits\<rparr>) v
      in if vw_current_task v = Some t then v'\<lparr>vw_current_task := None\<rparr> else v')"
| "apply_data e (JLlmInvoked i n p mr ma it ot cost ms tr st) v =
     v\<lparr>vw_cost := f64_add (vw_cost v) (case cost of Some c \<Rightarrow> c | None \<Rightarrow> Fin 0 0),
       vw_invocations := vw_invocations v @
         [\<lparr>iv_id = i, iv_node = n, iv_task = vw_current_task v, iv_provider = p,
           iv_model_requested = mr, iv_model_actual = ma, iv_input_tokens = it, iv_output_tokens = ot,
           iv_cost_usd = cost, iv_duration_ms = ms, iv_transcript = tr, iv_status = st\<rparr>]\<rparr>"
| "apply_data e (JCommitsCreated n t commits) v = v\<lparr>vw_commits := add_commits n t commits (vw_commits v)\<rparr>"
| "apply_data e (JHumanInputRequested q n txt choices d) v =
     v\<lparr>vw_gate := Some \<lparr>gv_question = q, gv_node = n, gv_text = txt, gv_choices = choices,
                        gv_default = d, gv_requested_at = je_ts e\<rparr>\<rparr>"
| "apply_data e (JHumanInputAnswered q c src) v =
     (let v' = (case vw_gate v of Some g \<Rightarrow> if gv_question g = q then v\<lparr>vw_gate := None\<rparr> else v | None \<Rightarrow> v)
      in v'\<lparr>vw_answered := vw_answered v @ [\<lparr>ag_question = q, ag_choice = c, ag_source = src\<rparr>]\<rparr>)"
| "apply_data e (JStopRequested src) v = v\<lparr>vw_stop_requested := Some src\<rparr>"
| "apply_data e (JPipelineStarted _ _) v = v"
| "apply_data e (JEdgeSelected _ _ _) v = v"
| "apply_data e (JGoalGateChecked _ _) v = v"
| "apply_data e (JCheckpointSaved _) v = v"
| "apply_data e (JContextUpdated _ _) v = v"
| "apply_data e (JUnknown _ _) v = v"

definition apply_event :: "journal_event \<Rightarrow> run_view \<Rightarrow> run_view" where
  "apply_event e v =
     (if is_unknown (je_data e) then v
      else recompute_status (apply_data e (je_data e) (bookkeep e v)))"

definition fold_view :: "journal_event list \<Rightarrow> run_view" where
  "fold_view es = fold apply_event es view_default"

definition find_task :: "run_view \<Rightarrow> str \<Rightarrow> task_view option" where
  "find_task v i = find (\<lambda>t. tv_id t = i) (vw_tasks v)"

definition epic :: "run_view \<Rightarrow> epic_progress option" where
  "epic v =
     (case vw_epic_id v of
        None \<Rightarrow> None
      | Some i \<Rightarrow>
          Some \<lparr>ep_epic_id = i, ep_title = (case vw_epic_title v of Some t \<Rightarrow> t | None \<Rightarrow> []),
                ep_closed = length (filter (\<lambda>c. case find_task v c of Some t \<Rightarrow> is_closed t | None \<Rightarrow> False)
                  (vw_epic_children v)),
                ep_total = length (vw_epic_children v)\<rparr>)"

section \<open>Frames\<close>

lemma fold_view_Nil [simp]: "fold_view [] = view_default"
  by (simp add: fold_view_def)

lemma fold_view_snoc [simp]: "fold_view (es @ [e]) = apply_event e (fold_view es)"
  by (simp add: fold_view_def)

lemma apply_unknown [simp]: "is_unknown (je_data e) \<Longrightarrow> apply_event e v = v"
  by (simp add: apply_event_def)

lemma fold_known: "fold_view (known es) = fold_view es"
  by (induction es rule: rev_induct) (simp_all add: known_def)

lemma stage_started_frame [simp]:
  "vw_attempts (stage_started n v) = vw_attempts v" "vw_gate (stage_started n v) = vw_gate v"
  "vw_commits (stage_started n v) = vw_commits v" "vw_cost (stage_started n v) = vw_cost v"
  "vw_steps (stage_started n v) = Suc (vw_steps v)" "vw_visited (stage_started n v) = visit n None (vw_visited v)"
  "vw_failures (stage_started n v) = vw_failures v" "vw_retries (stage_started n v) = vw_retries v"
  "vw_epic_id (stage_started n v) = vw_epic_id v" "vw_epic_children (stage_started n v) = vw_epic_children v"
  "vw_current_node (stage_started n v) = Some n"
  by (simp_all add: stage_started_def with_task_def Let_def split: option.splits)

lemma with_task_frame [simp]:
  "vw_attempts (with_task i f v) = vw_attempts v" "vw_gate (with_task i f v) = vw_gate v"
  "vw_commits (with_task i f v) = vw_commits v" "vw_cost (with_task i f v) = vw_cost v"
  "vw_steps (with_task i f v) = vw_steps v" "vw_visited (with_task i f v) = vw_visited v"
  "vw_failures (with_task i f v) = vw_failures v" "vw_retries (with_task i f v) = vw_retries v"
  "vw_current_node (with_task i f v) = vw_current_node v" "vw_current_task (with_task i f v) = vw_current_task v"
  by (simp_all add: with_task_def)

lemma with_attempt_frame [simp]:
  "vw_attempts (with_attempt e f v) = attempt_mut (je_attempt e) (je_ts e) f (vw_attempts v)"
  "vw_gate (with_attempt e f v) = vw_gate v" "vw_commits (with_attempt e f v) = vw_commits v"
  "vw_cost (with_attempt e f v) = vw_cost v" "vw_steps (with_attempt e f v) = vw_steps v"
  "vw_visited (with_attempt e f v) = vw_visited v" "vw_failures (with_attempt e f v) = vw_failures v"
  "vw_retries (with_attempt e f v) = vw_retries v" "vw_current_node (with_attempt e f v) = vw_current_node v"
  by (simp_all add: with_attempt_def)

lemma bookkeep_frame [simp]:
  "vw_gate (bookkeep e v) = vw_gate v" "vw_commits (bookkeep e v) = vw_commits v"
  "vw_cost (bookkeep e v) = vw_cost v" "vw_steps (bookkeep e v) = vw_steps v"
  "vw_visited (bookkeep e v) = vw_visited v" "vw_failures (bookkeep e v) = vw_failures v"
  "vw_retries (bookkeep e v) = vw_retries v" "vw_current_node (bookkeep e v) = vw_current_node v"
  "vw_current_task (bookkeep e v) = vw_current_task v" "vw_tasks (bookkeep e v) = vw_tasks v"
  by (simp_all add: bookkeep_def)

lemma recompute_frame [simp]:
  "vw_attempts (recompute_status v) = vw_attempts v" "vw_gate (recompute_status v) = vw_gate v"
  "vw_commits (recompute_status v) = vw_commits v" "vw_cost (recompute_status v) = vw_cost v"
  "vw_steps (recompute_status v) = vw_steps v" "vw_visited (recompute_status v) = vw_visited v"
  "vw_failures (recompute_status v) = vw_failures v" "vw_retries (recompute_status v) = vw_retries v"
  "vw_status (recompute_status v) = attempts_status (vw_attempts v)"
  "vw_current_node (recompute_status v) = vw_current_node v"
  by (simp_all add: recompute_status_def)

section \<open>Attempts\<close>

definition attempt_of :: "nat \<Rightarrow> attempt_view list \<Rightarrow> attempt_view option" where
  "attempt_of n as = find (\<lambda>a. av_attempt a = n) as"

definition attempts_ok :: "attempt_view list \<Rightarrow> bool" where
  "attempts_ok as \<longleftrightarrow> sorted_wrt (<) (map av_attempt as)"

lemma attempt_of_simps [simp]:
  "attempt_of n [] = None"
  "attempt_of n (a # as) = (if av_attempt a = n then Some a else attempt_of n as)"
  by (simp_all add: attempt_of_def)

lemma attempt_of_append: "attempt_of n (as @ bs) = or_else (attempt_of n as) (attempt_of n bs)"
  by (induction as) auto

lemma attempt_of_None: "attempt_of n as = None \<longleftrightarrow> n \<notin> set (map av_attempt as)"
  by (induction as) auto

lemma update_first_ids:
  "(\<And>a. av_attempt (f a) = av_attempt a) \<Longrightarrow>
   map av_attempt (update_first P f as) = map av_attempt as"
  by (induction as) auto

lemma attempt_of_update:
  "(\<And>a. av_attempt (f a) = av_attempt a) \<Longrightarrow>
   attempt_of m (update_first (\<lambda>a. av_attempt a = n) f as) =
     (if m = n then map_option f (attempt_of n as) else attempt_of m as)"
  by (induction as) auto

lemma attempt_mut_of:
  assumes f: "\<And>a. av_attempt (f a) = av_attempt a"
  shows "attempt_of m (attempt_mut n ts f as) =
     (if m = n then Some (f (case attempt_of n as of None \<Rightarrow> attempt_default n ts | Some a \<Rightarrow> a))
      else attempt_of m as)"
proof (cases "list_ex (\<lambda>a. av_attempt a = n) as")
  case True
  then obtain a where "attempt_of n as = Some a"
    using attempt_of_None [of n as] by (cases "attempt_of n as") (auto simp: list_ex_iff)
  with True show ?thesis by (simp add: attempt_mut_def attempt_of_update [OF f])
next
  case False
  then have "attempt_of n as = None" by (auto simp: attempt_of_None list_ex_iff)
  moreover have "or_else (attempt_of m (takeWhile P as)) (attempt_of m (dropWhile P as)) = attempt_of m as" for P
    using attempt_of_append [of m "takeWhile P as" "dropWhile P as"] by simp
  moreover have "attempt_of n (takeWhile P as) = None" "attempt_of n (dropWhile P as) = None" for P
    using False by (auto simp: attempt_of_None list_ex_iff dest!: set_takeWhileD set_dropWhileD)
  moreover have "av_attempt (f (attempt_default n ts)) = n" using f by (simp add: attempt_default_def)
  ultimately show ?thesis using False by (auto simp: attempt_mut_def attempt_of_append)
qed

lemma attempt_mut_ok:
  assumes f: "\<And>a. av_attempt (f a) = av_attempt a" and ok: "attempts_ok as"
  shows "attempts_ok (attempt_mut n ts f as)"
    and "av_attempt ` set (attempt_mut n ts f as) = insert n (av_attempt ` set as)"
proof -
  have "attempts_ok (attempt_mut n ts f as) \<and>
    av_attempt ` set (attempt_mut n ts f as) = insert n (av_attempt ` set as)"
  proof (cases "list_ex (\<lambda>a. av_attempt a = n) as")
    case True
    moreover from this have "n \<in> av_attempt ` set as" by (auto simp: list_ex_iff)
    moreover have "av_attempt ` set (update_first P f as) = av_attempt ` set as" for P
      using arg_cong [OF update_first_ids [OF f, of P as], of set] by simp
    ultimately show ?thesis
      using ok update_first_ids [OF f] by (auto simp: attempt_mut_def attempts_ok_def insert_absorb)
  next
    case False
    have d: "av_attempt (f (attempt_default n ts)) = n" using f by (simp add: attempt_default_def)
    from ok False show ?thesis
    proof (induction as)
      case (Cons a as)
      then show ?case
      proof (cases "n < av_attempt a")
        case True
        with Cons.prems d show ?thesis by (force simp: attempt_mut_def attempts_ok_def)
      next
        case False
        with Cons.prems have "av_attempt a < n" by (auto simp: list_ex_iff)
        moreover have "attempt_mut n ts f (a # as) = a # attempt_mut n ts f as"
          using Cons.prems False by (simp add: attempt_mut_def)
        ultimately show ?thesis using Cons by (auto simp: attempts_ok_def)
      qed
    qed (use d in \<open>simp add: attempt_mut_def attempts_ok_def\<close>)
  qed
  then show "attempts_ok (attempt_mut n ts f as)"
    "av_attempt ` set (attempt_mut n ts f as) = insert n (av_attempt ` set as)" by blast+
qed

text \<open>The last attempt is the one with the greatest number.\<close>

lemma last_is_greatest:
  assumes "attempts_ok as" "as \<noteq> []"
  shows "attempt_of (Max (set (map av_attempt as))) as = Some (last as)"
  using assms
proof (induction as)
  case (Cons a as)
  show ?case
  proof (cases as)
    case Nil
    then show ?thesis by simp
  next
    case (Cons b bs)
    have m: "Max (set (map av_attempt as)) \<in> set (map av_attempt as)" using Cons by (intro Max_in) auto
    with Cons.prems have lt: "av_attempt a < Max (set (map av_attempt as))" by (auto simp: attempts_ok_def)
    then have "Max (set (map av_attempt (a # as))) = Max (set (map av_attempt as))"
      using Cons by (simp add: max_def)
    with Cons.IH Cons.prems lt Cons show ?thesis by (simp add: attempts_ok_def)
  qed
qed simp

text \<open>What one event does to its attempt.\<close>

fun attempt_data :: "journal_event \<Rightarrow> event_data \<Rightarrow> attempt_view \<Rightarrow> attempt_view" where
  "attempt_data e (JAttemptStarted _ pid ver argv head_opt resumed) a =
     a\<lparr>av_pid := Some pid, av_pas_version := Some ver, av_argv := argv, av_git_head := head_opt,
       av_resumed_from := resumed, av_started_at := Some (je_ts e)\<rparr>"
| "attempt_data e (JAttemptEnded _ reason msg) a =
     a\<lparr>av_ended := Some \<lparr>ae_reason = reason, ae_message = msg, ae_at = je_ts e\<rparr>\<rparr>"
| "attempt_data e (JHeartbeat _) a = a\<lparr>av_last_heartbeat := Some (je_ts e)\<rparr>"
| "attempt_data e _ a = a"

definition attempt_book :: "journal_event \<Rightarrow> attempt_view \<Rightarrow> attempt_view" where
  "attempt_book e a =
     a\<lparr>av_last_event_at := max (av_last_event_at a) (je_ts e),
       av_last_activity_at :=
         (if is_heartbeat (je_data e) then av_last_activity_at a else max (av_last_activity_at a) (je_ts e))\<rparr>"

lemma attempt_data_id [simp]:
  "av_attempt (attempt_data e d a) = av_attempt a" "av_attempt (attempt_book e a) = av_attempt a"
  by (cases d; simp add: attempt_book_def)+

lemma apply_attempt_of:
  assumes "\<not> is_unknown (je_data e)"
  shows "attempt_of n (vw_attempts (apply_event e v)) =
     (if n = je_attempt e
      then Some (attempt_data e (je_data e) (attempt_book e
             (case attempt_of n (vw_attempts v) of None \<Rightarrow> attempt_default n (je_ts e) | Some a \<Rightarrow> a)))
      else attempt_of n (vw_attempts v))"
proof -
  have b: "vw_attempts (bookkeep e v) = attempt_mut (je_attempt e) (je_ts e) (attempt_book e) (vw_attempts v)"
    by (simp add: bookkeep_def attempt_book_def [abs_def])
  show ?thesis using assms
    by (cases "je_data e") (simp_all add: apply_event_def b attempt_mut_of Let_def split: option.splits)
qed

lemma apply_attempts_ok:
  assumes "\<not> is_unknown (je_data e)" "attempts_ok (vw_attempts v)"
  shows "attempts_ok (vw_attempts (apply_event e v)) \<and>
    av_attempt ` set (vw_attempts (apply_event e v)) = insert (je_attempt e) (av_attempt ` set (vw_attempts v))"
proof -
  have b: "vw_attempts (bookkeep e v) = attempt_mut (je_attempt e) (je_ts e) (attempt_book e) (vw_attempts v)"
    by (simp add: bookkeep_def attempt_book_def [abs_def])
  note m = attempt_mut_ok [of "attempt_book e", OF attempt_data_id(2) assms(2)]
  show ?thesis using assms(1) m
    by (cases "je_data e") (simp_all add: apply_event_def b attempt_mut_ok Let_def split: option.splits)
qed

section \<open>Attempts of a whole journal\<close>

abbreviation attempt_part :: "nat \<Rightarrow> journal_event list \<Rightarrow> journal_event list" where
  "attempt_part n es \<equiv> filter (\<lambda>e. je_attempt e = n) (known es)"

lemma fold_attempts_ok:
  "attempts_ok (vw_attempts (fold_view es)) \<and>
   av_attempt ` set (vw_attempts (fold_view es)) = je_attempt ` set (known es)"
proof (induction es rule: rev_induct)
  case Nil
  show ?case by (simp add: view_default_def attempts_ok_def)
next
  case (snoc e es)
  then show ?case
    by (cases "is_unknown (je_data e)") (simp_all add: apply_attempts_ok known_def)
qed

definition end_of :: "journal_event \<Rightarrow> attempt_end option" where
  "end_of e = (case je_data e of
     JAttemptEnded _ reason msg \<Rightarrow> Some \<lparr>ae_reason = reason, ae_message = msg, ae_at = je_ts e\<rparr>
   | _ \<Rightarrow> None)"

definition last_end :: "journal_event list \<Rightarrow> attempt_end option" where
  "last_end es = fold (\<lambda>e r. or_else (end_of e) r) es None"

lemma last_end_snoc [simp]:
  "last_end [] = None" "last_end [e] = end_of e" "last_end (es @ [e]) = or_else (end_of e) (last_end es)"
  by (simp_all add: last_end_def)

lemma last_sign_snoc [simp]:
  "last_sign pid_of [] = None"
  "last_sign pid_of [e] = map_option (\<lambda>p. (je_ts e, p)) (pid_of (je_data e))"
  "last_sign pid_of (es @ [e]) = or_else (map_option (\<lambda>p. (je_ts e, p)) (pid_of (je_data e))) (last_sign pid_of es)"
  by (cases "pid_of (je_data e)") (auto simp: last_sign_def)

text \<open>The fields of an attempt, read off the events that carry its number.\<close>

lemma fold_attempt:
  "case attempt_of n (vw_attempts (fold_view es)) of
     None \<Rightarrow> attempt_part n es = []
   | Some a \<Rightarrow> attempt_part n es \<noteq> [] \<and> av_attempt a = n \<and>
       av_ended a = last_end (attempt_part n es) \<and>
       av_pid a = map_option snd (last_sign start_pid (attempt_part n es)) \<and>
       av_started_at a = map_option fst (last_sign start_pid (attempt_part n es)) \<and>
       av_last_heartbeat a = map_option fst (last_sign beat_pid (attempt_part n es)) \<and>
       av_last_event_at a = Max (je_ts ` set (attempt_part n es))"
proof (induction es rule: rev_induct)
  case Nil
  show ?case by (simp add: view_default_def known_def)
next
  case (snoc e es)
  show ?case
  proof (cases "is_unknown (je_data e) \<or> je_attempt e \<noteq> n")
    case True
    then have p: "attempt_part n (es @ [e]) = attempt_part n es"
      "attempt_of n (vw_attempts (fold_view (es @ [e]))) = attempt_of n (vw_attempts (fold_view es))"
      by (cases "is_unknown (je_data e)"; auto simp: known_def apply_attempt_of)+
    show ?thesis unfolding p by (rule snoc.IH)
  next
    case False
    then have p: "attempt_part n (es @ [e]) = attempt_part n es @ [e]" by (simp add: known_def)
    show ?thesis
    proof (cases "attempt_of n (vw_attempts (fold_view es))")
      case None
      with snoc have "attempt_part n es = []" by simp
      with None False p show ?thesis
        by (cases "je_data e") (simp_all add: apply_attempt_of attempt_default_def attempt_book_def end_of_def)
    next
      case (Some a)
      with snoc have a: "attempt_part n es \<noteq> []" "av_attempt a = n" "av_ended a = last_end (attempt_part n es)"
        "av_pid a = map_option snd (last_sign start_pid (attempt_part n es))"
        "av_started_at a = map_option fst (last_sign start_pid (attempt_part n es))"
        "av_last_heartbeat a = map_option fst (last_sign beat_pid (attempt_part n es))"
        "av_last_event_at a = Max (je_ts ` set (attempt_part n es))" by simp_all
      have "Max (insert t T) = max t (Max T)" if "finite T" "T \<noteq> {}" for t and T :: "time set"
        using that by (rule Max_insert)
      from this [of "je_ts ` set (attempt_part n es)" "je_ts e"] a
      have "max (av_last_event_at a) (je_ts e) = Max (je_ts ` set (attempt_part n es @ [e]))"
        by (simp add: max.commute del: set_filter)
      with Some False p a show ?thesis
        by (cases "je_data e") (simp_all add: apply_attempt_of attempt_book_def end_of_def del: set_append set_filter)
    qed
  qed
qed

section \<open>Status\<close>

lemma fold_status:
  "vw_status (fold_view es) =
     (if known es = [] then VsUnknown else attempts_status (vw_attempts (fold_view es)))"
proof (induction es rule: rev_induct)
  case Nil
  show ?case by (simp add: view_default_def)
next
  case (snoc e es)
  show ?case
  proof (cases "is_unknown (je_data e)")
    case True
    with snoc show ?thesis by (simp add: known_def)
  next
    case False
    then show ?thesis by (simp add: apply_event_def known_def)
  qed
qed

lemma fold_last_attempt:
  assumes "known es \<noteq> []"
  shows "vw_attempts (fold_view es) \<noteq> []"
    and "attempt_of (Max (je_attempt ` set (known es))) (vw_attempts (fold_view es)) = Some (last (vw_attempts (fold_view es)))"
    and "attempt_events (known es) = attempt_part (Max (je_attempt ` set (known es))) es"
proof -
  have ok: "attempts_ok (vw_attempts (fold_view es))"
    and ids: "av_attempt ` set (vw_attempts (fold_view es)) = je_attempt ` set (known es)"
    using fold_attempts_ok [of es] by blast+
  show ne: "vw_attempts (fold_view es) \<noteq> []" using ids assms by auto
  show "attempt_of (Max (je_attempt ` set (known es))) (vw_attempts (fold_view es)) = Some (last (vw_attempts (fold_view es)))"
    using last_is_greatest [OF ok ne] ids by simp
  show "attempt_events (known es) = attempt_part (Max (je_attempt ` set (known es))) es"
    using assms by (auto simp: attempt_events_def last_attempt_def intro: filter_cong)
qed

lemma end_of_is_end: "end_of e \<noteq> None \<longleftrightarrow> is_end (je_data e)"
  by (cases "je_data e") (simp_all add: end_of_def)

lemma end_of_reason: "map_option ae_reason (end_of e) = end_reason (je_data e)"
  by (cases "je_data e") (simp_all add: end_of_def)

lemma find_append: "find P (xs @ ys) = or_else (find P xs) (find P ys)"
  by (induction xs) auto

lemma no_end:
  assumes "filter (\<lambda>e. is_end (je_data e)) es = []"
  shows "last_end es = None" "find (\<lambda>e. is_end (je_data e)) es = None"
proof -
  show "last_end es = None" using assms
  proof (induction es rule: rev_induct)
    case (snoc e es)
    then have "end_of e = None" using end_of_is_end [of e] by auto
    with snoc show ?case by auto
  qed simp
  show "find (\<lambda>e. is_end (je_data e)) es = None"
    using assms by (auto simp: find_None_iff filter_empty_conv)
qed

lemma single_end:
  assumes "length (filter (\<lambda>e. is_end (je_data e)) es) \<le> 1"
  shows "map_option ae_reason (last_end es) = first_end es"
  using assms
proof (induction es rule: rev_induct)
  case (snoc e es)
  show ?case
  proof (cases "is_end (je_data e)")
    case True
    with snoc.prems have "filter (\<lambda>e. is_end (je_data e)) es = []" by simp
    with True show ?thesis by (simp add: first_end_def end_of_reason no_end find_append)
  next
    case False
    then have "end_of e = None" using end_of_is_end [of e] by auto
    moreover have "first_end (es @ [e]) = first_end es"
      using False by (simp add: first_end_def find_append)
    ultimately show ?thesis using snoc False by simp
  qed
qed (simp add: first_end_def)

fun view_of_status :: "run_status \<Rightarrow> view_status" where
  "view_of_status StCompleted = VsCompleted"
| "view_of_status StFailed = VsFailed"
| "view_of_status StStopped = VsStopped"
| "view_of_status StMissing = VsUnknown"
| "view_of_status _ = VsRunning"

lemma view_of_reason [simp]: "view_of_status (status_of_reason r) = status_of_end r"
  by (cases r) simp_all

lemma view_status_eq:
  assumes "known es \<noteq> []" "length (filter (\<lambda>e. is_end (je_data e)) (attempt_events (known es))) \<le> 1"
  shows "vw_status (fold_view es) = view_of_status (derive_status (known es) started_at now alive)"
proof -
  note l = fold_last_attempt [OF assms(1)]
  let ?p = "attempt_part (Max (je_attempt ` set (known es))) es"
  have "av_ended (last (vw_attempts (fold_view es))) = last_end ?p"
    using fold_attempt [of "Max (je_attempt ` set (known es))" es] l(2) by simp
  moreover have "map_option ae_reason (last_end ?p) = first_end ?p"
    using single_end assms(2) l(3) by simp
  ultimately have "vw_status (fold_view es) = (case first_end ?p of None \<Rightarrow> VsRunning | Some r \<Rightarrow> status_of_end r)"
    using l(1) assms(1) by (auto simp: fold_status attempts_status_def split: option.splits)
  then show ?thesis by (simp add: derive_status_eq l(3) split: option.splits)
qed

section \<open>Counters\<close>

fun stage_node :: "event_data \<Rightarrow> str option" where
  "stage_node (JStageStarted n _) = Some n"
| "stage_node _ = None"

definition stage_starts :: "journal_event list \<Rightarrow> str list" where
  "stage_starts es = List.map_filter (\<lambda>e. stage_node (je_data e)) es"

lemma stage_starts_snoc [simp]:
  "stage_starts [] = []"
  "stage_starts (es @ [e]) = stage_starts es @ (case stage_node (je_data e) of None \<Rightarrow> [] | Some n \<Rightarrow> [n])"
  by (simp_all add: stage_starts_def map_filter_def split: option.splits)

lemma stage_starts_known: "stage_starts (known es) = stage_starts es"
proof (induction es rule: rev_induct)
  case (snoc e es)
  have "is_unknown d \<Longrightarrow> stage_node d = None" for d by (cases d) simp_all
  with snoc show ?case by (cases "is_unknown (je_data e)") (auto simp: known_def)
qed (simp add: known_def)

definition visits_of :: "str \<Rightarrow> node_visit list \<Rightarrow> nat" where
  "visits_of n vs = (case find (\<lambda>v. nv_node v = n) vs of None \<Rightarrow> 0 | Some v \<Rightarrow> nv_visits v)"

lemma visits_of_simps [simp]:
  "visits_of n [] = 0"
  "visits_of n (v # vs) = (if nv_node v = n then nv_visits v else visits_of n vs)"
  by (simp_all add: visits_of_def)

lemma visits_of_absent: "n \<notin> nv_node ` set vs \<Longrightarrow> visits_of n (vs @ ws) = visits_of n ws"
  by (induction vs) auto

lemma visits_of_append: "n \<in> nv_node ` set vs \<Longrightarrow> visits_of n (vs @ ws) = visits_of n vs"
  by (induction vs) auto

lemma visits_update_first:
  "(\<And>v. nv_node (f v) = nv_node v) \<Longrightarrow>
   visits_of m (update_first (\<lambda>v. nv_node v = n) f vs) =
     (if m = n \<and> n \<in> nv_node ` set vs then nv_visits (f (the (find (\<lambda>v. nv_node v = n) vs))) else visits_of m vs)"
  by (induction vs) auto

lemma visits_of_visit:
  "visits_of m (visit n st vs) = visits_of m vs + (if st = None \<and> m = n then 1 else 0)"
proof (cases "list_ex (\<lambda>v. nv_node v = n) vs")
  case True
  then have i: "n \<in> nv_node ` set vs" by (auto simp: list_ex_iff)
  then obtain v where v: "find (\<lambda>v. nv_node v = n) vs = Some v"
    by (cases "find (\<lambda>v. nv_node v = n) vs") (auto simp: find_None_iff)
  then have "visits_of n vs = nv_visits v" by (simp add: visits_of_def)
  with True i v show ?thesis
    by (cases st) (auto simp: visit_def visits_update_first)
next
  case False
  then have i: "n \<notin> nv_node ` set vs" by (auto simp: list_ex_iff)
  then have "visits_of n vs = 0" using visits_of_absent [of n vs "[]"] by simp
  moreover have "m \<noteq> n \<Longrightarrow> visits_of m (vs @ [x]) = visits_of m vs" if "nv_node x = n" for x
    using that by (cases "m \<in> nv_node ` set vs") (simp_all add: visits_of_append visits_of_absent [of m vs "[]", simplified] visits_of_absent)
  ultimately show ?thesis using False i
    by (cases st; cases "m = n") (auto simp: visit_def visits_of_absent)
qed

lemma fold_steps:
  "vw_steps (fold_view es) = length (stage_starts es)"
  "visits_of n (vw_visited (fold_view es)) = count_list (stage_starts es) n"
proof -
  have "vw_steps (fold_view es) = length (stage_starts es) \<and>
    visits_of n (vw_visited (fold_view es)) = count_list (stage_starts es) n"
  proof (induction es rule: rev_induct)
    case Nil
    show ?case by (simp add: view_default_def)
  next
    case (snoc e es)
    then show ?case
      by (cases "je_data e") (simp_all add: apply_event_def visits_of_visit Let_def split: option.splits)
  qed
  then show "vw_steps (fold_view es) = length (stage_starts es)"
    "visits_of n (vw_visited (fold_view es)) = count_list (stage_starts es) n" by blast+
qed

section \<open>Commits and gates\<close>

fun commit_shas :: "event_data \<Rightarrow> str list" where
  "commit_shas (JCommitsCreated _ _ cs) = map cr_sha cs"
| "commit_shas _ = []"

lemma add_commits_shas:
  "distinct (map cv_sha cs) \<Longrightarrow>
   distinct (map cv_sha (add_commits n t new cs)) \<and>
   cv_sha ` set (add_commits n t new cs) = cv_sha ` set cs \<union> cr_sha ` set new"
proof (induction new arbitrary: cs)
  case (Cons c new)
  let ?cs = "if list_ex (\<lambda>x. cv_sha x = cr_sha c) cs then cs
    else cs @ [\<lparr>cv_sha = cr_sha c, cv_subject = cr_subject c, cv_author = cr_author c,
                cv_ts = cr_ts c, cv_node = n, cv_task = t\<rparr>]"
  have d: "distinct (map cv_sha ?cs)" and s: "cv_sha ` set ?cs = insert (cr_sha c) (cv_sha ` set cs)"
    using Cons.prems by (auto simp: list_ex_iff intro: rev_image_eqI)
  show ?case using Cons.IH [OF d] unfolding s by simp
qed simp

lemma fold_commits:
  "distinct (map cv_sha (vw_commits (fold_view es))) \<and>
   cv_sha ` set (vw_commits (fold_view es)) = (\<Union>e \<in> set es. set (commit_shas (je_data e)))"
proof (induction es rule: rev_induct)
  case Nil
  show ?case by (simp add: view_default_def)
next
  case (snoc e es)
  then show ?case
    by (cases "je_data e") (auto simp: apply_event_def Let_def add_commits_shas split: option.splits)
qed

text \<open>The event that asks the question of a pending gate, and the events after which it is not pending.\<close>

definition asks :: "gate_view \<Rightarrow> journal_event \<Rightarrow> bool" where
  "asks g e \<longleftrightarrow> gv_requested_at g = je_ts e \<and>
     je_data e = JHumanInputRequested (gv_question g) (gv_node g) (gv_text g) (gv_choices g) (gv_default g)"

fun settles :: "str \<Rightarrow> event_data \<Rightarrow> bool" where
  "settles q (JAttemptEnded _ _ _) = True"
| "settles q (JHumanInputRequested _ _ _ _ _) = True"
| "settles q (JHumanInputAnswered q' _ _) = (q' = q)"
| "settles q _ = False"

lemma apply_gate:
  "vw_gate (apply_event e v) = Some g \<longleftrightarrow>
     asks g e \<or> vw_gate v = Some g \<and> \<not> settles (gv_question g) (je_data e)"
  by (cases "je_data e"; cases g) (auto simp: apply_event_def asks_def Let_def split: option.splits)

lemma fold_gate:
  "vw_gate (fold_view es) = Some g \<longleftrightarrow>
     (\<exists>before e after. es = before @ e # after \<and> asks g e \<and>
        list_all (\<lambda>x. \<not> settles (gv_question g) (je_data x)) after)"
proof (induction es rule: rev_induct)
  case Nil
  show ?case by (simp add: view_default_def)
next
  case (snoc x es)
  note IH = snoc.IH
  show ?case (is "?l \<longleftrightarrow> (\<exists>b e a. ?r b e a)")
  proof
    assume ?l
    then consider "asks g x" | b e a where "es = b @ e # a" "asks g e"
      "list_all (\<lambda>x. \<not> settles (gv_question g) (je_data x)) a" "\<not> settles (gv_question g) (je_data x)"
      using snoc.IH by (auto simp: apply_gate)
    then show "\<exists>b e a. ?r b e a"
    proof cases
      case 1
      then have "?r es x []" by simp
      then show ?thesis by blast
    next
      case (2 b e a)
      then have "?r b e (a @ [x])" by simp
      then show ?thesis by blast
    qed
  next
    assume "\<exists>b e a. ?r b e a"
    then obtain b e a where r: "?r b e a" by blast
    show ?l
    proof (cases a rule: rev_cases)
      case Nil
      with r show ?thesis by (simp add: apply_gate)
    next
      case (snoc a' y)
      with r have "es = b @ e # a'" "y = x" by simp_all
      with r snoc have "vw_gate (fold_view es) = Some g" "\<not> settles (gv_question g) (je_data x)"
        using IH by auto
      then show ?thesis by (simp add: apply_gate)
    qed
  qed
qed

section \<open>Properties of the projection\<close>

text \<open>
  Property C30. The status the Monitor folds from the events is the one \<open>derive_status\<close> finds in the
  journal, with a crashed run still shown as running, whenever the last attempt ended at most once.
\<close>

theorem view_status_agrees:
  assumes "known es \<noteq> []" "length (filter (\<lambda>e. is_end (je_data e)) (attempt_events (known es))) \<le> 1"
  shows "vw_status (fold_view es) = view_of_status (derive_status (known es) started_at now alive)"
  using assms by (rule view_status_eq)

theorem view_status_agrees_witness:
  "vw_status (fold_view [demo_event]) = view_of_status (derive_status (known [demo_event]) 0 0 (\<lambda>_. True))"
  by (rule view_status_agrees)
     (simp_all add: known_def demo_event_def journal_event_new_def attempt_events_def)

text \<open>
  The attempts of a view are the attempts of the events, in strictly increasing order
  whatever the order of the events, and each has the end, the process, the start and the heartbeat
  that the last event of that kind with its number reported.
\<close>

theorem view_attempts_exact:
  "sorted_wrt (<) (map av_attempt (vw_attempts (fold_view es))) \<and>
   av_attempt ` set (vw_attempts (fold_view es)) = je_attempt ` set (known es) \<and>
   (case attempt_of n (vw_attempts (fold_view es)) of
      None \<Rightarrow> n \<notin> je_attempt ` set (known es)
    | Some a \<Rightarrow>
        av_ended a = last_end (attempt_part n es) \<and>
        av_pid a = map_option snd (last_sign start_pid (attempt_part n es)) \<and>
        av_started_at a = map_option fst (last_sign start_pid (attempt_part n es)) \<and>
        av_last_heartbeat a = map_option fst (last_sign beat_pid (attempt_part n es)))"
  using fold_attempts_ok [of es] fold_attempt [of n es] attempt_of_None [of n "vw_attempts (fold_view es)"]
  by (auto simp: attempts_ok_def split: option.split)

text \<open>
  Property C31. A human gate is shown as pending exactly when some event asked its question and no
  later event ended an attempt, asked another question or answered this one.
\<close>

theorem view_gate_exact:
  "vw_gate (fold_view es) = Some g \<longleftrightarrow>
     (\<exists>before e after. es = before @ e # after \<and> asks g e \<and>
        list_all (\<lambda>x. \<not> settles (gv_question g) (je_data x)) after)"
  by (rule fold_gate)

text \<open>The steps of a view are the stages started, and they are the sum over the nodes visited.\<close>

theorem view_counts_exact:
  "vw_steps (fold_view es) = length (stage_starts es) \<and>
   visits_of n (vw_visited (fold_view es)) = count_list (stage_starts es) n"
  using fold_steps by blast

text \<open>Every commit of the events is in the view, once.\<close>

theorem view_commits_exact:
  "distinct (map cv_sha (vw_commits (fold_view es))) \<and>
   cv_sha ` set (vw_commits (fold_view es)) = (\<Union>e \<in> set es. set (commit_shas (je_data e)))"
  by (rule fold_commits)



text \<open>
  \<open>epic\<close> is documented to give nothing before the first snapshot; a run started with an epic has a
  progress of zero children out of zero.
\<close>

theorem epic_before_snapshot:
  assumes "je_data e = JRunStarted name path wd (Some i) budget steps shared"
  shows "epic (fold_view [e]) = Some \<lparr>ep_epic_id = i, ep_title = [], ep_closed = 0, ep_total = 0\<rparr>"
  using assms by (simp add: fold_view_def apply_event_def recompute_status_def bookkeep_def view_default_def epic_def)

end
