(* ===== verification/Monitor_Findings.thy ===== *)
theory Monitor_Findings
  imports Monitor_View
begin

text \<open>
  The findings of the Monitor (\<open>crates/attractor-monitor/src/findings.rs\<close>): rules over a view, at a
  time, with the facts a journal cannot give. \<open>fmt2\<close> is \<open>format!("{:.2}")\<close>.
\<close>

section \<open>Rules\<close>

definition LOOP_K :: nat where "LOOP_K = 5"
definition BUDGET_PERCENT :: nat where "BUDGET_PERCENT = 80"
definition DEFAULT_NODE_TIMEOUT :: time where "DEFAULT_NODE_TIMEOUT = 600000000000"

datatype finding_severity = SevInfo | SevWarn | SevCritical

fun severity_str :: "finding_severity \<Rightarrow> str" where
  "severity_str SevInfo = ''info''"
| "severity_str SevWarn = ''warn''"
| "severity_str SevCritical = ''critical''"

datatype finding_rule =
    RCrashed | RStalled | RStageFailed | RRetrying | RLoopSuspicion | RBudget | RBlocked
  | RModelMismatch | RUnsafeCommit | RSharedWorkdir | RHumanGateWaiting

definition ALL_RULES :: "finding_rule list" where
  "ALL_RULES =
     [RCrashed, RStalled, RStageFailed, RRetrying, RLoopSuspicion, RBudget, RBlocked, RModelMismatch,
      RUnsafeCommit, RSharedWorkdir, RHumanGateWaiting]"

fun rule_name :: "finding_rule \<Rightarrow> str" where
  "rule_name RCrashed = ''crashed''"
| "rule_name RStalled = ''stalled''"
| "rule_name RStageFailed = ''stage_failed''"
| "rule_name RRetrying = ''retrying''"
| "rule_name RLoopSuspicion = ''loop_suspicion''"
| "rule_name RBudget = ''budget''"
| "rule_name RBlocked = ''blocked''"
| "rule_name RModelMismatch = ''model_mismatch''"
| "rule_name RUnsafeCommit = ''unsafe_commit''"
| "rule_name RSharedWorkdir = ''shared_workdir''"
| "rule_name RHumanGateWaiting = ''human_gate_waiting''"

fun rule_severity :: "finding_rule \<Rightarrow> finding_severity" where
  "rule_severity RCrashed = SevCritical"
| "rule_severity RStageFailed = SevCritical"
| "rule_severity RUnsafeCommit = SevCritical"
| "rule_severity RHumanGateWaiting = SevInfo"
| "rule_severity _ = SevWarn"

record finding =
  fd_rule :: finding_rule
  fd_severity :: finding_severity
  fd_message :: str
  fd_node :: "str option"
  fd_task :: "str option"
  fd_seq :: "nat option"

definition finding_new :: "finding_rule \<Rightarrow> str \<Rightarrow> finding" where
  "finding_new r msg =
     \<lparr>fd_rule = r, fd_severity = rule_severity r, fd_message = msg, fd_node = None, fd_task = None, fd_seq = None\<rparr>"

definition on_node :: "str \<Rightarrow> finding \<Rightarrow> finding" where "on_node n f = f\<lparr>fd_node := Some n\<rparr>"
definition on_task :: "str option \<Rightarrow> finding \<Rightarrow> finding" where "on_task t f = f\<lparr>fd_task := t\<rparr>"
definition at_seq :: "nat \<Rightarrow> finding \<Rightarrow> finding" where "at_seq s f = f\<lparr>fd_seq := Some s\<rparr>"

text \<open>Facts the journal cannot supply.\<close>

record finding_env =
  fe_alive :: "nat \<Rightarrow> bool"
  fe_timeout :: "str \<Rightarrow> time option"
  fe_commit_nodes :: "str list option"

definition sign_of_life :: "attempt_view \<Rightarrow> time" where
  "sign_of_life a = (case or_else (av_last_heartbeat a) (av_started_at a) of Some t \<Rightarrow> t | None \<Rightarrow> av_last_event_at a)"

definition is_crashed :: "attempt_view \<Rightarrow> time \<Rightarrow> finding_env \<Rightarrow> bool" where
  "is_crashed a now env \<longleftrightarrow>
     CRASH_AFTER < now - sign_of_life a \<and> \<not> (case av_pid a of Some p \<Rightarrow> fe_alive env p | None \<Rightarrow> False)"

definition crashed_finding :: "attempt_view \<Rightarrow> finding" where
  "crashed_finding a =
     finding_new RCrashed (''Attempt '' @ show_nat (av_attempt a) @
       '' stopped without ending: no heartbeat for over 2 minutes and its process is gone'')"

text \<open>\<open>Duration::num_seconds\<close> truncates towards zero.\<close>

definition num_seconds :: "time \<Rightarrow> int" where
  "num_seconds t = sgn t * (\<bar>t\<bar> div 1000000000)"

definition stalled :: "run_view \<Rightarrow> attempt_view \<Rightarrow> time \<Rightarrow> finding_env \<Rightarrow> finding option" where
  "stalled v a now env =
     (case vw_current_node v of
        None \<Rightarrow> None
      | Some n \<Rightarrow>
          (let beating = (case av_last_heartbeat a of Some h \<Rightarrow> now - h \<le> CRASH_AFTER | None \<Rightarrow> False);
               timeout = (case fe_timeout env n of Some t \<Rightarrow> t | None \<Rightarrow> DEFAULT_NODE_TIMEOUT)
           in if beating \<and> timeout < now - av_last_activity_at a
              then Some (on_node n (finding_new RStalled (''Node '' @ n @
                     '' is alive but has produced no Event for over '' @ show_int (num_seconds timeout) @ '' s'')))
              else None))"

definition stage_failed :: "run_view \<Rightarrow> finding list" where
  "stage_failed v = map (\<lambda>f. at_seq (sf_seq f) (on_node (sf_node f)
     (finding_new RStageFailed (''Node '' @ sf_node f @ '' failed: '' @ sf_detail f)))) (vw_failures v)"

definition retrying :: "run_view \<Rightarrow> finding list" where
  "retrying v = map (\<lambda>f. at_seq (sf_seq f) (on_node (sf_node f)
       (finding_new RRetrying (''Node '' @ sf_node f @ '' is on retry '' @ sf_detail f))))
     (filter (\<lambda>f. case sf_attempt f of Some n \<Rightarrow> 2 \<le> n | None \<Rightarrow> False) (vw_retries v))"

definition loop_suspicion :: "run_view \<Rightarrow> finding list" where
  "loop_suspicion v = concat (map (\<lambda>t.
     map (\<lambda>(n, k). on_task (Some (tv_id t)) (on_node n (finding_new RLoopSuspicion
            (''Node '' @ n @ '' visited '' @ show_nat k @ '' times within Task '' @ tv_id t))))
       (filter (\<lambda>(_, k). LOOP_K < k) (tv_node_visits t))) (vw_tasks v))"

text \<open>\<open>saturating_mul\<close> on \<open>u64\<close>.\<close>

definition sat_mul :: "nat \<Rightarrow> nat \<Rightarrow> nat" where
  "sat_mul a b = min (a * b) u64_max"

definition budget_spent :: "(f64 \<Rightarrow> str) \<Rightarrow> run_view \<Rightarrow> finding list" where
  "budget_spent fmt2 v =
     (case vw_max_budget v of
        None \<Rightarrow> []
      | Some m \<Rightarrow>
          if f64_gt m (Fin 0 0) \<and> f64_ge (vw_cost v) (f64_over (f64_times m (int BUDGET_PERCENT)) 100)
          then [finding_new RBudget (''Spent $'' @ fmt2 (vw_cost v) @ '' of the $'' @ fmt2 m @ '' budget'')]
          else [])"

definition budget_steps :: "run_view \<Rightarrow> finding list" where
  "budget_steps v =
     (case vw_max_steps v of
        None \<Rightarrow> []
      | Some m \<Rightarrow>
          if 0 < m \<and> sat_mul m BUDGET_PERCENT \<le> sat_mul (vw_steps v) 100
          then [finding_new RBudget (''Used '' @ show_nat (vw_steps v) @ '' of '' @ show_nat m @ '' steps'')]
          else [])"

definition budget :: "(f64 \<Rightarrow> str) \<Rightarrow> run_view \<Rightarrow> finding list" where
  "budget fmt2 v = budget_spent fmt2 v @ budget_steps v"

definition blocked :: "run_view \<Rightarrow> finding option" where
  "blocked v = map_option (\<lambda>b. at_seq (tb_seq b) (finding_new RBlocked
     (show_nat (length (tb_open b)) @ '' open Task(s), none ready''))) (vw_task_blocked v)"

definition mismatch_of :: "invocation_view \<Rightarrow> finding option" where
  "mismatch_of i =
     (case (iv_model_requested i, iv_model_actual i) of
        (Some req, Some act) \<Rightarrow>
          if req \<noteq> act
          then Some (on_task (iv_task i) (on_node (iv_node i)
                 (finding_new RModelMismatch (''Requested model '' @ req @ '', got '' @ act))))
          else None
      | _ \<Rightarrow> None)"

definition model_mismatch :: "run_view \<Rightarrow> finding list" where
  "model_mismatch v = List.map_filter mismatch_of (vw_invocations v)"

definition unsafe_commit :: "run_view \<Rightarrow> finding_env \<Rightarrow> finding list" where
  "unsafe_commit v env =
     (case fe_commit_nodes env of
        None \<Rightarrow> []
      | Some allowed \<Rightarrow>
          map (\<lambda>c. on_task (cv_task c) (on_node (cv_node c) (finding_new RUnsafeCommit
                 (''Commit '' @ cv_sha c @ '' came from non-commit node '' @ cv_node c))))
            (filter (\<lambda>c. cv_node c \<notin> set allowed) (vw_commits v))) @
     map (\<lambda>t. on_task (Some (tv_id t)) (finding_new RUnsafeCommit
            (''Task '' @ tv_id t @ '' closed without its commit on upstream'')))
       (filter (\<lambda>t. tv_upstream_verified t = Some False) (vw_tasks v))"

definition shared_workdir :: "run_view \<Rightarrow> finding option" where
  "shared_workdir v =
     (if vw_shared_workdir v
      then Some (finding_new RSharedWorkdir ''Run started with the shared-workdir override'') else None)"

definition human_gate_waiting :: "run_view \<Rightarrow> finding option" where
  "human_gate_waiting v = map_option (\<lambda>g. on_node (gv_node g)
     (finding_new RHumanGateWaiting (''Waiting for an answer at node '' @ gv_node g))) (vw_gate v)"

fun opt_list :: "'a option \<Rightarrow> 'a list" where
  "opt_list None = []"
| "opt_list (Some x) = [x]"

definition live_attempt :: "run_view \<Rightarrow> attempt_view option" where
  "live_attempt v =
     (if vw_attempts v = [] \<or> av_ended (last (vw_attempts v)) \<noteq> None then None
      else Some (last (vw_attempts v)))"

definition derive_findings :: "(f64 \<Rightarrow> str) \<Rightarrow> run_view \<Rightarrow> time \<Rightarrow> finding_env \<Rightarrow> finding list" where
  "derive_findings fmt2 v now env =
     (case live_attempt v of
        None \<Rightarrow> []
      | Some a \<Rightarrow> if is_crashed a now env then [crashed_finding a] else opt_list (stalled v a now env)) @
     stage_failed v @ retrying v @ loop_suspicion v @ budget fmt2 v @ opt_list (blocked v) @
     model_mismatch v @ unsafe_commit v env @ opt_list (shared_workdir v) @ opt_list (human_gate_waiting v)"

section \<open>Order and severity\<close>

fun rule_index :: "finding_rule \<Rightarrow> nat" where
  "rule_index RCrashed = 0"
| "rule_index RStalled = 1"
| "rule_index RStageFailed = 2"
| "rule_index RRetrying = 3"
| "rule_index RLoopSuspicion = 4"
| "rule_index RBudget = 5"
| "rule_index RBlocked = 6"
| "rule_index RModelMismatch = 7"
| "rule_index RUnsafeCommit = 8"
| "rule_index RSharedWorkdir = 9"
| "rule_index RHumanGateWaiting = 10"

definition all_of :: "finding_rule \<Rightarrow> finding list \<Rightarrow> bool" where
  "all_of r fs \<longleftrightarrow> list_all (\<lambda>f. fd_rule f = r \<and> fd_severity f = rule_severity r) fs"

lemma finding_parts [simp]:
  "fd_rule (finding_new r m) = r" "fd_severity (finding_new r m) = rule_severity r"
  "fd_rule (on_node n f) = fd_rule f" "fd_severity (on_node n f) = fd_severity f"
  "fd_rule (on_task t f) = fd_rule f" "fd_severity (on_task t f) = fd_severity f"
  "fd_rule (at_seq s f) = fd_rule f" "fd_severity (at_seq s f) = fd_severity f"
  by (simp_all add: finding_new_def on_node_def on_task_def at_seq_def)

lemma rule_groups:
  "all_of RStageFailed (stage_failed v)" "all_of RRetrying (retrying v)"
  "all_of RLoopSuspicion (loop_suspicion v)" "all_of RBudget (budget fmt2 v)"
  "all_of RBlocked (opt_list (blocked v))" "all_of RModelMismatch (model_mismatch v)"
  "all_of RUnsafeCommit (unsafe_commit v env)" "all_of RSharedWorkdir (opt_list (shared_workdir v))"
  "all_of RHumanGateWaiting (opt_list (human_gate_waiting v))"
  "all_of RStalled (opt_list (stalled v a now env))" "all_of RCrashed [crashed_finding a]"
proof -
  show "all_of RModelMismatch (model_mismatch v)"
    by (auto simp: all_of_def model_mismatch_def list_all_iff map_filter_def mismatch_of_def
        split: option.splits if_splits)
  show "all_of RBlocked (opt_list (blocked v))" "all_of RHumanGateWaiting (opt_list (human_gate_waiting v))"
    by (cases "vw_task_blocked v"; cases "vw_gate v"; simp add: all_of_def blocked_def human_gate_waiting_def)+
qed (auto simp: all_of_def stage_failed_def retrying_def loop_suspicion_def budget_def budget_spent_def
    budget_steps_def unsafe_commit_def shared_workdir_def stalled_def crashed_finding_def list_all_iff Let_def
    split: option.splits)

lemma groups_sorted:
  "list_all2 all_of rs fss \<Longrightarrow> sorted (map rule_index rs) \<Longrightarrow>
   sorted (map (\<lambda>f. rule_index (fd_rule f)) (concat fss))"
proof (induction rs fss rule: list_all2_induct)
  case (Cons r rs fs fss)
  have "rule_index (fd_rule f) \<in> rule_index ` set rs" if "f \<in> set (concat fss)" for f
    using Cons(2) that by (induction rs fss rule: list_all2_induct) (auto simp: all_of_def list_all_iff)
  moreover have "map (\<lambda>f. rule_index (fd_rule f)) fs = replicate (length fs) (rule_index r)"
    using Cons(1) by (induction fs) (auto simp: all_of_def)
  ultimately show ?case using Cons by (fastforce simp: sorted_append)
qed simp

lemma groups_severity:
  "list_all2 all_of rs fss \<Longrightarrow> list_all (\<lambda>f. fd_severity f = rule_severity (fd_rule f)) (concat fss)"
  by (induction rs fss rule: list_all2_induct) (auto simp: all_of_def list_all_iff)

lemma groups_rules: "list_all2 all_of rs fss \<Longrightarrow> fd_rule ` set (concat fss) \<subseteq> set rs"
  by (induction rs fss rule: list_all2_induct) (auto simp: all_of_def list_all_iff)

text \<open>The attempt rules come first: one crash, or at most one stall, or nothing.\<close>

definition attempt_findings :: "run_view \<Rightarrow> time \<Rightarrow> finding_env \<Rightarrow> finding list" where
  "attempt_findings v now env =
     (case live_attempt v of
        None \<Rightarrow> []
      | Some a \<Rightarrow> if is_crashed a now env then [crashed_finding a] else opt_list (stalled v a now env))"

definition view_findings :: "(f64 \<Rightarrow> str) \<Rightarrow> run_view \<Rightarrow> finding_env \<Rightarrow> finding list list" where
  "view_findings fmt2 v env =
     [stage_failed v, retrying v, loop_suspicion v, budget fmt2 v, opt_list (blocked v), model_mismatch v,
      unsafe_commit v env, opt_list (shared_workdir v), opt_list (human_gate_waiting v)]"

definition view_rules :: "finding_rule list" where
  "view_rules =
     [RStageFailed, RRetrying, RLoopSuspicion, RBudget, RBlocked, RModelMismatch, RUnsafeCommit,
      RSharedWorkdir, RHumanGateWaiting]"

lemma derive_findings_parts:
  "derive_findings fmt2 v now env = concat (attempt_findings v now env # view_findings fmt2 v env)"
  by (simp add: derive_findings_def attempt_findings_def view_findings_def)

lemma view_groups: "list_all2 all_of view_rules (view_findings fmt2 v env)"
  by (simp add: view_rules_def view_findings_def rule_groups)

lemma attempt_group:
  "all_of (if fd_rule ` set (attempt_findings v now env) = {RCrashed} then RCrashed else RStalled)
     (attempt_findings v now env)"
proof (cases "live_attempt v")
  case None
  then show ?thesis by (simp add: attempt_findings_def all_of_def)
next
  case (Some a)
  show ?thesis
  proof (cases "is_crashed a now env")
    case True
    with Some show ?thesis using rule_groups(11) [of a] by (simp add: attempt_findings_def crashed_finding_def)
  next
    case False
    with Some have "attempt_findings v now env = opt_list (stalled v a now env)" by (simp add: attempt_findings_def)
    moreover have "fd_rule ` set (opt_list (stalled v a now env)) \<subseteq> {RStalled}"
      using rule_groups(10) [of v a now env] by (auto simp: all_of_def list_all_iff)
    ultimately show ?thesis using rule_groups(10) [of v a now env] by auto
  qed
qed

lemma findings_ordered:
  "sorted (map (\<lambda>f. rule_index (fd_rule f)) (derive_findings fmt2 v now env))"
  "list_all (\<lambda>f. fd_severity f = rule_severity (fd_rule f)) (derive_findings fmt2 v now env)"
proof -
  obtain r where r: "all_of r (attempt_findings v now env)" "r = RCrashed \<or> r = RStalled"
    using attempt_group [of v now env] that by (cases "fd_rule ` set (attempt_findings v now env) = {RCrashed}") simp_all
  then have g: "list_all2 all_of (r # view_rules) (attempt_findings v now env # view_findings fmt2 v env)"
    using view_groups by simp
  show "sorted (map (\<lambda>f. rule_index (fd_rule f)) (derive_findings fmt2 v now env))"
    unfolding derive_findings_parts using r(2) by (intro groups_sorted [OF g]) (auto simp: view_rules_def)
  show "list_all (\<lambda>f. fd_severity f = rule_severity (fd_rule f)) (derive_findings fmt2 v now env)"
    unfolding derive_findings_parts by (rule groups_severity [OF g])
qed

section \<open>The crash rule and the derived status\<close>

lemma crash_found:
  "RCrashed \<in> fd_rule ` set (derive_findings fmt2 v now env) \<longleftrightarrow>
     (\<exists>a. live_attempt v = Some a \<and> is_crashed a now env)"
proof -
  have "RCrashed \<in> fd_rule ` set (attempt_findings v now env) \<longleftrightarrow> (\<exists>a. live_attempt v = Some a \<and> is_crashed a now env)"
  proof (cases "live_attempt v")
    case (Some a)
    moreover have "RCrashed \<notin> fd_rule ` set (opt_list (stalled v a now env))"
      using rule_groups(10) [of v a now env] by (auto simp: all_of_def list_all_iff)
    ultimately show ?thesis
      by (cases "is_crashed a now env") (simp_all add: attempt_findings_def crashed_finding_def)
  qed (simp add: attempt_findings_def)
  moreover have "RCrashed \<notin> fd_rule ` set (concat (view_findings fmt2 v env))"
    using groups_rules [OF view_groups, of fmt2 v env] by (auto simp: view_rules_def)
  ultimately show ?thesis by (simp add: derive_findings_parts image_Un)
qed

lemma last_end_None: "last_end es = None \<longleftrightarrow> first_end es = None"
proof -
  have "last_end es = None \<longleftrightarrow> (\<forall>e \<in> set es. \<not> is_end (je_data e))"
  proof (induction es rule: rev_induct)
    case (snoc e es)
    then show ?case using end_of_is_end [of e] by (cases "end_of e") auto
  qed simp
  moreover have "first_end es = None \<longleftrightarrow> (\<forall>e \<in> set es. \<not> is_end (je_data e))"
  proof (cases "find (\<lambda>e. is_end (je_data e)) es")
    case None
    then have "first_end es = None" by (simp add: first_end_def)
    with None show ?thesis by (simp add: find_None_iff)
  next
    case (Some e)
    then have "is_end (je_data e)" "e \<in> set es" by (auto simp: find_Some_iff)
    moreover from this have "end_reason (je_data e) \<noteq> None" by (cases "je_data e") simp_all
    ultimately show ?thesis using Some by (auto simp: first_end_def)
  qed
  ultimately show ?thesis by blast
qed

text \<open>
  The two crash rules look at the same facts when the last attempt has recorded its start and its
  last heartbeat comes from the process that started it.
\<close>

definition same_process :: "journal_event list \<Rightarrow> bool" where
  "same_process es \<longleftrightarrow> last_sign start_pid es \<noteq> None \<and>
     (case last_sign beat_pid es of None \<Rightarrow> True | Some (t, p) \<Rightarrow> map_option snd (last_sign start_pid es) = Some p)"

lemma crash_agrees:
  assumes "known es \<noteq> []" "same_process (attempt_events (known es))"
  shows "RCrashed \<in> fd_rule ` set (derive_findings fmt2 (fold_view es) now env) \<longleftrightarrow>
    derive_status (known es) started_at now (fe_alive env) = StCrashed"
proof -
  note l = fold_last_attempt [OF assms(1)]
  let ?p = "attempt_part (Max (je_attempt ` set (known es))) es"
  let ?a = "last (vw_attempts (fold_view es))"
  have a: "av_ended ?a = last_end ?p" "av_pid ?a = map_option snd (last_sign start_pid ?p)"
    "av_started_at ?a = map_option fst (last_sign start_pid ?p)"
    "av_last_heartbeat ?a = map_option fst (last_sign beat_pid ?p)"
    using fold_attempt [of "Max (je_attempt ` set (known es))" es] l(2) by simp_all
  have sp: "same_process ?p" using assms(2) l(3) by simp
  show ?thesis
  proof (cases "first_end ?p")
    case (Some r)
    then have "live_attempt (fold_view es) = None" using a(1) last_end_None [of ?p] by (auto simp: live_attempt_def)
    moreover have "status_of_reason r \<noteq> StCrashed" by (cases r) simp_all
    ultimately show ?thesis using Some l(3) by (simp add: crash_found derive_status_eq)
  next
    case None
    then have "live_attempt (fold_view es) = Some ?a" using a(1) last_end_None [of ?p] l(1) by (auto simp: live_attempt_def)
    then have "RCrashed \<in> fd_rule ` set (derive_findings fmt2 (fold_view es) now env) \<longleftrightarrow> is_crashed ?a now env"
      by (simp add: crash_found)
    also have "\<dots> \<longleftrightarrow> derive_status (known es) started_at now (fe_alive env) = StCrashed"
      using sp None a l(3)
      by (auto simp: derive_status_eq same_process_def is_crashed_def sign_of_life_def split: option.splits)
    finally show ?thesis .
  qed
qed

section \<open>Properties of the findings\<close>

text \<open>
  The findings of any view come in the order of the rules, each with the severity of its
  rule, and an attempt is never reported both as crashed and as stalled.
\<close>

theorem findings_well_ordered:
  "sorted (map (\<lambda>f. rule_index (fd_rule f)) (derive_findings fmt2 v now env)) \<and>
   list_all (\<lambda>f. fd_severity f = rule_severity (fd_rule f)) (derive_findings fmt2 v now env) \<and>
   \<not> {RCrashed, RStalled} \<subseteq> fd_rule ` set (derive_findings fmt2 v now env)"
proof -
  have "\<not> {RCrashed, RStalled} \<subseteq> fd_rule ` set (derive_findings fmt2 v now env)"
  proof
    assume b: "{RCrashed, RStalled} \<subseteq> fd_rule ` set (derive_findings fmt2 v now env)"
    then obtain a where "live_attempt v = Some a" "is_crashed a now env" using crash_found by blast
    then have "fd_rule ` set (attempt_findings v now env) = {RCrashed}"
      by (simp add: attempt_findings_def crashed_finding_def)
    moreover have "RStalled \<notin> fd_rule ` set (concat (view_findings fmt2 v env))"
      using groups_rules [OF view_groups, of fmt2 v env] by (auto simp: view_rules_def)
    ultimately show False using b by (auto simp: derive_findings_parts image_Un)
  qed
  then show ?thesis using findings_ordered by blast
qed

text \<open>
  The Monitor reports a run as crashed exactly when \<open>derive_status\<close> does, as long as the
  last attempt recorded its start and its last heartbeat comes from the process that started it.
\<close>

theorem crash_finding_agrees:
  assumes "known es \<noteq> []" "same_process (attempt_events (known es))"
  shows "RCrashed \<in> fd_rule ` set (derive_findings fmt2 (fold_view es) now env) \<longleftrightarrow>
    derive_status (known es) started_at now (fe_alive env) = StCrashed"
  using assms by (rule crash_agrees)

definition demo_start :: journal_event where
  "demo_start = journal_event_new 1 0 ''r'' 1 (JAttemptStarted 1 7 ''0.11'' [] None None)"

definition demo_env :: "bool \<Rightarrow> finding_env" where
  "demo_env b = \<lparr>fe_alive = \<lambda>_. b, fe_timeout = \<lambda>_. None, fe_commit_nodes = None\<rparr>"

theorem crash_finding_agrees_witness:
  "RCrashed \<in> fd_rule ` set (derive_findings (\<lambda>_. []) (fold_view [demo_start]) 200000000000 (demo_env False)) \<longleftrightarrow>
   derive_status (known [demo_start]) 0 200000000000 (fe_alive (demo_env False)) = StCrashed"
  by (rule crash_finding_agrees)
     (simp_all add: known_def demo_start_def journal_event_new_def same_process_def attempt_events_def
       last_attempt_def)

text \<open>
  The crash rule is documented as the rule of \<open>derive_status\<close>. It takes the process from the start of
  the attempt only: a journal whose attempt has heartbeats of a live process but no start is running
  for \<open>derive_status\<close> and crashed for the Monitor.
\<close>

theorem crash_rule_differs:
  "derive_status (known [demo_event]) 0 200000000000 (fe_alive (demo_env True)) = StRunning \<and>
   RCrashed \<in> fd_rule ` set (derive_findings (\<lambda>_. []) (fold_view [demo_event]) 200000000000 (demo_env True))"
proof
  show "derive_status (known [demo_event]) 0 200000000000 (fe_alive (demo_env True)) = StRunning"
    by (simp add: derive_status_def known_def demo_event_def journal_event_new_def attempt_events_def
        last_attempt_def demo_env_def)
  let ?a = "last (vw_attempts (fold_view [demo_event]))"
  have k: "known [demo_event] = [demo_event]" by (simp add: known_def demo_event_def journal_event_new_def)
  have n: "je_attempt demo_event = 2" "je_data demo_event = JHeartbeat 7" "je_ts demo_event = 5000000"
    by (simp_all add: demo_event_def journal_event_new_def trunc_ms_def)
  have "attempt_of 2 (vw_attempts (fold_view [demo_event])) = Some ?a"
    and ne: "vw_attempts (fold_view [demo_event]) \<noteq> []"
    using fold_last_attempt [of "[demo_event]"] k n by simp_all
  then have "av_ended ?a = None" "av_pid ?a = None" "av_last_heartbeat ?a = Some 5000000"
    using fold_attempt [of 2 "[demo_event]"] k n by (simp_all add: end_of_def)
  then have "live_attempt (fold_view [demo_event]) = Some ?a \<and> is_crashed ?a 200000000000 (demo_env True)"
    using ne by (simp add: live_attempt_def is_crashed_def sign_of_life_def CRASH_AFTER_def)
  then show "RCrashed \<in> fd_rule ` set (derive_findings (\<lambda>_. []) (fold_view [demo_event]) 200000000000 (demo_env True))"
    by (simp add: crash_found)
qed

end
