(* ===== verification/Engine_Journal.thy ===== *)
theory Engine_Journal
  imports Engine_Outcome Monitor_Findings
begin

text \<open>
  Where the engine meets its observers: the journal form of the engine's events
  (\<open>PipelineEvent::to_journal_data\<close> in \<open>events.rs\<close>), and what the Monitor's view of a run says about the
  run the engine made.
\<close>

fun to_journal_data :: "pipeline_event \<Rightarrow> event_data" where
  "to_journal_data (PipelineStarted x0 x1) = JPipelineStarted x0 x1"
| "to_journal_data (PipelineCompleted x0 x1 x2) = JPipelineCompleted x0 x1 x2"
| "to_journal_data (PipelineFailed x0 x1) = JPipelineFailed x0 x1"
| "to_journal_data (StageStarted x0 x1) = JStageStarted x0 x1"
| "to_journal_data (StageCompleted x0 x1 x2) = JStageCompleted x0 x1 x2"
| "to_journal_data (StageFailed x0 x1) = JStageFailed x0 x1"
| "to_journal_data (StageRetrying x0 x1) = JStageRetrying x0 x1"
| "to_journal_data (EdgeSelected x0 x1 x2) = JEdgeSelected x0 x1 x2"
| "to_journal_data (GoalGateChecked x0 x1) = JGoalGateChecked x0 x1"
| "to_journal_data (CheckpointSaved x0) = JCheckpointSaved x0"
| "to_journal_data (StopRequested x0) = JStopRequested x0"
| "to_journal_data (ContextUpdated x0 x1) = JContextUpdated x0 x1"
| "to_journal_data (CommitsCreated x0 x1 x2) = JCommitsCreated x0 x1 x2"
| "to_journal_data (LlmInvoked x0 x1 x2 x3 x4 x5 x6 x7 x8 x9 x10) = JLlmInvoked x0 x1 x2 x3 x4 x5 x6 x7 x8 x9 x10"
| "to_journal_data (EpicSnapshot x0 x1 x2) = JEpicSnapshot x0 x1 x2"
| "to_journal_data (TaskClaimed x0 x1 x2 x3) = JTaskClaimed x0 x1 x2 x3"
| "to_journal_data (TaskSelectionBlocked x0 x1 x2) = JTaskSelectionBlocked x0 x1 x2"
| "to_journal_data (TaskClosed x0 x1 x2 x3) = JTaskClosed x0 x1 x2 x3"
| "to_journal_data (HumanInputRequested x0 x1 x2 x3 x4) = JHumanInputRequested x0 x1 x2 x3 x4"
| "to_journal_data (HumanInputAnswered x0 x1 x2) = JHumanInputAnswered x0 x1 x2"

lemma journal_data_known [simp]: "\<not> is_unknown (to_journal_data ev)"
  by (cases ev) simp_all

lemma journal_data_inject: "to_journal_data ev = to_journal_data ev' \<longleftrightarrow> ev = ev'"
  by (cases ev; cases ev') simp_all

lemma stage_node_journal: "stage_node (to_journal_data ev) \<noteq> None \<longleftrightarrow> is_stage_started ev"
  by (cases ev) simp_all


text \<open>The events of the journal that the engine wrote; the others are written by the command line.\<close>

fun from_engine :: "event_data \<Rightarrow> bool" where
  "from_engine (JRunStarted _ _ _ _ _ _ _) = False"
| "from_engine (JAttemptStarted _ _ _ _ _ _) = False"
| "from_engine (JAttemptEnded _ _ _) = False"
| "from_engine (JHeartbeat _) = False"
| "from_engine (JUnknown _ _) = False"
| "from_engine _ = True"

lemma from_engine_journal [simp]: "from_engine (to_journal_data ev)"
  by (cases ev) simp_all

definition journaled :: "observation list \<Rightarrow> pipeline_event list" where
  "journaled obs = List.map_filter (\<lambda>ob. case ob of Journaled ev \<Rightarrow> Some ev | _ \<Rightarrow> None) obs"

text \<open>A journal whose engine events are those of a trace, among any events of the command line.\<close>

definition records_run :: "journal_event list \<Rightarrow> observation list \<Rightarrow> bool" where
  "records_run es obs \<longleftrightarrow>
     filter from_engine (map je_data es) = map to_journal_data (journaled obs)"

lemma stage_starts_engine:
  "stage_starts es = List.map_filter stage_node (filter from_engine (map je_data es))"
proof (induction es rule: rev_induct)
  case (snoc e es)
  have "\<not> from_engine d \<Longrightarrow> stage_node d = None" for d by (cases d) simp_all
  with snoc show ?case by (auto simp: map_filter_def split: option.splits)
qed (simp add: map_filter_simps)

lemma journaled_starts:
  "length (List.map_filter stage_node (map to_journal_data (journaled obs)))
     \<le> length (filter (\<lambda>ob. \<not> is_broadcast ob \<and> is_stage_started (obs_event ob)) obs)"
proof (induction obs)
  case (Cons ob obs)
  show ?case
  proof (cases ob)
    case (Journaled ev)
    with Cons show ?thesis using stage_node_journal [of ev]
      by (auto simp: journaled_def map_filter_simps split: option.splits)
  qed (use Cons in \<open>auto simp: journaled_def map_filter_simps\<close>)
qed (simp add: journaled_def map_filter_simps)


definition gate_journal :: "journal_event list" where
  "gate_journal = map (\<lambda>ev. journal_event_new 1 0 ''r'' 1 (to_journal_data ev)) (journaled (rs_trace (snd gate_run)))"


end
