(* ===== verification/Dot_Parser.thy ===== *)
theory Dot_Parser
  imports Dot_Merge
begin

text \<open>
  The DOT grammar (\<open>crates/attractor-dot/src/parser.rs\<close> and \<open>parser_primitives.rs\<close>). A parser
  takes the remaining input and returns a value with what is left, or fails: \<open>Backtrack\<close> lets
  \<open>alt\<close> and \<open>opt\<close> try something else, \<open>Cut\<close> does not. Of \<open>winnow\<close>, the combinators \<open>alt\<close>, \<open>opt\<close>,
  \<open>repeat\<close>, \<open>literal\<close>, \<open>take_while\<close>, \<open>digit1\<close> and \<open>multispace0\<close> are modelled as documented; the text
  it makes of a failure is not.
\<close>

section \<open>Combinators\<close>

datatype parse_failure = Backtrack | Cut str | ParsePanic | OutOfFuel

type_synonym 'a parser = "str \<Rightarrow> parse_failure + 'a \<times> str"

definition pthen :: "'a parser \<Rightarrow> ('a \<Rightarrow> 'b parser) \<Rightarrow> 'b parser" where
  "pthen p f s = (case p s of Inl e \<Rightarrow> Inl e | Inr (x, r) \<Rightarrow> f x r)"

definition preturn :: "'a \<Rightarrow> 'a parser" where
  "preturn x s = Inr (x, s)"

definition pfail :: "parse_failure \<Rightarrow> 'a parser" where
  "pfail e s = Inl e"

definition alt2 :: "'a parser \<Rightarrow> 'a parser \<Rightarrow> 'a parser" where
  "alt2 p q s = (case p s of Inl Backtrack \<Rightarrow> q s | r \<Rightarrow> r)"

definition popt :: "'a parser \<Rightarrow> 'a option parser" where
  "popt p s = (case p s of Inr (x, r) \<Rightarrow> Inr (Some x, r) | Inl Backtrack \<Rightarrow> Inr (None, s) | Inl e \<Rightarrow> Inl e)"

definition pmap :: "('a \<Rightarrow> 'b) \<Rightarrow> 'a parser \<Rightarrow> 'b parser" where
  "pmap f p = pthen p (\<lambda>x. preturn (f x))"

definition literal :: "str \<Rightarrow> unit parser" where
  "literal w s = (if starts_with w s then Inr ((), drop (length w) s) else Inl Backtrack)"

definition space_char :: "char \<Rightarrow> bool" where
  "space_char c \<longleftrightarrow> c = CHR 0x20 \<or> c = CHR 0x09 \<or> c = CHR 0x0D \<or> c = CHR 0x0A"

definition ws :: "unit parser" where
  "ws s = Inr ((), dropWhile space_char s)"

section \<open>Tokens\<close>

definition id_start :: "char \<Rightarrow> bool" where
  "id_start c \<longleftrightarrow> is_alpha c \<or> c = CHR ''_''"

definition id_char :: "char \<Rightarrow> bool" where
  "id_char c \<longleftrightarrow> is_alnum c \<or> c = CHR ''_''"

fun ident :: "str parser" where
  "ident [] = Inl Backtrack"
| "ident (c # s) =
     (if id_start c then Inr (c # takeWhile id_char s, dropWhile id_char s) else Inl Backtrack)"

lemma ident_shrinks: "ident s = Inr (x, r) \<Longrightarrow> length r < length s"
  by (cases s) (auto simp: less_Suc_eq_le length_dropWhile_le split: if_splits)

text \<open>\<open>repeat(0.., preceded('.', ident))\<close> with the parts joined again by dots.\<close>

function dotted_rest :: "str \<Rightarrow> str \<times> str" where
  "dotted_rest s =
     (case s of
        c # r \<Rightarrow>
          if c = CHR ''.''
          then (case ident r of
                  Inr (part, r') \<Rightarrow> (let (t, r'') = dotted_rest r' in (CHR ''.'' # part @ t, r''))
                | Inl _ \<Rightarrow> ([], s))
          else ([], s)
      | [] \<Rightarrow> ([], s))"
  by pat_completeness auto

termination
  by (relation "measure length") (auto dest: ident_shrinks)

declare dotted_rest.simps [simp del]

definition qualified_or_plain_id :: "str parser" where
  "qualified_or_plain_id = pthen ident (\<lambda>first s.
     let (rest, r) = dotted_rest s in Inr (first @ rest, r))"

text \<open>The body of a string literal after the opening quote; \<open>any\<close> fails at the end of the input.\<close>

definition prefixed :: "str \<Rightarrow> parse_failure + str \<times> str \<Rightarrow> parse_failure + str \<times> str" where
  "prefixed t r = (case r of Inl e \<Rightarrow> Inl e | Inr (x, s) \<Rightarrow> Inr (t @ x, s))"

fun string_body :: "str parser" where
  "string_body [] = Inl Backtrack"
| "string_body [c] = (if c = CHR 0x22 then Inr ([], []) else Inl Backtrack)"
| "string_body (c # d # s) =
     (if c = CHR 0x22 then Inr ([], d # s)
      else if c = CHR 0x5C
      then prefixed (if d = CHR ''n'' then [CHR 0x0A]
                     else if d = CHR ''t'' then [CHR 0x09]
                     else if d = CHR 0x5C \<or> d = CHR 0x22 then [d]
                     else [CHR 0x5C, d]) (string_body s)
      else prefixed [c] (string_body (d # s)))"

definition quoted_string :: "str parser" where
  "quoted_string = pthen (literal [CHR 0x22]) (\<lambda>_. string_body)"

definition boolean_value :: "bool parser" where
  "boolean_value = alt2 (pmap (\<lambda>_. True) (literal ''true'')) (pmap (\<lambda>_. False) (literal ''false''))"

fun digit1 :: "str parser" where
  "digit1 [] = Inl Backtrack"
| "digit1 (c # s) =
     (if is_digit c then Inr (c # takeWhile is_digit s, dropWhile is_digit s) else Inl Backtrack)"

text \<open>The milliseconds of \<open>val\<close> seconds, minutes, hours or days; the product may overflow.\<close>

definition scaled :: "build_profile \<Rightarrow> nat \<Rightarrow> nat \<Rightarrow> nat parser" where
  "scaled b v factor =
     (case secs_to_ms (mul_u64 b v factor) of Parsed ms \<Rightarrow> preturn ms | _ \<Rightarrow> pfail ParsePanic)"

definition duration_value :: "build_profile \<Rightarrow> nat parser" where
  "duration_value b = pthen digit1 (\<lambda>ds.
     case parse_unsigned u64_max ds of
       None \<Rightarrow> pfail Backtrack
     | Some v \<Rightarrow>
         alt2 (pthen (literal ''ms'') (\<lambda>_. preturn v))
        (alt2 (pthen (literal ''s'') (\<lambda>_. preturn (1000 * v)))
        (alt2 (pthen (literal ''m'') (\<lambda>_. scaled b v 60))
        (alt2 (pthen (literal ''h'') (\<lambda>_. scaled b v 3600))
              (pthen (literal ''d'') (\<lambda>_. scaled b v 86400))))))"

definition sign_opt :: "str parser" where
  "sign_opt = pmap (\<lambda>x. case x of Some t \<Rightarrow> t | None \<Rightarrow> [])
     (popt (alt2 (pmap (\<lambda>_. ''-'') (literal ''-'')) (pmap (\<lambda>_. ''+'') (literal ''+''))))"

definition float_of_parts :: "str \<Rightarrow> str \<Rightarrow> str \<Rightarrow> f64" where
  "float_of_parts sg whole frac =
     f64_of_decimal (sg = ''-'') (int (digits_val 0 (whole @ frac))) (length frac)"

definition float_value :: "f64 parser" where
  "float_value = pthen sign_opt (\<lambda>sg. pthen digit1 (\<lambda>whole. pthen (literal ''.'') (\<lambda>_.
     pthen digit1 (\<lambda>frac. preturn (float_of_parts sg whole frac)))))"

definition integer_value :: "int parser" where
  "integer_value = pthen sign_opt (\<lambda>sg. pthen digit1 (\<lambda>ds.
     case parse_signed i64_min i64_max (sg @ ds) of
       Some i \<Rightarrow> preturn i | None \<Rightarrow> pfail Backtrack))"

definition attr_value :: "build_profile \<Rightarrow> attribute_value parser" where
  "attr_value b =
     alt2 (pmap AString quoted_string)
    (alt2 (pmap ABoolean boolean_value)
    (alt2 (pmap ADuration (duration_value b))
    (alt2 (pmap AFloat float_value) (pmap AInteger integer_value))))"

section \<open>Attribute blocks\<close>

definition attr :: "build_profile \<Rightarrow> (str \<times> attribute_value) parser" where
  "attr b = pthen qualified_or_plain_id (\<lambda>k. pthen ws (\<lambda>_. pthen (literal ''='') (\<lambda>_.
     pthen ws (\<lambda>_. pthen (attr_value b) (\<lambda>v. preturn (k, v))))))"

definition separator :: "unit option parser" where
  "separator = popt (alt2 (literal '','') (literal '';''))"

text \<open>The attributes after the first; each round consumes at least one byte.\<close>

definition next_attr :: "build_profile \<Rightarrow> (str \<times> attribute_value) option parser" where
  "next_attr b = pthen ws (\<lambda>_. pthen separator (\<lambda>_. pthen ws (\<lambda>_. popt (attr b))))"

text \<open>A parser does not lengthen the input.\<close>

definition shrinking :: "'a parser \<Rightarrow> bool" where
  "shrinking p \<longleftrightarrow> (\<forall>s x r. p s = Inr (x, r) \<longrightarrow> length r \<le> length s)"

definition consuming :: "'a parser \<Rightarrow> bool" where
  "consuming p \<longleftrightarrow> (\<forall>s x r. p s = Inr (x, r) \<longrightarrow> length r < length s)"

named_theorems parser_size \<open>how much input the parsers consume\<close>

lemma consuming_shrinking: "consuming p \<Longrightarrow> shrinking p"
  by (auto simp: consuming_def shrinking_def intro: less_imp_le)

lemma shrinkingD: "shrinking p \<Longrightarrow> p s = Inr (x, r) \<Longrightarrow> length r \<le> length s"
  by (simp add: shrinking_def)

lemma consumingD: "consuming p \<Longrightarrow> p s = Inr (x, r) \<Longrightarrow> length r < length s"
  by (simp add: consuming_def)

lemma pthen_Inr: "pthen p f s = Inr (y, t) \<longleftrightarrow> (\<exists>x r. p s = Inr (x, r) \<and> f x r = Inr (y, t))"
  by (auto simp: pthen_def split: sum.splits)

lemma popt_Some: "popt p s = Inr (Some a, r) \<longleftrightarrow> p s = Inr (a, r)"
  by (auto simp: popt_def split: sum.splits parse_failure.splits)

lemma shrinking_then [parser_size]: "shrinking p \<Longrightarrow> (\<And>x. shrinking (f x)) \<Longrightarrow> shrinking (pthen p f)"
  unfolding shrinking_def by (auto simp: pthen_Inr) (meson le_trans)

lemma consuming_then1: "consuming p \<Longrightarrow> (\<And>x. shrinking (f x)) \<Longrightarrow> consuming (pthen p f)"
  unfolding consuming_def shrinking_def by (auto simp: pthen_Inr) (meson le_less_trans)

lemma shrinking_atoms [parser_size]:
  "shrinking (preturn x)" "shrinking (pfail e)" "shrinking (literal w)" "shrinking ws"
  by (auto simp: shrinking_def preturn_def pfail_def literal_def ws_def length_dropWhile_le)

lemma shrinking_alt [parser_size]: "shrinking p \<Longrightarrow> shrinking q \<Longrightarrow> shrinking (alt2 p q)"
  by (auto simp: shrinking_def alt2_def split: sum.splits parse_failure.splits)

lemma shrinking_opt [parser_size]: "shrinking p \<Longrightarrow> shrinking (popt p)"
  by (auto simp: shrinking_def popt_def split: sum.splits parse_failure.splits)

lemma shrinking_map [parser_size]: "shrinking p \<Longrightarrow> shrinking (pmap f p)"
  by (simp add: pmap_def shrinking_then shrinking_atoms)

lemma consuming_then2: "shrinking p \<Longrightarrow> (\<And>x. consuming (f x)) \<Longrightarrow> consuming (pthen p f)"
  unfolding consuming_def shrinking_def by (auto simp: pthen_Inr) (meson less_le_trans)

lemma consuming_alt: "consuming p \<Longrightarrow> consuming q \<Longrightarrow> consuming (alt2 p q)"
  by (auto simp: consuming_def alt2_def split: sum.splits parse_failure.splits)

lemma consuming_map: "consuming p \<Longrightarrow> consuming (pmap f p)"
  by (simp add: pmap_def consuming_then1 shrinking_atoms)

lemma consuming_literal: "w \<noteq> [] \<Longrightarrow> consuming (literal w)"
  by (auto simp: consuming_def literal_def starts_with_def)
     (metis diff_less length_greater_0_conv take_Nil)

lemma consuming_ident: "consuming ident"
  by (simp add: consuming_def ident_shrinks)

lemma consuming_digit1: "consuming digit1"
  by (auto simp: consuming_def less_Suc_eq_le length_dropWhile_le elim!: digit1.elims split: if_splits)

lemma dotted_rest_length: "length (snd (dotted_rest s)) \<le> length s"
proof (induction s rule: dotted_rest.induct)
  case (1 s)
  show ?case
  proof (cases s)
    case (Cons c r)
    have IH: "length (snd (dotted_rest r')) \<le> length r'" if "c = CHR ''.''" "ident r = Inr (part, r')" for part r'
      using 1 [of c r "(part, r')" part r'] Cons that by simp
    show ?thesis
      using IH ident_shrinks [of r]
      by (subst dotted_rest.simps) (force simp: Cons split: prod.splits sum.splits)
  qed (simp add: dotted_rest.simps)
qed

lemma consuming_id: "consuming qualified_or_plain_id"
  unfolding qualified_or_plain_id_def
proof (rule consuming_then1 [OF consuming_ident])
  show "shrinking (\<lambda>s. let (rest, r) = dotted_rest s in Inr (first @ rest, r))" for first
    unfolding shrinking_def using dotted_rest_length by (auto split: prod.splits) (metis snd_conv)
qed

lemma shrinking_string_body [parser_size]: "shrinking string_body"
proof -
  have "string_body s = Inr (x, r) \<Longrightarrow> length r \<le> length s" for s x r
    by (induction s arbitrary: x r rule: string_body.induct)
       (fastforce simp: prefixed_def split: if_splits sum.splits)+
  then show ?thesis by (simp add: shrinking_def)
qed

lemma shrinking_tokens [parser_size]:
  "shrinking quoted_string" "shrinking boolean_value" "shrinking digit1" "shrinking sign_opt"
  "shrinking float_value" "shrinking integer_value" "shrinking (duration_value b)"
  by (auto simp: quoted_string_def boolean_value_def sign_opt_def float_value_def integer_value_def
      duration_value_def scaled_def consuming_shrinking [OF consuming_digit1] parser_size
      intro!: parser_size split: option.split duration_result.split)

lemma shrinking_attr_value [parser_size]: "shrinking (attr_value b)"
  unfolding attr_value_def by (intro parser_size)

lemma consuming_attr: "consuming (attr b)"
  unfolding attr_def by (intro consuming_then1 consuming_id parser_size)

lemma next_attr_shrinks: "next_attr b s = Inr (Some a, r) \<Longrightarrow> length r < length s"
proof -
  assume "next_attr b s = Inr (Some a, r)"
  then obtain s1 x s2 s3 where "ws s = Inr ((), s1)" "separator s1 = Inr (x, s2)" "ws s2 = Inr ((), s3)"
    "attr b s3 = Inr (a, r)"
    by (auto simp: next_attr_def pthen_Inr popt_Some)
  moreover have "shrinking separator" unfolding separator_def by (intro parser_size)
  ultimately show ?thesis
    using consumingD [OF consuming_attr] shrinkingD [OF shrinking_atoms(4)] shrinkingD by (metis le_less_trans less_le_trans)
qed

function more_attrs :: "build_profile \<Rightarrow> attrs \<Rightarrow> attrs parser" where
  "more_attrs b m s =
     (case next_attr b s of
        Inl e \<Rightarrow> Inl e
      | Inr (None, r) \<Rightarrow> Inr (m, r)
      | Inr (Some (k, v), r) \<Rightarrow> more_attrs b (hm_insert k v m) r)"
  by pat_completeness auto

termination
  by (relation "measure (\<lambda>(b, m, s). length s)") (auto dest: next_attr_shrinks)

declare more_attrs.simps [simp del]

definition attr_block :: "build_profile \<Rightarrow> attrs parser" where
  "attr_block b = pthen (literal ''['') (\<lambda>_. pthen ws (\<lambda>_. pthen (popt (attr b)) (\<lambda>first.
     pthen (case first of None \<Rightarrow> preturn [] | Some (k, v) \<Rightarrow> more_attrs b [(k, v)]) (\<lambda>m.
     pthen ws (\<lambda>_. pthen (literal '']'') (\<lambda>_. preturn m))))))"

section \<open>Statements\<close>

definition semicolon :: "unit option parser" where
  "semicolon = popt (literal '';'')"

definition defaults_stmt :: "build_profile \<Rightarrow> str \<Rightarrow> (attrs \<Rightarrow> statement) \<Rightarrow> statement parser" where
  "defaults_stmt b keyword f = pthen (literal keyword) (\<lambda>_. pthen ws (\<lambda>_. pthen (attr_block b) (\<lambda>a.
     pthen ws (\<lambda>_. pthen semicolon (\<lambda>_. preturn (f a))))))"

definition subgraph_stmt :: "statement list parser \<Rightarrow> statement parser" where
  "subgraph_stmt inner = pthen (literal ''subgraph'') (\<lambda>_. pthen ws (\<lambda>_. pthen (popt ident) (\<lambda>name.
     pthen ws (\<lambda>_. pthen (literal ''{'') (\<lambda>_. pthen ws (\<lambda>_. pthen inner (\<lambda>stmts.
     pthen ws (\<lambda>_. pthen (literal ''}'') (\<lambda>_. pthen ws (\<lambda>_. pthen semicolon (\<lambda>_.
       preturn (SubgraphStmt name stmts))))))))))))"

definition chain_step :: "str option parser" where
  "chain_step = pthen ws (\<lambda>_. pthen (popt (literal ''->'')) (\<lambda>arrow.
     case arrow of None \<Rightarrow> preturn None | Some _ \<Rightarrow> pthen ws (\<lambda>_. pmap Some ident)))"

lemma chain_step_shrinks: "chain_step s = Inr (Some n, r) \<Longrightarrow> length r < length s"
proof -
  assume "chain_step s = Inr (Some n, r)"
  then obtain s1 s2 s3 where "ws s = Inr ((), s1)" "popt (literal ''->'') s1 = Inr (Some (), s2)"
    "ws s2 = Inr ((), s3)" "ident s3 = Inr (n, r)"
    by (auto simp: chain_step_def pthen_Inr pmap_def preturn_def split: option.splits)
  moreover have "shrinking (popt (literal ''->''))" by (intro parser_size)
  ultimately show ?thesis
    using ident_shrinks shrinkingD [OF shrinking_atoms(4)] shrinkingD by (metis le_less_trans less_le_trans)
qed

function chain_rest :: "str list parser" where
  "chain_rest s =
     (case chain_step s of
        Inl e \<Rightarrow> Inl e
      | Inr (None, r) \<Rightarrow> Inr ([], r)
      | Inr (Some n, r) \<Rightarrow> (case chain_rest r of Inl e \<Rightarrow> Inl e | Inr (ns, t) \<Rightarrow> Inr (n # ns, t)))"
  by pat_completeness auto

termination
  by (relation "measure length") (auto dest: chain_step_shrinks)

declare chain_rest.simps [simp del]

definition opt_block :: "build_profile \<Rightarrow> attrs parser" where
  "opt_block b = pmap (\<lambda>x. case x of Some a \<Rightarrow> a | None \<Rightarrow> []) (popt (attr_block b))"

definition edge_stmt :: "build_profile \<Rightarrow> str \<Rightarrow> statement parser" where
  "edge_stmt b first = pthen ws (\<lambda>_. pthen ident (\<lambda>second. pthen chain_rest (\<lambda>more.
     pthen ws (\<lambda>_. pthen (opt_block b) (\<lambda>a. pthen ws (\<lambda>_. pthen semicolon (\<lambda>_.
       preturn (EdgeStmt (first # second # more) a))))))))"

definition node_stmt :: "build_profile \<Rightarrow> str \<Rightarrow> statement parser" where
  "node_stmt b first = pthen (opt_block b) (\<lambda>a. pthen ws (\<lambda>_.
     if a \<noteq> [] then pthen semicolon (\<lambda>_. preturn (NodeStmt first a))
     else pthen (popt (literal ''='')) (\<lambda>eq.
       case eq of
         Some _ \<Rightarrow> pthen ws (\<lambda>_. pthen (attr_value b) (\<lambda>v. pthen ws (\<lambda>_. pthen semicolon (\<lambda>_.
           preturn (GraphAttrDecl first v)))))
       | None \<Rightarrow> pthen semicolon (\<lambda>_. preturn (NodeStmt first a)))))"

definition node_or_edge_stmt :: "build_profile \<Rightarrow> statement parser" where
  "node_or_edge_stmt b = pthen ident (\<lambda>first. pthen ws (\<lambda>_. pthen (popt (literal ''->'')) (\<lambda>arrow.
     case arrow of
       Some _ \<Rightarrow> edge_stmt b first
     | None \<Rightarrow> pthen (popt (literal ''--'')) (\<lambda>undirected.
         case undirected of
           Some _ \<Rightarrow> pfail (Cut ''only directed edges (->); undirected edges (--) are not supported'')
         | None \<Rightarrow> node_stmt b first))))"

definition statement_of :: "build_profile \<Rightarrow> statement list parser \<Rightarrow> statement parser" where
  "statement_of b inner = pthen ws (\<lambda>_.
     alt2 (defaults_stmt b ''graph'' GraphAttrs)
    (alt2 (defaults_stmt b ''node'' NodeDefaults)
    (alt2 (defaults_stmt b ''edge'' EdgeDefaults)
    (alt2 (subgraph_stmt inner) (node_or_edge_stmt b)))))"

text \<open>The fuel bounds the number of statements; the length of the input is enough.\<close>

fun statements :: "build_profile \<Rightarrow> nat \<Rightarrow> statement list parser" where
  "statements b 0 s = Inl OutOfFuel"
| "statements b (Suc n) s =
     (let t = dropWhile space_char s
      in if t = [] \<or> hd t = CHR ''}'' then Inr ([], t)
         else case statement_of b (statements b n) t of
                Inl e \<Rightarrow> Inl e
              | Inr (x, r) \<Rightarrow>
                  (case statements b n r of Inl e \<Rightarrow> Inl e | Inr (xs, u) \<Rightarrow> Inr (x # xs, u)))"

subsection \<open>The fuel is enough\<close>

text \<open>A parser that does not run out of fuel on inputs of at most \<open>n\<close> bytes.\<close>

definition fuelled :: "nat \<Rightarrow> 'a parser \<Rightarrow> bool" where
  "fuelled n p \<longleftrightarrow> (\<forall>s. length s \<le> n \<longrightarrow> p s \<noteq> Inl OutOfFuel)"

lemma fuelled_then:
  "fuelled n p \<Longrightarrow> shrinking p \<Longrightarrow> (\<And>x. fuelled n (f x)) \<Longrightarrow> fuelled n (pthen p f)"
  unfolding fuelled_def shrinking_def pthen_def
  by (auto split: sum.splits) (meson le_trans)

lemma fuelled_then_less:
  "fuelled (Suc n) p \<Longrightarrow> consuming p \<Longrightarrow> (\<And>x. fuelled n (f x)) \<Longrightarrow> fuelled (Suc n) (pthen p f)"
  unfolding fuelled_def consuming_def pthen_def
  by (auto split: sum.splits) (metis Suc_leI le_trans not_less_eq_eq Suc_le_mono)

lemma fuelled_alt: "fuelled n p \<Longrightarrow> fuelled n q \<Longrightarrow> fuelled n (alt2 p q)"
  unfolding fuelled_def alt2_def by (auto split: sum.splits parse_failure.splits)

lemma fuelled_opt: "fuelled n p \<Longrightarrow> fuelled n (popt p)"
  unfolding fuelled_def popt_def by (auto split: sum.splits parse_failure.splits)

lemma fuelled_atoms: "fuelled n (preturn x)" "fuelled n (literal w)" "fuelled n ws"
  by (simp_all add: fuelled_def preturn_def literal_def ws_def)

lemma fuelled_pfail: "e \<noteq> OutOfFuel \<Longrightarrow> fuelled n (pfail e)"
  by (simp add: fuelled_def pfail_def)

lemma fuelled_map: "fuelled n p \<Longrightarrow> shrinking p \<Longrightarrow> fuelled n (pmap f p)"
  by (simp add: pmap_def fuelled_then fuelled_atoms)

lemma fuelled_ident: "fuelled n ident" "fuelled n digit1"
proof -
  have "ident s \<noteq> Inl OutOfFuel" "digit1 s \<noteq> Inl OutOfFuel" for s by (cases s; simp)+
  then show "fuelled n ident" "fuelled n digit1" by (simp_all add: fuelled_def)
qed

lemmas fuelled_intros = fuelled_then fuelled_alt fuelled_opt fuelled_atoms fuelled_pfail fuelled_map fuelled_ident

lemma prefixed_Inl: "prefixed t r = Inl e \<longleftrightarrow> r = Inl e"
  by (simp add: prefixed_def split: sum.split)

lemma fuelled_string: "fuelled n string_body"
proof -
  have "string_body s \<noteq> Inl OutOfFuel" for s
    by (induction s rule: string_body.induct) (simp_all add: prefixed_Inl)
  then show ?thesis by (simp add: fuelled_def)
qed

lemma shrinking_ident [parser_size]: "shrinking ident"
  by (rule consuming_shrinking [OF consuming_ident])

lemma fuelled_scaled: "fuelled n (scaled b v k)"
  by (cases "secs_to_ms (mul_u64 b v k)") (simp_all add: scaled_def fuelled_def preturn_def pfail_def)

lemma fuelled_duration: "fuelled n (duration_value b)"
  unfolding duration_value_def
proof (rule fuelled_then [OF fuelled_ident(2) shrinking_tokens(3)])
  show "fuelled n (case parse_unsigned u64_max ds of None \<Rightarrow> pfail Backtrack | Some v \<Rightarrow>
      alt2 (pthen (literal ''ms'') (\<lambda>_. preturn v))
     (alt2 (pthen (literal ''s'') (\<lambda>_. preturn (1000 * v)))
     (alt2 (pthen (literal ''m'') (\<lambda>_. scaled b v 60))
     (alt2 (pthen (literal ''h'') (\<lambda>_. scaled b v 3600))
           (pthen (literal ''d'') (\<lambda>_. scaled b v 86400))))))" for ds
    by (cases "parse_unsigned u64_max ds")
       (simp_all add: fuelled_pfail fuelled_alt fuelled_then fuelled_atoms fuelled_scaled parser_size)
qed

lemma fuelled_sign: "fuelled n sign_opt"
  unfolding sign_opt_def by (intro fuelled_intros parser_size)

lemma fuelled_numbers: "fuelled n float_value" "fuelled n integer_value"
   apply (unfold float_value_def integer_value_def)
   apply (intro fuelled_intros fuelled_sign parser_size)
  apply (rule fuelled_then [OF fuelled_sign shrinking_tokens(4)], rule fuelled_then [OF fuelled_ident(2) shrinking_tokens(3)])
  apply (simp add: fuelled_def preturn_def pfail_def split: option.split)
  done

lemma fuelled_attr_value: "fuelled n (attr_value b)"
  unfolding attr_value_def quoted_string_def boolean_value_def
  by (intro fuelled_intros fuelled_string fuelled_duration fuelled_numbers parser_size)

lemma fuelled_qualified: "fuelled n qualified_or_plain_id"
  unfolding qualified_or_plain_id_def
  by (rule fuelled_then [OF fuelled_ident(1) shrinking_ident]) (simp add: fuelled_def split: prod.split)

lemma shrinking_qualified [parser_size]: "shrinking qualified_or_plain_id"
  by (rule consuming_shrinking [OF consuming_id])

lemma fuelled_attr: "fuelled n (attr b)"
  unfolding attr_def by (intro fuelled_intros fuelled_qualified fuelled_attr_value parser_size)

lemma shrinking_attr [parser_size]: "shrinking (attr b)"
  by (rule consuming_shrinking [OF consuming_attr])

lemma shrinking_separator [parser_size]: "shrinking separator"
  unfolding separator_def by (intro parser_size)

lemma fuelled_next_attr: "fuelled n (next_attr b)"
  unfolding next_attr_def separator_def by (intro fuelled_intros fuelled_attr parser_size)

lemma more_attrs_fuelled: "more_attrs b m s \<noteq> Inl OutOfFuel"
proof (induction b m s rule: more_attrs.induct)
  case (1 b m s)
  have "next_attr b s \<noteq> Inl OutOfFuel"
    using fuelled_next_attr [of "length s" b] by (simp add: fuelled_def)
  with 1 show ?case
    by (subst more_attrs.simps) (auto split: sum.split option.split prod.split)
qed

lemma more_attrs_length: "more_attrs b m s = Inr (x, r) \<Longrightarrow> length r \<le> length s"
proof (induction b m s arbitrary: x r rule: more_attrs.induct)
  case (1 b m s)
  have "shrinking (next_attr b)"
    unfolding next_attr_def by (intro parser_size)
  then have next_shrinks: "length r \<le> length s" if "next_attr b s = Inr (y, r)" for y r
    using that by (rule shrinkingD)
  from 1 show ?case
    by (subst (asm) (2) more_attrs.simps)
       (fastforce dest: next_shrinks split: sum.splits option.splits prod.splits)
qed

lemma shrinking_more [parser_size]: "shrinking (more_attrs b m)"
  by (auto simp: shrinking_def dest: more_attrs_length)

lemma fuelled_more: "fuelled n (more_attrs b m)"
  by (simp add: fuelled_def more_attrs_fuelled)

lemma consuming_attr_block: "consuming (attr_block b)"
  unfolding attr_block_def
  by (rule consuming_then1 [OF consuming_literal], simp)
     (intro parser_size, auto intro!: parser_size split: option.split)

lemma fuelled_attr_block: "fuelled n (attr_block b)"
  unfolding attr_block_def
  by (intro fuelled_intros fuelled_attr parser_size)
     (auto intro!: fuelled_more fuelled_atoms parser_size split: option.split)

lemma chain_rest_fuelled: "chain_rest s \<noteq> Inl OutOfFuel"
proof (induction s rule: measure_induct_rule [of length])
  case (less s)
  have "fuelled (length s) chain_step"
    unfolding chain_step_def
    by (intro fuelled_intros parser_size) (auto intro!: fuelled_intros parser_size split: option.split)
  then have "chain_step s \<noteq> Inl OutOfFuel" by (simp add: fuelled_def)
  with less show ?case
    by (subst chain_rest.simps) (auto dest: chain_step_shrinks split: sum.split option.split prod.split)
qed

lemma chain_rest_length: "chain_rest s = Inr (x, r) \<Longrightarrow> length r \<le> length s"
proof (induction s arbitrary: x r rule: chain_rest.induct)
  case (1 s)
  have "shrinking chain_step"
    unfolding chain_step_def by (intro parser_size) (auto intro!: parser_size split: option.split)
  then have step_shrinks: "length r \<le> length s" if "chain_step s = Inr (y, r)" for y r
    using that by (rule shrinkingD)
  from 1 show ?case
    by (subst (asm) (2) chain_rest.simps)
       (fastforce dest: step_shrinks split: sum.splits option.splits prod.splits)
qed

lemma shrinking_chain [parser_size]: "shrinking chain_rest"
  by (auto simp: shrinking_def dest: chain_rest_length)

lemma fuelled_chain: "fuelled n chain_rest"
  by (simp add: fuelled_def chain_rest_fuelled)

lemma shrinking_blocks [parser_size]: "shrinking (attr_block b)" "shrinking (opt_block b)" "shrinking semicolon"
  by (simp_all add: opt_block_def semicolon_def consuming_shrinking [OF consuming_attr_block]
      shrinking_map shrinking_opt shrinking_atoms)

lemma fuelled_blocks: "fuelled n (opt_block b)" "fuelled n semicolon"
  unfolding opt_block_def semicolon_def
  by (intro fuelled_intros fuelled_attr_block parser_size)+

lemma shrinking_edge [parser_size]: "shrinking (edge_stmt b x)"
  unfolding edge_stmt_def by (intro parser_size)

lemma shrinking_node [parser_size]: "shrinking (node_stmt b x)"
  unfolding node_stmt_def by (intro parser_size) (auto intro!: parser_size split: option.split)

lemma fuelled_edge: "fuelled n (edge_stmt b x)"
  unfolding edge_stmt_def by (intro fuelled_intros fuelled_chain fuelled_blocks parser_size)

lemma fuelled_node: "fuelled n (node_stmt b x)"
  unfolding node_stmt_def
  by (intro fuelled_intros fuelled_blocks parser_size)
     (auto intro!: fuelled_intros fuelled_blocks fuelled_attr_value parser_size split: option.split)

lemma consuming_defaults: "k \<noteq> [] \<Longrightarrow> consuming (defaults_stmt b k f)"
  unfolding defaults_stmt_def
  by (rule consuming_then1 [OF consuming_literal], simp) (intro parser_size)

lemma fuelled_defaults: "fuelled n (defaults_stmt b k f)"
  unfolding defaults_stmt_def by (intro fuelled_intros fuelled_attr_block fuelled_blocks parser_size)

lemma consuming_subgraph: "shrinking inner \<Longrightarrow> consuming (subgraph_stmt inner)"
  unfolding subgraph_stmt_def
  by (rule consuming_then1 [OF consuming_literal], simp) (assumption | intro parser_size)+

lemma fuelled_subgraph:
  assumes "shrinking inner" "fuelled n inner"
  shows "fuelled (Suc n) (subgraph_stmt inner)"
  unfolding subgraph_stmt_def
  by (rule fuelled_then_less [OF fuelled_atoms(2) consuming_literal], simp)
     (intro fuelled_intros fuelled_blocks parser_size assms)

lemma consuming_node_or_edge: "consuming (node_or_edge_stmt b)"
  unfolding node_or_edge_stmt_def
  by (rule consuming_then1 [OF consuming_ident]) (auto intro!: parser_size split: option.split)

lemma fuelled_node_or_edge: "fuelled n (node_or_edge_stmt b)"
  unfolding node_or_edge_stmt_def
  by (intro fuelled_intros parser_size)
     (auto intro!: fuelled_intros fuelled_edge fuelled_node parser_size split: option.split)

lemma consuming_statement: "shrinking inner \<Longrightarrow> consuming (statement_of b inner)"
  unfolding statement_of_def
  by (rule consuming_then2 [OF shrinking_atoms(4)])
     (intro consuming_alt consuming_defaults consuming_subgraph consuming_node_or_edge; simp)

lemma fuelled_statement:
  "shrinking inner \<Longrightarrow> fuelled n inner \<Longrightarrow> fuelled (Suc n) (statement_of b inner)"
  unfolding statement_of_def
  by (intro fuelled_then fuelled_atoms shrinking_atoms fuelled_alt fuelled_defaults fuelled_subgraph
      fuelled_node_or_edge)

lemma shrinking_statements [parser_size]: "shrinking (statements b n)"
proof (induction n)
  case (Suc n)
  have "length r \<le> length s" if "statements b (Suc n) s = Inr (xs, r)" for s xs r
  proof -
    let ?t = "dropWhile space_char s"
    have len: "length ?t \<le> length s" by (rule length_dropWhile_le)
    show ?thesis
    proof (cases "?t = [] \<or> hd ?t = CHR ''}''")
      case True
      then show ?thesis using that len by (auto simp: Let_def simp del: dropWhile_eq_Nil_conv)
    next
      case False
      with that obtain x u ys where "statement_of b (statements b n) ?t = Inr (x, u)"
        "statements b n u = Inr (ys, r)"
        by (auto simp: Let_def simp del: dropWhile_eq_Nil_conv split: sum.splits)
      with Suc show ?thesis
        using len consumingD [OF consuming_statement [OF Suc]] shrinkingD [OF Suc] by fastforce
    qed
  qed
  then show ?case by (simp add: shrinking_def)
qed (simp add: shrinking_def)

lemma statements_fuelled: "fuelled n (statements b (Suc n))"
proof (induction n)
  case 0
  then show ?case by (simp add: fuelled_def)
next
  case (Suc n)
  have "statements b (Suc (Suc n)) s \<noteq> Inl OutOfFuel" if "length s \<le> Suc n" for s
  proof -
    let ?t = "dropWhile space_char s"
    let ?st = "statement_of b (statements b (Suc n))"
    have len: "length ?t \<le> Suc n" using that length_dropWhile_le le_trans by blast
    have first: "?st ?t \<noteq> Inl OutOfFuel"
      using fuelled_statement [OF shrinking_statements Suc] len unfolding fuelled_def by blast
    have rest: "statements b (Suc n) r \<noteq> Inl OutOfFuel" if "?st ?t = Inr (x, r)" for x r
    proof -
      have "length r < length ?t"
        using that by (rule consumingD [OF consuming_statement [OF shrinking_statements]])
      with len Suc show ?thesis unfolding fuelled_def by simp
    qed
    show ?thesis
      using first rest
      by (subst statements.simps)
         (auto simp: Let_def simp del: dropWhile_eq_Nil_conv statements.simps split: sum.split)
  qed
  then show ?case by (simp add: fuelled_def)
qed

section \<open>The entry point\<close>

definition reject_other_graphs :: "unit parser" where
  "reject_other_graphs s =
     (if starts_with ''strict'' s
      then Inl (Cut (sq ''digraph'' @ '' keyword (strict graphs are not supported)''))
      else if starts_with ''graph'' s \<and> \<not> starts_with ''graph ['' s
        \<and> (case trim_start (drop 5 s) of c # _ \<Rightarrow> c = CHR ''{'' \<or> is_alpha c | [] \<Rightarrow> False)
      then Inl (Cut (sq ''digraph'' @ '' keyword (undirected graphs are not supported)''))
      else Inr ((), s))"

definition parse_digraph :: "build_profile \<Rightarrow> nat \<Rightarrow> dot_graph parser" where
  "parse_digraph b fuel =
     pthen ws (\<lambda>_. pthen reject_other_graphs (\<lambda>_. pthen (literal ''digraph'') (\<lambda>_. pthen ws (\<lambda>_.
     pthen ident (\<lambda>name. pthen ws (\<lambda>_. pthen (literal ''{'') (\<lambda>_. pthen ws (\<lambda>_.
     pthen (statements b fuel) (\<lambda>stmts. pthen ws (\<lambda>_. pthen (literal ''}'') (\<lambda>_.
     pthen ws (\<lambda>_. preturn (digraph_of name stmts)))))))))))))"

text \<open>What follows the graph is ignored.\<close>

definition parse :: "build_profile \<Rightarrow> str \<Rightarrow> parse_failure + dot_graph" where
  "parse b input =
     (let stripped = strip_comments input
      in case parse_digraph b (Suc (length stripped)) stripped of Inl e \<Rightarrow> Inl e | Inr (g, _) \<Rightarrow> Inr g)"

lemma parse_digraph_fuelled: "fuelled n (parse_digraph b (Suc n))"
proof -
  have "fuelled n reject_other_graphs" "shrinking reject_other_graphs"
    by (auto simp: fuelled_def shrinking_def reject_other_graphs_def split: if_splits)
  then show ?thesis
    unfolding parse_digraph_def by (intro fuelled_intros statements_fuelled parser_size)
qed

text \<open>
  Parsing always ends with a graph or a real error: the fuel of the statement loop, the length
  of the input, never runs out.
\<close>

theorem parse_total: "parse b input \<noteq> Inl OutOfFuel"
  using parse_digraph_fuelled [of "length (strip_comments input)" b]
  by (auto simp: parse_def fuelled_def Let_def split: sum.split)

end
