(* ===== verification/Dot_Serial.thy ===== *)
theory Dot_Serial
  imports Dot_Parser
begin

text \<open>
  The serializer (\<open>crates/attractor-dot/src/serializer.rs\<close>). A \<open>BTreeMap\<close> built from a hash
  map is its list of entries sorted by key. \<open>fmt\<close> is \<open>format!("{f}")\<close> on floats, the shortest
  decimal text that reads back as the same float.
\<close>

section \<open>Values and attribute lists\<close>

definition sorted_entries :: "'v hmap \<Rightarrow> 'v hmap" where
  "sorted_entries m = sort_key fst m"

definition escape_char :: "char \<Rightarrow> str" where
  "escape_char c =
     (if c = CHR 0x5C then [CHR 0x5C, CHR 0x5C] else if c = CHR 0x22 then [CHR 0x5C, CHR 0x22] else [c])"

definition escape_string :: "str \<Rightarrow> str" where
  "escape_string s = concat (map escape_char s)"

definition format_float :: "(f64 \<Rightarrow> str) \<Rightarrow> f64 \<Rightarrow> str" where
  "format_float fmt f = (let s = fmt f in if contains_str ''.'' s then s else s @ ''.0'')"

fun format_value :: "(f64 \<Rightarrow> str) \<Rightarrow> attribute_value \<Rightarrow> str" where
  "format_value fmt (AString s) = dq (escape_string s)"
| "format_value fmt (AInteger i) = show_int i"
| "format_value fmt (AFloat f) = format_float fmt f"
| "format_value fmt (ABoolean v) = (if v then ''true'' else ''false'')"
| "format_value fmt (ADuration ms) = show_nat ms @ ''ms''"

definition push_indent :: "nat \<Rightarrow> str" where
  "push_indent depth = concat (replicate depth ''    '')"

definition write_attr :: "(f64 \<Rightarrow> str) \<Rightarrow> str \<times> attribute_value \<Rightarrow> str" where
  "write_attr fmt = (\<lambda>(k, v). k @ ''='' @ format_value fmt v)"

definition write_attr_list :: "(f64 \<Rightarrow> str) \<Rightarrow> attrs \<Rightarrow> str" where
  "write_attr_list fmt a = join '', '' (map (write_attr fmt) (sorted_entries a))"

definition newline :: str where
  "newline = [CHR 0x0A]"

definition write_bare_attrs :: "(f64 \<Rightarrow> str) \<Rightarrow> nat \<Rightarrow> attrs \<Rightarrow> str" where
  "write_bare_attrs fmt depth a =
     concat (map (\<lambda>e. push_indent depth @ write_attr fmt e @ newline) (sorted_entries a))"

definition write_defaults_block :: "(f64 \<Rightarrow> str) \<Rightarrow> nat \<Rightarrow> str \<Rightarrow> attrs \<Rightarrow> str" where
  "write_defaults_block fmt depth keyword a =
     (if a = [] then [] else push_indent depth @ keyword @ '' ['' @ write_attr_list fmt a @ '']'' @ newline)"

section \<open>Nodes\<close>

definition inherited_attrs :: "node_def \<Rightarrow> attrs" where
  "inherited_attrs d =
     sorted_entries (filter (\<lambda>(k, _). \<not> hm_contains (nd_authored d) k) (nd_attrs d))"

definition has_unwritten_predecessor :: "node_def hmap \<Rightarrow> node_def \<Rightarrow> bool" where
  "has_unwritten_predecessor remaining d =
     list_ex (\<lambda>c. nd_id c \<noteq> nd_id d \<and> list_ex (\<lambda>k. \<not> hm_contains (nd_attrs c) k) (hm_keys (inherited_attrs d)))
       (hm_values remaining)"

definition next_node :: "node_def hmap \<Rightarrow> str" where
  "next_node remaining =
     (case find (\<lambda>(_, d). \<not> has_unwritten_predecessor remaining d) remaining of
        Some (i, _) \<Rightarrow> i
      | None \<Rightarrow> fst (hd remaining))"

definition defaults_delta :: "attrs \<Rightarrow> node_def \<Rightarrow> attrs" where
  "defaults_delta current d = filter (\<lambda>(k, v). hm_get current k \<noteq> Some v) (inherited_attrs d)"

lemma hm_remove_length: "hm_get m k = Some v \<Longrightarrow> length (hm_remove k m) < length m"
  by (induction m) (auto simp: hm_remove_def AList.delete_eq less_Suc_eq_le split: if_splits)

text \<open>
  The \<open>while\<close> loop of \<open>write_nodes\<close>: the nodes in the order they are written, each with the
  defaults block that precedes it.
\<close>

function node_schedule :: "node_def hmap \<Rightarrow> attrs \<Rightarrow> (attrs \<times> str \<times> node_def) list" where
  "node_schedule remaining current =
     (if remaining = [] then []
      else let i = next_node remaining
           in case hm_get remaining i of
                None \<Rightarrow> []
              | Some d \<Rightarrow>
                  (let delta = defaults_delta current d
                   in (delta, i, d) # node_schedule (hm_remove i remaining)
                        (if delta = [] then current else hm_extend current delta)))"
  by pat_completeness auto

termination
  by (relation "measure (\<lambda>(m, c). length m)") (auto intro: hm_remove_length)

declare node_schedule.simps [simp del]

lemma node_schedule_end: "rem = [] \<or> hm_get rem (next_node rem) = None \<Longrightarrow> node_schedule rem cur = []"
  by (subst node_schedule.simps) (auto simp: Let_def)

lemma node_schedule_step:
  "rem \<noteq> [] \<Longrightarrow> hm_get rem (next_node rem) = Some d \<Longrightarrow>
   node_schedule rem cur = (defaults_delta cur d, next_node rem, d) #
     node_schedule (hm_remove (next_node rem) rem)
       (if defaults_delta cur d = [] then cur else hm_extend cur (defaults_delta cur d))"
  by (subst node_schedule.simps) (simp add: Let_def)

definition write_node :: "(f64 \<Rightarrow> str) \<Rightarrow> nat \<Rightarrow> attrs \<times> str \<times> node_def \<Rightarrow> str" where
  "write_node fmt depth = (\<lambda>(delta, i, d).
     write_defaults_block fmt depth ''node'' delta @ push_indent depth @ i @
     (if nd_authored d = [] then '';'' @ newline
      else '' ['' @ write_attr_list fmt (nd_authored d) @ '']'' @ newline))"

definition write_nodes :: "(f64 \<Rightarrow> str) \<Rightarrow> nat \<Rightarrow> node_def hmap \<Rightarrow> str" where
  "write_nodes fmt depth nodes =
     concat (map (write_node fmt depth) (node_schedule (sorted_entries nodes) []))"

section \<open>Edges, subgraphs, the whole graph\<close>

definition write_edge :: "(f64 \<Rightarrow> str) \<Rightarrow> nat \<Rightarrow> edge_def \<Rightarrow> str" where
  "write_edge fmt depth e =
     push_indent depth @ ed_from e @ '' -> '' @ ed_to e @
     (if ed_attrs e = [] then [] else '' ['' @ write_attr_list fmt (ed_attrs e) @ '']'') @ newline"

definition write_edges :: "(f64 \<Rightarrow> str) \<Rightarrow> nat \<Rightarrow> edge_def list \<Rightarrow> str" where
  "write_edges fmt depth es = concat (map (write_edge fmt depth) es)"

text \<open>
  The bodies of subgraphs are written without subgraphs of their own, so the recursion between
  \<open>write_body\<close> and \<open>write_subgraphs\<close> is one level deep: \<open>inner\<close> is the text of the subgraphs.
\<close>

definition write_scope :: "(f64 \<Rightarrow> str) \<Rightarrow> nat \<Rightarrow> attrs \<Rightarrow> attrs \<Rightarrow> attrs \<Rightarrow> node_def hmap \<Rightarrow> edge_def list
    \<Rightarrow> str \<Rightarrow> str" where
  "write_scope fmt depth a nd ed nodes es inner =
     write_bare_attrs fmt depth a @ inner @ write_nodes fmt depth nodes @ write_edges fmt depth es @
     write_defaults_block fmt depth ''node'' nd @ write_defaults_block fmt depth ''edge'' ed"

definition write_subgraph :: "(f64 \<Rightarrow> str) \<Rightarrow> nat \<Rightarrow> subgraph_def \<Rightarrow> str" where
  "write_subgraph fmt depth sg =
     push_indent depth @ ''subgraph'' @ (case sg_name sg of Some n \<Rightarrow> '' '' @ n | None \<Rightarrow> []) @ '' {'' @ newline @
     write_scope fmt (Suc depth) (sg_attrs sg) (sg_node_defaults sg) (sg_edge_defaults sg)
       (sg_nodes sg) (sg_edges sg) [] @
     push_indent depth @ ''}'' @ newline"

definition write_subgraphs :: "(f64 \<Rightarrow> str) \<Rightarrow> nat \<Rightarrow> subgraph_def list \<Rightarrow> str" where
  "write_subgraphs fmt depth sgs = concat (map (write_subgraph fmt depth) sgs)"

definition write_body :: "(f64 \<Rightarrow> str) \<Rightarrow> nat \<Rightarrow> attrs \<Rightarrow> attrs \<Rightarrow> attrs \<Rightarrow> node_def hmap \<Rightarrow> edge_def list
    \<Rightarrow> subgraph_def list \<Rightarrow> str" where
  "write_body fmt depth a nd ed nodes es sgs =
     write_scope fmt depth a nd ed nodes es (write_subgraphs fmt depth sgs)"

definition to_dot_string :: "(f64 \<Rightarrow> str) \<Rightarrow> dot_graph \<Rightarrow> str" where
  "to_dot_string fmt g =
     ''digraph '' @ dg_name g @ '' {'' @ newline @
     write_body fmt 1 (dg_attrs g) (dg_node_defaults g) (dg_edge_defaults g) (dg_nodes g)
       (dg_edges g) (dg_subgraphs g) @
     ''}'' @ newline"

end
