(* ===== verification/Dot_Print.thy ===== *)
theory Dot_Print
  imports Dot_Serial
begin

text \<open>
  Parsing what the serializer writes: every piece of text it produces is read back, by the parser
  of its kind, as the syntax it was written from.
\<close>

named_theorems printed \<open>parsers on printed text\<close>

section \<open>Words\<close>

definition is_ident :: "str \<Rightarrow> bool" where
  "is_ident w \<longleftrightarrow> (case w of [] \<Rightarrow> False | c # r \<Rightarrow> id_start c \<and> list_all id_char r)"

definition is_key :: "str \<Rightarrow> bool" where
  "is_key k \<longleftrightarrow> list_all is_ident (split_on ''.'' k)"

text \<open>What may follow a word: nothing that continues it.\<close>

definition stops :: "(char \<Rightarrow> bool) \<Rightarrow> str \<Rightarrow> bool" where
  "stops p r \<longleftrightarrow> (case r of [] \<Rightarrow> True | c # _ \<Rightarrow> \<not> p c)"

lemma stops_simps [simp]: "stops p []" "stops p (c # r) \<longleftrightarrow> \<not> p c"
  by (simp_all add: stops_def)

lemma takeWhile_stops: "list_all p w \<Longrightarrow> stops p r \<Longrightarrow> takeWhile p (w @ r) = w \<and> dropWhile p (w @ r) = r"
  by (induction w) (auto simp: stops_def split: list.splits)

lemma dropWhile_space [simp]: "dropWhile space_char (dropWhile space_char s) = dropWhile space_char s"
  by (induction s) auto

lemma chars [simp]:
  "\<not> id_start (CHR ''='')" "\<not> id_start (CHR '';'')" "\<not> id_start (CHR ''['')" "\<not> id_start (CHR ''-'')"
  "\<not> id_start (CHR '' '')" "\<not> id_start (CHR ''.'')" "\<not> id_start (CHR '']'')" "\<not> id_start (CHR ''{'')"
  "\<not> id_start (CHR ''}'')" "\<not> id_char (CHR ''='')" "\<not> id_char (CHR '';'')" "\<not> id_char (CHR '' '')"
  "\<not> id_char (CHR ''.'')" "\<not> id_char (CHR 0x0A)" "\<not> id_start (CHR 0x0A)" "\<not> id_start (CHR '','')"
  by (simp_all add: id_start_def id_char_def is_alnum_def is_alpha_def is_upper_def is_digit_def)

lemma space_chars [simp]:
  "space_char (CHR '' '')" "space_char (CHR 0x0A)" "\<not> space_char (CHR ''='')" "\<not> space_char (CHR '';'')"
  "\<not> space_char (CHR ''['')" "\<not> space_char (CHR '']'')" "\<not> space_char (CHR '','')" "\<not> space_char (CHR ''-'')"
  "\<not> space_char (CHR ''{'')" "\<not> space_char (CHR ''}'')" "\<not> space_char (CHR 0x22)"
  by (simp_all add: space_char_def)

lemma id_start_char: "id_start c \<Longrightarrow> id_char c"
  by (auto simp: id_start_def id_char_def is_alnum_def)

lemma id_char_not_space: "id_char c \<Longrightarrow> \<not> space_char c"
  by (auto simp: id_char_def is_alnum_def is_alpha_def is_upper_def is_digit_def space_char_def)

lemma digit_not_space: "is_digit c \<Longrightarrow> \<not> space_char c"
  by (auto simp: is_digit_def space_char_def)

lemma digit_id_char: "is_digit c \<Longrightarrow> id_char c"
  by (simp add: id_char_def is_alnum_def)

lemma digit_not_start: "is_digit c \<Longrightarrow> \<not> id_start c"
  by (auto simp: id_start_def is_alpha_def is_upper_def is_digit_def)

lemma is_ident_chars: "is_ident w \<Longrightarrow> list_all id_char w \<and> w \<noteq> [] \<and> id_start (hd w)"
  by (cases w) (auto simp: is_ident_def id_start_char)

lemma ident_print [printed]: "is_ident w \<Longrightarrow> stops id_char r \<Longrightarrow> ident (w @ r) = Inr (w, r)"
  by (cases w) (simp_all add: is_ident_def takeWhile_stops)

lemma ident_fails: "stops id_start r \<Longrightarrow> ident r = Inl Backtrack"
  by (cases r) simp_all

lemma dotted_print:
  "list_all is_ident ps \<Longrightarrow> stops id_char r \<Longrightarrow> stops (\<lambda>c. c = CHR ''.'') r \<Longrightarrow>
   dotted_rest (concat (map (\<lambda>p. CHR ''.'' # p) ps) @ r) = (concat (map (\<lambda>p. CHR ''.'' # p) ps), r)"
proof (induction ps)
  case Nil
  then show ?case by (cases r) (simp_all add: dotted_rest.simps)
next
  case (Cons p ps)
  have "stops id_char (concat (map (\<lambda>p. CHR ''.'' # p) ps) @ r)"
    using Cons.prems by (cases ps) simp_all
  then have "ident (p @ concat (map (\<lambda>p. CHR ''.'' # p) ps) @ r)
      = Inr (p, concat (map (\<lambda>p. CHR ''.'' # p) ps) @ r)"
    using Cons.prems by (simp add: ident_print)
  then show ?case
    using Cons by (simp add: dotted_rest.simps [of "CHR ''.'' # _"])
qed

lemma join_dots: "ps \<noteq> [] \<Longrightarrow> join ''.'' ps = hd ps @ concat (map (\<lambda>p. CHR ''.'' # p) (tl ps))"
  by (induction "''.''" ps rule: join.induct) auto

lemma key_parts:
  assumes "is_key k"
  obtains p ps where "k = p @ concat (map (\<lambda>q. CHR ''.'' # q) ps)" "is_ident p" "list_all is_ident ps"
proof -
  let ?l = "split_on ''.'' k"
  have ne: "?l \<noteq> []" by (simp add: split_on_def)
  have "k = join ''.'' ?l" by (simp add: join_split_on)
  then have "k = hd ?l @ concat (map (\<lambda>q. CHR ''.'' # q) (tl ?l))" using ne by (simp add: join_dots)
  moreover have "is_ident (hd ?l)" "list_all is_ident (tl ?l)"
    using assms ne by (cases ?l; simp add: is_key_def)+
  ultimately show thesis using that by blast
qed

lemma key_print [printed]:
  assumes "is_key k"
  shows "qualified_or_plain_id (k @ CHR ''='' # r) = Inr (k, CHR ''='' # r)"
proof -
  obtain p ps where k: "k = p @ concat (map (\<lambda>q. CHR ''.'' # q) ps)" "is_ident p" "list_all is_ident ps"
    using assms by (rule key_parts)
  have "stops id_char (concat (map (\<lambda>q. CHR ''.'' # q) ps) @ CHR ''='' # r)" by (cases ps) simp_all
  with k show ?thesis
    by (simp add: qualified_or_plain_id_def pthen_def ident_print dotted_print)
qed

lemma key_chars: "is_key k \<Longrightarrow> k \<noteq> [] \<and> id_start (hd k) \<and> list_all (\<lambda>c. id_char c \<or> c = CHR ''.'') k"
proof -
  assume "is_key k"
  then obtain p ps where k: "k = p @ concat (map (\<lambda>q. CHR ''.'' # q) ps)" "is_ident p" "list_all is_ident ps"
    by (rule key_parts)
  then show ?thesis
    using is_ident_chars by (auto simp: list_all_iff)
qed

section \<open>Literals and values\<close>

lemma literal_match [printed]: "literal w (w @ r) = Inr ((), r)"
  by (simp add: literal_def)

lemma literal_char [simp]:
  "literal [c] (d # r) = (if c = d then Inr ((), r) else Inl Backtrack)"
  "literal (c # w) [] = Inl Backtrack"
  by (auto simp: literal_def starts_with_def)

lemma literal_Cons [simp]:
  "literal (c # w) (d # r) = (if c = d then literal w r else Inl Backtrack)"
  "literal [] r = Inr ((), r)"
  by (auto simp: literal_def starts_with_def)

lemma ws_simps [simp]: "ws s = Inr ((), dropWhile space_char s)"
  by (simp add: ws_def)

lemma string_print [printed]: "string_body (escape_string s @ CHR 0x22 # r) = Inr (s, r)"
proof (induction s)
  case Nil
  then show ?case by (cases r) (simp_all add: escape_string_def)
next
  case (Cons c s)
  obtain d t where tail: "escape_string s @ CHR 0x22 # r = d # t"
    by (cases "escape_string s") auto
  then show ?case
    using Cons by (auto simp: escape_string_def escape_char_def prefixed_def)
qed

lemma digit1_print [printed]:
  "list_all is_digit ds \<Longrightarrow> ds \<noteq> [] \<Longrightarrow> stops is_digit r \<Longrightarrow> digit1 (ds @ r) = Inr (ds, r)"
  by (cases ds) (simp_all add: takeWhile_stops)

text \<open>What follows a printed value: a separator, the end of the block or of the line.\<close>

definition value_end :: "str \<Rightarrow> bool" where
  "value_end r \<longleftrightarrow> (case r of [] \<Rightarrow> False | c # _ \<Rightarrow> c = CHR '','' \<or> c = CHR '']'' \<or> c = CHR 0x0A)"

lemma value_endE:
  assumes "value_end r"
  obtains t where "r = CHR '','' # t \<or> r = CHR '']'' # t \<or> r = CHR 0x0A # t"
  using assms by (auto simp: value_end_def split: list.splits)

definition float_ok :: "(f64 \<Rightarrow> str) \<Rightarrow> f64 \<Rightarrow> bool" where
  "float_ok fmt f \<longleftrightarrow> float_value (format_float fmt f) = Inr (f, [])"

fun value_ok :: "(f64 \<Rightarrow> str) \<Rightarrow> attribute_value \<Rightarrow> bool" where
  "value_ok fmt (AString s) \<longleftrightarrow> ascii_text s"
| "value_ok fmt (AInteger i) \<longleftrightarrow> i64_min \<le> i \<and> i \<le> i64_max"
| "value_ok fmt (AFloat f) \<longleftrightarrow> float_ok fmt f"
| "value_ok fmt (ABoolean v) \<longleftrightarrow> True"
| "value_ok fmt (ADuration ms) \<longleftrightarrow> ms \<le> u64_max"

text \<open>A decimal number is not read as a value of an earlier kind.\<close>

definition number_head :: "str \<Rightarrow> bool" where
  "number_head s \<longleftrightarrow> (case s of [] \<Rightarrow> False | c # _ \<Rightarrow> is_digit c \<or> c = CHR ''-'' \<or> c = CHR ''+'')"

lemma number_head_not:
  "number_head s \<Longrightarrow> quoted_string s = Inl Backtrack \<and> boolean_value s = Inl Backtrack"
  by (cases s)
     (auto simp: number_head_def quoted_string_def boolean_value_def pthen_def alt2_def pmap_def is_digit_def)

lemma attr_value_number:
  "number_head s \<Longrightarrow> attr_value b s =
     alt2 (pmap ADuration (duration_value b)) (alt2 (pmap AFloat float_value) (pmap AInteger integer_value)) s"
  using number_head_not [of s] by (simp add: attr_value_def alt2_def pmap_def pthen_def)

lemma digits_head: "list_all is_digit ds \<Longrightarrow> ds \<noteq> [] \<Longrightarrow> number_head (ds @ r)"
  by (cases ds) (simp_all add: number_head_def)

definition unit_head :: "char \<Rightarrow> bool" where
  "unit_head c \<longleftrightarrow> c = CHR ''m'' \<or> c = CHR ''s'' \<or> c = CHR ''h'' \<or> c = CHR ''d''"

lemma unit_fails:
  "stops unit_head r \<Longrightarrow> literal (CHR ''m'' # w) r = Inl Backtrack \<and> literal ''s'' r = Inl Backtrack \<and>
     literal ''h'' r = Inl Backtrack \<and> literal ''d'' r = Inl Backtrack"
  by (cases r) (auto simp: unit_head_def)

lemma not_duration:
  assumes "list_all is_digit ds" "ds \<noteq> []" "stops (\<lambda>c. is_digit c \<or> unit_head c) r"
  shows "duration_value b (ds @ r) = Inl Backtrack"
proof -
  have "stops is_digit r" using assms by (cases r) simp_all
  with assms have "digit1 (ds @ r) = Inr (ds, r)" by (simp add: digit1_print)
  moreover have "stops unit_head r" using assms by (cases r) simp_all
  ultimately show ?thesis
    by (cases "parse_unsigned u64_max ds")
       (simp_all add: duration_value_def pthen_def alt2_def pfail_def unit_fails)
qed

lemma sign_print:
  "sg = [] \<or> sg = ''-'' \<Longrightarrow> list_all is_digit ds \<Longrightarrow> ds \<noteq> [] \<Longrightarrow> sign_opt (sg @ ds @ r) = Inr (sg, ds @ r)"
  by (cases ds)
     (auto simp: sign_opt_def pmap_def pthen_def popt_def alt2_def preturn_def is_digit_def)

lemma show_int_parts:
  obtains sg ds where "show_int i = sg @ ds" "sg = [] \<or> sg = ''-''" "list_all is_digit ds" "ds \<noteq> []"
    "parse_signed i64_min i64_max (sg @ ds) = (if i64_min \<le> i \<and> i \<le> i64_max then Some i else None)"
proof (cases "i < 0")
  case True
  let ?ds = "show_nat (nat (- i))"
  have "parse_signed i64_min i64_max (''-'' @ ?ds) = (if i64_min \<le> i \<and> i \<le> i64_max then Some i else None)"
    using show_nat_digits [of "nat (- i)"] True
    by (simp add: parse_signed_def Let_def digits_val_show_nat)
  with True that [of "''-''" ?ds] show thesis
    using show_nat_digits [of "nat (- i)"] by (simp add: show_int_def)
next
  case False
  let ?ds = "show_nat (nat i)"
  have hd: "hd ?ds \<noteq> CHR ''-''" "hd ?ds \<noteq> CHR ''+''"
    using show_nat_hd [of "nat i"] not_digit_sign by metis+
  have "parse_signed i64_min i64_max ?ds = (if i64_min \<le> i \<and> i \<le> i64_max then Some i else None)"
    using show_nat_digits [of "nat i"] False hd
    by (simp add: parse_signed_def Let_def digits_val_show_nat)
  with False that [of "[]" ?ds] show thesis
    using show_nat_digits [of "nat i"] by (simp add: show_int_def)
qed

lemma float_parts:
  assumes "float_value s = Inr (f, [])"
  obtains sg ds fs where "s = sg @ ds @ CHR ''.'' # fs" "sg = [] \<or> sg = ''-'' \<or> sg = ''+''"
    "list_all is_digit ds" "ds \<noteq> []" "list_all is_digit fs" "fs \<noteq> []" "f = float_of_parts sg ds fs"
proof -
  from assms obtain sg r ds r' r'' fs where parts: "sign_opt s = Inr (sg, r)" "digit1 r = Inr (ds, r')"
    "literal ''.'' r' = Inr ((), r'')" "digit1 r'' = Inr (fs, [])" "f = float_of_parts sg ds fs"
    by (auto simp: float_value_def pthen_Inr preturn_def)
  have digits: "t = w @ u \<and> list_all is_digit w \<and> w \<noteq> []" if "digit1 t = Inr (w, u)" for t w u
    using that by (cases t) (auto simp: list_all_iff dest: set_takeWhileD split: if_splits)
  have "s = sg @ r \<and> (sg = [] \<or> sg = ''-'' \<or> sg = ''+'')"
    using parts(1)
    by (cases s) (auto simp: sign_opt_def pmap_def pthen_def popt_def alt2_def preturn_def split: if_splits)
  moreover have "r' = CHR ''.'' # r''"
    using parts(3) by (cases r') (auto split: if_splits)
  ultimately show thesis
    using that [of sg ds fs] digits [OF parts(2)] digits [OF parts(4)] parts(5) by auto
qed

lemma sign_print_any:
  "sg = [] \<or> sg = ''-'' \<or> sg = ''+'' \<Longrightarrow> list_all is_digit ds \<Longrightarrow> ds \<noteq> [] \<Longrightarrow>
   sign_opt (sg @ ds @ r) = Inr (sg, ds @ r)"
  by (cases ds)
     (auto simp: sign_opt_def pmap_def pthen_def popt_def alt2_def preturn_def is_digit_def)

lemma duration_no_sign: "sg = ''-'' \<or> sg = ''+'' \<Longrightarrow> duration_value b (sg @ r) = Inl Backtrack"
  by (auto simp: duration_value_def pthen_def)

lemma value_end_stops:
  assumes "value_end r"
  shows "stops is_digit r" "stops (\<lambda>c. is_digit c \<or> unit_head c) r" "literal ''.'' r = Inl Backtrack"
  using assms by (auto elim!: value_endE simp: is_digit_def unit_head_def)

lemma float_print:
  assumes "float_ok fmt f" "value_end r"
  shows "attr_value b (format_float fmt f @ r) = Inr (AFloat f, r)"
proof -
  obtain sg ds fs where f: "format_float fmt f = sg @ ds @ CHR ''.'' # fs"
    "sg = [] \<or> sg = ''-'' \<or> sg = ''+''" "list_all is_digit ds" "ds \<noteq> []" "list_all is_digit fs" "fs \<noteq> []"
    "f = float_of_parts sg ds fs"
    using assms(1) unfolding float_ok_def by (rule float_parts)
  let ?s = "sg @ ds @ CHR ''.'' # fs @ r"
  have head: "number_head ?s" using f(2-4) by (cases ds) (auto simp: number_head_def)
  have no_duration: "duration_value b ?s = Inl Backtrack"
    using f(2) not_duration [OF f(3,4), of "CHR ''.'' # fs @ r" b] duration_no_sign [of sg b]
    by (auto simp: is_digit_def unit_head_def)
  have "digit1 (ds @ CHR ''.'' # fs @ r) = Inr (ds, CHR ''.'' # fs @ r)"
    by (rule digit1_print) (use f in \<open>simp_all add: is_digit_def\<close>)
  moreover have "digit1 (fs @ r) = Inr (fs, r)"
    by (rule digit1_print) (use f value_end_stops [OF assms(2)] in simp_all)
  ultimately have "float_value ?s = Inr (f, r)"
    using f by (simp add: float_value_def pthen_def sign_print_any preturn_def)
  with head no_duration show ?thesis
    by (simp add: f(1) attr_value_number alt2_def pmap_def pthen_def preturn_def)
qed

lemma integer_print:
  assumes "i64_min \<le> i" "i \<le> i64_max" "value_end r"
  shows "attr_value b (show_int i @ r) = Inr (AInteger i, r)"
proof -
  obtain sg ds where i: "show_int i = sg @ ds" "sg = [] \<or> sg = ''-''" "list_all is_digit ds" "ds \<noteq> []"
    "parse_signed i64_min i64_max (sg @ ds) = Some i"
    using show_int_parts [of i] assms(1,2) by metis
  have head: "number_head (sg @ ds @ r)" using i(2-4) by (cases ds) (auto simp: number_head_def)
  have no_duration: "duration_value b (sg @ ds @ r) = Inl Backtrack"
    using i(2) not_duration [OF i(3,4) value_end_stops(2) [OF assms(3)]] duration_no_sign [of sg b] by auto
  have sign: "sign_opt (sg @ ds @ r) = Inr (sg, ds @ r)" using i by (intro sign_print_any) auto
  have digits: "digit1 (ds @ r) = Inr (ds, r)"
    by (rule digit1_print) (use i value_end_stops [OF assms(3)] in simp_all)
  have "float_value (sg @ ds @ r) = Inl Backtrack"
    using sign digits value_end_stops(3) [OF assms(3)] by (simp add: float_value_def pthen_def)
  moreover have "integer_value (sg @ ds @ r) = Inr (i, r)"
    using sign digits i(5) by (simp add: integer_value_def pthen_def preturn_def)
  ultimately show ?thesis
    using head no_duration by (simp add: i(1) attr_value_number alt2_def pmap_def pthen_def preturn_def)
qed

lemma duration_print:
  assumes "ms \<le> u64_max"
  shows "attr_value b (show_nat ms @ ''ms'' @ r) = Inr (ADuration ms, r)"
proof -
  let ?s = "show_nat ms @ ''ms'' @ r"
  have d: "list_all is_digit (show_nat ms)" "show_nat ms \<noteq> []" using show_nat_digits by auto
  have head: "number_head ?s" using digits_head [OF d] .
  have "digit1 ?s = Inr (show_nat ms, ''ms'' @ r)"
    by (rule digit1_print) (use d in \<open>simp_all add: is_digit_def\<close>)
  then have "duration_value b ?s = Inr (ms, r)"
    using assms by (simp add: duration_value_def pthen_def alt2_def preturn_def parse_unsigned_show)
  with head show ?thesis by (simp add: attr_value_number alt2_def pmap_def pthen_def preturn_def)
qed

lemma value_print [printed]:
  assumes "value_ok fmt v" "value_end r"
  shows "attr_value b (format_value fmt v @ r) = Inr (v, r)"
proof (cases v)
  case (AString s)
  then show ?thesis
    by (simp add: attr_value_def alt2_def pmap_def pthen_def quoted_string_def dq_def string_print preturn_def)
next
  case (ABoolean t)
  then show ?thesis
    by (simp add: attr_value_def alt2_def pmap_def pthen_def quoted_string_def boolean_value_def preturn_def)
next
  case (ADuration ms)
  then show ?thesis using assms duration_print [of ms b r] by simp
qed (use assms in \<open>simp_all add: integer_print float_print\<close>)

lemma value_no_space: "value_ok fmt v \<Longrightarrow> stops space_char (format_value fmt v @ r)"
proof (cases v)
  case (AInteger i)
  obtain sg ds where "show_int i = sg @ ds" "sg = [] \<or> sg = ''-''" "list_all is_digit ds" "ds \<noteq> []"
    using show_int_parts [of i] by metis
  with AInteger show ?thesis by (cases ds) (auto simp: digit_not_space)
next
  case (AFloat f)
  assume "value_ok fmt v"
  with AFloat have "float_value (format_float fmt f) = Inr (f, [])" by (simp add: float_ok_def)
  then obtain sg ds fs where "format_float fmt f = sg @ ds @ CHR ''.'' # fs"
    "sg = [] \<or> sg = ''-'' \<or> sg = ''+''" "list_all is_digit ds" "ds \<noteq> []"
    by (rule float_parts)
  with AFloat show ?thesis by (cases ds) (auto simp: is_digit_def space_char_def)
next
  case (ADuration ms)
  then show ?thesis
    using show_nat_digits [of ms] by (cases "show_nat ms") (simp_all add: digit_not_space)
qed (simp_all add: dq_def space_char_def)

section \<open>Attribute blocks\<close>

definition attrs_ok :: "(f64 \<Rightarrow> str) \<Rightarrow> attrs \<Rightarrow> bool" where
  "attrs_ok fmt a \<longleftrightarrow> hm_wf a \<and> list_all (\<lambda>(k, v). is_key k \<and> value_ok fmt v) a"

lemma set_sorted_entries [simp]: "set (sorted_entries a) = set a"
  by (simp add: sorted_entries_def)

lemma sorted_entries_Nil [simp]: "sorted_entries a = [] \<longleftrightarrow> a = []" "sorted_entries [] = []"
  by (metis set_empty set_sorted_entries) (simp add: sorted_entries_def)

lemma hm_wf_sorted [simp]: "hm_wf (sorted_entries a) \<longleftrightarrow> hm_wf a"
  by (simp add: hm_wf_def distinct_map sorted_entries_def)

lemma attr_print [printed]:
  assumes "is_key k" "value_ok fmt v" "value_end r"
  shows "attr b (write_attr fmt (k, v) @ r) = Inr ((k, v), r)"
proof -
  have "dropWhile space_char (format_value fmt v @ r) = format_value fmt v @ r"
    using value_no_space [OF assms(2), of r] by (cases "format_value fmt v @ r") simp_all
  then show ?thesis
    using assms
    by (simp add: attr_def write_attr_def pthen_def key_print value_print preturn_def)
qed

lemma next_attr_more:
  assumes "is_key k" "value_ok fmt v" "value_end r"
  shows "next_attr b ('', '' @ write_attr fmt (k, v) @ r) = Inr (Some (k, v), r)"
proof -
  have "\<not> space_char (hd k)" "k \<noteq> []"
    using key_chars [OF assms(1)] id_char_not_space id_start_char by blast+
  then have "dropWhile space_char (write_attr fmt (k, v) @ r) = write_attr fmt (k, v) @ r"
    by (cases k) (simp_all add: write_attr_def)
  then show ?thesis
    using assms
    by (simp add: next_attr_def pthen_def separator_def popt_def alt2_def attr_print space_char_def)
qed

lemma next_attr_end: "next_attr b (CHR '']'' # r) = Inr (None, CHR '']'' # r)"
  by (simp add: next_attr_def pthen_def separator_def popt_def alt2_def attr_def
      qualified_or_plain_id_def)

lemma more_attrs_print:
  "list_all (\<lambda>(k, v). is_key k \<and> value_ok fmt v) es \<Longrightarrow>
   more_attrs b m (concat (map (\<lambda>e. '', '' @ write_attr fmt e) es) @ CHR '']'' # r)
     = Inr (fold (\<lambda>(k, v). hm_insert k v) es m, CHR '']'' # r)"
proof (induction es arbitrary: m)
  case Nil
  then show ?case by (simp add: more_attrs.simps next_attr_end)
next
  case (Cons e es)
  obtain k v where e: "e = (k, v)" by (cases e)
  let ?r = "concat (map (\<lambda>e. '', '' @ write_attr fmt e) es) @ CHR '']'' # r"
  have "value_end ?r" by (cases es) (simp_all add: value_end_def)
  then have "next_attr b ('', '' @ write_attr fmt (k, v) @ ?r) = Inr (Some (k, v), ?r)"
    using Cons.prems e by (intro next_attr_more) simp_all
  then show ?case
    using Cons e by (subst more_attrs.simps) simp
qed

lemma fold_insert_fresh:
  "hm_wf (m @ es) \<Longrightarrow> fold (\<lambda>(k, v). hm_insert k v) es m = m @ es"
proof (induction es arbitrary: m)
  case (Cons e es)
  obtain k v where e: "e = (k, v)" by (cases e)
  have "hm_insert k v m = m @ [(k, v)]"
    using Cons.prems e by (induction m) (auto simp: hm_insert_def hm_wf_def)
  with Cons e show ?case by simp
qed simp

lemma write_attr_list_Cons:
  assumes "sorted_entries a = e # es"
  shows "write_attr_list fmt a = write_attr fmt e @ concat (map (\<lambda>e. '', '' @ write_attr fmt e) es)"
proof -
  have "join '', '' (map (write_attr fmt) (e # es))
      = write_attr fmt e @ concat (map (\<lambda>e. '', '' @ write_attr fmt e) es)" for e es
    by (induction es arbitrary: e) auto
  then show ?thesis using assms by (simp add: write_attr_list_def)
qed

lemma attr_block_print [printed]:
  assumes "attrs_ok fmt a" "a \<noteq> []"
  shows "attr_block b (CHR ''['' # write_attr_list fmt a @ CHR '']'' # r) = Inr (sorted_entries a, r)"
proof -
  obtain e es where a: "sorted_entries a = e # es"
    using assms(2) by (cases "sorted_entries a") auto
  obtain k v where e: "e = (k, v)" by (cases e)
  have ok: "list_all (\<lambda>(k, v). is_key k \<and> value_ok fmt v) (e # es)"
    using assms(1) set_sorted_entries [of a] by (simp add: attrs_ok_def list_all_iff flip: a)
  have wf: "hm_wf ([e] @ es)" using assms(1) a by (metis append_Cons append_Nil attrs_ok_def hm_wf_sorted)
  let ?r = "concat (map (\<lambda>e. '', '' @ write_attr fmt e) es) @ CHR '']'' # r"
  have start: "dropWhile space_char (write_attr fmt e @ ?r) = write_attr fmt e @ ?r"
    using key_chars [of k] id_char_not_space id_start_char ok e by (cases k) (auto simp: write_attr_def)
  have "value_end ?r" by (cases es) (simp_all add: value_end_def)
  then have "attr b (write_attr fmt e @ ?r) = Inr (e, ?r)"
    using ok e by (simp add: attr_print)
  moreover have "more_attrs b [e] ?r = Inr (e # es, CHR '']'' # r)"
    using more_attrs_print [of fmt es b "[e]" r] ok fold_insert_fresh [OF wf] by simp
  ultimately show ?thesis
    using start e
    by (simp add: attr_block_def pthen_def popt_def write_attr_list_Cons [OF a] preturn_def a)
qed

section \<open>Statements\<close>

text \<open>What follows a statement: another statement or the end of the scope.\<close>

definition follows :: "str \<Rightarrow> bool" where
  "follows r \<longleftrightarrow> (case dropWhile space_char r of [] \<Rightarrow> False | c # _ \<Rightarrow> id_start c \<or> c = CHR ''}'')"

lemma followsE:
  assumes "follows r"
  obtains c t where "dropWhile space_char r = c # t" "id_start c \<or> c = CHR ''}''" "\<not> space_char c"
proof (cases "dropWhile space_char r")
  case Nil
  then show thesis using assms by (simp add: follows_def del: dropWhile_eq_Nil_conv)
next
  case (Cons c t)
  then have "\<not> space_char c" using hd_dropWhile [of space_char r] by auto
  with Cons assms that show thesis by (simp add: follows_def)
qed

lemma follows_newline [simp]: "follows (CHR 0x0A # r) \<longleftrightarrow> follows r"
  by (simp add: follows_def)

text \<open>The word a statement begins with, and the first byte after it that is not white space.\<close>

definition after_word :: "str \<Rightarrow> bool" where
  "after_word r \<longleftrightarrow> stops id_char r \<and>
     (case dropWhile space_char r of [] \<Rightarrow> False | c # _ \<Rightarrow> c \<in> {CHR ''='', CHR '';'', CHR ''['', CHR ''-''})"

lemma after_wordE:
  assumes "after_word r"
  obtains c t where "dropWhile space_char r = c # t" "c \<in> {CHR ''='', CHR '';'', CHR ''['', CHR ''-''}" "stops id_char r"
  using assms by (auto simp: after_word_def split: list.splits)

lemma keyword_split:
  assumes "literal kw (w @ r) = Inr ((), u)" "list_all id_char kw" "stops id_char r"
  obtains w' where "w = kw @ w'" "u = w' @ r"
proof (cases "length kw \<le> length w")
  case True
  with assms have "take (length kw) w = kw" "u = drop (length kw) w @ r"
    by (auto simp: literal_def starts_with_def split: if_splits)
  then show thesis using that [of "drop (length kw) w"] by (metis append_take_drop_id)
next
  case False
  with assms have "kw = w @ take (length kw - length w) r"
    by (auto simp: literal_def starts_with_def split: if_splits)
  moreover from False have "length w < length kw" by simp
  ultimately have "take (length kw - length w) r \<noteq> []" "list_all id_char (take (length kw - length w) r)"
    using assms(2) by (metis append_Nil2 less_irrefl, metis list_all_append)
  then show thesis using assms(3) by (cases r; cases "length kw - length w") auto
qed

lemma defaults_fails:
  assumes w: "is_ident w" and r: "after_word r" and kw: "list_all id_char kw"
    and other: "w \<noteq> kw \<or> hd (dropWhile space_char r) \<noteq> CHR ''[''"
  shows "defaults_stmt b kw f (w @ r) = Inl Backtrack"
proof (cases "literal kw (w @ r)")
  case (Inl e)
  then show ?thesis by (auto simp: defaults_stmt_def pthen_def literal_def split: if_splits)
next
  case (Inr p)
  obtain c t where c: "dropWhile space_char r = c # t" "c \<in> {CHR ''='', CHR '';'', CHR ''['', CHR ''-''}"
    "stops id_char r" using r by (rule after_wordE)
  obtain u where "literal kw (w @ r) = Inr ((), u)" using Inr by (cases p) simp
  then obtain w' where w': "w = kw @ w'" "u = w' @ r" using kw c(3) by (rule keyword_split)
  have "attr_block b (dropWhile space_char (w' @ r)) = Inl Backtrack"
  proof (cases w')
    case Nil
    with w' other c show ?thesis by (auto simp: attr_block_def pthen_def)
  next
    case (Cons d v)
    with w' w have "id_char d" using is_ident_chars [of w] by simp
    moreover from this have "d \<noteq> CHR ''[''" by (auto simp: id_char_def is_alnum_def is_alpha_def is_upper_def is_digit_def)
    ultimately show ?thesis using Cons id_char_not_space by (simp add: attr_block_def pthen_def)
  qed
  with w' show ?thesis by (simp add: defaults_stmt_def pthen_def printed)
qed

lemma subgraph_fails:
  assumes w: "is_ident w" and r: "after_word r"
  shows "subgraph_stmt inner (w @ r) = Inl Backtrack"
proof (cases "literal ''subgraph'' (w @ r)")
  case (Inl e)
  then show ?thesis by (auto simp: subgraph_stmt_def pthen_def literal_def split: if_splits)
next
  case (Inr p)
  obtain c t where c: "dropWhile space_char r = c # t" "c \<in> {CHR ''='', CHR '';'', CHR ''['', CHR ''-''}"
    "stops id_char r" using r by (rule after_wordE)
  have kw: "list_all id_char ''subgraph''" by (simp add: id_char_def is_alnum_def is_alpha_def is_upper_def)
  obtain u where "literal ''subgraph'' (w @ r) = Inr ((), u)" using Inr by (cases p) simp
  then obtain w' where w': "w = ''subgraph'' @ w'" "u = w' @ r" using kw c(3) by (rule keyword_split)
  let ?s = "dropWhile space_char (w' @ r)"
  have "\<exists>n v d y. popt ident ?s = Inr (n, v) \<and> dropWhile space_char v = d # y \<and> d \<noteq> CHR ''{''"
  proof (cases w')
    case Nil
    with c show ?thesis by (auto simp: popt_def)
  next
    case (Cons d v)
    with w' w have d: "id_char d" "list_all id_char v" "d \<noteq> CHR ''{''"
      using is_ident_chars [of w] by (auto simp: id_char_def is_alnum_def is_alpha_def is_upper_def is_digit_def)
    then have s: "?s = w' @ r" using Cons id_char_not_space by simp
    show ?thesis
    proof (cases "id_start d")
      case True
      have "ident (w' @ r) = Inr (w', r)"
        by (rule ident_print [OF _ c(3)]) (use True Cons d in \<open>simp add: is_ident_def\<close>)
      then have "ident ?s = Inr (w', r)" by (simp only: s)
      with c show ?thesis by (auto simp: popt_def)
    next
      case False
      with Cons d s id_char_not_space show ?thesis by (auto simp: popt_def)
    qed
  qed
  with w' show ?thesis by (auto simp: subgraph_stmt_def pthen_def printed)
qed

text \<open>
  A piece of text that the statement parser reads back as \<open>x\<close>, whatever follows it in the scope;
  \<open>n\<close> is the fuel for the statements of a nested scope.
\<close>

definition prints :: "build_profile \<Rightarrow> str \<Rightarrow> statement \<Rightarrow> bool" where
  "prints b t x \<longleftrightarrow>
     (\<exists>c u. dropWhile space_char t = c # u \<and> id_start c) \<and>
     (\<forall>n r. follows r \<longrightarrow> length (t @ r) \<le> n \<longrightarrow>
        (\<exists>r'. statement_of b (statements b n) (dropWhile space_char (t @ r)) = Inr (x, r') \<and>
              dropWhile space_char r' = dropWhile space_char r))"

lemma word_statement:
  assumes w: "is_ident w" and r: "after_word r"
    and other: "w \<notin> {''graph'', ''node'', ''edge''} \<or> hd (dropWhile space_char r) \<noteq> CHR ''[''"
  shows "statement_of b inner (w @ r) = node_or_edge_stmt b (w @ r)"
proof -
  have "list_all id_char ''graph''" "list_all id_char ''node''" "list_all id_char ''edge''"
    by (simp_all add: id_char_def is_alnum_def is_alpha_def is_upper_def)
  then have "defaults_stmt b kw f (w @ r) = Inl Backtrack" if "kw \<in> {''graph'', ''node'', ''edge''}" for kw f
    using that other by (auto intro!: defaults_fails [OF w r])
  moreover have "dropWhile space_char (w @ r) = w @ r"
    using is_ident_chars [OF w] id_char_not_space by (cases w) auto
  ultimately show ?thesis
    using subgraph_fails [OF w r] by (simp add: statement_of_def pthen_def alt2_def split: sum.split)
qed

lemma indent_space: "list_all space_char (push_indent d)"
  by (induction d) (simp_all add: push_indent_def)

lemma drop_indent [simp]: "dropWhile space_char (push_indent d @ s) = dropWhile space_char s"
  using indent_space [of d] by (induction "push_indent d" arbitrary: d) (auto simp: list_all_iff dropWhile_append)

lemma semicolon_none: "stops (\<lambda>c. c = CHR '';'') s \<Longrightarrow> semicolon s = Inr (None, s)"
  by (cases s) (auto simp: semicolon_def popt_def)

lemma follows_semicolon: "follows r \<Longrightarrow> semicolon (dropWhile space_char r) = Inr (None, dropWhile space_char r)"
  by (rule semicolon_none) (erule followsE; auto)

lemma ident_no_space: "is_ident w \<Longrightarrow> dropWhile space_char (w @ s) = w @ s"
  using is_ident_chars [of w] id_char_not_space by (cases w) auto

text \<open>A word with what follows it, as the statement parser sees it.\<close>

lemma prints_word:
  assumes w: "is_ident w" and r: "\<And>r. after_word (t @ r)"
    and other: "w \<notin> {''graph'', ''node'', ''edge''} \<or> (\<forall>r. hd (dropWhile space_char (t @ r)) \<noteq> CHR ''['')"
    and parse: "\<And>r. follows r \<Longrightarrow> \<exists>r'. node_or_edge_stmt b (w @ t @ r) = Inr (x, r') \<and>
                       dropWhile space_char r' = dropWhile space_char r"
  shows "prints b (push_indent d @ w @ t) x"
proof -
  have "\<exists>c u. dropWhile space_char (w @ t) = c # u \<and> id_start c"
    using ident_no_space [OF w, of t] is_ident_chars [OF w] by (cases w) auto
  moreover have "statement_of b inner (w @ t @ r) = node_or_edge_stmt b (w @ t @ r)" for inner r
    using word_statement [OF w r] other by blast
  ultimately show ?thesis
    using parse by (simp add: prints_def ident_no_space [OF w])
qed

lemma node_or_edge_word:
  assumes "is_ident w" "stops id_char s" "literal ''->'' (dropWhile space_char s) = Inl Backtrack"
    "literal ''--'' (dropWhile space_char s) = Inl Backtrack"
  shows "node_or_edge_stmt b (w @ s) = node_stmt b w (dropWhile space_char s)"
  using assms by (simp add: node_or_edge_stmt_def pthen_def printed popt_def)

lemma no_block: "stops (\<lambda>c. c = CHR ''['') s \<Longrightarrow> opt_block b s = Inr ([], s)"
  by (cases s) (auto simp: opt_block_def pmap_def pthen_def popt_def attr_block_def preturn_def)

lemma opt_block_print:
  "attrs_ok fmt a \<Longrightarrow> a \<noteq> [] \<Longrightarrow>
   opt_block b (CHR ''['' # write_attr_list fmt a @ CHR '']'' # r) = Inr (sorted_entries a, r)"
  by (simp add: opt_block_def pmap_def pthen_def popt_def attr_block_print preturn_def)

text \<open>A bare attribute declaration.\<close>

lemma bare_attr_prints:
  assumes "is_ident k" "value_ok fmt v"
  shows "prints b (push_indent d @ write_attr fmt (k, v) @ newline) (GraphAttrDecl k v)"
proof -
  let ?t = "CHR ''='' # format_value fmt v @ newline"
  have parse: "\<exists>r'. node_or_edge_stmt b (k @ ?t @ r) = Inr (GraphAttrDecl k v, r') \<and>
      dropWhile space_char r' = dropWhile space_char r" if r: "follows r" for r
  proof -
    have "node_or_edge_stmt b (k @ ?t @ r) = node_stmt b k (?t @ r)"
      using assms(1) by (subst node_or_edge_word) simp_all
    moreover have "dropWhile space_char (format_value fmt v @ newline @ r) = format_value fmt v @ newline @ r"
      using value_no_space [OF assms(2), of "newline @ r"] by (cases "format_value fmt v @ newline @ r") simp_all
    moreover have "attr_value b (format_value fmt v @ newline @ r) = Inr (v, newline @ r)"
      by (rule value_print [OF assms(2)]) (simp add: value_end_def newline_def)
    ultimately show ?thesis
      using follows_semicolon [OF r]
      by (simp add: node_stmt_def no_block pthen_def popt_def preturn_def newline_def)
  qed
  have "prints b (push_indent d @ k @ ?t) (GraphAttrDecl k v)"
    by (rule prints_word [OF assms(1)]) (use parse in \<open>auto simp: after_word_def\<close>)
  then show ?thesis by (simp add: write_attr_def)
qed

text \<open>A node, with and without attributes of its own.\<close>

lemma plain_node_prints:
  assumes "is_ident i"
  shows "prints b (push_indent d @ i @ '';'' @ newline) (NodeStmt i [])"
proof (rule prints_word [OF assms])
  fix r
  have "node_or_edge_stmt b (i @ CHR '';'' # newline @ r) = Inr (NodeStmt i [], newline @ r)"
    using assms
    by (subst node_or_edge_word) (simp_all add: node_stmt_def no_block pthen_def popt_def semicolon_def preturn_def)
  then show "\<exists>r'. node_or_edge_stmt b (i @ ('';'' @ newline) @ r) = Inr (NodeStmt i [], r') \<and>
      dropWhile space_char r' = dropWhile space_char r"
    by (simp add: newline_def)
qed (simp_all add: after_word_def)

lemma block_node_prints:
  assumes "is_ident i" "i \<notin> {''graph'', ''node'', ''edge''}" "attrs_ok fmt a" "a \<noteq> []"
  shows "prints b (push_indent d @ i @ '' ['' @ write_attr_list fmt a @ '']'' @ newline)
    (NodeStmt i (sorted_entries a))"
proof (rule prints_word [OF assms(1)])
  fix r
  assume r: "follows r"
  let ?s = "CHR ''['' # write_attr_list fmt a @ CHR '']'' # newline @ r"
  have "node_or_edge_stmt b (i @ '' '' @ ?s) = node_stmt b i ?s"
    using assms(1) by (subst node_or_edge_word) simp_all
  moreover have "node_stmt b i ?s = Inr (NodeStmt i (sorted_entries a), dropWhile space_char r)"
    using assms opt_block_print [OF assms(3,4)] follows_semicolon [OF r]
    by (simp add: node_stmt_def pthen_def newline_def preturn_def)
  ultimately show "\<exists>r'. node_or_edge_stmt b (i @ ('' ['' @ write_attr_list fmt a @ '']'' @ newline) @ r)
      = Inr (NodeStmt i (sorted_entries a), r') \<and> dropWhile space_char r' = dropWhile space_char r"
    by simp
qed (use assms in \<open>simp_all add: after_word_def\<close>)

text \<open>A defaults block.\<close>

lemma defaults_print:
  assumes "attrs_ok fmt a" "a \<noteq> []" "follows r"
  shows "defaults_stmt b kw f (kw @ '' ['' @ write_attr_list fmt a @ '']'' @ newline @ r)
    = Inr (f (sorted_entries a), dropWhile space_char r)"
  using attr_block_print [OF assms(1,2), of b "newline @ r"] follows_semicolon [OF assms(3)]
  by (simp add: defaults_stmt_def pthen_def printed newline_def preturn_def)

lemma defaults_prints:
  assumes "attrs_ok fmt a" "a \<noteq> []"
  shows "prints b (write_defaults_block fmt d ''node'' a) (NodeDefaults (sorted_entries a))"
    and "prints b (write_defaults_block fmt d ''edge'' a) (EdgeDefaults (sorted_entries a))"
proof -
  have n: "defaults_stmt b ''graph'' f (''node'' @ s) = Inl Backtrack"
    and e: "defaults_stmt b ''graph'' f (''edge'' @ s) = Inl Backtrack"
    and en: "defaults_stmt b ''node'' f (''edge'' @ s) = Inl Backtrack" for f s
    by (simp_all add: defaults_stmt_def pthen_def)
  have start: "id_start (CHR ''n'')" "id_start (CHR ''e'')" "\<not> space_char (CHR ''n'')" "\<not> space_char (CHR ''e'')"
    by (simp_all add: id_start_def is_alpha_def is_upper_def space_char_def)
  show "prints b (write_defaults_block fmt d ''node'' a) (NodeDefaults (sorted_entries a))"
    using assms start n defaults_print [OF assms, of _ b "''node''" NodeDefaults]
    by (simp add: prints_def write_defaults_block_def statement_of_def pthen_def alt2_def)
  show "prints b (write_defaults_block fmt d ''edge'' a) (EdgeDefaults (sorted_entries a))"
    using assms start e en defaults_print [OF assms, of _ b "''edge''" EdgeDefaults]
    by (simp add: prints_def write_defaults_block_def statement_of_def pthen_def alt2_def)
qed

text \<open>An edge.\<close>

lemma chain_end:
  assumes "literal ''->'' (dropWhile space_char s) = Inl Backtrack"
  shows "chain_rest s = Inr ([], dropWhile space_char s)"
  using assms by (subst chain_rest.simps) (simp add: chain_step_def pthen_def popt_def preturn_def)

lemma edge_prints:
  assumes e: "is_ident (ed_from e)" "is_ident (ed_to e)" "attrs_ok fmt (ed_attrs e)"
  shows "prints b (write_edge fmt d e) (EdgeStmt [ed_from e, ed_to e] (sorted_entries (ed_attrs e)))"
proof -
  let ?a = "ed_attrs e"
  let ?block = "if ?a = [] then [] else '' ['' @ write_attr_list fmt ?a @ '']''"
  let ?t = "'' -> '' @ ed_to e @ ?block @ newline"
  have parse: "\<exists>r'. node_or_edge_stmt b (ed_from e @ ?t @ r) = Inr (EdgeStmt [ed_from e, ed_to e] (sorted_entries ?a), r')
      \<and> dropWhile space_char r' = dropWhile space_char r" if r: "follows r" for r
  proof -
    let ?s = "?block @ newline @ r"
    obtain c u where c: "dropWhile space_char r = c # u" "id_start c \<or> c = CHR ''}''" "\<not> space_char c"
      using r by (rule followsE)
    then have c': "c \<noteq> CHR ''-''" "c \<noteq> CHR ''[''" by auto
    have "stops id_char ?s" by (simp add: newline_def)
    then have second: "ident (ed_to e @ ?s) = Inr (ed_to e, ?s)" by (rule ident_print [OF e(2)])
    have chain: "chain_rest ?s = Inr ([], dropWhile space_char ?s)"
      by (rule chain_end) (use c c' in \<open>auto simp: newline_def\<close>)
    have "edge_stmt b (ed_from e) (ed_to e @ ?s)
        = Inr (EdgeStmt [ed_from e, ed_to e] (sorted_entries ?a), dropWhile space_char r)"
    proof (cases "?a = []")
      case True
      then show ?thesis
        using second chain c c' follows_semicolon [OF r] ident_no_space [OF e(2)]
        by (simp add: edge_stmt_def pthen_def newline_def no_block preturn_def)
    next
      case False
      then show ?thesis
        using second chain follows_semicolon [OF r] ident_no_space [OF e(2)] opt_block_print [OF e(3)]
        by (simp add: edge_stmt_def pthen_def newline_def preturn_def)
    qed
    then have "node_or_edge_stmt b (ed_from e @ ?t @ r)
        = Inr (EdgeStmt [ed_from e, ed_to e] (sorted_entries ?a), dropWhile space_char r)"
      using e(1) ident_no_space [OF e(2)]
      by (simp add: node_or_edge_stmt_def pthen_def printed popt_def edge_stmt_def)
    then show ?thesis by simp
  qed
  have "prints b (push_indent d @ ed_from e @ ?t) (EdgeStmt [ed_from e, ed_to e] (sorted_entries ?a))"
    by (rule prints_word [OF e(1) _ _ parse]) (simp_all add: after_word_def)
  then show ?thesis by (simp add: write_edge_def)
qed

section \<open>Lists of statements\<close>

lemma statements_space: "dropWhile space_char r = dropWhile space_char s \<Longrightarrow> statements b n r = statements b n s"
  by (cases n) (simp_all add: Let_def del: dropWhile_eq_Nil_conv)

lemma prints_nonempty: "prints b t x \<Longrightarrow> t \<noteq> []"
  by (auto simp: prints_def)

lemma dropWhile_prefix: "dropWhile p t = c # u \<Longrightarrow> dropWhile p (t @ r) = c # u @ r"
  by (induction t) (auto split: if_splits)

lemma prints_follows: "prints b t x \<Longrightarrow> follows (t @ r)"
  by (auto simp: prints_def follows_def dropWhile_prefix)

lemma prints_step:
  assumes "prints b t x" "follows r" "length (t @ r) \<le> n"
  shows "statements b (Suc n) (t @ r) = (case statements b n r of Inl e \<Rightarrow> Inl e | Inr (xs, u) \<Rightarrow> Inr (x # xs, u))"
proof -
  obtain c u where c: "dropWhile space_char (t @ r) = c # u" "id_start c"
    using assms(1) dropWhile_prefix [of space_char t _ _ r] by (auto simp: prints_def)
  then have not_end: "c \<noteq> CHR ''}''" by auto
  obtain r' where r': "statement_of b (statements b n) (dropWhile space_char (t @ r)) = Inr (x, r')"
    "dropWhile space_char r' = dropWhile space_char r"
    using assms by (auto simp: prints_def)
  then show ?thesis
    using c not_end statements_space [OF r'(2), of b n] by (simp add: Let_def)
qed

lemma statements_print:
  assumes "list_all2 (prints b) ts xs" "dropWhile space_char tail = CHR ''}'' # z"
    "length (concat ts @ tail) < n"
  shows "statements b n (concat ts @ tail) = Inr (xs, CHR ''}'' # z)"
  using assms
proof (induction ts xs arbitrary: n rule: list_all2_induct)
  case Nil
  then obtain m where "n = Suc m" by (cases n) auto
  with Nil show ?case by (simp add: Let_def)
next
  case (Cons t ts x xs)
  then obtain m where n: "n = Suc m" by (cases n) auto
  have "follows (concat ts @ tail)"
  proof (cases ts)
    case Nil
    with Cons show ?thesis by (simp add: follows_def)
  next
    case (Cons t' ts')
    with \<open>list_all2 (prints b) ts xs\<close> show ?thesis
      by (auto simp: list_all2_Cons1 prints_follows)
  qed
  moreover have "length (concat ts @ tail) < m"
    using Cons.prems n prints_nonempty [OF \<open>prints b t x\<close>] by (cases t) auto
  ultimately show ?case
    using Cons.IH [of m] Cons.prems prints_step [OF \<open>prints b t x\<close>, of "concat ts @ tail" m] n
    by (simp del: statements.simps)
qed

definition prints_all :: "build_profile \<Rightarrow> str \<Rightarrow> statement list \<Rightarrow> bool" where
  "prints_all b t xs \<longleftrightarrow> (\<exists>ts. t = concat ts \<and> list_all2 (prints b) ts xs)"

lemma prints_all_Nil: "prints_all b [] []"
  by (auto simp: prints_all_def intro: exI [of _ "[]"])

lemma prints_all_one: "prints b t x \<Longrightarrow> prints_all b t [x]"
  by (auto simp: prints_all_def intro: exI [of _ "[t]"])

lemma prints_all_append: "prints_all b t xs \<Longrightarrow> prints_all b u ys \<Longrightarrow> prints_all b (t @ u) (xs @ ys)"
  unfolding prints_all_def by (metis concat_append list_all2_appendI)

lemma prints_all_map: "(\<And>e. e \<in> set es \<Longrightarrow> prints b (f e) (g e)) \<Longrightarrow> prints_all b (concat (map f es)) (map g es)"
  unfolding prints_all_def by (intro exI [of _ "map f es"]) (auto simp: list_all2_conv_all_nth)

lemma prints_all_concat:
  "(\<And>e. e \<in> set es \<Longrightarrow> prints_all b (f e) (g e)) \<Longrightarrow> prints_all b (concat (map f es)) (concat (map g es))"
  by (induction es) (auto intro: prints_all_Nil prints_all_append)

section \<open>Scopes and graphs\<close>

text \<open>The statements the serializer writes for a scope.\<close>

definition attr_stmts :: "attrs \<Rightarrow> statement list" where
  "attr_stmts a = map (\<lambda>(k, v). GraphAttrDecl k v) (sorted_entries a)"

definition scheduled_stmts :: "attrs \<times> str \<times> node_def \<Rightarrow> statement list" where
  "scheduled_stmts = (\<lambda>(delta, i, d).
     (if delta = [] then [] else [NodeDefaults (sorted_entries delta)]) @
     [NodeStmt i (sorted_entries (nd_authored d))])"

definition edge_stmts :: "edge_def list \<Rightarrow> statement list" where
  "edge_stmts es = map (\<lambda>e. EdgeStmt [ed_from e, ed_to e] (sorted_entries (ed_attrs e))) es"

definition default_stmts :: "attrs \<Rightarrow> attrs \<Rightarrow> statement list" where
  "default_stmts nd ed =
     (if nd = [] then [] else [NodeDefaults (sorted_entries nd)]) @
     (if ed = [] then [] else [EdgeDefaults (sorted_entries ed)])"

definition scope_stmts :: "attrs \<Rightarrow> attrs \<Rightarrow> attrs \<Rightarrow> node_def hmap \<Rightarrow> edge_def list \<Rightarrow> statement list
    \<Rightarrow> statement list" where
  "scope_stmts a nd ed nodes es inner =
     attr_stmts a @ inner @ concat (map scheduled_stmts (node_schedule (sorted_entries nodes) [])) @
     edge_stmts es @ default_stmts nd ed"

definition subgraph_stmts :: "subgraph_def \<Rightarrow> statement" where
  "subgraph_stmts sg = SubgraphStmt (sg_name sg)
     (scope_stmts (sg_attrs sg) (sg_node_defaults sg) (sg_edge_defaults sg) (sg_nodes sg) (sg_edges sg) [])"

definition graph_stmts :: "dot_graph \<Rightarrow> statement list" where
  "graph_stmts g =
     scope_stmts (dg_attrs g) (dg_node_defaults g) (dg_edge_defaults g) (dg_nodes g) (dg_edges g)
       (map subgraph_stmts (dg_subgraphs g))"

text \<open>What can be written and read back.\<close>

definition bare_ok :: "(f64 \<Rightarrow> str) \<Rightarrow> attrs \<Rightarrow> bool" where
  "bare_ok fmt a \<longleftrightarrow> hm_wf a \<and> list_all (\<lambda>(k, v). is_ident k \<and> value_ok fmt v) a"

definition node_writable :: "(f64 \<Rightarrow> str) \<Rightarrow> str \<times> node_def \<Rightarrow> bool" where
  "node_writable fmt = (\<lambda>(i, d).
     is_ident i \<and> attrs_ok fmt (nd_attrs d) \<and> attrs_ok fmt (nd_authored d) \<and>
     (nd_authored d = [] \<or> i \<noteq> ''graph'' \<and> i \<noteq> ''node'' \<and> i \<noteq> ''edge''))"

definition edge_writable :: "(f64 \<Rightarrow> str) \<Rightarrow> edge_def \<Rightarrow> bool" where
  "edge_writable fmt e \<longleftrightarrow> is_ident (ed_from e) \<and> is_ident (ed_to e) \<and> attrs_ok fmt (ed_attrs e)"

definition scope_writable :: "(f64 \<Rightarrow> str) \<Rightarrow> attrs \<Rightarrow> attrs \<Rightarrow> attrs \<Rightarrow> node_def hmap \<Rightarrow> edge_def list
    \<Rightarrow> bool" where
  "scope_writable fmt a nd ed nodes es \<longleftrightarrow>
     bare_ok fmt a \<and> attrs_ok fmt nd \<and> attrs_ok fmt ed \<and> hm_wf nodes \<and>
     list_all (node_writable fmt) nodes \<and> list_all (edge_writable fmt) es"

definition subgraph_writable :: "(f64 \<Rightarrow> str) \<Rightarrow> subgraph_def \<Rightarrow> bool" where
  "subgraph_writable fmt sg \<longleftrightarrow>
     (case sg_name sg of None \<Rightarrow> True | Some n \<Rightarrow> is_ident n) \<and>
     scope_writable fmt (sg_attrs sg) (sg_node_defaults sg) (sg_edge_defaults sg) (sg_nodes sg) (sg_edges sg)"

definition writable :: "(f64 \<Rightarrow> str) \<Rightarrow> dot_graph \<Rightarrow> bool" where
  "writable fmt g \<longleftrightarrow>
     is_ident (dg_name g) \<and>
     scope_writable fmt (dg_attrs g) (dg_node_defaults g) (dg_edge_defaults g) (dg_nodes g) (dg_edges g) \<and>
     list_all (subgraph_writable fmt) (dg_subgraphs g)"

lemma hm_wf_filter: "hm_wf m \<Longrightarrow> hm_wf (filter p m)"
  by (induction m) (auto simp: hm_wf_def)

lemma attrs_ok_delta: "attrs_ok fmt (nd_attrs d) \<Longrightarrow> attrs_ok fmt (defaults_delta c d)"
  by (auto simp: attrs_ok_def defaults_delta_def inherited_attrs_def hm_wf_filter list_all_iff)

lemma schedule_sound:
  "(delta, i, d) \<in> set (node_schedule rem cur) \<Longrightarrow> (i, d) \<in> set rem \<and> (\<exists>c. delta = defaults_delta c d)"
proof (induction rem cur rule: node_schedule.induct)
  case (1 rem cur)
  show ?case
  proof (cases "rem = [] \<or> hm_get rem (next_node rem) = None")
    case True
    with "1.prems" show ?thesis by (simp add: node_schedule_end)
  next
    case False
    then obtain e where e: "rem \<noteq> []" "hm_get rem (next_node rem) = Some e" by auto
    let ?rest = "node_schedule (hm_remove (next_node rem) rem)
        (if defaults_delta cur e = [] then cur else hm_extend cur (defaults_delta cur e))"
    have "(delta, i, d) = (defaults_delta cur e, next_node rem, e) \<or> (delta, i, d) \<in> set ?rest"
      using "1.prems" by (simp add: node_schedule_step [OF e])
    then show ?thesis
    proof
      assume "(delta, i, d) \<in> set ?rest"
      then have "(i, d) \<in> set (hm_remove (next_node rem) rem) \<and> (\<exists>c. delta = defaults_delta c d)"
        using "1.IH" [OF e(1) refl e(2) refl] by blast
      then show ?thesis by (auto simp: hm_remove_def AList.delete_eq)
    qed (use e hm_get_in_set in auto)
  qed
qed

lemma scheduled_prints:
  assumes "node_writable fmt (i, d)" "attrs_ok fmt delta"
  shows "prints_all b (write_node fmt dp (delta, i, d)) (scheduled_stmts (delta, i, d))"
proof -
  have "prints_all b (push_indent dp @ i @ (if nd_authored d = [] then '';'' @ newline
      else '' ['' @ write_attr_list fmt (nd_authored d) @ '']'' @ newline)) [NodeStmt i (sorted_entries (nd_authored d))]"
    using assms(1) plain_node_prints [of i b dp] block_node_prints [of i fmt "nd_authored d" b dp]
    by (auto simp: node_writable_def intro!: prints_all_one)
  moreover have "prints_all b (write_defaults_block fmt dp ''node'' delta)
      (if delta = [] then [] else [NodeDefaults (sorted_entries delta)])"
    using defaults_prints(1) [OF assms(2)]
    by (auto simp: prints_all_Nil prints_all_one write_defaults_block_def)
  ultimately show ?thesis
    using prints_all_append by (fastforce simp: write_node_def scheduled_stmts_def)
qed

lemma scope_prints:
  assumes ok: "scope_writable fmt a nd ed nodes es" and inner: "prints_all b t xs"
  shows "prints_all b (write_scope fmt dp a nd ed nodes es t) (scope_stmts a nd ed nodes es xs)"
proof -
  have attrs: "prints_all b (write_bare_attrs fmt dp a) (attr_stmts a)"
    unfolding write_bare_attrs_def attr_stmts_def
  proof (rule prints_all_map)
    fix e assume "e \<in> set (sorted_entries a)"
    with ok show "prints b (push_indent dp @ write_attr fmt e @ newline) (case e of (k, v) \<Rightarrow> GraphAttrDecl k v)"
      by (cases e) (auto simp: scope_writable_def bare_ok_def list_all_iff intro!: bare_attr_prints)
  qed
  have nodes: "prints_all b (write_nodes fmt dp nodes)
      (concat (map scheduled_stmts (node_schedule (sorted_entries nodes) [])))"
    unfolding write_nodes_def
  proof (rule prints_all_concat)
    fix e assume e: "e \<in> set (node_schedule (sorted_entries nodes) [])"
    obtain delta i d where eq: "e = (delta, i, d)" by (cases e)
    with e schedule_sound obtain c where "(i, d) \<in> set nodes" "delta = defaults_delta c d" by fastforce
    with ok eq show "prints_all b (write_node fmt dp e) (scheduled_stmts e)"
      by (auto simp: scope_writable_def list_all_iff node_writable_def
          intro!: scheduled_prints attrs_ok_delta)
  qed
  have edges: "prints_all b (write_edges fmt dp es) (edge_stmts es)"
    unfolding write_edges_def edge_stmts_def
    using ok by (intro prints_all_map edge_prints) (auto simp: scope_writable_def edge_writable_def list_all_iff)
  have nd: "prints_all b (write_defaults_block fmt dp ''node'' nd)
      (if nd = [] then [] else [NodeDefaults (sorted_entries nd)])"
    and ed: "prints_all b (write_defaults_block fmt dp ''edge'' ed)
      (if ed = [] then [] else [EdgeDefaults (sorted_entries ed)])"
    using ok defaults_prints
    by (auto simp: prints_all_Nil prints_all_one write_defaults_block_def scope_writable_def)
  from attrs inner nodes edges nd ed show ?thesis
    unfolding write_scope_def scope_stmts_def default_stmts_def by (intro prints_all_append)
qed

lemma subgraph_prints:
  assumes "subgraph_writable fmt sg"
  shows "prints b (write_subgraph fmt dp sg) (subgraph_stmts sg)"
proof -
  let ?body = "write_scope fmt (Suc dp) (sg_attrs sg) (sg_node_defaults sg) (sg_edge_defaults sg)
       (sg_nodes sg) (sg_edges sg) []"
  let ?stmts = "scope_stmts (sg_attrs sg) (sg_node_defaults sg) (sg_edge_defaults sg) (sg_nodes sg) (sg_edges sg) []"
  let ?name = "case sg_name sg of Some n \<Rightarrow> '' '' @ n | None \<Rightarrow> []"
  obtain ts where ts: "?body = concat ts" "list_all2 (prints b) ts ?stmts"
    using scope_prints [OF _ prints_all_Nil, of fmt "sg_attrs sg" "sg_node_defaults sg" "sg_edge_defaults sg"
        "sg_nodes sg" "sg_edges sg" b "Suc dp"] assms
    by (auto simp: subgraph_writable_def prints_all_def)
  have start: "id_start (CHR ''s'')" "\<not> space_char (CHR ''s'')"
    by (simp_all add: id_start_def is_alpha_def is_upper_def space_char_def)
  have stmt: "subgraph_stmt (statements b n) (''subgraph'' @ ?name @ '' {'' @ newline @ ?body @ push_indent dp @ ''}'' @ newline @ r)
      = Inr (subgraph_stmts sg, dropWhile space_char r)"
    if r: "follows r" and n: "length (write_subgraph fmt dp sg @ r) \<le> n" for n r
  proof -
    let ?tail = "push_indent dp @ ''}'' @ newline @ r"
    have "statements b n (concat ts @ ?tail) = Inr (?stmts, CHR ''}'' # newline @ r)"
      by (rule statements_print [OF ts(2)])
         (use n in \<open>simp_all add: write_subgraph_def ts(1) newline_def\<close>)
    then have body: "statements b n (dropWhile space_char (?body @ ?tail)) = Inr (?stmts, CHR ''}'' # newline @ r)"
      using statements_space [of "dropWhile space_char (?body @ ?tail)" "?body @ ?tail"] by (simp add: ts(1))
    have name: "popt ident (dropWhile space_char (?name @ '' {'' @ s)) = Inr (sg_name sg,
        if sg_name sg = None then CHR ''{'' # s else '' {'' @ s)" for s
      using assms by (auto simp: subgraph_writable_def popt_def ident_print ident_no_space split: option.splits)
    show ?thesis
      using body name follows_semicolon [OF r]
      by (simp add: subgraph_stmt_def pthen_def printed preturn_def subgraph_stmts_def newline_def)
  qed
  have others: "defaults_stmt b ''graph'' f (''subgraph'' @ s) = Inl Backtrack"
    "defaults_stmt b ''node'' f (''subgraph'' @ s) = Inl Backtrack"
    "defaults_stmt b ''edge'' f (''subgraph'' @ s) = Inl Backtrack" for f s
    by (simp_all add: defaults_stmt_def pthen_def)
  show ?thesis
    using stmt start others
    by (simp add: prints_def statement_of_def pthen_def alt2_def write_subgraph_def)
qed

section \<open>Comment stripping leaves printed text alone\<close>

definition clean :: "str \<Rightarrow> bool" where
  "clean t \<longleftrightarrow> (\<forall>r. strip_comments (t @ r) = t @ strip_comments r)"

lemma clean_Nil [simp]: "clean []"
  by (simp add: clean_def)

lemma clean_append [intro]: "clean t \<Longrightarrow> clean u \<Longrightarrow> clean (t @ u)"
  by (simp add: clean_def)

lemma clean_concat: "list_all clean ts \<Longrightarrow> clean (concat ts)"
  by (induction ts) auto

lemma strip_Nil [simp]: "strip_comments [] = []"
  by (simp add: strip_comments.simps)

lemma clean_strip: "clean t \<Longrightarrow> strip_comments t = t"
  unfolding clean_def by (metis append_Nil2 strip_Nil)

definition plain_char :: "char \<Rightarrow> bool" where
  "plain_char c \<longleftrightarrow> byte c < 0x80 \<and> c \<noteq> CHR ''/'' \<and> c \<noteq> CHR 0x22"

lemma clean_char: "plain_char c \<Longrightarrow> strip_comments (c # r) = c # strip_comments r"
proof (cases r)
  case (Cons d t)
  assume "plain_char c"
  with Cons show ?thesis
    by (subst strip_comments.simps) (simp add: plain_char_def push_byte_as_char_def)
next
  case Nil
  assume "plain_char c"
  with Nil show ?thesis
    by (subst strip_comments.simps) (simp add: plain_char_def push_byte_as_char_def)
qed

lemma clean_plain: "list_all plain_char t \<Longrightarrow> clean t"
proof -
  assume "list_all plain_char t"
  then have "strip_comments (t @ r) = t @ strip_comments r" for r
    by (induction t) (simp_all add: clean_char)
  then show ?thesis by (simp add: clean_def)
qed

lemma copy_escaped:
  "ascii_text s \<Longrightarrow> copy_string (escape_string s @ CHR 0x22 # r) = (escape_string s @ [CHR 0x22], r)"
proof (induction s)
  case Nil
  then show ?case by (cases r) (simp_all add: escape_string_def)
next
  case (Cons c s)
  obtain d t where tail: "escape_string s @ CHR 0x22 # r = d # t"
    by (cases "escape_string s") auto
  then show ?case
    using Cons
    by (auto simp: escape_string_def escape_char_def ascii_text_def push_byte_as_char_def split: prod.splits)
qed

lemma clean_string: "ascii_text s \<Longrightarrow> clean (dq (escape_string s))"
proof -
  assume s: "ascii_text s"
  have "strip_comments (dq (escape_string s) @ r) = dq (escape_string s) @ strip_comments r" for r
  proof -
    obtain d t where tail: "escape_string s @ CHR 0x22 # r = d # t"
      by (cases "escape_string s") auto
    have "strip_comments (CHR 0x22 # d # t) = CHR 0x22 # fst (copy_string (d # t)) @ strip_comments (snd (copy_string (d # t)))"
      by (subst strip_comments.simps) simp
    with copy_escaped [OF s, of r] show ?thesis by (simp add: dq_def tail)
  qed
  then show ?thesis by (simp add: clean_def)
qed

lemma plain_id_char: "id_char c \<Longrightarrow> plain_char c"
  by (auto simp: plain_char_def id_char_def is_alnum_def is_alpha_def is_upper_def is_digit_def)

lemma plain_digit: "is_digit c \<Longrightarrow> plain_char c"
  by (simp add: plain_id_char digit_id_char)

lemma plain_chars [simp]:
  "plain_char (CHR ''.'')" "plain_char (CHR ''-'')" "plain_char (CHR ''+'')" "plain_char (CHR ''='')"
  "plain_char (CHR '','')" "plain_char (CHR '' '')" "plain_char (CHR ''['')" "plain_char (CHR '']'')"
  "plain_char (CHR ''{'')" "plain_char (CHR ''}'')" "plain_char (CHR '';'')" "plain_char (CHR ''>'')"
  "plain_char (CHR 0x0A)"
  by (simp_all add: plain_char_def)

lemma plain_letter: "is_alpha c \<Longrightarrow> plain_char c"
  by (simp add: plain_id_char id_char_def is_alnum_def)

lemma plain_letters:
  "list_all plain_char ''graph''" "list_all plain_char ''digraph ''" "list_all plain_char ''node''"
  "list_all plain_char ''edge''" "list_all plain_char ''subgraph''" "list_all plain_char ''ms''"
  "list_all plain_char ''true''" "list_all plain_char ''false''"
  by (simp_all add: plain_char_def)

lemma plain_digits: "list_all is_digit ds \<Longrightarrow> list_all plain_char ds"
  by (auto simp: list_all_iff plain_digit)

lemma clean_ident: "is_ident w \<Longrightarrow> clean w"
  using is_ident_chars [of w] by (auto intro!: clean_plain simp: list_all_iff plain_id_char)

lemma clean_key: "is_key k \<Longrightarrow> clean k"
proof (rule clean_plain)
  assume "is_key k"
  then show "list_all plain_char k"
    using key_chars [of k] plain_id_char plain_chars(1) unfolding list_all_iff by metis
qed

lemma clean_indent: "clean (push_indent d)"
  by (rule clean_plain) (auto simp: push_indent_def list_all_iff)

lemma clean_newline: "clean newline"
  by (rule clean_plain) (simp add: newline_def)

lemma clean_value: "value_ok fmt v \<Longrightarrow> clean (format_value fmt v)"
proof (cases v)
  case (AInteger i)
  obtain sg ds where "show_int i = sg @ ds" "sg = [] \<or> sg = ''-''" "list_all is_digit ds"
    using show_int_parts [of i] by metis
  with AInteger show ?thesis by (auto intro!: clean_plain simp: plain_digits)
next
  case (AFloat f)
  assume "value_ok fmt v"
  with AFloat have "float_value (format_float fmt f) = Inr (f, [])" by (simp add: float_ok_def)
  then obtain sg ds fs where "format_float fmt f = sg @ ds @ CHR ''.'' # fs"
    "sg = [] \<or> sg = ''-'' \<or> sg = ''+''" "list_all is_digit ds" "list_all is_digit fs"
    by (rule float_parts)
  with AFloat show ?thesis by (auto intro!: clean_plain simp: plain_digits)
next
  case (ADuration ms)
  then show ?thesis
    using show_nat_digits [of ms] plain_letters(6) by (auto intro!: clean_plain simp: plain_digits)
next
  case (ABoolean t)
  then show ?thesis using plain_letters(7,8) by (auto intro!: clean_plain)
qed (simp add: clean_string)

lemma clean_attr: "is_key k \<Longrightarrow> value_ok fmt v \<Longrightarrow> clean (write_attr fmt (k, v))"
proof -
  assume "is_key k" "value_ok fmt v"
  then have "clean (k @ ''='' @ format_value fmt v)"
    by (intro clean_append clean_key clean_value clean_plain [of "''=''"]) simp_all
  then show ?thesis by (simp add: write_attr_def)
qed

lemma clean_attr_list:
  assumes "attrs_ok fmt a"
  shows "clean (write_attr_list fmt a)"
proof (cases "sorted_entries a")
  case Nil
  then show ?thesis by (simp add: write_attr_list_def)
next
  case (Cons e es)
  have "clean (write_attr fmt x)" if "x \<in> set (e # es)" for x
    using assms that set_sorted_entries [of a] clean_attr
    by (cases x) (auto simp: attrs_ok_def list_all_iff simp flip: Cons)
  then have "clean (write_attr fmt e)" "list_all clean (map (\<lambda>e. '', '' @ write_attr fmt e) es)"
    using clean_append [OF clean_plain [of "'', ''"]] by (simp_all add: list_all_iff)
  then show ?thesis
    by (simp add: write_attr_list_Cons [OF Cons] clean_append clean_concat)
qed

lemma clean_block: "attrs_ok fmt a \<Longrightarrow> clean ('' ['' @ write_attr_list fmt a @ '']'')"
  by (rule clean_append [OF clean_plain clean_append [OF clean_attr_list clean_plain]]) simp_all

lemma clean_defaults:
  "attrs_ok fmt a \<Longrightarrow> list_all plain_char kw \<Longrightarrow> clean (write_defaults_block fmt d kw a)"
  using clean_append [OF clean_append [OF clean_indent [of d] clean_plain [of kw]] clean_append [OF clean_block clean_newline]]
  by (simp add: write_defaults_block_def)

lemma clean_node:
  assumes "node_writable fmt (i, d)" "attrs_ok fmt delta"
  shows "clean (write_node fmt dp (delta, i, d))"
proof -
  have "clean ('';'' @ newline)" by (rule clean_append [OF clean_plain clean_newline]) simp
  moreover have "clean ('' ['' @ write_attr_list fmt (nd_authored d) @ '']'' @ newline)"
    using clean_append [OF clean_block clean_newline] assms by (simp add: node_writable_def)
  moreover have "clean (write_defaults_block fmt dp ''node'' delta)"
    by (rule clean_defaults [OF assms(2) plain_letters(3)])
  moreover have "clean i" using assms clean_ident by (simp add: node_writable_def)
  ultimately show ?thesis
    by (simp add: write_node_def clean_append clean_indent)
qed

lemma clean_edge: "edge_writable fmt e \<Longrightarrow> clean (write_edge fmt d e)"
proof -
  assume e: "edge_writable fmt e"
  have "clean (if ed_attrs e = [] then [] else '' ['' @ write_attr_list fmt (ed_attrs e) @ '']'')"
    using e clean_block by (simp add: edge_writable_def)
  moreover have "clean '' -> ''" by (rule clean_plain) simp
  ultimately show ?thesis
    unfolding write_edge_def using e clean_ident
    by (intro clean_append clean_indent clean_newline) (auto simp: edge_writable_def)
qed

lemma clean_scope:
  assumes ok: "scope_writable fmt a nd ed nodes es" and inner: "clean t"
  shows "clean (write_scope fmt dp a nd ed nodes es t)"
proof -
  have ident_key: "is_key k" if "is_ident k" for k
  proof -
    have "\<not> contains_str ''.'' k"
    proof -
      have "\<not> contains_str ''.'' w" if "list_all id_char w" for w
        using that by (induction w) (auto simp: starts_with_def)
      then show ?thesis using is_ident_chars [OF that] by blast
    qed
    then have "split_on ''.'' k = [k]" by (simp add: split_on_def split_go_absent)
    with that show ?thesis by (simp add: is_key_def)
  qed
  have "clean (write_bare_attrs fmt dp a)"
  proof -
    have "is_key k \<and> value_ok fmt v" if "(k, v) \<in> set a" for k v
      using ok that ident_key by (force simp: scope_writable_def bare_ok_def list_all_iff)
    then show ?thesis
      by (auto simp: write_bare_attrs_def list_all_iff
          intro!: clean_concat clean_append clean_indent clean_newline clean_attr)
  qed
  moreover have "clean (write_nodes fmt dp nodes)"
    unfolding write_nodes_def
  proof (rule clean_concat, unfold list_all_iff, safe)
    fix x assume "x \<in> set (map (write_node fmt dp) (node_schedule (sorted_entries nodes) []))"
    then obtain delta i d where "x = write_node fmt dp (delta, i, d)"
      "(delta, i, d) \<in> set (node_schedule (sorted_entries nodes) [])" by auto
    note x = this
    obtain c where "(i, d) \<in> set nodes" "delta = defaults_delta c d"
      using schedule_sound [OF x(2)] by auto
    with ok x(1) show "clean x"
      by (auto simp: scope_writable_def list_all_iff node_writable_def intro!: clean_node attrs_ok_delta)
  qed
  moreover have "clean (write_edges fmt dp es)"
    unfolding write_edges_def using ok
    by (auto simp: scope_writable_def list_all_iff intro!: clean_concat clean_edge)
  ultimately show ?thesis
    using ok inner plain_letters(3,4)
    by (auto simp: write_scope_def scope_writable_def intro!: clean_append clean_defaults)
qed

lemma clean_subgraph:
  assumes "subgraph_writable fmt sg"
  shows "clean (write_subgraph fmt d sg)"
proof -
  have "clean (case sg_name sg of Some n \<Rightarrow> '' '' @ n | None \<Rightarrow> [])"
    using assms clean_append [OF clean_plain [of "'' ''"] clean_ident]
    by (auto simp: subgraph_writable_def split: option.splits)
  moreover have "clean '' {''" "clean ''}''" by (rule clean_plain, simp)+
  moreover have "clean ''subgraph''" by (rule clean_plain [OF plain_letters(5)])
  ultimately show ?thesis
    unfolding write_subgraph_def using assms
    by (intro clean_append clean_indent clean_newline clean_scope clean_Nil)
       (auto simp: subgraph_writable_def)
qed

section \<open>The whole graph\<close>

lemma graph_text_clean:
  assumes "writable fmt g"
  shows "clean (to_dot_string fmt g)"
proof -
  have "clean (write_subgraphs fmt 1 (dg_subgraphs g))"
    unfolding write_subgraphs_def using assms
    by (auto simp: writable_def list_all_iff intro!: clean_concat clean_subgraph)
  moreover have "clean '' {''" "clean ''}''" by (rule clean_plain, simp)+
  moreover have "clean ''digraph ''" by (rule clean_plain [OF plain_letters(2)])
  ultimately show ?thesis
    unfolding to_dot_string_def write_body_def using assms clean_ident
    by (intro clean_append clean_newline clean_scope)
       (auto simp: writable_def)
qed

lemma parse_digraph_print:
  assumes "statements b n (dropWhile space_char r) = Inr (xs, CHR ''}'' # newline)" "is_ident i"
  shows "parse_digraph b n (''digraph '' @ i @ '' {'' @ newline @ r) = Inr (digraph_of i xs, [])"
proof -
  have "reject_other_graphs (''digraph'' @ t) = Inr ((), ''digraph'' @ t)" for t
    by (simp add: reject_other_graphs_def starts_with_def)
  moreover have "\<not> space_char (CHR ''d'')" by (simp add: space_char_def)
  ultimately show ?thesis
    using assms ident_no_space [OF assms(2)]
    by (simp add: parse_digraph_def pthen_def printed preturn_def newline_def del: statements.simps)
qed

lemma parse_printed:
  assumes g: "writable fmt g"
  shows "parse b (to_dot_string fmt g) = Inr (digraph_of (dg_name g) (graph_stmts g))"
proof -
  let ?body = "write_body fmt 1 (dg_attrs g) (dg_node_defaults g) (dg_edge_defaults g) (dg_nodes g)
       (dg_edges g) (dg_subgraphs g)"
  let ?s = "to_dot_string fmt g"
  let ?tail = "''}'' @ newline"
  have subs: "prints_all b (write_subgraphs fmt 1 (dg_subgraphs g)) (map subgraph_stmts (dg_subgraphs g))"
    unfolding write_subgraphs_def using g
    by (intro prints_all_map subgraph_prints) (auto simp: writable_def list_all_iff)
  obtain ts where ts: "?body = concat ts" "list_all2 (prints b) ts (graph_stmts g)"
    using scope_prints [OF _ subs, of fmt "dg_attrs g" "dg_node_defaults g" "dg_edge_defaults g" "dg_nodes g" "dg_edges g" 1] g
    by (auto simp: writable_def prints_all_def write_body_def graph_stmts_def)
  have "statements b (Suc (length ?s)) (?body @ ?tail) = Inr (graph_stmts g, CHR ''}'' # newline)"
    unfolding ts(1)
    by (rule statements_print [OF ts(2)]) (simp_all add: to_dot_string_def flip: ts(1))
  moreover have "statements b (Suc (length ?s)) (dropWhile space_char (?body @ ?tail))
      = statements b (Suc (length ?s)) (?body @ ?tail)"
    by (rule statements_space) simp
  ultimately have stmts: "statements b (Suc (length ?s)) (dropWhile space_char (?body @ ?tail))
      = Inr (graph_stmts g, CHR ''}'' # newline)"
    by (simp only:)
  have name: "is_ident (dg_name g)" using g by (simp add: writable_def)
  have "parse_digraph b (Suc (length ?s)) (''digraph '' @ dg_name g @ '' {'' @ newline @ ?body @ ?tail)
      = Inr (digraph_of (dg_name g) (graph_stmts g), [])"
    by (rule parse_digraph_print [OF stmts name])
  then show ?thesis
    by (simp add: parse_def Let_def clean_strip graph_text_clean [OF g]) (simp add: to_dot_string_def)
qed

end
