(* ===== verification/Dot_Roundtrip.thy ===== *)
theory Dot_Roundtrip
  imports Dot_Print
begin

text \<open>
  Parsing, printing and parsing again gives the same graph: the order in which the serializer
  writes the nodes, and the defaults blocks it puts between them, reconstruct the effective and
  the authored attributes of every node.
\<close>

section \<open>Equality of graphs\<close>

text \<open>Maps are compared by their lookups: the iteration order is not part of the value.\<close>

definition hm_eq :: "'v hmap \<Rightarrow> 'v hmap \<Rightarrow> bool" where
  "hm_eq m n \<longleftrightarrow> (\<forall>k. hm_get m k = hm_get n k)"

definition node_eq :: "node_def \<Rightarrow> node_def \<Rightarrow> bool" where
  "node_eq d e \<longleftrightarrow> nd_id d = nd_id e \<and> hm_eq (nd_attrs d) (nd_attrs e) \<and> hm_eq (nd_authored d) (nd_authored e)"

definition nodes_eq :: "node_def hmap \<Rightarrow> node_def hmap \<Rightarrow> bool" where
  "nodes_eq m n \<longleftrightarrow> (\<forall>k. rel_option node_eq (hm_get m k) (hm_get n k))"

definition edge_eq :: "edge_def \<Rightarrow> edge_def \<Rightarrow> bool" where
  "edge_eq e f \<longleftrightarrow> ed_from e = ed_from f \<and> ed_to e = ed_to f \<and> hm_eq (ed_attrs e) (ed_attrs f)"

definition subgraph_eq :: "subgraph_def \<Rightarrow> subgraph_def \<Rightarrow> bool" where
  "subgraph_eq s t \<longleftrightarrow> sg_name s = sg_name t \<and> hm_eq (sg_attrs s) (sg_attrs t) \<and>
     nodes_eq (sg_nodes s) (sg_nodes t) \<and> list_all2 edge_eq (sg_edges s) (sg_edges t) \<and>
     hm_eq (sg_node_defaults s) (sg_node_defaults t) \<and> hm_eq (sg_edge_defaults s) (sg_edge_defaults t)"

definition graph_eq :: "dot_graph \<Rightarrow> dot_graph \<Rightarrow> bool" where
  "graph_eq g h \<longleftrightarrow> dg_name g = dg_name h \<and> hm_eq (dg_attrs g) (dg_attrs h) \<and>
     nodes_eq (dg_nodes g) (dg_nodes h) \<and> list_all2 edge_eq (dg_edges g) (dg_edges h) \<and>
     list_all2 subgraph_eq (dg_subgraphs g) (dg_subgraphs h) \<and>
     hm_eq (dg_node_defaults g) (dg_node_defaults h) \<and> hm_eq (dg_edge_defaults g) (dg_edge_defaults h)"

section \<open>Default scopes\<close>

abbreviation keys_of :: "'v hmap \<Rightarrow> str set" where
  "keys_of m \<equiv> dom (hm_get m)"

text \<open>
  What the parser guarantees of a scope: each node was declared under some set \<open>D\<close> of default
  keys, these sets only grew while the scope was read, and the final defaults have them all.
\<close>

definition default_chain :: "node_def hmap \<Rightarrow> attrs \<Rightarrow> bool" where
  "default_chain nodes final \<longleftrightarrow>
     (\<exists>D. (\<forall>k d. hm_get nodes k = Some d \<longrightarrow>
             keys_of (nd_attrs d) - keys_of (nd_authored d) \<subseteq> D k \<and>
             D k \<subseteq> keys_of (nd_attrs d) \<and> D k \<subseteq> keys_of final) \<and>
          (\<forall>k l. D k \<subseteq> D l \<or> D l \<subseteq> D k))"

lemma keys_of_extend: "keys_of (hm_extend m n) = keys_of m \<union> keys_of n"
proof -
  have "map_of (rev n) k = None \<longleftrightarrow> hm_get n k = None" for k
    by (simp add: hm_get_def map_of_eq_None_iff)
  then show ?thesis
    by (auto simp: hm_extend_def hm.get_fold_ins dom_def split: option.splits)
qed

lemma keys_of_Nil [simp]: "keys_of [] = {}"
  by (simp add: dom_def)

lemma default_chain_mono:
  "default_chain nodes final \<Longrightarrow> keys_of final \<subseteq> keys_of final' \<Longrightarrow> default_chain nodes final'"
  unfolding default_chain_def by (meson subset_trans)

lemma default_chain_insert:
  assumes "default_chain nodes final"
    and "keys_of (nd_attrs d) - keys_of (nd_authored d) \<subseteq> keys_of final" "keys_of final \<subseteq> keys_of (nd_attrs d)"
  shows "default_chain (hm_insert k d nodes) final"
proof -
  obtain D where D: "\<And>k d. hm_get nodes k = Some d \<Longrightarrow>
      keys_of (nd_attrs d) - keys_of (nd_authored d) \<subseteq> D k \<and> D k \<subseteq> keys_of (nd_attrs d) \<and> D k \<subseteq> keys_of final"
    "\<And>k l. D k \<subseteq> D l \<or> D l \<subseteq> D k"
    using assms(1) by (auto simp: default_chain_def)
  let ?E = "\<lambda>l. if l = k then keys_of final else D l \<inter> keys_of final"
  have "?E l \<subseteq> ?E m \<or> ?E m \<subseteq> ?E l" for l m
    using D(2) [of l m] by auto
  moreover have "keys_of (nd_attrs e) - keys_of (nd_authored e) \<subseteq> ?E l \<and> ?E l \<subseteq> keys_of (nd_attrs e) \<and>
      ?E l \<subseteq> keys_of final" if "hm_get (hm_insert k d nodes) l = Some e" for l e
    using that assms(2,3) D(1) [of l e] by (auto split: if_splits)
  ultimately show ?thesis
    unfolding default_chain_def by (intro exI [of _ ?E] conjI allI impI) simp_all
qed

lemma keys_of_fill: "keys_of (fill_defaults dflt a) = keys_of a \<union> keys_of dflt"
  by (auto simp: dom_def fill_defaults_get split: option.splits)

lemma default_chain_ensure:
  "default_chain nodes final \<Longrightarrow> default_chain (ensure_nodes final ns nodes) final"
proof (induction ns arbitrary: nodes)
  case (Cons n ns)
  have "keys_of (hm_extend [] final) = keys_of final" by (simp add: keys_of_extend)
  then have "default_chain (hm_or_insert n (implicit_node final n) nodes) final"
    using Cons.prems by (simp add: hm_or_insert_def default_chain_insert implicit_node_def)
  then show ?case using Cons.IH by (simp add: ensure_nodes_def)
qed (simp add: ensure_nodes_def)

definition chain_inv :: "merge_result \<Rightarrow> bool" where
  "chain_inv st \<longleftrightarrow> default_chain (mr_nodes st) (mr_node_defaults st) \<and>
     (\<forall>sg \<in> set (mr_subgraphs st). default_chain (sg_nodes sg) (sg_node_defaults sg))"

lemma chain_init: "chain_inv (merge_init nd ed)"
  by (auto simp: chain_inv_def merge_init_def default_chain_def)

lemma chain_frame [simp]:
  "chain_inv (st\<lparr>mr_attrs := a\<rparr>) = chain_inv st"
  "chain_inv (st\<lparr>mr_edge_defaults := a\<rparr>) = chain_inv st"
  by (simp_all add: chain_inv_def)

lemma default_chain_extend: "default_chain nodes final \<Longrightarrow> default_chain nodes (hm_extend final a)"
  by (erule default_chain_mono) (simp add: keys_of_extend)

lemma default_chain_node:
  "default_chain nodes final \<Longrightarrow>
   default_chain (hm_insert n \<lparr>nd_id = n, nd_attrs = fill_defaults final a, nd_authored = a\<rparr> nodes) final"
  by (erule default_chain_insert; unfold node_def.select_convs keys_of_fill; blast)

lemma chain_defaults: "chain_inv st \<Longrightarrow> chain_inv (st\<lparr>mr_node_defaults := hm_extend (mr_node_defaults st) a\<rparr>)"
  by (simp add: chain_inv_def default_chain_extend)

lemma chain_node: "chain_inv st \<Longrightarrow> chain_inv (merge_node n a st)"
  by (simp add: chain_inv_def merge_node_def default_chain_node)

lemma chain_edge: "chain_inv st \<Longrightarrow> chain_inv (merge_edge chain a p st)"
  by (simp add: chain_inv_def merge_edge_def default_chain_ensure)

lemma chain_edges: "chain_inv st \<Longrightarrow> chain_inv (fold (merge_edge chain a) ps st)"
  by (induction ps arbitrary: st) (simp_all add: chain_edge)

lemma chain_subgraph:
  "chain_inv st \<Longrightarrow> chain_inv sub \<Longrightarrow>
   chain_inv (st\<lparr>mr_subgraphs := mr_subgraphs st @ [subgraph_of name sub] @ mr_subgraphs sub\<rparr>)"
  by (auto simp: chain_inv_def subgraph_of_def)

lemma merge_go_chain: "chain_inv st \<Longrightarrow> chain_inv (merge_go stmts st)"
proof (induction stmts st rule: merge_go.induct)
  case (7 name inner r st)
  then show ?case using chain_subgraph chain_init by (simp add: Let_def)
qed (simp_all add: chain_defaults chain_node chain_edges)

text \<open>What the serializer relies on in a scope.\<close>

definition scope_sound :: "node_def hmap \<Rightarrow> attrs \<Rightarrow> edge_def list \<Rightarrow> bool" where
  "scope_sound nodes final es \<longleftrightarrow>
     default_chain nodes final \<and> edges_closed nodes es \<and>
     (\<forall>k d. hm_get nodes k = Some d \<longrightarrow> node_ok k d)"

lemma digraph_scopes_sound:
  assumes "g = digraph_of name stmts"
  shows "scope_sound (dg_nodes g) (dg_node_defaults g) (dg_edges g)"
    and "sg \<in> set (dg_subgraphs g) \<Longrightarrow> scope_sound (sg_nodes sg) (sg_node_defaults sg) (sg_edges sg)"
  using assms merge_go_chain [OF chain_init, of stmts "[]" "[]"] merge_go_inv [OF merge_inv_init, of stmts "[]" "[]"]
  by (auto simp: scope_sound_def digraph_of_def merge_statements_def Let_def chain_inv_def merge_inv_def)

section \<open>The order of the nodes\<close>

text \<open>The keys a node inherited.\<close>

definition inherited_keys :: "node_def \<Rightarrow> str set" where
  "inherited_keys d = keys_of (nd_attrs d) - keys_of (nd_authored d)"

lemma hm_get_sorted: "hm_wf m \<Longrightarrow> hm_get (sorted_entries m) k = hm_get m k"
  using hm_get_wf [of m k] hm_get_wf [of "sorted_entries m" k]
  by (cases "hm_get m k"; cases "hm_get (sorted_entries m) k") auto

lemma hm_get_filter:
  "hm_wf m \<Longrightarrow> hm_get (filter (\<lambda>(k, v). p k v) m) k =
     (case hm_get m k of Some v \<Rightarrow> if p k v then Some v else None | None \<Rightarrow> None)"
proof (induction m)
  case (Cons e m)
  obtain x y where e: "e = (x, y)" by (cases e)
  with Cons.prems have "hm_wf m" "hm_get m x = None"
    by (auto simp: hm_wf_def hm_get_def map_of_eq_None_iff)
  with Cons e show ?case by (auto split: option.splits)
qed simp

lemma hm_get_inherited:
  "hm_wf (nd_attrs d) \<Longrightarrow> hm_get (inherited_attrs d) k =
     (if hm_get (nd_authored d) k = None then hm_get (nd_attrs d) k else None)"
  using hm_get_filter [of "nd_attrs d" "\<lambda>k v. \<not> hm_contains (nd_authored d) k" k]
  by (auto simp: inherited_attrs_def hm_get_sorted hm_wf_filter hm_contains_get case_prod_unfold split: option.splits)

lemma hm_keys_dom: "set (hm_keys m) = keys_of m"
proof -
  have "hm_get m = map_of m" by (rule ext) (simp add: hm_get_def)
  then show ?thesis by (simp add: hm_keys_def dom_map_of_conv_image_fst)
qed

lemma keys_of_inherited: "hm_wf (nd_attrs d) \<Longrightarrow> set (hm_keys (inherited_attrs d)) = inherited_keys d"
  by (auto simp: hm_keys_dom inherited_keys_def hm_get_inherited dom_def split: if_splits)

lemma hm_get_delta:
  assumes "hm_wf (nd_attrs d)"
  shows "hm_get (defaults_delta c d) k =
     (if k \<in> inherited_keys d \<and> hm_get c k \<noteq> hm_get (nd_attrs d) k then hm_get (nd_attrs d) k else None)"
proof -
  have "hm_wf (inherited_attrs d)" using assms by (simp add: inherited_attrs_def hm_wf_filter)
  then have "hm_get (defaults_delta c d) k = (case hm_get (inherited_attrs d) k of
      Some v \<Rightarrow> if hm_get c k \<noteq> Some v then Some v else None | None \<Rightarrow> None)"
    unfolding defaults_delta_def by (rule hm_get_filter)
  then show ?thesis
    using assms
    by (cases "hm_get (nd_attrs d) k"; cases "hm_get (nd_authored d) k")
       (simp_all add: hm_get_inherited inherited_keys_def domIff)
qed

definition rem_ok :: "node_def hmap \<Rightarrow> attrs \<Rightarrow> bool" where
  "rem_ok rem final \<longleftrightarrow> hm_wf rem \<and> default_chain rem final \<and>
     (\<forall>k d. hm_get rem k = Some d \<longrightarrow> node_ok k d \<and> hm_wf (nd_attrs d) \<and> hm_wf (nd_authored d))"

lemma rem_ok_remove: "rem_ok rem final \<Longrightarrow> rem_ok (hm_remove k rem) final"
proof -
  assume rem: "rem_ok rem final"
  then have get: "hm_get (hm_remove k rem) l = (if l = k then None else hm_get rem l)" for l
    by (simp add: rem_ok_def hm.get_rem)
  have "default_chain (hm_remove k rem) final"
    using rem unfolding rem_ok_def default_chain_def get by (metis option.distinct(1))
  with rem get show ?thesis by (auto simp: rem_ok_def split: if_splits)
qed

lemma not_blocked:
  assumes "rem_ok rem final" "hm_wf (nd_attrs d)"
  shows "\<not> has_unwritten_predecessor rem d \<longleftrightarrow>
     (\<forall>k c. hm_get rem k = Some c \<longrightarrow> nd_id c \<noteq> nd_id d \<longrightarrow> inherited_keys d \<subseteq> keys_of (nd_attrs c))"
proof -
  have mem: "c \<in> set (hm_values rem) \<longleftrightarrow> (\<exists>k. hm_get rem k = Some c)" for c
    using assms(1) hm_get_wf [of rem] by (force simp: rem_ok_def hm_values_def)
  have "list_ex (\<lambda>k. \<not> hm_contains (nd_attrs c) k) (hm_keys (inherited_attrs d)) \<longleftrightarrow>
      \<not> inherited_keys d \<subseteq> keys_of (nd_attrs c)" for c
    using keys_of_inherited [OF assms(2)] by (auto simp: list_ex_iff hm_contains_get subset_iff domIff)
  then show ?thesis
    unfolding has_unwritten_predecessor_def list_ex_iff using mem by blast
qed

lemma next_node_ok:
  assumes rem: "rem_ok rem final" "rem \<noteq> []"
  obtains d where "hm_get rem (next_node rem) = Some d" "\<not> has_unwritten_predecessor rem d"
proof -
  obtain D where D: "\<And>k d. hm_get rem k = Some d \<Longrightarrow> inherited_keys d \<subseteq> D k \<and> D k \<subseteq> keys_of (nd_attrs d)"
    "\<And>k l. D k \<subseteq> D l \<or> D l \<subseteq> D k"
  proof -
    from rem(1) have "default_chain rem final" by (simp add: rem_ok_def)
    then obtain D where D: "\<forall>k d. hm_get rem k = Some d \<longrightarrow>
        inherited_keys d \<subseteq> D k \<and> D k \<subseteq> keys_of (nd_attrs d) \<and> D k \<subseteq> keys_of final"
      "\<forall>k l. D k \<subseteq> D l \<or> D l \<subseteq> D k"
      unfolding default_chain_def inherited_keys_def by (elim exE conjE)
    show thesis by (rule that [of D]) (use D in simp_all)
  qed
  let ?A = "D ` set (map fst rem)"
  obtain m where "m \<in> ?A" "\<And>b. b \<in> ?A \<Longrightarrow> b \<subseteq> m \<Longrightarrow> m = b"
    using finite_has_minimal [of ?A] rem(2) by auto
  then obtain k0 where k0: "k0 \<in> set (map fst rem)" "\<And>k. k \<in> set (map fst rem) \<Longrightarrow> D k0 \<subseteq> D k"
    using D(2) by (metis (no_types, lifting) image_iff subset_refl)
  then obtain d0 where d0: "(k0, d0) \<in> set rem" by auto
  have get: "hm_get rem k = Some c \<longleftrightarrow> (k, c) \<in> set rem" for k c
    using rem(1) hm_get_wf [of rem k c] by (simp add: rem_ok_def)
  have free: "\<not> has_unwritten_predecessor rem d0"
  proof -
    have wf0: "hm_wf (nd_attrs d0)" using rem(1) get d0 by (auto simp: rem_ok_def)
    have "inherited_keys d0 \<subseteq> keys_of (nd_attrs c)" if "hm_get rem k = Some c" for k c
    proof -
      have "inherited_keys d0 \<subseteq> D k0" using D(1) [of k0 d0] get d0 by blast
      also have "D k0 \<subseteq> D k" using k0(2) [of k] that get by force
      also have "D k \<subseteq> keys_of (nd_attrs c)" using D(1) that by blast
      finally show ?thesis .
    qed
    then show ?thesis unfolding not_blocked [OF rem(1) wf0] by blast
  qed
  obtain e where e: "find (\<lambda>(_, d). \<not> has_unwritten_predecessor rem d) rem = Some e"
    using d0 free by (cases "find (\<lambda>(_, d). \<not> has_unwritten_predecessor rem d) rem")
      (auto simp: find_None_iff)
  obtain i d where id: "e = (i, d)" by (cases e)
  have "(i, d) \<in> set rem" "\<not> has_unwritten_predecessor rem d"
    using e id by (auto simp: find_Some_iff dest: nth_mem)
  moreover have "next_node rem = i" using e id by (simp add: next_node_def)
  ultimately show thesis using that get by metis
qed

section \<open>Merging what was written\<close>

lemma merge_go_append: "merge_go (xs @ ys) st = merge_go ys (merge_go xs st)"
  by (induction xs st rule: merge_go.induct) (simp_all add: Let_def)

definition with_delta :: "attrs \<Rightarrow> attrs \<Rightarrow> attrs" where
  "with_delta m delta = (if delta = [] then m else hm_extend m delta)"

lemma with_delta_get:
  assumes "hm_wf (nd_attrs d)" "hm_get m k = hm_get c k"
  shows "hm_get (with_delta m (sorted_entries (defaults_delta c d))) k =
     (if k \<in> inherited_keys d then hm_get (nd_attrs d) k else hm_get c k)"
    and "hm_get (with_delta m (defaults_delta c d)) k =
     (if k \<in> inherited_keys d then hm_get (nd_attrs d) k else hm_get c k)"
proof -
  have wf: "hm_wf (defaults_delta c d)"
    using assms(1) by (simp add: defaults_delta_def inherited_attrs_def hm_wf_filter)
  have in_attrs: "k \<in> inherited_keys d \<Longrightarrow> hm_get (nd_attrs d) k \<noteq> None"
    by (auto simp: inherited_keys_def)
  have same: "hm_get (with_delta m x) k =
      (if k \<in> inherited_keys d then hm_get (nd_attrs d) k else hm_get c k)"
    if x: "hm_wf x" "\<And>k. hm_get x k = hm_get (defaults_delta c d) k" for x
  proof (cases "x = []")
    case True
    with x(2) [of k] have "hm_get (defaults_delta c d) k = None" by simp
    then show ?thesis
      using assms(2) in_attrs True by (auto simp: with_delta_def hm_get_delta [OF assms(1)] split: if_splits)
  next
    case False
    then show ?thesis
      using assms(2) in_attrs x
      by (auto simp: with_delta_def hm_get_extend hm_get_delta [OF assms(1)] split: option.splits if_splits)
  qed
  from same [of "sorted_entries (defaults_delta c d)"] same [of "defaults_delta c d"] wf
  show "hm_get (with_delta m (sorted_entries (defaults_delta c d))) k =
     (if k \<in> inherited_keys d then hm_get (nd_attrs d) k else hm_get c k)"
    and "hm_get (with_delta m (defaults_delta c d)) k =
     (if k \<in> inherited_keys d then hm_get (nd_attrs d) k else hm_get c k)"
    by (simp_all add: hm_get_sorted)
qed

lemma merge_scheduled:
  "merge_go (scheduled_stmts (delta, i, d)) st =
     merge_node i (sorted_entries (nd_authored d))
       (st\<lparr>mr_node_defaults := with_delta (mr_node_defaults st) (sorted_entries delta)\<rparr>)"
  by (simp add: scheduled_stmts_def with_delta_def)

text \<open>
  The heart of the round trip: the scheduled nodes, read back, have the attributes they were
  written from, and the defaults left over are among the final ones.
\<close>

lemma merge_schedule:
  assumes "rem_ok rem final" "hm_eq (mr_node_defaults st) cur"
    and "\<And>k d. hm_get rem k = Some d \<Longrightarrow> keys_of cur \<subseteq> keys_of (nd_attrs d)" "keys_of cur \<subseteq> keys_of final"
  shows "let st' = merge_go (concat (map scheduled_stmts (node_schedule rem cur))) st in
     mr_attrs st' = mr_attrs st \<and> mr_edges st' = mr_edges st \<and> mr_subgraphs st' = mr_subgraphs st \<and>
     mr_edge_defaults st' = mr_edge_defaults st \<and> keys_of (mr_node_defaults st') \<subseteq> keys_of final \<and>
     (\<forall>k. case hm_get rem k of
            Some d \<Rightarrow> (\<exists>e. hm_get (mr_nodes st') k = Some e \<and> node_eq d e)
          | None \<Rightarrow> hm_get (mr_nodes st') k = hm_get (mr_nodes st) k)"
  using assms
proof (induction rem cur arbitrary: st rule: node_schedule.induct)
  case (1 rem cur)
  show ?case
  proof (cases "rem = []")
    case True
    have "hm_get (mr_node_defaults st) = hm_get cur" using 1(3) by (auto simp: hm_eq_def)
    with True 1 show ?thesis by (simp add: node_schedule_end)
  next
    case False
    let ?i = "next_node rem"
    obtain d where d: "hm_get rem ?i = Some d" "\<not> has_unwritten_predecessor rem d"
      using next_node_ok [OF "1.prems"(1) False] by blast
    have wf: "hm_wf rem" "hm_wf (nd_attrs d)" "hm_wf (nd_authored d)" "node_ok ?i d"
      and ids: "\<And>k c. hm_get rem k = Some c \<Longrightarrow> nd_id c = k"
      using "1.prems"(1) d(1) by (auto simp: rem_ok_def node_ok_def)
    let ?delta = "defaults_delta cur d"
    let ?cur = "with_delta cur ?delta"
    let ?nd = "with_delta (mr_node_defaults st) (sorted_entries ?delta)"
    let ?st = "merge_node ?i (sorted_entries (nd_authored d)) (st\<lparr>mr_node_defaults := ?nd\<rparr>)"
    let ?rem = "hm_remove ?i rem"
    have nd_get: "hm_get ?nd k = (if k \<in> inherited_keys d then hm_get (nd_attrs d) k else hm_get cur k)"
      and cur_get: "hm_get ?cur k = (if k \<in> inherited_keys d then hm_get (nd_attrs d) k else hm_get cur k)" for k
      using with_delta_get [OF wf(2), of "mr_node_defaults st" k cur] with_delta_get [OF wf(2), of cur k cur]
        "1.prems"(2) by (simp_all add: hm_eq_def)
    have rem_get: "hm_get ?rem k = (if k = ?i then None else hm_get rem k)" for k
      using wf(1) by (simp add: hm.get_rem)
    have eq: "hm_eq (mr_node_defaults ?st) ?cur"
      by (simp add: hm_eq_def merge_node_def nd_get cur_get)
    have cur_keys: "keys_of ?cur \<subseteq> inherited_keys d \<union> keys_of cur"
      by (auto simp: cur_get split: if_splits)
    have inh: "inherited_keys d \<subseteq> keys_of (nd_attrs c)" if "hm_get ?rem k = Some c" for k c
    proof -
      from that have c: "k \<noteq> ?i" "hm_get rem k = Some c" by (auto simp: rem_get split: if_splits)
      with ids d(1) have "nd_id c \<noteq> nd_id d" by metis
      with c d(2) show ?thesis using not_blocked [OF "1.prems"(1) wf(2)] by blast
    qed
    have step1: "keys_of ?cur \<subseteq> keys_of (nd_attrs c)" if "hm_get ?rem k = Some c" for k c
    proof -
      have "keys_of cur \<subseteq> keys_of (nd_attrs c)"
        by (rule "1.prems"(3) [of k c]) (use that in \<open>simp add: rem_get split: if_splits\<close>)
      then show ?thesis using cur_keys inh [OF that] by (meson Un_least subset_trans)
    qed
    have inh_final: "inherited_keys d \<subseteq> keys_of final"
      using "1.prems"(1) d(1) unfolding rem_ok_def default_chain_def inherited_keys_def by (meson subset_trans)
    have step2: "keys_of ?cur \<subseteq> keys_of final"
      using cur_keys inh_final "1.prems"(4) by blast
    have node: "node_eq d \<lparr>nd_id = ?i, nd_attrs = fill_defaults ?nd (sorted_entries (nd_authored d)),
        nd_authored = sorted_entries (nd_authored d)\<rparr>"
    proof -
      have "hm_get (nd_attrs d) k = hm_get (fill_defaults ?nd (sorted_entries (nd_authored d))) k" for k
      proof (cases "hm_get (nd_authored d) k")
        case (Some v)
        then show ?thesis using wf(4) by (simp add: fill_defaults_get hm_get_sorted [OF wf(3)] node_ok_def)
      next
        case None
        then have "k \<in> inherited_keys d \<longleftrightarrow> hm_get (nd_attrs d) k \<noteq> None" by (auto simp: inherited_keys_def)
        moreover have "hm_get (nd_attrs d) k = None \<Longrightarrow> hm_get cur k = None"
          using "1.prems"(3) [OF d(1)] by (auto simp: subset_iff domIff)
        ultimately show ?thesis
          using None by (simp add: fill_defaults_get hm_get_sorted [OF wf(3)] nd_get)
      qed
      then show ?thesis using wf(4) by (simp add: node_eq_def hm_eq_def hm_get_sorted [OF wf(3)] node_ok_def)
    qed
    have go: "merge_go (concat (map scheduled_stmts (node_schedule rem cur))) st =
        merge_go (concat (map scheduled_stmts (node_schedule ?rem ?cur))) ?st"
      by (simp add: node_schedule_step [OF False d(1)] merge_go_append merge_scheduled flip: with_delta_def)
    let ?st' = "merge_go (concat (map scheduled_stmts (node_schedule ?rem ?cur))) ?st"
    note IH = "1.IH" [OF False refl d(1) refl, folded with_delta_def, of ?st, unfolded Let_def]
    have ih: "mr_attrs ?st' = mr_attrs ?st \<and> mr_edges ?st' = mr_edges ?st \<and> mr_subgraphs ?st' = mr_subgraphs ?st \<and>
       mr_edge_defaults ?st' = mr_edge_defaults ?st \<and> keys_of (mr_node_defaults ?st') \<subseteq> keys_of final \<and>
       (\<forall>k. case hm_get ?rem k of
              Some d \<Rightarrow> (\<exists>e. hm_get (mr_nodes ?st') k = Some e \<and> node_eq d e)
            | None \<Rightarrow> hm_get (mr_nodes ?st') k = hm_get (mr_nodes ?st) k)"
      by (rule IH [OF rem_ok_remove [OF "1.prems"(1)] eq step1 step2])
    then have ih_nodes: "case hm_get ?rem k of
            Some d \<Rightarrow> (\<exists>e. hm_get (mr_nodes ?st') k = Some e \<and> node_eq d e)
          | None \<Rightarrow> hm_get (mr_nodes ?st') k = hm_get (mr_nodes ?st) k" for k
      by (elim conjE) (erule spec)
    have nodes: "case hm_get rem k of
            Some d \<Rightarrow> (\<exists>e. hm_get (mr_nodes ?st') k = Some e \<and> node_eq d e)
          | None \<Rightarrow> hm_get (mr_nodes ?st') k = hm_get (mr_nodes st) k" for k
    proof (cases "k = ?i")
      case True
      have "hm_get ?rem ?i = None" by (simp add: rem_get)
      with ih_nodes [of ?i] have "hm_get (mr_nodes ?st') ?i = hm_get (mr_nodes ?st) ?i" by (simp only: option.case)
      with node True d(1) show ?thesis by (simp add: merge_node_def)
    next
      case False
      then have "hm_get ?rem k = hm_get rem k" "hm_get (mr_nodes ?st) k = hm_get (mr_nodes st) k"
        by (simp_all add: rem_get merge_node_def)
      with ih_nodes [of k] show ?thesis by (simp only:)
    qed
    have frame: "mr_attrs ?st = mr_attrs st" "mr_edges ?st = mr_edges st" "mr_subgraphs ?st = mr_subgraphs st"
      "mr_edge_defaults ?st = mr_edge_defaults st"
      by (simp_all add: merge_node_def)
    show ?thesis
      unfolding go Let_def using ih nodes
      by (elim conjE) (intro conjI allI; (assumption | simp only: frame))
  qed
qed

lemma merge_attr_decls:
  "merge_go (map (\<lambda>(k, v). GraphAttrDecl k v) es) st =
     st\<lparr>mr_attrs := fold (\<lambda>(k, v). hm_insert k v) es (mr_attrs st)\<rparr>"
  by (induction es arbitrary: st) auto

lemma extend_sorted: "hm_wf a \<Longrightarrow> hm_extend [] (sorted_entries a) = sorted_entries a"
  using fold_insert_fresh [of "[]" "sorted_entries a"] by (simp add: hm_extend_def)

lemma merge_attr_stmts: "hm_wf a \<Longrightarrow> mr_attrs st = [] \<Longrightarrow> merge_go (attr_stmts a) st = st\<lparr>mr_attrs := sorted_entries a\<rparr>"
  using extend_sorted [of a] by (simp add: attr_stmts_def merge_attr_decls hm_extend_def)

lemma ensure_present: "\<forall>n \<in> set ns. hm_get m n \<noteq> None \<Longrightarrow> ensure_nodes nd ns m = m"
  by (induction ns) (simp_all add: ensure_nodes_def hm_or_insert_def hm_contains_get)

definition reread_edge :: "edge_def \<Rightarrow> edge_def" where
  "reread_edge e = \<lparr>ed_from = ed_from e, ed_to = ed_to e, ed_attrs = sorted_entries (ed_attrs e)\<rparr>"

lemma merge_edge_stmts:
  assumes "\<forall>e \<in> set es. hm_wf (ed_attrs e) \<and> hm_get (mr_nodes st) (ed_from e) \<noteq> None \<and> hm_get (mr_nodes st) (ed_to e) \<noteq> None"
    "mr_edge_defaults st = []"
  shows "merge_go (edge_stmts es) st = st\<lparr>mr_edges := mr_edges st @ map reread_edge es\<rparr>"
  using assms
proof (induction es arbitrary: st)
  case Nil
  then show ?case by (simp add: edge_stmts_def)
next
  case (Cons e es)
  have "merge_edge [ed_from e, ed_to e] (sorted_entries (ed_attrs e)) (ed_from e, ed_to e) st =
      st\<lparr>mr_edges := mr_edges st @ [reread_edge e]\<rparr>"
    using Cons.prems by (simp add: merge_edge_def ensure_present extend_sorted reread_edge_def)
  with Cons.IH [of "st\<lparr>mr_edges := mr_edges st @ [reread_edge e]\<rparr>"] Cons.prems show ?case
    by (simp add: edge_stmts_def)
qed

lemma extend_final:
  assumes "hm_wf final" "keys_of m \<subseteq> keys_of final"
  shows "hm_eq final (if final = [] then m else hm_extend m (sorted_entries final))"
proof -
  have "hm_get m k = None" if "hm_get final k = None" for k
    using assms(2) that by (auto simp: subset_iff domIff)
  then show ?thesis
    using assms(1) by (auto simp: hm_eq_def hm_get_extend hm_get_sorted split: option.splits)
qed

lemma merge_default_stmts:
  "merge_go (default_stmts nd ed) st =
     st\<lparr>mr_node_defaults := (if nd = [] then mr_node_defaults st else hm_extend (mr_node_defaults st) (sorted_entries nd)),
        mr_edge_defaults := (if ed = [] then mr_edge_defaults st else hm_extend (mr_edge_defaults st) (sorted_entries ed))\<rparr>"
  by (simp add: default_stmts_def)

lemma reread_edges_eq: "\<forall>e \<in> set es. hm_wf (ed_attrs e) \<Longrightarrow> list_all2 edge_eq es (map reread_edge es)"
  by (auto simp: list_all2_conv_all_nth edge_eq_def reread_edge_def hm_eq_def hm_get_sorted)

text \<open>A scope without subgraphs, or whose subgraphs are merged separately.\<close>

definition rereads :: "attrs \<Rightarrow> attrs \<Rightarrow> attrs \<Rightarrow> node_def hmap \<Rightarrow> edge_def list \<Rightarrow> merge_result \<Rightarrow> bool" where
  "rereads a nd ed nodes es r \<longleftrightarrow>
     hm_eq a (mr_attrs r) \<and> nodes_eq nodes (mr_nodes r) \<and> list_all2 edge_eq es (mr_edges r) \<and>
     hm_eq nd (mr_node_defaults r) \<and> hm_eq ed (mr_edge_defaults r)"

lemma merge_scope:
  assumes ok: "scope_writable fmt a nd ed nodes es" and sound: "scope_sound nodes nd es"
    and inner: "\<And>st. mr_node_defaults st = [] \<Longrightarrow> mr_edge_defaults st = [] \<Longrightarrow>
      merge_go xs st = st\<lparr>mr_subgraphs := mr_subgraphs st @ sgs\<rparr>"
  shows "let r = merge_go (scope_stmts a nd ed nodes es xs) (merge_init [] [])
     in rereads a nd ed nodes es r \<and> mr_subgraphs r = sgs"
proof -
  have wf: "hm_wf a" "hm_wf nd" "hm_wf ed" "hm_wf nodes" "\<forall>e \<in> set es. hm_wf (ed_attrs e)"
    using ok by (auto simp: scope_writable_def bare_ok_def attrs_ok_def list_all_iff edge_writable_def)
  have node_wf: "hm_wf (nd_attrs d)" "hm_wf (nd_authored d)" if "hm_get nodes k = Some d" for k d
    using ok hm_get_in_set [OF that] by (auto simp: scope_writable_def list_all_iff node_writable_def attrs_ok_def)
  have sorted_get: "hm_get (sorted_entries nodes) = hm_get nodes"
    using hm_get_sorted [OF wf(4)] by blast
  have rem: "rem_ok (sorted_entries nodes) nd"
    using sound node_wf wf(4) by (auto simp: rem_ok_def scope_sound_def default_chain_def sorted_get)
  let ?st0 = "(merge_init [] [])\<lparr>mr_attrs := sorted_entries a\<rparr>"
  let ?st1 = "?st0\<lparr>mr_subgraphs := sgs\<rparr>"
  let ?st2 = "merge_go (concat (map scheduled_stmts (node_schedule (sorted_entries nodes) []))) ?st1"
  let ?st3 = "?st2\<lparr>mr_edges := mr_edges ?st2 @ map reread_edge es\<rparr>"
  let ?r = "merge_go (default_stmts nd ed) ?st3"
  have s0: "merge_go (attr_stmts a) (merge_init [] []) = ?st0"
    by (rule merge_attr_stmts [OF wf(1)]) (simp add: merge_init_def)
  have s1: "merge_go xs ?st0 = ?st1"
    using inner [of ?st0] by (simp add: merge_init_def)
  have sched: "mr_attrs ?st2 = mr_attrs ?st1 \<and> mr_edges ?st2 = mr_edges ?st1 \<and> mr_subgraphs ?st2 = mr_subgraphs ?st1 \<and>
     mr_edge_defaults ?st2 = mr_edge_defaults ?st1 \<and> keys_of (mr_node_defaults ?st2) \<subseteq> keys_of nd \<and>
     (\<forall>k. case hm_get (sorted_entries nodes) k of
            Some d \<Rightarrow> (\<exists>e. hm_get (mr_nodes ?st2) k = Some e \<and> node_eq d e)
          | None \<Rightarrow> hm_get (mr_nodes ?st2) k = hm_get (mr_nodes ?st1) k)"
    by (rule merge_schedule [OF rem, unfolded Let_def]) (simp_all add: hm_eq_def merge_init_def)
  then have nodes: "nodes_eq nodes (mr_nodes ?st2)"
    unfolding nodes_eq_def sorted_get
    by (elim conjE) (intro allI, erule_tac x = k in allE, auto simp: merge_init_def split: option.splits)
  have present: "hm_get (mr_nodes ?st2) k \<noteq> None" if "hm_get nodes k \<noteq> None" for k
    using nodes that unfolding nodes_eq_def by (metis option.rel_distinct(2) not_None_eq)
  have ends: "\<forall>e \<in> set es. hm_wf (ed_attrs e) \<and> hm_get (mr_nodes ?st2) (ed_from e) \<noteq> None \<and>
      hm_get (mr_nodes ?st2) (ed_to e) \<noteq> None"
    using sound wf(5) present unfolding scope_sound_def edges_closed_def by blast
  have s3: "merge_go (edge_stmts es) ?st2 = ?st3"
    by (rule merge_edge_stmts [OF ends]) (use sched in \<open>simp add: merge_init_def\<close>)
  have "merge_go (scope_stmts a nd ed nodes es xs) (merge_init [] []) = ?r"
    by (simp only: scope_stmts_def merge_go_append s0 s1 s3)
  moreover have "hm_eq a (mr_attrs ?r)"
    using sched wf(1) by (simp add: merge_default_stmts hm_eq_def hm_get_sorted)
  moreover have "nodes_eq nodes (mr_nodes ?r)"
    using nodes by (simp add: merge_default_stmts)
  moreover have "list_all2 edge_eq es (mr_edges ?r)"
    using sched reread_edges_eq [OF wf(5)] by (simp add: merge_default_stmts merge_init_def)
  moreover have "hm_eq nd (mr_node_defaults ?r)"
  proof -
    have "mr_node_defaults ?r = (if nd = [] then mr_node_defaults ?st2
        else hm_extend (mr_node_defaults ?st2) (sorted_entries nd))"
      by (simp add: merge_default_stmts)
    moreover have "keys_of (mr_node_defaults ?st2) \<subseteq> keys_of nd" using sched by (elim conjE)
    ultimately show ?thesis using extend_final [OF wf(2)] by (simp only:)
  qed
  moreover have "hm_eq ed (mr_edge_defaults ?r)"
  proof -
    have "mr_edge_defaults ?st2 = []" using sched by (simp add: merge_init_def)
    then have "mr_edge_defaults ?r = (if ed = [] then [] else hm_extend [] (sorted_entries ed))"
      by (simp add: merge_default_stmts)
    then show ?thesis using extend_final [OF wf(3), of "[]"] by simp
  qed
  moreover have "mr_subgraphs ?r = sgs"
    using sched by (simp add: merge_default_stmts)
  ultimately show ?thesis by (simp add: rereads_def)
qed

definition reread_subgraph :: "subgraph_def \<Rightarrow> subgraph_def" where
  "reread_subgraph sg = subgraph_of (sg_name sg)
     (merge_go (scope_stmts (sg_attrs sg) (sg_node_defaults sg) (sg_edge_defaults sg) (sg_nodes sg) (sg_edges sg) [])
       (merge_init [] []))"

definition subgraph_sound :: "subgraph_def \<Rightarrow> bool" where
  "subgraph_sound sg \<longleftrightarrow> scope_sound (sg_nodes sg) (sg_node_defaults sg) (sg_edges sg)"

lemma merge_subgraph:
  assumes "subgraph_writable fmt sg" "subgraph_sound sg"
  shows "subgraph_eq sg (reread_subgraph sg)"
    and "mr_node_defaults st = [] \<Longrightarrow> mr_edge_defaults st = [] \<Longrightarrow>
         merge_go [subgraph_stmts sg] st = st\<lparr>mr_subgraphs := mr_subgraphs st @ [reread_subgraph sg]\<rparr>"
proof -
  let ?r = "merge_go (scope_stmts (sg_attrs sg) (sg_node_defaults sg) (sg_edge_defaults sg) (sg_nodes sg) (sg_edges sg) [])
       (merge_init [] [])"
  have r: "rereads (sg_attrs sg) (sg_node_defaults sg) (sg_edge_defaults sg) (sg_nodes sg) (sg_edges sg) ?r
      \<and> mr_subgraphs ?r = []"
    using merge_scope [of fmt "sg_attrs sg" "sg_node_defaults sg" "sg_edge_defaults sg" "sg_nodes sg" "sg_edges sg" "[]" "[]"]
      assms by (simp add: Let_def subgraph_writable_def subgraph_sound_def)
  then show "subgraph_eq sg (reread_subgraph sg)"
    by (simp add: subgraph_eq_def reread_subgraph_def subgraph_of_def rereads_def)
  show "merge_go [subgraph_stmts sg] st = st\<lparr>mr_subgraphs := mr_subgraphs st @ [reread_subgraph sg]\<rparr>"
    if "mr_node_defaults st = []" "mr_edge_defaults st = []"
    using r that by (simp add: subgraph_stmts_def reread_subgraph_def)
qed

lemma merge_subgraphs:
  assumes "\<forall>sg \<in> set sgs. subgraph_writable fmt sg \<and> subgraph_sound sg"
    "mr_node_defaults st = []" "mr_edge_defaults st = []"
  shows "merge_go (map subgraph_stmts sgs) st = st\<lparr>mr_subgraphs := mr_subgraphs st @ map reread_subgraph sgs\<rparr>"
  using assms
proof (induction sgs arbitrary: st)
  case (Cons sg sgs)
  have "merge_go (subgraph_stmts sg # map subgraph_stmts sgs) st
      = merge_go (map subgraph_stmts sgs) (merge_go [subgraph_stmts sg] st)"
    using merge_go_append [of "[subgraph_stmts sg]" "map subgraph_stmts sgs" st] by simp
  with Cons merge_subgraph(2) [of fmt sg st] show ?case by simp
qed simp

lemma merge_graph:
  assumes g: "writable fmt g" and sound: "scope_sound (dg_nodes g) (dg_node_defaults g) (dg_edges g)"
    "\<forall>sg \<in> set (dg_subgraphs g). subgraph_sound sg"
  shows "graph_eq g (digraph_of (dg_name g) (graph_stmts g))"
proof -
  let ?r = "merge_go (graph_stmts g) (merge_init [] [])"
  have subs: "\<forall>sg \<in> set (dg_subgraphs g). subgraph_writable fmt sg \<and> subgraph_sound sg"
    using g sound(2) by (auto simp: writable_def list_all_iff)
  have "rereads (dg_attrs g) (dg_node_defaults g) (dg_edge_defaults g) (dg_nodes g) (dg_edges g) ?r
      \<and> mr_subgraphs ?r = map reread_subgraph (dg_subgraphs g)"
    using merge_scope [OF _ sound(1), of fmt "dg_attrs g" "dg_edge_defaults g" "map subgraph_stmts (dg_subgraphs g)"
        "map reread_subgraph (dg_subgraphs g)"] merge_subgraphs [OF subs] g
    by (simp add: Let_def writable_def graph_stmts_def)
  moreover have "list_all2 subgraph_eq (dg_subgraphs g) (map reread_subgraph (dg_subgraphs g))"
    using subs merge_subgraph(1) [of fmt] unfolding list_all2_map2 by (intro list.rel_refl_strong) blast
  ultimately show ?thesis
    by (simp add: graph_eq_def digraph_of_def merge_statements_def rereads_def Let_def)
qed

lemma parse_digraph_of: "parse b input = Inr g \<Longrightarrow> \<exists>n stmts. g = digraph_of n stmts"
  by (auto simp: parse_def parse_digraph_def pthen_Inr preturn_def Let_def simp del: statements.simps split: sum.splits)
     blast

lemma reparse_printed:
  assumes "parse b input = Inr g" "writable fmt g"
  shows "\<exists>h. parse b (to_dot_string fmt g) = Inr h \<and> graph_eq g h"
proof -
  obtain n stmts where "g = digraph_of n stmts" using parse_digraph_of [OF assms(1)] by blast
  then have "graph_eq g (digraph_of (dg_name g) (graph_stmts g))"
    using digraph_scopes_sound by (intro merge_graph [OF assms(2)]) (auto simp: subgraph_sound_def)
  then show ?thesis using parse_printed [OF assms(2)] by blast
qed

text \<open>
  Property C40. A graph that was parsed, and can be written, is printed as text that parses again to
  the same graph: same name, attributes, nodes with their effective and authored attributes, edges
  in order, subgraphs and defaults.
\<close>

theorem dot_roundtrip:
  assumes "parse b input = Inr g" "writable fmt g"
  shows "\<exists>h. parse b (to_dot_string fmt g) = Inr h \<and> graph_eq g h"
  using assms by (rule reparse_printed)

text \<open>The graph of the witness: defaults between the nodes, a subgraph, a quoted comment.\<close>

definition no_floats :: "f64 \<Rightarrow> str" where
  "no_floats f = ''0''"

definition roundtrip_base :: dot_graph where
  "roundtrip_base = digraph_of ''P''
     [GraphAttrDecl ''goal'' (AString ''ship // it''), NodeStmt ''a'' [(''x'', AInteger 1)],
      NodeDefaults [(''k.m'', AInteger (-5))], SubgraphStmt (Some ''c'') [NodeStmt ''q'' []],
      EdgeStmt [''a'', ''b''] [(''w'', ABoolean True)]]"

definition roundtrip_graph :: dot_graph where
  "roundtrip_graph = digraph_of ''P'' (graph_stmts roundtrip_base)"

lemma roundtrip_base_ok: "writable no_floats roundtrip_base" "dg_name roundtrip_base = ''P''"
  by code_simp+

lemma roundtrip_parses: "parse Debug (to_dot_string no_floats roundtrip_base) = Inr roundtrip_graph"
  using parse_printed [OF roundtrip_base_ok(1)] by (simp add: roundtrip_base_ok(2) roundtrip_graph_def)

lemma roundtrip_writable: "writable no_floats roundtrip_graph"
  by code_simp

theorem dot_roundtrip_witness:
  "\<exists>h. parse Debug (to_dot_string no_floats roundtrip_graph) = Inr h \<and> graph_eq roundtrip_graph h"
  by (rule dot_roundtrip [OF roundtrip_parses roundtrip_writable])

end
