(* ===== verification/Dot_Examples.thy ===== *)
theory Dot_Examples
  imports Dot_Roundtrip
begin

text \<open>
  Concrete inputs of the DOT parser and the serializer where they depart from what their
  documentation says.
\<close>

lemmas parser_eval = parse_def parse_digraph_def Let_def statement_of_def pthen_def alt2_def popt_def
  preturn_def pfail_def pmap_def defaults_stmt_def subgraph_stmt_def node_or_edge_stmt_def node_stmt_def
  opt_block_def attr_block_def semicolon_def reject_other_graphs_def starts_with_def

lemmas char_eval = id_start_def id_char_def is_alpha_def is_alnum_def is_upper_def is_digit_def
  space_char_def

text \<open>
  A graph attribute with a dotted key, read from a \<open>graph [..]\<close> block, is written as a bare
  declaration, whose key the grammar does not allow to be dotted.
\<close>

definition dotted_graph :: dot_graph where
  "dotted_graph = digraph_of ''g'' [GraphAttrs [(''a.b'', ABoolean True)]]"

lemma dotted_text:
  "to_dot_string fmt dotted_graph = ''digraph g {'' @ newline @ ''    a.b=true'' @ newline @ ''}'' @ newline"
  by (simp add: dotted_graph_def digraph_of_def merge_statements_def merge_init_def Let_def to_dot_string_def
      write_body_def write_scope_def write_bare_attrs_def write_nodes_def write_edges_def write_subgraphs_def
      write_defaults_block_def hm_extend_def hm_insert_def sorted_entries_def write_attr_def push_indent_def
      node_schedule_end newline_def)

lemma dotted_parses: "parse b ''digraph g {graph [a.b=true]}'' = Inr dotted_graph"
proof -
  have "strip_comments ''digraph g {graph [a.b=true]}'' = ''digraph g {graph [a.b=true]}''"
    by (rule clean_strip [OF clean_plain]) (simp add: plain_char_def)
  then show ?thesis
    by (simp add: parser_eval char_eval attr_def qualified_or_plain_id_def dotted_rest.simps more_attrs.simps
        next_attr_def separator_def attr_value_def quoted_string_def boolean_value_def dotted_graph_def)
qed

lemma dotted_fails: "parse b (to_dot_string fmt dotted_graph) = Inl Backtrack"
proof -
  have "strip_comments (to_dot_string fmt dotted_graph) = to_dot_string fmt dotted_graph"
    by (rule clean_strip [OF clean_plain]) (simp add: dotted_text plain_char_def newline_def)
  then show ?thesis
    by (simp add: dotted_text parser_eval char_eval newline_def)
qed

theorem qualified_graph_attr_not_reparsed:
  "parse b ''digraph g {graph [a.b=true]}'' = Inr dotted_graph \<and>
   parse b (to_dot_string fmt dotted_graph) = Inl Backtrack"
  using dotted_parses dotted_fails by blast

text \<open>What follows the closing brace of the graph is not looked at.\<close>

theorem trailing_text_ignored: "parse b (''digraph g {} '' @ w) = Inr (digraph_of ''g'' [])"
proof -
  let ?p = "''digraph g {} ''"
  have "strip_comments (?p @ w) = ?p @ strip_comments w"
    using clean_plain [of ?p] unfolding clean_def by (simp add: plain_char_def)
  then show ?thesis
    by (simp add: parser_eval char_eval)
qed

text \<open>
  A two-byte UTF-8 character in a string literal comes back as four bytes: comment stripping
  encodes each of its bytes as a character of its own.
\<close>

definition e_acute :: str where
  "e_acute = [CHR 0xC3, CHR 0xA9]"

lemma e_acute_twice: "parse b (''digraph g {x='' @ dq e_acute @ ''}'')
  = Inr (digraph_of ''g'' [GraphAttrDecl ''x'' (AString [CHR 0xC3, CHR 0x83, CHR 0xC2, CHR 0xA9])])"
proof -
  let ?p = "''digraph g {x=''"
  have "strip_comments (?p @ dq e_acute @ ''}'') = ?p @ strip_comments (dq e_acute @ ''}'')"
    using clean_plain [of ?p] unfolding clean_def by (simp add: plain_char_def)
  moreover have "strip_comments (dq e_acute @ ''}'') = dq [CHR 0xC3, CHR 0x83, CHR 0xC2, CHR 0xA9] @ ''}''"
    by code_simp
  ultimately show ?thesis
    by (simp add: parser_eval char_eval attr_value_def quoted_string_def prefixed_def dq_def)
qed

theorem non_ascii_strings_corrupted:
  "parse b (''digraph g {x='' @ dq e_acute @ ''}'')
   \<noteq> Inr (digraph_of ''g'' [GraphAttrDecl ''x'' (AString e_acute)])"
proof -
  have "hm_get (dg_attrs (digraph_of ''g'' [GraphAttrDecl ''x'' v])) ''x'' = Some v" for v
    by (simp add: digraph_of_def merge_statements_def merge_init_def Let_def)
  then have "digraph_of ''g'' [GraphAttrDecl ''x'' v] = digraph_of ''g'' [GraphAttrDecl ''x'' u] \<Longrightarrow> v = u" for u v
    by (metis option.inject)
  then have "digraph_of ''g'' [GraphAttrDecl ''x'' (AString [CHR 0xC3, CHR 0x83, CHR 0xC2, CHR 0xA9])]
      \<noteq> digraph_of ''g'' [GraphAttrDecl ''x'' (AString e_acute)]"
    by (auto simp: e_acute_def)
  then show ?thesis using e_acute_twice [of b] by (metis sum.inject(2))
qed

end
