(* ===== verification/Handler_Dispatch.thy ===== *)
theory Handler_Dispatch
  imports Engine Journal_Files
begin

text \<open>
  Handler dispatch (\<open>crates/attractor-pipeline/src/handler.rs\<close>): the executors a handler offers, the
  isolated run of \<open>DynHandler::execute_configured\<close>, the registry and the handlers that do no I/O.
\<close>

section \<open>Handlers as actions\<close>

text \<open>
  A handler runs on a state of its own: the context it may write through, the events it has emitted
  and the world. It returns an outcome or an error; what it did before an error has happened.
\<close>

type_synonym ('w, 'a) hact = "'w handler_run \<Rightarrow> 'a result \<times> 'w handler_run"

definition hret :: "'a \<Rightarrow> ('w, 'a) hact" where
  "hret x s = (Inr x, s)"

definition hfail :: "error \<Rightarrow> ('w, 'a) hact" where
  "hfail e s = (Inl e, s)"

definition hbind :: "('w, 'a) hact \<Rightarrow> ('a \<Rightarrow> ('w, 'b) hact) \<Rightarrow> ('w, 'b) hact" where
  "hbind m f s = (case m s of (Inl e, s') \<Rightarrow> (Inl e, s') | (Inr x, s') \<Rightarrow> f x s')"

definition hlift :: "'a result \<Rightarrow> ('w, 'a) hact" where
  "hlift r s = (r, s)"

definition hworld :: "('w \<Rightarrow> 'a \<times> 'w) \<Rightarrow> ('w, 'a) hact" where
  "hworld f s = (let (x, w) = f (hr_world s) in (Inr x, s\<lparr>hr_world := w\<rparr>))"

definition hsense :: "('w \<Rightarrow> 'a) \<Rightarrow> ('w, 'a) hact" where
  "hsense f s = (Inr (f (hr_world s)), s)"

definition hctx :: "('w, ctx) hact" where
  "hctx s = (Inr (hr_ctx s), s)"

definition hset_ctx :: "(ctx \<Rightarrow> ctx) \<Rightarrow> ('w, unit) hact" where
  "hset_ctx f s = (Inr (), s\<lparr>hr_ctx := f (hr_ctx s)\<rparr>)"

text \<open>\<open>EventSink::emit\<close>, when the handler was given a sink.\<close>

definition hemit :: "bool \<Rightarrow> pipeline_event \<Rightarrow> ('w, unit) hact" where
  "hemit sink ev s = (Inr (), if sink then s\<lparr>hr_events := hr_events s @ [ev]\<rparr> else s)"

lemma hbind_Inr:
  "hbind m f s = (Inr y, s') \<longleftrightarrow> (\<exists>x t. m s = (Inr x, t) \<and> f x t = (Inr y, s'))"
  by (auto simp: hbind_def split: prod.splits sum.splits)

lemma hbindE:
  assumes "hbind m f s = (Inr y, s')"
  obtains x t where "m s = (Inr x, t)" "f x t = (Inr y, s')"
proof -
  from assms have "\<exists>x t. m s = (Inr x, t) \<and> f x t = (Inr y, s')" by (simp only: hbind_Inr)
  then show thesis using that by blast
qed

lemma hbind_Inl:
  "hbind m f s = (Inl e, s') \<longleftrightarrow> m s = (Inl e, s') \<or> (\<exists>x t. m s = (Inr x, t) \<and> f x t = (Inl e, s'))"
  by (auto simp: hbind_def split: prod.splits sum.splits)

lemma hact_simps [simp]:
  "hret x s = (Inr x, s)" "hfail e s = (Inl e, s)" "hlift r s = (r, s)" "hctx s = (Inr (hr_ctx s), s)"
  "hset_ctx f s = (Inr (), s\<lparr>hr_ctx := f (hr_ctx s)\<rparr>)" "hsense g s = (Inr (g (hr_world s)), s)"
  "hemit sink ev s = (Inr (), if sink then s\<lparr>hr_events := hr_events s @ [ev]\<rparr> else s)"
  by (simp_all add: hret_def hfail_def hlift_def hctx_def hset_ctx_def hsense_def hemit_def)

lemma hbind_simps [simp]:
  "hbind (hret x) f s = f x s" "hbind (hfail e) f1 s = (Inl e, s)"
  "hbind (hlift r) f2 s = (case r of Inl e \<Rightarrow> (Inl e, s) | Inr y \<Rightarrow> f2 y s)"
  "hbind hctx f3 s = f3 (hr_ctx s) s" "hbind (hset_ctx g) k s = k () (s\<lparr>hr_ctx := g (hr_ctx s)\<rparr>)"
  "hbind (hsense q) f4 s = f4 (q (hr_world s)) s"
  "hbind (hemit sink ev) k s = k () (if sink then s\<lparr>hr_events := hr_events s @ [ev]\<rparr> else s)"
  by (simp_all add: hbind_def split: sum.split)

section \<open>Executors and dispatch\<close>

text \<open>\<open>HandlerExecutionContext\<close>, without the context, which is in the state.\<close>

record handler_execution =
  hx_config :: controls
  hx_run_dir :: "str option"
  hx_events :: bool

record 'w typed_executor =
  te_resolved :: "pipeline_node \<Rightarrow> resolved_node \<Rightarrow> pipeline_graph \<Rightarrow> ('w, outcome) hact"
  te_configured :: "pipeline_node \<Rightarrow> resolved_node \<Rightarrow> handler_execution \<Rightarrow> pipeline_graph \<Rightarrow> ('w, outcome) hact"

text \<open>\<open>NodeHandler\<close>: the interfaces a handler returns are options.\<close>

record 'w handler =
  hd_type :: str
  hd_provider :: "'w typed_executor option"
  hd_resolved :: "'w typed_executor option"
  hd_resumes :: bool
  hd_execute :: "pipeline_node \<Rightarrow> pipeline_graph \<Rightarrow> ('w, outcome) hact"

definition execute_resolved ::
  "'w handler \<Rightarrow> pipeline_node \<Rightarrow> resolved_node \<Rightarrow> pipeline_graph \<Rightarrow> ('w, outcome) hact" where
  "execute_resolved h n r g =
     (case hd_provider h of
        Some t \<Rightarrow> te_resolved t n r g
      | None \<Rightarrow> (case hd_resolved h of Some t \<Rightarrow> te_resolved t n r g | None \<Rightarrow> hd_execute h n g))"

definition dispatch_configured ::
  "'w handler \<Rightarrow> pipeline_node \<Rightarrow> resolved_node \<Rightarrow> handler_execution \<Rightarrow> pipeline_graph \<Rightarrow> ('w, outcome) hact" where
  "dispatch_configured h n r x g =
     (case hd_provider h of
        Some t \<Rightarrow> te_configured t n r x g
      | None \<Rightarrow> (case hd_resolved h of Some t \<Rightarrow> te_configured t n r x g | None \<Rightarrow> hd_execute h n g))"

definition removed_keys :: "json hmap \<Rightarrow> json hmap \<Rightarrow> str list" where
  "removed_keys before after = filter (\<lambda>k. \<not> hm_contains after k \<and> \<not> is_reserved_key k) (hm_keys before)"

definition direct_updates :: "json hmap \<Rightarrow> json hmap \<Rightarrow> json hmap" where
  "direct_updates before after = filter (\<lambda>(k, v). hm_get before k \<noteq> Some v) after"

definition remove_keys :: "str list \<Rightarrow> ctx \<Rightarrow> ctx" where
  "remove_keys ks c = fold (\<lambda>k c. snd (context_remove k c)) ks c"

text \<open>
  \<open>DynHandler::execute_configured\<close>: the handler runs on an isolated copy of the live context. After
  a success its removals reach the live context and its writes become updates of the outcome.
\<close>

definition execute_configured ::
  "'w handler \<Rightarrow> pipeline_node \<Rightarrow> resolved_node \<Rightarrow> handler_execution \<Rightarrow> pipeline_graph \<Rightarrow> ('w, outcome) hact" where
  "execute_configured h n r x g s =
     (let live = hr_ctx s;
          before = context_snapshot live;
          (res, run) = dispatch_configured h n r x g s
      in case res of
           Inl e \<Rightarrow> (Inl e, run\<lparr>hr_ctx := live\<rparr>)
         | Inr out \<Rightarrow>
             (let after = context_snapshot (hr_ctx run);
                  updates = hm_extend (direct_updates before after) (context_updates out)
              in (Inr (out\<lparr>context_updates := updates\<rparr>),
                  run\<lparr>hr_ctx := remove_keys (removed_keys before after) live\<rparr>)))"

section \<open>Isolation\<close>

lemma remove_keys_wf [simp]: "hm_wf (ctx_values c) \<Longrightarrow> hm_wf (ctx_values (remove_keys ks c))"
  by (induction ks arbitrary: c) (simp_all add: remove_keys_def context_remove_def)

lemma remove_keys_get:
  "hm_wf (ctx_values c) \<Longrightarrow> context_get (remove_keys ks c) k = (if k \<in> set ks then None else context_get c k)"
proof (induction ks arbitrary: c)
  case (Cons j ks)
  then have "hm_wf (ctx_values (snd (context_remove j c)))" by (simp add: context_remove_def)
  from Cons.IH [OF this] Cons.prems show ?case by (auto simp: remove_keys_def context_get_remove)
qed (simp add: remove_keys_def)

lemma remove_keys_logs [simp]: "ctx_logs (remove_keys ks c) = ctx_logs c"
  by (induction ks arbitrary: c) (simp_all add: remove_keys_def context_remove_def)

lemma hm_wf_filtered [simp]: "hm_wf m \<Longrightarrow> hm_wf (filter P m)"
  by (simp add: hm_wf_def distinct_map_filter)

lemma direct_updates_get:
  "hm_wf after \<Longrightarrow> hm_get (direct_updates before after) k =
     (if hm_get before k = hm_get after k then None else hm_get after k)"
proof (induction after)
  case (Cons kv after)
  obtain j v where kv: "kv = (j, v)" by (cases kv)
  have "hm_get after j = None" using Cons.prems
    by (auto simp: kv hm_wf_def hm_get_def map_of_eq_None_iff)
  with Cons show ?case by (auto simp: kv direct_updates_def hm_wf_def)
qed (simp add: direct_updates_def)

lemma removed_keys_set:
  "k \<in> set (removed_keys before after) \<longleftrightarrow>
     hm_get before k \<noteq> None \<and> hm_get after k = None \<and> \<not> is_reserved_key k"
  by (auto simp: removed_keys_def hm_contains_get hm_keys_def hm_get_def map_of_eq_None_iff)

lemma reserved_keys_none:
  "filter is_reserved_key (hm_keys u) = [] \<Longrightarrow> is_reserved_key k \<Longrightarrow> hm_get u k = None"
  by (auto simp: filter_empty_conv hm_keys_def hm_get_def map_of_eq_None_iff)

lemma execute_configured_cases:
  assumes "execute_configured h n r x g s = (res, s')"
  obtains (error) e run where "dispatch_configured h n r x g s = (Inl e, run)" "res = Inl e" "s' = run\<lparr>hr_ctx := hr_ctx s\<rparr>"
  | (outcome) out run where "dispatch_configured h n r x g s = (Inr out, run)"
      "res = Inr (out\<lparr>context_updates := hm_extend (direct_updates (ctx_values (hr_ctx s)) (ctx_values (hr_ctx run)))
          (context_updates out)\<rparr>)"
      "s' = run\<lparr>hr_ctx := remove_keys (removed_keys (ctx_values (hr_ctx s)) (ctx_values (hr_ctx run))) (hr_ctx s)\<rparr>"
  using assms
  by (auto simp: execute_configured_def context_snapshot_def Let_def split: prod.splits sum.splits)

lemma execute_configured_context:
  assumes "execute_configured h n r x g s = (Inr out', s')" "dispatch_configured h n r x g s = (Inr out, run)"
    and "hm_wf (ctx_values (hr_ctx s))" "hm_wf (ctx_values (hr_ctx run))" "hm_wf (context_updates out)"
  shows "context_get (context_apply_updates (context_updates out') (hr_ctx s')) k =
     (if is_reserved_key k \<and> context_get (hr_ctx run) k = None
      then or_else (hm_get (context_updates out) k) (context_get (hr_ctx s) k)
      else context_get (context_apply_updates (context_updates out) (hr_ctx run)) k)"
  using assms(1)
proof (cases rule: execute_configured_cases)
  case (outcome out1 run1)
  then have o: "out1 = out" "run1 = run" using assms(2) by simp_all
  have wf: "hm_wf (context_updates out')" using outcome(2) assms(4) o by (simp add: direct_updates_def)
  let ?b = "ctx_values (hr_ctx s)" and ?a = "ctx_values (hr_ctx run)" and ?u = "context_updates out"
  have u: "hm_get (context_updates out') k =
      (case hm_get ?u k of Some v \<Rightarrow> Some v | None \<Rightarrow> hm_get (direct_updates ?b ?a) k)"
    using outcome(2) o assms(5) by (simp add: hm_get_extend)
  have l: "context_get (hr_ctx s') k = (if k \<in> set (removed_keys ?b ?a) then None else hm_get ?b k)"
    using outcome(3) o remove_keys_get [OF assms(3)] by (simp add: context_get_def)
  have g: "context_get (hr_ctx run) k = hm_get ?a k" "context_get (hr_ctx s) k = hm_get ?b k"
    by (simp_all add: context_get_def)
  show ?thesis using assms(4,5) wf
    by (auto simp: context_get_apply_updates u l g direct_updates_get removed_keys_set split: option.splits)
qed simp

text \<open>
  Property C14. Running a handler on an isolated copy of the context is transparent and safe: when it
  succeeds and the engine accepts its updates, the context has, for every key that is not reserved,
  what the handler left there overridden by the updates it returned, and for every reserved key what it
  had before the handler ran.
\<close>

theorem handler_isolation:
  assumes "execute_configured h n r x g s = (Inr out', s')" "dispatch_configured h n r x g s = (Inr out, run)"
    and "apply_handler_updates i out' t = (Inr (), t')" "rs_ctx t = hr_ctx s'"
    and "hm_wf (ctx_values (hr_ctx s))" "hm_wf (ctx_values (hr_ctx run))" "hm_wf (context_updates out)"
  shows "context_get (rs_ctx t') k =
     (if is_reserved_key k then context_get (hr_ctx s) k
      else context_get (context_apply_updates (context_updates out) (hr_ctx run)) k)"
proof -
  have "sort (filter is_reserved_key (hm_keys (context_updates out'))) = []"
    using assms(3) by (auto simp: apply_handler_updates_def fail_def split: list.splits)
  then have none: "filter is_reserved_key (hm_keys (context_updates out')) = []" by (metis set_empty set_sort)
  have t': "rs_ctx t' = context_apply_updates (context_updates out') (hr_ctx s')"
    using assms(3,4) none by (auto simp: apply_handler_updates_def set_ctx_def)
  have c: "context_get (rs_ctx t') k =
     (if is_reserved_key k \<and> context_get (hr_ctx run) k = None
      then or_else (hm_get (context_updates out) k) (context_get (hr_ctx s) k)
      else context_get (context_apply_updates (context_updates out) (hr_ctx run)) k)"
    unfolding t' using assms by (intro execute_configured_context)
  show ?thesis
  proof (cases "is_reserved_key k")
    case False
    with c show ?thesis by simp
  next
    case True
    have wf': "hm_wf (context_updates out')"
      using assms(1) by (cases rule: execute_configured_cases) (use assms(2,6) in \<open>auto simp: direct_updates_def\<close>)
    have "context_get (hr_ctx s') k = context_get (hr_ctx s) k"
      using assms(1)
      by (cases rule: execute_configured_cases) (use True assms(5) in \<open>auto simp: remove_keys_get removed_keys_set\<close>)
    moreover have "hm_get (context_updates out') k = None" using none True by (rule reserved_keys_none)
    ultimately show ?thesis using True wf' by (simp add: t' context_get_apply_updates)
  qed
qed

lemma handler_failure_isolated:
  "execute_configured h n r x g s = (Inl e, s') \<Longrightarrow> hr_ctx s' = hr_ctx s"
  by (erule execute_configured_cases) auto

section \<open>The registry\<close>

type_synonym 'w registry = "'w handler hmap"

definition register :: "'w handler \<Rightarrow> 'w registry \<Rightarrow> 'w registry" where
  "register h reg = hm_insert (hd_type h) h reg"

definition registry_get :: "'w registry \<Rightarrow> str \<Rightarrow> 'w handler option" where
  "registry_get reg t = hm_get reg t"

definition registry_has :: "'w registry \<Rightarrow> str \<Rightarrow> bool" where
  "registry_has reg t \<longleftrightarrow> hm_contains reg t"

definition handler_catalog :: "'w registry \<Rightarrow> str set" where
  "handler_catalog reg = set (hm_keys reg)"

definition handler_capabilities :: "'w registry \<Rightarrow> catalog" where
  "handler_capabilities reg = map (\<lambda>(name, h). (name, hd_provider h \<noteq> None)) reg"

text \<open>
  A registered handler as the engine runs it: with the controls of the run, its folder and the
  engine's sink. What is left of a run that was cut off at its timeout is up to \<open>within\<close>.
\<close>

definition engine_execution :: "run_configuration \<Rightarrow> str option \<Rightarrow> handler_execution" where
  "engine_execution cfg run_dir = \<lparr>hx_config = rc_controls cfg, hx_run_dir = run_dir, hx_events = True\<rparr>"

definition engine_handler ::
  "run_configuration \<Rightarrow> str option
   \<Rightarrow> (nat \<Rightarrow> (outcome result \<times> 'w handler_run) \<Rightarrow> 'w handler_run \<Rightarrow> outcome result option \<times> 'w handler_run)
   \<Rightarrow> 'w handler \<Rightarrow> 'w node_handler" where
  "engine_handler cfg run_dir within h =
     (let run = (\<lambda>n r c w. execute_configured h n r (engine_execution cfg run_dir) (pl_graph (rc_plan cfg))
            \<lparr>hr_ctx = c, hr_events = [], hr_world = w\<rparr>)
      in \<lparr>nh_resumes_interrupted = hd_resumes h, nh_execute = run,
          nh_execute_within = \<lambda>t n r c w. within t (run n r c w) \<lparr>hr_ctx = c, hr_events = [], hr_world = w\<rparr>\<rparr>)"

definition engine_handlers ::
  "run_configuration \<Rightarrow> str option
   \<Rightarrow> (nat \<Rightarrow> (outcome result \<times> 'w handler_run) \<Rightarrow> 'w handler_run \<Rightarrow> outcome result option \<times> 'w handler_run)
   \<Rightarrow> 'w registry \<Rightarrow> str \<Rightarrow> 'w node_handler option" where
  "engine_handlers cfg run_dir within reg t = map_option (engine_handler cfg run_dir within) (registry_get reg t)"

text \<open>\<open>resolve_type\<close>, the classification of raw nodes kept for older callers.\<close>

definition resolve_type :: "pipeline_node \<Rightarrow> str" where
  "resolve_type n =
     (case pn_type n of
        Some t \<Rightarrow> if t = ''conditional'' \<and> pn_prompt n \<noteq> None then ''codergen'' else t
      | None \<Rightarrow>
          (let sh = pn_shape n
           in if sh = ''Mdiamond'' then ''start''
              else if sh = ''Msquare'' then ''exit''
              else if sh = ''diamond'' then (if pn_prompt n \<noteq> None then ''codergen'' else ''conditional'')
              else if sh = ''hexagon'' then ''wait.human''
              else if sh = ''parallelogram'' then ''tool''
              else if sh = ''component'' then ''parallel''
              else if sh = ''tripleoctagon'' then ''parallel.fan_in''
              else if sh = ''house'' then ''stack.manager_loop''
              else ''codergen''))"

section \<open>Handlers without I/O\<close>

definition plain_handler :: "str \<Rightarrow> (pipeline_node \<Rightarrow> pipeline_graph \<Rightarrow> outcome) \<Rightarrow> 'w handler" where
  "plain_handler t f =
     \<lparr>hd_type = t, hd_provider = None, hd_resolved = None, hd_resumes = False,
      hd_execute = \<lambda>n g. hret (f n g)\<rparr>"

definition start_handler :: "'w handler" where
  "start_handler = plain_handler ''start'' (\<lambda>_ _. outcome_success ''Pipeline started'')"

definition exit_handler :: "'w handler" where
  "exit_handler = plain_handler ''exit'' (\<lambda>_ _. outcome_success ''Pipeline completed'')"

definition conditional_handler :: "'w handler" where
  "conditional_handler = plain_handler ''conditional'' (\<lambda>_ _. outcome_success ''Conditional pass-through'')"

definition parallel_outcome :: "pipeline_node \<Rightarrow> pipeline_graph \<Rightarrow> outcome" where
  "parallel_outcome n g =
     (outcome_success (''Fan-out to '' @ show_nat (length (outgoing_edges g (pn_id n))) @ '' branches''))
       \<lparr>suggested_next_ids := map pe_to (outgoing_edges g (pn_id n))\<rparr>"

definition parallel_handler :: "'w handler" where
  "parallel_handler = plain_handler ''parallel'' parallel_outcome"

definition fan_in_handler :: "'w handler" where
  "fan_in_handler = plain_handler ''parallel.fan_in'' (\<lambda>_ _. outcome_success ''Fan-in merge completed'')"

definition manager_outcome :: "pipeline_node \<Rightarrow> pipeline_graph \<Rightarrow> outcome" where
  "manager_outcome n g =
     (outcome_success (''Manager completed: '' @ (case pn_prompt n of Some p \<Rightarrow> p | None \<Rightarrow> ''Supervise sub-tasks'')))
       \<lparr>context_updates := [(pn_id n @ ''.managed'', JBool True)]\<rparr>"

definition manager_loop_handler :: "'w handler" where
  "manager_loop_handler = plain_handler ''stack.manager_loop'' manager_outcome"

lemma plain_handler_type [simp]: "hd_type (plain_handler t f) = t" "hd_provider (plain_handler t f) = None"
  by (simp_all add: plain_handler_def)

end
