(* ===== verification/Host.thy ===== *)
theory Host
  imports Handler_Dispatch
begin

text \<open>
  What handlers do outside the program: processes and files, as functions on the world, and the two
  programs the handlers call, Git (\<open>run_commits.rs\<close>) and Beads (\<open>beads_adapter.rs\<close>), down to their
  command lines and the readers of their output.
\<close>

section \<open>Text from bytes\<close>

text \<open>
  \<open>String::from_utf8_lossy\<close>: a character is kept, the longest prefix that could begin one is replaced
  by U+FFFD. \<open>utf8_step\<close> says whether the bytes begin with a character, and how many bytes to take.
\<close>

definition byte_in :: "int \<Rightarrow> int \<Rightarrow> str \<Rightarrow> nat \<Rightarrow> bool" where
  "byte_in lo hi s i \<longleftrightarrow> i < length s \<and> lo \<le> byte (s ! i) \<and> byte (s ! i) \<le> hi"

definition utf8_step :: "str \<Rightarrow> bool \<times> nat" where
  "utf8_step s =
     (let b = byte (hd s); cont = byte_in 128 191 s;
          lo3 = (if b = 224 then 160 else 128); hi3 = (if b = 237 then 159 else 191);
          lo4 = (if b = 240 then 144 else 128); hi4 = (if b = 244 then 143 else 191)
      in if b < 128 then (True, 1)
         else if 194 \<le> b \<and> b \<le> 223 then (if cont 1 then (True, 2) else (False, 1))
         else if 224 \<le> b \<and> b \<le> 239
         then (if \<not> byte_in lo3 hi3 s 1 then (False, 1) else if cont 2 then (True, 3) else (False, 2))
         else if 240 \<le> b \<and> b \<le> 244
         then (if \<not> byte_in lo4 hi4 s 1 then (False, 1) else if \<not> cont 2 then (False, 2)
               else if cont 3 then (True, 4) else (False, 3))
         else (False, 1))"

definition replacement_char :: str where
  "replacement_char = map char_of [239, 191, 189 :: nat]"

lemma utf8_step_pos: "0 < snd (utf8_step s)"
  by (simp add: utf8_step_def Let_def)

function utf8_lossy :: "str \<Rightarrow> str" where
  "utf8_lossy [] = []"
| "utf8_lossy (c # s) =
     (let (ok, n) = utf8_step (c # s)
      in (if ok then take n (c # s) else replacement_char) @ utf8_lossy (drop n (c # s)))"
  by pat_completeness auto
termination
proof (relation "measure length")
  show "((drop n (c # s)), c # s) \<in> measure length" if "x = utf8_step (c # s)" "(ok, n) = x" for x ok n and c :: char and s
    using utf8_step_pos [of "c # s"] that by (metis (no_types, lifting) diff_less in_measure length_drop length_greater_0_conv list.distinct(1) snd_conv)
qed simp

lemma utf8_lossy_ascii: "ascii_text s \<Longrightarrow> utf8_lossy s = s"
proof (induction s)
  case (Cons c s)
  then have "byte c < 128" "ascii_text s" by (simp_all add: ascii_text_def)
  then show ?case using Cons.IH by (simp add: utf8_step_def)
qed simp

section \<open>Processes and files\<close>

record command =
  cm_program :: str
  cm_args :: "str list"
  cm_dir :: "str option"
  cm_envs :: "(str \<times> str) list"
  cm_clear_env :: bool

text \<open>
  How a process ended: it could not be run (\<open>NotFound\<close> or another error), or it exited with a code
  (none when a signal ended it), the text of its status, its output and its error output.
\<close>

datatype process_result =
    ProcessError bool str
  | Exited "int option" str str str

text \<open>
  A process with a time limit, in nanoseconds, whose output and error output are captured: it could not be
  started, waiting for it failed, it exited, or it was killed at the limit.
\<close>

datatype limited_result =
    SpawnFailed str
  | WaitFailed str
  | Ended "int option" str str
  | TimedOut str str

record 'w host =
  ho_output :: "command \<Rightarrow> 'w \<Rightarrow> process_result \<times> 'w"
  ho_within :: "command \<Rightarrow> nat \<Rightarrow> 'w \<Rightarrow> limited_result \<times> 'w"
  ho_read :: "path \<Rightarrow> 'w \<Rightarrow> io_error + str"
  ho_mkdirs :: "path \<Rightarrow> 'w \<Rightarrow> str option \<times> 'w"
  ho_write :: "path \<Rightarrow> str \<Rightarrow> 'w \<Rightarrow> str option \<times> 'w"
  ho_codec :: journal_codec
  ho_json :: "str \<Rightarrow> str + json"
  ho_shape :: "json \<Rightarrow> str"
  ho_quote :: "str list \<Rightarrow> str option"
  ho_debug :: "str \<Rightarrow> str"
  ho_fmt :: "f64 \<Rightarrow> str"
  ho_io_text :: "io_error \<Rightarrow> str"
  ho_order :: "str hmap \<Rightarrow> str hmap"

text \<open>The same host with a record of the commands it was asked to run.\<close>

definition recorded :: "'w host \<Rightarrow> (command list \<times> 'w) host" where
  "recorded H =
     \<lparr>ho_output = \<lambda>c (log, w). (let (r, w') = ho_output H c w in (r, (log @ [c], w'))),
      ho_within = \<lambda>c t (log, w). (let (r, w') = ho_within H c t w in (r, (log @ [c], w'))),
      ho_read = \<lambda>p (log, w). ho_read H p w,
      ho_mkdirs = \<lambda>p (log, w). (let (r, w') = ho_mkdirs H p w in (r, (log, w'))),
      ho_write = \<lambda>p t (log, w). (let (r, w') = ho_write H p t w in (r, (log, w'))),
      ho_codec = ho_codec H, ho_json = ho_json H, ho_shape = ho_shape H, ho_quote = ho_quote H,
      ho_debug = ho_debug H, ho_fmt = ho_fmt H, ho_io_text = ho_io_text H, ho_order = ho_order H\<rparr>"

lemma recorded_output:
  "ho_output (recorded H) c w = (r, w') \<Longrightarrow> fst w' = fst w @ [c]"
  by (cases w) (auto simp: recorded_def split: prod.splits)

lemma recorded_within:
  "ho_within (recorded H) c t w = (r, w') \<Longrightarrow> fst w' = fst w @ [c]"
  by (cases w) (auto simp: recorded_def split: prod.splits)

definition exited_ok :: "int option \<Rightarrow> bool" where
  "exited_ok code \<longleftrightarrow> code = Some 0"

section \<open>Calls and events of a handler\<close>

text \<open>A call on the world whose error becomes the handler's.\<close>

definition hcall :: "('e \<Rightarrow> error) \<Rightarrow> ('w \<Rightarrow> ('e + 'a) \<times> 'w) \<Rightarrow> ('w, 'a) hact" where
  "hcall f m s =
     (let (r, w) = m (hr_world s)
      in (case r of Inl e \<Rightarrow> Inl (f e) | Inr x \<Rightarrow> Inr x, s\<lparr>hr_world := w\<rparr>))"

fun none_ok :: "'e option \<Rightarrow> 'e + unit" where
  "none_ok None = Inr ()"
| "none_ok (Some e) = Inl e"

lemma hcall_Inr:
  "hcall f m s = (Inr x, s') \<longleftrightarrow> (\<exists>w. m (hr_world s) = (Inr x, w) \<and> s' = s\<lparr>hr_world := w\<rparr>)"
  by (auto simp: hcall_def split: prod.splits sum.splits)

lemma hcall_Inl:
  "hcall f m s = (Inl e, s') \<longleftrightarrow> (\<exists>e' w. m (hr_world s) = (Inl e', w) \<and> e = f e' \<and> s' = s\<lparr>hr_world := w\<rparr>)"
  by (auto simp: hcall_def split: prod.splits sum.splits)

lemma none_ok_Inr: "map_prod none_ok id p = (Inr x, w) \<longleftrightarrow> p = (None, w)"
  by (cases p; cases "fst p") auto

definition told :: "bool \<Rightarrow> pipeline_event list \<Rightarrow> pipeline_event list" where
  "told sink evs = (if sink then evs else [])"

lemma told_append [simp]: "told sink (a @ b) = told sink a @ told sink b" "told sink [] = []"
  by (simp_all add: told_def)

lemma hworld_Inr: "hworld f s = (Inr x, s') \<longleftrightarrow> (\<exists>w. f (hr_world s) = (x, w) \<and> s' = s\<lparr>hr_world := w\<rparr>)"
  by (auto simp: hworld_def split: prod.splits)

lemma hworld_Inl [simp]: "hworld f s \<noteq> (Inl e, s')"
  by (auto simp: hworld_def split: prod.splits)

section \<open>Git\<close>

definition git :: "str \<Rightarrow> str list \<Rightarrow> command" where
  "git workdir args =
     \<lparr>cm_program = ''git'', cm_args = [''-C'', workdir] @ args, cm_dir = None, cm_envs = [], cm_clear_env = False\<rparr>"

text \<open>\<open>head\<close> and \<open>upstream\<close>: the trimmed output of a command that succeeded, if it is not empty.\<close>

definition git_name :: "'w host \<Rightarrow> str \<Rightarrow> str list \<Rightarrow> 'w \<Rightarrow> str option \<times> 'w" where
  "git_name H workdir args w =
     (let (res, w') = ho_output H (git workdir args) w
      in (case res of
            Exited code _ out _ \<Rightarrow>
              if exited_ok code \<and> trim (utf8_lossy out) \<noteq> [] then Some (trim (utf8_lossy out)) else None
          | ProcessError _ _ \<Rightarrow> None, w'))"

definition git_head :: "'w host \<Rightarrow> str \<Rightarrow> 'w \<Rightarrow> str option \<times> 'w" where
  "git_head H workdir = git_name H workdir [''rev-parse'', ''--verify'', ''--quiet'', ''HEAD'']"

definition git_upstream :: "'w host \<Rightarrow> str \<Rightarrow> 'w \<Rightarrow> str option \<times> 'w" where
  "git_upstream H workdir =
     git_name H workdir [''rev-parse'', ''--abbrev-ref'', ''--symbolic-full-name'', ''@'' @ ''{upstream}'']"

definition NUL :: str where "NUL = [CHR 0x00]"

text \<open>\<open>str::lines\<close>: an empty last line is not a line, a carriage return before the newline is dropped.\<close>

definition strip_cr :: "str \<Rightarrow> str" where
  "strip_cr l = (if l \<noteq> [] \<and> last l = CHR 0x0D then butlast l else l)"

definition str_lines :: "str \<Rightarrow> str list" where
  "str_lines s =
     (let ls = split_lines s
      in map strip_cr (butlast ls) @ (if last ls = [] then [] else [last ls]))"

fun commit_of_fields :: "str list \<Rightarrow> commit_ref option" where
  "commit_of_fields [sha, subject, author, ts] =
     (if sha = [] then None
      else Some \<lparr>cr_sha = sha, cr_subject = subject, cr_author = author, cr_ts = ts\<rparr>)"
| "commit_of_fields _ = None"

definition parse_log :: "str \<Rightarrow> commit_ref list" where
  "parse_log out = List.map_filter (\<lambda>l. commit_of_fields (split_on NUL l)) (str_lines out)"

definition commits_between :: "'w host \<Rightarrow> str \<Rightarrow> str \<Rightarrow> str \<Rightarrow> 'w \<Rightarrow> (str + commit_ref list) \<times> 'w" where
  "commits_between H workdir b a w =
     (let (res, w') = ho_output H (git workdir
            [''log'', ''--no-show-signature'', ''--no-color'', ''--format=%H%x00%s%x00%an%x00%cI'',
             b @ ''..'' @ a, ''--'']) w
      in (case res of
            ProcessError _ e \<Rightarrow> Inl e
          | Exited code st out _ \<Rightarrow>
              if exited_ok code then Inr (parse_log (utf8_lossy out))
              else Inl (''git log '' @ b @ ''..'' @ a @ '' exited with '' @ st), w'))"

definition is_ancestor :: "'w host \<Rightarrow> str \<Rightarrow> str \<Rightarrow> str \<Rightarrow> 'w \<Rightarrow> (str + bool) \<times> 'w" where
  "is_ancestor H workdir sha rv w =
     (let (res, w') = ho_output H (git workdir [''merge-base'', ''--is-ancestor'', sha, rv]) w
      in (case res of
            ProcessError _ e \<Rightarrow> Inl e
          | Exited code st _ _ \<Rightarrow>
              if code = Some 0 then Inr True
              else if code = Some 1 then Inr False
              else Inl (''git merge-base --is-ancestor '' @ sha @ '' '' @ rv @ '' exited with '' @ st), w'))"

section \<open>Beads\<close>

record beads_dependency =
  bp_depends_on :: str
  bp_type :: str

record beads_issue =
  bi_id :: str
  bi_title :: str
  bi_status :: str
  bi_priority :: "int option"
  bi_issue_type :: "str option"
  bi_description :: "str option"
  bi_acceptance :: "str option"
  bi_design :: "str option"
  bi_notes :: "str option"
  bi_parent :: "str option"
  bi_assignee :: "str option"
  bi_close_reason :: "str option"
  bi_dependencies :: "beads_dependency list"

record new_issue =
  ni_title :: str
  ni_type :: str
  ni_priority :: "str option"
  ni_description :: str
  ni_acceptance :: "str option"
  ni_design :: "str option"
  ni_notes :: "str option"
  ni_parent :: "str option"

datatype beads_error =
    BdNotFound str
  | CommandFailed str str str
  | BeadsIo str str
  | InvalidOutput str str

fun beads_error_display :: "beads_error \<Rightarrow> str" where
  "beads_error_display (BdNotFound p) =
     ''bd not found: could not run `'' @ p @ ''` (is beads installed and on PATH?)''"
| "beads_error_display (CommandFailed c st err) = ''`'' @ c @ ''` exited with '' @ st @ '': '' @ err"
| "beads_error_display (BeadsIo c e) = ''failed to run `'' @ c @ ''`: '' @ e"
| "beads_error_display (InvalidOutput c m) = ''could not parse output of `'' @ c @ ''`: '' @ m"

text \<open>The derived readers. The dependency takes two names for each of its fields.\<close>

definition dec_int :: "int \<Rightarrow> int \<Rightarrow> json \<Rightarrow> int option" where
  "dec_int lo hi j = (case j of JInt i \<Rightarrow> if lo \<le> i \<and> i \<le> hi then Some i else None | _ \<Rightarrow> None)"

definition dependency_alias :: "str \<Rightarrow> str" where
  "dependency_alias k =
     (if k = ''id'' then ''depends_on_id'' else if k = ''dependency_type'' then ''type'' else k)"

fun rename_keys :: "json \<Rightarrow> json" where
  "rename_keys (JObj kvs) = JObj (map (\<lambda>(k, v). (dependency_alias k, v)) kvs)"
| "rename_keys j = j"

definition dec_dependency :: "json \<Rightarrow> beads_dependency option" where
  "dec_dependency j = do {
     f \<leftarrow> struct_fields [''depends_on_id'', ''type''] (rename_keys j);
     d \<leftarrow> required f ''depends_on_id'' json_as_str;
     t \<leftarrow> defaulted f ''type'' [] json_as_str;
     Some \<lparr>bp_depends_on = d, bp_type = t\<rparr>
   }"

definition dec_issue :: "json \<Rightarrow> beads_issue option" where
  "dec_issue j = do {
     f \<leftarrow> struct_fields [''id'', ''title'', ''status'', ''priority'', ''issue_type'', ''description'',
       ''acceptance_criteria'', ''design'', ''notes'', ''parent'', ''assignee'', ''close_reason'', ''dependencies''] j;
     i \<leftarrow> required f ''id'' json_as_str;
     t \<leftarrow> required f ''title'' json_as_str;
     s \<leftarrow> required f ''status'' json_as_str;
     p \<leftarrow> optional f ''priority'' (dec_int i64_min i64_max);
     ty \<leftarrow> optional f ''issue_type'' json_as_str;
     d \<leftarrow> optional f ''description'' json_as_str;
     a \<leftarrow> optional f ''acceptance_criteria'' json_as_str;
     de \<leftarrow> optional f ''design'' json_as_str;
     n \<leftarrow> optional f ''notes'' json_as_str;
     pa \<leftarrow> optional f ''parent'' json_as_str;
     asg \<leftarrow> optional f ''assignee'' json_as_str;
     cr \<leftarrow> optional f ''close_reason'' json_as_str;
     deps \<leftarrow> defaulted f ''dependencies'' [] (dec_list dec_dependency);
     Some \<lparr>bi_id = i, bi_title = t, bi_status = s, bi_priority = p, bi_issue_type = ty, bi_description = d,
       bi_acceptance = a, bi_design = de, bi_notes = n, bi_parent = pa, bi_assignee = asg, bi_close_reason = cr,
       bi_dependencies = deps\<rparr>
   }"

definition dec_created :: "json \<Rightarrow> str option" where
  "dec_created j = do {
     f \<leftarrow> struct_fields [''id''] j;
     required f ''id'' json_as_str
   }"

definition BD_PROGRAM :: str where "BD_PROGRAM = ''bd''"

text \<open>\<open>bd_on_path\<close>: \<open>exec\<close> tells which paths are executable files.\<close>

definition bd_on_path :: "(path \<Rightarrow> bool) \<Rightarrow> str option \<Rightarrow> bool" where
  "bd_on_path exec p =
     (case p of None \<Rightarrow> False
      | Some s \<Rightarrow> list_ex (\<lambda>d. exec (join_name (path_of d) BD_PROGRAM)) (split_on '':'' s))"

record beads_adapter =
  ba_program :: str
  ba_workdir :: "str option"
  ba_envs :: "(str \<times> str) list"

definition adapter_new :: beads_adapter where
  "adapter_new = \<lparr>ba_program = BD_PROGRAM, ba_workdir = None, ba_envs = []\<rparr>"

definition in_dir :: "str \<Rightarrow> beads_adapter \<Rightarrow> beads_adapter" where
  "in_dir d a = a\<lparr>ba_workdir := Some d\<rparr>"

definition with_program :: "str \<Rightarrow> beads_adapter \<Rightarrow> beads_adapter" where
  "with_program p a = a\<lparr>ba_program := p\<rparr>"

definition with_env :: "str \<Rightarrow> str \<Rightarrow> beads_adapter \<Rightarrow> beads_adapter" where
  "with_env k v a = a\<lparr>ba_envs := ba_envs a @ [(k, v)]\<rparr>"

definition command_line :: "'w host \<Rightarrow> beads_adapter \<Rightarrow> str list \<Rightarrow> str" where
  "command_line H a args =
     (case ho_quote H (ba_program a # args) of
        Some s \<Rightarrow> s
      | None \<Rightarrow> join '' '' (ba_program a # args))"

definition bd_command :: "beads_adapter \<Rightarrow> str list \<Rightarrow> command" where
  "bd_command a args =
     \<lparr>cm_program = ba_program a, cm_args = args, cm_dir = ba_workdir a, cm_envs = ba_envs a, cm_clear_env = False\<rparr>"

definition bd_run :: "'w host \<Rightarrow> beads_adapter \<Rightarrow> str list \<Rightarrow> 'w \<Rightarrow> (beads_error + str) \<times> 'w" where
  "bd_run H a args w =
     (let (res, w') = ho_output H (bd_command a args) w
      in (case res of
            ProcessError missing e \<Rightarrow>
              Inl (if missing then BdNotFound (ba_program a) else BeadsIo (command_line H a args) e)
          | Exited code st out err \<Rightarrow>
              if exited_ok code then Inr out
              else Inl (CommandFailed (command_line H a args) st
                (if trim (utf8_lossy err) = [] then trim (utf8_lossy out) else trim (utf8_lossy err))), w'))"

definition bd_json :: "'w host \<Rightarrow> beads_adapter \<Rightarrow> (json \<Rightarrow> 'a option) \<Rightarrow> str list \<Rightarrow> 'w \<Rightarrow> (beads_error + 'a) \<times> 'w" where
  "bd_json H a dec args w =
     (let (res, w') = bd_run H a args w
      in (rbind res (\<lambda>out.
            case ho_json H out of
              Inl e \<Rightarrow> Inl (InvalidOutput (command_line H a args) e)
            | Inr j \<Rightarrow> (case dec j of
                  None \<Rightarrow> Inl (InvalidOutput (command_line H a args) (ho_shape H j))
                | Some x \<Rightarrow> Inr x)), w'))"

definition bd_single :: "'w host \<Rightarrow> beads_adapter \<Rightarrow> str list \<Rightarrow> 'w \<Rightarrow> (beads_error + beads_issue) \<times> 'w" where
  "bd_single H a args w =
     (let (res, w') = bd_json H a (dec_list dec_issue) args w
      in (rbind res (\<lambda>issues. case issues of
            [] \<Rightarrow> Inl (InvalidOutput (command_line H a args) ''expected one issue, got an empty array'')
          | i # _ \<Rightarrow> Inr i), w'))"

definition init_args :: "str \<Rightarrow> str list" where
  "init_args prefix =
     [''init'', ''--prefix'', prefix, ''--quiet'', ''--skip-agents'', ''--skip-hooks'', ''--non-interactive'']"

definition show_args :: "str \<Rightarrow> str list" where "show_args i = [''show'', i, ''--json'']"
definition children_args :: "str \<Rightarrow> str list" where "children_args p = [''children'', p, ''--json'']"
definition ready_args :: "str list" where "ready_args = [''ready'', ''--json'', ''--limit'', ''0'']"
definition claim_args :: "str \<Rightarrow> str list" where "claim_args i = [''update'', i, ''--claim'', ''--json'']"

definition close_args :: "str \<Rightarrow> str option \<Rightarrow> str list" where
  "close_args i reason =
     [''close'', i] @ (case reason of Some r \<Rightarrow> [''--reason'', r] | None \<Rightarrow> []) @ [''--json'']"

fun flag :: "str \<Rightarrow> str option \<Rightarrow> str list" where
  "flag f None = []"
| "flag f (Some v) = [f, v]"

definition create_args :: "new_issue \<Rightarrow> str list" where
  "create_args i =
     [''create'', ''--title'', ni_title i, ''--type'', ni_type i] @ flag ''--priority'' (ni_priority i) @
     [''--description'', ni_description i] @ flag ''--acceptance'' (ni_acceptance i) @
     flag ''--design'' (ni_design i) @ flag ''--notes'' (ni_notes i) @ flag ''--parent'' (ni_parent i) @ [''--json'']"

definition dep_args :: "str \<Rightarrow> str \<Rightarrow> str list" where
  "dep_args blk blocker = [''dep'', ''add'', blk, blocker, ''--json'']"

definition list_args :: "str \<Rightarrow> str list" where
  "list_args p = [''list'', ''--parent'', p, ''--json'', ''--limit'', ''0'']"

fun unit_result :: "'e + 'a \<Rightarrow> 'e + unit" where
  "unit_result (Inl e) = Inl e"
| "unit_result (Inr _) = Inr ()"

definition bd_init :: "'w host \<Rightarrow> beads_adapter \<Rightarrow> str \<Rightarrow> 'w \<Rightarrow> (beads_error + unit) \<times> 'w" where
  "bd_init H a prefix w = map_prod unit_result id (bd_run H a (init_args prefix) w)"

definition bd_show :: "'w host \<Rightarrow> beads_adapter \<Rightarrow> str \<Rightarrow> 'w \<Rightarrow> (beads_error + beads_issue) \<times> 'w" where
  "bd_show H a i = bd_single H a (show_args i)"

definition bd_children :: "'w host \<Rightarrow> beads_adapter \<Rightarrow> str \<Rightarrow> 'w \<Rightarrow> (beads_error + beads_issue list) \<times> 'w" where
  "bd_children H a p = bd_json H a (dec_list dec_issue) (children_args p)"

definition bd_ready :: "'w host \<Rightarrow> beads_adapter \<Rightarrow> 'w \<Rightarrow> (beads_error + beads_issue list) \<times> 'w" where
  "bd_ready H a = bd_json H a (dec_list dec_issue) ready_args"

definition bd_claim :: "'w host \<Rightarrow> beads_adapter \<Rightarrow> str \<Rightarrow> 'w \<Rightarrow> (beads_error + beads_issue) \<times> 'w" where
  "bd_claim H a i = bd_single H a (claim_args i)"

definition bd_close :: "'w host \<Rightarrow> beads_adapter \<Rightarrow> str \<Rightarrow> str option \<Rightarrow> 'w \<Rightarrow> (beads_error + beads_issue) \<times> 'w" where
  "bd_close H a i reason = bd_single H a (close_args i reason)"

definition bd_create :: "'w host \<Rightarrow> beads_adapter \<Rightarrow> new_issue \<Rightarrow> 'w \<Rightarrow> (beads_error + str) \<times> 'w" where
  "bd_create H a i = bd_json H a dec_created (create_args i)"

definition bd_add_dependency :: "'w host \<Rightarrow> beads_adapter \<Rightarrow> str \<Rightarrow> str \<Rightarrow> 'w \<Rightarrow> (beads_error + unit) \<times> 'w" where
  "bd_add_dependency H a blk blocker w = map_prod unit_result id (bd_run H a (dep_args blk blocker) w)"

definition bd_list_open_children :: "'w host \<Rightarrow> beads_adapter \<Rightarrow> str \<Rightarrow> 'w \<Rightarrow> (beads_error + beads_issue list) \<times> 'w" where
  "bd_list_open_children H a p = bd_json H a (dec_list dec_issue) (list_args p)"

end
