(* ===== verification/Natural_Order.thy ===== *)
theory Natural_Order
  imports Prelude "HOL-Library.Product_Lexorder"
begin

text \<open>
  Comparison functions, \<open>slice::sort_by\<close> and the natural order of ids (\<open>natural_cmp\<close> of
  \<open>handlers/beads.rs\<close>), with the key it is the order of.
\<close>

section \<open>Comparisons\<close>

datatype ordering = OLess | OEqual | OGreater

definition compare :: "'a::linorder \<Rightarrow> 'a \<Rightarrow> ordering" where
  "compare x y = (if x < y then OLess else if x = y then OEqual else OGreater)"

fun then_with :: "ordering \<Rightarrow> ordering \<Rightarrow> ordering" where
  "then_with OEqual o2 = o2"
| "then_with o1 _ = o1"

text \<open>\<open>slice::sort_by\<close> is a stable sort.\<close>

fun insert_by :: "('a \<Rightarrow> 'a \<Rightarrow> ordering) \<Rightarrow> 'a \<Rightarrow> 'a list \<Rightarrow> 'a list" where
  "insert_by c x [] = [x]"
| "insert_by c x (y # ys) = (if c x y = OGreater then y # insert_by c x ys else x # y # ys)"

definition sort_by :: "('a \<Rightarrow> 'a \<Rightarrow> ordering) \<Rightarrow> 'a list \<Rightarrow> 'a list" where
  "sort_by c xs = foldr (insert_by c) xs []"

lemma sort_by_key:
  assumes "\<And>x y. c x y = compare (k x) (k y)"
  shows "sort_by c xs = sort_key k xs"
proof -
  have "insert_by c x ys = insort_key k x ys" for x ys
    by (induction ys) (auto simp: assms compare_def split: if_splits)
  then have "insert_by c = insort_key k" by (intro ext)
  then show ?thesis by (simp add: sort_by_def sort_key_def)
qed

lemma compare_pair: "compare (a, b) (c, d) = then_with (compare a c) (compare b d)"
  by (auto simp: compare_def)

section \<open>Natural order of ids\<close>

text \<open>The maximal runs of digits and of other bytes.\<close>

function chunks :: "str \<Rightarrow> (bool \<times> str) list" where
  "chunks [] = []"
| "chunks (c # s) =
     (is_digit c, takeWhile (\<lambda>x. is_digit x = is_digit c) (c # s)) #
     chunks (dropWhile (\<lambda>x. is_digit x = is_digit c) s)"
  by pat_completeness auto
termination by (relation "measure length") (auto simp: le_imp_less_Suc length_dropWhile_le)

definition trim_start_zeros :: "str \<Rightarrow> str" where
  "trim_start_zeros s = dropWhile (\<lambda>c. c = CHR ''0'') s"

definition chunk_cmp :: "bool \<times> str \<Rightarrow> bool \<times> str \<Rightarrow> ordering" where
  "chunk_cmp a b =
     (if fst a \<and> fst b
      then then_with (compare (length (trim_start_zeros (snd a))) (length (trim_start_zeros (snd b))))
             (compare (trim_start_zeros (snd a)) (trim_start_zeros (snd b)))
      else compare (snd a) (snd b))"

fun zip_cmp :: "(bool \<times> str) list \<Rightarrow> (bool \<times> str) list \<Rightarrow> ordering" where
  "zip_cmp (x # xs) (y # ys) = then_with (chunk_cmp x y) (zip_cmp xs ys)"
| "zip_cmp [] _ = OEqual"
| "zip_cmp _ [] = OEqual"

definition natural_cmp :: "str \<Rightarrow> str \<Rightarrow> ordering" where
  "natural_cmp a b =
     then_with (zip_cmp (chunks a) (chunks b))
       (then_with (compare (length (chunks a)) (length (chunks b))) (compare a b))"

text \<open>
  The order is that of a key: a run of digits counts as a number; another run comes before all
  numbers or after all of them by its first byte.
\<close>

definition chunk_key :: "bool \<times> str \<Rightarrow> nat \<times> nat \<times> str" where
  "chunk_key p =
     (if fst p then (1, length (trim_start_zeros (snd p)), trim_start_zeros (snd p))
      else (if hd (snd p) < CHR ''0'' then 0 else 2, 0, snd p))"

definition natural_key :: "str \<Rightarrow> (nat \<times> nat \<times> str) list \<times> str" where
  "natural_key s = (map chunk_key (chunks s), s)"

definition chunk_ok :: "bool \<times> str \<Rightarrow> bool" where
  "chunk_ok p \<longleftrightarrow> snd p \<noteq> [] \<and> list_all (\<lambda>c. is_digit c = fst p) (snd p)"

lemma chunks_ok: "list_all chunk_ok (chunks s)"
proof (induction s rule: chunks.induct)
  case (2 c s)
  have "chunk_ok (is_digit c, takeWhile (\<lambda>x. is_digit x = is_digit c) (c # s))"
    by (auto simp: chunk_ok_def list_all_iff simp del: takeWhile.simps dest: set_takeWhileD) simp
  then show ?case using 2 by simp
qed simp

lemma digit_between: "is_digit c \<longleftrightarrow> CHR ''0'' \<le> c \<and> c \<le> CHR ''9''"
proof -
  have "(of_char c :: int) = int (of_char c)" by (simp add: of_nat_of_char)
  then show ?thesis by (simp only: is_digit_def less_eq_char_def) simp
qed

lemma mixed_cmp:
  assumes "chunk_ok (True, d)" "chunk_ok (False, x)"
  shows "compare d x = (if hd x < CHR ''0'' then OGreater else OLess)"
    "compare x d = (if hd x < CHR ''0'' then OLess else OGreater)"
proof -
  obtain c d' y x' where l: "d = c # d'" "x = y # x'" "is_digit c" "\<not> is_digit y"
    using assms by (cases d; cases x) (auto simp: chunk_ok_def)
  have "if y < CHR ''0'' then y < c else c < y"
    using l(3,4) unfolding digit_between by auto
  then show "compare d x = (if hd x < CHR ''0'' then OGreater else OLess)"
    "compare x d = (if hd x < CHR ''0'' then OLess else OGreater)"
    by (auto simp: l compare_def split: if_splits)
qed

lemma chunk_cmp_key: "chunk_ok p \<Longrightarrow> chunk_ok q \<Longrightarrow> chunk_cmp p q = compare (chunk_key p) (chunk_key q)"
proof -
  assume a: "chunk_ok p" "chunk_ok q"
  obtain dp p' dq q' where e: "p = (dp, p')" "q = (dq, q')" by (cases p; cases q)
  have plain: "compare p' q' = compare (chunk_key (False, p')) (chunk_key (False, q'))"
    if "chunk_ok (False, p')" "chunk_ok (False, q')"
    using that by (cases p'; cases q') (auto simp: chunk_ok_def chunk_key_def compare_pair compare_def)
  show ?thesis
  proof (cases dp; cases dq)
    assume "dp" "dq"
    then show ?thesis by (simp add: e chunk_cmp_def chunk_key_def compare_pair) (simp add: compare_def)
  next
    assume d: "dp" "\<not> dq"
    then show ?thesis using mixed_cmp(1) [of p' q'] a
      by (simp add: e chunk_cmp_def) (simp add: chunk_key_def compare_def)
  next
    assume d: "\<not> dp" "dq"
    then show ?thesis using mixed_cmp(2) [of q' p'] a
      by (simp add: e chunk_cmp_def) (simp add: chunk_key_def compare_def)
  next
    assume d: "\<not> dp" "\<not> dq"
    then show ?thesis using plain a by (simp add: e chunk_cmp_def)
  qed
qed

lemma list_cmp_key:
  "list_all chunk_ok ps \<Longrightarrow> list_all chunk_ok qs \<Longrightarrow>
   then_with (zip_cmp ps qs) (then_with (compare (length ps) (length qs)) r) =
   then_with (compare (map chunk_key ps) (map chunk_key qs)) r"
proof (induction ps qs rule: zip_cmp.induct)
  case (1 x xs y ys)
  then show ?case
    by (auto simp: chunk_cmp_key compare_def split: if_splits)
next
  case (2 qs)
  then show ?case by (cases qs) (auto simp: compare_def)
next
  case (3 x xs)
  then show ?case by (simp add: compare_def)
qed

lemma natural_cmp_key: "natural_cmp a b = compare (natural_key a) (natural_key b)"
  using list_cmp_key [OF chunks_ok chunks_ok] by (simp add: natural_cmp_def natural_key_def compare_pair)

text \<open>Equal numbers of digits compare like their values.\<close>

lemma digit_val_less: "is_digit c \<Longrightarrow> digit_val c < 10"
  unfolding is_digit_def digit_val_def by linarith

lemma digits_val_split: "digits_val acc s = acc * 10 ^ length s + digits_val 0 s"
proof (induction s arbitrary: acc)
  case (Cons c s)
  show ?case using Cons [of "10 * acc + digit_val c"] Cons [of "digit_val c"] by (simp add: algebra_simps)
qed simp

lemma digits_val_bound: "list_all is_digit s \<Longrightarrow> digits_val 0 s < 10 ^ length s"
proof (induction s)
  case (Cons c s)
  then have "digit_val c * 10 ^ length s + digits_val 0 s < (digit_val c + 1) * 10 ^ length s" by simp
  also have "\<dots> \<le> 10 * 10 ^ length s" using digit_val_less [of c] Cons.prems by (intro mult_right_mono) auto
  finally show ?case by (simp add: digits_val_split [of "digit_val c"])
qed simp

lemma digit_val_mono: "is_digit c \<Longrightarrow> is_digit d \<Longrightarrow> c < d \<longleftrightarrow> digit_val c < digit_val d"
proof -
  assume "is_digit c" "is_digit d"
  moreover have "c < d \<longleftrightarrow> byte c < byte d"
  proof -
    have i: "byte x = int (of_char x :: nat)" for x by (simp add: of_nat_of_char)
    show ?thesis unfolding less_char_def i by simp
  qed
  ultimately show ?thesis unfolding is_digit_def digit_val_def by linarith
qed

lemma digit_lists:
  "list_all is_digit s \<Longrightarrow> list_all is_digit t \<Longrightarrow> length s = length t \<Longrightarrow> s < t \<Longrightarrow> digits_val 0 s < digits_val 0 t"
proof (induction s arbitrary: t)
  case (Cons c s)
  then obtain d t' where t: "t = d # t'" by (cases t) auto
  have e: "digits_val 0 (c # s) = digit_val c * 10 ^ length s + digits_val 0 s"
    "digits_val 0 (d # t') = digit_val d * 10 ^ length s + digits_val 0 t'"
    using Cons.prems t digits_val_split [of "digit_val c" s] digits_val_split [of "digit_val d" t'] by simp_all
  show ?case
  proof (cases "c = d")
    case True
    then have "digits_val 0 s < digits_val 0 t'" using Cons t by auto
    then show ?thesis using True unfolding t e by simp
  next
    case False
    then have "digit_val c < digit_val d" using Cons.prems t digit_val_mono [of c d] by auto
    then have "(digit_val c + 1) * 10 ^ length s \<le> digit_val d * 10 ^ length s" by (intro mult_right_mono) auto
    then show ?thesis using digits_val_bound [of s] Cons.prems by (simp only: t e) simp
  qed
qed simp

text \<open>Written numbers compare by length and then as lists.\<close>

lemma digit_val_0: "digit_val (CHR ''0'') = 0"
  by (simp add: digit_val_def)

lemma show_nat_no_zero: "0 < n \<Longrightarrow> hd (show_nat n) \<noteq> CHR ''0''"
proof (induction n rule: show_nat.induct)
  case (1 n)
  show ?case
  proof (cases "n < 10")
    case True
    then have "digit_val (char_of (48 + int n)) = n" by (simp add: digit_val_def del: of_char_of)
    then have "char_of (48 + int n) \<noteq> CHR ''0''" using 1(2) by (metis digit_val_0 less_numeral_extra(3))
    then show ?thesis using True by (simp add: show_nat.simps [of n])
  next
    case False
    then have "hd (show_nat (n div 10)) \<noteq> CHR ''0''" using 1 by simp
    then show ?thesis using False show_nat_digits [of "n div 10"] by (simp add: show_nat.simps [of n])
  qed
qed

definition digits_of :: "nat \<Rightarrow> str" where
  "digits_of n = trim_start_zeros (show_nat n)"

lemma digits_of_pos: "0 < n \<Longrightarrow> digits_of n = show_nat n"
  using show_nat_no_zero [of n] show_nat_digits [of n] by (cases "show_nat n") (auto simp: digits_of_def trim_start_zeros_def)

lemma show_nat_0: "show_nat 0 = ''0''"
  by code_simp

lemma digits_of_0: "digits_of 0 = []"
  by (simp add: digits_of_def trim_start_zeros_def show_nat_0)

lemma digits_of_digits: "list_all is_digit (digits_of n)" "digits_val 0 (digits_of n) = n"
  by (cases "n = 0"; simp add: digits_of_0 digits_of_pos show_nat_digits digits_val_show_nat)+

lemma digits_of_lower: "0 < n \<Longrightarrow> 10 ^ (length (digits_of n) - 1) \<le> n"
proof -
  assume n: "0 < n"
  then obtain c s where e: "digits_of n = c # s" "c \<noteq> CHR ''0''" "list_all is_digit (c # s)"
    using show_nat_no_zero [OF n] show_nat_digits [of n] digits_of_pos [OF n] by (metis list.sel(1) neq_Nil_conv)
  moreover have "0 < digit_val c"
  proof (rule ccontr)
    assume "\<not> 0 < digit_val c"
    then have "byte c = 48" using e(3) by (simp add: digit_val_def is_digit_def)
    then have "byte c = byte (CHR ''0'')" by simp
    with e(2) show False by (simp only: of_char_eq_iff)
  qed
  moreover have "n = digit_val c * 10 ^ length s + digits_val 0 s"
    using digits_of_digits(2) [of n] digits_val_split [of "digit_val c" s] e(1) by simp
  moreover have "1 * 10 ^ length s \<le> digit_val c * 10 ^ length s" if "0 < digit_val c"
    using that by (intro mult_right_mono) simp_all
  ultimately have "1 * 10 ^ length s \<le> n" by (metis trans_le_add1)
  then show ?thesis by (simp add: e)
qed

lemma digits_of_order:
  assumes "m < n"
  shows "length (digits_of m) < length (digits_of n) \<or>
    length (digits_of m) = length (digits_of n) \<and> digits_of m < digits_of n"
proof -
  have "\<not> length (digits_of n) < length (digits_of m)"
  proof
    assume l: "length (digits_of n) < length (digits_of m)"
    then have "0 < m" by (cases "m = 0") (simp_all add: digits_of_0)
    have "n < 10 ^ length (digits_of n)" using digits_val_bound [OF digits_of_digits(1) [of n]] digits_of_digits(2) [of n] by simp
    also have "\<dots> \<le> (10::nat) ^ (length (digits_of m) - 1)" using l by (intro power_increasing) auto
    also have "\<dots> \<le> m" using \<open>0 < m\<close> by (rule digits_of_lower)
    finally show False using assms by simp
  qed
  moreover have "\<not> digits_of n < digits_of m" if "length (digits_of m) = length (digits_of n)"
    using digit_lists [of "digits_of n" "digits_of m"] that digits_of_digits [of m] digits_of_digits [of n] assms by auto
  moreover have "digits_of m \<noteq> digits_of n" using digits_of_digits(2) [of m] digits_of_digits(2) [of n] assms by auto
  ultimately show ?thesis by (meson linorder_neqE)
qed

lemma chunks_digits: "s \<noteq> [] \<Longrightarrow> list_all is_digit s \<Longrightarrow> chunks s = [(True, s)]"
proof -
  assume a: "s \<noteq> []" "list_all is_digit s"
  then obtain c t where s: "s = c # t" by (cases s) auto
  with a have c: "is_digit c" and t: "takeWhile is_digit t = t" "dropWhile is_digit t = []"
    by (auto simp: list_all_iff takeWhile_eq_all_conv dropWhile_eq_Nil_conv)
  show ?thesis by (simp add: s c t)
qed

lemma last_dropWhile: "dropWhile P xs \<noteq> [] \<Longrightarrow> last (dropWhile P xs) = last xs"
  by (induction xs) auto

lemma chunks_snoc:
  "list_all is_digit s \<Longrightarrow> s \<noteq> [] \<Longrightarrow> p = [] \<or> \<not> is_digit (last p) \<Longrightarrow> chunks (p @ s) = chunks p @ [(True, s)]"
proof (induction p rule: chunks.induct)
  case 1
  then show ?case by (simp add: chunks_digits)
next
  case (2 c p)
  let ?q = "\<lambda>x. is_digit x = is_digit c"
  have h: "is_digit (hd s)" using 2(2,3) by (cases s) auto
  show ?case
  proof (cases "list_all ?q p")
    case True
    have "is_digit (last (c # p)) = is_digit c" using True by (cases p rule: rev_cases) (auto simp: list_all_iff)
    with 2(4) have c: "\<not> is_digit c" by simp
    have t: "takeWhile ?q (p @ s) = p" "dropWhile ?q (p @ s) = s"
      using True h c 2(3) by (cases s; simp add: list_all_iff)+
    have p: "takeWhile ?q p = p" "dropWhile ?q p = []" using True by (auto simp: list_all_iff takeWhile_eq_all_conv dropWhile_eq_Nil_conv)
    have "chunks (c # p) = [(is_digit c, c # p)]" by (simp only: chunks.simps takeWhile.simps p refl if_True)
    moreover have "chunks ((c # p) @ s) = [(is_digit c, c # p), (True, s)]"
      by (simp only: append_Cons chunks.simps takeWhile.simps t refl if_True chunks_digits [OF 2(3,2)])
    ultimately show ?thesis by (simp only: append.simps)
  next
    case False
    then obtain x where x: "x \<in> set p" "\<not> ?q x" by (auto simp: list_all_iff)
    then have "takeWhile ?q (p @ s) = takeWhile ?q p" "dropWhile ?q (p @ s) = dropWhile ?q p @ s"
      by (simp_all add: takeWhile_append1 dropWhile_append1)
    moreover have n: "dropWhile ?q p \<noteq> []" using x by (simp add: dropWhile_eq_Nil_conv) blast
    moreover have "last (c # p) = last p" using x by auto
    moreover have "last (dropWhile ?q p) = last p" using n by (rule last_dropWhile)
    ultimately show ?thesis using 2 by simp
  qed
qed

lemma less_snoc: "x < y \<Longrightarrow> (ps @ [x] :: 'a::linorder list) < ps @ [y]"
  by (induction ps) simp_all

text \<open>
  Ids that differ in the number at their end are ordered by that number, not by its text:
  \<open>e.9\<close> comes before \<open>e.10\<close>, for every common prefix that does not itself end with a digit.
\<close>

theorem natural_order_numeric:
  assumes "p = [] \<or> \<not> is_digit (last p)"
  shows "natural_cmp (p @ show_nat m) (p @ show_nat n) = compare m n"
proof -
  have k: "natural_key (p @ show_nat i) = (map chunk_key (chunks p) @ [(1, length (digits_of i), digits_of i)], p @ show_nat i)" for i
    using chunks_snoc [of "show_nat i" p] show_nat_digits [of i] assms
    by (simp add: natural_key_def chunk_key_def digits_of_def)
  have lt: "natural_key (p @ show_nat i) < natural_key (p @ show_nat j)" if "i < j" for i j
  proof -
    have "(1, length (digits_of i), digits_of i) < (1 :: nat, length (digits_of j), digits_of j)"
      using digits_of_order [OF that] by (auto simp: less_prod_simp)
    then have "map chunk_key (chunks p) @ [(1, length (digits_of i), digits_of i)]
        < map chunk_key (chunks p) @ [(1, length (digits_of j), digits_of j)]"
      by (rule less_snoc)
    then show ?thesis unfolding k less_prod_simp by (rule disjI1)
  qed
  have l: "natural_cmp (p @ show_nat i) (p @ show_nat j) = OLess" if "i < j" for i j
    using lt [OF that] by (simp add: natural_cmp_key compare_def)
  have g: "natural_cmp (p @ show_nat i) (p @ show_nat j) = OGreater" if "j < i" for i j
    using lt [OF that] by (auto simp: natural_cmp_key compare_def)
  show ?thesis
    using l [of m n] g [of n m] by (cases m n rule: linorder_cases) (simp_all add: compare_def natural_cmp_key)
qed

theorem natural_order_numeric_witness:
  "natural_cmp (''e.'' @ show_nat 9) (''e.'' @ show_nat 10) = compare (9::nat) 10"
  by (rule natural_order_numeric) (simp add: is_digit_def)

end
