(* ===== verification/Beads_Select.thy ===== *)
theory Beads_Select
  imports Host Natural_Order
begin

text \<open>
  \<open>beads.select\<close> (\<open>handlers/beads.rs\<close>): reads an epic and its children, claims the next task that is
  ready, or tells that all are closed or none can be claimed.
\<close>

section \<open>Selecting a task\<close>

definition TASK_PREFIX :: str where "TASK_PREFIX = ''task.''"
definition CLOSED :: str where "CLOSED = ''closed''"
definition BLOCKS :: str where "BLOCKS = ''blocks''"
definition CURRENT_TASK_FILE :: str where "CURRENT_TASK_FILE = ''.pas/current_task.md''"
definition LABEL_MORE :: str where "LABEL_MORE = ''MORE''"
definition LABEL_DONE :: str where "LABEL_DONE = ''DONE''"
definition LABEL_BLOCKED :: str where "LABEL_BLOCKED = ''BLOCKED''"

datatype selection =
    Claim beads_issue
  | AllDone
  | SelBlocked "str list" "str list btree"

text \<open>\<open>position(..).unwrap_or(usize::MAX)\<close> and \<open>priority.unwrap_or(i64::MAX)\<close>.\<close>

definition order_rank :: "str list \<Rightarrow> beads_issue \<Rightarrow> nat" where
  "order_rank order t = (case position (\<lambda>i. i = bi_id t) order of Some n \<Rightarrow> n | None \<Rightarrow> u64_max)"

definition priority_rank :: "beads_issue \<Rightarrow> int" where
  "priority_rank t = (case bi_priority t of Some p \<Rightarrow> p | None \<Rightarrow> i64_max)"

definition task_cmp :: "str list \<Rightarrow> beads_issue \<Rightarrow> beads_issue \<Rightarrow> ordering" where
  "task_cmp order a b =
     then_with (compare (order_rank order a) (order_rank order b))
       (then_with (compare (priority_rank a) (priority_rank b)) (natural_cmp (bi_id a) (bi_id b)))"

definition is_open_task :: "beads_issue \<Rightarrow> bool" where
  "is_open_task t \<longleftrightarrow> bi_status t \<noteq> CLOSED"

definition blockers :: "beads_issue list \<Rightarrow> beads_issue \<Rightarrow> str list" where
  "blockers children t =
     (let cl = map bi_id (filter (\<lambda>c. \<not> is_open_task c) children)
      in map bp_depends_on (filter (\<lambda>d. bp_type d = BLOCKS \<and> bp_depends_on d \<notin> set cl) (bi_dependencies t)))"

definition choose_task :: "beads_issue list \<Rightarrow> str set \<Rightarrow> str list \<Rightarrow> str list \<Rightarrow> selection" where
  "choose_task children ready order exclude =
     (let opn = filter is_open_task children
      in if opn = [] then AllDone
         else let opn = sort_by (task_cmp order) opn
              in case find (\<lambda>t. bi_id t \<in> ready \<and> bi_id t \<notin> set exclude) opn of
                   Some t \<Rightarrow> Claim t
                 | None \<Rightarrow> SelBlocked (map bi_id opn) (btree_of (map (\<lambda>t. (bi_id t, blockers children t)) opn)))"

definition task_key :: "str list \<Rightarrow> beads_issue \<Rightarrow> nat \<times> int \<times> ((nat \<times> nat \<times> str) list \<times> str)" where
  "task_key order t = (order_rank order t, priority_rank t, natural_key (bi_id t))"

lemma task_cmp_key: "task_cmp order a b = compare (task_key order a) (task_key order b)"
  by (simp add: task_cmp_def task_key_def natural_cmp_key compare_pair)

lemma sort_tasks: "sort_by (task_cmp order) xs = sort_key (task_key order) xs"
  by (rule sort_by_key) (rule task_cmp_key)

definition claimable :: "str set \<Rightarrow> str list \<Rightarrow> beads_issue \<Rightarrow> bool" where
  "claimable ready exclude t \<longleftrightarrow> is_open_task t \<and> bi_id t \<in> ready \<and> bi_id t \<notin> set exclude"

lemma find_sorted:
  assumes "find P (sort_key k xs) = Some x"
  shows "x \<in> set xs" "P x" "\<And>y. y \<in> set xs \<Longrightarrow> P y \<Longrightarrow> k x \<le> k y"
proof -
  obtain i where i: "i < length xs" "sort_key k xs ! i = x" "P x" "\<And>j. j < i \<Longrightarrow> \<not> P (sort_key k xs ! j)"
    using assms by (auto simp: find_Some_iff)
  then show "x \<in> set xs" "P x" by (metis length_sort nth_mem set_sort)+
  show "k x \<le> k y" if y: "y \<in> set xs" "P y" for y
  proof -
    obtain j where j: "j < length xs" "sort_key k xs ! j = y" using y(1) by (metis in_set_conv_nth length_sort set_sort)
    then have "i \<le> j" using i(4) y(2) by (metis not_le)
    moreover have "sorted (map k (sort_key k xs))" by simp
    ultimately show ?thesis using i j by (metis length_map length_sort nth_map sorted_nth_mono)
  qed
qed

lemma choose_cases:
  "case choose_task children ready order exclude of
     Claim t \<Rightarrow> t \<in> set children \<and> claimable ready exclude t \<and>
       list_all (\<lambda>u. task_key order t \<le> task_key order u) (filter (claimable ready exclude) children)
   | AllDone \<Rightarrow> filter is_open_task children = []
   | SelBlocked opn bs \<Rightarrow> filter is_open_task children \<noteq> [] \<and> filter (claimable ready exclude) children = [] \<and>
       opn = map bi_id (sort_key (task_key order) (filter is_open_task children))"
proof (cases "filter is_open_task children = []")
  case True
  then show ?thesis by (simp add: choose_task_def)
next
  case False
  let ?P = "\<lambda>t. bi_id t \<in> ready \<and> bi_id t \<notin> set exclude"
  let ?o = "sort_key (task_key order) (filter is_open_task children)"
  show ?thesis
  proof (cases "find ?P ?o")
    case None
    then have "filter (claimable ready exclude) children = []"
      by (auto simp: find_None_iff filter_empty_conv claimable_def)
    with None False show ?thesis by (simp add: choose_task_def sort_tasks Let_def)
  next
    case (Some t)
    have "t \<in> set (filter is_open_task children)" "?P t" "\<And>y. y \<in> set (filter is_open_task children) \<Longrightarrow> ?P y \<Longrightarrow> task_key order t \<le> task_key order y"
      using find_sorted [OF Some] by blast+
    with Some False show ?thesis by (auto simp: choose_task_def sort_tasks Let_def claimable_def list_all_iff)
  qed
qed

section \<open>Attributes\<close>

text \<open>\<open>{:?}\<close> of an attribute value; the texts of a string and of a float come from the host.\<close>

fun attribute_debug :: "'w host \<Rightarrow> attribute_value \<Rightarrow> str" where
  "attribute_debug H (AString s) = ''String('' @ ho_debug H s @ '')''"
| "attribute_debug H (AInteger i) = ''Integer('' @ show_int i @ '')''"
| "attribute_debug H (AFloat x) = ''Float('' @ ho_fmt H x @ '')''"
| "attribute_debug H (ABoolean b) = ''Boolean('' @ (if b then ''true'' else ''false'') @ '')''"
| "attribute_debug H (ADuration d) = ''Duration('' @ duration_debug d @ '')''"

definition backquoted :: "str \<Rightarrow> str" where
  "backquoted s = ''`'' @ s @ ''`''"

definition text_attr :: "'w host \<Rightarrow> pipeline_node \<Rightarrow> str \<Rightarrow> str + str option" where
  "text_attr H n name =
     (case hm_get (pn_raw n) name of
        None \<Rightarrow> Inr None
      | Some (AString v) \<Rightarrow> Inr (Some (trim v))
      | Some v \<Rightarrow> Inl (''attribute '' @ backquoted name @ '' must be a string, got '' @ attribute_debug H v))"

definition list_attr :: "'w host \<Rightarrow> pipeline_node \<Rightarrow> str \<Rightarrow> str + str list" where
  "list_attr H n name =
     rbind (text_attr H n name) (\<lambda>v.
       Inr (filter (\<lambda>i. i \<noteq> []) (map trim (split_on '','' (case v of Some s \<Rightarrow> s | None \<Rightarrow> [])))))"

record select_attrs =
  sa_epic :: str
  sa_order :: "str list"
  sa_exclude :: "str list"

definition select_attrs_of :: "'w host \<Rightarrow> pipeline_node \<Rightarrow> str + select_attrs" where
  "select_attrs_of H n =
     rbind (text_attr H n ''epic'') (\<lambda>e.
     case e of
       None \<Rightarrow> Inl (''missing required attribute '' @ backquoted ''epic'')
     | Some i \<Rightarrow>
         if i = [] then Inl (''missing required attribute '' @ backquoted ''epic'')
         else rbind (list_attr H n ''order'') (\<lambda>ord.
              rbind (list_attr H n ''exclude'') (\<lambda>ex.
              Inr \<lparr>sa_epic = i, sa_order = ord, sa_exclude = ex\<rparr>)))"

section \<open>The hand-over file\<close>

definition or_empty :: "str option \<Rightarrow> str" where
  "or_empty v = (case v of Some s \<Rightarrow> s | None \<Rightarrow> [])"

definition task_context :: "beads_issue \<Rightarrow> json hmap" where
  "task_context t =
     [(''task.id'', JStr (bi_id t)), (''task.title'', JStr (bi_title t)),
      (''task.description'', JStr (or_empty (bi_description t))),
      (''task.acceptance'', JStr (or_empty (bi_acceptance t))),
      (''task.design'', JStr (or_empty (bi_design t)))]"

definition em_dash :: str where
  "em_dash = map char_of [226, 128, 148 :: nat]"

definition nl :: str where "nl = [NL]"

definition section_text :: "str \<times> str option \<Rightarrow> str" where
  "section_text p =
     (case snd p of
        None \<Rightarrow> []
      | Some body \<Rightarrow>
          if trim body = [] \<and> fst p \<noteq> ''Description'' then []
          else nl @ ''## '' @ fst p @ nl @ nl @ trim_end body @ nl)"

definition dependency_lines :: "beads_issue \<Rightarrow> str list" where
  "dependency_lines t =
     map (\<lambda>d. ''- '' @ bp_depends_on d @ '' ('' @ bp_type d @ '')'')
       (filter (\<lambda>d. bp_type d \<noteq> ''parent-child'') (bi_dependencies t))"

definition render_current_task :: "beads_issue \<Rightarrow> beads_issue \<Rightarrow> beads_issue \<Rightarrow> str" where
  "render_current_task t claimed epic =
     ''# Current Task'' @ nl @ nl @
     ''- **ID:** '' @ bi_id t @ nl @
     ''- **Title:** '' @ bi_title t @ nl @
     ''- **Epic:** '' @ bi_id epic @ '' '' @ em_dash @ '' '' @ bi_title epic @ nl @
     ''- **Status:** '' @ bi_status claimed @
       (case bi_assignee claimed of Some a \<Rightarrow> '' (assignee '' @ a @ '')'' | None \<Rightarrow> []) @ nl @
     ''- **Priority:** '' @ (case bi_priority t of Some p \<Rightarrow> show_int p | None \<Rightarrow> ''-'') @
       '', type '' @ (case bi_issue_type t of Some k \<Rightarrow> k | None \<Rightarrow> ''-'') @ nl @
     concat (map section_text
       [(''Description'', or_else (bi_description t) (Some [])), (''Acceptance Criteria'', bi_acceptance t),
        (''Design'', bi_design t), (''Notes'', bi_notes t)]) @
     (if dependency_lines t = [] then []
      else nl @ ''## Dependencies'' @ nl @ nl @ join nl (dependency_lines t) @ nl)"

definition current_task_path :: "str \<Rightarrow> path" where
  "current_task_path workdir = join_name (path_of workdir) CURRENT_TASK_FILE"

text \<open>\<open>create_dir_all\<close> on the parent, then \<open>fs::write\<close>; the text of the error that stopped it.\<close>

definition write_current_task ::
  "'w host \<Rightarrow> path \<Rightarrow> beads_issue \<Rightarrow> beads_issue \<Rightarrow> beads_issue \<Rightarrow> 'w \<Rightarrow> str option \<times> 'w" where
  "write_current_task H p t claimed epic w =
     (case path_parent p of
        None \<Rightarrow> ho_write H p (render_current_task t claimed epic) w
      | Some d \<Rightarrow>
          (let (r, w1) = ho_mkdirs H d w
           in case r of
                Some e \<Rightarrow> (Some e, w1)
              | None \<Rightarrow> ho_write H p (render_current_task t claimed epic) w1))"

text \<open>\<open>Path::join\<close> on the text of a path and a relative one.\<close>

definition join_text :: "str \<Rightarrow> str \<Rightarrow> str" where
  "join_text d f = (if d = [] \<or> last d = CHR ''/'' then d @ f else d @ slash @ f)"

section \<open>beads.select\<close>

definition select_error :: "pipeline_node \<Rightarrow> str \<Rightarrow> error" where
  "select_error n m = HandlerError select_handler (pn_id n) m"

definition epic_error :: "pipeline_node \<Rightarrow> str \<Rightarrow> beads_error \<Rightarrow> error" where
  "epic_error n i e = select_error n (''cannot read epic '' @ sq i @ '': '' @ beads_error_display e)"

definition children_error :: "pipeline_node \<Rightarrow> str \<Rightarrow> beads_error \<Rightarrow> error" where
  "children_error n i e = select_error n (''cannot list children of epic '' @ sq i @ '': '' @ beads_error_display e)"

definition ready_error :: "pipeline_node \<Rightarrow> str \<Rightarrow> beads_error \<Rightarrow> error" where
  "ready_error n i e = select_error n (''cannot list ready issues for epic '' @ sq i @ '': '' @ beads_error_display e)"

definition no_children :: "pipeline_node \<Rightarrow> str \<Rightarrow> error" where
  "no_children n i = select_error n (''epic '' @ sq i @ '' has no children'')"

definition claim_error :: "pipeline_node \<Rightarrow> beads_issue \<Rightarrow> beads_error \<Rightarrow> error" where
  "claim_error n t e = select_error n (''cannot claim task '' @ sq (bi_id t) @ '': '' @ beads_error_display e)"

definition write_error :: "pipeline_node \<Rightarrow> beads_issue \<Rightarrow> str \<Rightarrow> str \<Rightarrow> error" where
  "write_error n t workdir e = select_error n
     (''claimed task '' @ sq (bi_id t) @ '' but cannot write '' @ join_text workdir CURRENT_TASK_FILE @ '': '' @ e)"

definition task_summary_of :: "beads_issue \<Rightarrow> task_summary" where
  "task_summary_of t = \<lparr>ts_id = bi_id t, ts_title = bi_title t, ts_status = bi_status t\<rparr>"

definition labelled :: "str \<Rightarrow> str \<Rightarrow> outcome" where
  "labelled msg label = (outcome_success msg)\<lparr>preferred_label := Some label\<rparr>"

definition strs_debug :: "'w host \<Rightarrow> str list \<Rightarrow> str" where
  "strs_debug H xs = ''['' @ join '', '' (map (ho_debug H) xs) @ '']''"

definition claim_task ::
  "'w host \<Rightarrow> beads_adapter \<Rightarrow> pipeline_node \<Rightarrow> str \<Rightarrow> str \<Rightarrow> bool \<Rightarrow> beads_issue \<Rightarrow> beads_issue \<Rightarrow> ('w, outcome) hact" where
  "claim_task H bd n epic_id workdir sink epic t =
     (let out = (labelled (''claimed '' @ bi_id t) LABEL_MORE)\<lparr>context_updates := task_context t\<rparr>;
          p = current_task_path workdir
      in hbind (hcall (claim_error n t)
                 (bd_claim H bd (bi_id t))) (\<lambda>claimed.
         hbind (hcall (write_error n t workdir)
                 (\<lambda>w. map_prod none_ok id (write_current_task H p t claimed epic w))) (\<lambda>_.
         hbind (hemit sink (TaskClaimed (bi_id t) (bi_title t) epic_id (pn_id n))) (\<lambda>_.
         hret out))))"

definition act_on ::
  "'w host \<Rightarrow> beads_adapter \<Rightarrow> pipeline_node \<Rightarrow> bool \<Rightarrow> str \<Rightarrow> str \<Rightarrow> bool \<Rightarrow> beads_issue \<Rightarrow> selection \<Rightarrow> ('w, outcome) hact" where
  "act_on H bd n dry_run epic_id workdir sink epic sel =
     (case sel of
        Claim t \<Rightarrow>
          if dry_run
          then hret ((labelled (''dry run: would claim '' @ bi_id t) LABEL_MORE)\<lparr>context_updates := task_context t\<rparr>)
          else claim_task H bd n epic_id workdir sink epic t
      | AllDone \<Rightarrow> hret (labelled (''epic '' @ epic_id @ '': all children closed'') LABEL_DONE)
      | SelBlocked opn blk \<Rightarrow>
          hbind (hemit sink (TaskSelectionBlocked epic_id opn blk)) (\<lambda>_.
          hret (labelled (''epic '' @ epic_id @ '': no claimable task among '' @ strs_debug H opn) LABEL_BLOCKED)))"

text \<open>From the children on, and the whole.\<close>

definition select_among ::
  "'w host \<Rightarrow> beads_adapter \<Rightarrow> pipeline_node \<Rightarrow> bool \<Rightarrow> str \<Rightarrow> bool \<Rightarrow> select_attrs \<Rightarrow> beads_issue \<Rightarrow> beads_issue list
   \<Rightarrow> ('w, outcome) hact" where
  "select_among H adapter n dry_run workdir sink at epic children =
     (let bd = in_dir workdir adapter; i = sa_epic at
      in if children = [] then hfail (no_children n i)
         else hbind (hemit sink (EpicSnapshot i (bi_title epic) (map task_summary_of children))) (\<lambda>_.
              hbind (hcall (ready_error n i) (bd_ready H bd)) (\<lambda>ready.
              act_on H bd n dry_run i workdir sink epic
                (choose_task children (set (map bi_id ready)) (sa_order at) (sa_exclude at)))))"

definition select ::
  "'w host \<Rightarrow> beads_adapter \<Rightarrow> pipeline_node \<Rightarrow> bool \<Rightarrow> str \<Rightarrow> bool \<Rightarrow> ('w, outcome) hact" where
  "select H adapter n dry_run workdir sink =
     hbind (hlift (case select_attrs_of H n of Inl e \<Rightarrow> Inl (select_error n e) | Inr a \<Rightarrow> Inr a)) (\<lambda>at.
     let bd = in_dir workdir adapter; i = sa_epic at
     in hbind (hcall (epic_error n i) (bd_show H bd i)) (\<lambda>epic.
        hbind (hcall (children_error n i) (bd_children H bd i)) (\<lambda>children.
        select_among H adapter n dry_run workdir sink at epic children)))"

text \<open>
  The handler as it is registered. Callers without the engine have the dry run and the folder in the
  context and no sink for events.
\<close>

definition legacy_dry_run :: "ctx \<Rightarrow> bool" where
  "legacy_dry_run c = (case context_get c ''dry_run'' of Some (JBool b) \<Rightarrow> b | _ \<Rightarrow> False)"

definition legacy_workdir :: "ctx \<Rightarrow> str" where
  "legacy_workdir c = (case context_get c ''workdir'' of Some (JStr d) \<Rightarrow> d | _ \<Rightarrow> ''.'')"

definition select_legacy :: "'w host \<Rightarrow> beads_adapter \<Rightarrow> pipeline_node \<Rightarrow> ('w, outcome) hact" where
  "select_legacy H adapter n = hbind hctx (\<lambda>c. select H adapter n (legacy_dry_run c) (legacy_workdir c) False)"

definition beads_select_handler :: "'w host \<Rightarrow> beads_adapter \<Rightarrow> 'w handler" where
  "beads_select_handler H adapter =
     \<lparr>hd_type = select_handler, hd_provider = None,
      hd_resolved = Some
        \<lparr>te_resolved = \<lambda>n r g. select_legacy H adapter n,
         te_configured = \<lambda>n r x g. select H adapter n (rv_value (ct_dry_run (hx_config x)))
           (rv_value (ct_workdir (hx_config x))) (hx_events x)\<rparr>,
      hd_resumes = False, hd_execute = \<lambda>n g. select_legacy H adapter n\<rparr>"

section \<open>What a selection does\<close>

lemma select_Inr:
  assumes "select H adapter n dry_run workdir sink s = (Inr out, s')"
  obtains at ep children ready w1 w2 w3 where
    "select_attrs_of H n = Inr at"
    "bd_show H (in_dir workdir adapter) (sa_epic at) (hr_world s) = (Inr ep, w1)"
    "bd_children H (in_dir workdir adapter) (sa_epic at) w1 = (Inr children, w2)" "children \<noteq> []"
    "bd_ready H (in_dir workdir adapter) w2 = (Inr ready, w3)"
    "act_on H (in_dir workdir adapter) n dry_run (sa_epic at) workdir sink ep
       (choose_task children (set (map bi_id ready)) (sa_order at) (sa_exclude at))
       (s\<lparr>hr_world := w3,
          hr_events := hr_events s @ told sink [EpicSnapshot (sa_epic at) (bi_title ep) (map task_summary_of children)]\<rparr>)
       = (Inr out, s')"
proof -
  let ?bd = "in_dir workdir adapter"
  obtain at where at: "select_attrs_of H n = Inr at"
    using assms by (cases "select_attrs_of H n") (simp_all add: select_def)
  let ?i = "sa_epic at"
  have "hbind (hcall (epic_error n ?i) (bd_show H ?bd ?i)) (\<lambda>ep.
     hbind (hcall (children_error n ?i) (bd_children H ?bd ?i)) (select_among H adapter n dry_run workdir sink at ep)) s
       = (Inr out, s')"
    using assms at by (simp add: select_def Let_def)
  then obtain ep w1 where c1: "bd_show H ?bd ?i (hr_world s) = (Inr ep, w1)"
    and "hbind (hcall (children_error n ?i) (bd_children H ?bd ?i)) (select_among H adapter n dry_run workdir sink at ep)
       (s\<lparr>hr_world := w1\<rparr>) = (Inr out, s')"
    unfolding hbind_Inr hcall_Inr by blast
  then obtain children w2 where c2: "bd_children H ?bd ?i w1 = (Inr children, w2)"
    and a: "select_among H adapter n dry_run workdir sink at ep children (s\<lparr>hr_world := w2\<rparr>) = (Inr out, s')"
    unfolding hbind_Inr hcall_Inr by auto
  define t where "t = s\<lparr>hr_world := w2, hr_events := hr_events s @ told sink [EpicSnapshot ?i (bi_title ep) (map task_summary_of children)]\<rparr>"
  have c: "children \<noteq> []" using a by (auto simp: select_among_def)
  have r: "hbind (hcall (ready_error n ?i) (bd_ready H ?bd)) (\<lambda>ready. act_on H ?bd n dry_run ?i workdir sink ep
          (choose_task children (set (map bi_id ready)) (sa_order at) (sa_exclude at))) t = (Inr out, s')"
    using a c by (cases sink) (simp_all add: select_among_def t_def told_def Let_def)
  from r obtain ready w3 where "bd_ready H ?bd w2 = (Inr ready, w3)"
    "act_on H ?bd n dry_run ?i workdir sink ep
       (choose_task children (set (map bi_id ready)) (sa_order at) (sa_exclude at)) (t\<lparr>hr_world := w3\<rparr>) = (Inr out, s')"
    unfolding hbind_Inr hcall_Inr by (auto simp: t_def)
  moreover have "t\<lparr>hr_world := w\<rparr> = s\<lparr>hr_world := w,
      hr_events := hr_events s @ told sink [EpicSnapshot ?i (bi_title ep) (map task_summary_of children)]\<rparr>" for w
    by (cases s) (simp add: t_def)
  ultimately show thesis using at c c1 c2 by (intro that) simp_all
qed

lemma claim_task_Inr:
  assumes "claim_task H bd n i workdir sink ep t s = (Inr out, s')"
  obtains claimed w1 w2 where "bd_claim H bd (bi_id t) (hr_world s) = (Inr claimed, w1)"
    "write_current_task H (current_task_path workdir) t claimed ep w1 = (None, w2)"
    "out = (labelled (''claimed '' @ bi_id t) LABEL_MORE)\<lparr>context_updates := task_context t\<rparr>"
    "s' = s\<lparr>hr_world := w2, hr_events := hr_events s @ told sink [TaskClaimed (bi_id t) (bi_title t) i (pn_id n)]\<rparr>"
proof -
  obtain claimed w1 w2 where "bd_claim H bd (bi_id t) (hr_world s) = (Inr claimed, w1)"
    "write_current_task H (current_task_path workdir) t claimed ep w1 = (None, w2)"
    "out = (labelled (''claimed '' @ bi_id t) LABEL_MORE)\<lparr>context_updates := task_context t\<rparr>"
    "s' = s\<lparr>hr_world := w2, hr_events := hr_events s @ told sink [TaskClaimed (bi_id t) (bi_title t) i (pn_id n)]\<rparr>"
    using assms
    by (cases sink) (auto simp: claim_task_def hbind_Inr hcall_Inr none_ok_Inr told_def Let_def)
  then show thesis by (rule that)
qed

lemma task_context_id [simp]: "hm_get (task_context t) ''task.id'' = Some (JStr (bi_id t))"
  by (simp add: task_context_def)

lemma labelled_label [simp]: "preferred_label (labelled m l) = Some l" "status (labelled m l) = Success"
  by (simp_all add: labelled_def outcome_success_def)

lemma act_on_Inr:
  assumes "act_on H bd n dry_run i workdir sink ep sel s = (Inr out, s')"
  shows "case sel of
      Claim t \<Rightarrow> preferred_label out = Some LABEL_MORE \<and> context_updates out = task_context t \<and>
        hr_events s' = hr_events s @ told (sink \<and> \<not> dry_run) [TaskClaimed (bi_id t) (bi_title t) i (pn_id n)]
    | AllDone \<Rightarrow> preferred_label out = Some LABEL_DONE \<and> s' = s
    | SelBlocked opn blk \<Rightarrow> preferred_label out = Some LABEL_BLOCKED \<and>
        hr_events s' = hr_events s @ told sink [TaskSelectionBlocked i opn blk]"
proof (cases sel)
  case (Claim t)
  show ?thesis
  proof (cases dry_run)
    case True
    with Claim assms show ?thesis by (auto simp: act_on_def told_def)
  next
    case False
    with Claim assms have "claim_task H bd n i workdir sink ep t s = (Inr out, s')" by (simp add: act_on_def)
    then show ?thesis using False Claim by (elim claim_task_Inr) simp
  qed
qed (use assms in \<open>auto simp: act_on_def told_def\<close>)


end
