(* ===== verification/Tool_Handler.thy ===== *)
theory Tool_Handler
  imports Beads_Select
begin

text \<open>
  The tool handler (\<open>handlers/tool_handler.rs\<close>): runs a shell command in the folder of the run, within the
  node's timeout, and reports its exit code and output.
\<close>

definition TOOL :: str where "TOOL = ''tool''"

definition nanos :: "nat \<Rightarrow> nat" where
  "nanos ms = ms * 1000000"

text \<open>A duration in milliseconds as \<open>u64\<close>.\<close>

definition as_u64 :: "nat \<Rightarrow> nat" where
  "as_u64 n = n mod 2 ^ 64"

definition tool_command :: "pipeline_node \<Rightarrow> str option" where
  "tool_command n = (case hm_get (pn_raw n) ''tool_command'' of Some (AString s) \<Rightarrow> Some s | _ \<Rightarrow> None)"

definition tool_error :: "pipeline_node \<Rightarrow> str \<Rightarrow> error" where
  "tool_error n m = HandlerError TOOL (pn_id n) m"

definition no_command :: "pipeline_node \<Rightarrow> error" where
  "no_command n = tool_error n ''Missing tool_command attribute''"

definition spawn_error :: "pipeline_node \<Rightarrow> str \<Rightarrow> error" where
  "spawn_error n e = tool_error n (''Failed to spawn command: '' @ e)"

definition run_error :: "pipeline_node \<Rightarrow> str \<Rightarrow> error" where
  "run_error n e = tool_error n (''Command execution failed: '' @ e)"

definition shell :: "str \<Rightarrow> str option \<Rightarrow> command" where
  "shell command workdir =
     \<lparr>cm_program = ''sh'', cm_args = [''-c'', command], cm_dir = workdir, cm_envs = [], cm_clear_env = False\<rparr>"

definition MAX_NOTES :: nat where "MAX_NOTES = 4096"

text \<open>The last byte up to \<open>MAX_NOTES\<close> at which a character begins.\<close>

definition truncate_at :: "str \<Rightarrow> nat" where
  "truncate_at s =
     (case filter (\<lambda>i. i < length s \<and> lead_byte (s ! i)) [0..<MAX_NOTES + 1] of [] \<Rightarrow> 0 | is \<Rightarrow> last is)"

definition tool_notes :: "str \<Rightarrow> str \<Rightarrow> str" where
  "tool_notes out err =
     (let combined = (if err = [] then out else out @ nl @ ''--- stderr ---'' @ nl @ err)
      in if MAX_NOTES < length combined then take (truncate_at combined) combined @ ''...(truncated)'' else combined)"

definition dry_run_outcome :: "pipeline_node \<Rightarrow> str \<Rightarrow> outcome" where
  "dry_run_outcome n command =
     (outcome_success (''Dry run '' @ em_dash @ '' command not executed: '' @ command))
       \<lparr>context_updates := [(''last_tool_command'', JStr command), (pn_id n @ ''.completed'', JBool True),
          (pn_id n @ ''.dry_run'', JBool True)]\<rparr>"

definition exit_number :: "int option \<Rightarrow> int" where
  "exit_number code = (case code of Some c \<Rightarrow> c | None \<Rightarrow> -1)"

definition tool_outcome :: "pipeline_node \<Rightarrow> str \<Rightarrow> int option \<Rightarrow> str \<Rightarrow> str \<Rightarrow> outcome" where
  "tool_outcome n command code stdout stderr =
     (let out = utf8_lossy stdout; err = utf8_lossy stderr
      in \<lparr>status = (if exited_ok code then Success else Fail), preferred_label = None, suggested_next_ids = [],
          context_updates =
            [(''last_tool_command'', JStr command), (pn_id n @ ''.completed'', JBool True),
             (pn_id n @ ''.exit_code'', JInt (exit_number code)), (pn_id n @ ''.stdout'', JStr out)]
            @ (if err = [] then [] else [(pn_id n @ ''.stderr'', JStr err)]),
          out_notes = tool_notes out err,
          failure_reason =
            (if exited_ok code then None else Some (''Command exited with code '' @ show_int (exit_number code)))\<rparr>)"

definition tool_timeout :: "pipeline_node \<Rightarrow> nat" where
  "tool_timeout n = (case pn_timeout n of Some ms \<Rightarrow> ms | None \<Rightarrow> 300000)"

definition run_tool :: "'w host \<Rightarrow> pipeline_node \<Rightarrow> bool \<Rightarrow> str option \<Rightarrow> ('w, outcome) hact" where
  "run_tool H n dry_run workdir =
     (case tool_command n of
        None \<Rightarrow> hfail (no_command n)
      | Some command \<Rightarrow>
          if dry_run then hret (dry_run_outcome n command)
          else hbind (hworld (ho_within H (shell command workdir) (nanos (tool_timeout n)))) (\<lambda>r.
               case r of
                 SpawnFailed e \<Rightarrow> hfail (spawn_error n e)
               | WaitFailed e \<Rightarrow> hfail (run_error n e)
               | TimedOut _ _ \<Rightarrow> hfail (CommandTimeout (as_u64 (tool_timeout n)))
               | Ended code out err \<Rightarrow> hret (tool_outcome n command code out err)))"

text \<open>Without the engine the folder is the context's, if it names one.\<close>

definition tool_legacy :: "'w host \<Rightarrow> pipeline_node \<Rightarrow> ('w, outcome) hact" where
  "tool_legacy H n = hbind hctx (\<lambda>c. run_tool H n (legacy_dry_run c)
     (Option.bind (context_get c ''workdir'') json_as_str))"

definition tool_handler :: "'w host \<Rightarrow> 'w handler" where
  "tool_handler H =
     \<lparr>hd_type = TOOL, hd_provider = None,
      hd_resolved = Some
        \<lparr>te_resolved = \<lambda>n r g. tool_legacy H n,
         te_configured = \<lambda>n r x g. run_tool H n (rv_value (ct_dry_run (hx_config x)))
           (Some (rv_value (ct_workdir (hx_config x))))\<rparr>,
      hd_resumes = False, hd_execute = \<lambda>n g. tool_legacy H n\<rparr>"

section \<open>What a tool run does\<close>

lemma last_bounded: "(\<And>x. x \<in> set xs \<Longrightarrow> x \<le> b) \<Longrightarrow> (case xs of [] \<Rightarrow> 0 | x # r \<Rightarrow> last (x # r)) \<le> (b :: nat)"
  by (cases xs) (simp, use last_in_set in force)

lemma truncate_at_le: "truncate_at s \<le> MAX_NOTES"
proof -
  let ?is = "filter (\<lambda>i. i < length s \<and> lead_byte (s ! i)) [0..<MAX_NOTES + 1]"
  have "(case ?is of [] \<Rightarrow> 0 | x # r \<Rightarrow> last (x # r)) \<le> MAX_NOTES"
  proof (rule last_bounded)
    fix x assume "x \<in> set ?is"
    then have "x \<in> set [0..<MAX_NOTES + 1]" by (simp only: set_filter mem_Collect_eq)
    then show "x \<le> MAX_NOTES" by (simp only: set_upt atLeastLessThan_iff) simp
  qed
  then show ?thesis unfolding truncate_at_def by (cases ?is) (simp_all only: list.case)
qed

lemma tool_notes_bound: "length (tool_notes out err) \<le> MAX_NOTES + 14"
proof -
  have "length (take (truncate_at s) s @ ''...(truncated)'') \<le> MAX_NOTES + 14" for s
    using truncate_at_le [of s] by simp
  then show ?thesis by (auto simp: tool_notes_def Let_def not_less intro: le_trans)
qed

lemma run_tool_Inr:
  assumes "run_tool H n dry_run workdir s = (Inr out, s')"
  obtains (dry) command where "tool_command n = Some command" "dry_run" "out = dry_run_outcome n command" "s' = s"
  | (ran) command code stdout stderr w where "tool_command n = Some command" "\<not> dry_run"
      "ho_within H (shell command workdir) (nanos (tool_timeout n)) (hr_world s) = (Ended code stdout stderr, w)"
      "out = tool_outcome n command code stdout stderr" "s' = s\<lparr>hr_world := w\<rparr>"
proof -
  obtain command where c: "tool_command n = Some command"
    using assms by (cases "tool_command n") (simp_all add: run_tool_def)
  show thesis
  proof (cases dry_run)
    case True
    then show thesis using assms c dry by (simp add: run_tool_def)
  next
    case False
    obtain r w where r: "ho_within H (shell command workdir) (nanos (tool_timeout n)) (hr_world s) = (r, w)" by fastforce
    then show thesis using assms c False ran [OF c False]
      by (cases r) (simp_all add: run_tool_def hbind_def [of "hworld _"] hworld_def)
  qed
qed

text \<open>
  A tool node runs its command exactly once and only when the run is not dry - with \<open>sh -c\<close> in
  the folder of the run - succeeds exactly when the command exited with 0 (or the run is dry), reports its exit
  code, touches neither the context nor the events, and its notes are bounded however long the output is.
\<close>

theorem tool_runs_once:
  assumes "run_tool (recorded H) n dry_run workdir s = (Inr out, s')"
  shows "\<exists>command. tool_command n = Some command \<and> hr_ctx s' = hr_ctx s \<and> hr_events s' = hr_events s \<and>
    hm_get (context_updates out) ''last_tool_command'' = Some (JStr command) \<and>
    (if dry_run then hr_world s' = hr_world s \<and> status out = Success
     else fst (hr_world s') = fst (hr_world s) @ [shell command workdir] \<and>
       length (out_notes out) \<le> MAX_NOTES + 14 \<and>
       (\<exists>code. hm_get (context_updates out) (pn_id n @ ''.exit_code'') = Some (JInt (exit_number code)) \<and>
          status out = (if code = Some 0 then Success else Fail)))"
  using assms
proof (cases rule: run_tool_Inr)
  case (dry command)
  then show ?thesis by (simp add: dry_run_outcome_def outcome_success_def)
next
  case (ran command code stdout stderr w)
  have k: "pn_id n @ ''.exit_code'' \<noteq> ''last_tool_command''"
  proof
    assume e: "pn_id n @ ''.exit_code'' = ''last_tool_command''"
    have "CHR ''.'' \<in> set (pn_id n @ ''.exit_code'')" by simp
    then show False unfolding e by simp
  qed
  have "fst w = fst (hr_world s) @ [shell command workdir]" using recorded_within [OF ran(3)] .
  moreover have "length (out_notes out) \<le> MAX_NOTES + 14"
    using tool_notes_bound by (simp add: ran(4) tool_outcome_def Let_def)
  ultimately show ?thesis using ran k
    by (intro exI [of _ command]) (auto simp: tool_outcome_def Let_def exited_ok_def intro!: exI [of _ code])
qed

end
