(* ===== verification/Quality_Manifest.thy ===== *)
theory Quality_Manifest
  imports Host
begin

text \<open>
  The quality manifest \<open>pas.toml\<close> (\<open>crates/attractor-quality/src\<close>): its sections (\<open>manifest.rs\<close>), the
  search for it (\<open>resolution.rs\<close>), the toolchains of a folder (\<open>detect.rs\<close>), the files that may be sent for
  enrichment (\<open>enrich.rs\<close>), and the store of trusted manifests (\<open>trust.rs\<close>).
\<close>

section \<open>The manifest\<close>

record project_section =
  ps_name :: str
  ps_version :: "str option"

record toolchain_section =
  tc_language :: str
  tc_version :: "str option"

record hook_config =
  hk_cmd :: "str option"
  hk_cmd_argv :: "str list option"
  hk_timeout_secs :: "nat option"
  hk_allow_failure :: "bool option"

record quality_section =
  qs_stages :: "str list"
  qs_max_fix :: "nat option"
  qs_hooks :: "hook_config hmap"

datatype claude_settings_mode = SubscriptionBare | StrictBare | InheritSettings

datatype claude_setting_source = SourceUser | SourceProject | SourceLocal

record pi_codergen =
  pc_extensions :: "path list"
  pc_prompt_templates :: "path list"

record claude_codergen =
  cc_settings_mode :: "claude_settings_mode option"
  cc_setting_sources :: "claude_setting_source list option"
  cc_settings_json :: "str option"
  cc_tools :: "str option"
  cc_agents_json :: "str option"
  cc_plugin_dirs :: "path list"
  cc_mcp_config_json :: "str option"

record codergen_section =
  cg_claude :: "claude_codergen option"
  cg_skills :: "path list"
  cg_pi :: "pi_codergen option"

record quality_manifest =
  mf_project :: project_section
  mf_toolchain :: "toolchain_section option"
  mf_quality :: "quality_section option"
  mf_codergen :: "codergen_section option"

record resolved_manifest =
  rm_manifest :: quality_manifest
  rm_path :: path
  rm_hash :: str

definition settings_mode_of :: "str \<Rightarrow> str + claude_settings_mode" where
  "settings_mode_of value =
     (let s = map lower_char (replace_str ''-'' ''_'' value)
      in if s = ''subscription_bare'' then Inr SubscriptionBare
         else if s = ''strict_bare'' then Inr StrictBare
         else if s = ''inherit'' then Inr InheritSettings
         else Inl (''invalid Claude settings mode '' @ sq s
           @ '' (expected subscription_bare, strict_bare, or inherit)''))"

fun setting_source_str :: "claude_setting_source \<Rightarrow> str" where
  "setting_source_str SourceUser = ''user''"
| "setting_source_str SourceProject = ''project''"
| "setting_source_str SourceLocal = ''local''"

definition setting_source_of :: "str \<Rightarrow> str + claude_setting_source" where
  "setting_source_of value =
     (let s = map lower_char value
      in if s = ''user'' then Inr SourceUser
         else if s = ''project'' then Inr SourceProject
         else if s = ''local'' then Inr SourceLocal
         else Inl (''invalid Claude setting source '' @ sq s @ '' (expected user, project, or local)''))"

lemma setting_source_roundtrip: "setting_source_of (setting_source_str s) = Inr s"
proof -
  have "setting_source_of ''user'' = Inr SourceUser" "setting_source_of ''project'' = Inr SourceProject"
    "setting_source_of ''local'' = Inr SourceLocal" by code_simp+
  then show ?thesis by (cases s) simp_all
qed

section \<open>Finding it\<close>

datatype resolution_error =
    ManifestNotFound
  | ManifestMalformed path str
  | ManifestInvalid path str

definition MANIFEST_FILE :: str where "MANIFEST_FILE = ''pas.toml''"
definition MAX_ASCENTS :: nat where "MAX_ASCENTS = 16"

text \<open>The candidate that the loop finds. The first argument counts the folders that may still be looked at.\<close>

fun search_up :: "nat \<Rightarrow> (path \<Rightarrow> bool) \<Rightarrow> path \<Rightarrow> path option" where
  "search_up 0 exists d = None"
| "search_up (Suc k) exists d =
     (if exists (join_name d MANIFEST_FILE) then Some (join_name d MANIFEST_FILE)
      else if exists (join_name d ''.git'') then None
      else case path_parent d of Some p \<Rightarrow> search_up k exists p | None \<Rightarrow> None)"

definition resolve_manifest ::
  "(path \<Rightarrow> bool) \<Rightarrow> (path \<Rightarrow> str + str) \<Rightarrow> (str \<Rightarrow> str + quality_manifest) \<Rightarrow> (str \<Rightarrow> str) \<Rightarrow> path
   \<Rightarrow> resolution_error + resolved_manifest" where
  "resolve_manifest exists read parse blake3 start =
     (case search_up MAX_ASCENTS exists start of
        None \<Rightarrow> Inl ManifestNotFound
      | Some candidate \<Rightarrow>
          (case read candidate of
             Inl e \<Rightarrow> Inl (ManifestInvalid candidate e)
           | Inr content \<Rightarrow>
               (case parse content of
                  Inl e \<Rightarrow> Inl (ManifestMalformed candidate e)
                | Inr m \<Rightarrow> Inr \<lparr>rm_manifest = m, rm_path = candidate, rm_hash = blake3 content\<rparr>)))"

section \<open>Toolchains and enrichment\<close>

record detected_toolchain =
  dt_language :: str
  dt_config :: path

definition detected_in :: "(path \<Rightarrow> bool) \<Rightarrow> path \<Rightarrow> str \<Rightarrow> str list \<Rightarrow> detected_toolchain list" where
  "detected_in exists d language files =
     (case find exists (map (join_name d) files) of
        Some p \<Rightarrow> [\<lparr>dt_language = language, dt_config = p\<rparr>] | None \<Rightarrow> [])"

definition detect :: "(path \<Rightarrow> bool) \<Rightarrow> path \<Rightarrow> detected_toolchain list" where
  "detect exists d =
     detected_in exists d ''rust'' [''Cargo.toml''] @
     detected_in exists d ''python'' [''pyproject.toml'', ''requirements.txt''] @
     detected_in exists d ''typescript'' [''package.json'', ''tsconfig.json'']"

definition enrich_needed :: "detected_toolchain list \<Rightarrow> bool" where
  "enrich_needed ds \<longleftrightarrow> 2 \<le> length ds \<or> ds = []"

definition ALLOWED_FILENAMES :: "str list" where
  "ALLOWED_FILENAMES =
     [''Cargo.toml'', ''package.json'', ''pyproject.toml'', ''requirements.txt'', ''requirements-dev.txt'', ''setup.py'',
      ''setup.cfg'', ''go.mod'', ''build.gradle'', ''pom.xml'', ''Makefile'', ''CMakeLists.txt'', ''tsconfig.json'']"

definition SECRET_PATTERNS :: "str list" where
  "SECRET_PATTERNS = [''.env'', ''secret'', ''credential'', ''password'', ''token'', ''key'', ''private'']"

definition MAX_FILES :: nat where "MAX_FILES = 256"
definition MAX_PAYLOAD_BYTES :: nat where "MAX_PAYLOAD_BYTES = 8192"

definition allowed_name :: "str \<Rightarrow> bool" where
  "allowed_name name \<longleftrightarrow> list_ex (\<lambda>a. let al = lowercase a
     in name = al \<or> starts_with ''tsconfig.'' name \<and> ends_with ''.json'' name
        \<or> starts_with ''requirements'' al \<and> starts_with ''requirements'' name) ALLOWED_FILENAMES"

definition sendable :: "path \<Rightarrow> bool" where
  "sendable p \<longleftrightarrow>
     (let name = lowercase (case path_file_name p of Some n \<Rightarrow> n | None \<Rightarrow> [])
      in \<not> list_ex (\<lambda>pat. contains_str pat name) SECRET_PATTERNS \<and> \<not> starts_with ''.'' name \<and> allowed_name name)"

text \<open>\<open>Vec::retain\<close> with a running total; a file that does not fit is skipped and later ones may still fit.\<close>

fun retain_small :: "(path \<Rightarrow> nat) \<Rightarrow> nat \<Rightarrow> path list \<Rightarrow> path list" where
  "retain_small len used [] = []"
| "retain_small len used (p # ps) =
     (if MAX_PAYLOAD_BYTES < used + len p then retain_small len used ps
      else p # retain_small len (used + len p) ps)"

definition filter_files :: "(path \<Rightarrow> nat option) \<Rightarrow> path list \<Rightarrow> path list" where
  "filter_files len files =
     retain_small (\<lambda>p. case len p of Some n \<Rightarrow> n | None \<Rightarrow> 100) 0 (take MAX_FILES (filter sendable files))"

definition enrich :: "detected_toolchain list \<Rightarrow> path list \<Rightarrow> quality_manifest option" where
  "enrich ds files = None"

section \<open>Trust\<close>

datatype trust_error = CorruptedStore str

record trust_entry =
  tr_path :: str
  tr_hash :: str
  tr_source :: str
  tr_added_at :: str

type_synonym trust_store = "trust_entry hmap"

text \<open>
  What the store needs of the process: environment variables, the home folder, the canonical form of a path
  that exists, the current folder, JSON text, the error of reading the store, and the clock.
\<close>

record trust_env =
  tv_var :: "str \<Rightarrow> str option"
  tv_home :: "path option"
  tv_canon :: "path \<Rightarrow> path option"
  tv_cwd :: "path option"
  tv_parse :: "str \<Rightarrow> str + json"
  tv_print :: "json \<Rightarrow> str"
  tv_shape :: "json \<Rightarrow> str"
  tv_read :: "str option"
  tv_now :: str

definition path_text :: "path \<Rightarrow> str" where
  "path_text p = (if p \<noteq> [] \<and> hd p = slash then slash @ join slash (tl p) else join slash p)"

definition is_absolute :: "path \<Rightarrow> bool" where
  "is_absolute p \<longleftrightarrow> p \<noteq> [] \<and> hd p = slash"

definition trust_store_path :: "trust_env \<Rightarrow> path" where
  "trust_store_path T =
     join_name (join_name
       (case tv_var T ''XDG_CONFIG_HOME'' of
          Some d \<Rightarrow> path_of d
        | None \<Rightarrow> join_name (case tv_home T of Some h \<Rightarrow> h | None \<Rightarrow> [''.'']) ''.config'') ''pas'') ''trusted.json''"

definition normalize_path :: "trust_env \<Rightarrow> path \<Rightarrow> path" where
  "normalize_path T p =
     (case tv_canon T p of
        Some c \<Rightarrow> c
      | None \<Rightarrow> if is_absolute p then p else (case tv_cwd T of Some d \<Rightarrow> d | None \<Rightarrow> [''.'']) @ p)"

definition make_key :: "trust_env \<Rightarrow> path \<Rightarrow> str \<Rightarrow> str" where
  "make_key T p blake3 = path_text (normalize_path T p) @ NUL @ blake3"

definition entry_json :: "trust_entry \<Rightarrow> json" where
  "entry_json e = JObj [(''path'', JStr (tr_path e)), (''blake3_hash'', JStr (tr_hash e)),
     (''source'', JStr (tr_source e)), (''added_at'', JStr (tr_added_at e))]"

definition dec_entry :: "json \<Rightarrow> trust_entry option" where
  "dec_entry j = do {
     f \<leftarrow> struct_fields [''path'', ''blake3_hash'', ''source'', ''added_at''] j;
     p \<leftarrow> required f ''path'' json_as_str;
     h \<leftarrow> required f ''blake3_hash'' json_as_str;
     s \<leftarrow> required f ''source'' json_as_str;
     a \<leftarrow> required f ''added_at'' json_as_str;
     Some \<lparr>tr_path = p, tr_hash = h, tr_source = s, tr_added_at = a\<rparr>
   }"

fun dec_entries :: "json \<Rightarrow> trust_store option" where
  "dec_entries (JObj kvs) =
     map_option (hm_extend []) (those (map (\<lambda>(k, v). map_option (Pair k) (dec_entry v)) kvs))"
| "dec_entries _ = None"

definition store_json :: "trust_store \<Rightarrow> json" where
  "store_json s = JObj [(''entries'', JObj (map (\<lambda>(k, e). (k, entry_json e)) s))]"

definition dec_store :: "json \<Rightarrow> trust_store option" where
  "dec_store j = do {
     f \<leftarrow> struct_fields [''entries''] j;
     required f ''entries'' dec_entries
   }"

definition load_store :: "trust_env \<Rightarrow> fs \<Rightarrow> trust_error + trust_store" where
  "load_store T fs =
     (case fs (trust_store_path T) of
        None \<Rightarrow> Inr []
      | Some content \<Rightarrow>
          (case tv_read T of
             Some e \<Rightarrow> Inl (CorruptedStore e)
           | None \<Rightarrow>
               (case tv_parse T content of
                  Inl e \<Rightarrow> Inl (CorruptedStore e)
                | Inr j \<Rightarrow>
                    (case dec_store j of None \<Rightarrow> Inl (CorruptedStore (tv_shape T j)) | Some s \<Rightarrow> Inr s))))"

text \<open>
  The store is written to a temporary file that then replaces it; an error at any step before that, the first
  of which is \<open>fault\<close>, leaves it as it was.
\<close>

definition save_store :: "trust_env \<Rightarrow> str option \<Rightarrow> trust_store \<Rightarrow> fs \<Rightarrow> (trust_error + unit) \<times> fs" where
  "save_store T fault s fs =
     (case fault of
        Some e \<Rightarrow> (Inl (CorruptedStore e), fs)
      | None \<Rightarrow> (Inr (), fs(trust_store_path T \<mapsto> tv_print T (store_json s))))"

definition is_trusted :: "trust_env \<Rightarrow> path \<Rightarrow> str \<Rightarrow> fs \<Rightarrow> bool" where
  "is_trusted T p blake3 fs =
     (if tv_var T ''PAS_TRUST_THIS'' = Some ''1'' then True
      else case load_store T fs of
             Inl _ \<Rightarrow> False
           | Inr s \<Rightarrow> hm_contains s (make_key T p blake3))"

definition add_trust :: "trust_env \<Rightarrow> str option \<Rightarrow> path \<Rightarrow> str \<Rightarrow> str \<Rightarrow> fs \<Rightarrow> (trust_error + unit) \<times> fs" where
  "add_trust T fault p blake3 source fs =
     (case load_store T fs of
        Inl e \<Rightarrow> (Inl e, fs)
      | Inr s \<Rightarrow>
          save_store T fault
            (hm_insert (make_key T (normalize_path T p) blake3)
              \<lparr>tr_path = path_text (normalize_path T p), tr_hash = blake3, tr_source = source, tr_added_at = tv_now T\<rparr> s) fs)"

definition remove_trust :: "trust_env \<Rightarrow> str option \<Rightarrow> path \<Rightarrow> str \<Rightarrow> fs \<Rightarrow> (trust_error + unit) \<times> fs" where
  "remove_trust T fault p blake3 fs =
     (case load_store T fs of
        Inl e \<Rightarrow> (Inl e, fs)
      | Inr s \<Rightarrow> save_store T fault (hm_remove (make_key T p blake3) s) fs)"

definition list_trusted :: "trust_env \<Rightarrow> fs \<Rightarrow> trust_error + trust_entry list" where
  "list_trusted T fs = rbind (load_store T fs) (\<lambda>s. Inr (hm_values s))"

text \<open>A person is asked only at a terminal; \<open>answer\<close> is what reading a line gives.\<close>

definition interactive :: "trust_env \<Rightarrow> bool \<Rightarrow> bool" where
  "interactive T tty \<longleftrightarrow> tty \<and> tv_var T ''PAS_NON_INTERACTIVE'' \<noteq> Some ''1'' \<and> tv_var T ''PAS_AGENT'' \<noteq> Some ''1''"

definition prompt_and_add ::
  "trust_env \<Rightarrow> str option \<Rightarrow> bool \<Rightarrow> str + str \<Rightarrow> path \<Rightarrow> str \<Rightarrow> fs \<Rightarrow> (trust_error + bool) \<times> fs" where
  "prompt_and_add T fault tty answer p blake3 fs =
     (if \<not> interactive T tty then (Inr False, fs)
      else case answer of
             Inl e \<Rightarrow> (Inl (CorruptedStore e), fs)
           | Inr input \<Rightarrow>
               if lowercase (trim input) = ''y''
               then (let (r, fs') = add_trust T fault p blake3 ''prompt'' fs
                     in (case r of Inl e \<Rightarrow> Inl e | Inr _ \<Rightarrow> Inr True, fs'))
               else (Inr False, fs))"

section \<open>What is found\<close>

fun ancestor :: "nat \<Rightarrow> path \<Rightarrow> path option" where
  "ancestor 0 d = Some d"
| "ancestor (Suc k) d = Option.bind (path_parent d) (ancestor k)"

definition passed_over :: "(path \<Rightarrow> bool) \<Rightarrow> path \<Rightarrow> bool" where
  "passed_over exists d \<longleftrightarrow> \<not> exists (join_name d MANIFEST_FILE) \<and> \<not> exists (join_name d ''.git'')"

lemma search_up_iff:
  "search_up n exists d = Some c \<longleftrightarrow>
     (\<exists>k p. k < n \<and> ancestor k d = Some p \<and> c = join_name p MANIFEST_FILE \<and> exists c \<and>
        (\<forall>j<k. \<exists>q. ancestor j d = Some q \<and> passed_over exists q))"
proof (induction n arbitrary: d)
  case (Suc n)
  show ?case (is "_ \<longleftrightarrow> ?R")
  proof (cases "exists (join_name d MANIFEST_FILE)")
    case True
    have "?R \<longleftrightarrow> c = join_name d MANIFEST_FILE"
    proof
      assume ?R
      then obtain k p where k: "ancestor k d = Some p" "c = join_name p MANIFEST_FILE" "\<forall>j<k. \<exists>q. ancestor j d = Some q \<and> passed_over exists q"
        by blast
      have "k = 0" using k(3) True by (auto simp: passed_over_def intro: ccontr)
      with k show "c = join_name d MANIFEST_FILE" by simp
    qed (use True in \<open>intro exI [of _ 0] exI [of _ d], simp\<close>)
    then show ?thesis using True by auto
  next
    case no: False
    show ?thesis
    proof (cases "exists (join_name d ''.git'') \<or> path_parent d = None")
      case True
      have "\<not> ?R"
      proof
        assume ?R
        then obtain k p where k: "ancestor k d = Some p" "c = join_name p MANIFEST_FILE" "exists c"
          "\<forall>j<k. \<exists>q. ancestor j d = Some q \<and> passed_over exists q" by blast
        then obtain i where "k = Suc i" using no by (cases k) auto
        with k True show False by (auto simp: passed_over_def)
      qed
      then show ?thesis using no True by (auto split: option.splits)
    next
      case False
      then obtain u where u: "path_parent d = Some u" "\<not> exists (join_name d ''.git'')" by auto
      have "?R \<longleftrightarrow> (\<exists>k p. k < n \<and> ancestor k u = Some p \<and> c = join_name p MANIFEST_FILE \<and> exists c \<and>
        (\<forall>j<k. \<exists>q. ancestor j u = Some q \<and> passed_over exists q))" (is "_ \<longleftrightarrow> ?S")
      proof
        assume ?R
        then obtain k p where k: "k < Suc n" "ancestor k d = Some p" "c = join_name p MANIFEST_FILE" "exists c"
          "\<forall>j<k. \<exists>q. ancestor j d = Some q \<and> passed_over exists q" by blast
        then obtain i where i: "k = Suc i" using no by (cases k) auto
        have "\<forall>j<i. \<exists>q. ancestor j u = Some q \<and> passed_over exists q"
          using k(5) i u by (metis Suc_mono ancestor.simps(2) bind.bind_lunit)
        then show ?S using k i u by auto
      next
        assume ?S
        then obtain k p where k: "k < n" "ancestor k u = Some p" "c = join_name p MANIFEST_FILE" "exists c"
          "\<forall>j<k. \<exists>q. ancestor j u = Some q \<and> passed_over exists q" by blast
        have "\<forall>j<Suc k. \<exists>q. ancestor j d = Some q \<and> passed_over exists q"
        proof (intro allI impI)
          fix j assume "j < Suc k"
          then show "\<exists>q. ancestor j d = Some q \<and> passed_over exists q"
            using k(5) u no by (cases j) (auto simp: passed_over_def)
        qed
        then show ?R using k u by (intro exI [of _ "Suc k"] exI [of _ p]) simp
      qed
      then show ?thesis using no u Suc.IH [of u] by simp
    qed
  qed
qed simp

text \<open>
  The manifest that rules a folder is the nearest one: it is found exactly when one of the first
  sixteen folders upwards has it and no folder below that has a manifest or a \<open>.git\<close>.
\<close>

theorem nearest_manifest:
  "search_up MAX_ASCENTS exists d = Some c \<longleftrightarrow>
     (\<exists>k p. k < 16 \<and> ancestor k d = Some p \<and> c = join_name p MANIFEST_FILE \<and> exists c \<and>
        list_all (\<lambda>j. case ancestor j d of
            Some q \<Rightarrow> \<not> exists (join_name q MANIFEST_FILE) \<and> \<not> exists (join_name q ''.git'') | None \<Rightarrow> False) [0..<k])"
proof -
  have "list_all (\<lambda>j. case ancestor j d of
      Some q \<Rightarrow> \<not> exists (join_name q MANIFEST_FILE) \<and> \<not> exists (join_name q ''.git'') | None \<Rightarrow> False) [0..<k] \<longleftrightarrow>
    (\<forall>j<k. \<exists>q. ancestor j d = Some q \<and> passed_over exists q)" for k
    unfolding list_all_iff passed_over_def by (force split: option.splits)
  then show ?thesis unfolding search_up_iff MAX_ASCENTS_def by simp
qed

section \<open>What is trusted\<close>

lemma dec_entry_json: "dec_entry (entry_json e) = Some e"
  by (cases e) (simp add: dec_entry_def entry_json_def required_def)

lemma dec_entries_json: "dec_entries (JObj (map (\<lambda>(k, e). (k, entry_json e)) s)) = Some (hm_extend [] s)"
proof -
  have "those (map (\<lambda>(k, v). map_option (Pair k) (dec_entry v)) (map (\<lambda>(k, e). (k, entry_json e)) s)) = Some s"
    by (induction s) (auto simp: dec_entry_json)
  then show ?thesis by simp
qed

lemma dec_store_json: "dec_store (store_json s) = Some (hm_extend [] s)"
  using dec_entries_json [of s] by (simp add: dec_store_def store_json_def required_def)

definition store_readable :: "trust_env \<Rightarrow> bool" where
  "store_readable T \<longleftrightarrow> tv_read T = None \<and> (\<forall>j. tv_parse T (tv_print T j) = Inr j)"

lemma load_saved:
  assumes "store_readable T" "save_store T fault s fs = (Inr (), fs')"
  shows "load_store T fs' = Inr (hm_extend [] s)"
  using assms by (auto simp: save_store_def load_store_def store_readable_def dec_store_json split: option.splits)

lemma load_store_wf: "load_store T fs = Inr s \<Longrightarrow> hm_wf s"
proof -
  assume l: "load_store T fs = Inr s"
  have "hm_wf s" if "dec_store j = Some s" for j
  proof -
    from that obtain e where "dec_entries e = Some s"
      by (auto simp: dec_store_def required_def split: Option.bind_splits option.splits)
    then show ?thesis by (cases e) auto
  qed
  with l show ?thesis by (auto simp: load_store_def split: option.splits sum.splits)
qed

lemma is_trusted_loaded:
  "load_store T fs = Inr s \<Longrightarrow>
   is_trusted T p b fs \<longleftrightarrow> tv_var T ''PAS_TRUST_THIS'' = Some ''1'' \<or> hm_get s (make_key T p b) \<noteq> None"
  by (auto simp: is_trusted_def hm_contains_get)

lemma extended_contains: "hm_wf s \<Longrightarrow> hm_get (hm_extend [] s) k = hm_get s k"
  by (simp add: hm_get_extend split: option.split)

text \<open>
  Trust is exactly what was given: after a manifest was added and then another removed, a
  manifest is trusted when its path and hash are those that were added, or it was trusted before, and they are
  not those that were removed; \<open>PAS_TRUST_THIS=1\<close> trusts everything.
\<close>

theorem trust_exact:
  assumes "add_trust T f1 p b src fs = (Inr (), fs1)" "remove_trust T f2 p' b' fs1 = (Inr (), fs2)"
    and "store_readable T" "normalize_path T (normalize_path T p) = normalize_path T p"
    and "tv_var T ''PAS_TRUST_THIS'' \<noteq> Some ''1''"
  shows "is_trusted T q h fs2 \<longleftrightarrow>
    make_key T q h \<noteq> make_key T p' b' \<and> (make_key T q h = make_key T p b \<or> is_trusted T q h fs)"
proof -
  obtain s where s: "load_store T fs = Inr s" using assms(1) by (auto simp: add_trust_def split: sum.splits)
  note wf = load_store_wf [OF s]
  define e where "e = \<lparr>tr_path = path_text (normalize_path T p), tr_hash = b, tr_source = src, tr_added_at = tv_now T\<rparr>"
  have k: "make_key T (normalize_path T p) b = make_key T p b" using assms(4) by (simp add: make_key_def)
  have "save_store T f1 (hm_insert (make_key T p b) e s) fs = (Inr (), fs1)"
    using assms(1) s k by (simp add: add_trust_def e_def)
  then have s1: "load_store T fs1 = Inr (hm_extend [] (hm_insert (make_key T p b) e s))"
    using assms(3) by (intro load_saved)
  let ?s1 = "hm_extend [] (hm_insert (make_key T p b) e s)"
  have "save_store T f2 (hm_remove (make_key T p' b') ?s1) fs1 = (Inr (), fs2)"
    using assms(2) s1 by (simp add: remove_trust_def)
  then have s2: "load_store T fs2 = Inr (hm_extend [] (hm_remove (make_key T p' b') ?s1))"
    using assms(3) by (intro load_saved)
  have wf1: "hm_wf ?s1" by simp
  have "hm_get (hm_extend [] (hm_remove (make_key T p' b') ?s1)) i =
      (if i = make_key T p' b' then None else if i = make_key T p b then Some e else hm_get s i)" for i
    using wf wf1 by (simp add: extended_contains hm.get_rem)
  then show ?thesis using is_trusted_loaded [OF s2] is_trusted_loaded [OF s] assms(5) by auto
qed

end
