(* ===== verification/Quality_Handler.thy ===== *)
theory Quality_Handler
  imports Tool_Handler Quality_Manifest
begin

text \<open>
  The quality handler (\<open>handlers/quality_handler.rs\<close>): takes its stages from a trusted manifest or from the
  node, runs them one after the other in a reduced environment, and stops at the first that fails.
\<close>

section \<open>Text of a stage\<close>

definition QUALITY :: str where "QUALITY = ''quality''"

definition ENV_ALLOWLIST :: "str list" where
  "ENV_ALLOWLIST =
     [''PATH'', ''HOME'', ''LANG'', ''LC_ALL'', ''LC_CTYPE'', ''USER'', ''LOGNAME'', ''TMPDIR'', ''TEMP'', ''TMP'', ''TERM'',
      ''SHELL'', ''CARGO_HOME'', ''RUSTUP_HOME'']"

definition HEAD_LINES :: nat where "HEAD_LINES = 50"
definition TAIL_LINES :: nat where "TAIL_LINES = 50"
definition MAX_CAPTURE_BYTES :: nat where "MAX_CAPTURE_BYTES = 1048576"

definition capped_utf8 :: "str \<Rightarrow> str" where
  "capped_utf8 bytes = utf8_lossy (take MAX_CAPTURE_BYTES bytes)"

definition ESC :: char where "ESC = CHR 0x1B"

text \<open>What follows \<open>ESC [\<close> up to and with the first byte of \<open>@\<close> to \<open>~\<close>.\<close>

fun after_escape :: "str \<Rightarrow> str" where
  "after_escape [] = []"
| "after_escape (c # s) = (if 64 \<le> byte c \<and> byte c \<le> 126 then s else after_escape s)"

lemma after_escape_length: "length (after_escape s) \<le> length s"
  by (induction s) auto

function strip_ansi_escapes :: "str \<Rightarrow> str" where
  "strip_ansi_escapes [] = []"
| "strip_ansi_escapes (c # s) =
     (if c = ESC \<and> starts_with ''['' s then strip_ansi_escapes (after_escape (tl s)) else c # strip_ansi_escapes s)"
  by pat_completeness auto
termination
proof (relation "measure length")
  show "(after_escape (tl s), c # s) \<in> measure length" if "c = ESC \<and> starts_with ''['' s" for c s
    using after_escape_length [of "tl s"] by (simp add: le_imp_less_Suc order.trans)
qed simp_all

definition omitted_line :: "nat \<Rightarrow> str" where
  "omitted_line n = nl @ ''... ('' @ show_nat n @ '' lines omitted) ...'' @ nl"

definition truncate_head_tail :: "str \<Rightarrow> nat \<Rightarrow> nat \<Rightarrow> str" where
  "truncate_head_tail t head_n tail_n =
     (let ls = str_lines t; total = length ls
      in if total \<le> head_n + tail_n then trim_end t
         else join nl (take head_n ls) @ omitted_line (total - head_n - tail_n) @ join nl (drop (total - tail_n) ls))"

text \<open>The hash of the stage and of the first 2 KB of its error output; \<open>hex\<close> is BLAKE3 in hexadecimal.\<close>

definition safe_end :: "str \<Rightarrow> nat" where
  "safe_end s =
     (case find (char_boundary s) (rev [0..<min (length s) 2048 + 1]) of Some i \<Rightarrow> i | None \<Rightarrow> 0)"

definition failure_footprint :: "(str \<Rightarrow> str) \<Rightarrow> str \<Rightarrow> str \<Rightarrow> str" where
  "failure_footprint hex stage stderr = take 16 (hex (stage @ ''|'' @ take (safe_end stderr) stderr))"

section \<open>Stages\<close>

record stage_spec =
  sp_name :: str
  sp_argv :: "str list"
  sp_timeout_secs :: "nat option"
  sp_allow_failure :: bool

definition shell_argv :: "str \<Rightarrow> str list" where
  "shell_argv c = [''sh'', ''-c'', c]"

text \<open>\<open>split\<close> is \<open>shlex::split\<close>.\<close>

definition resolve_argv :: "(str \<Rightarrow> str list option) \<Rightarrow> str \<Rightarrow> hook_config option \<Rightarrow> str list" where
  "resolve_argv split stage hook =
     (case hook of
        None \<Rightarrow> shell_argv stage
      | Some h \<Rightarrow>
          (case hk_cmd_argv h of
             Some (a # as) \<Rightarrow> a # as
           | _ \<Rightarrow>
               (case hk_cmd h of
                  None \<Rightarrow> shell_argv stage
                | Some c \<Rightarrow> (case split c of Some (p # ps) \<Rightarrow> p # ps | _ \<Rightarrow> shell_argv c))))"

definition stage_of :: "(str \<Rightarrow> str list option) \<Rightarrow> quality_section \<Rightarrow> str \<Rightarrow> stage_spec" where
  "stage_of split q s =
     (let hook = hm_get (qs_hooks q) s
      in \<lparr>sp_name = s, sp_argv = resolve_argv split s hook, sp_timeout_secs = Option.bind hook hk_timeout_secs,
          sp_allow_failure = (case Option.bind hook hk_allow_failure of Some b \<Rightarrow> b | None \<Rightarrow> False)\<rparr>)"

definition quality_error :: "pipeline_node \<Rightarrow> str \<Rightarrow> error" where
  "quality_error n m = HandlerError QUALITY (pn_id n) m"

definition no_checks :: "pipeline_node \<Rightarrow> error" where
  "no_checks n = quality_error n (''missing required attribute '' @ sq ''quality_checks'')"

definition shell_stage :: "str \<Rightarrow> stage_spec" where
  "shell_stage c = \<lparr>sp_name = c, sp_argv = shell_argv c, sp_timeout_secs = None, sp_allow_failure = False\<rparr>"

definition stages_from_attr :: "pipeline_node \<Rightarrow> stage_spec list result" where
  "stages_from_attr n =
     (case hm_get (pn_raw n) ''quality_checks'' of
        Some (AString s) \<Rightarrow> Inr (map (\<lambda>c. shell_stage (trim c)) (split_on ''|'' s))
      | _ \<Rightarrow> Inl (no_checks n))"

section \<open>The surroundings of the handler\<close>

text \<open>
  Environment variables, the monotonic clock in nanoseconds, BLAKE3, \<open>shlex\<close>, the store of trusted manifests with
  the files it is in, and the terminal.
\<close>

record 'w quality_env =
  qe_var :: "str \<Rightarrow> str option"
  qe_clock :: "'w \<Rightarrow> nat"
  qe_hex :: "str \<Rightarrow> str"
  qe_split :: "str \<Rightarrow> str list option"
  qe_trust :: trust_env
  qe_files :: "'w \<Rightarrow> fs"
  qe_put_files :: "fs \<Rightarrow> 'w \<Rightarrow> 'w"
  qe_tty :: bool
  qe_line :: "'w \<Rightarrow> (str + str) \<times> 'w"
  qe_save_fault :: "'w \<Rightarrow> str option"

definition ask_trust :: "'w quality_env \<Rightarrow> path \<Rightarrow> str \<Rightarrow> 'w \<Rightarrow> (trust_error + bool) \<times> 'w" where
  "ask_trust Q p h w =
     (if \<not> interactive (qe_trust Q) (qe_tty Q) then (Inr False, w)
      else let (input, w1) = qe_line Q w;
               (r, fs) = prompt_and_add (qe_trust Q) (qe_save_fault Q w1) (qe_tty Q) input p h (qe_files Q w1)
           in (r, qe_put_files Q fs w1))"

definition untrusted_error :: "pipeline_node \<Rightarrow> path \<Rightarrow> str \<Rightarrow> error" where
  "untrusted_error n p h = quality_error n
     (''pas.toml at '' @ path_text p @ '' is not trusted; run '' @ backquoted (''pas trust add '' @ path_text p @ '' '' @ h)
      @ '' or set PAS_TRUST_THIS=1'')"

definition trust_check_error :: "pipeline_node \<Rightarrow> trust_error \<Rightarrow> error" where
  "trust_check_error n e = quality_error n (''failed to check pas.toml trust: ''
     @ (case e of CorruptedStore m \<Rightarrow> ''trust store is corrupted: '' @ m))"

definition ensure_manifest_trusted :: "'w quality_env \<Rightarrow> pipeline_node \<Rightarrow> path \<Rightarrow> str \<Rightarrow> ('w, unit) hact" where
  "ensure_manifest_trusted Q n p h =
     hbind (hsense (\<lambda>w. is_trusted (qe_trust Q) p h (qe_files Q w))) (\<lambda>ok.
     if ok then hret ()
     else hbind (hworld (ask_trust Q p h)) (\<lambda>r.
          case r of
            Inr True \<Rightarrow> hret ()
          | Inr False \<Rightarrow> hfail (untrusted_error n p h)
          | Inl e \<Rightarrow> hfail (trust_check_error n e)))"

definition quality_stages :: "'w quality_env \<Rightarrow> pipeline_node \<Rightarrow> resolved_manifest option \<Rightarrow> ('w, stage_spec list) hact" where
  "quality_stages Q n m =
     (case Option.bind m (\<lambda>rm. map_option (Pair rm) (mf_quality (rm_manifest rm))) of
        Some (rm, q) \<Rightarrow>
          if qs_stages q \<noteq> []
          then hbind (ensure_manifest_trusted Q n (rm_path rm) (rm_hash rm)) (\<lambda>_.
               hret (map (stage_of (qe_split Q) q) (qs_stages q)))
          else hlift (stages_from_attr n)
      | None \<Rightarrow> hlift (stages_from_attr n))"

section \<open>Running a stage\<close>

definition NODE_TIMEOUT :: nat where "NODE_TIMEOUT = 600000"

text \<open>Limits in nanoseconds: of the node, the part of it kept for stopping a stage, and of a stage.\<close>

definition node_timeout_margin :: "nat \<Rightarrow> nat" where
  "node_timeout_margin t = min (t div 10) 5000000000"

definition node_deadline :: "pipeline_node \<Rightarrow> nat \<Rightarrow> nat option" where
  "node_deadline n now = map_option (\<lambda>ms. now + (nanos ms - node_timeout_margin (nanos ms))) (pn_timeout n)"

definition stage_limit :: "pipeline_node \<Rightarrow> nat option \<Rightarrow> stage_spec \<Rightarrow> nat \<Rightarrow> nat" where
  "stage_limit n deadline st now =
     (let own = (case sp_timeout_secs st of
            Some secs \<Rightarrow> secs * 1000000000
          | None \<Rightarrow> nanos (case pn_timeout n of Some ms \<Rightarrow> ms | None \<Rightarrow> NODE_TIMEOUT))
      in case deadline of Some d \<Rightarrow> min own (d - now) | None \<Rightarrow> own)"

definition stage_command :: "'w quality_env \<Rightarrow> str \<Rightarrow> str \<Rightarrow> str list \<Rightarrow> command" where
  "stage_command Q workdir program args =
     \<lparr>cm_program = program, cm_args = args, cm_dir = Some workdir,
      cm_envs = List.map_filter (\<lambda>k. map_option (Pair k) (qe_var Q k)) ENV_ALLOWLIST, cm_clear_env = True\<rparr>"

definition empty_argv :: "pipeline_node \<Rightarrow> stage_spec \<Rightarrow> error" where
  "empty_argv n st = quality_error n (''stage '' @ sq (sp_name st) @ '' has empty argv'')"

definition stage_spawn_error :: "pipeline_node \<Rightarrow> stage_spec \<Rightarrow> str \<Rightarrow> error" where
  "stage_spawn_error n st e = quality_error n (''failed to spawn stage '' @ sq (sp_name st) @ '': '' @ e)"

definition stage_io_error :: "pipeline_node \<Rightarrow> stage_spec \<Rightarrow> str \<Rightarrow> error" where
  "stage_io_error n st e = quality_error n (''stage '' @ sq (sp_name st) @ '' I/O error: '' @ e)"

definition timeout_text :: "stage_spec \<Rightarrow> nat \<Rightarrow> str \<Rightarrow> str \<Rightarrow> str" where
  "timeout_text st limit err out =
     ''stage '' @ sq (sp_name st) @ '' timed out after '' @ show_nat (limit div 1000000) @ ''ms'' @ nl @ trim_end err @ nl
     @ ''--- stdout ---'' @ nl @ trim_end out"

text \<open>The result of a stage; its JSON form has its keys in order.\<close>

record stage_result =
  sr_stage :: str
  sr_exit_code :: int
  sr_passed :: bool
  sr_stderr :: str
  sr_footprint :: "str option"
  sr_duration_ms :: nat
  sr_timed_out :: bool

definition stage_json :: "stage_result \<Rightarrow> json" where
  "stage_json r = JObj
     [(''duration_ms'', JInt (int (sr_duration_ms r))), (''exit_code'', JInt (sr_exit_code r)),
      (''failure_footprint'', case sr_footprint r of Some f \<Rightarrow> JStr f | None \<Rightarrow> JNull),
      (''passed'', JBool (sr_passed r)), (''stage'', JStr (sr_stage r)), (''stderr'', JStr (sr_stderr r)),
      (''timed_out'', JBool (sr_timed_out r))]"

definition stage_result_of ::
  "'w quality_env \<Rightarrow> stage_spec \<Rightarrow> nat \<Rightarrow> nat \<Rightarrow> int option option \<Rightarrow> str \<Rightarrow> str \<Rightarrow> stage_result" where
  "stage_result_of Q st limit duration code stdout stderr =
     (let timed_out = (code = None);
          ok = (code = Some (Some 0));
          clean = strip_ansi_escapes (capped_utf8 stderr);
          err = (if timed_out then timeout_text st limit clean (strip_ansi_escapes (capped_utf8 stdout)) else clean)
      in \<lparr>sr_stage = sp_name st, sr_exit_code = exit_number (Option.bind code id), sr_passed = (ok \<or> sp_allow_failure st),
          sr_stderr = truncate_head_tail err HEAD_LINES TAIL_LINES,
          sr_footprint = (if ok then None else Some (failure_footprint (qe_hex Q) (sp_name st) err)),
          sr_duration_ms = as_u64 (duration div 1000000), sr_timed_out = timed_out\<rparr>)"

definition run_stage ::
  "'w host \<Rightarrow> 'w quality_env \<Rightarrow> pipeline_node \<Rightarrow> str \<Rightarrow> nat option \<Rightarrow> stage_spec \<Rightarrow> ('w, stage_result) hact" where
  "run_stage H Q n workdir deadline st =
     hbind (hsense (qe_clock Q)) (\<lambda>now.
     let limit = stage_limit n deadline st now
     in hbind (hsense (qe_clock Q)) (\<lambda>start.
        case sp_argv st of
          [] \<Rightarrow> hfail (empty_argv n st)
        | program # args \<Rightarrow>
            hbind (hworld (ho_within H (stage_command Q workdir program args) limit)) (\<lambda>r.
            hbind (hsense (qe_clock Q)) (\<lambda>stop.
            case r of
              SpawnFailed e \<Rightarrow> hfail (stage_spawn_error n st e)
            | WaitFailed e \<Rightarrow> hfail (stage_io_error n st e)
            | Ended code out err \<Rightarrow> hret (stage_result_of Q st limit (stop - start) (Some code) out err)
            | TimedOut out err \<Rightarrow> hret (stage_result_of Q st limit (stop - start) None out err)))))"

text \<open>The loop over the stages: it stops after the first that did not pass.\<close>

fun run_stages ::
  "'w host \<Rightarrow> 'w quality_env \<Rightarrow> pipeline_node \<Rightarrow> str \<Rightarrow> nat option \<Rightarrow> stage_spec list \<Rightarrow> ('w, stage_result list) hact" where
  "run_stages H Q n workdir deadline [] = hret []"
| "run_stages H Q n workdir deadline (st # sts) =
     hbind (run_stage H Q n workdir deadline st) (\<lambda>r.
     if sr_passed r
     then hbind (run_stages H Q n workdir deadline sts) (\<lambda>rs. hret (r # rs))
     else hret [r])"

definition all_passed :: "stage_result list \<Rightarrow> bool" where
  "all_passed rs \<longleftrightarrow> list_all sr_passed rs"

definition failure_summary :: "stage_result list \<Rightarrow> str" where
  "failure_summary rs = join nl (map sr_stderr (filter (\<lambda>r. \<not> sr_passed r \<and> sr_stderr r \<noteq> []) rs))"

definition quality_outcome :: "pipeline_node \<Rightarrow> stage_result list \<Rightarrow> outcome" where
  "quality_outcome n rs =
     \<lparr>status = (if all_passed rs then Success else Fail), preferred_label = None, suggested_next_ids = [],
      context_updates =
        [(pn_id n @ ''.results'', JArr (map stage_json rs)), (pn_id n @ ''.completed'', JBool (all_passed rs))]
        @ (if all_passed rs then [] else [(pn_id n @ ''.failure_summary'', JStr (failure_summary rs))]),
      out_notes = [],
      failure_reason = (if all_passed rs then None else Some ''one or more quality stages failed'')\<rparr>"

definition run_quality ::
  "'w host \<Rightarrow> 'w quality_env \<Rightarrow> pipeline_node \<Rightarrow> bool \<Rightarrow> str \<Rightarrow> resolved_manifest option \<Rightarrow> ('w, outcome) hact" where
  "run_quality H Q n disabled workdir m =
     (if hm_get (pn_raw n) ''enabled'' = Some (ABoolean False)
      then hret (outcome_success ''Quality checks disabled via node attribute'')
      else if disabled then hret (outcome_success ''Quality checks disabled via runtime flag'')
      else hbind (quality_stages Q n m) (\<lambda>stages.
           hbind (hsense (qe_clock Q)) (\<lambda>now.
           hbind (run_stages H Q n workdir (node_deadline n now) stages) (\<lambda>rs.
           hret (quality_outcome n rs)))))"

text \<open>
  The handler, with the manifest that the configuration of the run resolved. Without the engine the manifest is
  looked for from the folder on.
\<close>

definition quality_legacy ::
  "'w host \<Rightarrow> 'w quality_env \<Rightarrow> str \<Rightarrow> (str \<Rightarrow> resolution_error + resolved_manifest) \<Rightarrow> pipeline_node \<Rightarrow> ('w, outcome) hact" where
  "quality_legacy H Q cwd find_manifest n = hbind hctx (\<lambda>c.
     let disabled = (case context_get c ''quality_disabled'' of Some (JBool b) \<Rightarrow> b | _ \<Rightarrow> False);
         workdir = (case context_get c ''workdir'' of Some (JStr d) \<Rightarrow> d | _ \<Rightarrow> cwd)
     in run_quality H Q n disabled workdir
          (case find_manifest workdir of Inr m \<Rightarrow> Some m | Inl _ \<Rightarrow> None))"

definition quality_handler ::
  "'w host \<Rightarrow> 'w quality_env \<Rightarrow> str \<Rightarrow> (str \<Rightarrow> resolution_error + resolved_manifest) \<Rightarrow> resolved_manifest option \<Rightarrow> 'w handler" where
  "quality_handler H Q cwd find_manifest m =
     \<lparr>hd_type = QUALITY, hd_provider = None,
      hd_resolved = Some
        \<lparr>te_resolved = \<lambda>n r g. quality_legacy H Q cwd find_manifest n,
         te_configured = \<lambda>n r x g. run_quality H Q n (rv_value (ct_quality_disabled (hx_config x)))
           (rv_value (ct_workdir (hx_config x))) m\<rparr>,
      hd_resumes = False, hd_execute = \<lambda>n g. quality_legacy H Q cwd find_manifest n\<rparr>"

section \<open>Nothing untrusted runs\<close>

lemma hworld_run: "hworld f s = (Inr (fst (f (hr_world s))), s\<lparr>hr_world := snd (f (hr_world s))\<rparr>)"
  by (simp add: hworld_def split: prod.split)

lemma ensure_untrusted:
  assumes "\<not> is_trusted (qe_trust Q) p h (qe_files Q (hr_world s))" "fst (ask_trust Q p h (hr_world s)) \<noteq> Inr True"
  obtains e where "ensure_manifest_trusted Q n p h s = (Inl e, s\<lparr>hr_world := snd (ask_trust Q p h (hr_world s))\<rparr>)"
proof -
  have "hbind (hworld (ask_trust Q p h)) k s = k (fst (ask_trust Q p h (hr_world s))) (s\<lparr>hr_world := snd (ask_trust Q p h (hr_world s))\<rparr>)" for k :: "_ \<Rightarrow> (_, unit) hact"
    by (simp add: hbind_def hworld_run)
  then have e: "ensure_manifest_trusted Q n p h s =
      (case fst (ask_trust Q p h (hr_world s)) of
         Inr ok \<Rightarrow> if ok then hret () else hfail (untrusted_error n p h)
       | Inl e \<Rightarrow> hfail (trust_check_error n e)) (s\<lparr>hr_world := snd (ask_trust Q p h (hr_world s))\<rparr>)"
    using assms(1) by (simp add: ensure_manifest_trusted_def split: sum.split bool.split)
  show thesis
  proof (cases "fst (ask_trust Q p h (hr_world s))")
    case (Inl x)
    then show thesis using e by (intro that [of "trust_check_error n x"]) simp
  next
    case (Inr ok)
    then show thesis using e assms(2) by (intro that [of "untrusted_error n p h"]) simp
  qed
qed

lemma agents_cannot_trust:
  "tv_var (qe_trust Q) ''PAS_AGENT'' = Some ''1'' \<Longrightarrow> ask_trust Q p h w = (Inr False, w)"
  by (simp add: ask_trust_def interactive_def)

text \<open>
  Property C19. A manifest that is not trusted, and that nobody agrees to trust when asked, runs nothing: the
  handler ends with an error, and the world is the one that asking left, whatever its stages are - so no
  process was started -, with the context and the events as they were. An agent is never asked.
\<close>

theorem untrusted_runs_nothing:
  assumes "mf_quality (rm_manifest rm) = Some q" "qs_stages q \<noteq> []"
    and "hm_get (pn_raw n) ''enabled'' \<noteq> Some (ABoolean False)"
    and "\<not> is_trusted (qe_trust Q) (rm_path rm) (rm_hash rm) (qe_files Q (hr_world s))"
    and "tv_var (qe_trust Q) ''PAS_AGENT'' = Some ''1'' \<or> fst (ask_trust Q (rm_path rm) (rm_hash rm) (hr_world s)) \<noteq> Inr True"
  shows "\<exists>e. run_quality H Q n False workdir (Some rm) s =
     (Inl e, s\<lparr>hr_world := (if tv_var (qe_trust Q) ''PAS_AGENT'' = Some ''1'' then hr_world s
                else snd (ask_trust Q (rm_path rm) (rm_hash rm) (hr_world s)))\<rparr>)"
proof -
  have a: "fst (ask_trust Q (rm_path rm) (rm_hash rm) (hr_world s)) \<noteq> Inr True"
    using assms(5) agents_cannot_trust [of Q "rm_path rm" "rm_hash rm" "hr_world s"] by auto
  obtain e where e: "ensure_manifest_trusted Q n (rm_path rm) (rm_hash rm) s =
      (Inl e, s\<lparr>hr_world := snd (ask_trust Q (rm_path rm) (rm_hash rm) (hr_world s))\<rparr>)"
    using assms(4) a by (rule ensure_untrusted)
  then have "run_quality H Q n False workdir (Some rm) s =
      (Inl e, s\<lparr>hr_world := snd (ask_trust Q (rm_path rm) (rm_hash rm) (hr_world s))\<rparr>)"
    using assms(1-3) by (simp add: run_quality_def quality_stages_def hbind_def)
  then show ?thesis by (simp add: agents_cannot_trust)
qed

section \<open>Stages in order, and no further than the first failure\<close>

text \<open>The surroundings of a host that records its commands.\<close>

definition recorded_env :: "'w quality_env \<Rightarrow> (command list \<times> 'w) quality_env" where
  "recorded_env Q =
     \<lparr>qe_var = qe_var Q, qe_clock = \<lambda>(log, w). qe_clock Q w, qe_hex = qe_hex Q, qe_split = qe_split Q,
      qe_trust = qe_trust Q, qe_files = \<lambda>(log, w). qe_files Q w, qe_put_files = \<lambda>fs (log, w). (log, qe_put_files Q fs w),
      qe_tty = qe_tty Q, qe_line = \<lambda>(log, w). (let (l, w') = qe_line Q w in (l, (log, w'))),
      qe_save_fault = \<lambda>(log, w). qe_save_fault Q w\<rparr>"

definition command_of_stage :: "'w quality_env \<Rightarrow> str \<Rightarrow> stage_spec \<Rightarrow> command" where
  "command_of_stage Q workdir st = stage_command Q workdir (hd (sp_argv st)) (tl (sp_argv st))"

lemma run_stage_Inr:
  assumes "run_stage (recorded H) (recorded_env Q) n workdir deadline st s = (Inr r, s')"
  shows "sr_stage r = sp_name st \<and> fst (hr_world s') = fst (hr_world s) @ [command_of_stage Q workdir st] \<and>
    hr_ctx s' = hr_ctx s \<and> hr_events s' = hr_events s"
proof -
  obtain program args where a: "sp_argv st = program # args"
    using assms by (cases "sp_argv st") (simp_all add: run_stage_def Let_def)
  let ?limit = "stage_limit n deadline st (qe_clock (recorded_env Q) (hr_world s))"
  obtain x w where x: "ho_within (recorded H) (stage_command (recorded_env Q) workdir program args) ?limit (hr_world s) = (x, w)"
    by (metis prod.collapse)
  have "stage_command (recorded_env Q) workdir program args = command_of_stage Q workdir st"
    by (simp add: stage_command_def command_of_stage_def recorded_env_def a)
  then have w: "fst w = fst (hr_world s) @ [command_of_stage Q workdir st]" using recorded_within [OF x] by simp
  show ?thesis using assms a x w
    by (cases x) (auto simp: run_stage_def hbind_def [of "hworld _"] hworld_def Let_def stage_result_of_def)
qed

lemma run_stages_Inr:
  assumes "run_stages (recorded H) (recorded_env Q) n workdir deadline sts s = (Inr rs, s')"
  shows "length rs \<le> length sts \<and> (length rs < length sts \<longrightarrow> \<not> all_passed rs) \<and> list_all sr_passed (butlast rs) \<and>
    map sr_stage rs = map sp_name (take (length rs) sts) \<and>
    fst (hr_world s') = fst (hr_world s) @ map (command_of_stage Q workdir) (take (length rs) sts) \<and>
    hr_ctx s' = hr_ctx s \<and> hr_events s' = hr_events s"
  using assms
proof (induction sts arbitrary: s rs s')
  case (Cons st sts)
  from Cons.prems obtain r t where r: "run_stage (recorded H) (recorded_env Q) n workdir deadline st s = (Inr r, t)"
    and rest: "(if sr_passed r then hbind (run_stages (recorded H) (recorded_env Q) n workdir deadline sts) (\<lambda>rs. hret (r # rs))
        else hret [r]) t = (Inr rs, s')"
    unfolding run_stages.simps by (rule hbindE)
  note one = run_stage_Inr [OF r]
  show ?case
  proof (cases "sr_passed r")
    case False
    then show ?thesis using rest one by (auto simp: all_passed_def)
  next
    case True
    then have "hbind (run_stages (recorded H) (recorded_env Q) n workdir deadline sts) (\<lambda>rs. hret (r # rs)) t = (Inr rs, s')"
      using rest by simp
    then obtain rs' u where m: "run_stages (recorded H) (recorded_env Q) n workdir deadline sts t = (Inr rs', u)"
      and "hret (r # rs') u = (Inr rs, s')"
      by (rule hbindE)
    then have "rs = r # rs'" "s' = u" by simp_all
    moreover have "list_all sr_passed (butlast (r # rs'))" using Cons.IH [OF m] True by simp
    ultimately show ?thesis using Cons.IH [OF m] one True by (auto simp: all_passed_def)
  qed
qed simp

text \<open>
  Property C20. A quality gate passes exactly when all of its stages passed: the stages were run in their order,
  each by its own command with a cleared environment in the folder of the run, none after the first that failed,
  and the gate's results name exactly the stages that ran.
\<close>

theorem quality_fail_fast:
  assumes "run_quality (recorded H) (recorded_env Q) n False workdir m s = (Inr out, s')"
    and "hm_get (pn_raw n) ''enabled'' \<noteq> Some (ABoolean False)"
    and "quality_stages (recorded_env Q) n m s = (Inr sts, t)"
  shows "\<exists>rs. hm_get (context_updates out) (pn_id n @ ''.results'') = Some (JArr (map stage_json rs)) \<and>
    map sr_stage rs = map sp_name (take (length rs) sts) \<and> list_all sr_passed (butlast rs) \<and>
    status out = (if list_all sr_passed rs then Success else Fail) \<and>
    (status out = Success \<longrightarrow> length rs = length sts) \<and>
    fst (hr_world s') = fst (hr_world t) @ map (command_of_stage Q workdir) (take (length rs) sts) \<and>
    list_all (\<lambda>c. cm_clear_env c \<and> cm_dir c = Some workdir \<and> set (map fst (cm_envs c)) \<subseteq> set ENV_ALLOWLIST)
      (map (command_of_stage Q workdir) sts)"
proof -
  let ?Q = "recorded_env Q" and ?H = "recorded H"
  have "hbind (quality_stages ?Q n m) (\<lambda>stages. hbind (hsense (qe_clock ?Q)) (\<lambda>now.
      hbind (run_stages ?H ?Q n workdir (node_deadline n now) stages) (\<lambda>rs. hret (quality_outcome n rs)))) s = (Inr out, s')"
    using assms(1,2) by (simp add: run_quality_def)
  then have "hbind (run_stages ?H ?Q n workdir (node_deadline n (qe_clock ?Q (hr_world t))) sts) (\<lambda>rs. hret (quality_outcome n rs)) t
      = (Inr out, s')"
    using assms(3) by (simp add: hbind_def [of "quality_stages _ _ _"])
  then obtain rs u where r: "run_stages ?H ?Q n workdir (node_deadline n (qe_clock ?Q (hr_world t))) sts t = (Inr rs, u)"
    and o: "hret (quality_outcome n rs) u = (Inr out, s')"
    by (rule hbindE)
  have out: "out = quality_outcome n rs" "s' = u" using o by simp_all
  have "set (map fst (cm_envs (command_of_stage Q workdir st))) \<subseteq> set ENV_ALLOWLIST" for st
    by (auto simp: command_of_stage_def stage_command_def List.map_filter_def)
  then have "list_all (\<lambda>c. cm_clear_env c \<and> cm_dir c = Some workdir \<and> set (map fst (cm_envs c)) \<subseteq> set ENV_ALLOWLIST)
      (map (command_of_stage Q workdir) sts)"
    by (simp add: list_all_iff command_of_stage_def stage_command_def)
  moreover have "length rs = length sts" if "list_all sr_passed rs"
    using run_stages_Inr [OF r] that by (auto simp: all_passed_def)
  ultimately show ?thesis using run_stages_Inr [OF r] out
    by (intro exI [of _ rs]) (auto simp: quality_outcome_def all_passed_def)
qed

end
