(* ===== verification/Beads_Close.thy ===== *)
theory Beads_Close
  imports Beads_Select
begin

text \<open>
  \<open>beads.close\<close> (\<open>handlers/beads.rs\<close>): closes the claimed task once its commits, as the journal of the
  run lists them, are on the upstream branch.
\<close>

section \<open>beads.close\<close>

record close_attrs =
  ca_require_upstream :: bool
  ca_reason :: "str option"

definition require_error :: "str \<Rightarrow> str" where
  "require_error got = ''attribute '' @ backquoted ''require_upstream'' @ '' must be true or false, got '' @ got"

definition require_of :: "'w host \<Rightarrow> pipeline_node \<Rightarrow> str + bool" where
  "require_of H n =
     (case hm_get (pn_raw n) ''require_upstream'' of
        None \<Rightarrow> Inr True
      | Some (ABoolean v) \<Rightarrow> Inr v
      | Some (AString v) \<Rightarrow>
          if trim v = ''true'' then Inr True
          else if trim v = ''false'' then Inr False
          else Inl (require_error (ho_debug H (trim v)))
      | Some v \<Rightarrow> Inl (require_error (attribute_debug H v)))"

definition reason_of :: "'w host \<Rightarrow> pipeline_node \<Rightarrow> str + str option" where
  "reason_of H n =
     (case hm_get (pn_raw n) ''reason'' of
        None \<Rightarrow> Inr None
      | Some (AString v) \<Rightarrow> Inr (Some v)
      | Some v \<Rightarrow> Inl (''attribute '' @ backquoted ''reason'' @ '' must be a string, got '' @ attribute_debug H v))"

definition close_attrs_of :: "'w host \<Rightarrow> pipeline_node \<Rightarrow> str + close_attrs" where
  "close_attrs_of H n =
     rbind (require_of H n) (\<lambda>r. rbind (reason_of H n) (\<lambda>t. Inr \<lparr>ca_require_upstream = r, ca_reason = t\<rparr>))"

text \<open>The commits a journal gives to a task, in journal order and each once.\<close>

fun event_shas :: "str \<Rightarrow> event_data \<Rightarrow> str list" where
  "event_shas task (JCommitsCreated _ (Some i) commits) = (if i = task then map cr_sha commits else [])"
| "event_shas task _ = []"

definition insert_new :: "str \<Rightarrow> str list \<Rightarrow> str list" where
  "insert_new x xs = (if x \<in> set xs then xs else xs @ [x])"

definition task_commits :: "str \<Rightarrow> journal_event list \<Rightarrow> str list" where
  "task_commits task es = fold (\<lambda>e acc. fold insert_new (event_shas task (je_data e)) acc) es []"

definition close_error :: "pipeline_node \<Rightarrow> str \<Rightarrow> error" where
  "close_error n m = HandlerError close_handler (pn_id n) m"

definition commits_error :: "'w host \<Rightarrow> pipeline_node \<Rightarrow> str \<Rightarrow> str \<Rightarrow> io_error \<Rightarrow> error" where
  "commits_error H n task d e = close_error n (''cannot read the commits of task '' @ sq task @ '' from ''
     @ join_text d EVENTS_FILE @ '': '' @ ho_io_text H e)"

definition read_commits :: "'w host \<Rightarrow> pipeline_node \<Rightarrow> str option \<Rightarrow> str \<Rightarrow> ('w, str list option) hact" where
  "read_commits H n run_dir task =
     (case run_dir of
        None \<Rightarrow> hret None
      | Some d \<Rightarrow>
          hbind (hsense (\<lambda>w. read_all_at (ho_codec H) (\<lambda>p. ho_read H p w) (events_path (path_of d)))) (\<lambda>r.
          case r of
            Inl e \<Rightarrow> hfail (commits_error H n task d e)
          | Inr es \<Rightarrow> hret (Some (task_commits task es))))"

text \<open>A commit that Git does not confirm, for whatever reason, is not on the upstream branch.\<close>

fun unpushed_from :: "'w host \<Rightarrow> str \<Rightarrow> str \<Rightarrow> str list \<Rightarrow> 'w \<Rightarrow> str list \<times> 'w" where
  "unpushed_from H workdir up [] w = ([], w)"
| "unpushed_from H workdir up (sha # rest) w =
     (let (r, w1) = is_ancestor H workdir sha up w;
          (more, w2) = unpushed_from H workdir up rest w1
      in (if r = Inr True then more else sha # more, w2))"

definition unpushed :: "'w host \<Rightarrow> str \<Rightarrow> str list option \<Rightarrow> str option \<Rightarrow> 'w \<Rightarrow> str list \<times> 'w" where
  "unpushed H workdir commits up w =
     (case (commits, up) of
        (Some cs, Some u) \<Rightarrow> unpushed_from H workdir u cs w
      | _ \<Rightarrow> ([], w))"

definition upstream_verified :: "str list option \<Rightarrow> str option \<Rightarrow> str list \<Rightarrow> bool" where
  "upstream_verified commits up un \<longleftrightarrow> commits \<noteq> None \<and> up \<noteq> None \<and> un = []"

text \<open>
  Why a task stays open. A hash is cut to twelve bytes; Git's are hexadecimal, where every byte is a
  character.
\<close>

definition left_open_reason :: "str list option \<Rightarrow> str option \<Rightarrow> str list \<Rightarrow> str" where
  "left_open_reason commits up un =
     (case (commits, up) of
        (None, _) \<Rightarrow> ''no Run Journal records its commits''
      | (Some _, None) \<Rightarrow> ''the branch has no upstream (@'' @ ''{upstream})''
      | (Some _, Some u) \<Rightarrow> show_nat (length un) @ '' commit(s) not on '' @ u @ '': '' @ join '', '' (map (take 12) un))"

definition left_open :: "str \<Rightarrow> str list option \<Rightarrow> str option \<Rightarrow> str list \<Rightarrow> str" where
  "left_open task commits up un = ''task '' @ task @ '' left open: '' @ left_open_reason commits up un"

definition close_vars :: "str \<Rightarrow> str \<Rightarrow> str list \<Rightarrow> str \<Rightarrow> str hmap" where
  "close_vars task title commits up =
     [(''task.id'', task), (''task.title'', title), (''commits'', join '', '' commits), (''upstream'', up)]"

definition close_reason ::
  "'w host \<Rightarrow> pipeline_node \<Rightarrow> str option \<Rightarrow> str \<Rightarrow> str \<Rightarrow> str list \<Rightarrow> str \<Rightarrow> bool \<Rightarrow> str" where
  "close_reason H n template task title commits up verified =
     (let r = (case template of Some t \<Rightarrow> expand_variables t (ho_order H (close_vars task title commits up)) | None \<Rightarrow> [])
      in if trim r \<noteq> [] then r
         else ''Closed by PAS ('' @ pn_id n @ ''): '' @ show_nat (length commits) @ '' Run Commit(s) ''
           @ (if verified then ''on '' @ up else ''not verified on upstream''))"

definition close_failed :: "pipeline_node \<Rightarrow> str \<Rightarrow> beads_error \<Rightarrow> error" where
  "close_failed n task e = close_error n (''cannot close task '' @ sq task @ '': '' @ beads_error_display e)"

definition clear_task :: "ctx \<Rightarrow> ctx" where
  "clear_task c = remove_keys (filter (\<lambda>k. starts_with TASK_PREFIX k) (hm_keys (context_snapshot c))) c"

definition closed_message :: "str \<Rightarrow> str list \<Rightarrow> bool \<Rightarrow> str" where
  "closed_message task commits verified =
     ''closed '' @ task @ '': '' @ show_nat (length commits) @ '' commit(s), upstream ''
       @ (if verified then ''verified'' else ''not verified'')"

definition finish_close ::
  "'w host \<Rightarrow> beads_adapter \<Rightarrow> pipeline_node \<Rightarrow> str \<Rightarrow> bool \<Rightarrow> str option \<Rightarrow> str \<Rightarrow> str list \<Rightarrow> str \<Rightarrow> bool \<Rightarrow> ('w, outcome) hact" where
  "finish_close H adapter n workdir sink template task commits up verified =
     hbind hctx (\<lambda>c.
     let reason = close_reason H n template task (context_get_string c ''task.title'' []) commits up verified
     in hbind (hcall (close_failed n task) (bd_close H (in_dir workdir adapter) task (Some reason))) (\<lambda>_.
        hbind (hemit sink (TaskClosed task reason verified commits)) (\<lambda>_.
        hbind (hset_ctx clear_task) (\<lambda>_.
        hret (outcome_success (closed_message task commits verified))))))"

definition close_claimed ::
  "'w host \<Rightarrow> beads_adapter \<Rightarrow> pipeline_node \<Rightarrow> str \<Rightarrow> str option \<Rightarrow> bool \<Rightarrow> close_attrs \<Rightarrow> str \<Rightarrow> ('w, outcome) hact" where
  "close_claimed H adapter n workdir run_dir sink at task =
     hbind (read_commits H n run_dir task) (\<lambda>commits.
     hbind (hworld (git_upstream H workdir)) (\<lambda>up.
     hbind (hworld (unpushed H workdir commits up)) (\<lambda>un.
     let verified = upstream_verified commits up un
     in if ca_require_upstream at \<and> \<not> verified
        then hret (outcome_fail (left_open task commits up un))
        else finish_close H adapter n workdir sink (ca_reason at) task
               (case commits of Some cs \<Rightarrow> cs | None \<Rightarrow> []) (case up of Some u \<Rightarrow> u | None \<Rightarrow> ''no upstream'') verified)))"

definition no_task :: "pipeline_node \<Rightarrow> error" where
  "no_task n = close_error n ''no Task is claimed: context has no task.id''"

definition close ::
  "'w host \<Rightarrow> beads_adapter \<Rightarrow> pipeline_node \<Rightarrow> bool \<Rightarrow> str \<Rightarrow> str option \<Rightarrow> bool \<Rightarrow> ('w, outcome) hact" where
  "close H adapter n dry_run workdir run_dir sink =
     hbind (hlift (case close_attrs_of H n of Inl e \<Rightarrow> Inl (close_error n e) | Inr a \<Rightarrow> Inr a)) (\<lambda>at.
     hbind hctx (\<lambda>c.
     case claimed_task c of
       None \<Rightarrow> hfail (no_task n)
     | Some task \<Rightarrow>
         if dry_run then hret (outcome_success (''dry run: would close '' @ task))
         else close_claimed H adapter n workdir run_dir sink at task))"

definition close_legacy :: "'w host \<Rightarrow> beads_adapter \<Rightarrow> pipeline_node \<Rightarrow> ('w, outcome) hact" where
  "close_legacy H adapter n = hbind hctx (\<lambda>c. close H adapter n (legacy_dry_run c) (legacy_workdir c) None False)"

definition beads_close_handler :: "'w host \<Rightarrow> beads_adapter \<Rightarrow> 'w handler" where
  "beads_close_handler H adapter =
     \<lparr>hd_type = close_handler, hd_provider = None,
      hd_resolved = Some
        \<lparr>te_resolved = \<lambda>n r g. close_legacy H adapter n,
         te_configured = \<lambda>n r x g. close H adapter n (rv_value (ct_dry_run (hx_config x)))
           (rv_value (ct_workdir (hx_config x))) (hx_run_dir x) (hx_events x)\<rparr>,
      hd_resumes = False, hd_execute = \<lambda>n g. close_legacy H adapter n\<rparr>"

section \<open>What a close does\<close>

lemma set_insert_new: "set (fold insert_new xs acc) = set acc \<union> set xs"
  by (induction xs arbitrary: acc) (auto simp: insert_new_def)

lemma distinct_insert_new: "distinct acc \<Longrightarrow> distinct (fold insert_new xs acc)"
  by (induction xs arbitrary: acc) (auto simp: insert_new_def)

lemma task_commits_set:
  "set (task_commits task es) = (\<Union>e \<in> set es. set (event_shas task (je_data e)))"
proof -
  have "set (fold (\<lambda>e acc. fold insert_new (event_shas task (je_data e)) acc) es acc) =
      set acc \<union> (\<Union>e \<in> set es. set (event_shas task (je_data e)))" for acc
    by (induction es arbitrary: acc) (auto simp: set_insert_new)
  then show ?thesis by (simp add: task_commits_def)
qed

lemma task_commits_distinct: "distinct (task_commits task es)"
proof -
  have "distinct acc \<Longrightarrow> distinct (fold (\<lambda>e acc. fold insert_new (event_shas task (je_data e)) acc) es acc)" for acc
    by (induction es arbitrary: acc) (auto simp: distinct_insert_new)
  then show ?thesis by (simp add: task_commits_def)
qed

lemma read_commits_Inr:
  assumes "read_commits H n run_dir task s = (Inr commits, s')"
  shows "s' = s \<and> (case run_dir of
      None \<Rightarrow> commits = None
    | Some d \<Rightarrow> \<exists>es. read_all_at (ho_codec H) (\<lambda>p. ho_read H p (hr_world s)) (events_path (path_of d)) = Inr es \<and>
        commits = Some (task_commits task es))"
  using assms by (auto simp: read_commits_def split: option.splits sum.splits)

lemma unpushed_from_none:
  "unpushed_from H workdir up cs w = ([], w') \<Longrightarrow> list_all (\<lambda>sha. \<exists>v. fst (is_ancestor H workdir sha up v) = Inr True) cs"
proof (induction cs arbitrary: w)
  case (Cons sha cs)
  then show ?case by (auto split: prod.splits if_splits) (metis fst_conv)
qed simp

text \<open>The state of a close that went through to its end.\<close>

lemma finish_close_Inr:
  assumes "finish_close H adapter n workdir sink template task commits up verified s = (Inr out, s')"
  obtains reason w where "out = outcome_success (closed_message task commits verified)"
    "s' = s\<lparr>hr_ctx := clear_task (hr_ctx s), hr_world := w,
       hr_events := hr_events s @ told sink [TaskClosed task reason verified commits]\<rparr>"
proof -
  define reason where "reason = close_reason H n template task (context_get_string (hr_ctx s) ''task.title'' []) commits up verified"
  have "hbind (hcall (close_failed n task) (bd_close H (in_dir workdir adapter) task (Some reason))) (\<lambda>_.
     hbind (hemit sink (TaskClosed task reason verified commits)) (\<lambda>_.
     hbind (hset_ctx clear_task) (\<lambda>_. hret (outcome_success (closed_message task commits verified))))) s = (Inr out, s')"
    using assms by (simp add: finish_close_def reason_def Let_def)
  then obtain x t where h: "hcall (close_failed n task) (bd_close H (in_dir workdir adapter) task (Some reason)) s = (Inr x, t)"
    and r: "hbind (hemit sink (TaskClosed task reason verified commits)) (\<lambda>_.
     hbind (hset_ctx clear_task) (\<lambda>_. hret (outcome_success (closed_message task commits verified)))) t = (Inr out, s')"
    by (rule hbindE)
  obtain w where t: "t = s\<lparr>hr_world := w\<rparr>" using h by (auto simp: hcall_Inr)
  define u where "u = (if sink then t\<lparr>hr_events := hr_events t @ [TaskClosed task reason verified commits]\<rparr> else t)"
  have "out = outcome_success (closed_message task commits verified) \<and> s' = u\<lparr>hr_ctx := clear_task (hr_ctx u)\<rparr>"
    using r by (simp only: hbind_simps hact_simps u_def prod.inject sum.inject)
  moreover have "u\<lparr>hr_ctx := clear_task (hr_ctx u)\<rparr> = s\<lparr>hr_ctx := clear_task (hr_ctx s), hr_world := w,
       hr_events := hr_events s @ told sink [TaskClosed task reason verified commits]\<rparr>"
    by (cases s) (simp add: u_def t told_def)
  ultimately show thesis using that by blast
qed

lemma close_claimed_Inr:
  assumes "close_claimed H adapter n workdir run_dir sink at task s = (Inr out, s')"
  obtains commits up un w1 w2 where
    "read_commits H n run_dir task s = (Inr commits, s)"
    "git_upstream H workdir (hr_world s) = (up, w1)" "unpushed H workdir commits up w1 = (un, w2)"
    "if ca_require_upstream at \<and> \<not> upstream_verified commits up un
     then out = outcome_fail (left_open task commits up un) \<and> s' = s\<lparr>hr_world := w2\<rparr>
     else finish_close H adapter n workdir sink (ca_reason at) task
            (case commits of Some cs \<Rightarrow> cs | None \<Rightarrow> []) (case up of Some u \<Rightarrow> u | None \<Rightarrow> ''no upstream'')
            (upstream_verified commits up un) (s\<lparr>hr_world := w2\<rparr>) = (Inr out, s')"
proof -
  obtain commits t where r: "read_commits H n run_dir task s = (Inr commits, t)"
    using assms by (auto simp: close_claimed_def hbind_def split: prod.splits sum.splits)
  then have t: "t = s" using read_commits_Inr by blast
  obtain up w1 where u: "git_upstream H workdir (hr_world s) = (up, w1)" by fastforce
  obtain un w2 where v: "unpushed H workdir commits up w1 = (un, w2)" by fastforce
  show thesis
  proof (rule that [of commits up w1 un w2])
    show "if ca_require_upstream at \<and> \<not> upstream_verified commits up un
     then out = outcome_fail (left_open task commits up un) \<and> s' = s\<lparr>hr_world := w2\<rparr>
     else finish_close H adapter n workdir sink (ca_reason at) task
            (case commits of Some cs \<Rightarrow> cs | None \<Rightarrow> []) (case up of Some u \<Rightarrow> u | None \<Rightarrow> ''no upstream'')
            (upstream_verified commits up un) (s\<lparr>hr_world := w2\<rparr>) = (Inr out, s')"
      using assms r u v unfolding close_claimed_def t
      by (cases "ca_require_upstream at \<and> \<not> upstream_verified commits up un")
         (auto simp: hbind_def [of "read_commits _ _ _ _"] hbind_def [of "hworld _"] hworld_def Let_def)
  qed (use r t u v in simp_all)
qed

lemma clear_task_get:
  "hm_wf (ctx_values c) \<Longrightarrow> context_get (clear_task c) k = (if starts_with TASK_PREFIX k then None else context_get c k)"
proof -
  assume wf: "hm_wf (ctx_values c)"
  have "context_get c k = None" if "k \<notin> fst ` set (ctx_values c)"
    using that by (simp add: context_get_def hm_get_def map_of_eq_None_iff)
  then show ?thesis by (auto simp: clear_task_def remove_keys_get [OF wf] context_snapshot_def hm_keys_def)
qed

lemma close_Inr:
  assumes "close H adapter n False workdir run_dir sink s = (Inr out, s')"
  obtains at task where "close_attrs_of H n = Inr at" "claimed_task (hr_ctx s) = Some task"
    "close_claimed H adapter n workdir run_dir sink at task s = (Inr out, s')"
  using assms by (auto simp: close_def split: sum.splits option.splits)

text \<open>
  Property C15. A task whose node requires it is closed only when its commits are on the upstream
  branch: when \<open>beads.close\<close> succeeds, the run has a journal, the branch has an upstream, Git confirmed
  every commit that the journal gives to the task, in whatever attempt, and the event reports exactly
  these commits as verified. The keys of the task, and no others, are gone from the context.
\<close>

theorem close_only_verified:
  assumes "close H adapter n False workdir (Some d) sink s = (Inr out, s')" "status out = Success"
    and "close_attrs_of H n = Inr at" "ca_require_upstream at" "hm_wf (ctx_values (hr_ctx s))"
  shows "\<exists>task up reason commits. claimed_task (hr_ctx s) = Some task \<and>
    fst (git_upstream H workdir (hr_world s)) = Some up \<and>
    (\<exists>es. read_all_at (ho_codec H) (\<lambda>p. ho_read H p (hr_world s)) (events_path (path_of d)) = Inr es \<and>
       set commits = (\<Union>e \<in> set es. set (event_shas task (je_data e)))) \<and> distinct commits \<and>
    list_all (\<lambda>sha. \<exists>w. fst (is_ancestor H workdir sha up w) = Inr True) commits \<and>
    hr_events s' = hr_events s @ told sink [TaskClosed task reason True commits] \<and>
    context_get (hr_ctx s') k = (if starts_with TASK_PREFIX k then None else context_get (hr_ctx s) k)"
proof -
  obtain task where t: "claimed_task (hr_ctx s) = Some task"
    and c: "close_claimed H adapter n workdir (Some d) sink at task s = (Inr out, s')"
    using assms(1,3) by (elim close_Inr) simp
  obtain commits up un w1 w2 where r: "read_commits H n (Some d) task s = (Inr commits, s)"
    and u: "git_upstream H workdir (hr_world s) = (up, w1)" "unpushed H workdir commits up w1 = (un, w2)"
    and f: "if ca_require_upstream at \<and> \<not> upstream_verified commits up un
     then out = outcome_fail (left_open task commits up un) \<and> s' = s\<lparr>hr_world := w2\<rparr>
     else finish_close H adapter n workdir sink (ca_reason at) task
            (case commits of Some cs \<Rightarrow> cs | None \<Rightarrow> []) (case up of Some u \<Rightarrow> u | None \<Rightarrow> ''no upstream'')
            (upstream_verified commits up un) (s\<lparr>hr_world := w2\<rparr>) = (Inr out, s')"
    using c by (rule close_claimed_Inr)
  obtain es where es: "read_all_at (ho_codec H) (\<lambda>p. ho_read H p (hr_world s)) (events_path (path_of d)) = Inr es"
    and commits: "commits = Some (task_commits task es)"
    using read_commits_Inr [OF r] by auto
  have v: "upstream_verified commits up un" using f assms(2,4) by (auto simp: outcome_fail_def split: if_splits)
  then obtain b where up: "up = Some b" and un: "un = []" by (auto simp: upstream_verified_def)
  have "finish_close H adapter n workdir sink (ca_reason at) task (task_commits task es) b True
      (s\<lparr>hr_world := w2\<rparr>) = (Inr out, s')"
    using f v commits up by simp
  then obtain reason where "hr_events s' = hr_events s @ told sink [TaskClosed task reason True (task_commits task es)]"
    "hr_ctx s' = clear_task (hr_ctx s)"
    by (elim finish_close_Inr) simp
  moreover have "list_all (\<lambda>sha. \<exists>w. fst (is_ancestor H workdir sha b w) = Inr True) (task_commits task es)"
    using u(2) commits up un by (intro unpushed_from_none) (simp add: unpushed_def)
  moreover have "fst (git_upstream H workdir (hr_world s)) = Some b" using u(1) up by simp
  ultimately show ?thesis
    using t es task_commits_set [of task es] task_commits_distinct [of task es] clear_task_get [OF assms(5)]
    by (intro exI [of _ task] exI [of _ b] exI [of _ reason] exI [of _ "task_commits task es"] conjI exI [of _ es]) simp_all
qed

lemma recorded_name: "git_name (recorded H) d args w = (r, w') \<Longrightarrow> fst w' = fst w @ [git d args]"
  by (auto simp: git_name_def dest: recorded_output split: prod.splits)

lemma recorded_ancestor:
  "is_ancestor (recorded H) d sha up w = (r, w') \<Longrightarrow> \<exists>c. cm_program c = ''git'' \<and> fst w' = fst w @ [c]"
  by (auto simp: is_ancestor_def git_def dest!: recorded_output split: prod.splits)

lemma recorded_unpushed:
  "unpushed_from (recorded H) d up cs w = (un, w') \<Longrightarrow>
   \<exists>log. fst w' = fst w @ log \<and> list_all (\<lambda>c. cm_program c = ''git'') log"
proof (induction cs arbitrary: w un)
  case (Cons sha cs)
  obtain r w1 where a: "is_ancestor (recorded H) d sha up w = (r, w1)" by (metis prod.collapse)
  obtain more w2 where m: "unpushed_from (recorded H) d up cs w1 = (more, w2)" by (metis prod.collapse)
  with a Cons.prems have "w' = w2" by (auto split: if_splits)
  with m have "unpushed_from (recorded H) d up cs w1 = (more, w')" by simp
  from Cons.IH [OF this] recorded_ancestor [OF a] show ?case by auto
qed simp

text \<open>
  Property C16. When the commits are not on the upstream branch the task is left alone: a close that
  ends with \<open>fail\<close> ran no Beads command - every command it ran was Git's -, emitted no event and kept
  the context, so that a later stage can push and close again.
\<close>

theorem failed_close_keeps_task:
  assumes "close (recorded H) adapter n False workdir run_dir sink s = (Inr out, s')" "status out = Fail"
  shows "hr_ctx s' = hr_ctx s \<and> hr_events s' = hr_events s \<and>
    (\<exists>log. fst (hr_world s') = fst (hr_world s) @ log \<and> list_all (\<lambda>c. cm_program c = ''git'') log)"
proof -
  obtain at task where "close_claimed (recorded H) adapter n workdir run_dir sink at task s = (Inr out, s')"
    using assms(1) by (rule close_Inr)
  then obtain commits up un w1 w2 where u: "git_upstream (recorded H) workdir (hr_world s) = (up, w1)"
      "unpushed (recorded H) workdir commits up w1 = (un, w2)"
    and f: "if ca_require_upstream at \<and> \<not> upstream_verified commits up un
     then out = outcome_fail (left_open task commits up un) \<and> s' = s\<lparr>hr_world := w2\<rparr>
     else finish_close (recorded H) adapter n workdir sink (ca_reason at) task
            (case commits of Some cs \<Rightarrow> cs | None \<Rightarrow> []) (case up of Some u \<Rightarrow> u | None \<Rightarrow> ''no upstream'')
            (upstream_verified commits up un) (s\<lparr>hr_world := w2\<rparr>) = (Inr out, s')"
    by (rule close_claimed_Inr)
  have "s' = s\<lparr>hr_world := w2\<rparr>"
  proof (cases "ca_require_upstream at \<and> \<not> upstream_verified commits up un")
    case True
    with f show ?thesis by simp
  next
    case False
    with f have "finish_close (recorded H) adapter n workdir sink (ca_reason at) task
            (case commits of Some cs \<Rightarrow> cs | None \<Rightarrow> []) (case up of Some u \<Rightarrow> u | None \<Rightarrow> ''no upstream'')
            (upstream_verified commits up un) (s\<lparr>hr_world := w2\<rparr>) = (Inr out, s')" by auto
    then have "status out = Success" by (elim finish_close_Inr) (simp add: outcome_success_def)
    with assms(2) show ?thesis by simp
  qed
  moreover have "fst w1 = fst (hr_world s) @ [git workdir [''rev-parse'', ''--abbrev-ref'', ''--symbolic-full-name'', ''@'' @ ''{upstream}'']]"
    using u(1) recorded_name by (simp only: git_upstream_def)
  moreover have "\<exists>log. fst w2 = fst w1 @ log \<and> list_all (\<lambda>c. cm_program c = ''git'') log"
    using u(2) by (auto simp: unpushed_def dest: recorded_unpushed split: option.splits)
  ultimately show ?thesis by (auto simp: git_def)
qed

end
