(* ===== verification/Human_Gate.thy ===== *)
theory Human_Gate
  imports Host
begin

text \<open>
  Human gates: \<open>handlers/wait_human.rs\<close> and \<open>interviewer.rs\<close>. A gate asks a question under an id that the
  journal decides, and an interviewer answers it: at once, from a console, or from the first valid
  answer that is typed or found in the answer file.
\<close>

section \<open>Questions and answers\<close>

record question =
  qu_id :: str
  qu_prompt :: str
  qu_choices :: "str list"
  qu_default :: "str option"
  qu_timeout :: "nat option"

record answer =
  an_choice :: str
  an_custom :: "str option"
  an_source :: "answer_source option"

definition first_choice :: "str list \<Rightarrow> str" where
  "first_choice cs = (case cs of [] \<Rightarrow> [] | c # _ \<Rightarrow> c)"

definition unsourced :: "str \<Rightarrow> answer" where
  "unsourced c = \<lparr>an_choice = c, an_custom = None, an_source = None\<rparr>"

definition from_terminal :: "str \<Rightarrow> answer" where
  "from_terminal c = \<lparr>an_choice = c, an_custom = None, an_source = Some AnswerTerminal\<rparr>"

definition auto_approve :: "question \<Rightarrow> answer" where
  "auto_approve q = unsourced (case qu_default q of Some d \<Rightarrow> d | None \<Rightarrow> first_choice (qu_choices q))"

text \<open>\<open>ConsoleInterviewer\<close>, once it has read a line.\<close>

definition console_answer :: "question \<Rightarrow> str \<Rightarrow> answer" where
  "console_answer q input =
     (let t = trim input;
          typed = \<lparr>an_choice = t, an_custom = Some t, an_source = Some AnswerTerminal\<rparr>
      in case parse_unsigned u64_max t of
           Some idx \<Rightarrow>
             if 0 < idx \<and> idx \<le> length (qu_choices q) then from_terminal (qu_choices q ! (idx - 1)) else typed
         | None \<Rightarrow> typed)"

text \<open>\<open>RecordingInterviewer\<close>: the answers that are left, in the order they will be given, and the questions.\<close>

type_synonym recording = "answer list \<times> question list"

definition recording_new :: "answer list \<Rightarrow> recording" where
  "recording_new as = (as, [])"

fun recording_ask :: "question \<Rightarrow> recording \<Rightarrow> answer \<times> recording" where
  "recording_ask q (a # as, qs) = (a, (as, qs @ [q]))"
| "recording_ask q ([], qs) = (unsourced (first_choice (qu_choices q)), ([], qs @ [q]))"

text \<open>The choice a line names: its number, or its label compared as edge labels are.\<close>

definition terminal_choice :: "(str \<Rightarrow> str) \<Rightarrow> str \<Rightarrow> str list \<Rightarrow> str option" where
  "terminal_choice strip input choices =
     (let line = trim input;
          by_label = find (\<lambda>c. normalize_label strip c = normalize_label strip line) choices
      in if line = [] then None
         else case parse_unsigned u64_max line of
                Some i \<Rightarrow> if 1 \<le> i \<and> i \<le> length choices then Some (choices ! (i - 1)) else by_label
              | None \<Rightarrow> by_label)"

section \<open>The interviewer of a run\<close>

text \<open>
  What the answer file needs: the codec of answers with the reader that tells torn text from malformed
  text, and the folder of the run.
\<close>

record gate_env =
  ge_codec :: journal_codec
  ge_read :: "str \<Rightarrow> text_read"
  ge_strip :: "str \<Rightarrow> str"
  ge_run :: path
  ge_pid :: nat

text \<open>The errors of one look at the answer file: of reading it and of moving it aside.\<close>

record check_faults =
  ck_read :: "io_error option"
  ck_reject :: "io_error option"

definition file_fits :: "question \<Rightarrow> answer_file \<Rightarrow> bool" where
  "file_fits q f \<longleftrightarrow> af_question_id f = qu_id q \<and> af_choice f \<in> set (qu_choices q)"

definition check_file :: "gate_env \<Rightarrow> check_faults \<Rightarrow> question \<Rightarrow> fs \<Rightarrow> answer option \<times> fs" where
  "check_file E flt q fs =
     (let aside = (None, snd (reject_answer (ck_reject flt) (ge_run E) (qu_id q) fs))
      in case read_answer (ge_read E) (jc_parse_ts (ge_codec E)) (\<lambda>_. ck_read flt) (ge_run E) (qu_id q) fs of
           Inr None \<Rightarrow> (None, fs)
         | Inr (Some f) \<Rightarrow>
             if file_fits q f
             then (Some \<lparr>an_choice = af_choice f, an_custom = None, an_source = Some (af_source f)\<rparr>, fs)
             else aside
         | Inl (InvalidData _) \<Rightarrow> aside
         | Inl _ \<Rightarrow> (None, fs))"

text \<open>
  A typed answer is written to the answer file too. One round of it: the number of the temporary file, the
  errors of the write, what others do before the file is looked at, and the errors of that.
\<close>

record round_env =
  rd_number :: nat
  rd_write :: write_faults
  rd_others :: "fs \<Rightarrow> fs"
  rd_check :: check_faults

fun terminal_rounds ::
  "gate_env \<Rightarrow> question \<Rightarrow> answer_file \<Rightarrow> round_env list \<Rightarrow> fs \<Rightarrow> answer option \<times> fs" where
  "terminal_rounds E q file [] fs = (None, fs)"
| "terminal_rounds E q file (r # rs) fs =
     (let (res, fs1) = write_answer (ge_codec E) (rd_write r) (ge_pid E) (rd_number r) (ge_run E) file fs
      in case res of
           Inr True \<Rightarrow> (Some (from_terminal (af_choice file)), fs1)
         | Inr False \<Rightarrow>
             (let (found, fs2) = check_file E (rd_check r) q (rd_others r fs1)
              in case found of Some a \<Rightarrow> (Some a, fs2) | None \<Rightarrow> terminal_rounds E q file rs fs2)
         | Inl _ \<Rightarrow> (Some (from_terminal (af_choice file)), fs1))"

definition answer_from_terminal ::
  "gate_env \<Rightarrow> time \<Rightarrow> (nat \<Rightarrow> round_env) \<Rightarrow> question \<Rightarrow> str \<Rightarrow> fs \<Rightarrow> answer option \<times> fs" where
  "answer_from_terminal E now envs q choice =
     terminal_rounds E q (answer_file_new now (qu_id q) choice AnswerTerminal) (map envs [0, 1])"

text \<open>
  The lines of the terminal: none yet, a channel that still gives lines, or its end. The first line
  starts the reader.
\<close>

datatype terminal_lines = Unstarted | LinesOpen | LinesClosed

fun terminal_received :: "str option \<Rightarrow> terminal_lines \<Rightarrow> str option \<times> terminal_lines" where
  "terminal_received _ LinesClosed = (None, LinesClosed)"
| "terminal_received (Some l) _ = (Some l, LinesOpen)"
| "terminal_received None _ = (None, LinesClosed)"

text \<open>
  What wakes a waiting gate: the poll timer, the channel of the terminal (a line or its end), or nothing,
  while others change the files.
\<close>

datatype wake =
    PollTick check_faults
  | FromChannel "str option" time "nat \<Rightarrow> round_env"
  | OthersAct "fs \<Rightarrow> fs"

text \<open>
  The loop of \<open>ask\<close> on the wakes so far: the answer, or None while the gate still waits. Without a terminal
  no line ever arrives.
\<close>

fun gate_loop :: "gate_env \<Rightarrow> question \<Rightarrow> terminal_lines option \<Rightarrow> wake list \<Rightarrow> fs \<Rightarrow> answer option \<times> fs" where
  "gate_loop E q tty [] fs = (None, fs)"
| "gate_loop E q tty (PollTick flt # ws) fs =
     (let (found, fs1) = check_file E flt q fs
      in case found of Some a \<Rightarrow> (Some a, fs1) | None \<Rightarrow> gate_loop E q tty ws fs1)"
| "gate_loop E q tty (OthersAct f # ws) fs = gate_loop E q tty ws (f fs)"
| "gate_loop E q None (FromChannel l now envs # ws) fs = gate_loop E q None ws fs"
| "gate_loop E q (Some t) (FromChannel l now envs # ws) fs =
     (case terminal_received l t of
        (None, t') \<Rightarrow> gate_loop E q (Some t') ws fs
      | (Some line, t') \<Rightarrow>
          (case terminal_choice (ge_strip E) line (qu_choices q) of
             None \<Rightarrow> gate_loop E q (Some t') ws fs
           | Some choice \<Rightarrow>
               (let (found, fs1) = answer_from_terminal E now envs q choice fs
                in case found of Some a \<Rightarrow> (Some a, fs1) | None \<Rightarrow> gate_loop E q (Some t') ws fs1)))"

definition invalid_question :: "(str \<Rightarrow> str) \<Rightarrow> str \<Rightarrow> error" where
  "invalid_question debug q = OtherError (''invalid question id: '' @ debug q)"

definition journal_ask ::
  "gate_env \<Rightarrow> (str \<Rightarrow> str) \<Rightarrow> question \<Rightarrow> bool \<Rightarrow> wake list \<Rightarrow> fs \<Rightarrow> answer option result \<times> fs" where
  "journal_ask E debug q stdin_is_tty ws fs =
     (if \<not> is_valid_question_id (qu_id q) then (Inl (invalid_question debug (qu_id q)), fs)
      else map_prod Inr id (gate_loop E q (if stdin_is_tty then Some Unstarted else None) ws fs))"

section \<open>The id of a question\<close>

text \<open>The questions and answers seen, and the last question of this gate.\<close>

record asked =
  as_used :: "str list"
  as_answered :: "str list"
  as_last_here :: "str option"

fun note_question :: "str \<Rightarrow> event_data \<Rightarrow> asked \<Rightarrow> asked" where
  "note_question node (JHumanInputRequested q at t cs d) s =
     s\<lparr>as_used := q # as_used s, as_last_here := if at = node then Some q else as_last_here s\<rparr>"
| "note_question node (JHumanInputAnswered q c src) s = s\<lparr>as_answered := q # as_answered s\<rparr>"
| "note_question node _ s = s"

definition asked_in :: "str \<Rightarrow> journal_event list \<Rightarrow> asked" where
  "asked_in node es =
     fold (\<lambda>e. note_question node (je_data e)) es \<lparr>as_used = [], as_answered = [], as_last_here = None\<rparr>"

text \<open>
  The search over \<open>1..\<close> meets an unused id among the first numbers, one more than there are used ids; None
  would be the panic of \<open>expect\<close>.
\<close>

definition question_id :: "str \<Rightarrow> journal_event list \<Rightarrow> str option" where
  "question_id node es =
     (let s = asked_in node es;
          fresh = find (\<lambda>i. i \<notin> set (as_used s)) (map (question_id_for node) [1..<length (as_used s) + 2])
      in case as_last_here s of
           Some i \<Rightarrow> if i \<in> set (as_answered s) then fresh else Some i
         | None \<Rightarrow> fresh)"

section \<open>The handler\<close>

definition WAIT_HUMAN :: str where "WAIT_HUMAN = ''wait.human''"

definition read_gate_journal :: "'w host \<Rightarrow> path \<Rightarrow> 'w \<Rightarrow> io_error + journal_event list" where
  "read_gate_journal H p w =
     (case read_all_at (ho_codec H) (\<lambda>p. ho_read H p w) p of
        Inl e \<Rightarrow> if e = NotFound then Inr [] else Inl e
      | Inr es \<Rightarrow> Inr es)"

definition gate_journal_error :: "'w host \<Rightarrow> pipeline_node \<Rightarrow> io_error \<Rightarrow> error" where
  "gate_journal_error H n e = HandlerError WAIT_HUMAN (pn_id n) (''cannot read the Run Journal: '' @ ho_io_text H e)"

definition gate_question_id :: "'w host \<Rightarrow> pipeline_node \<Rightarrow> str option \<Rightarrow> ('w, str option) hact" where
  "gate_question_id H n run_dir =
     (case run_dir of
        None \<Rightarrow> hret (Some (question_id_for (pn_id n) 1))
      | Some d \<Rightarrow>
          hbind (hsense (read_gate_journal H (events_path (path_of d)))) (\<lambda>r.
          case r of Inl e \<Rightarrow> hfail (gate_journal_error H n e) | Inr es \<Rightarrow> hret (question_id (pn_id n) es)))"

definition gate_choices :: "pipeline_node \<Rightarrow> pipeline_graph \<Rightarrow> str list" where
  "gate_choices n g =
     (let cs = List.map_filter pe_label (outgoing_edges g (pn_id n))
      in if cs = [] then [''Continue''] else cs)"

definition gate_question :: "pipeline_node \<Rightarrow> pipeline_graph \<Rightarrow> str \<Rightarrow> question" where
  "gate_question n g q =
     \<lparr>qu_id = q, qu_prompt = (case pn_prompt n of Some p \<Rightarrow> p | None \<Rightarrow> pn_label n),
      qu_choices = gate_choices n g, qu_default = None, qu_timeout = pn_timeout n\<rparr>"

definition human_outcome :: "answer \<Rightarrow> outcome" where
  "human_outcome a = (outcome_success ''Human responded'')\<lparr>preferred_label := Some (an_choice a)\<rparr>"

definition ask_gate ::
  "(question \<Rightarrow> 'w \<Rightarrow> answer result \<times> 'w) \<Rightarrow> bool \<Rightarrow> pipeline_node \<Rightarrow> question \<Rightarrow> ('w, outcome) hact" where
  "ask_gate ask sink n q =
     hbind (hemit sink (HumanInputRequested (qu_id q) (pn_id n) (qu_prompt q) (qu_choices q) (qu_default q))) (\<lambda>_.
     hbind (hworld (ask q)) (\<lambda>r.
     hbind (hlift r) (\<lambda>a.
     hbind (case an_source a of
              Some src \<Rightarrow> hemit sink (HumanInputAnswered (qu_id q) (an_choice a) src)
            | None \<Rightarrow> hret ()) (\<lambda>_.
     hret (human_outcome a)))))"

definition no_question_id :: error where "no_question_id = OtherError ''an unused question id''"

definition wait ::
  "'w host \<Rightarrow> (question \<Rightarrow> 'w \<Rightarrow> answer result \<times> 'w) \<Rightarrow> pipeline_node \<Rightarrow> pipeline_graph \<Rightarrow> str option \<Rightarrow> bool
   \<Rightarrow> ('w, outcome) hact" where
  "wait H ask n g run_dir sink =
     hbind (gate_question_id H n run_dir) (\<lambda>i.
     case i of None \<Rightarrow> hfail no_question_id | Some q \<Rightarrow> ask_gate ask sink n (gate_question n g q))"

definition wait_human_handler :: "'w host \<Rightarrow> (question \<Rightarrow> 'w \<Rightarrow> answer result \<times> 'w) \<Rightarrow> 'w handler" where
  "wait_human_handler H ask =
     \<lparr>hd_type = WAIT_HUMAN, hd_provider = None,
      hd_resolved = Some
        \<lparr>te_resolved = \<lambda>n r g. wait H ask n g None False,
         te_configured = \<lambda>n r x g. wait H ask n g (hx_run_dir x) (hx_events x)\<rparr>,
      hd_resumes = True, hd_execute = \<lambda>n g. wait H ask n g None False\<rparr>"

section \<open>Ids are found, fresh, and kept\<close>

definition asked_ids :: "journal_event list \<Rightarrow> str list" where
  "asked_ids es = concat (map (\<lambda>e. case je_data e of JHumanInputRequested q _ _ _ _ \<Rightarrow> [q] | _ \<Rightarrow> []) es)"

definition answered_ids :: "journal_event list \<Rightarrow> str list" where
  "answered_ids es = concat (map (\<lambda>e. case je_data e of JHumanInputAnswered q _ _ \<Rightarrow> [q] | _ \<Rightarrow> []) es)"

definition asked_at :: "str \<Rightarrow> journal_event list \<Rightarrow> str list" where
  "asked_at node es =
     concat (map (\<lambda>e. case je_data e of JHumanInputRequested q at _ _ _ \<Rightarrow> if at = node then [q] else [] | _ \<Rightarrow> []) es)"

lemma asked_in_eq:
  "set (as_used (asked_in node es)) = set (asked_ids es)"
  "length (as_used (asked_in node es)) = length (asked_ids es)"
  "set (as_answered (asked_in node es)) = set (answered_ids es)"
  "as_last_here (asked_in node es) = (if asked_at node es = [] then None else Some (last (asked_at node es)))"
proof -
  have "set (as_used (asked_in node es)) = set (asked_ids es) \<and>
      length (as_used (asked_in node es)) = length (asked_ids es) \<and>
      set (as_answered (asked_in node es)) = set (answered_ids es) \<and>
      as_last_here (asked_in node es) = (if asked_at node es = [] then None else Some (last (asked_at node es)))"
  proof (induction es rule: rev_induct)
    case (snoc e es)
    then show ?case
      by (cases "je_data e") (auto simp: asked_in_def asked_ids_def answered_ids_def asked_at_def)
  qed (simp add: asked_in_def asked_ids_def answered_ids_def asked_at_def)
  then show "set (as_used (asked_in node es)) = set (asked_ids es)"
    "length (as_used (asked_in node es)) = length (asked_ids es)"
    "set (as_answered (asked_in node es)) = set (answered_ids es)"
    "as_last_here (asked_in node es) = (if asked_at node es = [] then None else Some (last (asked_at node es)))"
    by blast+
qed

lemma question_id_for_inject: "question_id_for node m = question_id_for node n \<longleftrightarrow> m = n"
proof
  have tail: "takeWhile is_digit (rev (question_id_for node k)) = rev (show_nat k)" for k
  proof -
    have d: "\<And>c. c \<in> set (rev (show_nat k)) \<Longrightarrow> is_digit c" using show_nat_digits [of k] by (simp add: list_all_iff)
    have "\<not> is_digit (CHR ''-'')" by (simp add: is_digit_def)
    then have "takeWhile is_digit (rev (show_nat k) @ CHR ''-'' # t) = rev (show_nat k)" for t
      using takeWhile_append2 [of "rev (show_nat k)" is_digit, OF d] by simp
    then show ?thesis by (simp add: question_id_for_def Let_def)
  qed
  assume "question_id_for node m = question_id_for node n"
  then have "rev (show_nat m) = rev (show_nat n)" by (metis tail)
  then show "m = n" by simp
qed simp

text \<open>One of \<open>n + 1\<close> different values is not among \<open>n\<close> values.\<close>

lemma fresh_exists:
  assumes "inj f"
  obtains k where "1 \<le> k" "k < length xs + 2" "f k \<notin> set xs"
proof -
  have "card (f ` {1..<length xs + 2}) = length xs + 1" using assms by (simp add: card_image inj_on_subset)
  moreover have "card (set xs) \<le> length xs" by (rule card_length)
  ultimately have "\<not> f ` {1..<length xs + 2} \<subseteq> set xs" by (metis List.finite_set card_mono not_less_eq_eq Suc_eq_plus1 le_trans)
  then obtain y where "y \<in> f ` {1..<length xs + 2}" "y \<notin> set xs" by blast
  then obtain k where "k \<in> {1..<length xs + 2}" "f k \<notin> set xs" by (elim imageE) simp
  then have "1 \<le> k" "k < length xs + 2" "f k \<notin> set xs" by simp_all
  then show thesis by (rule that)
qed

lemma find_least:
  assumes "find P (map f [1..<n]) = Some y"
  obtains k where "1 \<le> k" "y = f k" "P y" "list_all (\<lambda>m. \<not> P (f m)) [1..<k]"
proof -
  obtain i where i: "i < n - 1" "y = f (1 + i)" "P y" "\<And>j. j < i \<Longrightarrow> \<not> P (f (1 + j))"
    using assms by (auto simp: find_Some_iff)
  have "list_all (\<lambda>m. \<not> P (f m)) [1..<1 + i]"
  proof (simp only: list_all_iff set_upt, intro ballI)
    fix m assume "m \<in> {1..<1 + i}"
    then have "m - 1 < i" "1 + (m - 1) = m" by auto
    then show "\<not> P (f m)" using i(4) [of "m - 1"] by simp
  qed
  with i show thesis by (intro that [of "1 + i"]) simp_all
qed

definition fresh_id :: "str \<Rightarrow> journal_event list \<Rightarrow> str \<Rightarrow> bool" where
  "fresh_id node es q \<longleftrightarrow> q \<notin> set (asked_ids es) \<and>
     (\<exists>n. 1 \<le> n \<and> q = question_id_for node n \<and> list_all (\<lambda>m. question_id_for node m \<in> set (asked_ids es)) [1..<n])"

lemma question_id_cases:
  "case question_id node es of
     None \<Rightarrow> False
   | Some q \<Rightarrow>
       if asked_at node es \<noteq> [] \<and> last (asked_at node es) \<notin> set (answered_ids es)
       then q = last (asked_at node es) else fresh_id node es q"
proof -
  let ?f = "question_id_for node" and ?s = "asked_in node es"
  let ?P = "\<lambda>i. i \<notin> set (as_used ?s)"
  obtain k where k: "1 \<le> k" "k < length (as_used ?s) + 2" "?P (?f k)"
    by (rule fresh_exists [of ?f "as_used ?s"]) (simp add: inj_def question_id_for_inject)
  have "find ?P (map ?f [1..<length (as_used ?s) + 2]) \<noteq> None"
  proof
    assume "find ?P (map ?f [1..<length (as_used ?s) + 2]) = None"
    moreover have "?f k \<in> set (map ?f [1..<length (as_used ?s) + 2])" using k(1,2) by (auto simp only: set_map set_upt atLeastLessThan_iff)
    ultimately show False using k(3) unfolding find_None_iff by blast
  qed
  then obtain q where q: "find ?P (map ?f [1..<length (as_used ?s) + 2]) = Some q" by blast
  have "fresh_id node es q"
    using q by (rule find_least) (auto simp: fresh_id_def asked_in_eq(1) list_all_iff)
  then show ?thesis using q by (auto simp: question_id_def Let_def asked_in_eq(3,4))
qed

text \<open>
  The id of a gate's question is always found. A question that the gate asked last and nobody
  answered - the run stopped while it waited - is asked again under its id; otherwise the id is the first
  \<open>q-<node>-<n>\<close> that no question of the run has, so that an old answer never settles a new question.
\<close>

theorem question_id_exact:
  "case question_id node es of
     None \<Rightarrow> False
   | Some q \<Rightarrow>
       if asked_at node es \<noteq> [] \<and> last (asked_at node es) \<notin> set (answered_ids es)
       then q = last (asked_at node es)
       else q \<notin> set (asked_ids es) \<and>
         (\<exists>n. 1 \<le> n \<and> q = question_id_for node n \<and>
            list_all (\<lambda>m. question_id_for node m \<in> set (asked_ids es)) [1..<n])"
  using question_id_cases [of node es] by (simp only: fresh_id_def)

section \<open>What an answer says\<close>

lemma terminal_choice_member: "terminal_choice strip l cs = Some c \<Longrightarrow> c \<in> set cs"
  by (auto simp: terminal_choice_def Let_def find_Some_iff split: if_splits option.splits)

lemma ws_bytes_ends: "ws_bytes s \<Longrightarrow> s \<noteq> [] \<and> \<not> is_digit (hd s) \<and> \<not> is_digit (last s)"
  by (induction s rule: ws_bytes.induct) (auto simp: is_digit_def)

lemma digit_no_space:
  assumes "is_digit c"
  shows "ws_head (c # s) = 0" "ws_head_rev (c # s) = 0"
proof -
  have "\<not> ascii_ws c" using assms by (auto simp: ascii_ws_def is_digit_def)
  moreover have "\<not> ws_bytes (c # t)" for t using ws_bytes_ends [of "c # t"] assms by auto
  moreover have "\<not> ws_bytes (t @ [c])" for t using ws_bytes_ends [of "t @ [c]"] assms by auto
  ultimately show "ws_head (c # s) = 0" "ws_head_rev (c # s) = 0"
    by (simp_all add: ws_head_def ws_head_rev_def)
qed

lemma trim_digits:
  assumes "list_all is_digit s" "s \<noteq> []"
  shows "trim s = s"
proof (rule trim_id)
  show "ws_head s = 0" using assms by (cases s) (simp_all add: digit_no_space)
  have "list_all is_digit (rev s)" "rev s \<noteq> []" using assms by simp_all
  then show "ws_head_rev (rev s) = 0" by (cases "rev s") (simp_all add: digit_no_space del: list_all_rev)
qed

lemma terminal_choice_number:
  assumes "1 \<le> i" "i \<le> length cs" "length cs \<le> u64_max"
  shows "terminal_choice strip (show_nat i) cs = Some (cs ! (i - 1))"
proof -
  have d: "list_all is_digit (show_nat i)" "show_nat i \<noteq> []" using show_nat_digits [of i] by auto
  then have "trim (show_nat i) = show_nat i" by (rule trim_digits)
  then show ?thesis using assms show_nat_digits [of i] by (simp add: terminal_choice_def Let_def parse_unsigned_show)
qed

text \<open>The answer file has this answer, in the form the interviewer reads, or as it was just written.\<close>

definition file_answer :: "gate_env \<Rightarrow> question \<Rightarrow> fs \<Rightarrow> answer option" where
  "file_answer E q fs =
     (case fs (answer_path (ge_run E) (qu_id q)) of
        None \<Rightarrow> None
      | Some bytes \<Rightarrow>
          (case ge_read E bytes of
             TreeRead j \<Rightarrow>
               (case answer_of_tree (jc_parse_ts (ge_codec E)) j of
                  None \<Rightarrow> None
                | Some f \<Rightarrow>
                    if file_fits q f
                    then Some \<lparr>an_choice = af_choice f, an_custom = None, an_source = Some (af_source f)\<rparr> else None)
           | _ \<Rightarrow> None))"

definition typed_answer :: "question \<Rightarrow> str \<Rightarrow> time \<Rightarrow> answer_file" where
  "typed_answer q c now = answer_file_new now (qu_id q) c AnswerTerminal"

definition gate_settled :: "gate_env \<Rightarrow> question \<Rightarrow> answer \<Rightarrow> fs \<Rightarrow> bool" where
  "gate_settled E q a fs \<longleftrightarrow> file_answer E q fs = Some a \<or>
     a = from_terminal (an_choice a) \<and>
     (\<exists>now. fs (answer_path (ge_run E) (qu_id q)) = Some (answer_bytes (ge_codec E) (typed_answer q (an_choice a) now)) \<or>
        (\<exists>flt n fs1 e. write_answer (ge_codec E) flt (ge_pid E) n (ge_run E) (typed_answer q (an_choice a) now) fs1 = (Inl e, fs)))"

lemma check_file_Some:
  "check_file E flt q fs = (Some a, fs') \<Longrightarrow> fs' = fs \<and> file_answer E q fs = Some a \<and> an_choice a \<in> set (qu_choices q)"
  by (auto simp: check_file_def Let_def file_answer_def read_answer_def checked_path_def file_fits_def
      split: option.splits sum.splits if_splits text_read.splits io_error.splits)

lemma terminal_rounds_Some:
  assumes "terminal_rounds E q (typed_answer q c now) rs fs = (Some a, fs')"
    and "is_valid_question_id (qu_id q)" "c \<in> set (qu_choices q)"
  shows "gate_settled E q a fs' \<and> an_choice a \<in> set (qu_choices q)"
  using assms(1)
proof (induction rs arbitrary: fs)
  case (Cons r rs)
  let ?w = "typed_answer q c now"
  have c: "af_choice ?w = c" "af_question_id ?w = qu_id q" by (simp_all add: typed_answer_def answer_file_new_def)
  obtain res fs1 where w: "write_answer (ge_codec E) (rd_write r) (ge_pid E) (rd_number r) (ge_run E) ?w fs = (res, fs1)"
    by fastforce
  consider (yes) "res = Inr True" | (no) "res = Inr False" | (err) e where "res = Inl e" by (cases res) auto
  then show ?case
  proof cases
    case yes
    then have "fs1 (answer_path (ge_run E) (qu_id q)) = Some (answer_bytes (ge_codec E) ?w)"
      using write_answer_effect(1) [OF w assms(2)] c by simp
    moreover have "a = from_terminal c" "fs' = fs1" using Cons.prems w yes c by simp_all
    ultimately show ?thesis using assms(3) by (auto simp: gate_settled_def from_terminal_def)
  next
    case err
    then have "a = from_terminal c" "fs' = fs1" using Cons.prems w c by simp_all
    then show ?thesis using assms(3) w err unfolding gate_settled_def by (auto simp: from_terminal_def)
  next
    case no
    obtain found fs2 where f: "check_file E (rd_check r) q (rd_others r fs1) = (found, fs2)" by fastforce
    show ?thesis
    proof (cases found)
      case None
      then show ?thesis using Cons w no f by simp
    next
      case (Some b)
      then have "a = b" "fs' = fs2" using Cons.prems w no f by simp_all
      then show ?thesis using check_file_Some [of E "rd_check r" q "rd_others r fs1" b fs2] f Some
        by (auto simp: gate_settled_def)
    qed
  qed
qed simp

lemma gate_loop_Some:
  "gate_loop E q tty ws fs = (Some a, fs') \<Longrightarrow> is_valid_question_id (qu_id q) \<Longrightarrow>
   gate_settled E q a fs' \<and> an_choice a \<in> set (qu_choices q)"
proof (induction E q tty ws fs rule: gate_loop.induct)
  case (2 E q tty flt ws fs)
  obtain found fs1 where f: "check_file E flt q fs = (found, fs1)" by fastforce
  show ?case
  proof (cases found)
    case None
    then show ?thesis using 2 f by simp
  next
    case (Some b)
    then show ?thesis using 2(2) f check_file_Some [of E flt q fs b fs1] by (auto simp: gate_settled_def)
  qed
next
  case (5 E q t l now envs ws fs)
  obtain line t' where t: "terminal_received l t = (line, t')" by fastforce
  show ?case
  proof (cases line)
    case None
    then show ?thesis using 5(1) 5(4,5) t by simp
  next
    case (Some ln)
    show ?thesis
    proof (cases "terminal_choice (ge_strip E) ln (qu_choices q)")
      case None
      then show ?thesis using 5(2) [of _ t'] 5(4,5) t Some by simp
    next
      case c: (Some c)
      obtain found fs1 where f: "answer_from_terminal E now envs q c fs = (found, fs1)" by fastforce
      show ?thesis
      proof (cases found)
        case None
        then show ?thesis using 5(3) [of _ t' ln c] 5(4,5) t Some c f by simp
      next
        case (Some b)
        then have "a = b" "fs' = fs1" using 5(4) t \<open>line = Some ln\<close> c f by simp_all
        moreover have "terminal_rounds E q (typed_answer q c now) (map envs [0, 1]) fs = (Some b, fs1)"
          using f Some by (simp only: answer_from_terminal_def typed_answer_def)
        ultimately show ?thesis using terminal_rounds_Some 5(5) terminal_choice_member [OF c] by blast
      qed
    qed
  qed
qed simp_all


section \<open>What a gate records\<close>

lemma ask_gate_Inr:
  assumes "ask_gate ask sink n q s = (Inr out, s')"
  obtains a where "fst (ask q (hr_world s)) = Inr a" "out = human_outcome a" "hr_ctx s' = hr_ctx s"
    "hr_events s' = hr_events s @ told sink
       (HumanInputRequested (qu_id q) (pn_id n) (qu_prompt q) (qu_choices q) (qu_default q) #
        (case an_source a of Some src \<Rightarrow> [HumanInputAnswered (qu_id q) (an_choice a) src] | None \<Rightarrow> []))"
proof -
  let ?req = "HumanInputRequested (qu_id q) (pn_id n) (qu_prompt q) (qu_choices q) (qu_default q)"
  define t where "t = (if sink then s\<lparr>hr_events := hr_events s @ [?req]\<rparr> else s)"
  have "hbind (hworld (ask q)) (\<lambda>r. hbind (hlift r) (\<lambda>a.
     hbind (case an_source a of Some src \<Rightarrow> hemit sink (HumanInputAnswered (qu_id q) (an_choice a) src) | None \<Rightarrow> hret ())
       (\<lambda>_. hret (human_outcome a)))) t = (Inr out, s')"
    using assms by (simp only: ask_gate_def hbind_simps t_def)
  then obtain r u where r: "hworld (ask q) t = (Inr r, u)" and
    "hbind (hlift r) (\<lambda>a.
     hbind (case an_source a of Some src \<Rightarrow> hemit sink (HumanInputAnswered (qu_id q) (an_choice a) src) | None \<Rightarrow> hret ())
       (\<lambda>_. hret (human_outcome a))) u = (Inr out, s')"
    by (rule hbindE)
  then obtain a where a: "r = Inr a" and e:
    "hbind (case an_source a of Some src \<Rightarrow> hemit sink (HumanInputAnswered (qu_id q) (an_choice a) src) | None \<Rightarrow> hret ())
       (\<lambda>_. hret (human_outcome a)) u = (Inr out, s')"
    by (cases r) simp_all
  obtain w where w: "ask q (hr_world t) = (r, w)" "u = t\<lparr>hr_world := w\<rparr>" using r by (auto simp: hworld_Inr)
  show thesis
  proof (rule that [of a])
    show "fst (ask q (hr_world s)) = Inr a" using w(1) a by (cases sink) (simp_all add: t_def)
    show "out = human_outcome a" using e by (cases "an_source a"; cases sink) simp_all
    show "hr_ctx s' = hr_ctx s" using e w(2) by (cases "an_source a"; cases sink) (auto simp: t_def)
    show "hr_events s' = hr_events s @ told sink (?req #
        (case an_source a of Some src \<Rightarrow> [HumanInputAnswered (qu_id q) (an_choice a) src] | None \<Rightarrow> []))"
      using e w(2) by (cases "an_source a"; cases sink) (auto simp: t_def told_def)
  qed
qed

lemma gate_question_id_Inr:
  assumes "gate_question_id H n rd s = (Inr i, s')"
  shows "s' = s \<and> (case rd of
      None \<Rightarrow> i = Some (question_id_for (pn_id n) 1)
    | Some d \<Rightarrow> \<exists>es. read_gate_journal H (events_path (path_of d)) (hr_world s) = Inr es \<and> i = question_id (pn_id n) es)"
  using assms by (auto simp: gate_question_id_def split: option.splits sum.splits)

text \<open>
  A gate that succeeds leaves the context alone, tells the engine exactly its question - under
  the id that the journal of the run determines, with the labels of its edges as choices or \<open>Continue\<close> - and,
  if a person gave it, the answer to that very question, and makes the answer the preferred label.
\<close>

theorem gate_records_exactly:
  assumes "wait H ask n g (Some d) sink s = (Inr out, s')"
  shows "\<exists>es q a. read_gate_journal H (events_path (path_of d)) (hr_world s) = Inr es \<and>
    question_id (pn_id n) es = Some q \<and> fst (ask (gate_question n g q) (hr_world s)) = Inr a \<and>
    preferred_label out = Some (an_choice a) \<and> context_updates out = [] \<and> hr_ctx s' = hr_ctx s \<and>
    hr_events s' = hr_events s @ told sink
      (HumanInputRequested q (pn_id n) (qu_prompt (gate_question n g q)) (gate_choices n g) None #
       (case an_source a of Some src \<Rightarrow> [HumanInputAnswered q (an_choice a) src] | None \<Rightarrow> []))"
proof -
  obtain i t where i: "gate_question_id H n (Some d) s = (Inr i, t)" and r:
    "(case i of None \<Rightarrow> hfail no_question_id | Some q \<Rightarrow> ask_gate ask sink n (gate_question n g q)) t = (Inr out, s')"
    using assms unfolding wait_def by (rule hbindE)
  obtain es where es: "read_gate_journal H (events_path (path_of d)) (hr_world s) = Inr es"
    "i = question_id (pn_id n) es" "t = s"
    using gate_question_id_Inr [OF i] by auto
  obtain q where q: "i = Some q" using r by (cases i) simp_all
  have "ask_gate ask sink n (gate_question n g q) s = (Inr out, s')" using r unfolding q es(3) by simp
  moreover have "qu_id (gate_question n g q) = q" "qu_choices (gate_question n g q) = gate_choices n g"
    "qu_default (gate_question n g q) = None" by (simp_all add: gate_question_def)
  ultimately obtain a where "fst (ask (gate_question n g q) (hr_world s)) = Inr a" "out = human_outcome a"
    "hr_ctx s' = hr_ctx s" "hr_events s' = hr_events s @ told sink
      (HumanInputRequested q (pn_id n) (qu_prompt (gate_question n g q)) (gate_choices n g) None #
       (case an_source a of Some src \<Rightarrow> [HumanInputAnswered q (an_choice a) src] | None \<Rightarrow> []))"
    by (metis ask_gate_Inr)
  then show ?thesis using es q
    by (intro exI [of _ es] exI [of _ q] exI [of _ a]) (simp add: human_outcome_def outcome_success_def)
qed

end
