(* ===== verification/Handler_Examples.thy ===== *)
theory Handler_Examples
  imports Beads_Close Human_Gate Engine_Example
begin

text \<open>
  The theorems about handlers at concrete inputs: a host with an epic of two tasks, a Git branch that
  has an upstream and a journal with one commit.
\<close>

section \<open>A handler that changes the context\<close>

definition example_writer :: "unit handler" where
  "example_writer =
     \<lparr>hd_type = ''writer'', hd_provider = None, hd_resolved = None, hd_resumes = False,
      hd_execute = \<lambda>n g.
        hbind (hset_ctx (context_set ''seen'' (JBool True))) (\<lambda>_.
        hbind (hset_ctx (\<lambda>c. snd (context_remove ''task.id'' c))) (\<lambda>_.
        hret ((outcome_success ''written'')\<lparr>context_updates := [(''a.x'', JNull)]\<rparr>)))\<rparr>"

definition example_controls :: controls where
  "example_controls = rc_controls (example_config 3 gate_plan)"

definition example_execution :: handler_execution where
  "example_execution = \<lparr>hx_config = example_controls, hx_run_dir = None, hx_events = False\<rparr>"

definition example_ctx :: ctx where
  "example_ctx = \<lparr>ctx_values = [(''task.id'', JStr ''e.9''), (''kept'', JBool False)], ctx_logs = []\<rparr>"

definition example_run :: "ctx \<Rightarrow> unit handler_run" where
  "example_run c = \<lparr>hr_ctx = c, hr_events = [], hr_world = ()\<rparr>"

definition example_written :: outcome where
  "example_written = (outcome_success ''written'')
     \<lparr>context_updates := [(''seen'', JBool True), (''a.x'', JNull)]\<rparr>"

definition written_ctx :: ctx where
  "written_ctx = \<lparr>ctx_values = [(''kept'', JBool False)], ctx_logs = []\<rparr>"

theorem handler_isolation_witness:
  "context_get (rs_ctx (snd (apply_handler_updates ''a'' example_written (example_start\<lparr>rs_ctx := written_ctx\<rparr>)))) ''seen''
     = Some (JBool True)"
proof -
  let ?n = "plain_node ''a'' ''box''" and ?r = "plain_resolved ''a'' KTool HTool"
  let ?run = "example_run (example_ctx\<lparr>ctx_values := [(''kept'', JBool False), (''seen'', JBool True)]\<rparr>)"
  let ?out = "(outcome_success ''written'')\<lparr>context_updates := [(''a.x'', JNull)]\<rparr>"
  let ?s = "example_run example_ctx" and ?t = "example_start\<lparr>rs_ctx := written_ctx\<rparr>"
  have d: "dispatch_configured example_writer ?n ?r example_execution (pl_graph gate_plan) ?s = (Inr ?out, ?run)"
    by code_simp
  have e: "execute_configured example_writer ?n ?r example_execution (pl_graph gate_plan) ?s =
      (Inr example_written, example_run written_ctx)"
    by code_simp
  obtain t' where a: "apply_handler_updates ''a'' example_written ?t = (Inr (), t')"
  proof -
    have "filter is_reserved_key (hm_keys (context_updates example_written)) = []" by code_simp
    then show ?thesis using that by (simp add: apply_handler_updates_def set_ctx_def)
  qed
  have wf: "rs_ctx ?t = hr_ctx (example_run written_ctx)" "hm_wf (ctx_values (hr_ctx ?s))"
      "hm_wf (ctx_values (hr_ctx ?run))" "hm_wf (context_updates ?out)"
    by (simp_all add: example_run_def example_ctx_def hm_wf_def)
  have v: "(if is_reserved_key ''seen'' then context_get (hr_ctx ?s) ''seen''
      else context_get (context_apply_updates (context_updates ?out) (hr_ctx ?run)) ''seen'') = Some (JBool True)"
    by code_simp
  have "context_get (rs_ctx t') ''seen'' = Some (JBool True)"
    using handler_isolation [OF e d a, of "''seen''"] wf v by metis
  then show ?thesis by (simp add: a)
qed

section \<open>An epic with two tasks\<close>

definition issue_json :: "str \<Rightarrow> str \<Rightarrow> json" where
  "issue_json i st = JObj [(''id'', JStr i), (''title'', JStr ''a task''), (''status'', JStr st)]"

text \<open>What Beads prints, by the command it was given.\<close>

definition example_json :: "str \<Rightarrow> json" where
  "example_json c =
     (if c = ''show'' then JArr [issue_json ''e'' ''open'']
      else if c = ''children'' then JArr [issue_json ''e.10'' ''open'', issue_json ''e.9'' ''open'', issue_json ''e.1'' ''closed'']
      else if c = ''ready'' then JArr [issue_json ''e.9'' ''open'', issue_json ''e.10'' ''open'']
      else JArr [issue_json ''e.9'' ''in_progress''])"

definition example_commit :: journal_event where
  "example_commit = journal_event_new 1 5000000 ''r'' 1
     (JCommitsCreated ''a'' (Some ''e.9'') [\<lparr>cr_sha = ''c0ffee'', cr_subject = ''s'', cr_author = ''n'', cr_ts = ''t''\<rparr>])"

definition example_codec :: journal_codec where
  "example_codec =
     \<lparr>jc_show = \<lambda>_. ''{}'', jc_parse = \<lambda>s. if s = ''{}'' then Some (event_tree (\<lambda>_. ''t'') example_commit) else None,
      jc_show_ts = \<lambda>_. ''t'', jc_parse_ts = \<lambda>_. Some 5000000\<rparr>"

text \<open>\<open>pushed\<close> says whether the commit is on the upstream branch.\<close>

definition example_host :: "bool \<Rightarrow> unit host" where
  "example_host pushed =
     \<lparr>ho_output = \<lambda>c w.
        (if cm_program c = BD_PROGRAM then Exited (Some 0) ''0'' (hd (cm_args c)) []
         else if ''merge-base'' \<in> set (cm_args c) then Exited (Some (if pushed then 0 else 1)) ''1'' [] []
         else Exited (Some 0) ''0'' (''origin/main'' @ nl) [], w),
      ho_within = \<lambda>c t w. (TimedOut [] [], w), ho_read = \<lambda>p w. Inr (''{}'' @ nl),
      ho_mkdirs = \<lambda>p w. (None, w), ho_write = \<lambda>p t w. (None, w), ho_codec = example_codec,
      ho_json = \<lambda>c. Inr (example_json c), ho_shape = \<lambda>_. [], ho_quote = \<lambda>_. None, ho_debug = id, ho_fmt = \<lambda>_. [],
      ho_io_text = \<lambda>_. [], ho_order = id\<rparr>"

definition select_node :: pipeline_node where
  "select_node = (plain_node ''pick'' ''box'')\<lparr>pn_raw := [(''epic'', AString ''e''), (''order'', AString ''e.9, e.10'')]\<rparr>"

lemma example_select:
  "select (example_host True) adapter_new select_node False ''/w'' True (example_run ctx_empty) =
     (Inr ((labelled ''claimed e.9'' LABEL_MORE)\<lparr>context_updates := 
        [(''task.id'', JStr ''e.9''), (''task.title'', JStr ''a task''), (''task.description'', JStr []),
         (''task.acceptance'', JStr []), (''task.design'', JStr [])]\<rparr>),
      \<lparr>hr_ctx = ctx_empty,
       hr_events =
         [EpicSnapshot ''e'' ''a task'' (map (\<lambda>(i, st). \<lparr>ts_id = i, ts_title = ''a task'', ts_status = st\<rparr>)
            [(''e.10'', ''open''), (''e.9'', ''open''), (''e.1'', ''closed'')]),
          TaskClaimed ''e.9'' ''a task'' ''e'' ''pick''],
       hr_world = ()\<rparr>)"
  by code_simp


section \<open>Closing the task\<close>

definition close_node :: pipeline_node where
  "close_node = plain_node ''close'' ''box''"

definition claimed_ctx :: ctx where
  "claimed_ctx = \<lparr>ctx_values = [(''task.id'', JStr ''e.9''), (''kept'', JBool False)], ctx_logs = []\<rparr>"

definition example_reason :: str where
  "example_reason = ''Closed by PAS (close): 1 Run Commit(s) on origin/main''"

lemma example_line: "event_line example_codec e = ''{}''"
  by (simp add: event_line_def example_codec_def)

lemma example_writable: "writable example_codec example_commit"
  by (simp add: writable_def example_line one_line_def NL_def blank_def u8_ws_def)
     (simp add: example_codec_def example_commit_def event_in_range_def journal_event_new_def u64_max_def
       u32_max_def trunc_ms_def)

lemma example_read_all: "read_all example_codec (Some (''{}'' @ nl)) = Inr [example_commit]"
proof -
  have "split_lines (complete_part (''{}'' @ nl)) = map (event_line example_codec) [example_commit] @ [[]]"
    unfolding list.map example_line by code_simp
  then have "read_all_raw example_codec (Some (''{}'' @ nl)) = Inr [example_commit]"
    using example_writable by (simp only: read_all_raw_def option.case) (intro read_lines_written; simp)
  then show ?thesis by (simp add: read_all_def example_commit_def journal_event_new_def)
qed

lemma example_read_commits:
  assumes "ho_codec H = example_codec" "ho_read H (events_path (path_of d)) (hr_world s) = Inr (''{}'' @ nl)"
  shows "read_commits H n (Some d) ''e.9'' s = (Inr (Some [''c0ffee'']), s)"
proof -
  have "task_commits ''e.9'' [example_commit] = [''c0ffee'']"
    by (simp add: task_commits_def example_commit_def journal_event_new_def insert_new_def)
  then show ?thesis using assms example_read_all by (simp add: read_commits_def read_all_at_def)
qed

lemma close_after_reading:
  assumes "read_commits H n rd task s = (Inr (Some commits), s)"
    and "close_attrs_of H n = Inr at" "claimed_task (hr_ctx s) = Some task"
  shows "close H adapter n False workdir rd sink s =
     hbind (hworld (git_upstream H workdir)) (\<lambda>up.
     hbind (hworld (unpushed H workdir (Some commits) up)) (\<lambda>un.
     let verified = upstream_verified (Some commits) up un
     in if ca_require_upstream at \<and> \<not> verified
        then hret (outcome_fail (left_open task (Some commits) up un))
        else finish_close H adapter n workdir sink (ca_reason at) task commits
               (case up of Some u \<Rightarrow> u | None \<Rightarrow> ''no upstream'') verified)) s"
  using assms by (simp add: close_def close_claimed_def hbind_def [of "read_commits _ _ _ _"])
     (simp only: option.case)

lemma example_attrs:
  "close_attrs_of H close_node = Inr \<lparr>ca_require_upstream = True, ca_reason = None\<rparr>"
  by (simp add: close_attrs_of_def require_of_def reason_of_def close_node_def plain_node_def)

lemma example_claimed: "claimed_task claimed_ctx = Some ''e.9''"
  by code_simp

lemma example_close:
  "close (example_host True) adapter_new close_node False ''/w'' (Some ''/r'') True (example_run claimed_ctx) =
     (Inr (outcome_success ''closed e.9: 1 commit(s), upstream verified''),
      \<lparr>hr_ctx = \<lparr>ctx_values = [(''kept'', JBool False)], ctx_logs = []\<rparr>,
       hr_events = [TaskClosed ''e.9'' example_reason True [''c0ffee'']], hr_world = ()\<rparr>)"
proof -
  have "read_commits (example_host True) close_node (Some ''/r'') ''e.9'' (example_run claimed_ctx) =
      (Inr (Some [''c0ffee'']), example_run claimed_ctx)"
    by (rule example_read_commits) (simp_all add: example_host_def)
  from close_after_reading [where adapter = adapter_new and workdir = "''/w''" and sink = True, OF this example_attrs]
  have e: "close (example_host True) adapter_new close_node False ''/w'' (Some ''/r'') True (example_run claimed_ctx) =
     hbind (hworld (git_upstream (example_host True) ''/w'')) (\<lambda>up.
     hbind (hworld (unpushed (example_host True) ''/w'' (Some [''c0ffee'']) up)) (\<lambda>un.
     let verified = upstream_verified (Some [''c0ffee'']) up un
     in if \<not> verified then hret (outcome_fail (left_open ''e.9'' (Some [''c0ffee'']) up un))
        else finish_close (example_host True) adapter_new close_node ''/w'' True None ''e.9'' [''c0ffee'']
               (case up of Some u \<Rightarrow> u | None \<Rightarrow> ''no upstream'') verified)) (example_run claimed_ctx)"
    by (simp add: example_run_def example_claimed) (simp only: close_attrs.simps)
  show ?thesis unfolding e by code_simp
qed

lemma example_left_open:
  "close (recorded (example_host False)) adapter_new close_node False ''/w'' (Some ''/r'') True
       \<lparr>hr_ctx = claimed_ctx, hr_events = [], hr_world = ([], ())\<rparr> =
     (Inr (outcome_fail ''task e.9 left open: 1 commit(s) not on origin/main: c0ffee''),
      \<lparr>hr_ctx = claimed_ctx, hr_events = [],
       hr_world = ([git ''/w'' [''rev-parse'', ''--abbrev-ref'', ''--symbolic-full-name'', ''@'' @ ''{upstream}''],
                    git ''/w'' [''merge-base'', ''--is-ancestor'', ''c0ffee'', ''origin/main'']], ())\<rparr>)"
proof -
  let ?s = "\<lparr>hr_ctx = claimed_ctx, hr_events = [], hr_world = ([] :: command list, ())\<rparr>" and ?H = "recorded (example_host False)"
  have "read_commits ?H close_node (Some ''/r'') ''e.9'' ?s = (Inr (Some [''c0ffee'']), ?s)"
    by (rule example_read_commits) (simp_all add: example_host_def recorded_def)
  from close_after_reading [where adapter = adapter_new and workdir = "''/w''" and sink = True, OF this example_attrs]
  have e: "close ?H adapter_new close_node False ''/w'' (Some ''/r'') True ?s =
     hbind (hworld (git_upstream ?H ''/w'')) (\<lambda>up.
     hbind (hworld (unpushed ?H ''/w'' (Some [''c0ffee'']) up)) (\<lambda>un.
     let verified = upstream_verified (Some [''c0ffee'']) up un
     in if \<not> verified then hret (outcome_fail (left_open ''e.9'' (Some [''c0ffee'']) up un))
        else finish_close ?H adapter_new close_node ''/w'' True None ''e.9'' [''c0ffee'']
               (case up of Some u \<Rightarrow> u | None \<Rightarrow> ''no upstream'') verified)) ?s"
    by (simp add: example_claimed) (simp only: close_attrs.simps)
  show ?thesis unfolding e by code_simp
qed

theorem close_only_verified_witness:
  "context_get (hr_ctx (snd (close (example_host True) adapter_new close_node False ''/w'' (Some ''/r'') True
      (example_run claimed_ctx)))) ''task.id'' = None \<and>
   fst (git_upstream (example_host True) ''/w'' ()) = Some ''origin/main'' \<and>
   list_all (\<lambda>sha. \<exists>w. fst (is_ancestor (example_host True) ''/w'' sha ''origin/main'' w) = Inr True) [''c0ffee'']"
proof -
  have up: "fst (git_upstream (example_host True) ''/w'' ()) = Some ''origin/main''" by code_simp
  have s: "hr_events (example_run claimed_ctx) = []" "hm_wf (ctx_values (hr_ctx (example_run claimed_ctx)))"
    "hr_world (example_run claimed_ctx) = ()"
    by (simp_all add: example_run_def claimed_ctx_def hm_wf_def)
  have "status (outcome_success ''closed e.9: 1 commit(s), upstream verified'') = Success" by (simp add: outcome_success_def)
  from close_only_verified [OF example_close this example_attrs _ s(2), of "''task.id''"] up s
  show ?thesis by (auto simp: example_close told_def TASK_PREFIX_def starts_with_def)
qed

theorem failed_close_keeps_task_witness:
  "hr_ctx (snd (close (recorded (example_host False)) adapter_new close_node False ''/w'' (Some ''/r'') True
      \<lparr>hr_ctx = claimed_ctx, hr_events = [], hr_world = ([], ())\<rparr>)) = claimed_ctx"
proof -
  have "status (outcome_fail ''task e.9 left open: 1 commit(s) not on origin/main: c0ffee'') = Fail" by (simp add: outcome_fail_def)
  from failed_close_keeps_task [OF example_left_open this] show ?thesis by (simp add: example_left_open)
qed

section \<open>A human gate\<close>

definition gate_node :: pipeline_node where
  "gate_node = plain_node ''gate'' ''hexagon''"

definition gate_person :: "question \<Rightarrow> unit \<Rightarrow> answer result \<times> unit" where
  "gate_person q w = (Inr (from_terminal (first_choice (qu_choices q))), w)"

lemma example_gate_journal:
  "read_gate_journal (example_host True) p () = Inr [example_commit]"
  using example_read_all by (simp add: read_gate_journal_def example_host_def read_all_at_def)

lemma example_question_id: "question_id ''gate'' [example_commit] = Some (question_id_for ''gate'' 1)"
  by (simp add: question_id_def asked_in_def example_commit_def journal_event_new_def Let_def upt_rec)

lemma example_wait:
  "fst (wait (example_host True) gate_person gate_node (pl_graph gate_plan) (Some ''/r'') True (example_run claimed_ctx)) =
     Inr (human_outcome (from_terminal ''Continue''))"
proof -
  have "gate_choices gate_node (pl_graph gate_plan) = [''Continue'']" by code_simp
  moreover have "gate_question_id (example_host True) gate_node (Some ''/r'') (example_run claimed_ctx) =
      (Inr (Some (question_id_for ''gate'' 1)), example_run claimed_ctx)"
    using example_gate_journal example_question_id
    by (simp add: gate_question_id_def gate_node_def plain_node_def example_run_def)
  ultimately show ?thesis
    by (simp add: wait_def hbind_def [of "gate_question_id _ _ _"] ask_gate_def gate_person_def hbind_def [of "hworld _"]
        hworld_def gate_question_def first_choice_def from_terminal_def)
qed

theorem gate_records_exactly_witness:
  "hr_ctx (snd (wait (example_host True) gate_person gate_node (pl_graph gate_plan) (Some ''/r'') True
      (example_run claimed_ctx))) = claimed_ctx"
proof -
  obtain s' where "wait (example_host True) gate_person gate_node (pl_graph gate_plan) (Some ''/r'') True
      (example_run claimed_ctx) = (Inr (human_outcome (from_terminal ''Continue'')), s')"
    using example_wait by (metis prod.collapse)
  from this gate_records_exactly [OF this] show ?thesis by (auto simp: example_run_def)
qed

definition example_gate :: gate_env where
  "example_gate = \<lparr>ge_codec = demo_codec, ge_read = \<lambda>_. TextBad, ge_strip = id, ge_run = [''r''], ge_pid = 1\<rparr>"

definition example_question :: question where
  "example_question = \<lparr>qu_id = ''q-a-1'', qu_prompt = ''Go?'', qu_choices = [''Yes'', ''No''], qu_default = None, qu_timeout = None\<rparr>"

definition example_round :: round_env where
  "example_round = \<lparr>rd_number = 0, rd_write = no_faults, rd_others = id, rd_check = \<lparr>ck_read = None, ck_reject = None\<rparr>\<rparr>"

lemma example_typed:
  "\<exists>fs'. journal_ask example_gate id example_question True [FromChannel (Some ''2'') 0 (\<lambda>_. example_round)] (\<lambda>_. None) =
     (Inr (Some (from_terminal ''No'')), fs')"
proof -
  have "show_nat 2 = ''2''" by code_simp
  then have c: "terminal_choice id ''2'' [''Yes'', ''No''] = Some ''No''"
    using terminal_choice_number [of 2 "[''Yes'', ''No'']" id] by (simp add: u64_max_def)
  have "fst (write_answer demo_codec no_faults 1 0 [''r''] (answer_file_new 0 ''q-a-1'' ''No'' AnswerTerminal) (\<lambda>_. None)) = Inr True"
    by (simp add: write_answer_def checked_path_def answer_file_new_def demo_id no_faults_def
        link_answer_def Let_def tmp_not_answer [symmetric])
  then obtain fs' where
    "write_answer demo_codec no_faults 1 0 [''r''] (answer_file_new 0 ''q-a-1'' ''No'' AnswerTerminal) (\<lambda>_. None) = (Inr True, fs')"
    by (metis prod.collapse)
  then show ?thesis
    by (simp add: journal_ask_def example_question_def demo_id example_gate_def c answer_from_terminal_def example_round_def)
       (simp add: answer_file_new_def)
qed


text \<open>A run that stopped while its gate waited asks again under the same id; an answered question is not asked again.\<close>

theorem question_id_exact_witness:
  "question_id ''a'' [journal_event_new 1 0 ''r'' 1 (JHumanInputRequested ''q-a-1'' ''a'' ''Go?'' [''Yes''] None)] = Some ''q-a-1''"
proof -
  have "asked_at ''a'' [journal_event_new 1 0 ''r'' 1 (JHumanInputRequested ''q-a-1'' ''a'' ''Go?'' [''Yes''] None)] = [''q-a-1'']"
    "answered_ids [journal_event_new 1 0 ''r'' 1 (JHumanInputRequested ''q-a-1'' ''a'' ''Go?'' [''Yes''] None)] = []"
    by (simp_all add: asked_at_def answered_ids_def journal_event_new_def)
  with question_id_exact [of "''a''" "[journal_event_new 1 0 ''r'' 1 (JHumanInputRequested ''q-a-1'' ''a'' ''Go?'' [''Yes''] None)]"]
  show ?thesis by (simp split: option.splits)
qed

end
