(* ===== verification/Quality_Examples.thy ===== *)
theory Quality_Examples
  imports Quality_Handler Handler_Examples "HOL-Library.Countable"
begin

text \<open>
  The theorems about tools, quality gates and trust at concrete inputs. JSON text is replaced by an
  enumeration of JSON values.
\<close>

section \<open>Trust\<close>

instance f64 :: countable
  by countable_datatype

instance char :: countable
  by (rule countable_classI [of "of_char :: char \<Rightarrow> nat"]) (simp add: of_char_eq_iff)

instance json :: countable
  by countable_datatype

definition example_trust :: "(str \<Rightarrow> str option) \<Rightarrow> trust_env" where
  "example_trust var =
     \<lparr>tv_var = var, tv_home = Some [slash, ''h''], tv_canon = \<lambda>_. None, tv_cwd = Some [slash, ''w''],
      tv_parse = \<lambda>s. Inr (from_nat (length s)), tv_print = \<lambda>j. replicate (to_nat j) (CHR ''x''), tv_shape = \<lambda>_. [],
      tv_read = None, tv_now = ''t''\<rparr>"

definition manifest_path :: path where
  "manifest_path = [slash, ''p'', ''pas.toml'']"

lemma example_readable: "store_readable (example_trust var)"
  by (simp add: store_readable_def example_trust_def)

lemma example_saves: "save_store T None s fs = (Inr (), fs(trust_store_path T \<mapsto> tv_print T (store_json s)))"
  by (simp add: save_store_def)

lemma example_trusted:
  defines "T \<equiv> example_trust (\<lambda>_. None)"
  obtains fs1 fs2 where "add_trust T None manifest_path ''h1'' ''prompt'' (\<lambda>_. None) = (Inr (), fs1)"
    "remove_trust T None manifest_path ''h2'' fs1 = (Inr (), fs2)"
proof -
  have "load_store T (\<lambda>_. None) = Inr []" by (simp add: load_store_def)
  then obtain s where a: "add_trust T None manifest_path ''h1'' ''prompt'' (\<lambda>_. None) = save_store T None s (\<lambda>_. None)"
    by (auto simp: add_trust_def)
  obtain fs1 where f: "save_store T None s (\<lambda>_. None) = (Inr (), fs1)" by (simp add: example_saves)
  have "store_readable T" unfolding T_def by (rule example_readable)
  from load_saved [OF this f] obtain r where
    "remove_trust T None manifest_path ''h2'' fs1 = save_store T None r fs1" by (auto simp: remove_trust_def)
  then show thesis using a f that by (simp add: example_saves)
qed

theorem trust_exact_witness:
  "\<exists>fs2. is_trusted (example_trust (\<lambda>_. None)) manifest_path ''h1'' fs2
     \<and> \<not> is_trusted (example_trust (\<lambda>_. None)) manifest_path ''h2'' fs2"
proof -
  let ?T = "example_trust (\<lambda>_. None)"
  obtain fs1 fs2 where a: "add_trust ?T None manifest_path ''h1'' ''prompt'' (\<lambda>_. None) = (Inr (), fs1)"
    "remove_trust ?T None manifest_path ''h2'' fs1 = (Inr (), fs2)"
    by (rule example_trusted)
  have n: "normalize_path ?T (normalize_path ?T manifest_path) = normalize_path ?T manifest_path"
    by (simp add: normalize_path_def example_trust_def manifest_path_def is_absolute_def)
  have v: "tv_var ?T ''PAS_TRUST_THIS'' \<noteq> Some ''1''" by (simp add: example_trust_def)
  have k: "make_key ?T manifest_path ''h1'' \<noteq> make_key ?T manifest_path ''h2''" by (simp add: make_key_def)
  from trust_exact [OF a example_readable n v, of manifest_path] k show ?thesis by auto
qed

section \<open>A tool\<close>

definition stage_host :: "(command \<Rightarrow> int) \<Rightarrow> unit host" where
  "stage_host f = (example_host True)\<lparr>ho_within := \<lambda>c t w. (Ended (Some (f c)) ''out'' ''err'', w)\<rparr>"

definition tool_node :: pipeline_node where
  "tool_node = (plain_node ''t'' ''parallelogram'')\<lparr>pn_raw := [(''tool_command'', AString ''make'')]\<rparr>"

definition recorded_run :: "ctx \<Rightarrow> (command list \<times> unit) handler_run" where
  "recorded_run c = \<lparr>hr_ctx = c, hr_events = [], hr_world = ([], ())\<rparr>"

lemma example_tool:
  "\<exists>out. run_tool (recorded (stage_host (\<lambda>_. 2))) tool_node False (Some ''/w'') (recorded_run claimed_ctx) =
     (Inr out, (recorded_run claimed_ctx)\<lparr>hr_world := ([shell ''make'' (Some ''/w'')], ())\<rparr>)"
  by (simp add: run_tool_def tool_command_def tool_node_def plain_node_def recorded_def stage_host_def recorded_run_def
      hbind_def [of "hworld _"] hworld_def)

theorem tool_runs_once_witness:
  "\<exists>out. fst (run_tool (recorded (stage_host (\<lambda>_. 2))) tool_node False (Some ''/w'') (recorded_run claimed_ctx)) = Inr out
     \<and> hm_get (context_updates out) ''last_tool_command'' = Some (JStr ''make'')"
proof -
  obtain out where o: "run_tool (recorded (stage_host (\<lambda>_. 2))) tool_node False (Some ''/w'') (recorded_run claimed_ctx) =
     (Inr out, (recorded_run claimed_ctx)\<lparr>hr_world := ([shell ''make'' (Some ''/w'')], ())\<rparr>)"
    using example_tool by blast
  have "tool_command tool_node = Some ''make''" by (simp add: tool_command_def tool_node_def)
  with tool_runs_once [OF o] o show ?thesis by auto
qed

section \<open>A quality gate\<close>

definition example_quality :: "(str \<Rightarrow> str option) \<Rightarrow> unit quality_env" where
  "example_quality var =
     \<lparr>qe_var = \<lambda>k. if k = ''PATH'' then Some ''/bin'' else None, qe_clock = \<lambda>_. 0, qe_hex = id, qe_split = \<lambda>_. None,
      qe_trust = example_trust var, qe_files = \<lambda>_ _. None, qe_put_files = \<lambda>_ w. w, qe_tty = True,
      qe_line = \<lambda>w. (Inr ''n'', w), qe_save_fault = \<lambda>_. None\<rparr>"

definition example_section :: quality_section where
  "example_section = \<lparr>qs_stages = [''lint'', ''test''], qs_max_fix = None, qs_hooks = []\<rparr>"

definition example_manifest :: resolved_manifest where
  "example_manifest =
     \<lparr>rm_manifest = \<lparr>mf_project = \<lparr>ps_name = ''p'', ps_version = None\<rparr>, mf_toolchain = None,
        mf_quality = Some example_section, mf_codergen = None\<rparr>,
      rm_path = manifest_path, rm_hash = ''h1''\<rparr>"

definition agent_var :: "str \<Rightarrow> str option" where
  "agent_var k = (if k = ''PAS_AGENT'' then Some ''1'' else None)"

theorem untrusted_runs_nothing_witness:
  "\<exists>e. run_quality (stage_host (\<lambda>_. 0)) (example_quality agent_var) tool_node False ''/w'' (Some example_manifest)
     (example_run claimed_ctx) = (Inl e, example_run claimed_ctx)"
proof -
  let ?Q = "example_quality agent_var"
  have q: "mf_quality (rm_manifest example_manifest) = Some example_section" "qs_stages example_section \<noteq> []"
    "hm_get (pn_raw tool_node) ''enabled'' \<noteq> Some (ABoolean False)"
    by (simp_all add: example_manifest_def example_section_def tool_node_def)
  have t: "\<not> is_trusted (qe_trust ?Q) (rm_path example_manifest) (rm_hash example_manifest)
      (qe_files ?Q (hr_world (example_run claimed_ctx)))"
    by (simp add: is_trusted_def example_quality_def example_trust_def agent_var_def load_store_def hm_contains_get)
  have a: "tv_var (qe_trust ?Q) ''PAS_AGENT'' = Some ''1''"
    by (simp add: example_quality_def example_trust_def agent_var_def)
  have "tv_var (qe_trust ?Q) ''PAS_AGENT'' = Some ''1'' \<or>
      fst (ask_trust ?Q (rm_path example_manifest) (rm_hash example_manifest) (hr_world (example_run claimed_ctx))) \<noteq> Inr True"
    using a ..
  from untrusted_runs_nothing [OF q t this] a show ?thesis by (simp add: example_run_def)
qed

definition gate_checks :: pipeline_node where
  "gate_checks = (plain_node ''q'' ''box'')\<lparr>pn_raw := [(''quality_checks'', AString ''a | b | c'')]\<rparr>"

definition second_fails :: "command \<Rightarrow> int" where
  "second_fails c = (if cm_args c = [''-c'', ''b''] then 1 else 0)"

lemma example_stages:
  "quality_stages (recorded_env (example_quality (\<lambda>_. None))) gate_checks None (recorded_run claimed_ctx) =
     (Inr [shell_stage ''a'', shell_stage ''b'', shell_stage ''c''], recorded_run claimed_ctx)"
proof -
  have "stages_from_attr gate_checks = Inr [shell_stage ''a'', shell_stage ''b'', shell_stage ''c'']" by code_simp
  then show ?thesis by (simp add: quality_stages_def)
qed

lemma example_gate_run:
  "\<exists>rs s'. run_quality (recorded (stage_host second_fails)) (recorded_env (example_quality (\<lambda>_. None))) gate_checks False ''/w'' None
     (recorded_run claimed_ctx) = (Inr (quality_outcome gate_checks rs), s') \<and> map sr_passed rs = [True, False]"
  using example_stages
  by (simp add: run_quality_def gate_checks_def hbind_def [of "quality_stages _ _ _"] run_stage_def shell_stage_def shell_argv_def
      stage_command_def recorded_def stage_host_def second_fails_def hbind_def hworld_def recorded_run_def Let_def stage_result_of_def)
     (rule exI, rule conjI, rule refl, simp)

theorem quality_fail_fast_witness:
  "\<exists>out s' k. run_quality (recorded (stage_host second_fails)) (recorded_env (example_quality (\<lambda>_. None))) gate_checks False ''/w'' None
     (recorded_run claimed_ctx) = (Inr out, s') \<and> status out = Fail \<and>
     fst (hr_world s') = map (command_of_stage (example_quality (\<lambda>_. None)) ''/w'')
        (take k [shell_stage ''a'', shell_stage ''b'', shell_stage ''c''])"
proof -
  obtain rs s' where r: "run_quality (recorded (stage_host second_fails)) (recorded_env (example_quality (\<lambda>_. None))) gate_checks False ''/w'' None
     (recorded_run claimed_ctx) = (Inr (quality_outcome gate_checks rs), s')" "map sr_passed rs = [True, False]"
    using example_gate_run by (elim exE conjE) (rule that)
  have e: "hm_get (pn_raw gate_checks) ''enabled'' \<noteq> Some (ABoolean False)" by (simp add: gate_checks_def)
  have "\<not> all_passed rs" using r(2) by (auto simp: all_passed_def Cons_eq_map_conv eq_commute [of "map _ _"])
  then have "status (quality_outcome gate_checks rs) = Fail" by (simp add: quality_outcome_def)
  moreover obtain k where "fst (hr_world s') = map (command_of_stage (example_quality (\<lambda>_. None)) ''/w'')
        (take k [shell_stage ''a'', shell_stage ''b'', shell_stage ''c''])"
    using quality_fail_fast [OF r(1) e example_stages] by (auto simp: recorded_run_def)
  ultimately show ?thesis using r(1) by blast
qed

end
