(* ===== verification/Provider_Output.thy ===== *)
theory Provider_Output
  imports Beads_Select
begin

text \<open>
  The output of the command line programs of LLM providers (\<open>handlers/codergen_provider.rs\<close>): the readers of
  their JSON, the answer of a run, and the facts of a Model Invocation (model, tokens, cost).
\<close>

section \<open>JSON text\<close>

text \<open>
  \<open>serde_json\<close>: a value from a string, a value from bytes, the values of a stream up to its first syntax
  error, and the text of the error for a value that does not fit the type that is read. A tree has the fields of
  an object as written; in a \<open>Value\<close> the last of equal keys counts.
\<close>

record json_reader =
  jr_value :: "str \<Rightarrow> str + json"
  jr_slice :: "str \<Rightarrow> str + json"
  jr_stream :: "str \<Rightarrow> json list"
  jr_shape :: "json \<Rightarrow> str"

fun value_get :: "json \<Rightarrow> str \<Rightarrow> json option" where
  "value_get (JObj kvs) k = map_of (rev kvs) k"
| "value_get _ k = None"

definition value_str :: "json \<Rightarrow> str \<Rightarrow> str option" where
  "value_str j k = Option.bind (value_get j k) json_as_str"

definition ok_of :: "'e + 'a \<Rightarrow> 'a option" where
  "ok_of r = (case r of Inl _ \<Rightarrow> None | Inr x \<Rightarrow> Some x)"

lemma ok_of_simps [simp]: "ok_of (Inl e) = None" "ok_of (Inr x) = Some x"
  by (simp_all add: ok_of_def)

definition read_as :: "json_reader \<Rightarrow> (json \<Rightarrow> 'a option) \<Rightarrow> str \<Rightarrow> str + 'a" where
  "read_as J dec t =
     rbind (jr_value J t) (\<lambda>j. case dec j of Some x \<Rightarrow> Inr x | None \<Rightarrow> Inl (jr_shape J j))"

text \<open>Each line that is an object of the type; blank lines, other text and a torn last line are skipped.\<close>

definition json_lines :: "json_reader \<Rightarrow> (json \<Rightarrow> 'a option) \<Rightarrow> str \<Rightarrow> 'a list" where
  "json_lines J dec stdout =
     List.map_filter (\<lambda>l. ok_of (read_as J dec l)) (filter (starts_with ''{'') (map trim (str_lines stdout)))"

section \<open>Types of the lines\<close>

record claude_output =
  co_result :: str
  co_is_error :: bool
  co_subtype :: str
  co_cost :: f64
  co_turns :: nat

definition dec_claude_output :: "json \<Rightarrow> claude_output option" where
  "dec_claude_output j = do {
     f \<leftarrow> struct_fields [''result'', ''is_error'', ''subtype'', ''total_cost_usd'', ''num_turns''] j;
     r \<leftarrow> defaulted f ''result'' [] json_as_str;
     e \<leftarrow> defaulted f ''is_error'' False json_as_bool;
     s \<leftarrow> defaulted f ''subtype'' [] json_as_str;
     c \<leftarrow> defaulted f ''total_cost_usd'' (f64_of_int 0) json_as_f64;
     n \<leftarrow> defaulted f ''num_turns'' 0 (dec_uint u32_max);
     Some \<lparr>co_result = r, co_is_error = e, co_subtype = s, co_cost = c, co_turns = n\<rparr>
   }"

text \<open>A Codex event has its type in the field \<open>type\<close>; other types than these are one constructor.\<close>

record codex_usage =
  cx_input :: int
  cx_output :: int
  cx_cached :: int

datatype codex_event =
    ItemCompleted str "str option"
  | TurnCompleted "codex_usage option"
  | TurnFailed "str option"
  | CodexFatal str
  | CodexOther

fun split_tag :: "json \<Rightarrow> (str \<times> json) option" where
  "split_tag (JObj kvs) =
     (case filter (\<lambda>(k, v). k = ''type'') kvs of
        [(_, JStr t)] \<Rightarrow> Some (t, JObj (filter (\<lambda>(k, v). k \<noteq> ''type'') kvs)) | _ \<Rightarrow> None)"
| "split_tag (JArr (JStr t # xs)) = Some (t, JArr xs)"
| "split_tag _ = None"

definition dec_codex_item :: "json \<Rightarrow> (str \<times> str option) option" where
  "dec_codex_item j = do {
     f \<leftarrow> struct_fields [''type'', ''text''] j;
     t \<leftarrow> required f ''type'' json_as_str;
     x \<leftarrow> optional f ''text'' json_as_str;
     Some (t, x)
   }"

definition dec_codex_usage :: "json \<Rightarrow> codex_usage option" where
  "dec_codex_usage j = do {
     f \<leftarrow> struct_fields [''input_tokens'', ''output_tokens'', ''cached_input_tokens''] j;
     i \<leftarrow> required f ''input_tokens'' (dec_int i64_min i64_max);
     ot \<leftarrow> required f ''output_tokens'' (dec_int i64_min i64_max);
     c \<leftarrow> defaulted f ''cached_input_tokens'' 0 (dec_int i64_min i64_max);
     Some \<lparr>cx_input = i, cx_output = ot, cx_cached = c\<rparr>
   }"

definition dec_message :: "json \<Rightarrow> str option" where
  "dec_message j = do {
     f \<leftarrow> struct_fields [''message''] j;
     required f ''message'' json_as_str
   }"

definition dec_codex_event :: "json \<Rightarrow> codex_event option" where
  "dec_codex_event j = do {
     (t, c) \<leftarrow> split_tag j;
     if t = ''item.completed'' then do {
       f \<leftarrow> struct_fields [''item''] c;
       (k, x) \<leftarrow> required f ''item'' dec_codex_item;
       Some (ItemCompleted k x) }
     else if t = ''turn.completed'' then do {
       f \<leftarrow> struct_fields [''usage''] c;
       u \<leftarrow> optional f ''usage'' dec_codex_usage;
       Some (TurnCompleted u) }
     else if t = ''turn.failed'' then do {
       f \<leftarrow> struct_fields [''error''] c;
       e \<leftarrow> optional f ''error'' dec_message;
       Some (TurnFailed e) }
     else if t = ''error'' then do {
       m \<leftarrow> dec_message c;
       Some (CodexFatal m) }
     else Some CodexOther
   }"

text \<open>Gemini's single object, and a line of its stream.\<close>

record gemini_output =
  go_response :: "str option"
  go_error :: "str option"

definition dec_gemini_error :: "json \<Rightarrow> str option" where
  "dec_gemini_error j = do {
     f \<leftarrow> struct_fields [''type'', ''message'', ''code''] j;
     t \<leftarrow> required f ''type'' json_as_str;
     m \<leftarrow> required f ''message'' json_as_str;
     Some m
   }"

definition dec_gemini_output :: "json \<Rightarrow> gemini_output option" where
  "dec_gemini_output j = do {
     f \<leftarrow> struct_fields [''session_id'', ''response'', ''error''] j;
     s \<leftarrow> optional f ''session_id'' json_as_str;
     r \<leftarrow> optional f ''response'' json_as_str;
     e \<leftarrow> optional f ''error'' dec_gemini_error;
     Some \<lparr>go_response = r, go_error = e\<rparr>
   }"

record gemini_stats =
  gs_input :: "nat option"
  gs_output :: "nat option"
  gs_models :: "nat option btree option"

record gemini_line =
  gl_kind :: "str option"
  gl_model :: "str option"
  gl_role :: "str option"
  gl_content :: "str option"
  gl_status :: "str option"
  gl_error :: "str option option"
  gl_stats :: "gemini_stats option"

abbreviation dec_u64 :: "json \<Rightarrow> nat option" where
  "dec_u64 \<equiv> dec_uint u64_max"

definition dec_opt_field :: "str \<Rightarrow> (json \<Rightarrow> 'a option) \<Rightarrow> json \<Rightarrow> 'a option option" where
  "dec_opt_field k dec j = Option.bind (struct_fields [k] j) (\<lambda>f. optional f k dec)"

definition dec_gemini_stats :: "json \<Rightarrow> gemini_stats option" where
  "dec_gemini_stats j = do {
     f \<leftarrow> struct_fields [''input_tokens'', ''output_tokens'', ''models''] j;
     i \<leftarrow> optional f ''input_tokens'' dec_u64;
     ot \<leftarrow> optional f ''output_tokens'' dec_u64;
     m \<leftarrow> optional f ''models'' (dec_btree (dec_opt_field ''output_tokens'' dec_u64));
     Some \<lparr>gs_input = i, gs_output = ot, gs_models = m\<rparr>
   }"

definition dec_gemini_line :: "json \<Rightarrow> gemini_line option" where
  "dec_gemini_line j = do {
     f \<leftarrow> struct_fields [''type'', ''model'', ''role'', ''content'', ''status'', ''error'', ''stats''] j;
     k \<leftarrow> optional f ''type'' json_as_str;
     m \<leftarrow> optional f ''model'' json_as_str;
     r \<leftarrow> optional f ''role'' json_as_str;
     c \<leftarrow> optional f ''content'' json_as_str;
     s \<leftarrow> optional f ''status'' json_as_str;
     e \<leftarrow> optional f ''error'' (dec_opt_field ''message'' json_as_str);
     st \<leftarrow> optional f ''stats'' dec_gemini_stats;
     Some \<lparr>gl_kind = k, gl_model = m, gl_role = r, gl_content = c, gl_status = s, gl_error = e, gl_stats = st\<rparr>
   }"

text \<open>The tokens of the models in Gemini's single object: prompt and candidates.\<close>

definition dec_gemini_tokens :: "json \<Rightarrow> (nat option \<times> nat option) option" where
  "dec_gemini_tokens j = do {
     f \<leftarrow> struct_fields [''prompt'', ''candidates''] j;
     p \<leftarrow> optional f ''prompt'' dec_u64;
     c \<leftarrow> optional f ''candidates'' dec_u64;
     Some (p, c)
   }"

definition dec_gemini_json_stats :: "json \<Rightarrow> (nat option \<times> nat option) option btree option option option" where
  "dec_gemini_json_stats =
     dec_opt_field ''stats'' (dec_opt_field ''models'' (dec_btree (dec_opt_field ''tokens'' dec_gemini_tokens)))"

record token_counts =
  tk_input :: "nat option"
  tk_creation :: "nat option"
  tk_cached :: "nat option"
  tk_output :: "nat option"

definition dec_tokens :: "str \<Rightarrow> str \<Rightarrow> str \<Rightarrow> str \<Rightarrow> json \<Rightarrow> token_counts option" where
  "dec_tokens ki kc kr ko j = do {
     f \<leftarrow> struct_fields [ki, kc, kr, ko] j;
     i \<leftarrow> optional f ki dec_u64;
     c \<leftarrow> optional f kc dec_u64;
     r \<leftarrow> optional f kr dec_u64;
     ot \<leftarrow> optional f ko dec_u64;
     Some \<lparr>tk_input = i, tk_creation = c, tk_cached = r, tk_output = ot\<rparr>
   }"

definition dec_claude_usage :: "json \<Rightarrow> token_counts option" where
  "dec_claude_usage =
     dec_tokens ''input_tokens'' ''cache_creation_input_tokens'' ''cache_read_input_tokens'' ''output_tokens''"

definition dec_claude_model_usage :: "json \<Rightarrow> token_counts option" where
  "dec_claude_model_usage =
     dec_tokens ''inputTokens'' ''cacheCreationInputTokens'' ''cacheReadInputTokens'' ''outputTokens''"

record claude_line =
  cl_kind :: "str option"
  cl_subtype :: "str option"
  cl_model :: "str option"
  cl_message :: "str option option"
  cl_cost :: "f64 option"
  cl_usage :: "token_counts option"
  cl_models :: "token_counts btree option"

definition dec_claude_line :: "json \<Rightarrow> claude_line option" where
  "dec_claude_line j = do {
     f \<leftarrow> struct_fields [''type'', ''subtype'', ''model'', ''message'', ''total_cost_usd'', ''usage'', ''modelUsage''] j;
     k \<leftarrow> optional f ''type'' json_as_str;
     s \<leftarrow> optional f ''subtype'' json_as_str;
     m \<leftarrow> optional f ''model'' json_as_str;
     ms \<leftarrow> optional f ''message'' (dec_opt_field ''model'' json_as_str);
     c \<leftarrow> optional f ''total_cost_usd'' json_as_f64;
     u \<leftarrow> optional f ''usage'' dec_claude_usage;
     mu \<leftarrow> optional f ''modelUsage'' (dec_btree dec_claude_model_usage);
     Some \<lparr>cl_kind = k, cl_subtype = s, cl_model = m, cl_message = ms, cl_cost = c, cl_usage = u, cl_models = mu\<rparr>
   }"

definition dec_codex_tokens :: "json \<Rightarrow> (nat option \<times> nat option) option" where
  "dec_codex_tokens j = do {
     f \<leftarrow> struct_fields [''input_tokens'', ''output_tokens''] j;
     i \<leftarrow> optional f ''input_tokens'' dec_u64;
     ot \<leftarrow> optional f ''output_tokens'' dec_u64;
     Some (i, ot)
   }"

definition dec_codex_line :: "json \<Rightarrow> (str option \<times> (nat option \<times> nat option) option) option" where
  "dec_codex_line j = do {
     f \<leftarrow> struct_fields [''type'', ''usage''] j;
     k \<leftarrow> optional f ''type'' json_as_str;
     u \<leftarrow> optional f ''usage'' dec_codex_tokens;
     Some (k, u)
   }"

record pi_usage =
  pu_input :: "nat option"
  pu_output :: "nat option"
  pu_cache_read :: "nat option"
  pu_cache_write :: "nat option"
  pu_cost :: "f64 option option"

definition dec_pi_usage :: "json \<Rightarrow> pi_usage option" where
  "dec_pi_usage j = do {
     f \<leftarrow> struct_fields [''input'', ''output'', ''cacheRead'', ''cacheWrite'', ''cost''] j;
     i \<leftarrow> optional f ''input'' dec_u64;
     ot \<leftarrow> optional f ''output'' dec_u64;
     r \<leftarrow> optional f ''cacheRead'' dec_u64;
     w \<leftarrow> optional f ''cacheWrite'' dec_u64;
     c \<leftarrow> optional f ''cost'' (dec_opt_field ''total'' json_as_f64);
     Some \<lparr>pu_input = i, pu_output = ot, pu_cache_read = r, pu_cache_write = w, pu_cost = c\<rparr>
   }"

record pi_message =
  pm_role :: "str option"
  pm_content :: "json option"
  pm_usage :: "pi_usage option"
  pm_model :: "str option"
  pm_response_model :: "str option"
  pm_stop_reason :: "str option"
  pm_error_message :: "str option"

definition dec_pi_message :: "json \<Rightarrow> pi_message option" where
  "dec_pi_message j = do {
     f \<leftarrow> struct_fields [''role'', ''content'', ''usage'', ''model'', ''responseModel'', ''stopReason'', ''errorMessage''] j;
     r \<leftarrow> optional f ''role'' json_as_str;
     c \<leftarrow> optional f ''content'' Some;
     u \<leftarrow> optional f ''usage'' dec_pi_usage;
     m \<leftarrow> optional f ''model'' json_as_str;
     rm \<leftarrow> optional f ''responseModel'' json_as_str;
     s \<leftarrow> optional f ''stopReason'' json_as_str;
     e \<leftarrow> optional f ''errorMessage'' json_as_str;
     Some \<lparr>pm_role = r, pm_content = c, pm_usage = u, pm_model = m, pm_response_model = rm, pm_stop_reason = s,
       pm_error_message = e\<rparr>
   }"

definition dec_pi_line :: "json \<Rightarrow> (str option \<times> pi_message option) option" where
  "dec_pi_line j = do {
     f \<leftarrow> struct_fields [''type'', ''message''] j;
     k \<leftarrow> optional f ''type'' json_as_str;
     m \<leftarrow> optional f ''message'' dec_pi_message;
     Some (k, m)
   }"

section \<open>Facts of an invocation\<close>

record invocation_usage =
  iu_model :: "str option"
  iu_input :: "nat option"
  iu_output :: "nat option"
  iu_cost :: "f64 option"

definition no_usage :: invocation_usage where
  "no_usage = \<lparr>iu_model = None, iu_input = None, iu_output = None, iu_cost = None\<rparr>"

definition sat_add :: "nat \<Rightarrow> nat \<Rightarrow> nat" where
  "sat_add a b = min (a + b) u64_max"

fun sum_from :: "nat option \<Rightarrow> nat option list \<Rightarrow> nat option" where
  "sum_from acc [] = acc"
| "sum_from acc (None # vs) = sum_from acc vs"
| "sum_from acc (Some v # vs) = sum_from (Some (sat_add (case acc of Some a \<Rightarrow> a | None \<Rightarrow> 0) v)) vs"

definition sum_present :: "nat option list \<Rightarrow> nat option" where
  "sum_present vs = sum_from None vs"

text \<open>The model with the most output tokens; ties go to the first name.\<close>

fun busier :: "(str \<times> nat) option \<Rightarrow> (str \<times> nat option) list \<Rightarrow> (str \<times> nat) option" where
  "busier best [] = best"
| "busier best ((name, out) # ms) =
     (let n = (case out of Some k \<Rightarrow> k | None \<Rightarrow> 0)
      in busier (case best of None \<Rightarrow> Some (name, n) | Some (b, k) \<Rightarrow> if k < n then Some (name, n) else best) ms)"

definition busiest_model :: "(str \<times> nat option) list \<Rightarrow> str option" where
  "busiest_model ms = map_option fst (busier None ms)"

text \<open>The last line of a Claude stream with the answer.\<close>

definition is_result_line :: "json_reader \<Rightarrow> str \<Rightarrow> bool" where
  "is_result_line J l \<longleftrightarrow> starts_with ''{'' l \<and>
     (case jr_value J l of Inl _ \<Rightarrow> False | Inr v \<Rightarrow> value_str v ''type'' = Some ''result'')"

definition claude_result_line :: "json_reader \<Rightarrow> str \<Rightarrow> str option" where
  "claude_result_line J stdout = find (is_result_line J) (map trim (rev (str_lines stdout)))"

text \<open>The model of the first \<open>system/init\<close> line and of the last assistant message that names one.\<close>

definition claude_step :: "claude_line \<Rightarrow> str option \<times> str option \<Rightarrow> str option \<times> str option" where
  "claude_step l = (\<lambda>(init, message).
     if cl_kind l = Some ''system'' \<and> cl_subtype l = Some ''init'' \<and> init = None then (cl_model l, message)
     else if cl_kind l = Some ''assistant''
     then (init, case Option.bind (cl_message l) id of Some m \<Rightarrow> Some m | None \<Rightarrow> message)
     else (init, message))"

definition prompt_tokens :: "token_counts \<Rightarrow> nat option" where
  "prompt_tokens t = sum_present [tk_input t, tk_cached t, tk_creation t]"

definition claude_tokens :: "claude_line \<Rightarrow> nat option \<times> nat option \<times> str option" where
  "claude_tokens r =
     (case cl_models r of
        Some (m # ms) \<Rightarrow>
          (sum_present (map (prompt_tokens \<circ> snd) (m # ms)), sum_present (map (tk_output \<circ> snd) (m # ms)),
           if ms = [] then Some (fst m) else None)
      | _ \<Rightarrow> (case cl_usage r of Some u \<Rightarrow> (prompt_tokens u, tk_output u, None) | None \<Rightarrow> (None, None, None)))"

definition summarize_claude :: "json_reader \<Rightarrow> str \<Rightarrow> invocation_usage" where
  "summarize_claude J stdout =
     (let (init, message) = fold claude_step (json_lines J dec_claude_line stdout) (None, None);
          answer = (case claude_result_line J stdout of Some l \<Rightarrow> l | None \<Rightarrow> trim stdout)
      in case ok_of (read_as J dec_claude_line answer) of
           None \<Rightarrow> no_usage\<lparr>iu_model := or_else init message\<rparr>
         | Some r \<Rightarrow>
             (let (i, ot, only) = claude_tokens r
              in \<lparr>iu_model = or_else (or_else init message) only, iu_input = i, iu_output = ot, iu_cost = cl_cost r\<rparr>))"

definition summarize_codex :: "json_reader \<Rightarrow> str \<Rightarrow> invocation_usage" where
  "summarize_codex J stdout =
     (let usages = List.map_filter snd
            (filter (\<lambda>l. fst l = Some ''turn.completed'') (json_lines J dec_codex_line stdout))
      in no_usage\<lparr>iu_input := sum_present (map fst usages), iu_output := sum_present (map snd usages)\<rparr>)"

definition gemini_step :: "gemini_line \<Rightarrow> str option \<times> gemini_stats option \<Rightarrow> str option \<times> gemini_stats option" where
  "gemini_step l = (\<lambda>(init, stats).
     if gl_kind l = Some ''init'' \<and> init = None then (gl_model l, stats)
     else if gl_kind l = Some ''result'' then (init, gl_stats l)
     else (init, stats))"

definition summarize_gemini_stream :: "json_reader \<Rightarrow> str \<Rightarrow> invocation_usage" where
  "summarize_gemini_stream J stdout =
     (let (init, stats) = fold gemini_step (json_lines J dec_gemini_line stdout) (None, None)
      in \<lparr>iu_model = or_else (Option.bind (Option.bind stats gs_models) busiest_model) init,
          iu_input = Option.bind stats gs_input, iu_output = Option.bind stats gs_output, iu_cost = None\<rparr>)"

definition gemini_models :: "json_reader \<Rightarrow> str \<Rightarrow> (nat option \<times> nat option) option btree" where
  "gemini_models J stdout =
     (case ok_of (read_as J dec_gemini_json_stats stdout) of Some (Some (Some m)) \<Rightarrow> m | _ \<Rightarrow> [])"

definition summarize_gemini_json :: "json_reader \<Rightarrow> str \<Rightarrow> invocation_usage" where
  "summarize_gemini_json J stdout =
     (let models = gemini_models J stdout;
          candidates = map (\<lambda>(name, t). (name, Option.bind t snd)) models
      in \<lparr>iu_model = busiest_model candidates,
          iu_input = sum_present (map (\<lambda>(name, t). Option.bind t fst) models),
          iu_output = sum_present (map snd candidates), iu_cost = None\<rparr>)"

text \<open>Whether Gemini wrote a stream: some line is an object with a type.\<close>

definition is_gemini_stream :: "json_reader \<Rightarrow> str \<Rightarrow> bool" where
  "is_gemini_stream J stdout \<longleftrightarrow>
     list_ex (\<lambda>k. k \<noteq> None) (json_lines J (dec_opt_field ''type'' json_as_str) stdout)"

section \<open>pi\<close>

record pi_scan =
  px_input :: "nat option"
  px_output :: "nat option"
  px_cost :: "f64 option"
  px_model :: "str option"
  px_agent_end :: bool
  px_assistant_end :: bool
  px_stop_reason :: "str option"
  px_error_message :: "str option"
  px_text :: str

definition pi_scan_empty :: pi_scan where
  "pi_scan_empty =
     \<lparr>px_input = None, px_output = None, px_cost = None, px_model = None, px_agent_end = False,
      px_assistant_end = False, px_stop_reason = None, px_error_message = None, px_text = []\<rparr>"

definition pi_text :: "json option \<Rightarrow> str" where
  "pi_text c =
     (case c of
        Some (JArr parts) \<Rightarrow>
          join [NL] (List.map_filter (\<lambda>p. value_str p ''text'')
            (filter (\<lambda>p. value_str p ''type'' = Some ''text'') parts))
      | Some (JStr t) \<Rightarrow> t
      | _ \<Rightarrow> [])"

definition pi_add_usage :: "pi_usage \<Rightarrow> pi_scan \<Rightarrow> pi_scan" where
  "pi_add_usage u s =
     s\<lparr>px_input := sum_present [px_input s, sum_present [pu_input u, pu_cache_read u, pu_cache_write u]],
       px_output := sum_present [px_output s, pu_output u],
       px_cost := (case Option.bind (pu_cost u) id of
          Some c \<Rightarrow> Some (f64_add (case px_cost s of Some a \<Rightarrow> a | None \<Rightarrow> f64_of_int 0) c) | None \<Rightarrow> px_cost s)\<rparr>"

definition pi_step :: "str option \<times> pi_message option \<Rightarrow> pi_scan \<Rightarrow> pi_scan" where
  "pi_step l s =
     (if fst l = Some ''agent_end'' then s\<lparr>px_agent_end := True\<rparr>
      else if fst l = Some ''message_end'' then
        (case snd l of
           None \<Rightarrow> s
         | Some m \<Rightarrow>
             if pm_role m \<noteq> Some ''assistant'' then s
             else (let s1 = s\<lparr>px_assistant_end := True\<rparr>;
                       s2 = (case pm_usage m of Some u \<Rightarrow> pi_add_usage u s1 | None \<Rightarrow> s1)
                   in s2\<lparr>px_model := or_else (pm_response_model m) (pm_model m), px_stop_reason := pm_stop_reason m,
                         px_error_message := pm_error_message m, px_text := pi_text (pm_content m)\<rparr>))
      else s)"

definition scan_pi :: "json_reader \<Rightarrow> str \<Rightarrow> pi_scan" where
  "scan_pi J stdout = fold pi_step (json_lines J dec_pi_line stdout) pi_scan_empty"

definition pi_scan_usage :: "pi_scan \<Rightarrow> invocation_usage" where
  "pi_scan_usage s = \<lparr>iu_model = px_model s, iu_input = px_input s, iu_output = px_output s, iu_cost = px_cost s\<rparr>"

text \<open>What one line costs: the total of an assistant's finished message.\<close>

definition line_cost :: "str option \<times> pi_message option \<Rightarrow> f64 option" where
  "line_cost l =
     (if fst l \<noteq> Some ''message_end'' then None
      else case snd l of
             None \<Rightarrow> None
           | Some m \<Rightarrow>
               if pm_role m \<noteq> Some ''assistant'' then None
               else Option.bind (pm_usage m) (\<lambda>u. Option.bind (pu_cost u) id))"

definition pi_message_end_cost :: "json_reader \<Rightarrow> str \<Rightarrow> f64 option" where
  "pi_message_end_cost J line = Option.bind (Option.bind (ok_of (jr_slice J line)) dec_pi_line) line_cost"

section \<open>The answer\<close>

record cli_result =
  nr_text :: str
  nr_is_error :: bool
  nr_cost :: "f64 option"
  nr_turns :: "nat option"
  nr_usage :: invocation_usage
  nr_raw :: str

definition summarize_stream :: "json_reader \<Rightarrow> llm_provider \<Rightarrow> str \<Rightarrow> invocation_usage" where
  "summarize_stream J p stdout =
     (case p of
        Claude \<Rightarrow> summarize_claude J stdout
      | Codex \<Rightarrow> summarize_codex J stdout
      | Gemini \<Rightarrow> if is_gemini_stream J stdout then summarize_gemini_stream J stdout else summarize_gemini_json J stdout
      | Pi \<Rightarrow> pi_scan_usage (scan_pi J stdout))"

definition has_final_result :: "json_reader \<Rightarrow> llm_provider \<Rightarrow> str \<Rightarrow> bool" where
  "has_final_result J p stdout =
     (case p of
        Claude \<Rightarrow> claude_result_line J stdout \<noteq> None
      | Gemini \<Rightarrow>
          if is_gemini_stream J stdout
          then list_ex (\<lambda>l. gl_kind l = Some ''result'') (json_lines J dec_gemini_line stdout)
          else stdout \<noteq> []
      | Codex \<Rightarrow> stdout \<noteq> []
      | Pi \<Rightarrow> px_agent_end (scan_pi J stdout))"

text \<open>The first characters of a text, cut before the first byte of the next one.\<close>

fun head_chars :: "nat \<Rightarrow> str \<Rightarrow> str" where
  "head_chars n [] = []"
| "head_chars n (c # s) =
     (if lead_byte c then (case n of 0 \<Rightarrow> [] | Suc k \<Rightarrow> c # head_chars k s) else c # head_chars n s)"

definition codergen_error :: "str \<Rightarrow> str \<Rightarrow> error" where
  "codergen_error node_id m = HandlerError ''codergen'' node_id m"

definition raw_text :: "str \<Rightarrow> str" where
  "raw_text stdout = '' '' @ em_dash @ '' raw: '' @ head_chars 500 stdout"

definition plain_result :: "str \<Rightarrow> str \<Rightarrow> bool \<Rightarrow> cli_result" where
  "plain_result stdout t is_error =
     \<lparr>nr_text = t, nr_is_error = is_error, nr_cost = None, nr_turns = None, nr_usage = no_usage, nr_raw = stdout\<rparr>"

definition parse_claude_output :: "json_reader \<Rightarrow> str \<Rightarrow> str \<Rightarrow> cli_result result" where
  "parse_claude_output J stdout node_id =
     (case read_as J dec_claude_output (case claude_result_line J stdout of Some l \<Rightarrow> l | None \<Rightarrow> stdout) of
        Inl e \<Rightarrow> Inl (codergen_error node_id (''Failed to parse Claude output: '' @ e @ raw_text stdout))
      | Inr r \<Rightarrow>
          Inr ((plain_result stdout (co_result r) (co_is_error r \<or> co_subtype r = ''error''))
            \<lparr>nr_cost := Some (co_cost r), nr_turns := Some (co_turns r)\<rparr>))"

text \<open>The stream of Codex ends with its first error, of syntax or of a value that is no event.\<close>

definition codex_step :: "codex_event \<Rightarrow> str option \<times> bool \<times> str option \<Rightarrow> str option \<times> bool \<times> str option" where
  "codex_step e = (\<lambda>(last, err, msg).
     case e of
       ItemCompleted k (Some t) \<Rightarrow> if k = ''agent_message'' then (Some t, err, msg) else (last, err, msg)
     | TurnFailed m \<Rightarrow> (last, True, m)
     | CodexFatal m \<Rightarrow> (last, True, Some m)
     | _ \<Rightarrow> (last, err, msg))"

definition codex_events :: "json_reader \<Rightarrow> str \<Rightarrow> codex_event list" where
  "codex_events J stdout = map the (takeWhile (\<lambda>e. e \<noteq> None) (map dec_codex_event (jr_stream J stdout)))"

definition parse_codex_output :: "json_reader \<Rightarrow> str \<Rightarrow> cli_result" where
  "parse_codex_output J stdout =
     (let (last, err, msg) = fold codex_step (codex_events J stdout) (None, False, None)
      in plain_result stdout
           (case or_else last msg of Some t \<Rightarrow> t | None \<Rightarrow> ''No agent message found in Codex output'') err)"

definition parse_gemini_output :: "json_reader \<Rightarrow> str \<Rightarrow> str \<Rightarrow> cli_result result" where
  "parse_gemini_output J stdout node_id =
     (case read_as J dec_gemini_output stdout of
        Inl e \<Rightarrow> Inl (codergen_error node_id (''Failed to parse Gemini output: '' @ e @ raw_text stdout))
      | Inr r \<Rightarrow>
          (case go_error r of
             Some m \<Rightarrow> Inr (plain_result stdout m True)
           | None \<Rightarrow> Inr (plain_result stdout (or_empty (go_response r)) False)))"

definition gemini_text_step :: "gemini_line \<Rightarrow> str \<times> gemini_line option \<Rightarrow> str \<times> gemini_line option" where
  "gemini_text_step l = (\<lambda>(t, res).
     if gl_kind l = Some ''message'' \<and> gl_role l = Some ''assistant'' then (t @ or_empty (gl_content l), res)
     else if gl_kind l = Some ''result'' then (t, Some l)
     else (t, res))"

definition parse_gemini_stream_output :: "json_reader \<Rightarrow> str \<Rightarrow> str \<Rightarrow> cli_result result" where
  "parse_gemini_stream_output J stdout node_id =
     (let (t, res) = fold gemini_text_step (json_lines J dec_gemini_line stdout) ([], None)
      in case res of
           None \<Rightarrow> Inl (codergen_error node_id (''Failed to parse Gemini output: no result event'' @ raw_text stdout))
         | Some r \<Rightarrow>
             if gl_status r = Some ''error''
             then Inr (plain_result stdout
               (case Option.bind (gl_error r) id of Some m \<Rightarrow> m | None \<Rightarrow> ''Gemini reported an error'') True)
             else Inr (plain_result stdout t False))"

definition pi_failure :: "pi_scan \<Rightarrow> str option" where
  "pi_failure s =
     (if \<not> px_agent_end s then Some ''pi produced no final result (no agent_end event)''
      else if \<not> px_assistant_end s then Some ''pi ended with an unexpected end (no assistant message)''
      else case px_stop_reason s of
             Some r \<Rightarrow>
               if r = ''stop'' then None
               else if r = ''length'' then Some ''pi output truncated (stopReason length)''
               else if r = ''error'' \<or> r = ''aborted''
               then Some (''pi finished with an error: ''
                 @ head_chars 500 (case px_error_message s of Some m \<Rightarrow> m | None \<Rightarrow> r))
               else Some (''pi ended with an unexpected end (stopReason '' @ r @ '')'')
           | None \<Rightarrow> Some ''pi ended with an unexpected end (stopReason missing)'')"

definition parse_pi_output :: "json_reader \<Rightarrow> str \<Rightarrow> cli_result" where
  "parse_pi_output J stdout =
     (let s = scan_pi J stdout
      in \<lparr>nr_text = (case pi_failure s of Some m \<Rightarrow> m | None \<Rightarrow> px_text s), nr_is_error = (pi_failure s \<noteq> None),
          nr_cost = px_cost s, nr_turns = None, nr_usage = pi_scan_usage s, nr_raw = stdout\<rparr>)"

definition parse_cli_output :: "json_reader \<Rightarrow> llm_provider \<Rightarrow> str \<Rightarrow> str \<Rightarrow> str \<Rightarrow> cli_result result" where
  "parse_cli_output J p stdout stderr node_id =
     (if trim stdout = []
      then Inl (codergen_error node_id (provider_display_name p @ '' produced no output. stderr: '' @ head_chars 500 stderr))
      else rbind
        (case p of
           Claude \<Rightarrow> parse_claude_output J stdout node_id
         | Codex \<Rightarrow> Inr (parse_codex_output J stdout)
         | Gemini \<Rightarrow>
             if is_gemini_stream J stdout then parse_gemini_stream_output J stdout node_id
             else parse_gemini_output J stdout node_id
         | Pi \<Rightarrow> Inr (parse_pi_output J stdout))
        (\<lambda>r. Inr (r\<lparr>nr_usage := summarize_stream J p stdout\<rparr>)))"

section \<open>Sums stay in range\<close>

lemma sat_add_bound: "sat_add a b \<le> u64_max"
  by (simp add: sat_add_def)

lemma sum_from_bound:
  "(\<And>a. acc = Some a \<Longrightarrow> a \<le> u64_max) \<Longrightarrow> sum_from acc vs = Some n \<Longrightarrow> n \<le> u64_max"
  by (induction acc vs rule: sum_from.induct) (auto simp: sat_add_bound)

lemma sum_present_bound: "sum_present vs = Some n \<Longrightarrow> n \<le> u64_max"
  unfolding sum_present_def by (rule sum_from_bound) simp_all

lemma sum_from_none: "sum_from acc vs = None \<longleftrightarrow> acc = None \<and> set vs \<subseteq> {None}"
  by (induction acc vs rule: sum_from.induct) auto

text \<open>Short of saturation the sum is the sum, in any order.\<close>

lemma sum_from_exact:
  assumes "sum_list (map (case_option 0 id) vs) + (case acc of Some a \<Rightarrow> a | None \<Rightarrow> 0) \<le> u64_max"
    and "acc \<noteq> None \<or> \<not> set vs \<subseteq> {None}"
  shows "sum_from acc vs = Some (sum_list (map (case_option 0 id) vs) + (case acc of Some a \<Rightarrow> a | None \<Rightarrow> 0))"
  using assms
proof (induction acc vs rule: sum_from.induct)
  case (3 acc v vs)
  then show ?case by (auto simp: sat_add_def split: option.splits)
qed (auto split: option.splits)

section \<open>What a pi stream says\<close>

text \<open>The finished messages of the assistant, in order.\<close>

definition assistant_end :: "str option \<times> pi_message option \<Rightarrow> pi_message option" where
  "assistant_end l =
     (if fst l \<noteq> Some ''message_end'' then None
      else case snd l of None \<Rightarrow> None | Some m \<Rightarrow> if pm_role m = Some ''assistant'' then Some m else None)"

definition assistant_ends :: "(str option \<times> pi_message option) list \<Rightarrow> pi_message list" where
  "assistant_ends ls = List.map_filter assistant_end ls"

lemma assistant_ends_simps [simp]:
  "assistant_ends [] = []"
  "assistant_ends (l # ls) = (case assistant_end l of None \<Rightarrow> assistant_ends ls | Some m \<Rightarrow> m # assistant_ends ls)"
  by (simp_all add: assistant_ends_def List.map_filter_simps split: option.split)

lemma pi_step_other: "assistant_end l = None \<Longrightarrow> pi_step l s = (if fst l = Some ''agent_end'' then s\<lparr>px_agent_end := True\<rparr> else s)"
  by (auto simp: assistant_end_def pi_step_def split: if_splits option.splits)

lemma pi_step_message:
  "assistant_end l = Some m \<Longrightarrow> fst l \<noteq> Some ''agent_end'' \<and> px_agent_end (pi_step l s) = px_agent_end s \<and>
     px_assistant_end (pi_step l s) \<and> px_stop_reason (pi_step l s) = pm_stop_reason m \<and>
     px_text (pi_step l s) = pi_text (pm_content m)"
  by (auto simp: assistant_end_def pi_step_def pi_add_usage_def Let_def split: if_splits option.splits)

lemma fold_pi_step:
  "px_agent_end (fold pi_step ls s) = (px_agent_end s \<or> Some ''agent_end'' \<in> fst ` set ls)
   \<and> px_assistant_end (fold pi_step ls s) = (px_assistant_end s \<or> assistant_ends ls \<noteq> [])
   \<and> px_stop_reason (fold pi_step ls s) =
       (if assistant_ends ls = [] then px_stop_reason s else pm_stop_reason (last (assistant_ends ls)))
   \<and> px_text (fold pi_step ls s) =
       (if assistant_ends ls = [] then px_text s else pi_text (pm_content (last (assistant_ends ls))))"
proof (induction ls arbitrary: s)
  case (Cons l ls)
  show ?case
  proof (cases "assistant_end l")
    case None
    have "px_assistant_end (pi_step l s) = px_assistant_end s" "px_stop_reason (pi_step l s) = px_stop_reason s"
      "px_text (pi_step l s) = px_text s" "px_agent_end (pi_step l s) = (px_agent_end s \<or> fst l = Some ''agent_end'')"
      by (simp_all add: pi_step_other [OF None])
    with Cons [of "pi_step l s"] None show ?thesis by (auto simp: image_iff)
  next
    case (Some m)
    from pi_step_message [OF this, of s] Cons [of "pi_step l s"] Some show ?thesis by auto
  qed
qed simp


section \<open>The budget hook and the summary\<close>

text \<open>What the hook has added up after a line.\<close>

definition spend :: "f64 option \<Rightarrow> f64 \<Rightarrow> f64" where
  "spend c spent = (case c of Some x \<Rightarrow> f64_add spent x | None \<Rightarrow> spent)"

lemma pi_step_cost:
  "px_cost (pi_step l s) =
     (case line_cost l of Some c \<Rightarrow> Some (f64_add (case px_cost s of Some a \<Rightarrow> a | None \<Rightarrow> f64_of_int 0) c) | None \<Rightarrow> px_cost s)"
  by (auto simp: pi_step_def line_cost_def pi_add_usage_def Let_def split: option.split)

lemma fold_pi_cost:
  "(case px_cost (fold pi_step ls s) of Some a \<Rightarrow> a | None \<Rightarrow> f64_of_int 0) =
     fold spend (map line_cost ls) (case px_cost s of Some a \<Rightarrow> a | None \<Rightarrow> f64_of_int 0)"
proof (induction ls arbitrary: s)
  case (Cons l ls)
  show ?case using Cons [of "pi_step l s"]
    by (cases "line_cost l") (simp_all add: pi_step_cost spend_def)
qed simp

text \<open>A line of a stream as providers write it: one JSON object, however it is framed.\<close>

definition object_line :: "json_reader \<Rightarrow> str \<Rightarrow> bool" where
  "object_line J c \<longleftrightarrow> one_line c \<and> strip_cr c = c \<and> trim c = c \<and> starts_with ''{'' c \<and>
     ok_of (jr_slice J (c @ [NL])) = ok_of (jr_value J c)"

lemma str_lines_flat: "list_all one_line cs \<Longrightarrow> str_lines (flat cs) = map strip_cr cs"
  by (simp add: str_lines_def split_lines_flat)

lemma json_lines_flat:
  assumes "list_all (object_line J) cs"
  shows "json_lines J dec (flat cs) = List.map_filter (\<lambda>c. ok_of (read_as J dec c)) cs"
proof -
  have "list_all one_line cs" using assms by (auto simp: list_all_iff object_line_def)
  then have "map trim (str_lines (flat cs)) = map (\<lambda>c. trim (strip_cr c)) cs" by (simp add: str_lines_flat)
  also have "\<dots> = cs" using assms by (induction cs) (auto simp: object_line_def)
  finally show ?thesis using assms
    by (auto simp: json_lines_def list_all_iff object_line_def intro!: arg_cong [where f = "List.map_filter _"] filter_True)
qed

lemma read_as_ok: "ok_of (read_as J dec c) = Option.bind (ok_of (jr_value J c)) dec"
  by (cases "jr_value J c") (auto simp: read_as_def split: option.split)

lemma hook_line_cost:
  "object_line J c \<Longrightarrow> pi_message_end_cost J (c @ [NL]) = Option.bind (ok_of (read_as J dec_pi_line c)) line_cost"
  by (simp add: pi_message_end_cost_def object_line_def read_as_ok)

lemma fold_spend_filtered:
  "fold spend (map line_cost (List.map_filter g cs)) a = fold spend (map (\<lambda>c. Option.bind (g c) line_cost) cs) a"
  by (induction cs arbitrary: a) (auto simp: List.map_filter_simps spend_def split: option.split)

text \<open>
  The hook that enforces pi's budget while the stream arrives and the summary made of the whole stream agree on
  the cost: on lines that are JSON objects, what the hook has added up after the last line is the cost of the summary,
  down to the rounding of each addition.
\<close>

lemma budget_hook_agrees:
  assumes "list_all (object_line J) cs"
  shows "fold spend (map (\<lambda>c. pi_message_end_cost J (c @ [NL])) cs) (f64_of_int 0) =
    (case iu_cost (summarize_stream J Pi (flat cs)) of Some a \<Rightarrow> a | None \<Rightarrow> f64_of_int 0)"
proof -
  have m: "map (\<lambda>c. pi_message_end_cost J (c @ [NL])) cs = map (\<lambda>c. Option.bind (ok_of (read_as J dec_pi_line c)) line_cost) cs"
    using assms by (induction cs) (simp_all add: hook_line_cost)
  show ?thesis unfolding m
    using fold_pi_cost [of "json_lines J dec_pi_line (flat cs)" pi_scan_empty]
    by (simp add: summarize_stream_def pi_scan_usage_def scan_pi_def pi_scan_empty_def json_lines_flat [OF assms] fold_spend_filtered)
qed

section \<open>Other providers\<close>

lemma busier_max:
  "busier b ms = Some (m, k) \<Longrightarrow>
   (\<forall>out \<in> snd ` set ms. (case out of Some n \<Rightarrow> n | None \<Rightarrow> 0) \<le> k) \<and> (case b of None \<Rightarrow> True | Some (_, n) \<Rightarrow> n \<le> k)"
proof (induction b ms rule: busier.induct)
  case (2 best name out ms)
  define n :: nat where "n = (case out of Some k \<Rightarrow> k | None \<Rightarrow> 0)"
  define b where "b = (case best of None \<Rightarrow> Some (name, n) | Some (a, k) \<Rightarrow> if k < n then Some (name, n) else best)"
  have "busier b ms = Some (m, k)" using 2(2) unfolding b_def n_def by (simp add: Let_def)
  with 2(1) [OF n_def] have IH: "\<forall>out \<in> snd ` set ms. (case out of Some n \<Rightarrow> n | None \<Rightarrow> 0) \<le> k"
    "case b of None \<Rightarrow> True | Some (_, n) \<Rightarrow> n \<le> k"
    by (simp_all add: b_def)
  have "n \<le> k \<and> (case best of None \<Rightarrow> True | Some (_, n) \<Rightarrow> n \<le> k)"
    using IH(2) by (cases best) (auto simp: b_def split: if_splits)
  then show ?case using IH(1) by (simp add: n_def)
qed simp

lemma busiest_max:
  assumes "busiest_model ms = Some m"
  shows "\<exists>k. busier None ms = Some (m, k) \<and> (\<forall>out \<in> snd ` set ms. (case out of Some n \<Rightarrow> n | None \<Rightarrow> 0) \<le> k)"
proof -
  from assms obtain k where k: "busier None ms = Some (m, k)" by (auto simp: busiest_model_def)
  from busier_max [OF this] show ?thesis using k by auto
qed

text \<open>Gemini's stream: the text is the assistant's messages in order, whatever else the stream says.\<close>

definition assistant_text :: "gemini_line list \<Rightarrow> str" where
  "assistant_text ls = concat (map (\<lambda>l. or_empty (gl_content l))
     (filter (\<lambda>l. gl_kind l = Some ''message'' \<and> gl_role l = Some ''assistant'') ls))"

lemma fold_gemini_text:
  "fst (fold gemini_text_step ls (t, r)) = t @ assistant_text ls \<and>
   snd (fold gemini_text_step ls (t, r)) =
     (case filter (\<lambda>l. gl_kind l = Some ''result'') ls of [] \<Rightarrow> r | x # xs \<Rightarrow> Some (last (x # xs)))"
  by (induction ls arbitrary: t r) (auto simp: gemini_text_step_def assistant_text_def split: list.split)

lemma gemini_stream_result:
  assumes "parse_gemini_stream_output J stdout i = Inr r"
  shows "\<exists>l \<in> set (json_lines J dec_gemini_line stdout). gl_kind l = Some ''result'' \<and>
    nr_is_error r = (gl_status l = Some ''error'') \<and>
    (nr_is_error r \<or> nr_text r = assistant_text (json_lines J dec_gemini_line stdout))"
proof -
  let ?ls = "json_lines J dec_gemini_line stdout"
  let ?rs = "filter (\<lambda>l. gl_kind l = Some ''result'') ?ls"
  have f: "fold gemini_text_step ?ls ([], None) =
      (assistant_text ?ls, case ?rs of [] \<Rightarrow> None | x # xs \<Rightarrow> Some (last (x # xs)))"
    using fold_gemini_text [of ?ls "[]" None] by (simp add: prod_eq_iff)
  show ?thesis
  proof (cases ?rs)
    case Nil
    with assms f show ?thesis by (simp add: parse_gemini_stream_output_def)
  next
    case (Cons x xs)
    define l where "l = last (x # xs)"
    have "l \<in> set ?rs" unfolding Cons l_def by (rule last_in_set) simp
    then have l: "l \<in> set ?ls" "gl_kind l = Some ''result''" by simp_all
    have "fold gemini_text_step ?ls ([], None) = (assistant_text ?ls, Some l)" using f Cons by (simp add: l_def)
    with assms l show ?thesis
      by (intro bexI [of _ l]) (auto simp: parse_gemini_stream_output_def plain_result_def split: if_splits)
  qed
qed

end
