(* ===== verification/Agent_Config.thy ===== *)
theory Agent_Config
  imports Quality_Manifest
begin

text \<open>
  The controls of a run that only agents read (\<open>run_configuration.rs\<close>): Claude's options, skills, pi's
  extensions and prompt templates, with the checks of their paths, and the hash that trust in the extensions of a
  manifest is given to. \<open>prepare_run\<close> is \<open>RunConfiguration::prepare\<close> with the file system it looks at.
\<close>

section \<open>Files, folders and links\<close>

text \<open>What a path names. A link has what it leads to, if that exists; \<open>Special\<close> is a device, a socket or a pipe.\<close>

datatype entry =
    File str
  | Folder "(str \<times> entry) list"
  | Link "entry option"
  | Special

fun is_link :: "entry \<Rightarrow> bool" where
  "is_link (Link t) = True"
| "is_link _ = False"

inductive below :: "(str \<times> entry) list \<Rightarrow> path \<Rightarrow> entry \<Rightarrow> bool" where
  child: "(n, e) \<in> set es \<Longrightarrow> below es [n] e"
| deeper: "(n, Folder cs) \<in> set es \<Longrightarrow> below cs p e \<Longrightarrow> below es (n # p) e"

inductive_cases below_NilE [elim!]: "below [] p e"

lemma below_Cons:
  "below ((n, e) # es) p x \<longleftrightarrow>
     (p = [n] \<and> x = e) \<or> (\<exists>cs q. e = Folder cs \<and> p = n # q \<and> below cs q x) \<or> below es p x"
proof
  assume "below ((n, e) # es) p x"
  then show "(p = [n] \<and> x = e) \<or> (\<exists>cs q. e = Folder cs \<and> p = n # q \<and> below cs q x) \<or> below es p x"
    by (cases rule: below.cases) (auto intro: below.intros)
next
  assume "(p = [n] \<and> x = e) \<or> (\<exists>cs q. e = Folder cs \<and> p = n # q \<and> below cs q x) \<or> below es p x"
  moreover have "below ((n, e) # es) p x" if "below es p x"
    using that by (cases rule: below.cases) (auto intro: below.intros)
  ultimately show "below ((n, e) # es) p x" by (auto intro: below.intros)
qed

section \<open>Options and what they resolve to\<close>

record claude_options =
  cq_mode :: "claude_settings_mode option"
  cq_sources :: "claude_setting_source list option"
  cq_settings :: "str option"
  cq_tools :: "str option"
  cq_agents :: "str option"
  cq_plugin_dirs :: "path list option"
  cq_mcp :: "str option"

record agent_options =
  ao_skills :: "path list option"
  ao_pi_extensions :: "path list option"
  ao_pi_templates :: "path list option"
  ao_claude :: claude_options

record claude_config =
  cv_mode :: "claude_settings_mode resolved_value"
  cv_sources :: "claude_setting_source list resolved_value"
  cv_settings :: "str option resolved_value"
  cv_tools :: "str option resolved_value"
  cv_agents :: "str option resolved_value"
  cv_plugin_dirs :: "path list resolved_value"
  cv_mcp :: "str option resolved_value"

record agent_controls =
  ac_claude :: claude_config
  ac_skills :: "path list resolved_value"
  ac_pi_extensions :: "path list resolved_value"
  ac_pi_templates :: "path list resolved_value"
  ac_manifest :: "resolved_manifest option"

text \<open>The caller's value, else the manifest's, else the built-in one.\<close>

definition pick :: "'a option \<Rightarrow> 'a option \<Rightarrow> 'a \<Rightarrow> 'a resolved_value" where
  "pick caller manifest d =
     (case caller of
        Some v \<Rightarrow> \<lparr>rv_value = v, rv_source = Caller\<rparr>
      | None \<Rightarrow> (case manifest of
          Some v \<Rightarrow> \<lparr>rv_value = v, rv_source = Manifest\<rparr>
        | None \<Rightarrow> \<lparr>rv_value = d, rv_source = BuiltIn\<rparr>))"

definition pick_optional :: "'a option \<Rightarrow> 'a option \<Rightarrow> 'a option resolved_value" where
  "pick_optional caller manifest = pick (map_option Some caller) (map_option Some manifest) None"

definition relative_to :: "path \<Rightarrow> path \<Rightarrow> path" where
  "relative_to d p = (if is_absolute p then p else d @ p)"

definition resolve_path_list :: "path list option \<Rightarrow> path list \<Rightarrow> path \<Rightarrow> path list resolved_value" where
  "resolve_path_list caller manifest d =
     pick caller (if manifest = [] then None else Some (map (relative_to d) manifest)) []"

definition manifest_dir :: "resolved_manifest option \<Rightarrow> path" where
  "manifest_dir m = (case Option.bind m (\<lambda>r. path_parent (rm_path r)) of Some d \<Rightarrow> d | None \<Rightarrow> path_of ''.'')"

definition manifest_codergen :: "resolved_manifest option \<Rightarrow> codergen_section option" where
  "manifest_codergen m = Option.bind m (\<lambda>r. mf_codergen (rm_manifest r))"

definition manifest_claude :: "resolved_manifest option \<Rightarrow> claude_codergen option" where
  "manifest_claude m = Option.bind (manifest_codergen m) cg_claude"

definition inherit_without_sources :: str where
  "inherit_without_sources = ''Claude settings_mode=inherit requires explicit setting_sources''"

definition resolve_claude :: "claude_options \<Rightarrow> resolved_manifest option \<Rightarrow> configuration_error + claude_config" where
  "resolve_claude q m =
     (let c = manifest_claude m;
          mode = pick (cq_mode q) (Option.bind c cc_settings_mode) SubscriptionBare;
          sources = pick (cq_sources q) (Option.bind c cc_setting_sources) []
      in if rv_value mode = InheritSettings \<and> rv_value sources = []
         then Inl (InvalidConfiguration inherit_without_sources)
         else Inr
           \<lparr>cv_mode = mode, cv_sources = sources,
            cv_settings = pick_optional (cq_settings q) (Option.bind c cc_settings_json),
            cv_tools = pick_optional (cq_tools q) (Option.bind c cc_tools),
            cv_agents = pick_optional (cq_agents q) (Option.bind c cc_agents_json),
            cv_plugin_dirs = resolve_path_list (cq_plugin_dirs q)
              (case c of Some k \<Rightarrow> cc_plugin_dirs k | None \<Rightarrow> []) (manifest_dir m),
            cv_mcp = pick_optional (cq_mcp q) (Option.bind c cc_mcp_config_json)\<rparr>)"

section \<open>Checks of the paths\<close>

fun source_debug :: "configuration_source \<Rightarrow> str" where
  "source_debug Caller = ''Caller''"
| "source_debug Manifest = ''Manifest''"
| "source_debug GraphSource = ''Graph''"
| "source_debug BuiltIn = ''BuiltIn''"

definition invalid_path :: "str \<Rightarrow> path \<Rightarrow> configuration_source \<Rightarrow> str \<Rightarrow> configuration_error" where
  "invalid_path kind p src problem =
     InvalidConfiguration (kind @ '' path '' @ sq (path_text p) @ '' (from '' @ source_debug src @ '') '' @ problem)"

text \<open>
  The surroundings of \<open>prepare\<close>: the folder of the process, canonical paths, the manifest, what a path names
  after links and the error when it names nothing, the error of listing a folder or of looking at an entry, file
  contents, and BLAKE3 in hexadecimal.
\<close>

record prepare_env =
  pv_cwd :: "str + path"
  pv_canon :: "path \<Rightarrow> str + path"
  pv_resolve :: "path \<Rightarrow> resolution_error + resolved_manifest"
  pv_meta :: "path \<Rightarrow> entry option"
  pv_meta_error :: "path \<Rightarrow> str"
  pv_fault :: "path \<Rightarrow> str option"
  pv_read :: "path \<Rightarrow> str + str"
  pv_blake3 :: "str \<Rightarrow> str"

text \<open>\<open>check f xs\<close> is the first error of \<open>f\<close>.\<close>

fun first_error :: "('a \<Rightarrow> 'e option) \<Rightarrow> 'a list \<Rightarrow> 'e option" where
  "first_error f [] = None"
| "first_error f (x # xs) = (case f x of Some e \<Rightarrow> Some e | None \<Rightarrow> first_error f xs)"

lemma first_error_None: "first_error f xs = None \<longleftrightarrow> (\<forall>x \<in> set xs. f x = None)"
  by (induction xs) (auto split: option.split)

lemma first_error_cong [fundef_cong]:
  "xs = ys \<Longrightarrow> (\<And>x. x \<in> set ys \<Longrightarrow> f x = g x) \<Longrightarrow> first_error f xs = first_error g ys"
  by (induction ys arbitrary: xs) (auto split: option.split)

definition validate_existing :: "prepare_env \<Rightarrow> str \<Rightarrow> path list resolved_value \<Rightarrow> configuration_error option" where
  "validate_existing V kind l =
     first_error (\<lambda>p. if pv_meta V p = None then Some (invalid_path kind p (rv_source l) ''does not exist'') else None)
       (rv_value l)"

definition unreadable_skill :: "path \<Rightarrow> configuration_source \<Rightarrow> str \<Rightarrow> configuration_error" where
  "unreadable_skill p src e = invalid_path ''skill'' p src (''cannot be read: '' @ e)"

text \<open>\<open>reject_inner_links\<close>, on the entries of a folder.\<close>

function links_below :: "(path \<Rightarrow> str option) \<Rightarrow> configuration_source \<Rightarrow> path \<Rightarrow> (str \<times> entry) list \<Rightarrow> configuration_error option" where
  "links_below fault src d es =
     (case fault d of
        Some e \<Rightarrow> Some (unreadable_skill d src e)
      | None \<Rightarrow>
          first_error (\<lambda>(n, e).
            case fault (d @ [n]) of
              Some m \<Rightarrow> Some (unreadable_skill (d @ [n]) src m)
            | None \<Rightarrow>
                (case e of
                   Link t \<Rightarrow> Some (invalid_path ''skill'' (d @ [n]) src ''is a symbolic link inside a skill directory'')
                 | Folder cs \<Rightarrow> links_below fault src (d @ [n]) cs
                 | _ \<Rightarrow> None)) es)"
  by pat_completeness auto

lemma size_entry_mem: "(n, Folder cs) \<in> set es \<Longrightarrow> size_list (size_prod (\<lambda>_. 0) size) cs < size_list (size_prod (\<lambda>_. 0) size) es"
  by (induction es) auto

termination links_below
  by (relation "measure (\<lambda>(fault, src, d, es). size_list (size_prod (\<lambda>_. 0) size) es)") (auto dest: size_entry_mem)

declare links_below.simps [simp del]

definition same_skill_name :: "path \<Rightarrow> path \<Rightarrow> configuration_source \<Rightarrow> configuration_error" where
  "same_skill_name a b src =
     InvalidConfiguration (''skill paths '' @ sq (path_text a) @ '' and '' @ sq (path_text b) @ '' (from ''
       @ source_debug src @ '') have the same directory name'')"

text \<open>The loop over the skills; \<open>names\<close> maps the names seen so far to their paths.\<close>

fun skills_error ::
  "prepare_env \<Rightarrow> configuration_source \<Rightarrow> path hmap \<Rightarrow> path list \<Rightarrow> configuration_error option" where
  "skills_error V src names [] = None"
| "skills_error V src names (p # ps) =
     (case pv_meta V p of
        None \<Rightarrow> Some (invalid_path ''skill'' p src ''does not exist'')
      | Some (Folder es) \<Rightarrow>
          (case pv_meta V (join_name p ''SKILL.md'') of
             Some (File t) \<Rightarrow>
               (case Option.bind (path_file_name p) (hm_get names) of
                  Some first \<Rightarrow> Some (same_skill_name first p src)
                | None \<Rightarrow>
                    (case links_below (pv_fault V) src p es of
                       Some e \<Rightarrow> Some e
                     | None \<Rightarrow>
                         skills_error V src
                           (case path_file_name p of Some n \<Rightarrow> hm_insert n p names | None \<Rightarrow> names) ps))
           | _ \<Rightarrow> Some (invalid_path ''skill'' p src ''has no SKILL.md''))
      | Some _ \<Rightarrow> Some (invalid_path ''skill'' p src ''is not a directory''))"

definition validate_skills :: "prepare_env \<Rightarrow> path list resolved_value \<Rightarrow> configuration_error option" where
  "validate_skills V l = skills_error V (rv_source l) [] (rv_value l)"

section \<open>Preparing a run\<close>

fun resolution_error_display :: "resolution_error \<Rightarrow> str" where
  "resolution_error_display ManifestNotFound = ''pas.toml not found (searched up to 16 directory levels)''"
| "resolution_error_display (ManifestMalformed p e) = ''pas.toml at '' @ path_text p @ '' is malformed: '' @ e"
| "resolution_error_display (ManifestInvalid p e) = ''pas.toml at '' @ path_text p @ '' is invalid: '' @ e"

text \<open>The folder of the process is asked for even when the caller names one.\<close>

definition run_workdir :: "prepare_env \<Rightarrow> str option \<Rightarrow> configuration_error + path" where
  "run_workdir V caller =
     (case pv_cwd V of
        Inl e \<Rightarrow> Inl (WorkdirError ''.'' e)
      | Inr cwd \<Rightarrow>
          (let d = (case caller of Some s \<Rightarrow> path_of s | None \<Rightarrow> cwd)
           in case pv_canon V d of Inl e \<Rightarrow> Inl (WorkdirError (path_text d) e) | Inr p \<Rightarrow> Inr p))"

definition found_manifest :: "prepare_env \<Rightarrow> path \<Rightarrow> configuration_error + resolved_manifest option" where
  "found_manifest V wd =
     (case pv_resolve V wd of
        Inr m \<Rightarrow> Inr (Some m)
      | Inl ManifestNotFound \<Rightarrow> Inr None
      | Inl e \<Rightarrow> Inl (ManifestError (resolution_error_display e)))"

definition quality_limit_of :: "resolved_manifest option \<Rightarrow> nat option" where
  "quality_limit_of m = Option.bind (Option.bind m (\<lambda>r. mf_quality (rm_manifest r))) qs_max_fix"

definition manifest_pi :: "resolved_manifest option \<Rightarrow> pi_codergen option" where
  "manifest_pi m = Option.bind (manifest_codergen m) cg_pi"

definition list_or_empty :: "('a \<Rightarrow> 'b list) \<Rightarrow> 'a option \<Rightarrow> 'b list" where
  "list_or_empty f m = (case m of Some x \<Rightarrow> f x | None \<Rightarrow> [])"

definition skills_of :: "agent_options \<Rightarrow> resolved_manifest option \<Rightarrow> path list resolved_value" where
  "skills_of ao m = resolve_path_list (ao_skills ao) (list_or_empty cg_skills (manifest_codergen m)) (manifest_dir m)"

definition extensions_of :: "agent_options \<Rightarrow> resolved_manifest option \<Rightarrow> path list resolved_value" where
  "extensions_of ao m = resolve_path_list (ao_pi_extensions ao) (list_or_empty pc_extensions (manifest_pi m)) (manifest_dir m)"

definition templates_of :: "agent_options \<Rightarrow> resolved_manifest option \<Rightarrow> path list resolved_value" where
  "templates_of ao m =
     resolve_path_list (ao_pi_templates ao) (list_or_empty pc_prompt_templates (manifest_pi m)) (manifest_dir m)"

definition paths_error :: "prepare_env \<Rightarrow> agent_options \<Rightarrow> resolved_manifest option \<Rightarrow> configuration_error option" where
  "paths_error V ao m =
     or_else (validate_skills V (skills_of ao m))
    (or_else (validate_existing V ''pi extension'' (extensions_of ao m))
             (validate_existing V ''pi prompt template'' (templates_of ao m)))"

definition left_of :: "'e + 'a \<Rightarrow> 'e option" where
  "left_of r = (case r of Inl e \<Rightarrow> Some e | Inr _ \<Rightarrow> None)"

lemma left_of_None: "left_of r = None \<longleftrightarrow> (\<exists>x. r = Inr x)"
  by (cases r) (simp_all add: left_of_def)

definition prepare_run ::
  "prepare_env \<Rightarrow> execution_plan \<Rightarrow> execution_options \<Rightarrow> agent_options \<Rightarrow> (run_configuration \<times> agent_controls) config_result" where
  "prepare_run V p opts ao =
     (let workdir = run_workdir V (eo_workdir opts);
          manifest = rbind workdir (found_manifest V);
          m = (case manifest of Inr x \<Rightarrow> x | Inl _ \<Rightarrow> None);
          claude = resolve_claude (ao_claude ao) m
      in case prepare (rbind workdir (\<lambda>d. Inr (path_text d))) (rbind manifest (\<lambda>x. Inr (quality_limit_of x)))
             (left_of claude) (paths_error V ao m) p opts of
           ConfigError e \<Rightarrow> ConfigError e
         | ConfigPanic \<Rightarrow> ConfigPanic
         | ConfigOk rc \<Rightarrow>
             (case claude of
                Inl e \<Rightarrow> ConfigError e
              | Inr c \<Rightarrow>
                  ConfigOk (rc, \<lparr>ac_claude = c, ac_skills = skills_of ao m, ac_pi_extensions = extensions_of ao m,
                    ac_pi_templates = templates_of ao m, ac_manifest = m\<rparr>)))"

section \<open>The trust hash of extensions\<close>

definition unreadable_trust :: "path \<Rightarrow> str \<Rightarrow> configuration_error" where
  "unreadable_trust p e = InvalidConfiguration (''cannot read '' @ path_text p @ '' for the trust check: '' @ e)"

definition link_in_extension :: "path \<Rightarrow> configuration_error" where
  "link_in_extension p = InvalidConfiguration (''pi extension directory contains a symbolic link: '' @ path_text p)"

lemma rmap_cong [fundef_cong]:
  "xs = ys \<Longrightarrow> (\<And>x. x \<in> set ys \<Longrightarrow> f x = g x) \<Longrightarrow> rmap f xs = rmap g ys"
  by (induction ys arbitrary: xs) auto

text \<open>\<open>collect_files\<close>: the relative paths of what is not a folder, below the folder at \<open>root @ rel\<close>.\<close>

function collect_files ::
  "(path \<Rightarrow> str option) \<Rightarrow> path \<Rightarrow> path \<Rightarrow> (str \<times> entry) list \<Rightarrow> configuration_error + path list" where
  "collect_files fault root rel es =
     (case fault (root @ rel) of
        Some e \<Rightarrow> Inl (unreadable_trust (root @ rel) e)
      | None \<Rightarrow> rbind (rmap (\<lambda>(n, e).
          case fault (root @ rel @ [n]) of
            Some m \<Rightarrow> Inl (unreadable_trust (root @ rel @ [n]) m)
          | None \<Rightarrow>
              (case e of
                 Link t \<Rightarrow> Inl (link_in_extension (root @ rel @ [n]))
               | Folder cs \<Rightarrow> collect_files fault root (rel @ [n]) cs
               | _ \<Rightarrow> Inr [rel @ [n]])) es) (\<lambda>ps. Inr (concat ps)))"
  by pat_completeness auto

termination collect_files
  by (relation "measure (\<lambda>(fault, root, rel, es). size_list (size_prod (\<lambda>_. 0) size) es)") (auto dest: size_entry_mem)

declare collect_files.simps [simp del]

definition trust_read :: "prepare_env \<Rightarrow> path \<Rightarrow> configuration_error + str" where
  "trust_read V p = (case pv_read V p of Inl e \<Rightarrow> Inl (unreadable_trust p e) | Inr b \<Rightarrow> Inr b)"

text \<open>\<open>hash_extension\<close>: the bytes that one extension adds to the hash.\<close>

definition extension_bytes :: "prepare_env \<Rightarrow> path \<Rightarrow> configuration_error + str" where
  "extension_bytes V p =
     (case pv_meta V p of
        None \<Rightarrow> Inl (unreadable_trust p (pv_meta_error V p))
      | Some (Folder es) \<Rightarrow>
          rbind (collect_files (pv_fault V) p [] es) (\<lambda>files.
          rbind (rmap (\<lambda>r. trust_read V (p @ r)) (sort files)) (\<lambda>bs. Inr (concat bs)))
      | Some _ \<Rightarrow> trust_read V p)"

definition manifest_extension_trust :: "prepare_env \<Rightarrow> agent_controls \<Rightarrow> configuration_error + (path \<times> str) option" where
  "manifest_extension_trust V a =
     (if rv_source (ac_pi_extensions a) \<noteq> Manifest \<or> rv_value (ac_pi_extensions a) = [] then Inr None
      else case ac_manifest a of
             None \<Rightarrow> Inr None
           | Some m \<Rightarrow>
               rbind (trust_read V (rm_path m)) (\<lambda>b.
               rbind (rmap (extension_bytes V) (rv_value (ac_pi_extensions a))) (\<lambda>bs.
               Inr (Some (rm_path m, pv_blake3 V (b @ concat bs))))))"

section \<open>What is checked\<close>

lemma links_below_None:
  assumes "links_below fault src d es = None" "below es p e"
  shows "\<not> is_link e"
  using assms(2,1)
proof (induction arbitrary: d rule: below.induct)
  case (child n e es)
  have "fault (d @ [n]) = None \<Longrightarrow> \<not> is_link e" if "(n, e) \<in> set es"
    using child.prems that by (cases e) (auto simp: links_below.simps [of fault src d es] first_error_None split: option.splits)
  moreover have "fault (d @ [n]) = None"
    using child by (force simp: links_below.simps [of fault src d es] first_error_None split: option.splits)
  ultimately show ?case using child by blast
next
  case (deeper n cs es p e)
  have "links_below fault src (d @ [n]) cs = None"
    using deeper by (force simp: links_below.simps [of fault src d es] first_error_None split: option.splits)
  then show ?case by (rule deeper.IH)
qed

definition skill_ok :: "prepare_env \<Rightarrow> path \<Rightarrow> bool" where
  "skill_ok V s \<longleftrightarrow>
     (\<exists>es t. pv_meta V s = Some (Folder es) \<and> pv_meta V (join_name s ''SKILL.md'') = Some (File t) \<and>
        (\<forall>p e. below es p e \<longrightarrow> \<not> is_link e))"

definition names_of :: "path list \<Rightarrow> str list" where
  "names_of ps = List.map_filter path_file_name ps"

lemma names_of_simps [simp]:
  "names_of [] = []" "names_of (p # ps) = (case path_file_name p of Some n \<Rightarrow> n # names_of ps | None \<Rightarrow> names_of ps)"
  by (simp_all add: names_of_def List.map_filter_simps split: option.split)

lemma skills_error_None:
  "skills_error V src names ps = None \<Longrightarrow>
   list_all (skill_ok V) ps \<and> distinct (names_of ps) \<and> (\<forall>n \<in> set (names_of ps). hm_get names n = None)"
proof (induction V src names ps rule: skills_error.induct)
  case (2 V src names p ps)
  from 2(2) obtain es t where p: "pv_meta V p = Some (Folder es)" "pv_meta V (join_name p ''SKILL.md'') = Some (File t)"
    "Option.bind (path_file_name p) (hm_get names) = None" "links_below (pv_fault V) src p es = None"
    "skills_error V src (case path_file_name p of Some n \<Rightarrow> hm_insert n p names | None \<Rightarrow> names) ps = None"
    by (auto split: option.splits entry.splits)
  have ok: "skill_ok V p" using p links_below_None [OF p(4)] by (auto simp: skill_ok_def)
  from 2(1) [OF p(1) refl p(2) refl p(3,4,5)] have IH: "list_all (skill_ok V) ps" "distinct (names_of ps)"
    "\<forall>n \<in> set (names_of ps). hm_get (case path_file_name p of Some n \<Rightarrow> hm_insert n p names | None \<Rightarrow> names) n = None"
    by simp_all
  show ?case
  proof (cases "path_file_name p")
    case None
    with IH ok show ?thesis by simp
  next
    case (Some n)
    have "hm_get names m = None \<and> m \<noteq> n" if "m \<in> set (names_of ps)" for m
      using IH(3) that Some by (auto split: if_splits)
    with IH ok Some p(3) show ?thesis by auto
  qed
qed simp

definition resources_ok :: "prepare_env \<Rightarrow> agent_controls \<Rightarrow> bool" where
  "resources_ok V a \<longleftrightarrow>
     list_all (skill_ok V) (rv_value (ac_skills a)) \<and> distinct (names_of (rv_value (ac_skills a))) \<and>
     list_all (\<lambda>p. pv_meta V p \<noteq> None) (rv_value (ac_pi_extensions a)) \<and>
     list_all (\<lambda>p. pv_meta V p \<noteq> None) (rv_value (ac_pi_templates a)) \<and>
     \<not> (rv_value (cv_mode (ac_claude a)) = InheritSettings \<and> rv_value (cv_sources (ac_claude a)) = [])"

lemma prepare_parts:
  "prepare wd m c ps p opts = ConfigOk rc \<Longrightarrow> c = None \<and> ps = None \<and> (\<exists>x. m = Inr x) \<and> (\<exists>d. wd = Inr d)"
  by (auto simp: prepare_def Let_def split: list.splits option.splits sum.splits config_result.splits if_splits)

lemma validate_existing_None:
  "validate_existing V kind l = None \<longleftrightarrow> list_all (\<lambda>p. pv_meta V p \<noteq> None) (rv_value l)"
  by (auto simp: validate_existing_def first_error_None list_all_iff)


section \<open>What the trust hash covers\<close>

lemma collect_files_cases:
  assumes "collect_files fault root rel es = Inr fs"
  obtains ps where "fs = concat ps"
    "rmap (\<lambda>(n, e). case fault (root @ rel @ [n]) of
            Some m \<Rightarrow> Inl (unreadable_trust (root @ rel @ [n]) m)
          | None \<Rightarrow> (case e of
                 Link t \<Rightarrow> Inl (link_in_extension (root @ rel @ [n]))
               | Folder cs \<Rightarrow> collect_files fault root (rel @ [n]) cs
               | _ \<Rightarrow> Inr [rel @ [n]])) es = Inr ps"
  using assms by (auto simp: collect_files.simps [of fault root rel es] split: option.splits)

lemma rmap_nth: "rmap f xs = Inr ys \<Longrightarrow> x \<in> set xs \<Longrightarrow> \<exists>y \<in> set ys. f x = Inr y"
  by (induction xs arbitrary: ys) auto

text \<open>Every entry below an extension that is no folder is one of the files whose bytes are hashed, and none is a link.\<close>

lemma collect_files_covers:
  assumes "below es p e" "collect_files fault root rel es = Inr fs"
  shows "\<not> is_link e \<and> ((\<exists>cs. e = Folder cs) \<or> rel @ p \<in> set fs)"
  using assms
proof (induction arbitrary: rel fs rule: below.induct)
  case (child n e es)
  from collect_files_cases [OF child.prems] obtain ps where ps: "fs = concat ps"
    "rmap (\<lambda>(n, e). case fault (root @ rel @ [n]) of
            Some m \<Rightarrow> Inl (unreadable_trust (root @ rel @ [n]) m)
          | None \<Rightarrow> (case e of
                 Link t \<Rightarrow> Inl (link_in_extension (root @ rel @ [n]))
               | Folder cs \<Rightarrow> collect_files fault root (rel @ [n]) cs
               | _ \<Rightarrow> Inr [rel @ [n]])) es = Inr ps" by blast
  from rmap_nth [OF ps(2) child.hyps] show ?case
    by (cases e) (fastforce simp: ps(1) split: option.splits)+
next
  case (deeper n cs es p e)
  from collect_files_cases [OF deeper.prems] obtain ps where ps: "fs = concat ps"
    "rmap (\<lambda>(n, e). case fault (root @ rel @ [n]) of
            Some m \<Rightarrow> Inl (unreadable_trust (root @ rel @ [n]) m)
          | None \<Rightarrow> (case e of
                 Link t \<Rightarrow> Inl (link_in_extension (root @ rel @ [n]))
               | Folder cs \<Rightarrow> collect_files fault root (rel @ [n]) cs
               | _ \<Rightarrow> Inr [rel @ [n]])) es = Inr ps" by blast
  from rmap_nth [OF ps(2) deeper.hyps(1)] obtain y where "y \<in> set ps" "collect_files fault root (rel @ [n]) cs = Inr y"
    by (auto split: option.splits)
  with deeper.IH [of "rel @ [n]" y] show ?case by (auto simp: ps(1))
qed

lemma trust_needed:
  assumes "manifest_extension_trust V a = Inr t"
  shows "t = None \<longleftrightarrow> rv_source (ac_pi_extensions a) \<noteq> Manifest \<or> rv_value (ac_pi_extensions a) = [] \<or> ac_manifest a = None"
  using assms by (auto simp: manifest_extension_trust_def split: if_splits option.splits)

end
