(* ===== verification/Skill_Copy.thy ===== *)
theory Skill_Copy
  imports Agent_Config
begin

text \<open>
  The copy of the named skills in the folder of a run (\<open>agent_resources.rs\<close>): copying the trees of the skills below
  a size limit, and swapping the copy in with two renames while every step may fail.
\<close>

section \<open>Paths and errors\<close>

definition SKILL_COPY_CAP_BYTES :: nat where "SKILL_COPY_CAP_BYTES = 10 * 1024 * 1024"
definition RESOURCES_DIR :: str where "RESOURCES_DIR = ''agent-resources''"
definition PLUGIN_DIR :: str where "PLUGIN_DIR = ''claude-plugin''"
definition PLUGIN_TMP :: str where "PLUGIN_TMP = ''claude-plugin.tmp''"
definition PLUGIN_OLD :: str where "PLUGIN_OLD = ''claude-plugin.old''"

definition PLUGIN_MANIFEST :: str where
  "PLUGIN_MANIFEST =
     ''{'' @ [NL] @ ''  '' @ dq ''name'' @ '': '' @ dq ''pas-skills'' @ '','' @ [NL] @
     ''  '' @ dq ''version'' @ '': '' @ dq ''0.0.0'' @ '','' @ [NL] @
     ''  '' @ dq ''description'' @ '': '' @ dq ''Skills named for this PAS Run'' @ [NL] @ ''}'' @ [NL]"

datatype skill_copy_error =
    UnsupportedEntry path
  | TooLarge path
  | InvalidSkill path str
  | CopyIo path str

fun skill_copy_error_display :: "skill_copy_error \<Rightarrow> str" where
  "skill_copy_error_display (UnsupportedEntry p) =
     ''skill contains a symbolic link or special file at '' @ path_text p @ ''; skills are copied into '' @
     ''the Run folder and may not contain links. Replace it with a regular file''"
| "skill_copy_error_display (TooLarge p) =
     ''named skills are larger than the 10 MiB copy cap (reached at '' @ path_text p @ ''); '' @
     ''remove files from the skills''"
| "skill_copy_error_display (InvalidSkill p reason) = ''skill '' @ path_text p @ '' cannot be copied: '' @ reason"
| "skill_copy_error_display (CopyIo p e) = ''cannot copy skills at '' @ path_text p @ '': '' @ e"

definition resources_dir :: "path \<Rightarrow> path" where
  "resources_dir run_dir = join_name run_dir RESOURCES_DIR"

definition skill_copy_root :: "path \<Rightarrow> path" where
  "skill_copy_root run_dir = join_name (resources_dir run_dir) PLUGIN_DIR"

definition copied_skill_dirs :: "path \<Rightarrow> path list \<Rightarrow> path list" where
  "copied_skill_dirs run_dir skills =
     map (join_name (join_name (skill_copy_root run_dir) ''skills'')) (List.map_filter path_file_name skills)"

section \<open>Copying trees\<close>

text \<open>A loop that carries a state and stops at the first error.\<close>

fun rfold :: "('a \<Rightarrow> 's \<Rightarrow> 'e + 's) \<Rightarrow> 'a list \<Rightarrow> 's \<Rightarrow> 'e + 's" where
  "rfold f [] s = Inr s"
| "rfold f (x # xs) s = rbind (f x s) (rfold f xs)"

lemma rfold_cong [fundef_cong]:
  "xs = ys \<Longrightarrow> s = t \<Longrightarrow> (\<And>x u. x \<in> set ys \<Longrightarrow> f x u = g x u) \<Longrightarrow> rfold f xs s = rfold g ys t"
proof (induction ys arbitrary: xs s t)
  case (Cons y ys)
  have "rbind (g y t) (rfold f ys) = rbind (g y t) (rfold g ys)" using Cons by (cases "g y t") auto
  with Cons show ?case by simp
qed simp

text \<open>
  \<open>copy_tree\<close>: the copied entries and the bytes of all skills so far, in the order of the names. \<open>fault p\<close> is, for a
  place in a skill, the error of listing it or of looking at it and, for a place in the copy, the error of making it.
\<close>

function copy_tree ::
  "(path \<Rightarrow> str option) \<Rightarrow> path \<Rightarrow> path \<Rightarrow> (str \<times> entry) list \<Rightarrow> nat \<Rightarrow> skill_copy_error + ((str \<times> entry) list \<times> nat)" where
  "copy_tree fault src dest es k0 =
     (case fault src of
        Some e \<Rightarrow> Inl (CopyIo src e)
      | None \<Rightarrow>
          rfold (\<lambda>(n, e) (done_entries, k).
            case fault (src @ [n]) of
              Some m \<Rightarrow> Inl (CopyIo (src @ [n]) m)
            | None \<Rightarrow>
                (case e of
                   Folder cs \<Rightarrow>
                     (case fault (dest @ [n]) of
                        Some m \<Rightarrow> Inl (CopyIo (dest @ [n]) m)
                      | None \<Rightarrow>
                          rbind (copy_tree fault (src @ [n]) (dest @ [n]) cs k) (\<lambda>(sub, k1).
                          Inr (done_entries @ [(n, Folder sub)], k1)))
                 | File b \<Rightarrow>
                     (let k1 = min (k + length b) u64_max
                      in if SKILL_COPY_CAP_BYTES < k1 then Inl (TooLarge (src @ [n]))
                         else case fault (dest @ [n]) of
                                Some m \<Rightarrow> Inl (CopyIo (src @ [n]) m)
                              | None \<Rightarrow> Inr (done_entries @ [(n, File b)], k1))
                 | _ \<Rightarrow> Inl (UnsupportedEntry (src @ [n])))) (sort_key fst es) ([], k0))"
  by pat_completeness auto
termination
  by (relation "measure (\<lambda>(fault, src, dest, es, k0). size_list (size_prod (\<lambda>_. 0) size) es)") (auto dest: size_entry_mem)

declare copy_tree.simps [simp del]

text \<open>The skills one after the other: their copies, their names, and the bytes so far.\<close>

definition copy_skill ::
  "prepare_env \<Rightarrow> (path \<Rightarrow> str option) \<Rightarrow> path \<Rightarrow> path \<Rightarrow> (str \<times> entry) list \<times> nat \<Rightarrow> skill_copy_error + ((str \<times> entry) list \<times> nat)" where
  "copy_skill V fault skills_dir skill s =
     (case path_file_name skill of
        None \<Rightarrow> Inl (InvalidSkill skill ''the path has no directory name'')
      | Some name \<Rightarrow>
          if name \<in> fst ` set (fst s) then Inl (InvalidSkill skill ''another skill has the same directory name'')
          else case pv_meta V skill of
                 None \<Rightarrow> Inl (CopyIo skill (pv_meta_error V skill))
               | Some (Folder es) \<Rightarrow>
                   (case pv_meta V (join_name skill ''SKILL.md'') of
                      Some (File t) \<Rightarrow>
                        (case fault (join_name skills_dir name) of
                           Some e \<Rightarrow> Inl (CopyIo (join_name skills_dir name) e)
                         | None \<Rightarrow>
                             rbind (copy_tree fault skill (join_name skills_dir name) es (snd s)) (\<lambda>(sub, k).
                             Inr (fst s @ [(name, Folder sub)], k)))
                    | _ \<Rightarrow> Inl (InvalidSkill skill ''it has no SKILL.md''))
               | Some _ \<Rightarrow> Inl (InvalidSkill skill ''it is not a directory''))"

definition fill_copy :: "prepare_env \<Rightarrow> (path \<Rightarrow> str option) \<Rightarrow> path \<Rightarrow> path list \<Rightarrow> skill_copy_error + entry" where
  "fill_copy V fault tmp skills =
     (let manifest_dir = join_name tmp ''.claude-plugin''; skills_dir = join_name tmp ''skills''
      in case first_error (\<lambda>p. map_option (CopyIo p) (fault p))
             [manifest_dir, join_name manifest_dir ''plugin.json'', skills_dir] of
           Some e \<Rightarrow> Inl e
         | None \<Rightarrow>
             rbind (rfold (copy_skill V fault skills_dir) skills ([], 0)) (\<lambda>(copies, k).
             Inr (Folder [(''.claude-plugin'', Folder [(''plugin.json'', File PLUGIN_MANIFEST)]),
               (''skills'', Folder copies)])))"

section \<open>Building the copy\<close>

text \<open>
  The state is what \<open>agent-resources\<close> names in the folder of the run, without following a link. A step that fails has
  an error; a removal that fails may leave a part of the tree. \<open>cf_clean_tmp\<close> is what a failed clean-up leaves.
\<close>

record copy_faults =
  cf_drop_root :: "(str \<times> entry) option"
  cf_stat :: "str option"
  cf_replace :: "str option"
  cf_mkdir :: "str option"
  cf_drop_tmp :: "(str \<times> entry) option"
  cf_drop_old :: "(str \<times> entry) option"
  cf_make_tmp :: "str option"
  cf_path :: "path \<Rightarrow> str option"
  cf_clean_tmp :: "entry option"
  cf_rename_old :: "str option"
  cf_rename_in :: "str option"
  cf_rename_back :: bool
  cf_drop_last :: "(str \<times> entry) option"

definition no_faults :: copy_faults where
  "no_faults =
     \<lparr>cf_drop_root = None, cf_stat = None, cf_replace = None, cf_mkdir = None, cf_drop_tmp = None, cf_drop_old = None,
      cf_make_tmp = None, cf_path = \<lambda>_. None, cf_clean_tmp = None, cf_rename_old = None, cf_rename_in = None,
      cf_rename_back = False, cf_drop_last = None\<rparr>"

text \<open>The entries of a folder by name.\<close>

type_synonym folder = "entry hmap"

definition drop_entry :: "(str \<times> entry) option \<Rightarrow> str \<Rightarrow> folder \<Rightarrow> str option \<times> folder" where
  "drop_entry fault n es =
     (if \<not> hm_contains es n then (None, es)
      else case fault of
             None \<Rightarrow> (None, hm_remove n es)
           | Some (e, left) \<Rightarrow> (Some e, hm_insert n left es))"

definition rename_entry :: "str \<Rightarrow> str \<Rightarrow> folder \<Rightarrow> folder" where
  "rename_entry a b es = (case hm_get es a of Some e \<Rightarrow> hm_insert b e (hm_remove a es) | None \<Rightarrow> es)"

definition clean_tmp :: "copy_faults \<Rightarrow> folder \<Rightarrow> folder" where
  "clean_tmp F es = (case cf_clean_tmp F of None \<Rightarrow> hm_remove PLUGIN_TMP es | Some left \<Rightarrow> hm_insert PLUGIN_TMP left es)"

text \<open>The two renames: the old copy out, the new one in. What the error of each names.\<close>

definition swap_in :: "copy_faults \<Rightarrow> path \<Rightarrow> folder \<Rightarrow> skill_copy_error option \<times> folder" where
  "swap_in F root es =
     (if hm_contains es PLUGIN_DIR
      then (case cf_rename_old F of
              Some e \<Rightarrow> (Some (CopyIo root e), es)
            | None \<Rightarrow>
                (let es1 = rename_entry PLUGIN_DIR PLUGIN_OLD es
                 in case cf_rename_in F of
                      Some e \<Rightarrow> (Some (CopyIo root e), es1)
                    | None \<Rightarrow> (None, rename_entry PLUGIN_TMP PLUGIN_DIR es1)))
      else case cf_rename_in F of
             Some e \<Rightarrow> (Some (CopyIo root e), es)
           | None \<Rightarrow> (None, rename_entry PLUGIN_TMP PLUGIN_DIR es))"

definition swap_back :: "copy_faults \<Rightarrow> folder \<Rightarrow> folder" where
  "swap_back F es =
     (if \<not> hm_contains es PLUGIN_DIR \<and> hm_contains es PLUGIN_OLD \<and> \<not> cf_rename_back F
      then rename_entry PLUGIN_OLD PLUGIN_DIR es else es)"

text \<open>From the real folder on, with a list of skills that is not empty.\<close>

definition replace_copy ::
  "prepare_env \<Rightarrow> copy_faults \<Rightarrow> path \<Rightarrow> path list \<Rightarrow> folder \<Rightarrow> (skill_copy_error + path option) \<times> folder" where
  "replace_copy V F run_dir skills es =
     (let resources = resources_dir run_dir; root = skill_copy_root run_dir;
          tmp = join_name resources PLUGIN_TMP; old = join_name resources PLUGIN_OLD;
          (e1, es1) = drop_entry (cf_drop_tmp F) PLUGIN_TMP es
      in case e1 of Some e \<Rightarrow> (Inl (CopyIo tmp e), es1) | None \<Rightarrow>
     (let (e2, es2) = drop_entry (cf_drop_old F) PLUGIN_OLD es1
      in case e2 of Some e \<Rightarrow> (Inl (CopyIo old e), es2) | None \<Rightarrow>
     (case cf_make_tmp F of Some e \<Rightarrow> (Inl (CopyIo tmp e), es2) | None \<Rightarrow>
     (case fill_copy V (cf_path F) tmp skills of
        Inl e \<Rightarrow> (Inl e, clean_tmp F es2)
      | Inr c \<Rightarrow>
          (let (e3, es3) = swap_in F root (hm_insert PLUGIN_TMP c es2)
           in case e3 of
                Some e \<Rightarrow> (Inl e, swap_back F (clean_tmp F es3))
              | None \<Rightarrow>
                  (let (e4, es4) = drop_entry (cf_drop_last F) PLUGIN_OLD es3
                   in case e4 of Some e \<Rightarrow> (Inl (CopyIo old e), es4) | None \<Rightarrow> (Inr (Some root), es4)))))))"

text \<open>\<open>ensure_real_dir\<close>: a folder stays, anything else in its place is removed first.\<close>

definition real_dir :: "copy_faults \<Rightarrow> path \<Rightarrow> entry option \<Rightarrow> skill_copy_error option \<times> entry option" where
  "real_dir F p st =
     (case cf_stat F of
        Some e \<Rightarrow> (Some (CopyIo p e), st)
      | None \<Rightarrow>
          (case st of
             Some (Folder es) \<Rightarrow> (None, st)
           | Some x \<Rightarrow>
               (case cf_replace F of
                  Some e \<Rightarrow> (Some (CopyIo p e), st)
                | None \<Rightarrow> (case cf_mkdir F of Some e \<Rightarrow> (Some (CopyIo p e), None) | None \<Rightarrow> (None, Some (Folder []))))
           | None \<Rightarrow> (case cf_mkdir F of Some e \<Rightarrow> (Some (CopyIo p e), None) | None \<Rightarrow> (None, Some (Folder [])))))"

text \<open>The entries that a path below \<open>agent-resources\<close> is looked up in: a link in its place is followed.\<close>

fun entries_of :: "entry option \<Rightarrow> folder" where
  "entries_of (Some (Folder es)) = es"
| "entries_of (Some (Link (Some (Folder es)))) = es"
| "entries_of _ = []"

fun put_entries :: "folder \<Rightarrow> entry option \<Rightarrow> entry option" where
  "put_entries es (Some (Folder _)) = Some (Folder es)"
| "put_entries es (Some (Link (Some (Folder _)))) = Some (Link (Some (Folder es)))"
| "put_entries es st = st"

definition build_skill_copy ::
  "prepare_env \<Rightarrow> copy_faults \<Rightarrow> path \<Rightarrow> path list \<Rightarrow> entry option \<Rightarrow> (skill_copy_error + path option) \<times> entry option" where
  "build_skill_copy V F run_dir skills st =
     (if skills = []
      then (let (e, es) = drop_entry (cf_drop_root F) PLUGIN_DIR (entries_of st)
            in (case e of Some m \<Rightarrow> Inl (CopyIo (skill_copy_root run_dir) m) | None \<Rightarrow> Inr None, put_entries es st))
      else (case real_dir F (resources_dir run_dir) st of
              (Some e, st1) \<Rightarrow> (Inl e, st1)
            | (None, st1) \<Rightarrow>
                (let (r, es) = replace_copy V F run_dir skills (entries_of st1) in (r, put_entries es st1))))"

section \<open>Loops that carry a state\<close>

lemma rfold_invariant:
  "rfold f xs s = Inr t \<Longrightarrow> P s \<Longrightarrow> (\<And>x u v. x \<in> set xs \<Longrightarrow> f x u = Inr v \<Longrightarrow> P u \<Longrightarrow> P v) \<Longrightarrow> P t"
  by (induction xs arbitrary: s) auto

section \<open>What is copied\<close>

text \<open>An entry and its copy, given how the trees below them were copied.\<close>

definition copy_of :: "(path \<Rightarrow> str option) \<Rightarrow> path \<Rightarrow> path \<Rightarrow> str \<times> entry \<Rightarrow> str \<times> entry \<Rightarrow> bool" where
  "copy_of fault src dest x y \<longleftrightarrow>
     fst y = fst x \<and>
     (case snd x of
        File b \<Rightarrow> snd y = File b
      | Folder cs \<Rightarrow> (\<exists>sub k k1. snd y = Folder sub \<and> copy_tree fault (src @ [fst x]) (dest @ [fst x]) cs k = Inr (sub, k1))
      | _ \<Rightarrow> False)"

definition copy_body ::
  "(path \<Rightarrow> str option) \<Rightarrow> path \<Rightarrow> path \<Rightarrow> str \<times> entry \<Rightarrow> (str \<times> entry) list \<times> nat \<Rightarrow> skill_copy_error + ((str \<times> entry) list \<times> nat)" where
  "copy_body fault src dest = (\<lambda>(n, e) (done_entries, k).
            case fault (src @ [n]) of
              Some m \<Rightarrow> Inl (CopyIo (src @ [n]) m)
            | None \<Rightarrow>
                (case e of
                   Folder cs \<Rightarrow>
                     (case fault (dest @ [n]) of
                        Some m \<Rightarrow> Inl (CopyIo (dest @ [n]) m)
                      | None \<Rightarrow>
                          rbind (copy_tree fault (src @ [n]) (dest @ [n]) cs k) (\<lambda>(sub, k1).
                          Inr (done_entries @ [(n, Folder sub)], k1)))
                 | File b \<Rightarrow>
                     (let k1 = min (k + length b) u64_max
                      in if SKILL_COPY_CAP_BYTES < k1 then Inl (TooLarge (src @ [n]))
                         else case fault (dest @ [n]) of
                                Some m \<Rightarrow> Inl (CopyIo (src @ [n]) m)
                              | None \<Rightarrow> Inr (done_entries @ [(n, File b)], k1))
                 | _ \<Rightarrow> Inl (UnsupportedEntry (src @ [n]))))"

lemma copy_tree_loop:
  "copy_tree fault src dest es k = Inr r \<longleftrightarrow> fault src = None \<and> rfold (copy_body fault src dest) (sort_key fst es) ([], k) = Inr r"
  unfolding copy_body_def by (simp add: copy_tree.simps [of fault src dest es k] split: option.split)

lemma copy_bodyE:
  assumes "copy_body fault src dest x u = Inr v"
  obtains n b where "x = (n, File b)" "v = (fst u @ [(n, File b)], snd v)" "snd v \<le> SKILL_COPY_CAP_BYTES"
    "fault (src @ [n]) = None" "fault (dest @ [n]) = None"
  | n cs sub where "x = (n, Folder cs)" "v = (fst u @ [(n, Folder sub)], snd v)"
      "copy_tree fault (src @ [n]) (dest @ [n]) cs (snd u) = Inr (sub, snd v)" "fault (src @ [n]) = None" "fault (dest @ [n]) = None"
proof -
  obtain n e where x: "x = (n, e)" by (cases x)
  show thesis using assms that unfolding x
    by (cases u; cases e) (auto simp: copy_body_def Let_def not_less split: option.splits if_splits)
qed

lemma copy_tree_bound: "copy_tree fault src dest es k = Inr (sub, k1) \<Longrightarrow> k \<le> SKILL_COPY_CAP_BYTES \<Longrightarrow> k1 \<le> SKILL_COPY_CAP_BYTES"
proof (induction fault src dest es k arbitrary: sub k1 rule: copy_tree.induct)
  case (1 fault src dest es k0)
  then have f: "fault src = None" and r: "rfold (copy_body fault src dest) (sort_key fst es) ([], k0) = Inr (sub, k1)"
    by (simp_all add: copy_tree_loop)
  have "snd (sub, k1) \<le> SKILL_COPY_CAP_BYTES"
  proof (rule rfold_invariant [OF r])
    fix x u v assume x: "x \<in> set (sort_key fst es)" and step: "copy_body fault src dest x u = Inr v"
      and u: "snd u \<le> SKILL_COPY_CAP_BYTES"
    from step show "snd v \<le> SKILL_COPY_CAP_BYTES"
    proof (cases rule: copy_bodyE)
      case (2 n cs sub)
      with 1(1) [OF f x _ 2(4) _ 2(5)] u show ?thesis by simp
    qed
  qed (use 1(3) in simp)
  then show ?case by simp
qed

lemma rfold_copies:
  "rfold (copy_body fault src dest) xs u = Inr v \<Longrightarrow> \<exists>sub. fst v = fst u @ sub \<and> list_all2 (copy_of fault src dest) xs sub"
proof (induction xs arbitrary: u)
  case (Cons x xs)
  then obtain w where w: "copy_body fault src dest x u = Inr w" "rfold (copy_body fault src dest) xs w = Inr v" by auto
  from Cons.IH [OF w(2)] obtain sub where sub: "fst v = fst w @ sub" "list_all2 (copy_of fault src dest) xs sub" by blast
  from w(1) obtain y where "fst w = fst u @ [y]" "copy_of fault src dest x y"
    by (cases rule: copy_bodyE) (fastforce simp: copy_of_def prod_eq_iff)+
  with sub show ?case by (intro exI [of _ "y # sub"]) simp
qed simp

lemma list_all2_sets:
  "list_all2 P xs ys \<Longrightarrow> (\<forall>x \<in> set xs. \<exists>y \<in> set ys. P x y) \<and> (\<forall>y \<in> set ys. \<exists>x \<in> set xs. P x y)"
  by (induction rule: list_all2_induct) auto

lemma copy_tree_entries:
  assumes "copy_tree fault src dest es k = Inr (sub, k1)"
  shows "(\<forall>x \<in> set es. \<exists>y \<in> set sub. copy_of fault src dest x y) \<and> (\<forall>y \<in> set sub. \<exists>x \<in> set es. copy_of fault src dest x y)"
proof -
  from assms obtain s where "sub = s" "list_all2 (copy_of fault src dest) (sort_key fst es) s"
    using rfold_copies [of fault src dest "sort_key fst es" "([], k)" "(sub, k1)"] by (auto simp: copy_tree_loop)
  then show ?thesis using list_all2_sets [of "copy_of fault src dest" "sort_key fst es" s] by simp
qed

lemma copy_ofE:
  assumes "copy_of fault src dest (n, e) (m, z)"
  obtains b where "m = n" "e = File b" "z = File b"
  | cs sub k k1 where "m = n" "e = Folder cs" "z = Folder sub" "copy_tree fault (src @ [n]) (dest @ [n]) cs k = Inr (sub, k1)"
  using assms by (cases e) (auto simp: copy_of_def)

lemma copy_tree_there:
  assumes "copy_tree fault src dest es k = Inr (sub, k1)" "(n, e) \<in> set es"
  obtains m z where "(m, z) \<in> set sub" "copy_of fault src dest (n, e) (m, z)"
  using copy_tree_entries [OF assms(1)] assms(2) by fast

lemma copy_tree_back:
  assumes "copy_tree fault src dest es k = Inr (sub, k1)" "(m, z) \<in> set sub"
  obtains n e where "(n, e) \<in> set es" "copy_of fault src dest (n, e) (m, z)"
  using copy_tree_entries [OF assms(1)] assms(2) by fast

text \<open>The copy has the files of the skill, at the same places with the same bytes.\<close>

lemma copied_files:
  "below es p x \<Longrightarrow> copy_tree fault src dest es k = Inr (sub, k1) \<Longrightarrow> \<not> is_link x \<and> (x = File b \<longrightarrow> below sub p (File b))"
proof (induction arbitrary: src dest k sub k1 rule: below.induct)
  case (child n e es)
  then obtain m z where y: "(m, z) \<in> set sub" "copy_of fault src dest (n, e) (m, z)" by (blast elim: copy_tree_there)
  from y(2) show ?case by (cases rule: copy_ofE) (use y(1) in \<open>auto intro: below.child\<close>)
next
  case (deeper n cs es p e)
  then obtain m z where y: "(m, z) \<in> set sub" "copy_of fault src dest (n, Folder cs) (m, z)" by (blast elim: copy_tree_there)
  from y(2) show ?case
  proof (cases rule: copy_ofE)
    case (2 cs' s k k1)
    with y(1) deeper.IH show ?thesis by (blast intro: below.deeper)
  qed simp
qed

lemma copied_only:
  "below sub p x \<Longrightarrow> copy_tree fault src dest es k = Inr (sub, k1) \<Longrightarrow> \<not> is_link x \<and> (x = File b \<longrightarrow> below es p (File b))"
proof (induction arbitrary: src dest k es k1 rule: below.induct)
  case (child n e sub)
  then obtain m z where y: "(m, z) \<in> set es" "copy_of fault src dest (m, z) (n, e)" by (blast elim: copy_tree_back)
  from y(2) show ?case by (cases rule: copy_ofE) (use y(1) in \<open>auto intro: below.child\<close>)
next
  case (deeper n s sub p e)
  then obtain m z where y: "(m, z) \<in> set es" "copy_of fault src dest (m, z) (n, Folder s)" by (blast elim: copy_tree_back)
  from y(2) show ?case
  proof (cases rule: copy_ofE)
    case (2 cs' s' k k1)
    with y(1) deeper.IH show ?thesis by (blast intro: below.deeper)
  qed simp
qed


section \<open>The swap\<close>

lemma folder_names [simp]:
  "PLUGIN_TMP \<noteq> PLUGIN_DIR" "PLUGIN_OLD \<noteq> PLUGIN_DIR" "PLUGIN_OLD \<noteq> PLUGIN_TMP"
  "PLUGIN_DIR \<noteq> PLUGIN_TMP" "PLUGIN_DIR \<noteq> PLUGIN_OLD" "PLUGIN_TMP \<noteq> PLUGIN_OLD"
  by (simp_all add: PLUGIN_TMP_def PLUGIN_DIR_def PLUGIN_OLD_def)

lemma drop_entry_get:
  "drop_entry fault n es = (e, es') \<Longrightarrow> hm_wf es \<Longrightarrow>
   hm_wf es' \<and> (m \<noteq> n \<longrightarrow> hm_get es' m = hm_get es m) \<and> (e = None \<longrightarrow> hm_get es' n = None)"
  by (auto simp: drop_entry_def hm_contains_get hm.get_rem split: if_splits option.splits)

lemma rename_entry_get:
  "hm_wf es \<Longrightarrow> a \<noteq> b \<Longrightarrow> hm_wf (rename_entry a b es) \<and>
   hm_get (rename_entry a b es) n =
     (if hm_get es a = None then hm_get es n else if n = b then hm_get es a else if n = a then None else hm_get es n)"
  by (auto simp: rename_entry_def hm.get_rem split: option.split)

lemma clean_tmp_get:
  "hm_wf es \<Longrightarrow> hm_wf (clean_tmp F es) \<and> (n \<noteq> PLUGIN_TMP \<longrightarrow> hm_get (clean_tmp F es) n = hm_get es n)"
  by (auto simp: clean_tmp_def hm.get_rem split: option.split)

lemma swap_in_cases:
  assumes "swap_in F root es = (e, es')" "hm_wf es" "hm_get es PLUGIN_TMP = Some c" "hm_get es PLUGIN_OLD = None"
  shows "hm_wf es' \<and>
    (case e of
       None \<Rightarrow> hm_get es' PLUGIN_DIR = Some c \<and> hm_get es' PLUGIN_TMP = None
     | Some _ \<Rightarrow> hm_get es' PLUGIN_DIR = hm_get es PLUGIN_DIR \<and> hm_get es' PLUGIN_OLD = None \<or>
         hm_get es' PLUGIN_DIR = None \<and> hm_get es' PLUGIN_OLD = hm_get es PLUGIN_DIR)"
  using assms
  by (auto simp: swap_in_def Let_def hm_contains_get rename_entry_get split: if_splits option.splits)

lemma swap_back_get:
  assumes "hm_wf es" "hm_get es PLUGIN_DIR = d \<and> hm_get es PLUGIN_OLD = None \<or> hm_get es PLUGIN_DIR = None \<and> hm_get es PLUGIN_OLD = d"
  shows "hm_get (swap_back F es) PLUGIN_DIR = d \<or>
    cf_rename_back F \<and> hm_get (swap_back F es) PLUGIN_DIR = None \<and> hm_get (swap_back F es) PLUGIN_OLD = d"
  using assms by (auto simp: swap_back_def hm_contains_get rename_entry_get)

text \<open>What may be in the place of the copy after an attempt, given what was there before.\<close>

definition copy_outcome ::
  "copy_faults \<Rightarrow> skill_copy_error + entry \<Rightarrow> folder \<Rightarrow> skill_copy_error + path option \<Rightarrow> folder \<Rightarrow> bool" where
  "copy_outcome F fill es r es' \<longleftrightarrow>
     (case r of
        Inr _ \<Rightarrow> \<exists>c. fill = Inr c \<and> hm_get es' PLUGIN_DIR = Some c \<and> hm_get es' PLUGIN_TMP = None \<and> hm_get es' PLUGIN_OLD = None
      | Inl _ \<Rightarrow>
          hm_get es' PLUGIN_DIR = hm_get es PLUGIN_DIR
          \<or> cf_drop_last F \<noteq> None \<and> (\<exists>c. fill = Inr c \<and> hm_get es' PLUGIN_DIR = Some c)
          \<or> cf_rename_back F \<and> hm_get es' PLUGIN_DIR = None \<and> hm_get es' PLUGIN_OLD = hm_get es PLUGIN_DIR)"

lemma replace_copy_outcome:
  assumes "replace_copy V F run_dir skills es = (r, es')" "hm_wf es"
  shows "copy_outcome F (fill_copy V (cf_path F) (join_name (resources_dir run_dir) PLUGIN_TMP) skills) es r es'"
proof -
  let ?fill = "fill_copy V (cf_path F) (join_name (resources_dir run_dir) PLUGIN_TMP) skills"
  obtain e1 es1 where d1: "drop_entry (cf_drop_tmp F) PLUGIN_TMP es = (e1, es1)" by fastforce
  obtain e2 es2 where d2: "drop_entry (cf_drop_old F) PLUGIN_OLD es1 = (e2, es2)" by fastforce
  note g1 = drop_entry_get [OF d1 assms(2)]
  have g2: "hm_wf es2" "hm_get es2 PLUGIN_DIR = hm_get es PLUGIN_DIR" "hm_get es1 PLUGIN_DIR = hm_get es PLUGIN_DIR"
    "e2 = None \<Longrightarrow> hm_get es2 PLUGIN_OLD = None"
    using g1 drop_entry_get [OF d2] by auto
  show ?thesis
  proof (cases "e1 = None \<and> e2 = None \<and> cf_make_tmp F = None")
    case False
    then show ?thesis using assms(1) d1 d2 g2
      by (auto simp: replace_copy_def copy_outcome_def Let_def split: option.splits)
  next
    case ok: True
    show ?thesis
    proof (cases ?fill)
      case (Inl e)
      then have "r = Inl e" "es' = clean_tmp F es2" using assms(1) d1 d2 ok by (auto simp: replace_copy_def Let_def)
      then show ?thesis using g2 clean_tmp_get [of es2 F PLUGIN_DIR] by (simp add: copy_outcome_def)
    next
      case (Inr c)
      define es3 where "es3 = hm_insert PLUGIN_TMP c es2"
      obtain e4 es4 where s: "swap_in F (skill_copy_root run_dir) es3 = (e4, es4)" by fastforce
      have w: "hm_wf es3" "hm_get es3 PLUGIN_TMP = Some c" "hm_get es3 PLUGIN_OLD = None" "hm_get es3 PLUGIN_DIR = hm_get es PLUGIN_DIR"
        using g2 ok by (simp_all add: es3_def)
      note sw = swap_in_cases [OF s w(1-3)]
      show ?thesis
      proof (cases e4)
        case (Some e)
        then have r: "r = Inl e" "es' = swap_back F (clean_tmp F es4)"
          using assms(1) d1 d2 ok Inr s by (auto simp: replace_copy_def Let_def es3_def)
        have "hm_wf (clean_tmp F es4)" "hm_get (clean_tmp F es4) PLUGIN_DIR = hm_get es4 PLUGIN_DIR"
          "hm_get (clean_tmp F es4) PLUGIN_OLD = hm_get es4 PLUGIN_OLD"
          using clean_tmp_get [of es4 F] sw by auto
        then show ?thesis using swap_back_get [of "clean_tmp F es4" "hm_get es PLUGIN_DIR" F] sw Some r w(4)
          by (auto simp: copy_outcome_def)
      next
        case None
        obtain e5 es5 where d5: "drop_entry (cf_drop_last F) PLUGIN_OLD es4 = (e5, es5)" by fastforce
        have g5: "hm_get es5 PLUGIN_DIR = Some c" "hm_get es5 PLUGIN_TMP = None" "e5 = None \<Longrightarrow> hm_get es5 PLUGIN_OLD = None"
          "e5 \<noteq> None \<Longrightarrow> cf_drop_last F \<noteq> None"
          using drop_entry_get [OF d5, of PLUGIN_DIR] drop_entry_get [OF d5, of PLUGIN_TMP] sw None d5
          by (auto simp: drop_entry_def split: if_splits option.splits)
        have "es' = es5 \<and> (case e5 of None \<Rightarrow> \<exists>p. r = Inr p | Some e \<Rightarrow> \<exists>x. r = Inl x)"
          using assms(1) d1 d2 ok Inr s None d5 by (auto simp: replace_copy_def Let_def es3_def split: option.splits)
        then show ?thesis using g5 Inr by (cases e5) (auto simp: copy_outcome_def)
      qed
    qed
  qed
qed

text \<open>
  Property C26. An agent never sees a half-built copy of the skills, whatever step fails: after a success the complete
  new copy is in place and nothing else is left; after an error the copy is the previous one, or the complete new one
  when only the removal of the previous one failed, or none when even putting the previous one back failed - then
  it is still there under its other name.
\<close>

theorem skill_copy_never_partial:
  assumes "build_skill_copy V F run_dir skills (Some (Folder es)) = (r, st)" "skills \<noteq> []" "hm_wf es"
  shows "copy_outcome F (fill_copy V (cf_path F) (join_name (resources_dir run_dir) PLUGIN_TMP) skills) es r (entries_of st)"
proof (cases "cf_stat F")
  case None
  obtain r' es' where "replace_copy V F run_dir skills es = (r', es')" by fastforce
  with None assms replace_copy_outcome [OF this assms(3)] show ?thesis by (auto simp: build_skill_copy_def real_dir_def)
next
  case (Some e)
  with assms show ?thesis by (auto simp: build_skill_copy_def real_dir_def copy_outcome_def)
qed

end
