(* ===== verification/Codergen.thy ===== *)
theory Codergen
  imports Provider_Output Skill_Copy Tool_Handler
begin

text \<open>
  The handler that runs an agent (\<open>handlers/codergen_handler.rs\<close>): the prompt, the command line of each provider,
  the streamed process with its Transcript and pi's budget (\<open>provider_stream.rs\<close>), and the outcome.
\<close>

section \<open>Numbers\<close>

text \<open>\<open>str::parse::<f64>\<close>: a sign, then \<open>inf\<close>, \<open>infinity\<close>, \<open>nan\<close> or a decimal number with an exponent.\<close>

definition exponent_of :: "str \<Rightarrow> int option" where
  "exponent_of s =
     (case s of
        [] \<Rightarrow> Some 0
      | c # r \<Rightarrow>
          if c \<noteq> CHR ''e'' \<and> c \<noteq> CHR ''E'' then None
          else (let neg = (r \<noteq> [] \<and> hd r = CHR ''-'');
                    d = (if r \<noteq> [] \<and> (hd r = CHR ''+'' \<or> hd r = CHR ''-'') then tl r else r)
                in if d \<noteq> [] \<and> list_all is_digit d
                   then Some (if neg then - int (digits_val 0 d) else int (digits_val 0 d)) else None))"

definition f64_of_scaled :: "bool \<Rightarrow> int \<Rightarrow> int \<Rightarrow> f64" where
  "f64_of_scaled neg n k =
     (if 0 \<le> k then f64_of_decimal neg n (nat k) else f64_of_decimal neg (n * 10 ^ nat (- k)) 0)"

definition parse_f64 :: "str \<Rightarrow> f64 option" where
  "parse_f64 s =
     (let neg = (s \<noteq> [] \<and> hd s = CHR ''-'');
          r = (if s \<noteq> [] \<and> (hd s = CHR ''+'' \<or> hd s = CHR ''-'') then tl s else s);
          whole = takeWhile is_digit r; r1 = dropWhile is_digit r;
          point = (r1 \<noteq> [] \<and> hd r1 = CHR ''.'');
          frac = (if point then takeWhile is_digit (tl r1) else []);
          r2 = (if point then dropWhile is_digit (tl r1) else r1)
      in if lowercase r = ''inf'' \<or> lowercase r = ''infinity'' then Some (if neg then NegInf else PosInf)
         else if lowercase r = ''nan'' then Some NaN
         else if whole = [] \<and> frac = [] then None
         else map_option (\<lambda>x. f64_of_scaled neg (int (digits_val 0 (whole @ frac))) (int (length frac) - x)) (exponent_of r2))"

text \<open>\<open>f64::round\<close>: halves away from zero. Numbers from \<open>2 ^ 52\<close> on are whole.\<close>

fun f64_round_half_up :: "f64 \<Rightarrow> f64" where
  "f64_round_half_up (Fin m e) =
     (if 0 \<le> e then Fin m e else Fin (sgn m * ((2 * \<bar>m\<bar> + 2 ^ nat (- e)) div 2 ^ (nat (- e) + 1))) 0)"
| "f64_round_half_up x = x"

text \<open>The comparison is in whole nano-dollars.\<close>

definition nano_dollars :: "f64 \<Rightarrow> f64" where
  "nano_dollars x = f64_round_half_up (f64_times x 1000000000)"

definition over_budget :: "f64 \<Rightarrow> f64 \<Rightarrow> bool" where
  "over_budget spent limit \<longleftrightarrow> f64_gt (nano_dollars spent) (nano_dollars limit)"

lemma over_budget_examples:
  "parse_f64 ''0.5'' = Some (f64_of_decimal False 5 1)" "parse_f64 ''1e-1'' = Some (f64_of_decimal False 1 1)"
  "parse_f64 ''.5'' = Some (f64_of_decimal False 5 1)" "parse_f64 ''.'' = None" "parse_f64 ''-inf'' = Some NegInf"
  "f64_add (f64_add (f64_of_decimal False 1 1) (f64_of_decimal False 2 1)) (f64_of_decimal False 2 1) = f64_of_decimal False 5 1"
  "f64_gt (f64_add (f64_of_decimal False 1 1) (f64_of_decimal False 2 1)) (f64_of_decimal False 3 1)"
  "\<not> over_budget (f64_add (f64_of_decimal False 1 1) (f64_of_decimal False 2 1)) (f64_of_decimal False 3 1)"
  "over_budget (f64_of_decimal False 51 2) (f64_of_decimal False 5 1)"
  by code_simp+

section \<open>Command lines\<close>

record claude_cli =
  kc_mode :: claude_settings_mode
  kc_sources :: "str list"
  kc_settings :: "str option"
  kc_tools :: "str option"
  kc_agents :: "str option"
  kc_plugin_dirs :: "str list"
  kc_mcp :: "str option"
  kc_skill_dir :: "str option"

definition claude_cli_default :: claude_cli where
  "claude_cli_default =
     \<lparr>kc_mode = SubscriptionBare, kc_sources = [], kc_settings = None, kc_tools = None, kc_agents = None,
      kc_plugin_dirs = [], kc_mcp = None, kc_skill_dir = None\<rparr>"

record pi_cli =
  pk_skills :: "str list"
  pk_extensions :: "str list"
  pk_templates :: "str list"

definition pi_cli_default :: pi_cli where
  "pi_cli_default = \<lparr>pk_skills = [], pk_extensions = [], pk_templates = []\<rparr>"

datatype gemini_format = GeminiJson | GeminiStreamJson

fun gemini_format_arg :: "gemini_format \<Rightarrow> str" where
  "gemini_format_arg GeminiJson = ''json''"
| "gemini_format_arg GeminiStreamJson = ''stream-json''"

text \<open>The command with what its standard input is: inherited, or empty.\<close>

record agent_command = command +
  ag_null_stdin :: bool

record cli_run_config =
  ci_provider :: llm_provider
  ci_prompt :: str
  ci_model :: "str option"
  ci_workdir :: "str option"
  ci_node :: pipeline_node
  ci_claude :: claude_cli
  ci_pi :: pi_cli

definition string_attr :: "pipeline_node \<Rightarrow> str \<Rightarrow> str option" where
  "string_attr n k = (case hm_get (pn_raw n) k of Some (AString s) \<Rightarrow> Some s | _ \<Rightarrow> None)"

definition pi_tools :: "pipeline_node \<Rightarrow> str option" where
  "pi_tools n =
     map_option (\<lambda>s. join '','' (filter (\<lambda>t. t \<noteq> []) (map trim (split_on '','' s)))) (string_attr n ''allowed_tools'')"

definition each_arg :: "str \<Rightarrow> str list \<Rightarrow> str list" where
  "each_arg f vs = concat (map (\<lambda>v. [f, v]) vs)"

definition claude_mode_args :: "claude_cli \<Rightarrow> str list" where
  "claude_mode_args c =
     (case kc_mode c of
        SubscriptionBare \<Rightarrow> [''--safe-mode'']
      | StrictBare \<Rightarrow> [''--bare'']
      | InheritSettings \<Rightarrow> if kc_sources c = [] then [] else [''--setting-sources'', join '','' (kc_sources c)])"

definition claude_args :: "cli_run_config \<Rightarrow> str list" where
  "claude_args cfg =
     (let c = ci_claude cfg;
          skill_dir = (if kc_mode c = SubscriptionBare then None else kc_skill_dir c)
      in claude_mode_args c @
         [''-p'', ci_prompt cfg, ''--output-format'', ''stream-json'', ''--verbose'', ''--no-session-persistence'',
          ''--dangerously-skip-permissions'', ''--strict-mcp-config''] @
         (if skill_dir = None then [''--disable-slash-commands''] else []) @
         flag ''--mcp-config'' (kc_mcp c) @ flag ''--settings'' (kc_settings c) @ flag ''--tools'' (kc_tools c) @
         flag ''--agents'' (kc_agents c) @ each_arg ''--plugin-dir'' (kc_plugin_dirs c) @
         flag ''--plugin-dir'' skill_dir @ flag ''--model'' (ci_model cfg) @
         flag ''--allowedTools'' (string_attr (ci_node cfg) ''allowed_tools'') @
         flag ''--max-budget-usd'' (string_attr (ci_node cfg) ''max_budget_usd''))"

definition codex_args :: "cli_run_config \<Rightarrow> str list" where
  "codex_args cfg =
     [''exec'', ''--json'', ''--yolo'', ''--skip-git-repo-check'', ''--ephemeral''] @ flag ''--model'' (ci_model cfg) @
     flag ''--cd'' (ci_workdir cfg) @ [ci_prompt cfg]"

definition gemini_args :: "gemini_format \<Rightarrow> cli_run_config \<Rightarrow> str list" where
  "gemini_args format cfg =
     [''--output-format'', gemini_format_arg format, ''--approval-mode'', ''yolo''] @ flag ''--model'' (ci_model cfg) @
     [ci_prompt cfg]"

text \<open>pi expands a message that begins with \<open>@\<close>; a space before it keeps it as it is.\<close>

definition pi_message_arg :: "str \<Rightarrow> str" where
  "pi_message_arg p = (if starts_with ''@'' p then '' '' @ p else p)"

definition pi_args :: "cli_run_config \<Rightarrow> str list" where
  "pi_args cfg =
     [''-p'', ''--mode'', ''json'', ''--no-session'', ''-ne'', ''-ns'', ''-np'', ''-nc'', ''--no-mcp'', ''-na'', ''--offline''] @
     flag ''--model'' (if ci_model cfg = Some [] then None else ci_model cfg) @ flag ''--tools'' (pi_tools (ci_node cfg)) @
     each_arg ''--skill'' (pk_skills (ci_pi cfg)) @ each_arg ''-e'' (pk_extensions (ci_pi cfg)) @
     each_arg ''--prompt-template'' (pk_templates (ci_pi cfg)) @ [''--'', pi_message_arg (ci_prompt cfg)]"

definition PI_NODE_ENV :: "(str \<times> str) list" where
  "PI_NODE_ENV = [(''PI_TELEMETRY'', ''0'')]"

definition build_cli_command :: "cli_run_config \<Rightarrow> str \<Rightarrow> gemini_format \<Rightarrow> agent_command" where
  "build_cli_command cfg program format =
     \<lparr>cm_program = program,
      cm_args = (case ci_provider cfg of
         Claude \<Rightarrow> claude_args cfg | Codex \<Rightarrow> codex_args cfg | Gemini \<Rightarrow> gemini_args format cfg | Pi \<Rightarrow> pi_args cfg),
      cm_dir = ci_workdir cfg, cm_envs = (if ci_provider cfg = Pi then PI_NODE_ENV else []), cm_clear_env = False,
      ag_null_stdin = (ci_provider cfg = Pi)\<rparr>"

section \<open>The streamed process\<close>

text \<open>
  How a process ended within the limit: it exited (code, text of the status, error output), reading it or waiting
  for it failed, or it had not ended. A started process is the lines it wrote, as \<open>read_until\<close> returns them,
  its end, and its end in case it is killed before it has ended.
\<close>

datatype stream_ending =
    StreamEnd "int option" str str
  | StreamError str
  | StreamTimeout

record child =
  ch_pid :: "nat option"
  ch_lines :: "str list"
  ch_ending :: stream_ending
  ch_killed :: stream_ending

text \<open>
  The surroundings: starting a process with its limit in nanoseconds (a failure says whether the program is
  missing), killing a process group, invocation ids, the clock, JSON, the \<open>{:.2}\<close> format, the files with faults of
  creating one and of writing to one (how many bytes were written), folders, and the formats of Gemini programs
  that were already asked for.
\<close>

record 'w codergen_env =
  ce_start :: "agent_command \<Rightarrow> nat \<Rightarrow> 'w \<Rightarrow> ((bool \<times> str) + child) \<times> 'w"
  ce_kill :: "nat option \<Rightarrow> 'w \<Rightarrow> 'w"
  ce_new_id :: "'w \<Rightarrow> str \<times> 'w"
  ce_clock :: "'w \<Rightarrow> nat"
  ce_json :: json_reader
  ce_json_text :: "json \<Rightarrow> str"
  ce_fmt2 :: "f64 \<Rightarrow> str"
  ce_files :: "'w \<Rightarrow> fs"
  ce_put_files :: "fs \<Rightarrow> 'w \<Rightarrow> 'w"
  ce_create_fault :: "path \<Rightarrow> 'w \<Rightarrow> bool"
  ce_write_fault :: "path \<Rightarrow> str \<Rightarrow> 'w \<Rightarrow> nat option"
  ce_readable :: "path \<Rightarrow> 'w \<Rightarrow> bool"
  ce_is_dir :: "path \<Rightarrow> 'w \<Rightarrow> bool"
  ce_resolve :: "path \<Rightarrow> 'w \<Rightarrow> resolution_error + resolved_manifest"
  ce_formats :: "'w \<Rightarrow> gemini_format hmap"
  ce_put_formats :: "gemini_format hmap \<Rightarrow> 'w \<Rightarrow> 'w"

text \<open>An open Transcript; after a failed write nothing more is written.\<close>

record transcript =
  tx_path :: path
  tx_open :: bool

definition create_transcript :: "'w codergen_env \<Rightarrow> path \<Rightarrow> 'w \<Rightarrow> transcript option \<times> 'w" where
  "create_transcript E p w =
     (if ce_create_fault E p w \<or> ce_files E w p \<noteq> None then (None, w)
      else (Some \<lparr>tx_path = p, tx_open = True\<rparr>, ce_put_files E ((ce_files E w)(p \<mapsto> [])) w))"

definition discard_transcript :: "'w codergen_env \<Rightarrow> transcript option \<Rightarrow> 'w \<Rightarrow> 'w" where
  "discard_transcript E t w =
     (case t of None \<Rightarrow> w | Some x \<Rightarrow> ce_put_files E ((ce_files E w)(tx_path x := None)) w)"

definition append_transcript :: "'w codergen_env \<Rightarrow> str \<Rightarrow> transcript option \<Rightarrow> 'w \<Rightarrow> transcript option \<times> 'w" where
  "append_transcript E bytes t w =
     (case t of
        None \<Rightarrow> (None, w)
      | Some x \<Rightarrow>
          if \<not> tx_open x then (t, w)
          else (let fault = ce_write_fault E (tx_path x) bytes w;
                    written = (case fault of Some k \<Rightarrow> take k bytes | None \<Rightarrow> bytes);
                    fs = ce_files E w
                in (Some (x\<lparr>tx_open := (fault = None)\<rparr>),
                    case fs (tx_path x) of
                      None \<Rightarrow> w
                    | Some old \<Rightarrow> ce_put_files E (fs(tx_path x \<mapsto> old @ written)) w)))"

text \<open>
  The loop over the lines: each is appended to the Transcript, then to the output, then shown to the budget hook,
  which may stop the run. \<open>spent\<close> is the state of the hook.
\<close>

record streaming =
  st_stopped :: bool
  st_spent :: f64
  st_stdout :: str
  st_transcript :: "transcript option"

definition hook_spent :: "'w codergen_env \<Rightarrow> f64 option \<Rightarrow> str \<Rightarrow> f64 \<Rightarrow> f64" where
  "hook_spent E budget line spent =
     (case budget of None \<Rightarrow> spent | Some _ \<Rightarrow> spend (pi_message_end_cost (ce_json E) line) spent)"

definition hook_stops :: "f64 option \<Rightarrow> f64 \<Rightarrow> bool" where
  "hook_stops budget spent \<longleftrightarrow> (case budget of None \<Rightarrow> False | Some limit \<Rightarrow> over_budget spent limit)"

fun stream_lines :: "'w codergen_env \<Rightarrow> f64 option \<Rightarrow> str list \<Rightarrow> streaming \<Rightarrow> 'w \<Rightarrow> streaming \<times> 'w" where
  "stream_lines E budget [] s w = (s, w)"
| "stream_lines E budget (l # ls) s w =
     (let (t, w1) = append_transcript E l (st_transcript s) w;
          spent = hook_spent E budget l (st_spent s);
          s1 = \<lparr>st_stopped = hook_stops budget spent, st_spent = spent, st_stdout = st_stdout s @ l, st_transcript = t\<rparr>
      in if st_stopped s1 then (s1, w1) else stream_lines E budget ls s1 w1)"

definition run_streaming ::
  "'w codergen_env \<Rightarrow> f64 option \<Rightarrow> child \<Rightarrow> transcript option \<Rightarrow> 'w \<Rightarrow> (streaming \<times> stream_ending) \<times> 'w" where
  "run_streaming E budget c t w =
     (let (s, w1) = stream_lines E budget (ch_lines c)
            \<lparr>st_stopped = False, st_spent = f64_of_int 0, st_stdout = [], st_transcript = t\<rparr> w
      in if st_stopped s then ((s, ch_killed c), ce_kill E (ch_pid c) w1) else ((s, ch_ending c), w1))"

section \<open>The prompt and the label\<close>

definition context_line :: "'w codergen_env \<Rightarrow> str \<times> json \<Rightarrow> str" where
  "context_line E kv = ''- '' @ fst kv @ '': '' @ (case snd kv of JStr s \<Rightarrow> s | v \<Rightarrow> ce_json_text E v) @ nl"

definition context_entries :: "ctx \<Rightarrow> json hmap" where
  "context_entries c = filter (\<lambda>(k, v). ends_with ''.result'' k \<or> ends_with ''.output'' k) (context_snapshot c)"

definition edge_labels :: "pipeline_graph \<Rightarrow> str \<Rightarrow> str list" where
  "edge_labels g i = List.map_filter pe_label (outgoing_edges g i)"

definition node_prompt :: "pipeline_node \<Rightarrow> str" where
  "node_prompt n = (case pn_prompt n of Some p \<Rightarrow> p | None \<Rightarrow> ''No prompt specified'')"

definition full_prompt :: "'w codergen_env \<Rightarrow> pipeline_node \<Rightarrow> resolved_node \<Rightarrow> ctx \<Rightarrow> pipeline_graph \<Rightarrow> str" where
  "full_prompt E n r c g =
     (if pg_goal g = [] then [] else ''Pipeline goal: '' @ pg_goal g @ nl @ nl) @
     (if context_entries c = [] then []
      else ''Context from prior pipeline steps:'' @ nl @ concat (map (context_line E) (context_entries c)) @ nl) @
     ''Task ('' @ pn_label n @ ''): '' @ node_prompt n @
     (if rn_kind r = KConditional True \<and> edge_labels g (pn_id n) \<noteq> []
      then nl @ nl @ ''You MUST end your response with exactly one of these labels on its own line: ''
        @ join '', '' (edge_labels g (pn_id n))
      else [])"

text \<open>\<open>str::to_uppercase\<close>, on ASCII.\<close>

definition upper_char :: "char \<Rightarrow> char" where
  "upper_char c = (if is_alpha c \<and> \<not> is_upper c then char_of (byte c - 32) else c)"

definition uppercase :: "str \<Rightarrow> str" where
  "uppercase s = map upper_char s"

definition extract_label :: "str \<Rightarrow> str list \<Rightarrow> str option" where
  "extract_label response labels =
     (let lines = take 5 (rev (str_lines response))
      in case find (\<lambda>(l, b). eq_ignore_case (trim l) b) (concat (map (\<lambda>l. map (Pair l) labels) lines)) of
           Some (_, b) \<Rightarrow> Some b
         | None \<Rightarrow> find (\<lambda>b. contains_str (uppercase b) (uppercase response)) labels)"

section \<open>The handler\<close>

record codergen_controls =
  kx_dry_run :: bool
  kx_workdir :: "str option"
  kx_claude :: claude_cli
  kx_pi :: pi_cli
  kx_run_dir :: "path option"
  kx_program :: "str option"
  kx_events :: bool

definition dry_outcome :: "pipeline_node \<Rightarrow> llm_provider \<Rightarrow> outcome" where
  "dry_outcome n p =
     (outcome_success (''Dry run '' @ em_dash @ '' '' @ provider_display_name p @ '' not invoked for: '' @ pn_label n))
       \<lparr>context_updates :=
          [(pn_id n @ ''.result'', JStr (''Dry run '' @ em_dash @ '' prompt not sent: '' @ node_prompt n)),
           (pn_id n @ ''.completed'', JBool True), (pn_id n @ ''.dry_run'', JBool True),
           (pn_id n @ ''.provider'', JStr (provider_display_name p))]\<rparr>"

definition agent_error :: "pipeline_node \<Rightarrow> str \<Rightarrow> error" where
  "agent_error n m = codergen_error (pn_id n) m"

text \<open>A pi node has a model of its own; the graph's model is for the others.\<close>

definition agent_model :: "pipeline_node \<Rightarrow> pipeline_graph \<Rightarrow> llm_provider \<Rightarrow> str option result" where
  "agent_model n g p =
     (if p = Pi
      then (case map_option trim (pn_llm_model n) of
              Some (c # m) \<Rightarrow>
                if pi_tools n = Some []
                then Inl (agent_error n ''allowed_tools names no tool; omit it to allow every pi tool'')
                else Inr (Some (c # m))
            | _ \<Rightarrow> Inl (agent_error n ''pi node has no llm_model (provider/model-id)''))
      else Inr (case pn_llm_model n of
                  Some m \<Rightarrow> Some m
                | None \<Rightarrow> (case hm_get (pg_attrs g) ''model'' of Some (AString m) \<Rightarrow> Some m | _ \<Rightarrow> None)))"

definition pi_budget_limit :: "pipeline_node \<Rightarrow> f64 option result" where
  "pi_budget_limit n =
     (case hm_get (pn_raw n) ''max_budget_usd'' of
        None \<Rightarrow> Inr None
      | Some v \<Rightarrow>
          (case (case v of AString s \<Rightarrow> parse_f64 (trim s) | _ \<Rightarrow> None) of
             Some limit \<Rightarrow>
               if f64_finite limit \<and> f64_ge limit (f64_of_int 0) then Inr (Some limit)
               else Inl (agent_error n ''max_budget_usd must be a non-negative number'')
           | None \<Rightarrow> Inl (agent_error n ''max_budget_usd must be a non-negative number'')))"

text \<open>Asked for once per program; a program that does not answer in ten seconds has no stream format.\<close>

definition gemini_help :: "str \<Rightarrow> command" where
  "gemini_help program =
     \<lparr>cm_program = program, cm_args = [''--help''], cm_dir = None, cm_envs = [], cm_clear_env = False\<rparr>"

definition probe_gemini :: "'w host \<Rightarrow> str \<Rightarrow> 'w \<Rightarrow> gemini_format \<times> 'w" where
  "probe_gemini H program w =
     (let (r, w1) = ho_within H (gemini_help program) 10000000000 w
      in (case r of
            Ended code out err \<Rightarrow>
              if exited_ok code \<and>
                 (contains_str ''stream-json'' (utf8_lossy out) \<or> contains_str ''stream-json'' (utf8_lossy err))
              then GeminiStreamJson else GeminiJson
          | _ \<Rightarrow> GeminiJson, w1))"

definition gemini_output_format :: "'w host \<Rightarrow> 'w codergen_env \<Rightarrow> str \<Rightarrow> 'w \<Rightarrow> gemini_format \<times> 'w" where
  "gemini_output_format H E program w =
     (case hm_get (ce_formats E w) program of
        Some f \<Rightarrow> (f, w)
      | None \<Rightarrow>
          (let (f, w1) = probe_gemini H program w
           in (f, ce_put_formats E (hm_insert program f (ce_formats E w1)) w1)))"

text \<open>A Model Invocation that an event is owed for.\<close>

record invocation =
  iv_run_dir :: path
  iv_id :: str
  iv_node :: str
  iv_provider :: llm_provider
  iv_model :: "str option"
  iv_started :: nat

definition emit_invoked ::
  "'w codergen_env \<Rightarrow> invocation option \<Rightarrow> str \<Rightarrow> invocation_usage \<Rightarrow> ('w, unit) hact" where
  "emit_invoked E i st u =
     (case i of
        None \<Rightarrow> hret ()
      | Some v \<Rightarrow>
          hbind (hsense (ce_clock E)) (\<lambda>now.
          hemit True (LlmInvoked (iv_id v) (iv_node v) (provider_as_str (iv_provider v)) (iv_model v) (iu_model u)
            (iu_input u) (iu_output u) (iu_cost u) (min ((now - iv_started v) div 1000000) u64_max)
            (transcript_rel_path (iv_id v)) st)))"

definition transcript_usage :: "'w codergen_env \<Rightarrow> invocation \<Rightarrow> 'w \<Rightarrow> invocation_usage" where
  "transcript_usage E v w =
     (let p = transcript_path (iv_run_dir v) (iv_id v)
      in case ce_files E w p of
           Some bytes \<Rightarrow>
             if ce_readable E p w then summarize_stream (ce_json E) (iv_provider v) (utf8_lossy bytes) else no_usage
         | None \<Rightarrow> no_usage)"

text \<open>The event of a run that did not give its output: its facts are read back from the Transcript.\<close>

definition emit_from_transcript :: "'w codergen_env \<Rightarrow> invocation option \<Rightarrow> str \<Rightarrow> ('w, unit) hact" where
  "emit_from_transcript E i st =
     (case i of
        None \<Rightarrow> hret ()
      | Some v \<Rightarrow> hbind (hsense (transcript_usage E v)) (\<lambda>u. emit_invoked E i st u))"

definition kill_group :: "'w codergen_env \<Rightarrow> child \<Rightarrow> ('w, unit) hact" where
  "kill_group E c = hworld (\<lambda>w. ((), ce_kill E (ch_pid c) w))"

definition budget_message :: "'w codergen_env \<Rightarrow> f64 \<Rightarrow> f64 \<Rightarrow> str" where
  "budget_message E spent limit =
     ''pi stopped at its budget: spent $'' @ ce_fmt2 E spent @ '' of the $'' @ ce_fmt2 E limit
       @ '' limit (max_budget_usd)''"

definition stopped_result :: "'w codergen_env \<Rightarrow> llm_provider \<Rightarrow> f64 option \<Rightarrow> f64 \<Rightarrow> str \<Rightarrow> cli_result" where
  "stopped_result E p budget spent stdout =
     (let u = summarize_stream (ce_json E) p stdout
      in \<lparr>nr_text = budget_message E spent (case budget of Some l \<Rightarrow> l | None \<Rightarrow> f64_of_int 0), nr_is_error = True,
          nr_cost = or_else (iu_cost u) (Some spent), nr_turns = None, nr_usage = u, nr_raw = stdout\<rparr>)"

definition agent_outcome ::
  "pipeline_node \<Rightarrow> resolved_node \<Rightarrow> pipeline_graph \<Rightarrow> llm_provider \<Rightarrow> bool \<Rightarrow> cli_result \<Rightarrow> outcome" where
  "agent_outcome n r g p stopped res =
     (let label = (if rn_kind r = KConditional True then extract_label (nr_text res) (edge_labels g (pn_id n)) else None)
      in \<lparr>status = (if nr_is_error res then Fail else Success), preferred_label = label, suggested_next_ids = [],
          context_updates =
            [(pn_id n @ ''.completed'', JBool True), (pn_id n @ ''.result'', JStr (nr_text res)),
             (pn_id n @ ''.provider'', JStr (provider_display_name p))]
            @ (case nr_cost res of Some c \<Rightarrow> [(pn_id n @ ''.cost_usd'', jf64 c)] | None \<Rightarrow> [])
            @ (case nr_turns res of Some t \<Rightarrow> [(pn_id n @ ''.turns'', JInt (int t))] | None \<Rightarrow> [])
            @ (case label of Some l \<Rightarrow> [(pn_id n @ ''.label'', JStr l)] | None \<Rightarrow> []),
          out_notes = nr_text res,
          failure_reason =
            (if stopped then Some (nr_text res)
             else if nr_is_error res then Some (provider_display_name p @ '' returned an error'') else None)\<rparr>)"

text \<open>What follows the end of the process.\<close>

definition after_exit ::
  "'w codergen_env \<Rightarrow> pipeline_node \<Rightarrow> resolved_node \<Rightarrow> pipeline_graph \<Rightarrow> llm_provider \<Rightarrow> f64 option
   \<Rightarrow> invocation option \<Rightarrow> streaming \<Rightarrow> int option \<Rightarrow> str \<Rightarrow> str \<Rightarrow> ('w, outcome) hact" where
  "after_exit E n r g p budget i s code st stderr_bytes =
     (let J = ce_json E; stdout = utf8_lossy (st_stdout s); stderr = utf8_lossy stderr_bytes
      in if \<not> st_stopped s \<and> \<not> exited_ok code \<and> (p = Pi \<or> \<not> has_final_result J p stdout)
         then hbind (emit_invoked E i ''failed'' (summarize_stream J p stdout)) (\<lambda>_.
              hfail (agent_error n (provider_display_name p @ '' exited with '' @ st @ '': '' @ trim stderr)))
         else (case (if st_stopped s then Inr (stopped_result E p budget (st_spent s) stdout)
                     else parse_cli_output J p stdout stderr (pn_id n)) of
                 Inl e \<Rightarrow> hbind (emit_invoked E i ''failed'' (summarize_stream J p stdout)) (\<lambda>_. hfail e)
               | Inr res \<Rightarrow>
                   hbind (emit_invoked E i (if nr_is_error res then ''failed'' else ''success'') (nr_usage res)) (\<lambda>_.
                   hret (agent_outcome n r g p (st_stopped s) res))))"

definition agent_timeout :: "pipeline_node \<Rightarrow> nat" where
  "agent_timeout n = (case pn_timeout n of Some ms \<Rightarrow> ms | None \<Rightarrow> 600000)"

definition invocation_of ::
  "codergen_controls \<Rightarrow> pipeline_node \<Rightarrow> llm_provider \<Rightarrow> str option \<Rightarrow> str \<Rightarrow> nat \<Rightarrow> invocation option" where
  "invocation_of k n p model i now =
     (case kx_run_dir k of
        Some d \<Rightarrow>
          if kx_events k
          then Some \<lparr>iv_run_dir = d, iv_id = i, iv_node = pn_id n, iv_provider = p, iv_model = model, iv_started = now\<rparr>
          else None
      | None \<Rightarrow> None)"

definition spawn_failure :: "pipeline_node \<Rightarrow> llm_provider \<Rightarrow> bool \<times> str \<Rightarrow> error" where
  "spawn_failure n p f =
     (if fst f then CliNotFound (provider_as_str p)
      else agent_error n (''Failed to spawn '' @ provider_display_name p @ '': '' @ snd f))"

text \<open>
  From the started process to the outcome. The guard kills the process group on every way out but the exit of the
  process; on a timeout the event is emitted first.
\<close>

definition run_child ::
  "'w codergen_env \<Rightarrow> pipeline_node \<Rightarrow> resolved_node \<Rightarrow> pipeline_graph \<Rightarrow> llm_provider \<Rightarrow> f64 option
   \<Rightarrow> invocation option \<Rightarrow> child \<Rightarrow> transcript option \<Rightarrow> ('w, outcome) hact" where
  "run_child E n r g p budget i c t =
     hbind (hworld (run_streaming E budget c t)) (\<lambda>(s, ending).
     case ending of
       StreamEnd code st stderr \<Rightarrow> after_exit E n r g p budget i s code st stderr
     | StreamError e \<Rightarrow>
         hbind (emit_from_transcript E i ''failed'') (\<lambda>_.
         hbind (kill_group E c) (\<lambda>_.
         hfail (agent_error n (provider_display_name p @ '' execution failed: '' @ e))))
     | StreamTimeout \<Rightarrow>
         hbind (emit_from_transcript E i ''timeout'') (\<lambda>_.
         hbind (kill_group E c) (\<lambda>_.
         hfail (CommandTimeout (as_u64 (agent_timeout n))))))"

definition invoke_agent ::
  "'w codergen_env \<Rightarrow> pipeline_node \<Rightarrow> resolved_node \<Rightarrow> pipeline_graph \<Rightarrow> codergen_controls \<Rightarrow> llm_provider
   \<Rightarrow> str option \<Rightarrow> f64 option \<Rightarrow> agent_command \<Rightarrow> ('w, outcome) hact" where
  "invoke_agent E n r g k p model budget cmd =
     hbind (hworld (ce_new_id E)) (\<lambda>i.
     hbind (case kx_run_dir k of
              Some d \<Rightarrow> hworld (create_transcript E (transcript_path d i)) | None \<Rightarrow> hret None) (\<lambda>t.
     hbind (hworld (ce_start E cmd (nanos (agent_timeout n)))) (\<lambda>started.
     case started of
       Inl f \<Rightarrow> hbind (hworld (\<lambda>w. ((), discard_transcript E t w))) (\<lambda>_. hfail (spawn_failure n p f))
     | Inr c \<Rightarrow>
         hbind (hsense (ce_clock E)) (\<lambda>now.
         run_child E n r g p budget (invocation_of k n p model i now) c t))))"

definition execute_with_controls ::
  "'w host \<Rightarrow> 'w codergen_env \<Rightarrow> pipeline_node \<Rightarrow> resolved_node \<Rightarrow> pipeline_graph \<Rightarrow> codergen_controls
   \<Rightarrow> ('w, outcome) hact" where
  "execute_with_controls H E n r g k =
     (case rn_provider r of
        None \<Rightarrow> hfail (agent_error n ''compiled codergen node has no provider'')
      | Some p \<Rightarrow>
          if kx_dry_run k then hret (dry_outcome n p)
          else hbind hctx (\<lambda>c.
               hbind (hlift (agent_model n g p)) (\<lambda>model.
               hbind (hlift (if p = Pi then pi_budget_limit n else Inr None)) (\<lambda>budget.
               let program = (case kx_program k of Some x \<Rightarrow> x | None \<Rightarrow> provider_as_str p)
               in hbind (if p = Gemini then hworld (gemini_output_format H E program) else hret GeminiJson) (\<lambda>format.
                  invoke_agent E n r g k p model budget
                    (build_cli_command
                      \<lparr>ci_provider = p, ci_prompt = full_prompt E n r c g, ci_model = model, ci_workdir = kx_workdir k,
                       ci_node = n, ci_claude = kx_claude k, ci_pi = kx_pi k\<rparr> program format))))))"

section \<open>Where the options come from\<close>

text \<open>Without the engine: Claude's options of the manifest, overridden by keys of the context.\<close>

definition string_list_from_value :: "json option \<Rightarrow> str list option" where
  "string_list_from_value v =
     (case v of
        Some (JStr s) \<Rightarrow> Some (filter (\<lambda>x. x \<noteq> []) (map trim (split_on '','' s)))
      | Some (JArr vs) \<Rightarrow> Some (List.map_filter json_as_str vs)
      | _ \<Rightarrow> None)"

definition beside_manifest :: "path option \<Rightarrow> path \<Rightarrow> path" where
  "beside_manifest d p = (if is_absolute p then p else case d of Some m \<Rightarrow> m @ p | None \<Rightarrow> p)"

definition apply_manifest_claude :: "claude_codergen \<Rightarrow> path option \<Rightarrow> claude_cli \<Rightarrow> claude_cli" where
  "apply_manifest_claude c d cfg =
     cfg\<lparr>kc_mode := (case cc_settings_mode c of Some m \<Rightarrow> m | None \<Rightarrow> kc_mode cfg),
        kc_sources := (case cc_setting_sources c of Some ss \<Rightarrow> map setting_source_str ss | None \<Rightarrow> kc_sources cfg),
        kc_settings := or_else (cc_settings_json c) (kc_settings cfg), kc_tools := or_else (cc_tools c) (kc_tools cfg),
        kc_agents := or_else (cc_agents_json c) (kc_agents cfg), kc_mcp := or_else (cc_mcp_config_json c) (kc_mcp cfg),
        kc_plugin_dirs := (if cc_plugin_dirs c = [] then kc_plugin_dirs cfg
          else map (\<lambda>p. path_text (beside_manifest d p)) (cc_plugin_dirs c))\<rparr>"

definition parse_setting_sources :: "str \<Rightarrow> str list \<Rightarrow> str list result" where
  "parse_setting_sources i ss =
     rmap (\<lambda>x. case setting_source_of x of Inl e \<Rightarrow> Inl (codergen_error i e) | Inr v \<Rightarrow> Inr (setting_source_str v)) ss"

definition value_of_key :: "json hmap \<Rightarrow> str \<Rightarrow> str option" where
  "value_of_key m k = Option.bind (hm_get m k) json_as_str"

definition apply_context_claude :: "json hmap \<Rightarrow> str \<Rightarrow> claude_cli \<Rightarrow> claude_cli result" where
  "apply_context_claude m i cfg =
     rbind (case value_of_key m ''codergen.claude.settings_mode'' of
              None \<Rightarrow> Inr (kc_mode cfg)
            | Some v \<Rightarrow> (case settings_mode_of v of Inl e \<Rightarrow> Inl (codergen_error i e) | Inr x \<Rightarrow> Inr x)) (\<lambda>mode.
     rbind (case string_list_from_value (hm_get m ''codergen.claude.setting_sources'') of
              None \<Rightarrow> Inr (kc_sources cfg) | Some ss \<Rightarrow> parse_setting_sources i ss) (\<lambda>sources.
     Inr (cfg\<lparr>kc_mode := mode, kc_sources := sources,
        kc_settings := or_else (value_of_key m ''codergen.claude.settings'') (kc_settings cfg),
        kc_tools := or_else (value_of_key m ''codergen.claude.tools'') (kc_tools cfg),
        kc_agents := or_else (value_of_key m ''codergen.claude.agents'') (kc_agents cfg),
        kc_plugin_dirs := (case string_list_from_value (hm_get m ''codergen.claude.plugin_dirs'') of
           Some ds \<Rightarrow> ds | None \<Rightarrow> kc_plugin_dirs cfg),
        kc_mcp := or_else (value_of_key m ''codergen.claude.mcp_config'') (kc_mcp cfg)\<rparr>)))"

definition manifest_cli :: "'w codergen_env \<Rightarrow> 'w \<Rightarrow> str option \<Rightarrow> str \<Rightarrow> claude_cli result" where
  "manifest_cli E w workdir i =
     (case workdir of
        None \<Rightarrow> Inr claude_cli_default
      | Some d \<Rightarrow>
          (case ce_resolve E (path_of d) w of
             Inr m \<Rightarrow>
               Inr (case manifest_claude (Some m) of
                      Some c \<Rightarrow> apply_manifest_claude c (path_parent (rm_path m)) claude_cli_default
                    | None \<Rightarrow> claude_cli_default)
           | Inl ManifestNotFound \<Rightarrow> Inr claude_cli_default
           | Inl e \<Rightarrow> Inl (codergen_error i
               (''Failed to resolve pas.toml for Claude codergen config: '' @ resolution_error_display e))))"

definition resolve_claude_cli :: "'w codergen_env \<Rightarrow> 'w \<Rightarrow> json hmap \<Rightarrow> str option \<Rightarrow> str \<Rightarrow> claude_cli result" where
  "resolve_claude_cli E w m workdir i =
     rbind (manifest_cli E w workdir i) (\<lambda>cfg.
     rbind (apply_context_claude m i cfg) (\<lambda>cfg.
     if kc_mode cfg = InheritSettings \<and> kc_sources cfg = []
     then Inl (codergen_error i inherit_without_sources) else Inr cfg))"

text \<open>With the engine: the controls of the run, and the copy of the skills when one was built.\<close>

definition skill_copy_used :: "'w codergen_env \<Rightarrow> path option \<Rightarrow> path list \<Rightarrow> 'w \<Rightarrow> path option" where
  "skill_copy_used E run_dir skills w =
     (case run_dir of
        Some d \<Rightarrow> if skills \<noteq> [] \<and> ce_is_dir E (skill_copy_root d) w then Some d else None
      | None \<Rightarrow> None)"

definition configured_claude :: "agent_controls \<Rightarrow> path option \<Rightarrow> claude_cli" where
  "configured_claude a copy =
     (let c = ac_claude a
      in \<lparr>kc_mode = rv_value (cv_mode c), kc_sources = map setting_source_str (rv_value (cv_sources c)),
          kc_settings = rv_value (cv_settings c), kc_tools = rv_value (cv_tools c), kc_agents = rv_value (cv_agents c),
          kc_plugin_dirs = map path_text (rv_value (cv_plugin_dirs c)), kc_mcp = rv_value (cv_mcp c),
          kc_skill_dir = map_option (\<lambda>d. path_text (skill_copy_root d)) copy\<rparr>)"

definition configured_pi :: "agent_controls \<Rightarrow> path option \<Rightarrow> pi_cli" where
  "configured_pi a copy =
     (let skills = rv_value (ac_skills a)
      in \<lparr>pk_skills = map path_text (case copy of Some d \<Rightarrow> copied_skill_dirs d skills | None \<Rightarrow> skills),
          pk_extensions = map path_text (rv_value (ac_pi_extensions a)),
          pk_templates = map path_text (rv_value (ac_pi_templates a))\<rparr>)"

definition codergen_resolved ::
  "'w host \<Rightarrow> 'w codergen_env \<Rightarrow> pipeline_node \<Rightarrow> resolved_node \<Rightarrow> pipeline_graph \<Rightarrow> ('w, outcome) hact" where
  "codergen_resolved H E n r g =
     hbind hctx (\<lambda>c.
     let workdir = value_of_key (context_snapshot c) ''workdir''
     in hbind (hsense (\<lambda>w. resolve_claude_cli E w (context_snapshot c) workdir (pn_id n))) (\<lambda>res.
        hbind (hlift res) (\<lambda>claude.
        execute_with_controls H E n r g
          \<lparr>kx_dry_run = legacy_dry_run c, kx_workdir = workdir, kx_claude = claude, kx_pi = pi_cli_default,
           kx_run_dir = None, kx_program = None, kx_events = False\<rparr>)))"

definition codergen_configured ::
  "'w host \<Rightarrow> 'w codergen_env \<Rightarrow> agent_controls \<Rightarrow> str option \<Rightarrow> pipeline_node \<Rightarrow> resolved_node \<Rightarrow> handler_execution
   \<Rightarrow> pipeline_graph \<Rightarrow> ('w, outcome) hact" where
  "codergen_configured H E a program n r x g =
     (let run_dir = map_option path_of (hx_run_dir x)
      in hbind (hsense (skill_copy_used E run_dir (rv_value (ac_skills a)))) (\<lambda>copy.
         execute_with_controls H E n r g
           \<lparr>kx_dry_run = rv_value (ct_dry_run (hx_config x)), kx_workdir = Some (rv_value (ct_workdir (hx_config x))),
            kx_claude = configured_claude a copy, kx_pi = configured_pi a copy, kx_run_dir = run_dir,
            kx_program = program, kx_events = hx_events x\<rparr>))"

text \<open>A raw node, for callers without a plan: an unknown or missing provider is Claude.\<close>

definition raw_resolved :: "pipeline_node \<Rightarrow> resolved_node" where
  "raw_resolved n =
     \<lparr>rn_id = pn_id n,
      rn_kind = (if pn_shape n = ''diamond'' \<or> pn_type n = Some ''conditional'' then KConditional True else KTask),
      rn_handler = HCodergen,
      rn_provider = Some (case Option.bind (pn_llm_provider n) provider_parse of Some p \<Rightarrow> p | None \<Rightarrow> Claude),
      rn_invocation = \<lparr>max_attempts = 1, ip_timeout = None\<rparr>\<rparr>"

definition codergen_handler :: "'w host \<Rightarrow> 'w codergen_env \<Rightarrow> agent_controls \<Rightarrow> 'w handler" where
  "codergen_handler H E a =
     \<lparr>hd_type = ''codergen'',
      hd_provider = Some \<lparr>te_resolved = codergen_resolved H E, te_configured = codergen_configured H E a None\<rparr>,
      hd_resolved = None, hd_resumes = False,
      hd_execute = \<lambda>n g. codergen_resolved H E n (raw_resolved n) g\<rparr>"

end
