(* ===== verification/Codergen_Props.thy ===== *)
theory Codergen_Props
  imports Codergen Edge_Selection
begin

text \<open>
  What holds of the agent handler: one event per process, the meaning of a success, where the budget stops a run, what
  the Transcript holds, what providers get as the prompt, and how the label of an answer routes the pipeline.
\<close>

section \<open>One event per process\<close>

text \<open>The same surroundings with a count of the processes that were started.\<close>

definition counted :: "'w codergen_env \<Rightarrow> (nat \<times> 'w) codergen_env" where
  "counted E =
     \<lparr>ce_start = \<lambda>c t (n, w). (let (r, w') = ce_start E c t w in (r, (case r of Inr _ \<Rightarrow> Suc n | Inl _ \<Rightarrow> n, w'))),
      ce_kill = \<lambda>p (n, w). (n, ce_kill E p w),
      ce_new_id = \<lambda>(n, w). (let (i, w') = ce_new_id E w in (i, (n, w'))),
      ce_clock = \<lambda>(n, w). ce_clock E w, ce_json = ce_json E, ce_json_text = ce_json_text E, ce_fmt2 = ce_fmt2 E,
      ce_files = \<lambda>(n, w). ce_files E w, ce_put_files = \<lambda>fs (n, w). (n, ce_put_files E fs w),
      ce_create_fault = \<lambda>p (n, w). ce_create_fault E p w, ce_write_fault = \<lambda>p b (n, w). ce_write_fault E p b w,
      ce_readable = \<lambda>p (n, w). ce_readable E p w, ce_is_dir = \<lambda>p (n, w). ce_is_dir E p w,
      ce_resolve = \<lambda>p (n, w). ce_resolve E p w, ce_formats = \<lambda>(n, w). ce_formats E w,
      ce_put_formats = \<lambda>m (n, w). (n, ce_put_formats E m w)\<rparr>"

definition counted_host :: "'w host \<Rightarrow> (nat \<times> 'w) host" where
  "counted_host H =
     \<lparr>ho_output = \<lambda>c (n, w). (let (r, w') = ho_output H c w in (r, (n, w'))),
      ho_within = \<lambda>c t (n, w). (let (r, w') = ho_within H c t w in (r, (n, w'))),
      ho_read = \<lambda>p (n, w). ho_read H p w,
      ho_mkdirs = \<lambda>p (n, w). (let (r, w') = ho_mkdirs H p w in (r, (n, w'))),
      ho_write = \<lambda>p t (n, w). (let (r, w') = ho_write H p t w in (r, (n, w'))),
      ho_codec = ho_codec H, ho_json = ho_json H, ho_shape = ho_shape H, ho_quote = ho_quote H,
      ho_debug = ho_debug H, ho_fmt = ho_fmt H, ho_io_text = ho_io_text H, ho_order = ho_order H\<rparr>"

lemma counted_simps [simp]:
  "fst (ce_put_files (counted E) fs w) = fst w" "fst (ce_kill (counted E) p w) = fst w"
  "fst (ce_put_formats (counted E) m w) = fst w" "fst (snd (ce_new_id (counted E) w)) = fst w"
  by (cases w, simp add: counted_def split: prod.split)+

lemma counted_start:
  "fst (snd (ce_start (counted E) c t w)) = (case fst (ce_start (counted E) c t w) of Inr _ \<Rightarrow> Suc (fst w) | Inl _ \<Rightarrow> fst w)"
  by (cases w) (auto simp: counted_def split: prod.split sum.split)

lemma counted_within [simp]: "fst (snd (ho_within (counted_host H) c t w)) = fst w"
  by (cases w) (simp add: counted_host_def split: prod.split)

lemma append_world:
  "(\<And>fs w. P w \<Longrightarrow> P (ce_put_files E fs w)) \<Longrightarrow> P w \<Longrightarrow> P (snd (append_transcript E b t w))"
  by (auto simp: append_transcript_def Let_def split: option.split)

lemma stream_lines_world:
  assumes "\<And>fs w. P w \<Longrightarrow> P (ce_put_files E fs w)" "P w"
  shows "P (snd (stream_lines E budget ls s w))"
  using assms(2)
proof (induction ls arbitrary: s w)
  case (Cons l ls)
  have "P (snd (append_transcript E l (st_transcript s) w))" using append_world [of P E] assms(1) Cons.prems by blast
  then show ?case using Cons.IH by (auto simp: Let_def split: prod.split)
qed simp

lemma run_streaming_count: "fst (snd (run_streaming (counted E) budget c t w)) = fst w"
proof -
  let ?s = "\<lparr>st_stopped = False, st_spent = f64_of_int 0, st_stdout = [], st_transcript = t\<rparr>"
  obtain q v where q: "stream_lines (counted E) budget (ch_lines c) ?s w = (q, v)" by (metis prod.exhaust)
  have "fst v = fst w" using stream_lines_world [of "\<lambda>x. fst x = fst w" "counted E" w budget "ch_lines c" ?s] q by simp
  with q show ?thesis by (simp add: run_streaming_def)
qed

lemma create_count: "fst (snd (create_transcript (counted E) p w)) = fst w"
  by (simp add: create_transcript_def)

lemma discard_count: "fst (discard_transcript (counted E) t w) = fst w"
  by (simp add: discard_transcript_def split: option.split)

lemma gemini_count: "fst (snd (gemini_output_format (counted_host H) (counted E) p w)) = fst w"
proof -
  have "fst (snd (probe_gemini (counted_host H) p w)) = fst w"
    using counted_within [of H "gemini_help p" 10000000000 w] by (cases "ho_within (counted_host H) (gemini_help p) 10000000000 w") (simp add: probe_gemini_def)
  then show ?thesis by (auto simp: gemini_output_format_def Let_def split: prod.split option.split)
qed

definition invoked_event :: "'w codergen_env \<Rightarrow> invocation \<Rightarrow> str \<Rightarrow> invocation_usage \<Rightarrow> 'w \<Rightarrow> pipeline_event" where
  "invoked_event E v st u w =
     LlmInvoked (iv_id v) (iv_node v) (provider_as_str (iv_provider v)) (iv_model v) (iu_model u)
       (iu_input u) (iu_output u) (iu_cost u) (min ((ce_clock E w - iv_started v) div 1000000) u64_max)
       (transcript_rel_path (iv_id v)) st"

fun owed :: "invocation option \<Rightarrow> (invocation \<Rightarrow> pipeline_event) \<Rightarrow> pipeline_event list" where
  "owed None f = []"
| "owed (Some v) f = [f v]"

lemma emit_invoked_run [simp]:
  "emit_invoked E i st u s = (Inr (), s\<lparr>hr_events := hr_events s @ owed i (\<lambda>v. invoked_event E v st u (hr_world s))\<rparr>)"
  by (cases i) (simp_all add: emit_invoked_def invoked_event_def)

lemma emit_from_transcript_run [simp]:
  "emit_from_transcript E i st s =
     (Inr (), s\<lparr>hr_events := hr_events s @ owed i (\<lambda>v. invoked_event E v st (transcript_usage E v (hr_world s)) (hr_world s))\<rparr>)"
  by (cases i) (simp_all add: emit_from_transcript_def)

lemma hbind_emits [simp]:
  "hbind (emit_invoked E i st u) f s = f () (s\<lparr>hr_events := hr_events s @ owed i (\<lambda>v. invoked_event E v st u (hr_world s))\<rparr>)"
  "hbind (emit_from_transcript E i st) f s = f () (s\<lparr>hr_events := hr_events s @
     owed i (\<lambda>v. invoked_event E v st (transcript_usage E v (hr_world s)) (hr_world s))\<rparr>)"
  by (simp_all add: hbind_def)

lemma hbind_kill [simp]: "hbind (kill_group E c) f s = f () (s\<lparr>hr_world := ce_kill E (ch_pid c) (hr_world s)\<rparr>)"
  by (simp add: hbind_def kill_group_def hworld_def)

lemma hbind_hworld: "hbind (hworld m) f s = f (fst (m (hr_world s))) (s\<lparr>hr_world := snd (m (hr_world s))\<rparr>)"
  by (simp add: hbind_def hworld_def split: prod.split)

definition STATUSES :: "str list" where "STATUSES = [''success'', ''failed'', ''timeout'']"

text \<open>The event of a node's invocation, whatever its facts.\<close>

definition reports :: "pipeline_node \<Rightarrow> pipeline_event \<Rightarrow> bool" where
  "reports n ev \<longleftrightarrow>
     (\<exists>i p mr ma it ot c ms st. ev = LlmInvoked i (pn_id n) p mr ma it ot c ms (transcript_rel_path i) st \<and> st \<in> set STATUSES)"

lemma invoked_reports [simp]: "iv_node v = pn_id n \<Longrightarrow> st \<in> set STATUSES \<Longrightarrow> reports n (invoked_event E v st u w)"
  by (auto simp: reports_def invoked_event_def)

lemma owed_reports:
  "i = None \<or> iv_node (the i) = pn_id n \<Longrightarrow> st \<in> set STATUSES \<Longrightarrow>
   list_all (reports n) (owed i (\<lambda>v. invoked_event E v st (u v) w)) \<and>
   length (owed i (\<lambda>v. invoked_event E v st (u v) w)) = (if i = None then 0 else 1)"
  by (cases i) simp_all

lemma statuses [simp]: "''success'' \<in> set STATUSES" "''failed'' \<in> set STATUSES" "''timeout'' \<in> set STATUSES"
  by (simp_all add: STATUSES_def)

text \<open>\<open>one m s\<close>: the action added one event of the node if one is owed, and changed nothing else but the world.\<close>

definition adds_one :: "pipeline_node \<Rightarrow> bool \<Rightarrow> 'w handler_run \<Rightarrow> 'w handler_run \<Rightarrow> bool" where
  "adds_one n due s s' \<longleftrightarrow>
     hr_ctx s' = hr_ctx s \<and>
     (\<exists>evs. hr_events s' = hr_events s @ evs \<and> list_all (reports n) evs \<and> length evs = (if due then 1 else 0))"

lemma after_exit_one:
  assumes "after_exit E n r g p budget i q code st err s = (res, s')" "i = None \<or> iv_node (the i) = pn_id n"
  shows "adds_one n (i \<noteq> None) s s' \<and> hr_world s' = hr_world s"
proof -
  from assms(1) obtain status u where "s' = s\<lparr>hr_events := hr_events s @ owed i (\<lambda>v. invoked_event E v status u (hr_world s))\<rparr>"
    "status \<in> set STATUSES"
    by (auto simp: after_exit_def Let_def split: if_splits sum.splits)
  then show ?thesis using owed_reports [OF assms(2), of status E "\<lambda>_. u" "hr_world s"] by (auto simp: adds_one_def)
qed

lemma run_child_one:
  assumes "run_child E n r g p budget i c t s = (res, s')" "i = None \<or> iv_node (the i) = pn_id n"
  shows "adds_one n (i \<noteq> None) s s'"
proof -
  obtain q e w where x: "run_streaming E budget c t (hr_world s) = ((q, e), w)" by (metis prod.exhaust)
  show ?thesis
  proof (cases e)
    case (StreamEnd code st err)
    with assms(1) x have "after_exit E n r g p budget i q code st err (s\<lparr>hr_world := w\<rparr>) = (res, s')"
      by (simp add: run_child_def hbind_hworld)
    from after_exit_one [OF this assms(2)] show ?thesis by (simp add: adds_one_def)
  next
    case (StreamError m)
    define w' where "w' = ce_kill E (ch_pid c) w"
    have "s' = s\<lparr>hr_events := hr_events s @ owed i (\<lambda>v. invoked_event E v ''failed'' (transcript_usage E v w) w), hr_world := w'\<rparr>"
      using assms(1) x StreamError by (auto simp: run_child_def hbind_hworld w'_def)
    then show ?thesis using owed_reports [OF assms(2), of "''failed''" E "\<lambda>v. transcript_usage E v w" w] by (auto simp: adds_one_def)
  next
    case StreamTimeout
    define w' where "w' = ce_kill E (ch_pid c) w"
    have "s' = s\<lparr>hr_events := hr_events s @ owed i (\<lambda>v. invoked_event E v ''timeout'' (transcript_usage E v w) w), hr_world := w'\<rparr>"
      using assms(1) x StreamTimeout by (auto simp: run_child_def hbind_hworld w'_def)
    then show ?thesis using owed_reports [OF assms(2), of "''timeout''" E "\<lambda>v. transcript_usage E v w" w] by (auto simp: adds_one_def)
  qed
qed

lemma run_child_count:
  assumes "run_child (counted E) n r g p budget i c t s = (res, s')"
  shows "fst (hr_world s') = fst (hr_world s)"
proof -
  obtain q e w where x: "run_streaming (counted E) budget c t (hr_world s) = ((q, e), w)" by (metis prod.exhaust)
  have w: "fst w = fst (hr_world s)" using run_streaming_count [of E budget c t "hr_world s"] x by simp
  show ?thesis
  proof (cases e)
    case (StreamEnd code st err)
    with assms(1) x have a: "after_exit (counted E) n r g p budget i q code st err (s\<lparr>hr_world := w\<rparr>) = (res, s')"
      by (simp add: run_child_def hbind_hworld)
    have "hr_world s' = w" using a by (auto simp: after_exit_def Let_def split: if_splits sum.splits)
    with w show ?thesis by simp
  qed (use assms(1) x w in \<open>auto simp: run_child_def hbind_hworld\<close>)
qed

text \<open>How an invocation goes: no process, or a process that was started with an event due or not.\<close>

lemma invoke_agent_cases:
  assumes "invoke_agent E n r g k p model budget cmd s = (res, s')"
  obtains (failed) x w1 t w2 w3 f where "ce_new_id E (hr_world s) = (x, w1)"
      "(case kx_run_dir k of Some d \<Rightarrow> create_transcript E (transcript_path d x) w1 | None \<Rightarrow> (None, w1)) = (t, w2)"
      "ce_start E cmd (nanos (agent_timeout n)) w2 = (Inl f, w3)"
      "res = Inl (spawn_failure n p f)" "s' = s\<lparr>hr_world := discard_transcript E t w3\<rparr>"
  | (started) x w1 t w2 w3 c where "ce_new_id E (hr_world s) = (x, w1)"
      "(case kx_run_dir k of Some d \<Rightarrow> create_transcript E (transcript_path d x) w1 | None \<Rightarrow> (None, w1)) = (t, w2)"
      "ce_start E cmd (nanos (agent_timeout n)) w2 = (Inr c, w3)"
      "run_child E n r g p budget (invocation_of k n p model x (ce_clock E w3)) c t (s\<lparr>hr_world := w3\<rparr>) = (res, s')"
proof -
  obtain x w1 where a: "ce_new_id E (hr_world s) = (x, w1)" by fastforce
  obtain t w2 where b: "(case kx_run_dir k of Some d \<Rightarrow> create_transcript E (transcript_path d x) w1 | None \<Rightarrow> (None, w1)) = (t, w2)"
    by fastforce
  obtain y w3 where c: "ce_start E cmd (nanos (agent_timeout n)) w2 = (y, w3)" by fastforce
  show thesis
  proof (cases y)
    case (Inl f)
    then show thesis using assms a b c failed [OF a b]
      by (cases "kx_run_dir k") (simp_all add: invoke_agent_def hbind_hworld)
  next
    case (Inr ch)
    then show thesis using assms a b c started [OF a b]
      by (cases "kx_run_dir k") (simp_all add: invoke_agent_def hbind_hworld)
  qed
qed

lemma invocation_of_node: "invocation_of k n p model x now = None \<or> iv_node (the (invocation_of k n p model x now)) = pn_id n"
  by (simp add: invocation_of_def split: option.split)

lemma invocation_of_due: "invocation_of k n p model x now \<noteq> None \<longleftrightarrow> kx_events k \<and> kx_run_dir k \<noteq> None"
  by (auto simp: invocation_of_def split: option.split)

definition started_between :: "(nat \<times> 'w) handler_run \<Rightarrow> (nat \<times> 'w) handler_run \<Rightarrow> nat" where
  "started_between s s' = fst (hr_world s') - fst (hr_world s)"

definition one_each :: "pipeline_node \<Rightarrow> bool \<Rightarrow> (nat \<times> 'w) handler_run \<Rightarrow> (nat \<times> 'w) handler_run \<Rightarrow> bool" where
  "one_each n due s s' \<longleftrightarrow>
     hr_ctx s' = hr_ctx s \<and> started_between s s' \<le> 1 \<and>
     (\<exists>evs. hr_events s' = hr_events s @ evs \<and> list_all (reports n) evs \<and>
        length evs = (if due then started_between s s' else 0))"

lemma invoke_agent_count:
  assumes "ce_new_id (counted E) (hr_world s) = (x, w1)"
      "(case kx_run_dir k of Some d \<Rightarrow> create_transcript (counted E) (transcript_path d x) w1 | None \<Rightarrow> (None, w1)) = (t, w2)"
      "ce_start (counted E) cmd (nanos (agent_timeout n)) w2 = (Inr c, w3)"
      "run_child (counted E) n r g p budget (invocation_of k n p model x (ce_clock (counted E) w3)) c t (s\<lparr>hr_world := w3\<rparr>) = (res, s')"
  shows "started_between s s' = 1"
proof -
  have "fst w1 = fst (hr_world s)" using counted_simps(4) [of E "hr_world s"] assms(1) by simp
  moreover have "fst w2 = fst w1" using assms(2) create_count [of E _ w1] by (cases "kx_run_dir k") (auto, metis snd_conv)
  moreover have "fst w3 = Suc (fst w2)" using counted_start [of E cmd _ w2] assms(3) by (metis fst_conv snd_conv old.sum.simps(6))
  moreover have "fst (hr_world s') = fst w3" using run_child_count [OF assms(4)] by simp
  ultimately show ?thesis by (simp add: started_between_def)
qed

lemma invoke_agent_one:
  assumes "invoke_agent (counted E) n r g k p model budget cmd s = (res, s')"
  shows "one_each n (kx_events k \<and> kx_run_dir k \<noteq> None) s s'"
  using assms
proof (cases rule: invoke_agent_cases)
  case (failed x w1 t w2 w3 f)
  have "fst w1 = fst (hr_world s)" using counted_simps(4) [of E "hr_world s"] failed(1) by simp
  moreover have "fst w2 = fst w1" using failed(2) create_count [of E _ w1] by (cases "kx_run_dir k") (auto, metis snd_conv)
  moreover have "fst w3 = fst w2" using counted_start [of E cmd _ w2] failed(3) by (metis fst_conv snd_conv old.sum.simps(5))
  ultimately have "fst (discard_transcript (counted E) t w3) = fst (hr_world s)" by (simp add: discard_count)
  then show ?thesis using failed(5) by (simp add: one_each_def started_between_def)
next
  case (started x w1 t w2 w3 c)
  then have "started_between s s' = 1" by (rule invoke_agent_count)
  moreover have "adds_one n (kx_events k \<and> kx_run_dir k \<noteq> None) (s\<lparr>hr_world := w3\<rparr>) s'"
    using run_child_one [OF started(4) invocation_of_node] invocation_of_due [of k n p model x] by simp
  ultimately show ?thesis unfolding one_each_def adds_one_def by auto
qed

lemma invoke_agent_started:
  assumes "invoke_agent (counted E) n r g k p model budget cmd s = (res, s')"
    and "\<And>c t w. \<exists>x. fst (ce_start E c t w) = Inr x"
  shows "started_between s s' = 1"
  using assms(1)
proof (cases rule: invoke_agent_cases)
  case (failed x w1 t w2 w3 f)
  have "fst (ce_start (counted E) cmd (nanos (agent_timeout n)) w2) = fst (ce_start E cmd (nanos (agent_timeout n)) (snd w2))"
    by (cases w2) (simp add: counted_def split: prod.split)
  with assms(2) [of cmd "nanos (agent_timeout n)" "snd w2"] failed(3) show ?thesis by auto
next
  case (started x w1 t w2 w3 c)
  then show ?thesis by (rule invoke_agent_count)
qed


section \<open>Where the budget stops a run\<close>

text \<open>What the hook has added up after some lines.\<close>

definition spent_after :: "'w codergen_env \<Rightarrow> f64 option \<Rightarrow> str list \<Rightarrow> f64 \<Rightarrow> f64" where
  "spent_after E budget ls spent = fold (hook_spent E budget) ls spent"

lemma spent_after_simps [simp]:
  "spent_after E budget [] spent = spent"
  "spent_after E budget (l # ls) spent = spent_after E budget ls (hook_spent E budget l spent)"
  by (simp_all add: spent_after_def)

text \<open>The first lines that were read, their costs, and that no line before the last of them ended the run.\<close>

definition read_up_to :: "'w codergen_env \<Rightarrow> f64 option \<Rightarrow> str list \<Rightarrow> streaming \<Rightarrow> nat \<Rightarrow> streaming \<Rightarrow> bool" where
  "read_up_to E budget ls s k s' \<longleftrightarrow>
     k \<le> length ls \<and> st_stdout s' = st_stdout s @ concat (take k ls) \<and>
     st_spent s' = spent_after E budget (take k ls) (st_spent s) \<and>
     list_all (\<lambda>j. \<not> hook_stops budget (spent_after E budget (take j ls) (st_spent s)))
       [1..<(if st_stopped s' then k else Suc k)] \<and>
     (if st_stopped s' then 0 < k \<and> hook_stops budget (st_spent s') else k = length ls)"

definition after_line :: "'w codergen_env \<Rightarrow> f64 option \<Rightarrow> str \<Rightarrow> streaming \<Rightarrow> transcript option \<Rightarrow> streaming" where
  "after_line E budget l s t =
     (let spent = hook_spent E budget l (st_spent s)
      in \<lparr>st_stopped = hook_stops budget spent, st_spent = spent, st_stdout = st_stdout s @ l, st_transcript = t\<rparr>)"

lemma after_line_simps [simp]:
  "st_stopped (after_line E budget l s t) = hook_stops budget (hook_spent E budget l (st_spent s))"
  "st_spent (after_line E budget l s t) = hook_spent E budget l (st_spent s)"
  "st_stdout (after_line E budget l s t) = st_stdout s @ l"
  "st_transcript (after_line E budget l s t) = t"
  by (simp_all add: after_line_def Let_def)

lemma stream_lines_Cons:
  assumes "append_transcript E l (st_transcript s) w = (t, w1)"
  shows "stream_lines E budget (l # ls) s w =
    (if st_stopped (after_line E budget l s t) then (after_line E budget l s t, w1)
     else stream_lines E budget ls (after_line E budget l s t) w1)"
  using assms by (simp add: after_line_def Let_def)

lemma list_all_upt: "list_all P [a..<b] \<longleftrightarrow> (\<forall>j. a \<le> j \<and> j < b \<longrightarrow> P j)"
  by (auto simp: list_all_iff)

lemma stream_lines_read:
  "stream_lines E budget ls s w = (s', w') \<Longrightarrow> \<not> st_stopped s \<Longrightarrow> \<exists>k. read_up_to E budget ls s k s'"
proof (induction ls arbitrary: s w)
  case Nil
  then show ?case by (intro exI [of _ 0]) (auto simp: read_up_to_def)
next
  case (Cons l ls)
  obtain t w1 where a: "append_transcript E l (st_transcript s) w = (t, w1)" by fastforce
  define s1 where "s1 = after_line E budget l s t"
  have run: "(if st_stopped s1 then (s1, w1) else stream_lines E budget ls s1 w1) = (s', w')"
    using Cons.prems(1) stream_lines_Cons [OF a] by (simp only: s1_def)
  show ?case
  proof (cases "st_stopped s1")
    case True
    then show ?thesis using run
      by (intro exI [of _ 1]) (auto simp: read_up_to_def s1_def)
  next
    case False
    then obtain k where k: "read_up_to E budget ls s1 k s'" using Cons.IH [of s1 w1] run by auto
    have "\<not> hook_stops budget (spent_after E budget (take j (l # ls)) (st_spent s))"
      if "1 \<le> j" "j < (if st_stopped s' then Suc k else Suc (Suc k))" for j
    proof (cases "j = 1")
      case True
      then show ?thesis using False by (simp add: s1_def)
    next
      case j: False
      with that(1) obtain i where i: "j = Suc i" "1 \<le> i" by (cases j) auto
      have "i < (if st_stopped s' then k else Suc k)" using that(2) i by (auto split: if_splits)
      then show ?thesis using k i by (simp add: read_up_to_def list_all_upt s1_def)
    qed
    then have "read_up_to E budget (l # ls) s (Suc k) s'"
      using k unfolding read_up_to_def list_all_upt by (auto simp: s1_def)
    then show ?thesis ..
  qed
qed

text \<open>
  Property C22. A run of pi is stopped at the first line that takes it over its budget, and not before: the output that is
  kept is that of the lines up to there, the costs added up are exactly theirs, after none of the lines before was the
  limit passed, and the process group is killed; a run that never passes the limit is read to its end.
\<close>

theorem budget_stops_exact:
  assumes "run_streaming E budget c t w = ((s, e), w')"
  shows "\<exists>k v. read_up_to E budget (ch_lines c) \<lparr>st_stopped = False, st_spent = f64_of_int 0, st_stdout = [], st_transcript = t\<rparr> k s
    \<and> (e, w') = (if st_stopped s then (ch_killed c, ce_kill E (ch_pid c) v) else (ch_ending c, v))"
proof -
  obtain q v where q: "stream_lines E budget (ch_lines c)
      \<lparr>st_stopped = False, st_spent = f64_of_int 0, st_stdout = [], st_transcript = t\<rparr> w = (q, v)" by fastforce
  have "s = q \<and> (e, w') = (if st_stopped s then (ch_killed c, ce_kill E (ch_pid c) v) else (ch_ending c, v))"
    using assms q by (auto simp: run_streaming_def split: if_splits)
  then show ?thesis using stream_lines_read [OF q] by auto
qed

section \<open>The Transcript\<close>

lemma starts_with_iff: "starts_with p s \<longleftrightarrow> (\<exists>r. s = p @ r)"
  by (metis append_eq_conv_conj starts_with_def)

lemma starts_with_self [simp]: "starts_with b b"
  by (simp add: starts_with_def)

lemma starts_with_take [simp]: "starts_with (take n b) b"
  by (metis append_take_drop_id starts_with_iff)

text \<open>
  What is appended to a Transcript while a run is streamed: nothing but a first part of the output, all of it
  unless a write failed. The law is that of a file system: what was put is there.
\<close>

lemma append_transcript_adds:
  assumes "\<And>fs w. ce_files E (ce_put_files E fs w) = fs" "append_transcript E b (Some x) w = (t, w1)"
    "ce_files E w (tx_path x) = Some old"
  shows "\<exists>y d. t = Some y \<and> tx_path y = tx_path x \<and> ce_files E w1 (tx_path x) = Some (old @ d) \<and> starts_with d b \<and>
    (tx_open y \<longrightarrow> tx_open x \<and> d = b) \<and> (tx_open x \<or> d = [])"
  using assms by (cases "ce_write_fault E (tx_path x) b w") (auto simp: append_transcript_def Let_def split: if_splits)

lemma stream_lines_transcript:
  assumes "\<And>fs w. ce_files E (ce_put_files E fs w) = fs"
  shows "stream_lines E budget ls s w = (s', w') \<Longrightarrow> st_transcript s = Some x \<Longrightarrow> ce_files E w (tx_path x) = Some old \<Longrightarrow>
    \<exists>y d e. st_transcript s' = Some y \<and> tx_path y = tx_path x \<and> ce_files E w' (tx_path x) = Some (old @ d) \<and>
      st_stdout s' = st_stdout s @ e \<and> starts_with d e \<and> (tx_open y \<longrightarrow> tx_open x \<and> d = e) \<and> (tx_open x \<or> d = [])"
proof (induction ls arbitrary: s w x old)
  case Nil
  then show ?case by (auto simp: starts_with_iff)
next
  case (Cons l ls)
  obtain t w1 where a: "append_transcript E l (st_transcript s) w = (t, w1)" by fastforce
  from append_transcript_adds [OF assms(1) a [unfolded Cons.prems(2)] Cons.prems(3)] obtain y d where
    y: "t = Some y" "tx_path y = tx_path x" "ce_files E w1 (tx_path x) = Some (old @ d)" "starts_with d l"
      "tx_open y \<longrightarrow> tx_open x \<and> d = l" "tx_open x \<or> d = []" by blast
  define s1 where "s1 = after_line E budget l s t"
  have run: "(if st_stopped s1 then (s1, w1) else stream_lines E budget ls s1 w1) = (s', w')"
    using Cons.prems(1) stream_lines_Cons [OF a] by (simp only: s1_def)
  show ?case
  proof (cases "st_stopped s1")
    case True
    then show ?thesis using run y by (intro exI [of _ y] exI [of _ d] exI [of _ l]) (auto simp: s1_def)
  next
    case False
    then have "stream_lines E budget ls s1 w1 = (s', w')" using run by simp
    from Cons.IH [OF this, of y "old @ d"] y obtain z f g where
      z: "st_transcript s' = Some z" "tx_path z = tx_path y" "ce_files E w' (tx_path y) = Some ((old @ d) @ f)"
        "st_stdout s' = st_stdout s1 @ g" "starts_with f g" "tx_open z \<longrightarrow> tx_open y \<and> f = g" "tx_open y \<or> f = []"
      by (auto simp: s1_def)
    have "starts_with (d @ f) (l @ g)" using y(4,5) z(5,7) by (cases "tx_open y") (auto simp: starts_with_iff)
    then show ?thesis using y z
      by (intro exI [of _ z] exI [of _ "d @ f"] exI [of _ "l @ g"]) (auto simp: s1_def)
  qed
qed

text \<open>
  Property C23. The Transcript is the output: a new Transcript, after the run is streamed, has a first part of the output
  that was read and nothing else, and all of it unless a write to it failed; a failed write is never followed by
  another, so there is no gap.
\<close>

theorem transcript_is_output:
  assumes "\<And>fs w. ce_files E (ce_put_files E fs w) = fs"
    and "create_transcript E p w = (Some x, w1)"
    and "stream_lines E budget ls \<lparr>st_stopped = False, st_spent = f64_of_int 0, st_stdout = [], st_transcript = Some x\<rparr> w1 = (s, w')"
  shows "\<exists>y d. st_transcript s = Some y \<and> ce_files E w' p = Some d \<and> starts_with d (st_stdout s) \<and>
    (\<not> tx_open y \<or> d = st_stdout s)"
proof -
  have x: "tx_path x = p" "ce_files E w1 p = Some []"
    using assms(2) by (auto simp: create_transcript_def assms(1) split: if_splits)
  from stream_lines_transcript [OF assms(1,3), of x "[]"] x obtain y d e where
    "st_transcript s = Some y" "ce_files E w' p = Some d" "st_stdout s = e" "starts_with d e" "tx_open y \<longrightarrow> d = e"
    by auto
  then show ?thesis by auto
qed

section \<open>The verdict of an agent\<close>

lemma extract_label_in: "extract_label response labels = Some l \<Longrightarrow> l \<in> set labels"
  by (auto simp: extract_label_def Let_def find_Some_iff in_set_conv_nth [symmetric] dest!: nth_mem split: option.splits)

lemma find_matching:
  assumes "e \<in> set es" "P e"
  obtains a f b where "es = a @ f # b" "P f" "list_all (\<lambda>x. \<not> P x) a" "List.find P es = Some f"
proof -
  from assms split_list_first_prop [of es P] obtain a f b where s: "es = a @ f # b" "P f" "\<forall>x \<in> set a. \<not> P x" by blast
  then have "List.find P es = Some f" by (induction a arbitrary: es) auto
  with s that show thesis by (auto simp: list_all_iff)
qed


section \<open>When an agent counts as successful\<close>

text \<open>
  A success of an agent is an answer that its provider's reader accepted, of a process that was not stopped; pi's
  also ended with exit code 0.
\<close>

theorem agent_success_meaning:
  assumes "run_child E n r g p budget i c t s = (Inr out, s')" and "status out = Success"
  obtains q code st err w ans where
    "run_streaming E budget c t (hr_world s) = ((q, StreamEnd code st err), w)" "\<not> st_stopped q"
    "p = Pi \<longrightarrow> exited_ok code"
    "parse_cli_output (ce_json E) p (utf8_lossy (st_stdout q)) (utf8_lossy err) (pn_id n) = Inr ans"
    "\<not> nr_is_error ans" "out_notes out = nr_text ans"
proof -
  obtain q e w where x: "run_streaming E budget c t (hr_world s) = ((q, e), w)" by (metis prod.exhaust)
  show thesis
  proof (cases e)
    case (StreamEnd code st err)
    with assms(1) x have "after_exit E n r g p budget i q code st err (s\<lparr>hr_world := w\<rparr>) = (Inr out, s')"
      by (simp add: run_child_def hbind_hworld)
    with that x StreamEnd assms(2) show thesis
      by (auto simp: after_exit_def Let_def agent_outcome_def stopped_result_def split: if_splits sum.splits)
  qed (use assms(1) x in \<open>auto simp: run_child_def hbind_hworld\<close>)
qed

end
