(* ===== verification/Codergen_Examples.thy ===== *)
theory Codergen_Examples
  imports Codergen_Props Handler_Examples
begin

text \<open>
  The theorems about agents at concrete inputs: a folder with one skill, and a program that writes three lines
  of JSON. The reader of JSON knows just these lines.
\<close>

section \<open>A skill\<close>

definition skill_entries :: "(str \<times> entry) list" where
  "skill_entries = [(''SKILL.md'', File ''use it''), (''bin'', Folder [(''run'', File ''go'')])]"

definition skill_path :: path where
  "skill_path = [slash, ''s'', ''lint'']"

definition example_prepare :: prepare_env where
  "example_prepare =
     \<lparr>pv_cwd = Inr [slash, ''w''], pv_canon = Inr, pv_resolve = \<lambda>_. Inl ManifestNotFound,
      pv_meta = \<lambda>p. if p = skill_path then Some (Folder skill_entries)
        else if p = join_name skill_path ''SKILL.md'' then Some (File ''use it'') else None,
      pv_meta_error = \<lambda>_. ''not found'', pv_fault = \<lambda>_. None, pv_read = \<lambda>_. Inl ''not found'', pv_blake3 = id\<rparr>"

definition agent_defaults :: agent_options where
  "agent_defaults =
     \<lparr>ao_skills = Some [skill_path], ao_pi_extensions = None, ao_pi_templates = None,
      ao_claude = \<lparr>cq_mode = None, cq_sources = None, cq_settings = None, cq_tools = None, cq_agents = None,
        cq_plugin_dirs = None, cq_mcp = None\<rparr>\<rparr>"

lemma example_prepared:
  "case prepare_run example_prepare (compiled_example None) default_options agent_defaults of
     ConfigOk (rc, a) \<Rightarrow> rv_value (ac_skills a) = [skill_path] | _ \<Rightarrow> False"
  by code_simp


lemma example_copied:
  "copy_tree (\<lambda>_. None) skill_path [''c''] skill_entries 0 =
     Inr ([(''SKILL.md'', File ''use it''), (''bin'', Folder [(''run'', File ''go'')])], 8)"
  by (simp add: copy_tree.simps skill_entries_def SKILL_COPY_CAP_BYTES_def u64_max_def skill_path_def Let_def)


definition full_disk :: copy_faults where
  "full_disk = no_faults\<lparr>cf_rename_in := Some ''no space''\<rparr>"

definition old_copy :: folder where
  "old_copy = [(PLUGIN_DIR, Folder [(''old'', File [])])]"

theorem skill_copy_never_partial_witness:
  "\<exists>r st. build_skill_copy example_prepare full_disk [slash, ''r''] [skill_path] (Some (Folder old_copy)) = (r, st) \<and>
     copy_outcome full_disk (fill_copy example_prepare (cf_path full_disk)
       (join_name (resources_dir [slash, ''r'']) PLUGIN_TMP) [skill_path]) old_copy r (entries_of st)"
proof -
  obtain r st where b: "build_skill_copy example_prepare full_disk [slash, ''r''] [skill_path] (Some (Folder old_copy)) = (r, st)"
    by fastforce
  have "hm_wf old_copy" by (simp add: old_copy_def hm_wf_def)
  from skill_copy_never_partial [OF b _ this] b show ?thesis by auto
qed

section \<open>A program\<close>

definition message_json :: json where
  "message_json = JObj [(''type'', JStr ''message_end''), (''message'', JObj
     [(''role'', JStr ''assistant''), (''content'', JStr ''all good''), (''stopReason'', JStr ''stop''),
      (''usage'', JObj [(''cost'', JObj [(''total'', JInt 1)])])])]"

definition example_reader :: json_reader where
  "example_reader =
     (let v = (\<lambda>s. if s = ''{m}'' then Inr message_json
               else if s = ''{e}'' then Inr (JObj [(''type'', JStr ''agent_end'')]) else Inl ''no JSON'')
      in \<lparr>jr_value = v, jr_slice = \<lambda>s. v (filter (\<lambda>c. c \<noteq> NL) s), jr_stream = \<lambda>_. [], jr_shape = \<lambda>_. ''shape''\<rparr>)"

definition pi_lines :: "str list" where
  "pi_lines = [''{m}'' @ [NL], ''{m}'' @ [NL], ''{e}'' @ [NL]]"

definition pi_child :: child where
  "pi_child = \<lparr>ch_pid = Some 7, ch_lines = pi_lines, ch_ending = StreamEnd (Some 0) ''exit status: 0'' [],
     ch_killed = StreamEnd None ''signal: 9'' []\<rparr>"

text \<open>The world is the files; only the name of the new Transcript can be asked for.\<close>

definition example_agent :: "fs codergen_env" where
  "example_agent =
     \<lparr>ce_start = \<lambda>_ _ w. (Inr pi_child, w), ce_kill = \<lambda>_ w. w, ce_new_id = \<lambda>w. (''i1'', w), ce_clock = \<lambda>_. 5,
      ce_json = example_reader, ce_json_text = \<lambda>_. [], ce_fmt2 = \<lambda>_. ''1.00'', ce_files = \<lambda>w. w, ce_put_files = \<lambda>f _. f,
      ce_create_fault = \<lambda>_ _. False, ce_write_fault = \<lambda>_ _ _. None, ce_readable = \<lambda>_ _. True, ce_is_dir = \<lambda>_ _. False,
      ce_resolve = \<lambda>_ _. Inl ManifestNotFound, ce_formats = \<lambda>_. [], ce_put_formats = \<lambda>_ w. w\<rparr>"

definition example_machine :: "fs host" where
  "example_machine =
     \<lparr>ho_output = \<lambda>_ w. (ProcessError True ''none'', w), ho_within = \<lambda>_ _ w. (SpawnFailed ''none'', w),
      ho_read = \<lambda>_ _. Inl NotFound, ho_mkdirs = \<lambda>_ w. (None, w), ho_write = \<lambda>_ _ w. (None, w), ho_codec = example_codec,
      ho_json = \<lambda>_. Inl ''none'', ho_shape = \<lambda>_. [], ho_quote = \<lambda>_. None, ho_debug = id, ho_fmt = \<lambda>_. [],
      ho_io_text = \<lambda>_. [], ho_order = id\<rparr>"

definition agent_node :: pipeline_node where
  "agent_node = (plain_node ''a'' ''box'')
     \<lparr>pn_llm_model := Some ''m/x'', pn_prompt := Some ''do it'', pn_raw := [(''max_budget_usd'', AString ''1.5'')]\<rparr>"

definition agent_resolved :: resolved_node where
  "agent_resolved = (plain_resolved ''a'' KTask HCodergen)\<lparr>rn_provider := Some Pi\<rparr>"

definition agent_run_controls :: codergen_controls where
  "agent_run_controls =
     \<lparr>kx_dry_run = False, kx_workdir = Some ''/w'', kx_claude = claude_cli_default, kx_pi = pi_cli_default,
      kx_run_dir = Some [slash, ''r''], kx_program = None, kx_events = True\<rparr>"

definition agent_start :: "(nat \<times> fs) handler_run" where
  "agent_start = \<lparr>hr_ctx = example_ctx, hr_events = [], hr_world = (0, \<lambda>_. None)\<rparr>"

definition agent_end :: "(error + outcome) \<times> (nat \<times> fs) handler_run" where
  "agent_end = execute_with_controls (counted_host example_machine) (counted example_agent) agent_node agent_resolved
     (pl_graph gate_plan) agent_run_controls agent_start"

lemma agent_started: "fst (hr_world (snd agent_end)) = 1"
proof -
  have m: "agent_model agent_node (pl_graph gate_plan) Pi = Inr (Some ''m/x'')" by code_simp
  have b: "pi_budget_limit agent_node = Inr (Some (f64_of_decimal False 15 1))" by code_simp
  have p: "rn_provider agent_resolved = Some Pi" "\<not> kx_dry_run agent_run_controls"
    by (simp_all add: agent_resolved_def agent_run_controls_def)
  obtain cmd where a: "agent_end = invoke_agent (counted example_agent) agent_node agent_resolved (pl_graph gate_plan)
      agent_run_controls Pi (Some ''m/x'') (Some (f64_of_decimal False 15 1)) cmd agent_start"
    using p by (simp add: agent_end_def execute_with_controls_def m b Let_def)
  have "\<exists>x. fst (ce_start example_agent c t w) = Inr x" for c t w by (simp add: example_agent_def)
  moreover obtain res s' where e: "agent_end = (res, s')" by fastforce
  ultimately have "started_between agent_start s' = 1" using invoke_agent_started [OF a [symmetric, unfolded e]] by blast
  then show ?thesis by (simp add: e started_between_def agent_start_def)
qed


text \<open>The second message takes the run over its budget: the third line is not read.\<close>

definition half_over :: f64 where
  "half_over = f64_of_decimal False 15 1"

lemma example_cost: "pi_message_end_cost example_reader (''{m}'' @ [NL]) = Some (f64_of_int 1)"
  by (simp add: pi_message_end_cost_def example_reader_def Let_def message_json_def dec_pi_line_def dec_pi_message_def
      dec_pi_usage_def optional_def dec_opt_field_def line_cost_def NL_def)

lemma half_over_second:
  "\<not> over_budget (f64_add (f64_of_int 0) (f64_of_int 1)) half_over"
  "over_budget (f64_add (f64_add (f64_of_int 0) (f64_of_int 1)) (f64_of_int 1)) half_over"
  by code_simp+

lemma example_stopped: "st_stopped (fst (fst (run_streaming example_agent (Some half_over) pi_child None (\<lambda>_. None))))"
  using example_cost half_over_second
  by (simp add: run_streaming_def pi_child_def pi_lines_def append_transcript_def hook_spent_def hook_stops_def spend_def
      example_agent_def Let_def)

theorem budget_stops_exact_witness:
  "\<exists>k s. read_up_to example_agent (Some half_over) pi_lines
     \<lparr>st_stopped = False, st_spent = f64_of_int 0, st_stdout = [], st_transcript = None\<rparr> k s \<and> st_stopped s \<and> 0 < k"
proof -
  obtain s e w' where r: "run_streaming example_agent (Some half_over) pi_child None (\<lambda>_. None) = ((s, e), w')"
    by (metis prod.exhaust)
  have stop: "st_stopped s" using example_stopped r by simp
  have "ch_lines pi_child = pi_lines" by (simp add: pi_child_def)
  with budget_stops_exact [OF r] obtain k where k: "read_up_to example_agent (Some half_over) pi_lines
     \<lparr>st_stopped = False, st_spent = f64_of_int 0, st_stdout = [], st_transcript = None\<rparr> k s" by auto
  then have "0 < k" using stop by (simp add: read_up_to_def)
  with k stop show ?thesis by blast
qed

theorem transcript_is_output_witness:
  "\<exists>s w'. stream_lines example_agent None pi_lines
     \<lparr>st_stopped = False, st_spent = f64_of_int 0, st_stdout = [], st_transcript = Some \<lparr>tx_path = [''t''], tx_open = True\<rparr>\<rparr>
     ((\<lambda>_. None)([''t''] \<mapsto> [])) = (s, w') \<and> w' [''t''] = Some (st_stdout s)"
proof -
  let ?x = "\<lparr>tx_path = [''t''], tx_open = True\<rparr>"
  let ?w1 = "(\<lambda>_. None)([''t''] \<mapsto> [])"
  have law: "ce_files example_agent (ce_put_files example_agent fs w) = fs" for fs w by (simp add: example_agent_def)
  have c: "create_transcript example_agent [''t''] (\<lambda>_. None) = (Some ?x, ?w1)"
    by (simp add: create_transcript_def example_agent_def)
  obtain s w' where r: "stream_lines example_agent None pi_lines
     \<lparr>st_stopped = False, st_spent = f64_of_int 0, st_stdout = [], st_transcript = Some ?x\<rparr> ?w1 = (s, w')" by fastforce
  have "st_transcript s = Some ?x"
    using r by (auto simp: pi_lines_def append_transcript_def example_agent_def hook_spent_def hook_stops_def)
  with transcript_is_output [OF law c r] have "ce_files example_agent w' [''t''] = Some (st_stdout s)" by auto
  then show ?thesis using r by (auto simp: example_agent_def)
qed

section \<open>A verdict\<close>

definition review_node :: pipeline_node where
  "review_node = plain_node ''r'' ''diamond''"

definition review_graph :: pipeline_graph where
  "review_graph = (pl_graph gate_plan)
     \<lparr>pg_edges := [(plain_edge ''r'' ''s'')\<lparr>pe_label := Some ''no''\<rparr>, (plain_edge ''r'' ''e'')\<lparr>pe_label := Some ''yes''\<rparr>],
      pg_adjacency := [(''r'', 0, 2)]\<rparr>"

definition review_answer :: cli_result where
  "review_answer = \<lparr>nr_text = ''looks fine'' @ nl @ '' YES '', nr_is_error = False, nr_cost = None, nr_turns = None,
     nr_usage = no_usage, nr_raw = []\<rparr>"

definition review_outcome :: outcome where
  "review_outcome = agent_outcome review_node (plain_resolved ''r'' (KConditional True) HCodergen) review_graph Claude False review_answer"

lemma review_label: "preferred_label review_outcome = Some ''yes''"
  by code_simp

lemma review_edges:
  "outgoing_edges review_graph ''r'' =
     [(plain_edge ''r'' ''s'')\<lparr>pe_label := Some ''no''\<rparr>, (plain_edge ''r'' ''e'')\<lparr>pe_label := Some ''yes''\<rparr>]"
  by code_simp


section \<open>Reading a verdict\<close>

text \<open>A label is found inside a word, too; and a later label on a line of its own wins over it.\<close>

lemma extract_label_examples:
  "extract_label ''it cannot pass'' [''yes'', ''no''] = Some ''no''"
  "extract_label (''cannot decide'' @ nl @ ''Yes'') [''no'', ''yes''] = Some ''yes''"
  "extract_label ''maybe'' [''yes'', ''no''] = None"
  by code_simp+

end
