(* ===== verification/Agent_Tools.thy ===== *)
theory Agent_Tools
  imports Provider_Output
begin

text \<open>
  What an agent of the in-process loop works with (\<open>attractor-tools\<close>: \<open>truncation.rs\<close>, \<open>tool.rs\<close>, \<open>profiles.rs\<close>,
  \<open>builtin\<close>): truncation of output, the registry, and the built-in tools on an execution environment.
\<close>

section \<open>Characters of a text\<close>

text \<open>The characters of UTF-8 text, each the list of its bytes.\<close>

function utf8_chars :: "str \<Rightarrow> str list" where
  "utf8_chars [] = []"
| "utf8_chars (c # s) = (c # takeWhile (\<lambda>b. \<not> lead_byte b) s) # utf8_chars (dropWhile (\<lambda>b. \<not> lead_byte b) s)"
  by pat_completeness auto
termination
  by (relation "measure length") (auto simp: le_imp_less_Suc length_dropWhile_le)

lemma concat_utf8_chars [simp]: "concat (utf8_chars s) = s"
  by (induction s rule: utf8_chars.induct) simp_all

lemma length_utf8_chars: "length (utf8_chars s) \<le> length s"
proof (induction s rule: utf8_chars.induct)
  case (2 c s)
  then show ?case using length_dropWhile_le [of "\<lambda>b. \<not> lead_byte b" s] by simp
qed simp

section \<open>Truncation\<close>

datatype truncation_mode = HeadTail | Tail

definition removed_from_middle :: "nat \<Rightarrow> str" where
  "removed_from_middle n = nl @ ''[WARNING: Output truncated. '' @ show_nat n @ '' characters removed from middle]'' @ nl"

definition removed_from_start :: "nat \<Rightarrow> str" where
  "removed_from_start n = nl @ ''[WARNING: Output truncated. '' @ show_nat n @ '' characters removed from start]'' @ nl"

definition truncate_output :: "str \<Rightarrow> nat \<Rightarrow> truncation_mode \<Rightarrow> str" where
  "truncate_output t max_chars mode =
     (if length t \<le> max_chars then t
      else let cs = utf8_chars t; total = length cs
           in if total \<le> max_chars then t
              else case mode of
                     HeadTail \<Rightarrow>
                       (let head_chars = max_chars * 40 div 100; tail_chars = max_chars - head_chars
                        in concat (take head_chars cs) @ removed_from_middle (total - max_chars)
                             @ concat (drop (total - tail_chars) cs))
                   | Tail \<Rightarrow>
                       (let skip = total - max_chars in removed_from_start skip @ concat (drop skip cs)))"

text \<open>
  Output within the limit is kept as it is. Otherwise whole characters are cut out in one place, the message says
  how many, and the characters that are kept are as many as allowed, in order - with the first and the last ones, or
  just the last ones.
\<close>

definition cut_out :: "str \<Rightarrow> nat \<Rightarrow> truncation_mode \<Rightarrow> str \<Rightarrow> bool" where
  "cut_out t max_chars mode r \<longleftrightarrow>
     (\<exists>a m b. utf8_chars t = a @ m @ b \<and> length a + length b = max_chars \<and> m \<noteq> [] \<and>
        (case mode of
           HeadTail \<Rightarrow> length a = max_chars * 40 div 100 \<and> r = concat a @ removed_from_middle (length m) @ concat b
         | Tail \<Rightarrow> a = [] \<and> r = removed_from_start (length m) @ concat b))"

lemma three_parts: "i \<le> j \<Longrightarrow> xs = take i xs @ drop i (take j xs) @ drop j xs"
  by (metis append_assoc append_take_drop_id min.absorb1 take_take)

text \<open>
  Truncation keeps exactly the allowed number of characters: output within the limit is unchanged; longer
  output loses one run of whole characters, from the middle or from the start, and the note says how many.
\<close>

theorem truncate_exact:
  "if length (utf8_chars t) \<le> max_chars then truncate_output t max_chars mode = t
   else cut_out t max_chars mode (truncate_output t max_chars mode)"
proof (cases "length (utf8_chars t) \<le> max_chars")
  case True
  then show ?thesis by (simp add: truncate_output_def Let_def)
next
  case False
  let ?cs = "utf8_chars t"
  let ?h = "max_chars * 40 div 100"
  have long: "\<not> length t \<le> max_chars" using False length_utf8_chars [of t] by simp
  have "cut_out t max_chars mode (truncate_output t max_chars mode)"
  proof (cases mode)
    case HeadTail
    define a m b where "a = take ?h ?cs" and "m = drop ?h (take (length ?cs - (max_chars - ?h)) ?cs)"
      and "b = drop (length ?cs - (max_chars - ?h)) ?cs"
    have h: "?h \<le> max_chars" by simp
    then have ij: "?h \<le> length ?cs - (max_chars - ?h)" "length ?cs - (max_chars - ?h) \<le> length ?cs" using False by linarith+
    have parts: "?cs = a @ m @ b" unfolding a_def m_def b_def by (rule three_parts [OF ij(1)])
    have l: "length a = ?h" "length b = max_chars - ?h" using ij h False by (simp_all add: a_def b_def)
    then have lm: "length m = length ?cs - max_chars" using arg_cong [OF parts, of length] h by simp
    have "truncate_output t max_chars mode = concat a @ removed_from_middle (length m) @ concat b"
      using HeadTail long False by (simp add: truncate_output_def Let_def a_def b_def lm)
    moreover have "m \<noteq> []" "length a + length b = max_chars" using lm False l h by auto
    ultimately show ?thesis unfolding cut_out_def using parts l(1) HeadTail
      by (intro exI [of _ a] exI [of _ m] exI [of _ b]) simp
  next
    case Tail
    define m b where "m = take (length ?cs - max_chars) ?cs" and "b = drop (length ?cs - max_chars) ?cs"
    have "?cs = [] @ m @ b" "length b = max_chars" "length m = length ?cs - max_chars"
      using False by (auto simp: m_def b_def)
    moreover have "truncate_output t max_chars mode = removed_from_start (length m) @ concat b"
      using Tail long False by (simp add: truncate_output_def Let_def m_def b_def)
    ultimately show ?thesis unfolding cut_out_def using False Tail
      by (intro exI [of _ "[]"] exI [of _ m] exI [of _ b]) auto
  qed
  with False show ?thesis by simp
qed

section \<open>Tools\<close>

text \<open>How running a tool ends: with its output, an error, or a panic.\<close>

datatype 'a ran =
    Ran 'a
  | Raised error
  | Panicked

record exec_result =
  er_stdout :: str
  er_stderr :: str
  er_code :: int

text \<open>The execution environment as the tools use it.\<close>

record 'w tool_env =
  te_read :: "str \<Rightarrow> 'w \<Rightarrow> (error + str) \<times> 'w"
  te_write :: "str \<Rightarrow> str \<Rightarrow> 'w \<Rightarrow> error option \<times> 'w"
  te_exec :: "str \<Rightarrow> nat \<Rightarrow> 'w \<Rightarrow> (error + exec_result) \<times> 'w"
  te_grep :: "str \<Rightarrow> str \<Rightarrow> bool \<Rightarrow> 'w \<Rightarrow> (error + str) \<times> 'w"
  te_glob :: "str \<Rightarrow> str \<Rightarrow> 'w \<Rightarrow> (error + str list) \<times> 'w"
  te_cwd :: str

text \<open>A tool: its name and what it does with the arguments and the default time limit of commands.\<close>

record 'w tool =
  tl_name :: str
  tl_run :: "json \<Rightarrow> nat option \<Rightarrow> 'w \<Rightarrow> str ran \<times> 'w"

type_synonym 'w tools = "'w tool hmap"

definition register_tool :: "'w tool \<Rightarrow> 'w tools \<Rightarrow> 'w tools" where
  "register_tool t ts = hm_insert (tl_name t) t ts"

definition unregister_tool :: "str \<Rightarrow> 'w tools \<Rightarrow> bool \<times> 'w tools" where
  "unregister_tool n ts = (hm_contains ts n, hm_remove n ts)"

definition needed :: "str \<Rightarrow> str \<Rightarrow> json \<Rightarrow> error + str" where
  "needed tool k j =
     (case value_str j k of Some s \<Rightarrow> Inr s | None \<Rightarrow> Inl (ToolError tool (k @ '' is required'')))"

definition value_u64 :: "json \<Rightarrow> str \<Rightarrow> nat option" where
  "value_u64 j k = Option.bind (value_get j k) json_as_u64"

definition value_bool :: "json \<Rightarrow> str \<Rightarrow> bool" where
  "value_bool j k = (case Option.bind (value_get j k) json_as_bool of Some b \<Rightarrow> b | None \<Rightarrow> False)"

section \<open>Reading a file\<close>

text \<open>
  The selected lines; \<^const>\<open>None\<close> is the panic of a range that begins after it ends - also where the end would
  overflow, since it then wraps to less than the start.
\<close>

definition select_lines :: "nat option \<Rightarrow> nat \<Rightarrow> str list \<Rightarrow> (nat \<times> str list) option" where
  "select_lines offset limit ls =
     (let start = (case offset of Some n \<Rightarrow> n | None \<Rightarrow> 1) - 1; end_line = min (start + limit) (length ls)
      in if u64_max < start + limit \<or> end_line < start then None else Some (start, take (end_line - start) (drop start ls)))"

definition pad_left :: "nat \<Rightarrow> str \<Rightarrow> str" where
  "pad_left n s = replicate (n - length s) (CHR '' '') @ s"

definition numbered_lines :: "nat \<Rightarrow> str list \<Rightarrow> str list" where
  "numbered_lines start ls =
     (let end_line = start + length ls; width = (if end_line = 0 then 1 else length (show_nat end_line))
      in map (\<lambda>(i, l). pad_left width (show_nat i) @ '' | '' @ l) (zip [start + 1..<start + 1 + length ls] ls))"

definition read_file_tool :: "'w tool_env \<Rightarrow> 'w tool" where
  "read_file_tool T =
     \<lparr>tl_name = ''read_file'',
      tl_run = \<lambda>j timeout w.
        (case needed ''read_file'' ''file_path'' j of
           Inl e \<Rightarrow> (Raised e, w)
         | Inr p \<Rightarrow>
             (let offset = value_u64 j ''offset''; limit = (case value_u64 j ''limit'' of Some n \<Rightarrow> n | None \<Rightarrow> 2000);
                  (r, w1) = te_read T p w
              in (case r of
                    Inl e \<Rightarrow> Raised e
                  | Inr content \<Rightarrow>
                      (case select_lines offset limit (str_lines content) of
                         None \<Rightarrow> Panicked
                       | Some (start, ls) \<Rightarrow> Ran (truncate_output (join nl (numbered_lines start ls)) 50000 HeadTail)), w1)))\<rparr>"

lemma select_lines_exact:
  assumes "select_lines offset limit ls = Some (start, sel)"
  shows "start = (case offset of Some n \<Rightarrow> n | None \<Rightarrow> 1) - 1 \<and> length sel \<le> limit \<and> start + length sel \<le> length ls \<and>
    sel = take limit (drop start ls)"
  using assms by (auto simp: select_lines_def Let_def min_def split: if_splits option.splits)

text \<open>An offset just behind the last line gives nothing; one line more is a panic.\<close>

lemma read_past_end:
  "1 \<le> n \<Longrightarrow> limit < 2 ^ 32 \<Longrightarrow> n < 2 ^ 32 \<Longrightarrow> select_lines (Some n) limit ls = None \<longleftrightarrow> length ls + 1 < n"
  by (auto simp: select_lines_def Let_def u64_max_def)

section \<open>Editing a file\<close>

text \<open>\<open>str::replacen\<close> with a count of one.\<close>

definition replace_first :: "str \<Rightarrow> str \<Rightarrow> str \<Rightarrow> str" where
  "replace_first p r s =
     (case split_on p s of a # b # rest \<Rightarrow> a @ r @ join p (b # rest) | _ \<Rightarrow> s)"

text \<open>The lines on which the occurrences begin.\<close>

fun occurrence_lines :: "nat \<Rightarrow> str \<Rightarrow> str list \<Rightarrow> nat list" where
  "occurrence_lines line p (a # b # rest) =
     (let here = line + count_list a NL in here # occurrence_lines (here + count_list p NL) p (b # rest))"
| "occurrence_lines line p _ = []"

definition found_times :: "str \<Rightarrow> str \<Rightarrow> nat list \<Rightarrow> str" where
  "found_times n p lines =
     ''old_string found '' @ n @ '' times in '' @ p @ '' (at lines: ['' @ join '', '' (map show_nat lines)
       @ '']). Use replace_all=true to replace all occurrences.''"

definition edited :: "str \<Rightarrow> str \<Rightarrow> str \<Rightarrow> bool \<Rightarrow> str \<Rightarrow> error + str \<times> nat" where
  "edited path old_string new_string replace_all content =
     (let match_count = length (split_on old_string content) - 1
      in if old_string = [] then Inl (ToolError ''edit_file'' ''old_string must not be empty'')
         else if match_count = 0 then Inl (ToolError ''edit_file'' (''old_string not found in '' @ path))
         else if 1 < match_count \<and> \<not> replace_all
         then Inl (ToolError ''edit_file'' (found_times (show_nat match_count) path
           (occurrence_lines 1 old_string (split_on old_string content))))
         else Inr (if replace_all then replace_str old_string new_string content
                   else replace_first old_string new_string content, if replace_all then match_count else 1))"

definition edit_file :: "'w tool_env \<Rightarrow> str \<Rightarrow> str \<Rightarrow> str \<Rightarrow> bool \<Rightarrow> 'w \<Rightarrow> str ran \<times> 'w" where
  "edit_file T path old_string new_string replace_all w =
     (let (r, w1) = te_read T path w
      in case r of
           Inl e \<Rightarrow> (Raised e, w1)
         | Inr content \<Rightarrow>
             (case edited path old_string new_string replace_all content of
                Inl e \<Rightarrow> (Raised e, w1)
              | Inr (new, n) \<Rightarrow>
                  (let (e, w2) = te_write T path new w1
                   in (case e of
                         Some x \<Rightarrow> Raised x
                       | None \<Rightarrow> Ran (''Successfully replaced '' @ show_nat n @ '' occurrence(s) in '' @ path), w2))))"

definition edit_file_tool :: "'w tool_env \<Rightarrow> 'w tool" where
  "edit_file_tool T =
     \<lparr>tl_name = ''edit_file'',
      tl_run = \<lambda>j timeout w.
        (case rbind (needed ''edit_file'' ''file_path'' j) (\<lambda>p.
              rbind (needed ''edit_file'' ''old_string'' j) (\<lambda>a.
              rbind (needed ''edit_file'' ''new_string'' j) (\<lambda>b. Inr (p, a, b)))) of
           Inl e \<Rightarrow> (Raised e, w)
         | Inr (p, a, b) \<Rightarrow> edit_file T p a b (value_bool j ''replace_all'') w)\<rparr>"

section \<open>The other tools\<close>

definition write_file_tool :: "'w tool_env \<Rightarrow> 'w tool" where
  "write_file_tool T =
     \<lparr>tl_name = ''write_file'',
      tl_run = \<lambda>j timeout w.
        (case rbind (needed ''write_file'' ''file_path'' j) (\<lambda>p.
              rbind (needed ''write_file'' ''content'' j) (\<lambda>c. Inr (p, c))) of
           Inl e \<Rightarrow> (Raised e, w)
         | Inr (p, c) \<Rightarrow>
             (let (e, w1) = te_write T p c w
              in (case e of
                    Some x \<Rightarrow> Raised x
                  | None \<Rightarrow> Ran (''Successfully wrote '' @ show_nat (length c) @ '' bytes to '' @ p), w1)))\<rparr>"

definition shell_tool :: "'w tool_env \<Rightarrow> 'w tool" where
  "shell_tool T =
     \<lparr>tl_name = ''shell'',
      tl_run = \<lambda>j timeout w.
        (case needed ''shell'' ''command'' j of
           Inl e \<Rightarrow> (Raised e, w)
         | Inr c \<Rightarrow>
             (let limit = (case or_else (value_u64 j ''timeout_ms'') timeout of Some n \<Rightarrow> n | None \<Rightarrow> 10000);
                  (r, w1) = te_exec T c limit w
              in (case r of
                    Inl e \<Rightarrow> Raised e
                  | Inr x \<Rightarrow> Ran (truncate_output
                      (''Exit code: '' @ show_int (er_code x) @ nl @ ''Stdout:'' @ nl @ er_stdout x @ nl @ ''Stderr:'' @ nl @ er_stderr x)
                      30000 HeadTail), w1)))\<rparr>"

definition path_argument :: "'w tool_env \<Rightarrow> json \<Rightarrow> str" where
  "path_argument T j = (case value_str j ''path'' of Some p \<Rightarrow> p | None \<Rightarrow> te_cwd T)"

definition grep_tool :: "'w tool_env \<Rightarrow> 'w tool" where
  "grep_tool T =
     \<lparr>tl_name = ''grep'',
      tl_run = \<lambda>j timeout w.
        (case needed ''grep'' ''pattern'' j of
           Inl e \<Rightarrow> (Raised e, w)
         | Inr p \<Rightarrow>
             (let (r, w1) = te_grep T p (path_argument T j) (value_bool j ''case_insensitive'') w
              in (case r of Inl e \<Rightarrow> Raised e | Inr x \<Rightarrow> Ran (truncate_output x 20000 Tail), w1)))\<rparr>"

definition glob_tool :: "'w tool_env \<Rightarrow> 'w tool" where
  "glob_tool T =
     \<lparr>tl_name = ''glob'',
      tl_run = \<lambda>j timeout w.
        (case needed ''glob'' ''pattern'' j of
           Inl e \<Rightarrow> (Raised e, w)
         | Inr p \<Rightarrow>
             (let (r, w1) = te_glob T p (path_argument T j) w
              in (case r of Inl e \<Rightarrow> Raised e | Inr ps \<Rightarrow> Ran (truncate_output (join nl ps) 20000 Tail), w1)))\<rparr>"

definition builtin_tools :: "'w tool_env \<Rightarrow> 'w tools" where
  "builtin_tools T =
     map (\<lambda>t. (tl_name t, t))
       [read_file_tool T, write_file_tool T, edit_file_tool T, shell_tool T, grep_tool T, glob_tool T]"

text \<open>The profiles of the three providers name the same tools; a name that is no built-in tool is skipped.\<close>

definition profile_tools :: "str list" where
  "profile_tools = [''read_file'', ''write_file'', ''edit_file'', ''shell'', ''grep'', ''glob'']"

definition build_registry :: "'w tool_env \<Rightarrow> str list \<Rightarrow> 'w tools" where
  "build_registry T names =
     fold (\<lambda>n ts. case hm_get (builtin_tools T) n of Some t \<Rightarrow> register_tool t ts | None \<Rightarrow> ts) names []"

section \<open>An edit changes one place\<close>

lemma split_go_replace: "p \<noteq> [] \<Longrightarrow> split_on p s = a # b # rest \<Longrightarrow> s = a @ p @ join p (b # rest)"
  using join_split_on [of p s] by simp

lemma replace_first_split:
  assumes "split_on p s = [a, b]"
  shows "s = a @ p @ b \<and> replace_first p r s = a @ r @ b"
  using join_split_on [of p s] assms by (simp add: replace_first_def)

text \<open>
  An edit without \<open>replace_all\<close> changes exactly one place: when it says that it replaced something, the file
  that was read has the text at one place only, what is written has the new text there and is otherwise the same,
  and an edit that is refused writes nothing.
\<close>

theorem edit_changes_one_place:
  assumes "edit_file T path old_string new_string False w = (r, w')" "te_read T path w = (Inr content, w1)"
  shows "case r of
      Raised e \<Rightarrow> w' = w1 \<or> (\<exists>new. te_write T path new w1 = (Some e, w'))
    | Ran t \<Rightarrow> (\<exists>a b. content = a @ old_string @ b \<and> split_on old_string content = [a, b] \<and>
        te_write T path (a @ new_string @ b) w1 = (None, w'))
    | Panicked \<Rightarrow> False"
proof (cases "edited path old_string new_string False content")
  case (Inl e)
  with assms show ?thesis by (auto simp: edit_file_def)
next
  case (Inr p)
  then have count: "length (split_on old_string content) - 1 = 1" and p: "p = (replace_first old_string new_string content, 1)"
    by (auto simp: edited_def Let_def split: if_splits)
  then have "length (split_on old_string content) = Suc (Suc 0)" by simp
  then obtain a b where s: "split_on old_string content = [a, b]" by (auto simp: length_Suc_conv)
  note split = replace_first_split [OF s, of new_string]
  from assms Inr p split have "(case fst (te_write T path (a @ new_string @ b) w1) of
        Some x \<Rightarrow> r = Raised x | None \<Rightarrow> (\<exists>t. r = Ran t)) \<and> w' = snd (te_write T path (a @ new_string @ b) w1)"
    by (auto simp: edit_file_def Let_def split: prod.splits option.splits)
  then show ?thesis using s split
    by (cases "te_write T path (a @ new_string @ b) w1") (auto split: option.splits)
qed

lemma built_in_names: "map fst (builtin_tools T) = profile_tools"
  by (simp add: builtin_tools_def profile_tools_def read_file_tool_def write_file_tool_def edit_file_tool_def shell_tool_def
      grep_tool_def glob_tool_def)

text \<open>A world that is one file.\<close>

definition one_file :: "str tool_env" where
  "one_file =
     \<lparr>te_read = \<lambda>p w. (Inr w, w), te_write = \<lambda>p t w. (None, t), te_exec = \<lambda>_ _ w. (Inr \<lparr>er_stdout = [], er_stderr = [], er_code = 0\<rparr>, w),
      te_grep = \<lambda>_ _ _ w. (Inr [], w), te_glob = \<lambda>_ _ w. (Inr [], w), te_cwd = ''/w''\<rparr>"

lemma edit_examples:
  "edit_file one_file ''f'' ''b'' ''xy'' False ''abc'' = (Ran ''Successfully replaced 1 occurrence(s) in f'', ''axyc'')"
  "snd (edit_file one_file ''f'' ''b'' ''xy'' False ''abcb'') = ''abcb''"
  "edited ''f'' ''b'' ''x'' False (''ab'' @ nl @ ''cb'') =
     Inl (ToolError ''edit_file'' (''old_string found 2 times in f (at lines: [1, 2]). ''
       @ ''Use replace_all=true to replace all occurrences.''))"
  by code_simp+

theorem edit_changes_one_place_witness:
  "\<exists>a b. ''abc'' = a @ ''b'' @ b \<and> snd (edit_file one_file ''f'' ''b'' ''xy'' False ''abc'') = a @ ''xy'' @ b"
proof -
  have "te_read one_file ''f'' ''abc'' = (Inr ''abc'', ''abc'')" by (simp add: one_file_def)
  from edit_changes_one_place [OF edit_examples(1) this] obtain a b where
    c: "''abc'' = a @ ''b'' @ b" and w: "te_write one_file ''f'' (a @ ''xy'' @ b) ''abc'' = (None, ''axyc'')" by auto
  from w have "snd (edit_file one_file ''f'' ''b'' ''xy'' False ''abc'') = a @ ''xy'' @ b"
    unfolding edit_examples(1) by (simp add: one_file_def)
  with c show ?thesis by blast
qed

end
