(* ===== verification/Agent_Session.thy ===== *)
theory Agent_Session
  imports Agent_Tools
begin

text \<open>
  The in-process agent loop (\<open>attractor-agent\<close>, \<open>lib.rs\<close> and \<open>loop_detection.rs\<close>): a conversation with an LLM that
  calls tools, in rounds, with follow-ups, steering and the detection of loops. The client of the LLM, the hash of a
  signature and JSON text are parameters.
\<close>

section \<open>Loops of calls\<close>

record loop_detector =
  ld_window :: nat
  ld_recent :: "str list"

definition new_detector :: "nat \<Rightarrow> loop_detector" where
  "new_detector n = \<lparr>ld_window = n, ld_recent = []\<rparr>"

definition call_signature :: "(str \<Rightarrow> nat) \<Rightarrow> (json \<Rightarrow> str) \<Rightarrow> str \<Rightarrow> json \<Rightarrow> str" where
  "call_signature hash json_text tool args = tool @ '':'' @ show_nat (hash (json_text args))"

definition record_and_check :: "str \<Rightarrow> loop_detector \<Rightarrow> bool \<times> loop_detector" where
  "record_and_check sig d =
     (if ld_window d = 0 then (False, d)
      else let calls = ld_recent d @ [sig]; recent = drop (length calls - ld_window d) calls
           in (ld_window d \<le> length recent \<and> list_all (\<lambda>s. s = hd recent) recent, d\<lparr>ld_recent := recent\<rparr>))"

definition reset_detector :: "loop_detector \<Rightarrow> loop_detector" where
  "reset_detector d = d\<lparr>ld_recent := []\<rparr>"

definition loop_detected_message :: "str \<Rightarrow> nat \<Rightarrow> str" where
  "loop_detected_message tool n =
     ''WARNING: You have called the '' @ sq tool @ '' tool '' @ show_nat n @ '' times in a row with the same arguments. '' @
     ''This appears to be a loop. Please try a different approach or tool.''"

definition refocus_message :: "str \<Rightarrow> str" where
  "refocus_message goal =
     ''Please refocus on the current goal: '' @ goal @ ''. '' @
     ''Consider what steps are still needed and take a different approach.''"

text \<open>All signatures recorded since the detector was made or reset.\<close>

fun record_all :: "str list \<Rightarrow> loop_detector \<Rightarrow> bool \<times> loop_detector" where
  "record_all [] d = (False, d)"
| "record_all [s] d = record_and_check s d"
| "record_all (s # t # ss) d = record_all (t # ss) (snd (record_and_check s d))"

section \<open>The conversation\<close>

record tool_call =
  tc_id :: str
  tc_name :: str
  tc_arguments :: json

record tool_result =
  tr_id :: str
  tr_name :: str
  tr_content :: str
  tr_is_error :: bool

datatype turn =
    UserTurn str
  | AssistantTurn str "tool_call list"
  | ToolResults "tool_result list"
  | SystemTurn str
  | SteeringTurn str

datatype session_state = Idle | Processing | AwaitingInput | Closed

record session_config =
  sc_model :: str
  sc_prompt :: str
  sc_max_turns :: nat
  sc_max_rounds :: nat
  sc_timeout :: nat
  sc_detect :: bool
  sc_window :: nat

definition default_session :: session_config where
  "default_session =
     \<lparr>sc_model = ''claude-sonnet-4-5-20250929'', sc_prompt = ''You are a helpful coding assistant.'', sc_max_turns = 0,
      sc_max_rounds = 200, sc_timeout = 10000, sc_detect = True, sc_window = 10\<rparr>"

datatype llm_role = RoleSystem | RoleUser | RoleAssistant | RoleTool

datatype content_part =
    TextPart str
  | CallPart str str json
  | ResultPart str str str bool

record llm_message =
  lm_role :: llm_role
  lm_content :: "content_part list"
  lm_call_id :: "str option"

record llm_request =
  lq_model :: str
  lq_messages :: "llm_message list"
  lq_tools :: "str list"

record llm_response =
  lr_text :: str
  lr_calls :: "tool_call list"

definition text_message :: "llm_role \<Rightarrow> str \<Rightarrow> llm_message" where
  "text_message r s = \<lparr>lm_role = r, lm_content = [TextPart s], lm_call_id = None\<rparr>"

definition result_message :: "tool_result \<Rightarrow> llm_message" where
  "result_message r =
     \<lparr>lm_role = RoleTool, lm_content = [ResultPart (tr_id r) (tr_name r) (tr_content r) (tr_is_error r)],
      lm_call_id = Some (tr_id r)\<rparr>"

fun turn_messages :: "turn \<Rightarrow> llm_message list" where
  "turn_messages (UserTurn s) = [text_message RoleUser s]"
| "turn_messages (AssistantTurn s cs) =
     [\<lparr>lm_role = RoleAssistant,
       lm_content = (if s = [] then [] else [TextPart s]) @ map (\<lambda>c. CallPart (tc_id c) (tc_name c) (tc_arguments c)) cs,
       lm_call_id = None\<rparr>]"
| "turn_messages (ToolResults rs) = map result_message rs"
| "turn_messages (SystemTurn s) = [text_message RoleSystem s]"
| "turn_messages (SteeringTurn s) = [text_message RoleSystem s]"

text \<open>The surroundings: the client of the LLM, the registered tools, the hash and the text of arguments.\<close>

record 'w session_env =
  sv_complete :: "llm_request \<Rightarrow> 'w \<Rightarrow> (error + llm_response) \<times> 'w"
  sv_tools :: "'w tools"
  sv_hash :: "str \<Rightarrow> nat"
  sv_json_text :: "json \<Rightarrow> str"
  sv_fmt2 :: "f64 \<Rightarrow> str"

record 'w session =
  sn_history :: "turn list"
  sn_state :: session_state
  sn_steering :: "str list"
  sn_followups :: "str list"
  sn_turns :: nat
  sn_detector :: "loop_detector option"
  sn_world :: 'w

definition new_session :: "session_config \<Rightarrow> 'w \<Rightarrow> 'w session" where
  "new_session cfg w =
     \<lparr>sn_history = [], sn_state = Idle, sn_steering = [], sn_followups = [], sn_turns = 0,
      sn_detector = (if sc_detect cfg then Some (new_detector (sc_window cfg)) else None), sn_world = w\<rparr>"

definition steer :: "str \<Rightarrow> 'w session \<Rightarrow> 'w session" where
  "steer m s = s\<lparr>sn_steering := sn_steering s @ [m]\<rparr>"

definition follow_up :: "str \<Rightarrow> 'w session \<Rightarrow> 'w session" where
  "follow_up m s = s\<lparr>sn_followups := sn_followups s @ [m]\<rparr>"

definition drain_steering :: "'w session \<Rightarrow> 'w session" where
  "drain_steering s = s\<lparr>sn_history := sn_history s @ map SteeringTurn (sn_steering s), sn_steering := []\<rparr>"

definition add_turn :: "turn \<Rightarrow> 'w session \<Rightarrow> 'w session" where
  "add_turn t s = s\<lparr>sn_history := sn_history s @ [t]\<rparr>"

definition build_request :: "'w session_env \<Rightarrow> session_config \<Rightarrow> turn list \<Rightarrow> llm_request" where
  "build_request E cfg ts =
     \<lparr>lq_model = sc_model cfg,
      lq_messages = (if sc_prompt cfg = [] then [] else [text_message RoleSystem (sc_prompt cfg)]) @ concat (map turn_messages ts),
      lq_tools = map tl_name (hm_values (sv_tools E))\<rparr>"

section \<open>Calls of tools\<close>

definition MAX_TOOL_OUTPUT_LEN :: nat where "MAX_TOOL_OUTPUT_LEN = 30000"

text \<open>Output over the limit is cut after so many bytes; within a character this is a panic.\<close>

definition cut_tool_output :: "str \<Rightarrow> str ran" where
  "cut_tool_output t =
     (if length t \<le> MAX_TOOL_OUTPUT_LEN then Ran t
      else if \<not> char_boundary t MAX_TOOL_OUTPUT_LEN then Panicked
      else Ran (take MAX_TOOL_OUTPUT_LEN t @ nl @ nl @ ''[WARNING: Output truncated. ''
             @ show_nat (length t - MAX_TOOL_OUTPUT_LEN) @ '' characters removed.]''))"

lemma cut_panics:
  assumes "length a = 29999"
  shows "cut_tool_output (a @ [CHR 0xC3, CHR 0xA9]) = Panicked"
  using assms by (simp add: cut_tool_output_def MAX_TOOL_OUTPUT_LEN_def char_boundary_def nth_append lead_byte_def)

definition watch_call :: "'w session_env \<Rightarrow> session_config \<Rightarrow> tool_call \<Rightarrow> 'w session \<Rightarrow> 'w session" where
  "watch_call E cfg c s =
     (case sn_detector s of
        None \<Rightarrow> s
      | Some d \<Rightarrow>
          (let (found, d1) = record_and_check (call_signature (sv_hash E) (sv_json_text E) (tc_name c) (tc_arguments c)) d
           in if found
              then steer (loop_detected_message (tc_name c) (sc_window cfg)) (s\<lparr>sn_detector := Some (reset_detector d1)\<rparr>)
              else s\<lparr>sn_detector := Some d1\<rparr>))"

definition run_tool_call :: "'w session_env \<Rightarrow> session_config \<Rightarrow> tool_call \<Rightarrow> 'w \<Rightarrow> (str \<times> bool) option \<times> 'w" where
  "run_tool_call E cfg c w =
     (case hm_get (sv_tools E) (tc_name c) of
        None \<Rightarrow> (Some (''Unknown tool: '' @ tc_name c, True), w)
      | Some t \<Rightarrow>
          (let (r, w1) = tl_run t (tc_arguments c) (Some (sc_timeout cfg)) w
           in (case r of
                 Panicked \<Rightarrow> None
               | Raised e \<Rightarrow> Some (''Error: '' @ error_display (sv_fmt2 E) e, True)
               | Ran out1 \<Rightarrow> (case cut_tool_output out1 of Ran x \<Rightarrow> Some (x, False) | _ \<Rightarrow> None), w1)))"

text \<open>The calls of a turn, in order; \<^const>\<open>None\<close> is a panic.\<close>

fun execute_tool_calls ::
  "'w session_env \<Rightarrow> session_config \<Rightarrow> tool_call list \<Rightarrow> 'w session \<Rightarrow> tool_result list option \<times> 'w session" where
  "execute_tool_calls E cfg [] s = (Some [], s)"
| "execute_tool_calls E cfg (c # cs) s =
     (let s1 = watch_call E cfg c s; (r, w) = run_tool_call E cfg c (sn_world s1); s2 = s1\<lparr>sn_world := w\<rparr>
      in case r of
           None \<Rightarrow> (None, s2)
         | Some (content, is_error) \<Rightarrow>
             (let (rs, s3) = execute_tool_calls E cfg cs s2
              in (map_option (\<lambda>rs. \<lparr>tr_id = tc_id c, tr_name = tc_name c, tr_content = content, tr_is_error = is_error\<rparr> # rs) rs, s3)))"

section \<open>The loop\<close>

text \<open>The rounds that are left, and the text of the last answer.\<close>

fun tool_rounds :: "'w session_env \<Rightarrow> session_config \<Rightarrow> nat \<Rightarrow> str \<Rightarrow> 'w session \<Rightarrow> str ran \<times> 'w session" where
  "tool_rounds E cfg 0 t s = (Ran t, s)"
| "tool_rounds E cfg (Suc k) t s =
     (let (r, w) = sv_complete E (build_request E cfg (sn_history s)) (sn_world s); s1 = s\<lparr>sn_world := w\<rparr>
      in case r of
           Inl e \<Rightarrow> (Raised e, s1)
         | Inr a \<Rightarrow>
             (let s2 = add_turn (AssistantTurn (lr_text a) (lr_calls a)) s1
              in if lr_calls a = [] \<or> k = 0 then (Ran (lr_text a), s2)
                 else (let (rs, s3) = execute_tool_calls E cfg (lr_calls a) s2
                       in case rs of
                            None \<Rightarrow> (Panicked, s3)
                          | Some results \<Rightarrow>
                              tool_rounds E cfg k (lr_text a) (drain_steering (add_turn (ToolResults results) s3)))))"

text \<open>The input and the steering that waits are added to the conversation.\<close>

definition with_input :: "str \<Rightarrow> 'w session \<Rightarrow> 'w session" where
  "with_input i s = drain_steering (add_turn (UserTurn i) (s\<lparr>sn_turns := sn_turns s + 1, sn_state := Processing\<rparr>))"

definition process_single_input :: "'w session_env \<Rightarrow> session_config \<Rightarrow> str \<Rightarrow> 'w session \<Rightarrow> str ran \<times> 'w session" where
  "process_single_input E cfg input s =
     (let n = sn_turns s + 1
      in if 0 < sc_max_turns cfg \<and> sc_max_turns cfg < n then (Raised (TurnLimitReached n), s\<lparr>sn_turns := n\<rparr>)
         else (let (r, s1) = tool_rounds E cfg (sc_max_rounds cfg) [] (with_input input s)
               in case r of Ran t \<Rightarrow> (Ran t, s1\<lparr>sn_state := AwaitingInput\<rparr>) | _ \<Rightarrow> (r, s1)))"

lemma session_frames [simp]:
  "sn_followups (drain_steering s) = sn_followups s" "sn_followups (add_turn t s) = sn_followups s"
  "sn_followups (steer m s) = sn_followups s"
  "sn_history (steer m s) = sn_history s" "sn_history (add_turn t s) = sn_history s @ [t]"
  "sn_history (drain_steering s) = sn_history s @ map SteeringTurn (sn_steering s)"
  by (simp_all add: drain_steering_def add_turn_def steer_def)

lemma watch_call_frames [simp]:
  "sn_followups (watch_call E cfg c s) = sn_followups s" "sn_history (watch_call E cfg c s) = sn_history s"
  by (simp_all add: watch_call_def split: option.split prod.split)

lemma execute_tool_calls_frames:
  "execute_tool_calls E cfg cs s = (r, s') \<Longrightarrow> sn_followups s' = sn_followups s \<and> sn_history s' = sn_history s"
  by (induction cs arbitrary: s r s') (auto simp: Let_def split: prod.splits option.splits)

text \<open>How a round goes: the LLM fails, it is the last round, a tool panics, or there is a next round.\<close>

lemma tool_rounds_cases:
  assumes "tool_rounds E cfg (Suc k) t s = (r, s')"
  obtains (failed) w where "sn_history s' = sn_history s" "s' = s\<lparr>sn_world := w\<rparr>"
  | (last_round) a :: llm_response and w where "s' = add_turn (AssistantTurn (lr_text a) (lr_calls a)) (s\<lparr>sn_world := w\<rparr>)"
  | (panic) a :: llm_response and w where "execute_tool_calls E cfg (lr_calls a) (add_turn (AssistantTurn (lr_text a) (lr_calls a)) (s\<lparr>sn_world := w\<rparr>)) = (None, s')"
  | (again) a :: llm_response and w rs s3 where "lr_calls a \<noteq> []"
      "execute_tool_calls E cfg (lr_calls a) (add_turn (AssistantTurn (lr_text a) (lr_calls a)) (s\<lparr>sn_world := w\<rparr>)) = (Some rs, s3)"
      "tool_rounds E cfg k (lr_text a) (drain_steering (add_turn (ToolResults rs) s3)) = (r, s')"
proof -
  obtain a w where c: "sv_complete E (build_request E cfg (sn_history s)) (sn_world s) = (a, w)" by fastforce
  show thesis
  proof (cases a)
    case (Inl e)
    then have "s' = s\<lparr>sn_world := w\<rparr>" using assms by (simp add: c)
    then show thesis using failed [of w] by simp
  next
    case (Inr x)
    obtain rs s3 where e: "execute_tool_calls E cfg (lr_calls x)
      (add_turn (AssistantTurn (lr_text x) (lr_calls x)) (s\<lparr>sn_world := w\<rparr>)) = (rs, s3)" by fastforce
    show thesis
    proof (cases "lr_calls x = [] \<or> k = 0")
      case True
      then have "s' = add_turn (AssistantTurn (lr_text x) (lr_calls x)) (s\<lparr>sn_world := w\<rparr>)"
        using assms by (auto simp: c Inr Let_def)
      then show thesis by (rule last_round)
    next
      case calls: False
      show thesis
      proof (cases rs)
        case None
        then have "s' = s3" using assms calls by (simp add: c Inr e)
        then show thesis using panic e None by blast
      next
        case (Some results)
        then have "tool_rounds E cfg k (lr_text x) (drain_steering (add_turn (ToolResults results) s3)) = (r, s')"
          using assms calls by (simp add: c Inr e)
        then show thesis using again e Some calls by blast
      qed
    qed
  qed
qed

lemma tool_rounds_followups: "tool_rounds E cfg k t s = (r, s') \<Longrightarrow> sn_followups s' = sn_followups s"
proof (induction k arbitrary: t s)
  case (Suc k)
  from Suc.prems show ?case
    by (cases rule: tool_rounds_cases) (auto dest!: execute_tool_calls_frames Suc.IH)
qed simp

lemma with_input_frames [simp]:
  "sn_followups (with_input i s) = sn_followups s"
  "sn_history (with_input i s) = sn_history s @ UserTurn i # map SteeringTurn (sn_steering s)"
  by (simp_all add: with_input_def add_turn_def)

text \<open>An input is refused, or it is the rounds after it was added.\<close>

lemma single_input_cases:
  assumes "process_single_input E cfg i s = (r, s')"
  obtains (refused) "sn_history s' = sn_history s" "sn_followups s' = sn_followups s"
  | (rounds) r1 s1 where "tool_rounds E cfg (sc_max_rounds cfg) [] (with_input i s) = (r1, s1)"
      "sn_history s' = sn_history s1" "sn_followups s' = sn_followups s1"
proof -
  obtain r1 s1 where t: "tool_rounds E cfg (sc_max_rounds cfg) [] (with_input i s) = (r1, s1)" by fastforce
  show thesis
  proof (cases "0 < sc_max_turns cfg \<and> sc_max_turns cfg < sn_turns s + 1")
    case True
    then have "s' = s\<lparr>sn_turns := sn_turns s + 1\<rparr>" using assms by (simp add: process_single_input_def Let_def)
    then show thesis using refused by simp
  next
    case False
    then have "(r, s') = (case r1 of Ran t \<Rightarrow> (Ran t, s1\<lparr>sn_state := AwaitingInput\<rparr>) | _ \<Rightarrow> (r1, s1))"
      using assms t False by (cases "sc_max_turns cfg = 0") (simp_all add: process_single_input_def)
    then show thesis using rounds [OF t] by (cases r1) simp_all
  qed
qed

lemma single_input_followups: "process_single_input E cfg i s = (r, s') \<Longrightarrow> sn_followups s' = sn_followups s"
  by (erule single_input_cases) (auto dest!: tool_rounds_followups)

text \<open>An input and then the follow-ups that are queued, each as an input of its own.\<close>

function process_input :: "'w session_env \<Rightarrow> session_config \<Rightarrow> str \<Rightarrow> 'w session \<Rightarrow> str ran \<times> 'w session" where
  "process_input E cfg input s =
     (case process_single_input E cfg input s of
        (Ran t, s1) \<Rightarrow>
          (case sn_followups s1 of
             f # fs \<Rightarrow> process_input E cfg f (s1\<lparr>sn_followups := fs\<rparr>)
           | [] \<Rightarrow> (Ran t, s1\<lparr>sn_state := Idle\<rparr>))
      | (r, s1) \<Rightarrow> (r, s1))"
  by pat_completeness auto
termination
  by (relation "measure (\<lambda>(E, cfg, input, s). length (sn_followups s))") (auto dest!: single_input_followups [OF sym])

declare process_input.simps [simp del]

section \<open>What the detector finds\<close>

lemma record_all_recent:
  assumes "0 < n" "ss \<noteq> []" "ld_window d = n" "ld_recent d = drop (length pre - n) pre"
  shows "ld_recent (snd (record_all ss d)) = drop (length (pre @ ss) - n) (pre @ ss) \<and>
    (fst (record_all ss d) \<longleftrightarrow> n \<le> length (pre @ ss) \<and>
      (\<exists>x. drop (length (pre @ ss) - n) (pre @ ss) = replicate n x))"
  using assms(2-)
proof (induction ss d arbitrary: pre rule: record_all.induct)
  case (2 s d)
  have step: "drop (length (ld_recent d @ [s]) - n) (ld_recent d @ [s]) = drop (length (pre @ [s]) - n) (pre @ [s])"
    using 2 assms(1) by (cases "length pre \<le> n") (auto simp: Suc_diff_le)
  define r where "r = drop (length (pre @ [s]) - n) (pre @ [s])"
  have rc: "record_and_check s d = (n \<le> length r \<and> list_all (\<lambda>x. x = hd r) r, d\<lparr>ld_recent := r\<rparr>)"
    unfolding record_and_check_def Let_def 2(2) step r_def [symmetric] using assms(1) by simp
  have len: "length r = min n (Suc (length pre))" by (simp add: r_def)
  have "(n \<le> length r \<and> list_all (\<lambda>x. x = hd r) r) = (n \<le> length (pre @ [s]) \<and> (\<exists>x. r = replicate n x))"
  proof (cases "n \<le> Suc (length pre)")
    case True
    then have l: "length r = n" "r \<noteq> []" using len assms(1) by auto
    have "list_all (\<lambda>x. x = hd r) r = (r = replicate n (hd r))"
      using l(1) by (auto simp: list_all_iff replicate_length_same)
        (metis in_set_replicate)
    moreover have "hd r = x" if "r = replicate n x" for x using that l by (cases n) auto
    ultimately show ?thesis using l True by (metis length_append_singleton order_refl)
  next
    case False
    then show ?thesis using len by auto
  qed
  then show ?case unfolding record_all.simps rc by (simp add: r_def)
next
  case (3 s t ss d)
  have "drop (length (ld_recent d @ [s]) - n) (ld_recent d @ [s]) = drop (length (pre @ [s]) - n) (pre @ [s])"
    using 3 assms(1) by (cases "length pre \<le> n") (auto simp: Suc_diff_le)
  then have "ld_window (snd (record_and_check s d)) = n"
    "ld_recent (snd (record_and_check s d)) = drop (length (pre @ [s]) - n) (pre @ [s])"
    using 3 assms(1) by (simp_all add: record_and_check_def Let_def)
  from 3(1) [OF _ this] show ?case by simp
qed simp

text \<open>
  A loop is reported exactly when the last calls, as many as the window, had the same
  signature; a window of zero never reports one.
\<close>

theorem loop_detector_exact:
  assumes "ss \<noteq> []"
  shows "fst (record_all ss (new_detector n)) \<longleftrightarrow>
    0 < n \<and> n \<le> length ss \<and> (\<exists>x. drop (length ss - n) ss = replicate n x)"
proof (cases "n = 0")
  case True
  have "fst (record_all ss d) = False" if "ld_window d = 0" for d
    using that assms by (induction ss d rule: record_all.induct) (auto simp: record_and_check_def)
  then show ?thesis using True by (simp add: new_detector_def)
next
  case False
  then show ?thesis using record_all_recent [of n ss "new_detector n" "[]"] assms by (simp add: new_detector_def)
qed

section \<open>The conversation stays paired\<close>

text \<open>Results answer the calls of the turn right before them, call by call.\<close>

definition answers :: "tool_call list \<Rightarrow> tool_result list \<Rightarrow> bool" where
  "answers cs rs \<longleftrightarrow> map tr_id rs = map tc_id cs \<and> map tr_name rs = map tc_name cs"

fun pending :: "turn list \<Rightarrow> tool_call list" where
  "pending [] = []"
| "pending (t # ts) = (if ts = [] then (case t of AssistantTurn s cs \<Rightarrow> cs | _ \<Rightarrow> []) else pending ts)"

fun paired_from :: "tool_call list \<Rightarrow> turn list \<Rightarrow> bool" where
  "paired_from cs [] = True"
| "paired_from cs (t # ts) =
     (case t of
        ToolResults rs \<Rightarrow> cs \<noteq> [] \<and> answers cs rs \<and> paired_from [] ts
      | AssistantTurn s ds \<Rightarrow> paired_from ds ts
      | _ \<Rightarrow> paired_from [] ts)"

definition paired :: "turn list \<Rightarrow> bool" where
  "paired ts \<longleftrightarrow> paired_from [] ts"

lemma pending_snoc [simp]: "pending (ts @ [t]) = (case t of AssistantTurn s cs \<Rightarrow> cs | _ \<Rightarrow> [])"
  by (induction ts) auto

definition turn_fits :: "tool_call list \<Rightarrow> turn \<Rightarrow> bool" where
  "turn_fits cs t \<longleftrightarrow> (case t of ToolResults rs \<Rightarrow> cs \<noteq> [] \<and> answers cs rs | _ \<Rightarrow> True)"

lemma paired_from_snoc:
  "paired_from cs (ts @ [t]) \<longleftrightarrow> paired_from cs ts \<and> turn_fits (if ts = [] then cs else pending ts) t"
proof (induction ts arbitrary: cs)
  case Nil
  then show ?case by (cases t) (simp_all add: turn_fits_def)
next
  case (Cons x xs)
  then show ?case by (cases x) auto
qed

lemma paired_snoc: "paired (ts @ [t]) \<longleftrightarrow> paired ts \<and> turn_fits (pending ts) t"
  by (auto simp: paired_def paired_from_snoc)

lemma paired_steering [simp]: "paired (ts @ map SteeringTurn ms) \<longleftrightarrow> paired ts"
proof (induction ms rule: rev_induct)
  case (snoc m ms)
  have "paired ((ts @ map SteeringTurn ms) @ [SteeringTurn m]) = paired (ts @ map SteeringTurn ms)"
    by (simp only: paired_snoc) (simp add: turn_fits_def)
  with snoc show ?case by simp
qed simp

lemma paired_drain [simp]: "paired (sn_history (drain_steering s)) \<longleftrightarrow> paired (sn_history s)"
  by simp

lemma paired_add: "paired (sn_history (add_turn t s)) \<longleftrightarrow> paired (sn_history s) \<and> turn_fits (pending (sn_history s)) t"
  by (simp add: paired_snoc)

lemma execute_tool_calls_answers:
  "execute_tool_calls E cfg cs s = (Some rs, s') \<Longrightarrow> answers cs rs"
  by (induction cs arbitrary: s rs s') (fastforce simp: answers_def Let_def split: prod.splits option.splits)+

lemma paired_answer [simp]: "paired (sn_history (add_turn (AssistantTurn t cs) s)) \<longleftrightarrow> paired (sn_history s)"
  unfolding paired_add by (simp add: turn_fits_def)

lemma tool_rounds_paired: "tool_rounds E cfg k t s = (r, s') \<Longrightarrow> paired (sn_history s) \<Longrightarrow> paired (sn_history s')"
proof (induction k arbitrary: t s)
  case (Suc k)
  from Suc.prems(1) show ?case
  proof (cases rule: tool_rounds_cases)
    case (failed w)
    with Suc.prems(2) show ?thesis by simp
  next
    case (last_round a w)
    with Suc.prems(2) show ?thesis by (simp del: session_frames)
  next
    case (panic a w)
    then have "sn_history s' = sn_history (add_turn (AssistantTurn (lr_text a) (lr_calls a)) (s\<lparr>sn_world := w\<rparr>))"
      using execute_tool_calls_frames by blast
    with Suc.prems(2) show ?thesis by (simp del: session_frames)
  next
    case (again a w rs s3)
    have h: "sn_history s3 = sn_history (add_turn (AssistantTurn (lr_text a) (lr_calls a)) (s\<lparr>sn_world := w\<rparr>))"
      using again(2) execute_tool_calls_frames by blast
    have "pending (sn_history s3) = lr_calls a" by (simp add: h)
    moreover have "paired (sn_history s3)" using Suc.prems(2) unfolding h by (simp del: session_frames)
    ultimately have "paired (sn_history (drain_steering (add_turn (ToolResults rs) s3)))"
      using execute_tool_calls_answers [OF again(2)] again(1) unfolding paired_drain paired_add by (simp add: turn_fits_def)
    then show ?thesis using Suc.IH again(3) by blast
  qed
qed simp

lemma single_input_paired:
  assumes "process_single_input E cfg i s = (r, s')" "paired (sn_history s)"
  shows "paired (sn_history s')"
  using assms(1)
proof (cases rule: single_input_cases)
  case (rounds r1 s1)
  have "paired (sn_history (with_input i s))"
    using assms(2) unfolding with_input_def paired_drain paired_add by (simp add: turn_fits_def)
  with rounds show ?thesis using tool_rounds_paired by fastforce
qed (use assms(2) in simp)

text \<open>
  Property C29. The conversation stays paired, whatever the LLM answers and the tools do, and also when an input ends in an
  error or a panic: results of tools stand right behind the turn with the calls, one for every call, in the order
  of the calls and under their ids.
\<close>

theorem conversation_paired:
  "process_input E cfg input s = (r, s') \<Longrightarrow> paired (sn_history s) \<Longrightarrow> paired (sn_history s')"
proof (induction E cfg input s rule: process_input.induct)
  case (1 E cfg input s)
  obtain r1 s1 where p: "process_single_input E cfg input s = (r1, s1)" by fastforce
  have h: "paired (sn_history s1)" using single_input_paired [OF p 1(3)] .
  show ?case
  proof (cases "\<exists>t f fs. r1 = Ran t \<and> sn_followups s1 = f # fs")
    case True
    then obtain t f fs where q: "r1 = Ran t" "sn_followups s1 = f # fs" by blast
    have "process_input E cfg f (s1\<lparr>sn_followups := fs\<rparr>) = (r, s')"
      using 1(2) p q by (simp add: process_input.simps [of E cfg input s])
    from 1(1) [OF p [symmetric] q(1) q(2) this] h show ?thesis by simp
  next
    case False
    then have "sn_history s' = sn_history s1"
      using 1(2) p by (auto simp: process_input.simps [of E cfg input s] split: ran.splits list.splits)
    with h show ?thesis by simp
  qed
qed

section \<open>Calls without results\<close>

text \<open>The answers of the LLM to one input are at most as many as the rounds allowed.\<close>

definition llm_answers :: "turn list \<Rightarrow> nat" where
  "llm_answers ts = length (filter (\<lambda>t. case t of AssistantTurn s cs \<Rightarrow> True | _ \<Rightarrow> False) ts)"

lemma llm_answers_simps [simp]:
  "llm_answers (ts @ us) = llm_answers ts + llm_answers us" "llm_answers (UserTurn s # ts) = llm_answers ts" "llm_answers (AssistantTurn s cs # ts) = Suc (llm_answers ts)"
  "llm_answers (ToolResults rs # ts) = llm_answers ts" "llm_answers (map SteeringTurn ms) = 0" "llm_answers [] = 0"
  by (simp_all add: llm_answers_def filter_empty_conv)

lemma tool_rounds_bound: "tool_rounds E cfg k t s = (r, s') \<Longrightarrow> llm_answers (sn_history s') \<le> llm_answers (sn_history s) + k"
proof (induction k arbitrary: t s)
  case (Suc k)
  from Suc.prems show ?case
  proof (cases rule: tool_rounds_cases)
    case (again a w rs s3)
    then show ?thesis using execute_tool_calls_frames [OF again(2)] Suc.IH [OF again(3)] by simp
  qed (auto dest: execute_tool_calls_frames)
qed simp

lemma single_input_bound:
  assumes "process_single_input E cfg i s = (r, s')"
  shows "llm_answers (sn_history s') \<le> llm_answers (sn_history s) + sc_max_rounds cfg"
  using assms
proof (cases rule: single_input_cases)
  case (rounds r1 s1)
  with tool_rounds_bound [OF rounds(1)] show ?thesis by simp
qed simp

text \<open>
  The bound on rounds leaves a call without its result: the last answer is recorded with its calls, which are never
  run, and the next input is sent with this turn in front of it.
\<close>

definition one_call :: tool_call where
  "one_call = \<lparr>tc_id = ''c1'', tc_name = ''shell'', tc_arguments = JNull\<rparr>"

definition calling_env :: "unit session_env" where
  "calling_env =
     \<lparr>sv_complete = \<lambda>q w. (Inr \<lparr>lr_text = ''on it'', lr_calls = [one_call]\<rparr>, w), sv_tools = [], sv_hash = length,
      sv_json_text = \<lambda>_. [], sv_fmt2 = \<lambda>_. []\<rparr>"

lemma calls_left_open:
  "let cfg = default_session\<lparr>sc_max_rounds := 1\<rparr>; (r, s) = process_input calling_env cfg ''a'' (new_session cfg ())
   in r = Ran ''on it'' \<and> sn_history s = [UserTurn ''a'', AssistantTurn ''on it'' [one_call]] \<and> sn_state s = Idle"
  by (simp add: process_input.simps process_single_input_def calling_env_def new_session_def default_session_def add_turn_def
      drain_steering_def)

text \<open>Two rounds: the call of the first is answered, that of the second is not.\<close>

definition two_rounds :: "turn list" where
  "two_rounds =
     [UserTurn ''a'', AssistantTurn ''on it'' [one_call],
      ToolResults [\<lparr>tr_id = ''c1'', tr_name = ''shell'', tr_content = ''Unknown tool: shell'', tr_is_error = True\<rparr>],
      AssistantTurn ''on it'' [one_call]]"

lemma two_rounds_run:
  "case process_input calling_env (default_session\<lparr>sc_max_rounds := 2\<rparr>) ''a'' (new_session default_session ()) of
     (r, s) \<Rightarrow> r = Ran ''on it'' \<and> sn_history s = two_rounds"
  by code_simp

theorem conversation_paired_witness:
  "\<exists>s. process_input calling_env (default_session\<lparr>sc_max_rounds := 2\<rparr>) ''a'' (new_session default_session ()) = (Ran ''on it'', s)
     \<and> sn_history s = two_rounds \<and> paired (sn_history s)"
proof -
  obtain s where p: "process_input calling_env (default_session\<lparr>sc_max_rounds := 2\<rparr>) ''a'' (new_session default_session ())
      = (Ran ''on it'', s)" and h: "sn_history s = two_rounds"
    using two_rounds_run by (auto split: prod.splits)
  have "paired (sn_history (new_session default_session ()))" by (simp add: new_session_def paired_def)
  from conversation_paired [OF p this] p h show ?thesis by blast
qed

end
