(* ===== verification/Spec2Isabelle.thy ===== *)
theory Spec2Isabelle
  imports Engine_Journal Dot_Examples Quality_Examples Codergen_Examples Agent_Session
begin

text \<open>
  \<^bold>\<open>PAS (pascals-discrete-attractor): a pipeline engine.\<close>

  A pipeline is a directed graph in a dialect of DOT. Its nodes are stages, run by handlers
  (an LLM agent, a tool, a human gate, a quality check), its edges carry conditions, labels and
  weights. The program reads the graph, rewrites it (stylesheet, prompt variables), compiles it
  to an execution plan, validates the plan, resolves a run configuration and then traverses the
  plan stage by stage, with retries, budgets, goal gates, checkpoints, a journal and resumption.
  This development models that path, from the statements of the DOT file to the end of a run.

  \<^bold>\<open>Theories and source\<close> (paths under \<open>src/crates\<close>).

  \<^item> \<^verbatim>\<open>Prelude\<close>: strings as Rust treats them (white space, splitting, decimal numbers, \<open>char\<close>
    boundaries in UTF-8 bytes), hash maps as association lists in iteration order (locale
    \<open>hash_map\<close>), loops with fuel and with a measure (\<open>iterate\<close>, \<open>rounds\<close>, locale \<open>bounded_loop\<close>).
  \<^item> \<^verbatim>\<open>Float64\<close>: the \<open>f64\<close> values and operations that costs and budgets need.
  \<^item> \<^verbatim>\<open>Types\<close>: \<open>attractor-types\<close> - JSON values, outcomes, the error enum with its messages and its
    classes, the shared context with handles and isolated clones.
  \<^item> \<^verbatim>\<open>Dot_Ast\<close>, \<^verbatim>\<open>Dot_Merge\<close>: \<open>attractor-dot\<close> - syntax tree, durations, \<open>strip_comments\<close>,
    \<open>merge_statements\<close> with scoped defaults. \<^verbatim>\<open>Dot_Parser\<close>: the grammar, as functions from the
    input to a failure or a value with the rest. \<^verbatim>\<open>Dot_Serial\<close>: the serializer. \<^verbatim>\<open>Dot_Print\<close> shows that
    the parser reads what the serializer writes, \<^verbatim>\<open>Dot_Roundtrip\<close> that the merge rebuilds the graph,
    \<^verbatim>\<open>Dot_Examples\<close> where this fails.
  \<^item> \<^verbatim>\<open>Graph\<close>: \<open>attractor-pipeline/src/graph.rs\<close> - conversion of the tree and the adjacency index.
  \<^item> \<^verbatim>\<open>Condition\<close>, \<^verbatim>\<open>Edge_Selection\<close>, \<^verbatim>\<open>Goal_Gate\<close>: \<open>condition.rs\<close>, \<open>edge_selection.rs\<close>,
    \<open>goal_gate.rs\<close> and \<open>retry.rs\<close> - the decisions taken between two stages.
  \<^item> \<^verbatim>\<open>Stylesheet\<close>, \<^verbatim>\<open>Transforms\<close>: \<open>stylesheet.rs\<close>, \<open>transforms.rs\<close> - the CSS-like parser with its
    panics, the cascade, and variable expansion.
  \<^item> \<^verbatim>\<open>Plan_Resolve\<close>, \<^verbatim>\<open>Plan\<close>, \<^verbatim>\<open>Plan_Sound\<close>: \<open>execution_plan.rs\<close> - resolution of one node, the
    compilation of a graph with all its diagnostics, the invariant \<open>plan_wf\<close> it establishes, the
    fingerprint and the registry check.
  \<^item> \<^verbatim>\<open>Validation\<close>: \<open>validation.rs\<close> - lint rules, reachability, \<open>validate_or_raise\<close>.
  \<^item> \<^verbatim>\<open>Run_Configuration\<close>: \<open>run_configuration.rs\<close> - reserved keys, limits, \<open>prepare\<close>.
  \<^item> \<^verbatim>\<open>Checkpoint\<close>: \<open>checkpoint.rs\<close> - the checkpoint on a file system whose operations may fail.
  \<^item> \<^verbatim>\<open>Engine\<close>: \<open>engine.rs\<close> and \<open>events.rs\<close> - \<open>invoke_node\<close>, the core loop, \<open>run_inner\<close>, as actions on
    a state (context, files, trace of observations) in an environment of functions on an
    abstract world. \<^verbatim>\<open>Engine_Props\<close> holds frames, step accounting and termination,
    \<^verbatim>\<open>Engine_Safety\<close> the bound on attempts, \<^verbatim>\<open>Engine_Example\<close> a concrete environment.

  \<^item> \<^verbatim>\<open>Journal_Event\<close>, \<^verbatim>\<open>Journal\<close>, \<^verbatim>\<open>Journal_Files\<close>: \<open>attractor-journal\<close> - the event types with the JSON
    trees of their derived serializers; the writer, the readers and the follower of a growing
    journal, as steps on the bytes of a file that any write may leave torn (locale \<open>line_log\<close>, interpreted for
    the journal and for the Run Index); status derivation, folder layout and answer files.
  \<^item> \<^verbatim>\<open>Monitor_View\<close>, \<^verbatim>\<open>Monitor_Findings\<close>: \<open>attractor-monitor\<close>, \<open>projection.rs\<close> and \<open>findings.rs\<close> - the fold
    of a journal into a view, with what each field of the view says of the events, and the rules that
    report what deserves attention. \<^verbatim>\<open>Engine_Journal\<close>: the journal form of the engine's events, and
    what the Monitor's view says of a run of the engine.
  \<^item> \<^verbatim>\<open>Handler_Dispatch\<close>: \<open>handler.rs\<close> and the handlers that do no I/O - the isolated run of a handler, the
    registry, and how the engine calls a registered handler. \<^verbatim>\<open>Host\<close>: processes and files as functions on
    the world, \<open>run_commits.rs\<close> (Git) and \<open>beads_adapter.rs\<close> (Beads). \<^verbatim>\<open>Natural_Order\<close>, \<^verbatim>\<open>Beads_Select\<close>,
    \<^verbatim>\<open>Beads_Close\<close>: \<open>handlers/beads.rs\<close> - the order of ids, claiming the next task of an epic, closing it
    once its commits are pushed. \<^verbatim>\<open>Human_Gate\<close>: \<open>handlers/wait_human.rs\<close> and \<open>interviewer.rs\<close> - question
    ids from the journal, the gate, and the interviewers that answer it. \<^verbatim>\<open>Tool_Handler\<close>: \<open>handlers/tool_handler.rs\<close>.
    \<^verbatim>\<open>Handler_Examples\<close>: a concrete host and the theorems on it.
  \<^item> \<^verbatim>\<open>Quality_Manifest\<close>: \<open>attractor-quality\<close> - the manifest's sections, the search for the nearest manifest, toolchain
    detection, enrichment of prompts, and the store of trusted manifests. \<^verbatim>\<open>Quality_Handler\<close>:
    \<open>handlers/quality_handler.rs\<close> - the stages of a quality node, run one after the other until one fails.
    \<^verbatim>\<open>Quality_Examples\<close>: the theorems on a concrete folder and host.
  \<^item> \<^verbatim>\<open>Agent_Config\<close>: the rest of \<open>run_configuration.rs\<close> - the controls of agents, the checks of the paths they name on a
    tree of files, folders and links, \<open>prepare\<close> as a whole (\<open>prepare_run\<close>), and what the trust hash of extensions
    covers. \<^verbatim>\<open>Skill_Copy\<close>: \<open>agent_resources.rs\<close> - copying the skills of a run and swapping the copy in.
  \<^item> \<^verbatim>\<open>Provider_Output\<close>: \<open>handlers/codergen_provider.rs\<close> - the readers of the JSON that the programs of LLM providers
    write, their answers and usage. \<^verbatim>\<open>Codergen\<close>: the command lines of the same file,
    \<open>handlers/provider_stream.rs\<close> and \<open>handlers/codergen_handler.rs\<close> - prompt, streamed process with Transcript and
    budget, outcome and event. \<^verbatim>\<open>Codergen_Props\<close> holds what is true of a run of an agent, \<^verbatim>\<open>Codergen_Examples\<close> a
    concrete program and skill.
  \<^item> \<^verbatim>\<open>Agent_Tools\<close>: \<open>attractor-tools\<close> (\<open>truncation.rs\<close>, \<open>tool.rs\<close>, \<open>profiles.rs\<close>, \<open>builtin/*.rs\<close>) - truncation of output,
    the registry, and reading, editing, writing and searching files on an execution environment.
    \<^verbatim>\<open>Agent_Session\<close>: \<open>attractor-agent\<close> (\<open>lib.rs\<close>, \<open>loop_detection.rs\<close>) - the conversation of the in-process agent: rounds of
    calls of tools, follow-ups, steering, and the detector of loops.

  \<^bold>\<open>Conventions.\<close> A string is the list of its UTF-8 bytes. A \<open>HashMap\<close> is an association list with
  distinct keys whose order stands for the iteration order; what must not depend on that order is
  stated for every list. Errors are values of sums; a panic is a value of its own. Integers are
  natural or unbounded integers with the overflow of the source written out, for a debug build
  (panic) and a release build (wrap) where they differ.

  \<^bold>\<open>What the lemmas show.\<close> Per component: invariants (\<open>plan_wf\<close>, \<open>graph_ok\<close>, \<open>merge_inv\<close>), exactness
  of checks against a declarative reading (reachability, goal gates, validation, registry),
  round trips (DOT graphs, durations, conditions, checkpoints), the absence of panics, and the defects that
  modelling showed. Across components: the loop of the engine stays on nodes of the graph, every
  round decreases a measure, every emitted event is journaled before it is broadcast, attempts
  and steps are bounded, and every run ends. Of the handlers: a handler changes the context only through
  its outcome and by removing keys that are not reserved, the task that is selected is the first that can
  be claimed, a task is closed only when Git confirms its commits, a gate takes no answer but one of its
  choices, no command of a manifest that is not trusted runs, and nothing runs after a failed quality stage.
  Of agents: every process is reported by one event, a budget stops a run at the first line that passes it, the
  Transcript is the output that was read, the label of an answer decides the next edge, and an agent never sees
  a part of a copied skill. Of the in-process agent: the results of tools stand right behind their calls, a loop is
  reported exactly when the last calls of the window are the same, truncation keeps the allowed number of
  characters, and an edit changes one place.

  \<^bold>\<open>Fuel.\<close> The core loop is \<open>iterate\<close> with \<open>engine_fuel = 2 * max_steps + 2\<close>: each round either
  runs a stage, which consumes a step, or moves from the exit to a retry target, which is not an
  exit. The statement loop of the DOT parser has the length of the input. The search of the reachability rule has the number of nodes plus the number of edges plus
  two. The search for a free question id tries one number more than there are ids in use. These amounts are
  proved sufficient. The search for a manifest visits 16 folders, as the source bounds it. The rounds
  of an agent have the bound of its configuration, and its follow-ups become fewer with every input.

  \<^bold>\<open>Parameters.\<close> Code outside the repository is an argument of the definitions that use it: float
  formatting, SHA-256, the label regex, \<open>serde_json\<close>, the clock, BLAKE3, processes and file operations that
  fail, the client of an LLM. To the engine a handler is a function of the environment; \<open>engine_handlers\<close> makes these functions
  from a registry of modelled handlers.

  \<^bold>\<open>Not modelled.\<close> The LLM adapters (HTTP and JSON of external services), the local execution environment of the
  in-process agent and the builder of its system prompt, preflight and provider readiness (versions and credentials of external programs), run metadata, the
  command line, the monitor's web pages, the text of log messages. Capturing the output of a process in the
  background is part of the host operation that runs it; a process that is streamed is the lines it writes, its
  end, and its end if it is killed before.
\<close>

section \<open>From a DOT graph to the end of a run\<close>

lemma compile_keeps_catalog:
  assumes "compile_with_policy fmt fmt2 b g cat policy = Inr (p, d)" "plan_node p i = Some r"
  shows "hm_get (pl_capabilities p) (handler_as_str (rn_handler r)) = hm_get cat (handler_as_str (rn_handler r))"
proof -
  obtain g1 d1 where "normalize_aliases g = (g1, d1)" by fastforce
  with assms(1) have "collect_capabilities cat (pl_nodes p) = Inr (pl_capabilities p)"
    by (auto simp: compile_with_policy_def Let_def split: if_splits)
  moreover have "r \<in> set (hm_values (pl_nodes p))"
    using assms(2) by (force simp: plan_node_def hm_values_def dest: hm_get_in_set)
  ultimately show ?thesis by (rule collect_capabilities_get)
qed

lemma compile_registered:
  assumes "compile_plan fmt fmt2 b (from_dot g) = Inr p"
  shows "plan_wf p \<and> ensure_registry_compatible p builtin_handler_catalog = Inr ()"
proof -
  from assms obtain d where c: "compile_with_policy fmt fmt2 b (from_dot g) builtin_handler_catalog Reject = Inr (p, d)"
    by (auto simp: compile_plan_def)
  have wf: "plan_wf p" using compile_establishes_plan_wf [OF from_dot_ok c] by simp
  have "hm_get builtin_handler_catalog (handler_as_str (rn_handler r)) = Some (rn_provider r \<noteq> None)"
    if "plan_node p i = Some r" for i r
    using compile_keeps_catalog [OF c that] wf that by (simp add: plan_wf_def node_wf_def)
  then show ?thesis
    using wf by (auto simp: registry_check_iff list_all_iff split: option.split)
qed

text \<open>
  Property C1. The parts fit together: when a DOT graph passes validation and its compiled plan is
  prepared, the engine with the built-in handlers admits the run - none of its own checks can
  reject it - and in a release build the run ends with a result or an error and without a panic,
  whatever the handlers, the journal, the disk and an old checkpoint do.
\<close>

theorem validated_pipeline_runs:
  assumes "validate_or_raise fmt fmt2 b found (from_dot g) = Inr (Inr ls)"
    and "compile_plan fmt fmt2 b (from_dot g) = Inr p"
    and "prepare workdir manifest claude paths p opts = ConfigOk (en_config env)"
    and "en_capabilities env = builtin_handler_catalog" "en_profile env = Release"
    and "list_all (\<lambda>k. \<not> is_reserved_key k) (hm_keys (ctx_values (rs_ctx s0)))"
  shows "admit env s0 = (Inr (), s0)
    \<and> (\<exists>r s. run_inner env s0 = Some (r, s) \<and> r \<noteq> Inl EnginePanic)"
proof -
  have p: "en_plan env = p" "config_ok (en_config env)"
    using prepare_ok [OF assms(3)] by (simp_all add: en_plan_def)
  have c: "plan_wf p" "ensure_registry_compatible p builtin_handler_catalog = Inr ()"
    using compile_registered [OF assms(2)] by simp_all
  have "plan_clean p"
    using assms(1,2) validate_plan_clean [of fmt2 p]
    by (auto simp: validate_or_raise_def validate_def split: if_splits)
  then have "errors_of (validate_plan (en_fmt2 env) p) = []" by (simp add: validate_plan_clean)
  moreover have "sort (filter is_reserved_key (hm_keys (ctx_values (rs_ctx s0)))) = []"
    using assms(6) by (simp add: list_all_iff filter_empty_conv)
  ultimately have "admit env s0 = (Inr (), s0)"
    using c(2) assms(4) p(1) by (simp add: admit_def act_bind_def observe_def ret_def)
  moreover obtain r s where "run_inner env s0 = Some (r, s)"
    using run_inner_total [of env s0] c(1) p(1) by auto
  moreover from this have "r \<noteq> Inl EnginePanic"
    using run_no_panic c(1) p assms(5) by blast
  ultimately show ?thesis by blast
qed

definition prepared_gate :: run_configuration where
  "prepared_gate = (case prepare (Inr ''/w'') (Inr None) None None gate_plan default_options of ConfigOk rc \<Rightarrow> rc)"

theorem validated_pipeline_runs_witness:
  "admit ((example_env 9 gate_plan gate_outcome)\<lparr>en_config := prepared_gate\<rparr>) example_start = (Inr (), example_start)
    \<and> (\<exists>r s. run_inner ((example_env 9 gate_plan gate_outcome)\<lparr>en_config := prepared_gate\<rparr>) example_start = Some (r, s)
         \<and> r \<noteq> Inl EnginePanic)"
proof -
  have "case validate_or_raise (\<lambda>_. []) (\<lambda>_. []) Release False (from_dot gate_graph) of Inr (Inr ls) \<Rightarrow> True | _ \<Rightarrow> False"
    by code_simp
  then obtain ls where v: "validate_or_raise (\<lambda>_. []) (\<lambda>_. []) Release False (from_dot gate_graph) = Inr (Inr ls)"
    by (auto split: sum.splits)
  have c: "compile_plan (\<lambda>_. []) (\<lambda>_. []) Release (from_dot gate_graph) = Inr gate_plan"
    using gate_graph_compiles by (simp add: compile_plan_def)
  have "case prepare (Inr ''/w'') (Inr None) None None gate_plan default_options of ConfigOk rc \<Rightarrow> True | _ \<Rightarrow> False"
    by code_simp
  then have "prepare (Inr ''/w'') (Inr None) None None gate_plan default_options = ConfigOk prepared_gate"
    by (auto simp: prepared_gate_def split: config_result.splits)
  then have "prepare (Inr ''/w'') (Inr None) None None gate_plan default_options =
      ConfigOk (en_config ((example_env 9 gate_plan gate_outcome)\<lparr>en_config := prepared_gate\<rparr>))"
    by simp
  with v c show ?thesis
  proof (rule validated_pipeline_runs)
  qed (simp_all add: example_env_def example_start_def ctx_empty_def hm_keys_def)
qed

end
